(* ===== verification/Prelude.thy ===== *)
theory Prelude
  imports Main
begin

text \<open>
  Shared ground of the development: JavaScript strings as lists of UTF-16 code units, the
  string methods the worker uses, JavaScript's insertion-ordered \<open>Map\<close> and \<open>Set\<close> as
  association lists and duplicate-free lists, and the two locales every stateful component
  is an instance of: an insertion-ordered map, and a machine whose operations may throw.
\<close>

named_theorems inv_defs \<open>definitions of the well-formedness invariants\<close>
named_theorems op_defs \<open>definitions of the state-changing operations\<close>

section \<open>Strings\<close>

text \<open>
  A JavaScript string is a sequence of UTF-16 code units; \<open>length\<close>, \<open>slice\<close> and indexing
  count code units. A string literal of the code is written \<open>js ''...''\<close> when it is ASCII;
  the Chinese literals of the code are written as their code units.
\<close>

type_synonym jsstring = "nat list"

definition js :: "string \<Rightarrow> jsstring" where
  "js s = map of_char s"

lemma js_eq_iff [simp]: "js a = js b \<longleftrightarrow> a = b"
proof -
  have "inj (of_char :: char \<Rightarrow> nat)" by (simp add: inj_def)
  then show ?thesis by (simp add: js_def inj_map_eq_map)
qed

lemma js_Nil_iff [simp]: "js a = [] \<longleftrightarrow> a = []" "[] = js a \<longleftrightarrow> a = []"
  by (auto simp: js_def)

lemma length_js [simp]: "length (js a) = length a"
  by (simp add: js_def)

text \<open>White space as \<open>trim\<close> and the regular-expression class \<open>\s\<close> know it (ECMAScript
  WhiteSpace and LineTerminator).\<close>

definition is_ws :: "nat \<Rightarrow> bool" where
  "is_ws c \<longleftrightarrow> (9 \<le> c \<and> c \<le> 13) \<or> c = 32 \<or> c = 160 \<or> c = 5760 \<or> (8192 \<le> c \<and> c \<le> 8202)
     \<or> c = 8232 \<or> c = 8233 \<or> c = 8239 \<or> c = 8287 \<or> c = 12288 \<or> c = 65279"

definition trim_start :: "jsstring \<Rightarrow> jsstring" where
  "trim_start s = dropWhile is_ws s"

definition js_trim :: "jsstring \<Rightarrow> jsstring" where
  "js_trim s = rev (trim_start (rev (trim_start s)))"

definition starts_with :: "jsstring \<Rightarrow> jsstring \<Rightarrow> bool" where
  "starts_with s p \<longleftrightarrow> take (length p) s = p"

definition ends_with :: "jsstring \<Rightarrow> jsstring \<Rightarrow> bool" where
  "ends_with s p \<longleftrightarrow> starts_with (rev s) (rev p)"

fun index_of :: "jsstring \<Rightarrow> jsstring \<Rightarrow> nat option" where
  "index_of [] p = (if p = [] then Some 0 else None)"
| "index_of (c # r) p =
     (if starts_with (c # r) p then Some 0 else map_option Suc (index_of r p))"

definition has_sub :: "jsstring \<Rightarrow> jsstring \<Rightarrow> bool" where
  "has_sub s p \<longleftrightarrow> index_of s p \<noteq> None"

text \<open>\<open>s.slice(a, b)\<close> for \<open>0 \<le> a\<close> and \<open>0 \<le> b\<close>, and \<open>s.slice(-k)\<close> (the whole string for
  \<open>k = 0\<close>, as \<open>-0\<close> is \<open>0\<close>).\<close>

definition slice :: "nat \<Rightarrow> nat \<Rightarrow> 'a list \<Rightarrow> 'a list" where
  "slice a b s = take (b - a) (drop a s)"

definition slice_last :: "nat \<Rightarrow> 'a list \<Rightarrow> 'a list" where
  "slice_last k s = (if k = 0 then s else drop (length s - k) s)"

fun js_join :: "jsstring \<Rightarrow> jsstring list \<Rightarrow> jsstring" where
  "js_join sep [] = []"
| "js_join sep [x] = x"
| "js_join sep (x # y # r) = x @ sep @ js_join sep (y # r)"

text \<open>\<open>s.split(sep)\<close>: an empty separator splits into code units.\<close>

function split_on :: "jsstring \<Rightarrow> jsstring \<Rightarrow> jsstring list" where
  "split_on sep s =
     (if sep = [] then map (\<lambda>c. [c]) s
      else case index_of s sep of
        None \<Rightarrow> [s]
      | Some i \<Rightarrow> take i s # split_on sep (drop (i + length sep) s))"
  by pat_completeness auto

text \<open>Splitting at one code unit, as \<open>s.split('\n')\<close> does.\<close>

fun split_char :: "nat \<Rightarrow> jsstring \<Rightarrow> jsstring list" where
  "split_char c [] = [[]]"
| "split_char c (x # xs) =
     (if x = c then [] # split_char c xs
      else case split_char c xs of [] \<Rightarrow> [[x]] | h # t \<Rightarrow> (x # h) # t)"

text \<open>\<open>s.replace(/\s+/g, ' ')\<close>.\<close>

function squash_ws :: "jsstring \<Rightarrow> jsstring" where
  "squash_ws [] = []"
| "squash_ws (c # r) =
     (if is_ws c then 32 # squash_ws (dropWhile is_ws r) else c # squash_ws r)"
  by pat_completeness auto
termination
  by (relation "measure length") (auto simp: le_imp_less_Suc length_dropWhile_le)

text \<open>Decimal digits of a natural number, as \<open>String(n)\<close> and template literals print it.\<close>

fun show_nat :: "nat \<Rightarrow> jsstring" where
  "show_nat n = (if n < 10 then [48 + n] else show_nat (n div 10) @ [48 + n mod 10])"

declare show_nat.simps [simp del]

text \<open>\<open>toLowerCase\<close>, as far as a search for an ASCII needle can see it: the ASCII capitals,
  and the two other code units whose lower case contains an ASCII letter (U+0130 and U+212A).\<close>

fun to_lower :: "jsstring \<Rightarrow> jsstring" where
  "to_lower [] = []"
| "to_lower (c # r) =
     (if 65 \<le> c \<and> c \<le> 90 then [c + 32]
      else if c = 0x130 then [105, 0x307]
      else if c = 0x212A then [107]
      else [c]) @ to_lower r"

subsection \<open>Laws of the string operations\<close>

lemma starts_with_Nil [simp]: "starts_with s []"
  by (simp add: starts_with_def)

lemma starts_with_iff: "starts_with s p \<longleftrightarrow> (\<exists>r. s = p @ r)"
  by (auto simp: starts_with_def) (metis append_take_drop_id)

lemma starts_with_append [simp]: "starts_with (p @ r) p"
  by (simp add: starts_with_def)

lemma index_of_Some:
  "index_of s p = Some i \<Longrightarrow> s = take i s @ p @ drop (i + length p) s"
proof (induction s arbitrary: i)
  case Nil
  then show ?case by (auto split: if_splits)
next
  case (Cons c r)
  show ?case
  proof (cases "starts_with (c # r) p")
    case True
    with Cons.prems have "i = 0" by simp
    with True show ?thesis
      by (metis add_0 append_Nil append_take_drop_id starts_with_def take0)
  next
    case False
    with Cons.prems obtain j where "index_of r p = Some j" "i = Suc j" by auto
    with Cons.IH show ?thesis by simp
  qed
qed

lemma index_of_bound: "index_of s p = Some i \<Longrightarrow> i + length p \<le> length s"
proof (induction s arbitrary: i)
  case Nil
  then show ?case by (auto split: if_splits)
next
  case (Cons c r)
  show ?case
  proof (cases "starts_with (c # r) p")
    case True
    then obtain q where "c # r = p @ q" by (auto simp: starts_with_iff)
    then have "length (c # r) = length p + length q" by simp
    with True Cons.prems show ?thesis by simp
  next
    case False
    with Cons.prems obtain j where "index_of r p = Some j" "i = Suc j" by auto
    with Cons.IH show ?thesis by fastforce
  qed
qed

lemma index_of_None: "index_of s p = None \<longleftrightarrow> (\<forall>a b. s \<noteq> a @ p @ b)"
proof (induction s)
  case Nil
  show ?case by auto
next
  case (Cons c r)
  show ?case (is "?L \<longleftrightarrow> ?R")
  proof
    assume L: ?L
    then have ns: "\<not> starts_with (c # r) p" and n: "index_of r p = None"
      by (auto split: if_splits)
    show ?R
    proof (intro allI notI)
      fix a b assume eq: "c # r = a @ p @ b"
      show False
      proof (cases a)
        case Nil
        with eq ns show False by (auto simp: starts_with_iff)
      next
        case (Cons x a')
        with eq have "r = a' @ p @ b" by simp
        with n Cons.IH show False by blast
      qed
    qed
  next
    assume R: ?R
    then have "\<not> starts_with (c # r) p" by (metis append_Nil starts_with_iff)
    moreover have "\<forall>a b. r \<noteq> a @ p @ b" using R by (metis append_Cons)
    ultimately show ?L using Cons.IH by simp
  qed
qed

lemma has_sub_iff: "has_sub s p \<longleftrightarrow> (\<exists>a b. s = a @ p @ b)"
  using index_of_None[of s p] by (auto simp: has_sub_def)

lemma has_sub_mid [simp]: "has_sub (a @ p @ b) p"
  unfolding has_sub_iff by blast

termination split_on
proof (relation "measure (\<lambda>(sep, s). length s)", goal_cases)
  case 1
  show ?case by simp
next
  case (2 sep s i)
  then have "i + length sep \<le> length s" by (simp add: index_of_bound)
  with 2 show ?case by (cases sep) auto
qed

declare split_on.simps [simp del]

lemma split_on_not_Nil: "sep \<noteq> [] \<Longrightarrow> split_on sep s \<noteq> []"
  by (subst split_on.simps) (auto split: option.splits)

lemma split_char_not_Nil [simp]: "split_char c s \<noteq> []"
  by (induction s) (auto split: list.splits)

lemma js_join_Cons: "xs \<noteq> [] \<Longrightarrow> js_join sep (x # xs) = x @ sep @ js_join sep xs"
  by (cases xs) auto

lemma join_split_on: "sep \<noteq> [] \<Longrightarrow> js_join sep (split_on sep s) = s"
proof (induction sep s rule: split_on.induct)
  case (1 sep s)
  show ?case
  proof (cases "index_of s sep")
    case None
    with 1(2) show ?thesis by (simp add: split_on.simps)
  next
    case (Some i)
    with 1 have "js_join sep (split_on sep (drop (i + length sep) s)) = drop (i + length sep) s"
      by simp
    with Some 1(2) show ?thesis
      using index_of_Some[OF Some]
      by (simp add: split_on.simps[of sep s] js_join_Cons split_on_not_Nil)
  qed
qed

lemma join_split_char: "js_join [c] (split_char c s) = s"
proof (induction s)
  case Nil
  show ?case by simp
next
  case (Cons x xs)
  show ?case
  proof (cases "split_char c xs")
    case Nil
    then show ?thesis by simp
  next
    case (Cons h t)
    with \<open>js_join [c] (split_char c xs) = xs\<close> show ?thesis
      by (cases t) auto
  qed
qed

lemma squash_ws_length: "length (squash_ws s) \<le> length s"
proof (induction s rule: squash_ws.induct)
  case (2 c r)
  then show ?case
    using length_dropWhile_le[of is_ws r] by (auto intro: le_trans)
qed simp

lemma trim_start_length: "length (trim_start s) \<le> length s"
  by (simp add: trim_start_def length_dropWhile_le)

lemma js_trim_length: "length (js_trim s) \<le> length s"
  unfolding js_trim_def using trim_start_length[of s] trim_start_length[of "rev (trim_start s)"]
  by simp

lemma js_trim_idem: "js_trim (js_trim s) = js_trim s"
proof -
  have a: "dropWhile is_ws (rev (dropWhile is_ws (rev t))) = rev (dropWhile is_ws (rev t))"
    if "t = [] \<or> \<not> is_ws (hd t)" for t
  proof (cases "dropWhile is_ws (rev t)")
    case (Cons y ys)
    have "t = rev (dropWhile is_ws (rev t)) @ rev (takeWhile is_ws (rev t))"
      by (metis rev_append rev_rev_ident takeWhile_dropWhile_id)
    then have "rev (dropWhile is_ws (rev t)) \<noteq> [] \<Longrightarrow> hd (rev (dropWhile is_ws (rev t))) = hd t"
      by (metis hd_append2)
    with Cons that show ?thesis
      by (cases "rev (dropWhile is_ws (rev t))") auto
  next
    case Nil
    show ?thesis unfolding Nil by simp
  qed
  have b: "dropWhile is_ws s = [] \<or> \<not> is_ws (hd (dropWhile is_ws s))"
    using hd_dropWhile by blast
  show ?thesis
    using a[OF b] by (simp add: js_trim_def trim_start_def dropWhile_idem)
qed

lemma show_nat_not_Nil [simp]: "show_nat n \<noteq> []"
  by (subst show_nat.simps) simp

section \<open>Sets and maps in insertion order\<close>

text \<open>\<open>[...new Set(xs)]\<close>: the first occurrence of every element, in order.\<close>

fun uniq :: "'a list \<Rightarrow> 'a list" where
  "uniq [] = []"
| "uniq (x # xs) = x # filter (\<lambda>y. y \<noteq> x) (uniq xs)"

lemma set_uniq [simp]: "set (uniq xs) = set xs"
  by (induction xs) auto

lemma distinct_uniq [simp]: "distinct (uniq xs)"
  by (induction xs) auto

lemma uniq_distinct: "distinct xs \<Longrightarrow> uniq xs = xs"
  by (induction xs) (auto intro!: filter_True)

lemma uniq_idem [simp]: "uniq (uniq xs) = uniq xs"
  by (simp add: uniq_distinct)

text \<open>
  A JavaScript \<open>Map\<close> iterates in insertion order and keeps a key's place when its value is
  replaced: an association list with distinct keys. \<open>map_of\<close> is \<open>get\<close>.
\<close>

type_synonym ('k, 'v) jsmap = "('k \<times> 'v) list"

fun map_set :: "'k \<Rightarrow> 'v \<Rightarrow> ('k, 'v) jsmap \<Rightarrow> ('k, 'v) jsmap" where
  "map_set k v [] = [(k, v)]"
| "map_set k v ((k', v') # m) = (if k' = k then (k, v) # m else (k', v') # map_set k v m)"

definition map_del :: "'k \<Rightarrow> ('k, 'v) jsmap \<Rightarrow> ('k, 'v) jsmap" where
  "map_del k m = filter (\<lambda>p. fst p \<noteq> k) m"

definition map_has :: "('k, 'v) jsmap \<Rightarrow> 'k \<Rightarrow> bool" where
  "map_has m k \<longleftrightarrow> map_of m k \<noteq> None"

abbreviation map_keys :: "('k, 'v) jsmap \<Rightarrow> 'k list" where
  "map_keys m \<equiv> map fst m"

abbreviation map_vals :: "('k, 'v) jsmap \<Rightarrow> 'v list" where
  "map_vals m \<equiv> map snd m"

definition map_wf :: "('k, 'v) jsmap \<Rightarrow> bool" where
  [inv_defs]: "map_wf m \<longleftrightarrow> distinct (map_keys m)"

lemma map_of_map_set [simp]: "map_of (map_set k v m) = (map_of m)(k \<mapsto> v)"
  by (induction m) auto

lemma map_of_map_del [simp]: "map_of (map_del k m) = (map_of m)(k := None)"
  by (induction m) (auto simp: map_del_def)

lemma in_keys [intro]: "(k, v) \<in> set m \<Longrightarrow> k \<in> fst ` set m"
  by force

lemma map_has_iff [simp]: "map_has m k \<longleftrightarrow> k \<in> set (map_keys m)"
  by (auto simp: map_has_def dom_map_of_conv_image_fst[symmetric])

lemma keys_map_set:
  "map_keys (map_set k v m) = (if k \<in> set (map_keys m) then map_keys m else map_keys m @ [k])"
  by (induction k v m rule: map_set.induct) auto

lemma keys_map_del: "map_keys (map_del k m) = filter (\<lambda>x. x \<noteq> k) (map_keys m)"
  by (induction m) (auto simp: map_del_def)

lemma set_map_set_subset: "set (map_set k v m) \<subseteq> insert (k, v) (set m)"
  by (induction k v m rule: map_set.induct) (auto split: if_splits)

lemma map_set_new: "k \<notin> set (map_keys m) \<Longrightarrow> map_set k v m = m @ [(k, v)]"
  by (induction m) auto

lemma map_wf_Nil [simp]: "map_wf []"
  by (simp add: map_wf_def)

lemma map_wf_set [simp]: "map_wf m \<Longrightarrow> map_wf (map_set k v m)"
  unfolding map_wf_def by (simp only: keys_map_set) auto

lemma map_wf_del [simp]: "map_wf m \<Longrightarrow> map_wf (map_del k m)"
  unfolding map_wf_def by (simp only: keys_map_del) auto

lemma map_of_wf: "map_wf m \<Longrightarrow> (k, v) \<in> set m \<Longrightarrow> map_of m k = Some v"
  by (simp add: map_wf_def)

subsection \<open>The interface the clients of a map rely on\<close>

locale ordered_map =
  fixes get :: "'m \<Rightarrow> 'k \<Rightarrow> 'v option"
    and put :: "'k \<Rightarrow> 'v \<Rightarrow> 'm \<Rightarrow> 'm"
    and del :: "'k \<Rightarrow> 'm \<Rightarrow> 'm"
    and keys :: "'m \<Rightarrow> 'k list"
    and wf :: "'m \<Rightarrow> bool"
  assumes get_put: "get (put k v m) = (get m)(k \<mapsto> v)"
    and get_del: "get (del k m) = (get m)(k := None)"
    and keys_get: "k \<in> set (keys m) \<longleftrightarrow> get m k \<noteq> None"
    and keys_put: "keys (put k v m) = (if k \<in> set (keys m) then keys m else keys m @ [k])"
    and wf_put: "wf m \<Longrightarrow> wf (put k v m)"
    and wf_del: "wf m \<Longrightarrow> wf (del k m)"
    and wf_keys: "wf m \<Longrightarrow> distinct (keys m)"
begin

lemma wf_puts: "wf m \<Longrightarrow> wf (foldl (\<lambda>m x. put (f x) (g x) m) m xs)"
  by (induction xs arbitrary: m) (auto simp: wf_put)

lemma wf_dels: "wf m \<Longrightarrow> wf (foldl (\<lambda>m k. del k m) m ks)"
  by (induction ks arbitrary: m) (auto simp: wf_del)

lemma get_puts_miss:
  "k \<notin> f ` set xs \<Longrightarrow> get (foldl (\<lambda>m x. put (f x) (g x) m) m xs) k = get m k"
  by (induction xs arbitrary: m) (auto simp: get_put)

lemma get_puts_hit:
  "x \<in> set xs \<Longrightarrow> distinct (map f xs) \<Longrightarrow>
   get (foldl (\<lambda>m x. put (f x) (g x) m) m xs) (f x) = Some (g x)"
proof (induction xs arbitrary: m)
  case (Cons y ys)
  show ?case
  proof (cases "x \<in> set ys")
    case True
    with Cons show ?thesis by simp
  next
    case False
    with Cons.prems have "x = y" by simp
    with Cons.prems show ?thesis
      by (simp add: get_puts_miss get_put)
  qed
qed simp

lemma get_puts_last:
  "get (foldl (\<lambda>m x. put (f x) (g x) m) m (xs @ [x])) (f x) = Some (g x)"
  by (simp add: get_put)

lemma get_dels: "get (foldl (\<lambda>m k. del k m) m ks) k = (if k \<in> set ks then None else get m k)"
  by (induction ks arbitrary: m) (auto simp: get_del)

lemma keys_puts_prefix: "\<exists>r. keys (foldl (\<lambda>m x. put (f x) (g x) m) m xs) = keys m @ r"
proof (induction xs arbitrary: m)
  case (Cons x xs)
  obtain r where "keys (foldl (\<lambda>m x. put (f x) (g x) m) (put (f x) (g x) m) xs)
      = keys (put (f x) (g x) m) @ r"
    using Cons.IH by blast
  then show ?case by (simp add: keys_put split: if_splits)
qed simp

lemma keys_puts_set:
  "set (keys (foldl (\<lambda>m x. put (f x) (g x) m) m xs)) = set (keys m) \<union> f ` set xs"
  by (induction xs arbitrary: m) (auto simp: keys_put)

end

interpretation jm: ordered_map map_of map_set map_del "map_keys" map_wf
proof (unfold_locales, goal_cases)
  case (3 k m)
  show ?case by (auto simp: dom_map_of_conv_image_fst[symmetric])
qed (auto simp: keys_map_set map_wf_def[symmetric] simp del: map_map)

section \<open>Machines whose operations may throw\<close>

text \<open>
  A component is a state and a set of calls; a call either throws, leaving an error, or
  returns with the next state. The run of a list of calls stops at the first throw.
\<close>

fun run_calls :: "('c \<Rightarrow> 's \<Rightarrow> 'e + 's) \<Rightarrow> 'c list \<Rightarrow> 's \<Rightarrow> 'e + 's" where
  "run_calls f [] s = Inr s"
| "run_calls f (c # cs) s = (case f c s of Inl e \<Rightarrow> Inl e | Inr s' \<Rightarrow> run_calls f cs s')"

lemma run_calls_append:
  "run_calls f (cs @ ds) s =
     (case run_calls f cs s of Inl e \<Rightarrow> Inl e | Inr s' \<Rightarrow> run_calls f ds s')"
  by (induction cs arbitrary: s) (auto split: sum.splits)

locale machine =
  fixes exec :: "'c \<Rightarrow> 's \<Rightarrow> 'e + 's"
    and inv :: "'s \<Rightarrow> bool"
  assumes exec_inv: "inv s \<Longrightarrow> exec c s = Inr s' \<Longrightarrow> inv s'"
begin

lemma run_inv: "inv s \<Longrightarrow> run_calls exec cs s = Inr s' \<Longrightarrow> inv s'"
  by (induction cs arbitrary: s) (auto split: sum.splits dest: exec_inv)

lemma run_prefix_inv:
  "inv s \<Longrightarrow> run_calls exec (cs @ ds) s = Inr s' \<Longrightarrow> \<exists>t. run_calls exec cs s = Inr t \<and> inv t"
  by (auto simp: run_calls_append split: sum.splits dest: run_inv)

end

end
