(* ===== verification/Diff.thy ===== *)
theory Diff
  imports Prelude "HOL-Library.Sublist"
begin

text \<open>
  Line diffs (\<open>worker/core/src/tools/diffPreview.ts\<close>,
  \<open>worker/core/src/tools/builtin/fileChangeStats.ts\<close>): splitting a text into lines, the
  dynamic-programming table of longest common subsequences and the edit script read off it,
  the rolling-array variant that only computes the length, context lines and gaps, and the
  truncation of a preview to a number of lines.

  Numbers of the options (line and context counts) are natural numbers; an array is a list
  updated by index inside its bounds.
\<close>

section \<open>Lines\<close>

definition split_content_lines :: "jsstring \<Rightarrow> jsstring list" where
  "split_content_lines t =
     (if t = [] then []
      else let n = (if ends_with t [10] then butlast t else t) in
        if n = [] then [] else split_char 10 n)"

definition count_lines :: "jsstring \<Rightarrow> nat" where
  "count_lines t =
     (if t = [] then 0
      else let n = (if ends_with t [10] then butlast t else t) in
        if n = [] then 0 else length (split_char 10 n))"

definition line_index_at :: "jsstring \<Rightarrow> nat \<Rightarrow> nat" where
  "line_index_at content index =
     (if index \<le> 0 then 0
      else foldl (\<lambda>lines i. if content ! i = 10 then lines + 1 else lines) 0
             [0..<min index (length content)])"

definition clip_line :: "jsstring \<Rightarrow> nat \<Rightarrow> jsstring" where
  "clip_line t mx = (if length t \<le> mx then t else slice 0 (mx - 1) t @ [0x2026])"

section \<open>Longest common subsequences\<close>

text \<open>One assignment of the inner loop: the cell \<open>j\<close> of the row being filled, from the row
  above it. The outer loop either keeps every row or swaps two rolling arrays.\<close>

definition lcs_cell :: "'a list \<Rightarrow> 'a list \<Rightarrow> nat \<Rightarrow> nat list \<Rightarrow> nat list \<Rightarrow> nat \<Rightarrow> nat list" where
  "lcs_cell a b i prev row j =
     row[j := if a ! (i - 1) = b ! (j - 1) then prev ! (j - 1) + 1
               else max (prev ! j) (row ! (j - 1))]"

definition lcs_row :: "'a list \<Rightarrow> 'a list \<Rightarrow> nat \<Rightarrow> nat list \<Rightarrow> nat list \<Rightarrow> nat list" where
  "lcs_row a b i prev row = foldl (lcs_cell a b i prev) row [1..<Suc (length b)]"

definition lcs_table :: "'a list \<Rightarrow> 'a list \<Rightarrow> nat list list" where
  "lcs_table a b =
     foldl (\<lambda>dp i. dp[i := lcs_row a b i (dp ! (i - 1)) (dp ! i)])
       (replicate (length a + 1) (replicate (length b + 1) 0)) [1..<Suc (length a)]"

definition longest_common_subsequence_length :: "'a list \<Rightarrow> 'a list \<Rightarrow> nat" where
  "longest_common_subsequence_length a b =
     (if length a = 0 \<or> length b = 0 then 0
      else fst (foldl (\<lambda>(prev, row) i. (lcs_row a b i prev row, map (\<lambda>_. 0) prev))
                  (replicate (length b + 1) 0, replicate (length b + 1) 0) [1..<Suc (length a)])
             ! length b)"

section \<open>Edit scripts\<close>

datatype edit_kind = EqL | DelL | AddL

record script_op =
  so_kind :: edit_kind
  so_text :: jsstring
  so_old :: "nat option"
  so_new :: "nat option"

fun backtrack :: "jsstring list \<Rightarrow> jsstring list \<Rightarrow> nat list list \<Rightarrow> nat \<Rightarrow> nat \<Rightarrow> script_op list" where
  "backtrack a b dp i j =
     (if i > 0 \<or> j > 0 then
        if i > 0 \<and> j > 0 \<and> a ! (i - 1) = b ! (j - 1) then
          \<lparr>so_kind = EqL, so_text = a ! (i - 1), so_old = Some i, so_new = Some j\<rparr>
            # backtrack a b dp (i - 1) (j - 1)
        else if j > 0 \<and> (i = 0 \<or> dp ! i ! (j - 1) \<ge> dp ! (i - 1) ! j) then
          \<lparr>so_kind = AddL, so_text = b ! (j - 1), so_old = None, so_new = Some j\<rparr>
            # backtrack a b dp i (j - 1)
        else
          \<lparr>so_kind = DelL, so_text = a ! (i - 1), so_old = Some i, so_new = None\<rparr>
            # backtrack a b dp (i - 1) j
      else [])"

declare backtrack.simps [simp del]

definition build_edit_script :: "jsstring list \<Rightarrow> jsstring list \<Rightarrow> script_op list" where
  "build_edit_script a b = rev (backtrack a b (lcs_table a b) (length a) (length b))"

section \<open>Previews\<close>

datatype diff_op = OpAdd | OpDel | OpMeta | OpCtx

record diff_line =
  dl_op :: diff_op
  dl_text :: jsstring
  dl_no :: "nat option"

record diff_hunk =
  h_old :: "nat option"
  h_new :: "nat option"
  h_lines :: "diff_line list"

record diff_preview =
  dp_lines :: "diff_line list"
  dp_hunks :: "diff_hunk list"
  dp_truncated :: bool
  dp_stats :: "nat \<times> nat"

record diff_options =
  o_max_lines :: "nat option"
  o_max_line_chars :: "nat option"
  o_max_lcs_cells :: "nat option"
  o_context_lines :: "nat option"
  o_file_content :: "jsstring option"

definition no_diff_options :: diff_options where
  "no_diff_options = \<lparr>o_max_lines = None, o_max_line_chars = None, o_max_lcs_cells = None,
     o_context_lines = None, o_file_content = None\<rparr>"

definition DEFAULT_MAX_LINES :: nat where "DEFAULT_MAX_LINES = 56"
definition DEFAULT_MAX_LINE_CHARS :: nat where "DEFAULT_MAX_LINE_CHARS = 200"
definition DEFAULT_MAX_LCS_CELLS :: nat where "DEFAULT_MAX_LCS_CELLS = 200000"
definition DEFAULT_CONTEXT_LINES :: nat where "DEFAULT_CONTEXT_LINES = 3"

definition or_default :: "'a option \<Rightarrow> 'a \<Rightarrow> 'a" where
  "or_default x d = (case x of Some v \<Rightarrow> v | None \<Rightarrow> d)"

abbreviation diff_line_of :: "diff_op \<Rightarrow> jsstring \<Rightarrow> nat option \<Rightarrow> diff_line" where
  "diff_line_of opn t no \<equiv> \<lparr>dl_op = opn, dl_text = t, dl_no = no\<rparr>"

abbreviation plain_hunk :: "diff_line list \<Rightarrow> diff_hunk" where
  "plain_hunk ls \<equiv> \<lparr>h_old = None, h_new = None, h_lines = ls\<rparr>"

abbreviation line_hunk :: "nat \<Rightarrow> diff_line list \<Rightarrow> diff_hunk" where
  "line_hunk n ls \<equiv> \<lparr>h_old = Some n, h_new = Some n, h_lines = ls\<rparr>"

definition count_stats :: "diff_line list \<Rightarrow> nat \<times> nat" where
  "count_stats ls =
     foldl (\<lambda>(added, removed) l.
         if dl_op l = OpAdd then (added + 1, removed)
         else if dl_op l = OpDel then (added, removed + 1)
         else (added, removed)) (0, 0) ls"

definition more_lines :: "nat \<Rightarrow> diff_line" where
  "more_lines n = diff_line_of OpMeta ([0x2026] @ js '' +'' @ show_nat n @ js '' more lines'') None"

text \<open>\<open>lines.slice(0, maxLines - 1)\<close> drops the last line when \<open>maxLines\<close> is 0.\<close>

definition cut_lines :: "diff_line list \<Rightarrow> nat \<Rightarrow> diff_preview" where
  "cut_lines ls mx =
     (let kept = (if mx = 0 then butlast ls else take (mx - 1) ls)
                   @ [more_lines (length ls + 1 - mx)] in
      \<lparr>dp_lines = kept, dp_hunks = [plain_hunk kept], dp_truncated = True, dp_stats = count_stats ls\<rparr>)"

definition balanced_truncate :: "diff_line list \<Rightarrow> nat \<Rightarrow> diff_preview" where
  "balanced_truncate ls mx =
     (if length ls \<le> mx then
        \<lparr>dp_lines = ls, dp_hunks = [plain_hunk ls], dp_truncated = False, dp_stats = count_stats ls\<rparr>
      else if \<exists>l\<in>set ls. dl_op l = OpCtx then cut_lines ls mx
      else
        let dels = filter (\<lambda>l. dl_op l = OpDel) ls;
            adds = filter (\<lambda>l. dl_op l = OpAdd) ls;
            others = filter (\<lambda>l. dl_op l \<noteq> OpDel \<and> dl_op l \<noteq> OpAdd) ls in
        if length dels > 0 \<and> length adds > 0 \<and> mx \<ge> 4 then
          let budget = mx - 1;
              del_budget = max 1 (budget div 2);
              add_budget = max 1 (budget - del_budget);
              kept_dels = take del_budget dels;
              kept_adds = take add_budget adds;
              omitted = length dels - length kept_dels + (length adds - length kept_adds)
                          + length others;
              result = kept_dels @ kept_adds @ [more_lines omitted] in
          \<lparr>dp_lines = result, dp_hunks = [plain_hunk result], dp_truncated = True,
            dp_stats = count_stats ls\<rparr>
        else cut_lines ls mx)"

definition finalize_preview :: "diff_hunk list \<Rightarrow> diff_options \<Rightarrow> diff_preview" where
  "finalize_preview hunks opts =
     (let flat = concat (map h_lines hunks);
          t = balanced_truncate flat (or_default (o_max_lines opts) DEFAULT_MAX_LINES) in
      \<lparr>dp_lines = dp_lines t,
        dp_hunks = (if dp_truncated t then [plain_hunk (dp_lines t)] else hunks),
        dp_truncated = dp_truncated t,
        dp_stats = count_stats flat\<rparr>)"

subsection \<open>Context lines and gaps\<close>

definition keep_marks :: "script_op list \<Rightarrow> nat \<Rightarrow> bool list" where
  "keep_marks ops ctx =
     foldl (\<lambda>keep i.
         if so_kind (ops ! i) = DelL \<or> so_kind (ops ! i) = AddL then
           foldl (\<lambda>keep j. keep[j := True]) (keep[i := True])
             [i - ctx..<Suc (min (length ops - 1) (i + ctx))]
         else keep)
       (replicate (length ops) False) [0..<length ops]"

definition script_line :: "script_op \<Rightarrow> diff_line" where
  "script_line x =
     (case so_kind x of
        EqL \<Rightarrow> diff_line_of OpCtx (so_text x) (case so_new x of Some n \<Rightarrow> Some n | None \<Rightarrow> so_old x)
      | DelL \<Rightarrow> diff_line_of OpDel (so_text x) (so_old x)
      | AddL \<Rightarrow> diff_line_of OpAdd (so_text x) (so_new x))"

definition gap_line :: diff_line where
  "gap_line = diff_line_of OpMeta [0xB7, 0xB7, 0xB7] None"

definition emit_line :: "script_op list \<Rightarrow> bool list \<Rightarrow> diff_line list \<times> bool \<Rightarrow> nat \<Rightarrow> diff_line list \<times> bool" where
  "emit_line ops keep st i =
     (case st of (ls, gap) \<Rightarrow>
        if \<not> keep ! i then (ls, True)
        else if gap \<and> length ls > 0 then (ls @ [gap_line, script_line (ops ! i)], False)
        else (ls @ [script_line (ops ! i)], gap))"

definition line_diff_with_context :: "jsstring list \<Rightarrow> jsstring list \<Rightarrow> nat \<Rightarrow> diff_line list" where
  "line_diff_with_context before after ctx =
     (let ops = build_edit_script before after in
      if ctx \<le> 0 then map script_line (filter (\<lambda>x. so_kind x \<noteq> EqL) ops)
      else fst (foldl (emit_line ops (keep_marks ops ctx)) ([], False) [0..<length ops]))"

definition line_diff_unified :: "jsstring list \<Rightarrow> jsstring list \<Rightarrow> diff_line list" where
  "line_diff_unified before after =
     filter (\<lambda>l. dl_op l = OpAdd \<or> dl_op l = OpDel) (line_diff_with_context before after 0)"

subsection \<open>The three previews\<close>

definition bare_replace :: "jsstring list \<Rightarrow> jsstring list \<Rightarrow> diff_options \<Rightarrow> diff_preview" where
  "bare_replace old_lines new_lines opts =
     (let mx = or_default (o_max_line_chars opts) DEFAULT_MAX_LINE_CHARS;
          removed = map (\<lambda>t. diff_line_of OpDel (clip_line t mx) None) old_lines;
          added = map (\<lambda>t. diff_line_of OpAdd (clip_line t mx) None) new_lines in
      finalize_preview [plain_hunk (removed @ added)] opts)"

abbreviation numbered :: "diff_op \<Rightarrow> nat \<Rightarrow> (nat \<Rightarrow> nat) \<Rightarrow> jsstring list \<Rightarrow> diff_line list" where
  "numbered opn mx no ts \<equiv>
     map (\<lambda>(i, t). diff_line_of opn (clip_line t mx) (Some (no i))) (enumerate 0 ts)"

definition build_replace_diff_preview :: "jsstring \<Rightarrow> jsstring \<Rightarrow> diff_options \<Rightarrow> diff_preview" where
  "build_replace_diff_preview old_text new_text opts =
     (let mx = or_default (o_max_line_chars opts) DEFAULT_MAX_LINE_CHARS;
          ctx = or_default (o_context_lines opts) DEFAULT_CONTEXT_LINES;
          old_lines = split_content_lines old_text;
          new_lines = split_content_lines new_text;
          content = or_default (o_file_content opts) [] in
      if content = [] \<or> length old_text = 0 then bare_replace old_lines new_lines opts
      else case index_of content old_text of
        None \<Rightarrow> bare_replace old_lines new_lines opts
      | Some idx \<Rightarrow>
          let file_lines = split_content_lines content;
              start_line = line_index_at content idx;
              end_line = start_line + length old_lines;
              before = numbered OpCtx mx (\<lambda>i. start_line - ctx + i + 1)
                         (slice (start_line - ctx) start_line file_lines);
              removed = numbered OpDel mx (\<lambda>i. start_line + i + 1) old_lines;
              added = numbered OpAdd mx (\<lambda>i. start_line + i + 1) new_lines;
              after = numbered OpCtx mx
                        (\<lambda>i. end_line + i + 1 + length new_lines - length old_lines)
                        (slice end_line (end_line + ctx) file_lines) in
          finalize_preview [line_hunk (start_line + 1) (before @ removed @ added @ after)] opts)"

abbreviation note_preview :: "diff_hunk \<Rightarrow> diff_preview" where
  "note_preview h \<equiv> \<lparr>dp_lines = h_lines h, dp_hunks = [h], dp_truncated = False, dp_stats = (0, 0)\<rparr>"

definition build_create_diff_preview :: "jsstring \<Rightarrow> diff_options \<Rightarrow> diff_preview" where
  "build_create_diff_preview content opts =
     (let mx = or_default (o_max_line_chars opts) DEFAULT_MAX_LINE_CHARS;
          added = numbered OpAdd mx (\<lambda>i. i + 1) (split_content_lines content) in
      if length added = 0 then note_preview (plain_hunk [diff_line_of OpMeta (js ''(empty file)'') None])
      else finalize_preview [plain_hunk added] opts)"

definition build_overwrite_diff_preview :: "jsstring \<Rightarrow> jsstring \<Rightarrow> diff_options \<Rightarrow> diff_preview" where
  "build_overwrite_diff_preview before after opts =
     (let mx = or_default (o_max_line_chars opts) DEFAULT_MAX_LINE_CHARS;
          cells = or_default (o_max_lcs_cells opts) DEFAULT_MAX_LCS_CELLS;
          ctx = or_default (o_context_lines opts) DEFAULT_CONTEXT_LINES;
          a = split_content_lines before;
          b = split_content_lines after in
      if length a = 0 \<and> length b = 0 then
        note_preview (plain_hunk [diff_line_of OpMeta (js ''(empty file)'') None])
      else if length a * length b > cells then
        build_replace_diff_preview before after (opts\<lparr>o_file_content := None\<rparr>)
      else
        let raw = map (\<lambda>l. l\<lparr>dl_text := clip_line (dl_text l) mx\<rparr>) (line_diff_with_context a b ctx) in
        if length raw = 0 then
          note_preview (line_hunk 1 [diff_line_of OpMeta (js ''(no line changes)'') None])
        else finalize_preview [line_hunk 1 raw] opts)"

section \<open>Change statistics\<close>

text \<open>A pair of counts: lines added, lines removed.\<close>

definition hunk_line_stats :: "jsstring \<Rightarrow> jsstring \<Rightarrow> nat \<Rightarrow> nat \<times> nat" where
  "hunk_line_stats old_text new_text occurrences =
     (let n = max 1 occurrences in (count_lines new_text * n, count_lines old_text * n))"

definition line_diff_stats :: "jsstring \<Rightarrow> jsstring \<Rightarrow> nat \<times> nat" where
  "line_diff_stats before after =
     (let a = split_content_lines before; b = split_content_lines after in
      if length a = 0 \<and> length b = 0 then (0, 0)
      else if length a * length b > 200000 then (length b - length a, length a - length b)
      else let lcs = longest_common_subsequence_length a b in (length b - lcs, length a - lcs))"

definition format_line_delta :: "nat \<times> nat \<Rightarrow> jsstring" where
  "format_line_delta s =
     (let (added, removed) = s in
      if added = 0 \<and> removed = 0 then [0xB1, 48]
      else js_join [32] ((if added > 0 then [js ''+'' @ show_nat added] else [])
                         @ (if removed > 0 then [js ''-'' @ show_nat removed] else [])))"

end
