(* ===== verification/Edit.thy ===== *)
theory Edit
  imports Diff
begin

text \<open>
  The edit tool (\<open>worker/core/src/tools/builtin/edit.ts\<close>) on the text of one file: the shapes its
  schema accepts, exact and white-space tolerant replacement, the hints of a failed edit, and
  the loop that applies a list of edits, stopping at the first that does not apply.

  \<open>String.replace\<close> expands the patterns \<open>$$\<close>, \<open>$&\<close>, \<open>$`\<close> and \<open>$'\<close> of its replacement text; the
  pattern has no groups, so \<open>$1\<close> and \<open>$<name>\<close> stay as they are. The regular expression of the
  tolerant replacement is a sequence of literal code units and of \<open>\s+\<close>, two of which are never
  adjacent: \<open>\s+\<close> always takes the whole run.
\<close>

section \<open>The input\<close>

record single_edit =
  se_old :: jsstring
  se_new :: jsstring
  se_replace_all :: "bool option"

record edit_input =
  ei_path :: jsstring
  ei_old :: "jsstring option"
  ei_new :: "jsstring option"
  ei_replace_all :: "bool option"
  ei_edits :: "single_edit list option"

record normalized_edit =
  ne_old :: jsstring
  ne_new :: jsstring
  ne_all :: bool

definition edit_input_valid :: "edit_input \<Rightarrow> bool" where
  "edit_input_valid inp \<longleftrightarrow>
     length (ei_path inp) \<ge> 1
     \<and> (case ei_old inp of Some s \<Rightarrow> length s \<ge> 1 | None \<Rightarrow> True)
     \<and> (case ei_edits inp of
          Some es \<Rightarrow> (\<forall>e\<in>set es. length (se_old e) \<ge> 1) \<and> length es \<ge> 1 \<and> length es \<le> 50
        | None \<Rightarrow> True)
     \<and> ((case ei_edits inp of Some es \<Rightarrow> length es > 0 | None \<Rightarrow> False)
        \<or> ei_old inp \<noteq> None \<and> ei_new inp \<noteq> None)"

definition normalize_edits :: "edit_input \<Rightarrow> normalized_edit list" where
  "normalize_edits inp =
     (let single = [\<lparr>ne_old = or_default (ei_old inp) [], ne_new = or_default (ei_new inp) [],
                     ne_all = (ei_replace_all inp = Some True)\<rparr>] in
      case ei_edits inp of
        Some es \<Rightarrow>
          if length es > 0 then
            map (\<lambda>e. \<lparr>ne_old = se_old e, ne_new = se_new e, ne_all = (se_replace_all e = Some True)\<rparr>) es
          else single
      | None \<Rightarrow> single)"

section \<open>Replacement\<close>

text \<open>The replacement text with its \<open>$\<close> patterns expanded for one match: the matched text, the
  text before it and the text after it.\<close>

fun expand_dollar :: "jsstring \<Rightarrow> jsstring \<Rightarrow> jsstring \<Rightarrow> jsstring \<Rightarrow> jsstring" where
  "expand_dollar [] m l r = []"
| "expand_dollar [c] m l r = [c]"
| "expand_dollar (c # d # t) m l r =
     (if c = 36 \<and> d = 36 then 36 # expand_dollar t m l r
      else if c = 36 \<and> d = 38 then m @ expand_dollar t m l r
      else if c = 36 \<and> d = 96 then l @ expand_dollar t m l r
      else if c = 36 \<and> d = 39 then r @ expand_dollar t m l r
      else c # expand_dollar (d # t) m l r)"

definition replace_first :: "jsstring \<Rightarrow> jsstring \<Rightarrow> jsstring \<Rightarrow> jsstring" where
  "replace_first content old new =
     (case index_of content old of
        None \<Rightarrow> content
      | Some i \<Rightarrow>
          let l = take i content; r = drop (i + length old) content in
          l @ expand_dollar new old l r @ r)"

subsection \<open>White-space tolerant matching\<close>

datatype pat = PLit nat | PWs

text \<open>The pattern \<open>escapeRegExp(old).replace(/\s+/g, '\\s+')\<close>: every code unit escaped where the
  syntax needs it, every run of white space turned into \<open>\s+\<close>.\<close>

function relaxed_pattern :: "jsstring \<Rightarrow> pat list" where
  "relaxed_pattern [] = []"
| "relaxed_pattern (c # t) =
     (if is_ws c then PWs # relaxed_pattern (dropWhile is_ws t) else PLit c # relaxed_pattern t)"
  by pat_completeness auto
termination by (relation "measure length") (auto simp: le_imp_less_Suc length_dropWhile_le)

fun match_here :: "pat list \<Rightarrow> jsstring \<Rightarrow> jsstring option" where
  "match_here [] s = Some s"
| "match_here (PLit c # p) s = (case s of [] \<Rightarrow> None | x # t \<Rightarrow> if x = c then match_here p t else None)"
| "match_here (PWs # p) s =
     (case s of [] \<Rightarrow> None | x # t \<Rightarrow> if is_ws x then match_here p (dropWhile is_ws t) else None)"

text \<open>The matches of the global pattern: start and length, from left to right. A match is never
  empty, as the searched text is not.\<close>

function find_matches :: "pat list \<Rightarrow> nat \<Rightarrow> jsstring \<Rightarrow> (nat \<times> nat) list" where
  "find_matches p i s =
     (case s of
        [] \<Rightarrow> []
      | x # t \<Rightarrow>
          (case match_here p s of
             Some r \<Rightarrow>
               if length r < length s then (i, length s - length r) # find_matches p (i + (length s - length r)) r
               else find_matches p (i + 1) t
           | None \<Rightarrow> find_matches p (i + 1) t))"
  by pat_completeness auto
termination by (relation "measure (\<lambda>(p, i, s). length s)") auto

declare find_matches.simps [simp del]

fun replace_spans :: "jsstring \<Rightarrow> jsstring \<Rightarrow> nat \<Rightarrow> (nat \<times> nat) list \<Rightarrow> jsstring" where
  "replace_spans content new from [] = drop from content"
| "replace_spans content new from ((i, n) # ms) =
     slice from i content
       @ expand_dollar new (slice i (i + n) content) (take i content) (drop (i + n) content)
       @ replace_spans content new (i + n) ms"

definition try_relaxed_replace :: "jsstring \<Rightarrow> normalized_edit \<Rightarrow> (jsstring \<times> nat) option" where
  "try_relaxed_replace content ed =
     (if \<not> (\<exists>c\<in>set (ne_old ed). is_ws c) then None
      else
        let matches = find_matches (relaxed_pattern (ne_old ed)) 0 content;
            count = length matches in
        if count = 0 then None
        else if count > 1 \<and> \<not> ne_all ed then None
        else
          let next = replace_spans content (ne_new ed) 0 (if ne_all ed then matches else take 1 matches) in
          if next = content then None else Some (next, if ne_all ed then count else 1))"

section \<open>Hints\<close>

definition clip :: "jsstring \<Rightarrow> nat \<Rightarrow> jsstring" where
  "clip t mx = (if length t \<le> mx then t else take (mx - 1) t @ [0x2026])"

text \<open>\<open>needle.split(/\s+/)\<close>: every run of white space is one separator.\<close>

definition overlap_score :: "jsstring \<Rightarrow> jsstring \<Rightarrow> nat" where
  "overlap_score line needle =
     (if needle = [] \<or> line = [] then 0
      else foldl (\<lambda>score p. if has_sub line p then score + 1 else score) 0
             (filter (\<lambda>p. length p \<ge> 3) (split_char 32 (squash_ws needle))))"

fun best_line :: "jsstring \<Rightarrow> jsstring list \<Rightarrow> nat \<Rightarrow> nat option \<Rightarrow> nat \<Rightarrow> nat option \<times> nat" where
  "best_line needle [] i best score = (best, score)"
| "best_line needle (line # ls) i best score =
     (if length needle > 0 \<and> has_sub line (slice 0 12 needle) then (Some i, 2)
      else
        let s = overlap_score line needle in
        if s > score then best_line needle ls (i + 1) (Some i) s
        else best_line needle ls (i + 1) best score)"

definition numbered_line :: "jsstring list \<Rightarrow> nat \<Rightarrow> jsstring" where
  "numbered_line ls i = show_nat (i + 1) @ js ''| '' @ clip (ls ! i) 100"

definition build_no_match_hint :: "jsstring \<Rightarrow> jsstring \<Rightarrow> jsstring" where
  "build_no_match_hint content old =
     (let needle = slice 0 40 (js_trim old);
          ls = split_char 10 content;
          head = map (\<lambda>i. js ''  '' @ numbered_line ls i) [0..<min 5 (length ls)];
          opening = js_join [10] (([0x6587, 0x4EF6, 0x5F00, 0x5934, 0xFF1A]) # head) in
      case best_line needle ls 0 None 0 of
        (None, score) \<Rightarrow> opening
      | (Some best, score) \<Rightarrow>
          if score < 2 then opening
          else
            let snippet = map (\<lambda>i. (if i = best then js ''>'' else js '' '') @ js '' '' @ numbered_line ls i)
                            [best - 2..<min (length ls) (best + 3)] in
            js_join [10] (([0x9644, 0x8FD1, 0x5185, 0x5BB9, 0xFF08, 0x4F9B, 0x8C03, 0x6574] @ js '' old_string'' @ [0xFF09, 0xFF1A]) # snippet))"

fun hit_lines :: "jsstring \<Rightarrow> jsstring list \<Rightarrow> nat \<Rightarrow> nat \<Rightarrow> nat list" where
  "hit_lines p [] i room = []"
| "hit_lines p (l # ls) i room =
     (if room = 0 then []
      else if has_sub l p then (i + 1) # hit_lines p ls (i + 1) (room - 1)
      else hit_lines p ls (i + 1) room)"

definition build_ambiguous_hint :: "jsstring \<Rightarrow> jsstring \<Rightarrow> nat \<Rightarrow> jsstring" where
  "build_ambiguous_hint content old count =
     (let hits = hit_lines (hd (split_char 10 old)) (split_char 10 content) 0 5 in
      if length hits > 0 then
        ([0x7EA6, 0x5728, 0x884C, 0xFF1A]) @ js_join (js '', '') (map show_nat hits) @ (if count > length hits then [0x2026] else [])
      else [])"

section \<open>The loop over the edits\<close>

record applied_edit =
  ap_old :: jsstring
  ap_new :: jsstring
  ap_count :: nat

record edit_state =
  es_content :: jsstring
  es_occurrences :: nat
  es_added :: nat
  es_removed :: nat
  es_any_all :: bool
  es_applied :: "applied_edit list"

record edit_data =
  ed_path :: jsstring
  ed_occurrences :: nat
  ed_added :: nat
  ed_removed :: nat
  ed_replace_all :: bool
  ed_mutated :: bool
  ed_count :: nat
  ed_preview :: "diff_preview option"
  ed_hint :: "jsstring option"

record edit_result =
  er_content :: jsstring
  er_summary :: jsstring
  er_data :: edit_data

definition add_applied :: "edit_state \<Rightarrow> normalized_edit \<Rightarrow> jsstring \<Rightarrow> nat \<Rightarrow> edit_state" where
  "add_applied st ed content count =
     (let (added, removed) = hunk_line_stats (ne_old ed) (ne_new ed) count in
      \<lparr>es_content = content,
       es_occurrences = es_occurrences st + count,
       es_added = es_added st + added,
       es_removed = es_removed st + removed,
       es_any_all = es_any_all st \<or> ne_all ed,
       es_applied = es_applied st @ [\<lparr>ap_old = ne_old ed, ap_new = ne_new ed, ap_count = count\<rparr>]\<rparr>)"

definition no_match_result :: "jsstring \<Rightarrow> nat \<Rightarrow> nat \<Rightarrow> normalized_edit \<Rightarrow> jsstring \<Rightarrow> edit_result" where
  "no_match_result path i n ed content =
     (let hint = build_no_match_hint content (ne_old ed) in
      \<lparr>er_content = js_join [10] [([0x672A, 0x627E, 0x5230] @ js '' old_string'' @ [0xFF08, 0x7B2C] @ js '' '') @ show_nat (i + 1) @ js ''/'' @ show_nat n
                       @ (js '' '' @ [0x5904, 0x7F16, 0x8F91, 0xFF09, 0xFF0C, 0x672A, 0x505A, 0x4FEE, 0x6539, 0xFF1A]) @ path, hint],
       er_summary = js ''no match'',
       er_data = \<lparr>ed_path = path, ed_occurrences = 0, ed_added = 0, ed_removed = 0,
         ed_replace_all = ne_all ed, ed_mutated = False, ed_count = n, ed_preview = None,
         ed_hint = Some hint\<rparr>\<rparr>)"

definition ambiguous_result :: "jsstring \<Rightarrow> nat \<Rightarrow> nat \<Rightarrow> normalized_edit \<Rightarrow> jsstring \<Rightarrow> nat \<Rightarrow> edit_result" where
  "ambiguous_result path i n ed content count =
     (let hint = build_ambiguous_hint content (ne_old ed) count in
      \<lparr>er_content = js_join [10] [js ''old_string '' @ ([0x51FA, 0x73B0] @ js '' '') @ show_nat count @ (js '' '' @ [0x6B21, 0xFF08, 0x7B2C] @ js '' '') @ show_nat (i + 1)
                       @ js ''/'' @ show_nat n @ (js '' '' @ [0x5904, 0x7F16, 0x8F91, 0xFF09, 0xFF0C, 0x5B58, 0x5728, 0x6B67, 0x4E49, 0x672A, 0x505A, 0x4FEE, 0x6539, 0x3002]),
                     ([0x8BF7, 0x63D0, 0x4F9B, 0x66F4, 0x591A, 0x4E0A, 0x4E0B, 0x6587, 0xFF0C, 0x6216, 0x8BBE, 0x7F6E] @ js '' replace_all: true'' @ [0x3002]), hint],
       er_summary = js ''ambiguous: '' @ show_nat count @ js '' matches'',
       er_data = \<lparr>ed_path = path, ed_occurrences = count, ed_added = 0, ed_removed = 0,
         ed_replace_all = False, ed_mutated = False, ed_count = n, ed_preview = None,
         ed_hint = Some hint\<rparr>\<rparr>)"

text \<open>One edit: the result that ends the call, or the next state of the loop.\<close>

definition apply_edit ::
  "jsstring \<Rightarrow> nat \<Rightarrow> nat \<Rightarrow> normalized_edit \<Rightarrow> edit_state \<Rightarrow> edit_result + edit_state" where
  "apply_edit path n i ed st =
     (let content = es_content st;
          count = length (split_on (ne_old ed) content) - 1 in
      if count = 0 then
        (case try_relaxed_replace content ed of
           None \<Rightarrow> Inl (no_match_result path i n ed content)
         | Some (next, k) \<Rightarrow> Inr (add_applied st ed next k))
      else if count > 1 \<and> \<not> ne_all ed then Inl (ambiguous_result path i n ed content count)
      else
        let next = (if ne_all ed then js_join (ne_new ed) (split_on (ne_old ed) content)
                    else replace_first content (ne_old ed) (ne_new ed)) in
        Inr (add_applied st ed next count))"

fun apply_edits ::
  "jsstring \<Rightarrow> nat \<Rightarrow> nat \<Rightarrow> normalized_edit list \<Rightarrow> edit_state \<Rightarrow> edit_result + edit_state" where
  "apply_edits path n i [] st = Inr st"
| "apply_edits path n i (ed # eds) st =
     (case apply_edit path n i ed st of
        Inl r \<Rightarrow> Inl r
      | Inr st' \<Rightarrow> apply_edits path n (i + 1) eds st')"

definition start_state :: "jsstring \<Rightarrow> edit_state" where
  "start_state original = \<lparr>es_content = original, es_occurrences = 0, es_added = 0, es_removed = 0,
     es_any_all = False, es_applied = []\<rparr>"

text \<open>The call on the text of the file: the result and, when the file is to be written, its new
  text.\<close>

definition edit_execute :: "edit_input \<Rightarrow> jsstring \<Rightarrow> edit_result \<times> jsstring option" where
  "edit_execute inp original =
     (let path = ei_path inp;
          edits = normalize_edits inp;
          n = length edits in
      case apply_edits path n 0 edits (start_state original) of
        Inl r \<Rightarrow> (r, None)
      | Inr st \<Rightarrow>
          if es_content st = original then
            (\<lparr>er_content = ([0x5185, 0x5BB9, 0x672A, 0x53D8, 0x5316, 0xFF1A]) @ path, er_summary = js ''no change'',
              er_data = \<lparr>ed_path = path, ed_occurrences = es_occurrences st, ed_added = 0, ed_removed = 0,
                ed_replace_all = es_any_all st, ed_mutated = False, ed_count = n, ed_preview = None,
                ed_hint = None\<rparr>\<rparr>, None)
          else
            let delta = format_line_delta (es_added st, es_removed st);
                preview =
                  (if length (es_applied st) = 1 then
                     build_replace_diff_preview (ap_old (hd (es_applied st))) (ap_new (hd (es_applied st)))
                       (no_diff_options\<lparr>o_file_content := Some original, o_context_lines := Some 3\<rparr>)
                   else build_overwrite_diff_preview original (es_content st)
                       (no_diff_options\<lparr>o_context_lines := Some 3, o_max_lines := Some 80\<rparr>));
                multi = (if n > 1 then (js '' '' @ [183] @ js '' '') @ show_nat n @ js '' edits'' else []) in
            (\<lparr>er_content = ([0x5DF2, 0x66FF, 0x6362] @ js '' '') @ show_nat (es_occurrences st) @ (js '' '' @ [0x5904, 0xFF1A]) @ path @ js '' ('' @ delta @ js '')'' @ multi,
              er_summary = js ''replaced '' @ show_nat (es_occurrences st) @ (js '' '' @ [183] @ js '' '') @ delta @ multi,
              er_data = \<lparr>ed_path = path, ed_occurrences = es_occurrences st, ed_added = es_added st,
                ed_removed = es_removed st, ed_replace_all = es_any_all st, ed_mutated = True,
                ed_count = n, ed_preview = Some preview, ed_hint = None\<rparr>\<rparr>,
             Some (es_content st)))"

end
