(* ===== verification/Diff_Laws.thy ===== *)
theory Diff_Laws
  imports Diff
begin

text \<open>
  What the diff functions compute. \<open>lcs_spec\<close> is the textbook recursion over prefix lengths;
  the table and the rolling arrays both compute it, it is the length of a longest common
  subsequence, and the edit script read off the table turns the old lines into the new ones
  and keeps a longest common subsequence. The statistics of a preview and the statistics a
  write reports are both read off it.
\<close>

section \<open>The reference recursion\<close>

fun lcs_spec :: "'a list \<Rightarrow> 'a list \<Rightarrow> nat \<Rightarrow> nat \<Rightarrow> nat" where
  "lcs_spec a b 0 j = 0"
| "lcs_spec a b (Suc i) 0 = 0"
| "lcs_spec a b (Suc i) (Suc j) =
     (if a ! i = b ! j then Suc (lcs_spec a b i j)
      else max (lcs_spec a b i (Suc j)) (lcs_spec a b (Suc i) j))"

lemma lcs_spec_0 [simp]: "lcs_spec a b i 0 = 0"
  by (cases i) auto

lemma lcs_spec_le: "lcs_spec a b i j \<le> i \<and> lcs_spec a b i j \<le> j"
  by (induction a b i j rule: lcs_spec.induct) auto

lemma lcs_spec_pos: "0 < i \<Longrightarrow> 0 < j \<Longrightarrow>
  lcs_spec a b i j = (if a ! (i - 1) = b ! (j - 1) then Suc (lcs_spec a b (i - 1) (j - 1))
    else max (lcs_spec a b (i - 1) j) (lcs_spec a b i (j - 1)))"
  by (cases i; cases j) auto

lemma subseq_snocD: "subseq xs (ys @ [y]) \<Longrightarrow> subseq xs ys \<or> (\<exists>zs. xs = zs @ [y] \<and> subseq zs ys)"
proof -
  assume "subseq xs (ys @ [y])"
  then obtain us vs where uv: "xs = us @ vs" "subseq us ys" "subseq vs [y]"
    by (auto simp: subseq_append_iff)
  have "vs = [] \<or> vs = [y]" using uv(3) by (cases vs) (auto split: if_splits)
  then show ?thesis using uv by auto
qed

text \<open>No common subsequence of the two prefixes is longer.\<close>

lemma lcs_spec_upper:
  "\<lbrakk>i \<le> length a; j \<le> length b; subseq xs (take i a); subseq xs (take j b)\<rbrakk> \<Longrightarrow> length xs \<le> lcs_spec a b i j"
proof (induction a b i j arbitrary: xs rule: lcs_spec.induct)
  case (3 a b i j)
  have a: "take (Suc i) a = take i a @ [a ! i]" and b: "take (Suc j) b = take j b @ [b ! j]"
    using 3 by (simp_all add: take_Suc_conv_app_nth)
  show ?case
  proof (cases "a ! i = b ! j")
    case True
    have ha: "subseq xs (take i a) \<or> (\<exists>zs. xs = zs @ [a ! i] \<and> subseq zs (take i a))"
      using 3(6) unfolding a by (rule subseq_snocD)
    have hb: "subseq xs (take j b) \<or> (\<exists>zs. xs = zs @ [b ! j] \<and> subseq zs (take j b))"
      using 3(7) unfolding b by (rule subseq_snocD)
    have sub: "\<exists>zs. length xs \<le> Suc (length zs) \<and> subseq zs (take i a) \<and> subseq zs (take j b)"
    proof (cases "xs = []")
      case True then show ?thesis by (intro exI[of _ "[]"]) simp
    next
      case False
      have pre: "subseq (butlast xs) xs"
        by (intro prefix_imp_subseq) (auto simp: butlast_conv_take take_is_prefix)
      have "subseq (butlast xs) (take i a)" "subseq (butlast xs) (take j b)"
        using ha hb subseq_order.trans[OF pre] by auto
      then show ?thesis using False by (intro exI[of _ "butlast xs"]) simp
    qed
    then obtain zs where "length xs \<le> Suc (length zs)" "subseq zs (take i a)" "subseq zs (take j b)" by blast
    moreover have "length zs \<le> lcs_spec a b i j" using 3(1)[OF True] 3(4,5) calculation by simp
    ultimately show ?thesis using True by simp
  next
    case False
    have "subseq xs (take i a) \<or> subseq xs (take j b)"
      using subseq_snocD[OF 3(6)[unfolded a]] subseq_snocD[OF 3(7)[unfolded b]] False by auto
    then show ?thesis
    proof
      assume "subseq xs (take i a)"
      then have "length xs \<le> lcs_spec a b i (Suc j)" using 3(2)[OF False] 3(4,5,7) by simp
      then show ?thesis using False by simp
    next
      assume "subseq xs (take j b)"
      then have "length xs \<le> lcs_spec a b (Suc i) j" using 3(3)[OF False] 3(4,5,6) by simp
      then show ?thesis using False by simp
    qed
  qed
qed auto

section \<open>The table and the rolling arrays\<close>

definition is_row :: "'a list \<Rightarrow> 'a list \<Rightarrow> nat \<Rightarrow> nat list \<Rightarrow> bool" where
  "is_row a b i row \<longleftrightarrow> length row = Suc (length b) \<and> (\<forall>j\<le>length b. row ! j = lcs_spec a b i j)"

lemma zero_row: "is_row a b 0 (replicate (Suc (length b)) 0)"
  by (simp add: is_row_def del: replicate.simps)

lemma lcs_row_prefix:
  assumes "is_row a b (i - 1) prev" "0 < i" "length row = Suc (length b)" "row ! 0 = 0" "k \<le> length b"
  shows "let r = foldl (lcs_cell a b i prev) row [1..<Suc k] in
     length r = Suc (length b) \<and> (\<forall>j\<le>k. r ! j = lcs_spec a b i j)"
  using assms(5)
proof (induction k)
  case 0
  then show ?case using assms(3,4) by simp
next
  case (Suc k)
  define r where "r = foldl (lcs_cell a b i prev) row [1..<Suc k]"
  have r: "length r = Suc (length b)" "\<And>j. j \<le> k \<Longrightarrow> r ! j = lcs_spec a b i j"
    using Suc by (auto simp: r_def Let_def)
  have p: "prev ! k = lcs_spec a b (i - 1) k" "prev ! Suc k = lcs_spec a b (i - 1) (Suc k)"
    using assms(1) Suc(2) by (auto simp: is_row_def)
  have "foldl (lcs_cell a b i prev) row [1..<Suc (Suc k)] = lcs_cell a b i prev r (Suc k)"
    by (simp add: r_def)
  moreover have "lcs_cell a b i prev r (Suc k) = r[Suc k := lcs_spec a b i (Suc k)]"
    unfolding lcs_cell_def using lcs_spec_pos[OF assms(2), of "Suc k" a b] p r(2)[of k] by simp
  ultimately show ?case
    using r Suc(2) by (simp add: Let_def nth_list_update le_Suc_eq)
qed

lemma lcs_row_is_row:
  assumes "is_row a b (i - 1) prev" "0 < i" "length row = Suc (length b)" "row ! 0 = 0"
  shows "is_row a b i (lcs_row a b i prev row)"
  using lcs_row_prefix[OF assms, of "length b"] by (simp add: lcs_row_def is_row_def Let_def)

lemma lcs_table_correct:
  assumes "i \<le> length a"
  shows "is_row a b i (lcs_table a b ! i)"
proof -
  define z :: "nat list" where "z = replicate (length b + 1) 0"
  have z: "length z = Suc (length b)" "z ! 0 = 0" by (simp_all add: z_def)
  have "let t = foldl (\<lambda>dp i. dp[i := lcs_row a b i (dp ! (i - 1)) (dp ! i)])
            (replicate (length a + 1) z) [1..<Suc k] in
      length t = Suc (length a) \<and> (\<forall>i\<le>k. is_row a b i (t ! i)) \<and> (\<forall>i. k < i \<longrightarrow> i \<le> length a \<longrightarrow> t ! i = z)"
    if "k \<le> length a" for k using that
  proof (induction k)
    case 0
    have "is_row a b 0 z" using zero_row[of a b] by (simp add: z_def del: replicate.simps)
    then show ?case by (simp add: Let_def del: replicate.simps) 
  next
    case (Suc k)
    define t where "t = foldl (\<lambda>dp i. dp[i := lcs_row a b i (dp ! (i - 1)) (dp ! i)])
            (replicate (length a + 1) z) [1..<Suc k]"
    have t: "length t = Suc (length a)" "\<And>i. i \<le> k \<Longrightarrow> is_row a b i (t ! i)"
        "\<And>i. k < i \<Longrightarrow> i \<le> length a \<Longrightarrow> t ! i = z"
      using Suc by (auto simp: t_def Let_def)
    have "is_row a b (Suc k) (lcs_row a b (Suc k) (t ! k) (t ! Suc k))"
      using Suc(2) t z by (intro lcs_row_is_row) auto
    moreover have "foldl (\<lambda>dp i. dp[i := lcs_row a b i (dp ! (i - 1)) (dp ! i)])
        (replicate (length a + 1) z) [1..<Suc (Suc k)] = t[Suc k := lcs_row a b (Suc k) (t ! k) (t ! Suc k)]"
      by (simp add: t_def)
    ultimately show ?case using t Suc(2) by (auto simp: Let_def nth_list_update le_Suc_eq)
  qed
  from this[of "length a"] show ?thesis using assms by (simp add: lcs_table_def z_def Let_def)
qed

lemma table_cell: "i \<le> length a \<Longrightarrow> j \<le> length b \<Longrightarrow> lcs_table a b ! i ! j = lcs_spec a b i j"
  using lcs_table_correct[of i a b] by (simp add: is_row_def)

lemma rolling_correct: "longest_common_subsequence_length a b = lcs_spec a b (length a) (length b)"
proof -
  define f where "f = (\<lambda>(prev, row :: nat list) i. (lcs_row a b i prev row, map (\<lambda>_. 0 :: nat) prev))"
  define z :: "nat list" where "z = replicate (length b + 1) 0"
  have "is_row a b k (fst (foldl f (z, z) [1..<Suc k])) \<and> snd (foldl f (z, z) [1..<Suc k]) = z"
    if "k \<le> length a" for k using that
  proof (induction k)
    case 0
    then show ?case using zero_row[of a b] by (simp add: z_def del: replicate.simps)
  next
    case (Suc k)
    obtain p c where pc: "foldl f (z, z) [1..<Suc k] = (p, c)" by (cases "foldl f (z, z) [1..<Suc k]")
    then have p: "is_row a b k p" "c = z" using Suc by auto
    then have "map (\<lambda>_. 0) p = z" by (simp add: is_row_def z_def map_replicate_const del: replicate.simps)
    moreover have "is_row a b (Suc k) (lcs_row a b (Suc k) p c)"
      using p by (intro lcs_row_is_row) (simp_all add: z_def)
    ultimately show ?case using pc p by (simp add: f_def)
  qed
  from this[of "length a"] show ?thesis
    by (auto simp: longest_common_subsequence_length_def f_def z_def is_row_def)
qed

section \<open>The edit script\<close>

definition old_side :: "script_op list \<Rightarrow> script_op list" where
  "old_side ops = filter (\<lambda>x. so_kind x \<noteq> AddL) ops"

definition new_side :: "script_op list \<Rightarrow> script_op list" where
  "new_side ops = filter (\<lambda>x. so_kind x \<noteq> DelL) ops"

definition kept :: "script_op list \<Rightarrow> script_op list" where
  "kept ops = filter (\<lambda>x. so_kind x = EqL) ops"

lemma backtrack_correct:
  assumes "\<And>i j. i \<le> length a \<Longrightarrow> j \<le> length b \<Longrightarrow> dp ! i ! j = lcs_spec a b i j"
    and "i \<le> length a" "j \<le> length b"
  shows "map so_text (old_side (rev (backtrack a b dp i j))) = take i a
    \<and> map so_text (new_side (rev (backtrack a b dp i j))) = take j b
    \<and> map so_old (old_side (rev (backtrack a b dp i j))) = map Some [1..<Suc i]
    \<and> map so_new (new_side (rev (backtrack a b dp i j))) = map Some [1..<Suc j]
    \<and> length (kept (rev (backtrack a b dp i j))) = lcs_spec a b i j"
  using assms
proof (induction a b dp i j rule: backtrack.induct)
  case (1 a b dp i j)
  note IH = 1(1-3) and dp = 1(4) and le = 1(5,6)
  have ta: "take i a = take (i - 1) a @ [a ! (i - 1)]" if "0 < i"
    using that le by (cases i) (simp_all add: take_Suc_conv_app_nth)
  have tb: "take j b = take (j - 1) b @ [b ! (j - 1)]" if "0 < j"
    using that le by (cases j) (simp_all add: take_Suc_conv_app_nth)
  have up: "[Suc 0..<Suc k] = [Suc 0..<k] @ [k]" if "0 < k" for k
    using that by (cases k) simp_all
  consider (none) "i = 0" "j = 0" | (eq) "0 < i" "0 < j" "a ! (i - 1) = b ! (j - 1)"
    | (add) "0 < j" "\<not> (0 < i \<and> a ! (i - 1) = b ! (j - 1))" "i = 0 \<or> dp ! i ! (j - 1) \<ge> dp ! (i - 1) ! j"
    | (del) "0 < i" "\<not> (0 < j \<and> a ! (i - 1) = b ! (j - 1))" "\<not> (0 < j \<and> (i = 0 \<or> dp ! i ! (j - 1) \<ge> dp ! (i - 1) ! j))"
    by blast
  then show ?case
  proof cases
    case none
    then show ?thesis by (simp add: backtrack.simps old_side_def new_side_def kept_def)
  next
    case eq
    have b: "backtrack a b dp i j = \<lparr>so_kind = EqL, so_text = a ! (i - 1), so_old = Some i, so_new = Some j\<rparr>
        # backtrack a b dp (i - 1) (j - 1)"
      using eq by (subst backtrack.simps) simp
    show ?thesis
      using IH(1) eq dp le
      by (simp add: b ta[OF eq(1)] tb[OF eq(2)] up[OF eq(1)] up[OF eq(2)] old_side_def new_side_def kept_def
          lcs_spec_pos[OF eq(1,2)] del: upt_Suc)
  next
    case add
    have b: "backtrack a b dp i j = \<lparr>so_kind = AddL, so_text = b ! (j - 1), so_old = None, so_new = Some j\<rparr>
        # backtrack a b dp i (j - 1)"
      using add by (subst backtrack.simps) auto
    have "lcs_spec a b i j = lcs_spec a b i (j - 1)"
    proof (cases "i = 0")
      case False
      then have "dp ! i ! (j - 1) \<ge> dp ! (i - 1) ! j" using add(3) by simp
      then have "lcs_spec a b i (j - 1) \<ge> lcs_spec a b (i - 1) j" using le dp by simp
      then show ?thesis using lcs_spec_pos[of i j a b] add False by (simp add: max_def)
    qed simp
    then show ?thesis
      using IH(2) add dp le
      by (simp add: b tb[OF add(1)] up[OF add(1)] old_side_def new_side_def kept_def del: upt_Suc)
  next
    case del
    have b: "backtrack a b dp i j = \<lparr>so_kind = DelL, so_text = a ! (i - 1), so_old = Some i, so_new = None\<rparr>
        # backtrack a b dp (i - 1) j"
      using del by (subst backtrack.simps) auto
    have "lcs_spec a b i j = lcs_spec a b (i - 1) j"
    proof (cases "j = 0")
      case False
      then have "\<not> dp ! i ! (j - 1) \<ge> dp ! (i - 1) ! j" using del(3) by simp
      then have "lcs_spec a b i (j - 1) < lcs_spec a b (i - 1) j" using le dp by simp
      then show ?thesis using lcs_spec_pos[of i j a b] del False by (simp add: max_def)
    qed simp
    then show ?thesis
      using IH(3) del dp le
      by (simp add: b ta[OF del(1)] up[OF del(1)] old_side_def new_side_def kept_def del: upt_Suc)
  qed
qed

lemma script_correct:
  "map so_text (old_side (build_edit_script a b)) = a"
  "map so_text (new_side (build_edit_script a b)) = b"
  "map so_old (old_side (build_edit_script a b)) = map Some [1..<Suc (length a)]"
  "map so_new (new_side (build_edit_script a b)) = map Some [1..<Suc (length b)]"
  "length (kept (build_edit_script a b)) = lcs_spec a b (length a) (length b)"
  using backtrack_correct[of a b "lcs_table a b" "length a" "length b"]
  by (simp_all add: build_edit_script_def table_cell)

lemma lcs_longest:
  "subseq xs a \<Longrightarrow> subseq xs b \<Longrightarrow> length xs \<le> longest_common_subsequence_length a b"
  using lcs_spec_upper[of "length a" a "length b" b xs] by (simp add: rolling_correct)

lemma script_kept_common:
  "subseq (map so_text (kept (build_edit_script a b))) a" "subseq (map so_text (kept (build_edit_script a b))) b"
proof -
  have k: "kept ops = filter (\<lambda>x. so_kind x = EqL) (old_side ops)"
          "kept ops = filter (\<lambda>x. so_kind x = EqL) (new_side ops)" for ops
    by (auto simp: kept_def old_side_def new_side_def intro!: filter_cong)
  have "subseq (map so_text (kept (build_edit_script a b))) (map so_text (old_side (build_edit_script a b)))"
    unfolding k(1) by (intro subseq_map subseq_filter_left)
  then show "subseq (map so_text (kept (build_edit_script a b))) a" by (simp add: script_correct)
  have "subseq (map so_text (kept (build_edit_script a b))) (map so_text (new_side (build_edit_script a b)))"
    unfolding k(2) by (intro subseq_map subseq_filter_left)
  then show "subseq (map so_text (kept (build_edit_script a b))) b" by (simp add: script_correct)
qed

lemma length_sides:
  "length (filter (\<lambda>x. so_kind x = AddL) ops) + length (kept ops) = length (new_side ops)"
  "length (filter (\<lambda>x. so_kind x = DelL) ops) + length (kept ops) = length (old_side ops)"
  unfolding kept_def new_side_def old_side_def
  by (induction ops) (auto, (metis edit_kind.exhaust)+)

lemma script_counts:
  "length (filter (\<lambda>x. so_kind x = AddL) (build_edit_script a b)) = length b - longest_common_subsequence_length a b"
  "length (filter (\<lambda>x. so_kind x = DelL) (build_edit_script a b)) = length a - longest_common_subsequence_length a b"
  using length_sides[of "build_edit_script a b"] script_correct[of a b]
  by (simp_all add: rolling_correct) (metis add_diff_cancel_right' length_map)+

section \<open>Context lines\<close>

definition changed :: "script_op \<Rightarrow> bool" where
  "changed x \<longleftrightarrow> so_kind x = DelL \<or> so_kind x = AddL"

definition near :: "script_op list \<Rightarrow> nat \<Rightarrow> nat \<Rightarrow> bool" where
  "near ops ctx j \<longleftrightarrow> (\<exists>i<length ops. changed (ops ! i) \<and> i \<le> j + ctx \<and> j \<le> i + ctx)"

lemma changed_iff: "changed x \<longleftrightarrow> so_kind x \<noteq> EqL"
  by (cases "so_kind x") (auto simp: changed_def)

lemma set_marks:
  "length (foldl (\<lambda>keep j. keep[j := True]) ks xs) = length ks"
  "k < length ks \<Longrightarrow> foldl (\<lambda>keep j. keep[j := True]) ks xs ! k \<longleftrightarrow> ks ! k \<or> k \<in> set xs"
proof (induction xs arbitrary: ks)
  case (Cons a xs)
  { case 1 then show ?case using Cons(1)[of "ks[a := True]"] by simp }
  { case 2
    have "ks[a := True] ! k \<longleftrightarrow> ks ! k \<or> k = a" using 2
      by (cases "a < length ks") (auto simp: nth_list_update)
    then show ?case using 2 Cons(2)[of "ks[a := True]"] by auto }
qed auto

lemma keep_marks_near:
  "length (keep_marks ops ctx) = length ops"
  "j < length ops \<Longrightarrow> keep_marks ops ctx ! j \<longleftrightarrow> near ops ctx j"
proof -
  define f where "f = (\<lambda>keep i. if so_kind (ops ! i) = DelL \<or> so_kind (ops ! i) = AddL then
           foldl (\<lambda>keep j. keep[j := True]) (keep[i := True])
             [i - ctx..<Suc (min (length ops - 1) (i + ctx))]
         else keep)"
  have "length (foldl f (replicate (length ops) False) [0..<n]) = length ops \<and>
      (\<forall>j<length ops. foldl f (replicate (length ops) False) [0..<n] ! j \<longleftrightarrow>
         (\<exists>i<n. changed (ops ! i) \<and> i \<le> j + ctx \<and> j \<le> i + ctx))" if "n \<le> length ops" for n
    using that
  proof (induction n)
    case 0
    then show ?case by simp
  next
    case (Suc n)
    define ks where "ks = foldl f (replicate (length ops) False) [0..<n]"
    have ks: "length ks = length ops"
      "\<And>j. j < length ops \<Longrightarrow> ks ! j \<longleftrightarrow> (\<exists>i<n. changed (ops ! i) \<and> i \<le> j + ctx \<and> j \<le> i + ctx)"
      using Suc by (auto simp: ks_def)
    have step: "foldl f (replicate (length ops) False) [0..<Suc n] = f ks n" by (simp add: ks_def)
    have l: "length (f ks n) = length ops" using ks(1) by (simp add: f_def set_marks)
    have "f ks n ! j \<longleftrightarrow> ks ! j \<or> changed (ops ! n) \<and> n \<le> j + ctx \<and> j \<le> n + ctx" if "j < length ops" for j
    proof (cases "changed (ops ! n)")
      case True
      then have "f ks n = foldl (\<lambda>keep j. keep[j := True]) (ks[n := True])
          [n - ctx..<Suc (min (length ops - 1) (n + ctx))]"
        by (simp add: f_def changed_def)
      then have "f ks n ! j \<longleftrightarrow> ks[n := True] ! j \<or> (n - ctx \<le> j \<and> j \<le> min (length ops - 1) (n + ctx))"
        using that ks(1) by (simp only: set_marks length_list_update) auto
      then show ?thesis using that True ks(1) Suc(2) by (auto simp: nth_list_update)
    qed (simp add: f_def changed_def)
    then show ?case unfolding step using l ks(2) by (auto simp: less_Suc_eq)
  qed
  from this[of "length ops"]
  show "length (keep_marks ops ctx) = length ops"
    "j < length ops \<Longrightarrow> keep_marks ops ctx ! j \<longleftrightarrow> near ops ctx j"
    by (simp_all add: keep_marks_def near_def f_def)
qed

lemma script_line_op: "dl_op (script_line x) = (case so_kind x of EqL \<Rightarrow> OpCtx | DelL \<Rightarrow> OpDel | AddL \<Rightarrow> OpAdd)"
  by (simp add: script_line_def split: edit_kind.splits)

lemma emit_lines:
  assumes "n \<le> length ops"
  shows "filter (\<lambda>l. dl_op l \<noteq> OpMeta) (fst (foldl (emit_line ops keep) ([], False) [0..<n]))
    = map (\<lambda>j. script_line (ops ! j)) (filter (\<lambda>j. keep ! j) [0..<n])"
  using assms
proof (induction n)
  case (Suc n)
  obtain ls g where lg: "foldl (emit_line ops keep) ([], False) [0..<n] = (ls, g)"
    by (cases "foldl (emit_line ops keep) ([], False) [0..<n]")
  have "dl_op (script_line (ops ! n)) \<noteq> OpMeta"
    by (simp add: script_line_op split: edit_kind.splits)
  moreover have "emit_line ops keep (ls, g) n = (if \<not> keep ! n then (ls, True)
      else if g \<and> length ls > 0 then (ls @ [gap_line, script_line (ops ! n)], False)
      else (ls @ [script_line (ops ! n)], g))"
    by (simp add: emit_line_def)
  ultimately show ?case using Suc lg by (simp add: gap_line_def)
qed simp

lemma context_exact:
  "filter (\<lambda>l. dl_op l \<noteq> OpMeta) (line_diff_with_context a b ctx)
   = (let ops = build_edit_script a b in
      map (\<lambda>j. script_line (ops ! j)) (filter (near ops ctx) [0..<length ops]))"
proof -
  define ops where "ops = build_edit_script a b"
  have nm: "dl_op (script_line x) \<noteq> OpMeta" for x by (simp add: script_line_op split: edit_kind.splits)
  show ?thesis
  proof (cases "ctx = 0")
    case True
    have "near ops 0 j = (so_kind (ops ! j) \<noteq> EqL)" if "j < length ops" for j
      using that by (auto simp: near_def changed_iff)
    then have "map (\<lambda>j. script_line (ops ! j)) (filter (near ops 0) [0..<length ops])
      = map (\<lambda>j. script_line (ops ! j)) (filter (\<lambda>j. so_kind (ops ! j) \<noteq> EqL) [0..<length ops])"
      by (intro arg_cong[where f = "map _"] filter_cong) auto
    also have "\<dots> = map script_line (filter (\<lambda>x. so_kind x \<noteq> EqL) (map ((!) ops) [0..<length ops]))"
      by (simp add: filter_map o_def)
    finally show ?thesis
      using True nm by (simp add: line_diff_with_context_def Let_def ops_def[symmetric] map_nth)
  next
    case False
    have "filter (\<lambda>j. keep_marks ops ctx ! j) [0..<length ops] = filter (near ops ctx) [0..<length ops]"
      by (intro filter_cong) (auto simp: keep_marks_near)
    then show ?thesis
      using False emit_lines[of "length ops" ops "keep_marks ops ctx"]
      by (simp add: line_diff_with_context_def Let_def ops_def[symmetric])
  qed
qed

text \<open>Every changed line is shown, whatever the number of context lines.\<close>

lemma filter_nth: "filter P xs = map ((!) xs) (filter (\<lambda>j. P (xs ! j)) [0..<length xs])"
proof -
  have "filter P xs = filter P (map ((!) xs) [0..<length xs])" by (simp add: map_nth)
  then show ?thesis by (simp add: filter_map o_def)
qed

lemma changed_lines:
  "filter (\<lambda>l. dl_op l = OpAdd \<or> dl_op l = OpDel) (line_diff_with_context a b ctx)
   = map script_line (filter (\<lambda>x. so_kind x \<noteq> EqL) (build_edit_script a b))"
proof -
  define ops where "ops = build_edit_script a b"
  let ?c = "\<lambda>l. dl_op l = OpAdd \<or> dl_op l = OpDel"
  have c: "?c (script_line x) \<longleftrightarrow> so_kind x \<noteq> EqL" for x
    by (simp add: script_line_op split: edit_kind.splits)
  have "filter ?c (line_diff_with_context a b ctx)
      = filter ?c (filter (\<lambda>l. dl_op l \<noteq> OpMeta) (line_diff_with_context a b ctx))"
    by (auto intro!: filter_cong)
  also have "\<dots> = map (\<lambda>j. script_line (ops ! j))
      (filter (\<lambda>j. so_kind (ops ! j) \<noteq> EqL) (filter (near ops ctx) [0..<length ops]))"
    by (simp add: context_exact Let_def ops_def[symmetric] filter_map o_def c)
  also have "filter (\<lambda>j. so_kind (ops ! j) \<noteq> EqL) (filter (near ops ctx) [0..<length ops])
      = filter (\<lambda>j. so_kind (ops ! j) \<noteq> EqL) [0..<length ops]"
    by (auto simp: near_def changed_iff intro!: filter_cong)
  also have "map (\<lambda>j. script_line (ops ! j)) \<dots> = map script_line (filter (\<lambda>x. so_kind x \<noteq> EqL) ops)"
    by (subst (2) filter_nth) simp
  finally show ?thesis by (simp add: ops_def)
qed

section \<open>Statistics and truncation\<close>

lemma count_stats_filter:
  "count_stats ls = (length (filter (\<lambda>l. dl_op l = OpAdd) ls), length (filter (\<lambda>l. dl_op l = OpDel) ls))"
proof -
  have "foldl (\<lambda>(added, removed) l. if dl_op l = OpAdd then (added + 1, removed)
         else if dl_op l = OpDel then (added, removed + 1) else (added, removed)) (x, y) ls
     = (x + length (filter (\<lambda>l. dl_op l = OpAdd) ls), y + length (filter (\<lambda>l. dl_op l = OpDel) ls))" for x y
    by (induction ls arbitrary: x y) auto
  from this[of 0 0] show ?thesis by (simp add: count_stats_def)
qed

lemma context_stats:
  "count_stats (line_diff_with_context a b ctx)
   = (length b - longest_common_subsequence_length a b, length a - longest_common_subsequence_length a b)"
proof -
  let ?ls = "line_diff_with_context a b ctx"
  let ?ch = "filter (\<lambda>l. dl_op l = OpAdd \<or> dl_op l = OpDel) ?ls"
  have "filter (\<lambda>l. dl_op l = OpAdd) ?ls = filter (\<lambda>l. dl_op l = OpAdd) ?ch"
       "filter (\<lambda>l. dl_op l = OpDel) ?ls = filter (\<lambda>l. dl_op l = OpDel) ?ch"
    by (auto intro!: filter_cong)
  moreover have "dl_op (script_line x) = OpAdd \<longleftrightarrow> so_kind x = AddL"
      "dl_op (script_line x) = OpDel \<longleftrightarrow> so_kind x = DelL" for x :: script_op
    by (simp_all add: script_line_op split: edit_kind.splits)
  moreover have "filter (\<lambda>x. so_kind x \<noteq> EqL \<and> so_kind x = AddL) ops = filter (\<lambda>x. so_kind x = AddL) ops"
      "filter (\<lambda>x. so_kind x \<noteq> EqL \<and> so_kind x = DelL) ops = filter (\<lambda>x. so_kind x = DelL) ops" for ops :: "script_op list"
    by (auto intro!: filter_cong)
  ultimately show ?thesis
    by (simp add: count_stats_filter changed_lines filter_map o_def script_counts)
qed

lemma count_stats_clip:
  "count_stats (map (\<lambda>l. l\<lparr>dl_text := f l\<rparr>) ls) = count_stats ls"
  by (simp add: count_stats_filter filter_map o_def)

lemma finalize_stats: "dp_stats (finalize_preview hs opts) = count_stats (concat (map h_lines hs))"
  by (simp add: finalize_preview_def Let_def)

lemma cut_lines_length: "0 < mx \<Longrightarrow> length (dp_lines (cut_lines ls mx)) \<le> mx"
  by (auto simp: cut_lines_def Let_def)

lemma balanced_cases:
  obtains (fits) "length ls \<le> mx" | (cut) "balanced_truncate ls mx = cut_lines ls mx"
    | (split) "4 \<le> mx" "\<exists>m. dp_lines (balanced_truncate ls mx)
          = take (max 1 ((mx - 1) div 2)) (filter (\<lambda>l. dl_op l = OpDel) ls)
            @ take (max 1 ((mx - 1) - max 1 ((mx - 1) div 2))) (filter (\<lambda>l. dl_op l = OpAdd) ls) @ [m]"
proof (cases "length ls \<le> mx")
  case False
  then show thesis
  proof (cases "(\<exists>l\<in>set ls. dl_op l = OpCtx) \<or> \<not> (length (filter (\<lambda>l. dl_op l = OpDel) ls) > 0
      \<and> length (filter (\<lambda>l. dl_op l = OpAdd) ls) > 0 \<and> mx \<ge> 4)")
    case True
    then have "balanced_truncate ls mx = cut_lines ls mx"
      unfolding balanced_truncate_def Let_def if_not_P[OF False]
      by (elim disjE) (simp_all only: if_True if_False not_False_eq_True if_cancel)
    then show thesis by (rule cut)
  next
    case sp: False
    then have m: "mx \<ge> 4" by blast
    have "dp_lines (balanced_truncate ls mx)
          = take (max 1 ((mx - 1) div 2)) (filter (\<lambda>l. dl_op l = OpDel) ls)
            @ take (max 1 ((mx - 1) - max 1 ((mx - 1) div 2))) (filter (\<lambda>l. dl_op l = OpAdd) ls)
            @ [more_lines (length (filter (\<lambda>l. dl_op l = OpDel) ls)
                  - length (take (max 1 ((mx - 1) div 2)) (filter (\<lambda>l. dl_op l = OpDel) ls))
                + (length (filter (\<lambda>l. dl_op l = OpAdd) ls)
                  - length (take (max 1 ((mx - 1) - max 1 ((mx - 1) div 2))) (filter (\<lambda>l. dl_op l = OpAdd) ls)))
                + length (filter (\<lambda>l. dl_op l \<noteq> OpDel \<and> dl_op l \<noteq> OpAdd) ls))]"
      unfolding balanced_truncate_def Let_def using False sp by (simp only: if_False if_True) simp
    with m show thesis using split by blast
  qed
qed (rule fits)

lemma balanced_length:
  assumes "0 < mx"
  shows "length (dp_lines (balanced_truncate ls mx)) \<le> mx"
proof -
  let ?ds = "filter (\<lambda>l. dl_op l = OpDel) ls" and ?as = "filter (\<lambda>l. dl_op l = OpAdd) ls"
  consider (fits) "length ls \<le> mx" | (cut) "balanced_truncate ls mx = cut_lines ls mx"
    | (split) "4 \<le> mx" "\<exists>m. dp_lines (balanced_truncate ls mx)
          = take (max 1 ((mx - 1) div 2)) ?ds @ take (max 1 ((mx - 1) - max 1 ((mx - 1) div 2))) ?as @ [m]"
    by (rule balanced_cases)
  then show ?thesis
  proof cases
    case fits
    then show ?thesis by (simp add: balanced_truncate_def)
  next
    case cut
    then show ?thesis using cut_lines_length[OF assms] by simp
  next
    case split
    then obtain m where m: "dp_lines (balanced_truncate ls mx)
        = take (max 1 ((mx - 1) div 2)) ?ds @ take (max 1 ((mx - 1) - max 1 ((mx - 1) div 2))) ?as @ [m]" by blast
    have "max 1 ((mx - 1) div 2) + max 1 ((mx - 1) - max 1 ((mx - 1) div 2)) = mx - 1" using split(1) by auto
    moreover have "length (dp_lines (balanced_truncate ls mx))
        \<le> max 1 ((mx - 1) div 2) + max 1 ((mx - 1) - max 1 ((mx - 1) div 2)) + 1"
      unfolding m by (simp add: add_mono del: One_nat_def)
    ultimately show ?thesis using split(1) by linarith
  qed
qed

lemma finalize_length:
  "0 < or_default (o_max_lines opts) DEFAULT_MAX_LINES \<Longrightarrow>
   length (dp_lines (finalize_preview hs opts)) \<le> or_default (o_max_lines opts) DEFAULT_MAX_LINES"
  using balanced_length[of "or_default (o_max_lines opts) DEFAULT_MAX_LINES" "concat (map h_lines hs)"]
  by (simp add: finalize_preview_def Let_def)

lemma overwrite_stats:
  assumes "length (split_content_lines before) * length (split_content_lines after) \<le> 200000"
    and "o_max_lcs_cells opts = None"
  shows "dp_stats (build_overwrite_diff_preview before after opts) = line_diff_stats before after"
proof -
  define a where "a = split_content_lines before"
  define b where "b = split_content_lines after"
  define ctx where "ctx = or_default (o_context_lines opts) DEFAULT_CONTEXT_LINES"
  show ?thesis
  proof (cases "a = [] \<and> b = []")
    case True
    then show ?thesis
      by (simp add: build_overwrite_diff_preview_def line_diff_stats_def Let_def a_def[symmetric] b_def[symmetric])
  next
    case False
    then have ld: "line_diff_stats before after = count_stats (line_diff_with_context a b ctx)"
      using assms(1) by (auto simp: line_diff_stats_def Let_def a_def[symmetric] b_def[symmetric] context_stats)
    have "line_diff_with_context a b ctx = [] \<Longrightarrow> count_stats (line_diff_with_context a b ctx) = (0, 0)"
      by (simp add: count_stats_def)
    then show ?thesis
      using False assms ld
      by (auto simp: build_overwrite_diff_preview_def Let_def a_def[symmetric] b_def[symmetric]
          ctx_def[symmetric] or_default_def[of None] DEFAULT_MAX_LCS_CELLS_def finalize_stats count_stats_clip)
  qed
qed

lemma count_lines_split: "count_lines t = length (split_content_lines t)"
  by (simp add: count_lines_def split_content_lines_def Let_def)

end
