(* ===== verification/Edit_Laws.thy ===== *)
theory Edit_Laws
  imports Edit Diff_Laws
begin

text \<open>
  What a call of the edit tool does to the file: it writes nothing unless every edit of the list
  applied and the text changed, a single edit whose text occurs once replaces that occurrence
  and nothing else, and the replacement text is not taken literally when it contains a \<open>$\<close>
  pattern.
\<close>

section \<open>Replacement texts\<close>

lemma expand_plain: "36 \<notin> set new \<Longrightarrow> expand_dollar new m l r = new"
  by (induction new m l r rule: expand_dollar.induct) auto

lemma expand_dollar_pair:
  "36 \<notin> set x \<Longrightarrow> 36 \<notin> set y \<Longrightarrow> expand_dollar (x @ [36, 36] @ y) m l r = x @ [36] @ y"
proof (induction x)
  case Nil
  then show ?case by (simp add: expand_plain)
next
  case (Cons c x)
  then show ?case by (cases x) (auto simp: expand_plain)
qed

section \<open>A text that occurs once\<close>

definition occurs_once :: "jsstring \<Rightarrow> jsstring \<Rightarrow> jsstring \<Rightarrow> jsstring \<Rightarrow> bool" where
  "occurs_once content old a b \<longleftrightarrow>
     content = a @ old @ b \<and> (\<forall>i \<le> length content. take (length old) (drop i content) = old \<longrightarrow> i = length a)"

lemma all_positions: "(\<forall>i \<le> n. P i) \<longleftrightarrow> list_all P [0..<Suc n]"
  by (auto simp: list_all_iff less_Suc_eq_le)

lemma once_index:
  assumes "occurs_once content old a b" "old \<noteq> []"
  shows "index_of content old = Some (length a)"
proof -
  have "index_of content old \<noteq> None"
    using assms(1) index_of_None[of content old] by (auto simp: occurs_once_def)
  then obtain i where i: "index_of content old = Some i" by auto
  define l r where "l = take i content" and "r = drop (i + length old) content"
  have "length l = i" using index_of_bound[OF i] by (simp add: l_def)
  moreover have "content = l @ old @ r" unfolding l_def r_def by (rule index_of_Some[OF i])
  ultimately have "take (length old) (drop i content) = old" "i \<le> length content" by auto
  moreover have "\<forall>i \<le> length content. take (length old) (drop i content) = old \<longrightarrow> i = length a"
    using assms(1) unfolding occurs_once_def by blast
  ultimately have "i = length a" by blast
  with i show ?thesis by simp
qed

lemma once_rest: "occurs_once content old a b \<Longrightarrow> old \<noteq> [] \<Longrightarrow> index_of b old = None"
proof (rule ccontr)
  assume o: "occurs_once content old a b" and ne: "old \<noteq> []" and "index_of b old \<noteq> None"
  then obtain x y where b: "b = x @ old @ y" using index_of_None[of b old] by auto
  have "content = a @ old @ x @ old @ y" using o b by (simp add: occurs_once_def)
  then have "take (length old) (drop (length a + length old + length x) content) = old"
    "length a + length old + length x \<le> length content" by simp_all
  moreover have "\<forall>i \<le> length content. take (length old) (drop i content) = old \<longrightarrow> i = length a"
    using o unfolding occurs_once_def by blast
  ultimately have "length a + length old + length x = length a" by blast
  with ne show False by simp
qed

lemma once_split:
  assumes "occurs_once content old a b" "old \<noteq> []"
  shows "split_on old content = [a, b]"
proof -
  have c: "content = a @ old @ b" using assms(1) by (simp add: occurs_once_def)
  have "split_on old b = [b]"
    using once_rest[OF assms] assms(2) by (subst split_on.simps) simp
  then show ?thesis
    using once_index[OF assms] assms(2) by (subst split_on.simps) (simp add: c)
qed

lemma once_replace:
  assumes "occurs_once content old a b" "old \<noteq> []"
  shows "replace_first content old new = a @ expand_dollar new old a b @ b"
  using once_index[OF assms] assms(1) by (simp add: replace_first_def occurs_once_def Let_def)

section \<open>The loop\<close>

text \<open>The edits that apply one after the other: the abstract meaning of a successful loop.\<close>

fun edit_text :: "normalized_edit \<Rightarrow> jsstring \<Rightarrow> jsstring option" where
  "edit_text ed t =
     (let pieces = split_on (ne_old ed) t in
      case pieces of
        [] \<Rightarrow> None
      | [_] \<Rightarrow> map_option fst (try_relaxed_replace t ed)
      | [_, _] \<Rightarrow> Some (if ne_all ed then js_join (ne_new ed) pieces else replace_first t (ne_old ed) (ne_new ed))
      | _ \<Rightarrow> if ne_all ed then Some (js_join (ne_new ed) pieces) else None)"

fun edit_texts :: "normalized_edit list \<Rightarrow> jsstring \<Rightarrow> jsstring option" where
  "edit_texts [] t = Some t"
| "edit_texts (ed # eds) t = (case edit_text ed t of None \<Rightarrow> None | Some t' \<Rightarrow> edit_texts eds t')"

lemma es_content_add [simp]: "es_content (add_applied st ed t k) = t"
  by (simp add: add_applied_def split: prod.splits)

lemma apply_edit_text:
  assumes "ne_old ed \<noteq> []"
  shows "edit_text ed (es_content st) = (case apply_edit path n i ed st of Inl _ \<Rightarrow> None | Inr st' \<Rightarrow> Some (es_content st'))"
proof -
  have "split_on (ne_old ed) (es_content st) \<noteq> []" using assms by (rule split_on_not_Nil)
  then show ?thesis
    by (auto simp: apply_edit_def Let_def split: list.splits option.splits if_splits)
qed

lemma apply_edits_text:
  "\<forall>ed\<in>set eds. ne_old ed \<noteq> [] \<Longrightarrow>
   edit_texts eds (es_content st) = (case apply_edits path n i eds st of Inl _ \<Rightarrow> None | Inr st' \<Rightarrow> Some (es_content st'))"
proof (induction eds arbitrary: st i)
  case (Cons ed eds)
  then have t: "edit_text ed (es_content st) = (case apply_edit path n i ed st of Inl _ \<Rightarrow> None | Inr st' \<Rightarrow> Some (es_content st'))"
    by (intro apply_edit_text) simp
  show ?case
  proof (cases "apply_edit path n i ed st")
    case (Inl r)
    then show ?thesis using t by (simp del: edit_text.simps)
  next
    case (Inr st')
    then show ?thesis using t Cons(1)[of st' "i + 1"] Cons(2) by (simp del: edit_text.simps)
  qed
qed simp

lemma apply_edit_stops: "apply_edit path n i ed st = Inl r \<Longrightarrow> \<not> ed_mutated (er_data r)"
  by (auto simp: apply_edit_def Let_def no_match_result_def ambiguous_result_def split: if_splits option.splits)

lemma apply_edits_stops: "apply_edits path n i eds st = Inl r \<Longrightarrow> \<not> ed_mutated (er_data r)"
  by (induction eds arbitrary: i st) (auto split: sum.splits dest: apply_edit_stops)

lemma normalize_edits_old:
  assumes "edit_input_valid inp" "ed \<in> set (normalize_edits inp)"
  shows "ne_old ed \<noteq> []"
proof (cases "ei_edits inp")
  case None
  then show ?thesis using assms
    by (auto simp: edit_input_valid_def normalize_edits_def or_default_def)
next
  case (Some es)
  then have v: "\<forall>e\<in>set es. se_old e \<noteq> []" "es \<noteq> []"
    using assms(1) by (auto simp: edit_input_valid_def simp del: One_nat_def)
  show ?thesis using assms(2) v by (auto simp: normalize_edits_def Let_def Some)
qed

lemma edit_execute_cases:
  assumes "edit_input_valid inp"
  shows "edit_execute inp original = (r, w) \<Longrightarrow>
    w = (case edit_texts (normalize_edits inp) original of
          Some t \<Rightarrow> if t = original then None else Some t | None \<Rightarrow> None)
    \<and> ed_mutated (er_data r) = (w \<noteq> None)"
proof -
  assume e: "edit_execute inp original = (r, w)"
  let ?eds = "normalize_edits inp" and ?st = "start_state original"
  let ?run = "apply_edits (ei_path inp) (length ?eds) 0 ?eds ?st"
  have t: "edit_texts ?eds original = (case ?run of Inl _ \<Rightarrow> None | Inr st' \<Rightarrow> Some (es_content st'))"
    using apply_edits_text[of ?eds ?st "ei_path inp" "length ?eds" 0] normalize_edits_old[OF assms]
    by (simp add: start_state_def)
  show ?thesis
  proof (cases ?run)
    case (Inl x)
    then show ?thesis using e t apply_edits_stops[OF Inl] by (simp add: edit_execute_def Let_def)
  next
    case (Inr st)
    show ?thesis
    proof (cases "es_content st = original")
      case True
      with Inr have "edit_execute inp original = (r, w) \<Longrightarrow> w = None \<and> \<not> ed_mutated (er_data r)"
        by (auto simp: edit_execute_def Let_def)
      with e t Inr True show ?thesis by simp
    next
      case False
      with Inr have "edit_execute inp original = (r, w) \<Longrightarrow> w = Some (es_content st) \<and> ed_mutated (er_data r)"
        unfolding edit_execute_def Let_def by (simp only: sum.case if_False) auto
      with e t Inr False show ?thesis by simp
    qed
  qed
qed

end
