(* ===== verification/JsValue.thy ===== *)
theory JsValue
  imports Prelude
begin

text \<open>
  JavaScript values as the worker passes them through \<open>unknown\<close>-typed fields (tool inputs,
  trace payloads, JSON-RPC bodies), and \<open>JSON.stringify\<close> on them. A finite number that is not
  an integer is kept as the text ECMAScript prints for it; the three non-finite numbers are
  \<open>JNonFinite\<close>. Object members are listed in the order \<open>Object.entries\<close> gives them.
\<close>

datatype jsval =
    JUndef
  | JNull
  | JBool bool
  | JInt int
  | JFloat jsstring
  | JNonFinite jsstring
  | JStr jsstring
  | JArr "jsval list"
  | JObj "(jsstring \<times> jsval) list"

section \<open>JSON.stringify\<close>

definition hex_digit :: "nat \<Rightarrow> nat" where
  "hex_digit d = (if d < 10 then 48 + d else 87 + d)"

definition unicode_escape :: "nat \<Rightarrow> jsstring" where
  "unicode_escape c = [92, 117, hex_digit (c div 4096), hex_digit (c div 256 mod 16),
     hex_digit (c div 16 mod 16), hex_digit (c mod 16)]"

definition is_high :: "nat \<Rightarrow> bool" where
  "is_high c \<longleftrightarrow> 0xD800 \<le> c \<and> c \<le> 0xDBFF"

definition is_low :: "nat \<Rightarrow> bool" where
  "is_low c \<longleftrightarrow> 0xDC00 \<le> c \<and> c \<le> 0xDFFF"

definition quote_unit :: "nat \<Rightarrow> jsstring" where
  "quote_unit c =
     (if c = 34 then [92, 34] else if c = 92 then [92, 92]
      else if c = 8 then [92, 98] else if c = 12 then [92, 102]
      else if c = 10 then [92, 110] else if c = 13 then [92, 114]
      else if c = 9 then [92, 116]
      else if c < 32 \<or> is_high c \<or> is_low c then unicode_escape c
      else [c])"

fun quote_units :: "jsstring \<Rightarrow> jsstring" where
  "quote_units [] = []"
| "quote_units [c] = quote_unit c"
| "quote_units (c # d # r) =
     (if is_high c \<and> is_low d then c # d # quote_units r
      else quote_unit c @ quote_units (d # r))"

definition quote :: "jsstring \<Rightarrow> jsstring" where
  "quote s = [34] @ quote_units s @ [34]"

definition show_int :: "int \<Rightarrow> jsstring" where
  "show_int i = (if i < 0 then 45 # show_nat (nat (- i)) else show_nat (nat i))"

fun stringify :: "jsval \<Rightarrow> jsstring option" where
  "stringify JUndef = None"
| "stringify JNull = Some (js ''null'')"
| "stringify (JBool b) = Some (if b then js ''true'' else js ''false'')"
| "stringify (JInt i) = Some (show_int i)"
| "stringify (JFloat s) = Some s"
| "stringify (JNonFinite s) = Some (js ''null'')"
| "stringify (JStr s) = Some (quote s)"
| "stringify (JArr xs) = Some (js ''['' @ js_join (js '','')
     (map (\<lambda>x. case stringify x of None \<Rightarrow> js ''null'' | Some t \<Rightarrow> t) xs) @ js '']'')"
| "stringify (JObj ps) = Some (js ''{'' @ js_join (js '','')
     (concat (map (\<lambda>p. case stringify (snd p) of
         None \<Rightarrow> [] | Some t \<Rightarrow> [quote (fst p) @ js '':'' @ t]) ps)) @ js ''}'')"

section \<open>Reading values\<close>

text \<open>\<open>typeof v === 'object' && v !== null && !Array.isArray(v)\<close>, then a property read.\<close>

fun as_record :: "jsval \<Rightarrow> (jsstring \<times> jsval) list option" where
  "as_record (JObj ps) = Some ps"
| "as_record _ = None"

definition getp :: "(jsstring \<times> jsval) list \<Rightarrow> string \<Rightarrow> jsval" where
  "getp ps k = (case map_of ps (js k) of None \<Rightarrow> JUndef | Some v \<Rightarrow> v)"

fun str_of :: "jsval \<Rightarrow> jsstring option" where
  "str_of (JStr s) = Some s"
| "str_of _ = None"

lemma stringify_None [simp]: "stringify v = None \<longleftrightarrow> v = JUndef"
  by (cases v) auto

lemma quote_length: "2 \<le> length (quote s)"
  by (simp add: quote_def)

lemma getp_Cons:
  "getp ((k', v) # ps) k = (if k' = js k then v else getp ps k)"
  by (simp add: getp_def)

lemma getp_Nil [simp]: "getp [] k = JUndef"
  by (simp add: getp_def)

end
