(* ===== verification/Tokens.thy ===== *)
theory Tokens
  imports JsValue Complex_Main
begin

text \<open>
  Chat messages (worker/core/src/llm/types.ts), the heuristic token estimator with its
  calibration (context/tokenEstimator.ts) and the context budget policy
  (context/contextPolicy.ts). Token counts are natural numbers; the calibration factor, a
  double in the code, is a rational number here.
\<close>

section \<open>Messages\<close>

datatype image_part =
    ImgUrl jsstring "jsstring option"
  | ImgBase64 jsstring jsstring
  | ImgWorkspace jsstring "jsstring option"

record tool_call =
  call_id :: jsstring
  call_name :: jsstring
  call_input :: jsval

datatype chat_role = System | User | Assistant

datatype llm_message =
    Chat (msg_role: chat_role) (msg_content: jsstring)
      (msg_images: "image_part list option") (msg_calls: "tool_call list option")
  | ToolMsg (msg_call_id: jsstring) (msg_name: jsstring) (msg_content: jsstring)

fun image_count :: "llm_message \<Rightarrow> nat" where
  "image_count (ToolMsg _ _ _) = 0"
| "image_count (Chat _ _ imgs _) = (case imgs of None \<Rightarrow> 0 | Some xs \<Rightarrow> length xs)"

text \<open>The value \<open>JSON.stringify\<close> sees for a tool call.\<close>

definition call_json :: "tool_call \<Rightarrow> jsval" where
  "call_json c = JObj [(js ''id'', JStr (call_id c)), (js ''name'', JStr (call_name c)),
     (js ''input'', call_input c)]"

definition calls_json :: "tool_call list \<Rightarrow> jsstring" where
  "calls_json cs = (case stringify (JArr (map call_json cs)) of None \<Rightarrow> [] | Some t \<Rightarrow> t)"

section \<open>Raw estimates\<close>

definition MESSAGE_OVERHEAD_TOKENS :: nat where "MESSAGE_OVERHEAD_TOKENS = 4"

definition IMAGE_TOKENS :: nat where "IMAGE_TOKENS = 1600"

definition is_cjk :: "nat \<Rightarrow> bool" where
  "is_cjk c \<longleftrightarrow> (0x4E00 \<le> c \<and> c \<le> 0x9FFF) \<or> (0x3400 \<le> c \<and> c \<le> 0x4DBF)
     \<or> (0x3040 \<le> c \<and> c \<le> 0x30FF) \<or> (0xAC00 \<le> c \<and> c \<le> 0xD7AF)"

text \<open>
  The loop over the code points of the text, counting quarters of a token: a CJK character
  is four, any other code point (a surrogate pair is one) a single quarter. Sums of quarters
  are exact in double arithmetic, so \<open>Math.ceil\<close> is the rounding up of the count of quarters.
\<close>

fun text_quarters :: "jsstring \<Rightarrow> nat" where
  "text_quarters [] = 0"
| "text_quarters [c] = (if is_cjk c then 4 else 1)"
| "text_quarters (c # d # r) =
     (if is_high c \<and> is_low d then 1 + text_quarters r
      else (if is_cjk c then 4 else 1) + text_quarters (d # r))"

definition estimate_text_tokens :: "jsstring \<Rightarrow> nat" where
  "estimate_text_tokens t = (text_quarters t + 3) div 4"

fun estimate_message_tokens :: "llm_message \<Rightarrow> nat" where
  "estimate_message_tokens (ToolMsg cid nm content) =
     MESSAGE_OVERHEAD_TOKENS + estimate_text_tokens content + estimate_text_tokens nm
     + estimate_text_tokens cid"
| "estimate_message_tokens (Chat role content imgs calls) =
     MESSAGE_OVERHEAD_TOKENS + estimate_text_tokens content
     + image_count (Chat role content imgs calls) * IMAGE_TOKENS
     + (case calls of None \<Rightarrow> 0
        | Some cs \<Rightarrow> if cs = [] then 0 else estimate_text_tokens (calls_json cs))"

definition estimate_messages_tokens :: "llm_message list \<Rightarrow> nat" where
  "estimate_messages_tokens ms = foldl (\<lambda>sum m. sum + estimate_message_tokens m) 0 ms"

section \<open>The calibrated estimator\<close>

record estimator =
  calibration :: rat
  min_factor :: rat
  max_factor :: rat
  ema_alpha :: rat

definition new_estimator :: "rat option \<Rightarrow> rat option \<Rightarrow> rat option \<Rightarrow> estimator" where
  "new_estimator mn mx al = \<lparr>calibration = 1,
     min_factor = (case mn of None \<Rightarrow> 1 / 2 | Some x \<Rightarrow> x),
     max_factor = (case mx of None \<Rightarrow> 2 | Some x \<Rightarrow> x),
     ema_alpha = (case al of None \<Rightarrow> 3 / 10 | Some x \<Rightarrow> x)\<rparr>"

text \<open>\<open>Math.max(0, Math.round(raw * factor))\<close>; \<open>Math.round\<close> rounds halves up.\<close>

definition scaled :: "rat \<Rightarrow> nat \<Rightarrow> nat" where
  "scaled f raw = nat \<lfloor>of_nat raw * f + 1 / 2\<rfloor>"

definition est_messages :: "estimator \<Rightarrow> llm_message list \<Rightarrow> nat" where
  "est_messages e ms = scaled (calibration e) (estimate_messages_tokens ms)"

definition est_message :: "estimator \<Rightarrow> llm_message \<Rightarrow> nat" where
  "est_message e m = scaled (calibration e) (estimate_message_tokens m)"

definition est_text :: "estimator \<Rightarrow> jsstring \<Rightarrow> nat" where
  "est_text e t = scaled (calibration e) (estimate_text_tokens t)"

definition clamp :: "rat \<Rightarrow> rat \<Rightarrow> rat \<Rightarrow> rat" where
  "clamp v mn mx = min mx (max mn v)"

definition calibrate :: "int \<Rightarrow> int \<Rightarrow> estimator \<Rightarrow> estimator" where
  "calibrate raw actual e =
     (if raw \<le> 0 \<or> actual \<le> 0 then e
      else let ratio = of_int actual / of_int raw;
               next_f = calibration e * (1 - ema_alpha e) + ratio * ema_alpha e
           in e\<lparr>calibration := clamp next_f (min_factor e) (max_factor e)\<rparr>)"

definition reset_calibration :: "estimator \<Rightarrow> estimator" where
  "reset_calibration e = e\<lparr>calibration := 1\<rparr>"

section \<open>The context budget\<close>

definition DEFAULT_CONTEXT_WINDOW :: int where "DEFAULT_CONTEXT_WINDOW = 256000"

text \<open>A numeric option: a finite number, or one of the non-finite ones, of which the code only
  asks \<open>Number.isFinite\<close>.\<close>

datatype jsnum = Num rat | NonFin

record policy_options =
  opt_context_window :: "int option"
  opt_is_subagent :: bool
  opt_preserve_full_turns :: "jsnum option"
  opt_preserve_recent_tokens :: "jsnum option"
  opt_preserve_tool_iterations :: "jsnum option"
  opt_max_tool_result_tokens :: "jsnum option"

record context_policy =
  context_window :: int
  output_reserve :: int
  input_budget :: int
  compact_threshold :: int
  tool_result_quota :: int
  preserve_full_turns :: int
  preserve_recent_tokens :: int
  preserve_tool_iterations :: int
  max_tool_result_tokens :: int

fun normalize_non_negative_int :: "jsnum option \<Rightarrow> int \<Rightarrow> int" where
  "normalize_non_negative_int (Some (Num x)) fb = (if 0 \<le> x then \<lfloor>x\<rfloor> else fb)"
| "normalize_non_negative_int _ fb = fb"

fun normalize_positive_int :: "jsnum option \<Rightarrow> int option" where
  "normalize_positive_int (Some (Num x)) = (if 0 < x then Some \<lfloor>x\<rfloor> else None)"
| "normalize_positive_int _ = None"

text \<open>
  \<open>Math.floor(x * 0.8)\<close>, \<open>Math.floor(x * 0.4)\<close> and \<open>Math.floor(x * 0.1)\<close> are exact integer
  divisions for every integer below \<open>2 ^ 49\<close> (the three doubles lie just above the decimal
  fractions), and \<open>x * 0.125\<close> is exact.
\<close>

definition create_context_policy :: "policy_options \<Rightarrow> context_policy" where
  "create_context_policy opts =
     (let cw = (case opt_context_window opts of None \<Rightarrow> DEFAULT_CONTEXT_WINDOW | Some w \<Rightarrow> w);
          reserve = min 32000 (cw div 8);
          base = cw - reserve;
          budget = (if opt_is_subagent opts then base div 2 else base)
      in \<lparr>context_window = cw, output_reserve = reserve, input_budget = budget,
          compact_threshold = (budget * 4) div 5,
          tool_result_quota = (budget * 2) div 5,
          preserve_full_turns = normalize_non_negative_int (opt_preserve_full_turns opts) 4,
          preserve_recent_tokens =
            (case normalize_positive_int (opt_preserve_recent_tokens opts) of
               Some n \<Rightarrow> n | None \<Rightarrow> max 256 (min 20000 (budget div 10))),
          preserve_tool_iterations =
            normalize_non_negative_int (opt_preserve_tool_iterations opts) 2,
          max_tool_result_tokens =
            (case normalize_positive_int (opt_max_tool_result_tokens opts) of
               Some n \<Rightarrow> n | None \<Rightarrow> 2000)\<rparr>)"

section \<open>Laws\<close>

lemma low_simps [simp]: "is_low c \<Longrightarrow> \<not> is_high c" "is_low c \<Longrightarrow> \<not> is_cjk c"
  by (auto simp: is_low_def is_high_def is_cjk_def)

lemma quarters_low [simp]: "is_low c \<Longrightarrow> text_quarters (c # r) = Suc (text_quarters r)"
  by (cases r) auto

lemma quarters_tail: "text_quarters r \<le> text_quarters (c # r)"
proof (cases r)
  case (Cons d t)
  show ?thesis
  proof (cases "is_high c \<and> is_low d")
    case True
    with Cons show ?thesis by simp
  next
    case False
    with Cons show ?thesis by auto
  qed
qed simp

lemma quarters_append: "text_quarters (a @ b) \<le> text_quarters a + text_quarters b"
proof (induction a rule: text_quarters.induct)
  case (2 c)
  show ?case
  proof (cases b)
    case (Cons d r)
    then show ?thesis using quarters_tail[of r d] by auto
  qed simp
qed auto

lemma quarters_upper: "text_quarters s \<le> 4 * length s"
  by (induction s rule: text_quarters.induct) auto

lemma quarters_plain: "\<forall>c \<in> set s. \<not> is_cjk c \<Longrightarrow> text_quarters s \<le> length s"
  by (induction s rule: text_quarters.induct) auto

lemma quarters_cjk: "\<forall>c \<in> set s. is_cjk c \<Longrightarrow> text_quarters s = 4 * length s"
proof (induction s rule: text_quarters.induct)
  case (3 c d r)
  then have "\<not> is_low d" by auto
  with 3 show ?case by auto
qed auto

lemma quarters_lower: "length s \<le> 2 * text_quarters s"
  by (induction s rule: text_quarters.induct) auto

lemma text_tokens_upper: "estimate_text_tokens s \<le> length s"
  using quarters_upper[of s] by (simp add: estimate_text_tokens_def)

lemma text_tokens_plain:
  "\<forall>c \<in> set s. \<not> is_cjk c \<Longrightarrow> estimate_text_tokens s \<le> (length s + 3) div 4"
  using quarters_plain[of s] by (simp add: estimate_text_tokens_def div_le_mono)

lemma text_tokens_cjk: "\<forall>c \<in> set s. is_cjk c \<Longrightarrow> estimate_text_tokens s = length s"
  using quarters_cjk[of s] by (simp add: estimate_text_tokens_def)

lemma text_tokens_lower: "length s \<le> 8 * estimate_text_tokens s"
  using quarters_lower[of s] unfolding estimate_text_tokens_def by linarith

lemma text_tokens_append:
  "estimate_text_tokens (a @ b) \<le> estimate_text_tokens a + estimate_text_tokens b"
  using quarters_append[of a b] unfolding estimate_text_tokens_def by linarith

lemma text_tokens_Nil [simp]: "estimate_text_tokens [] = 0"
  by (simp add: estimate_text_tokens_def)

lemma text_tokens_0 [simp]: "estimate_text_tokens s = 0 \<longleftrightarrow> s = []"
  using text_tokens_lower[of s] by auto

lemma message_overhead: "4 \<le> estimate_message_tokens m"
  by (cases m) (auto simp: MESSAGE_OVERHEAD_TOKENS_def)

lemma scaled_one [simp]: "scaled 1 n = n"
  by (simp add: scaled_def floor_eq_iff nat_eq_iff)

lemma scaled_mono: "a \<le> b \<Longrightarrow> 0 \<le> f \<Longrightarrow> scaled f a \<le> scaled f b"
  unfolding scaled_def by (intro nat_mono floor_mono add_mono mult_right_mono) auto

lemma scaled_upper: "0 \<le> f \<Longrightarrow> f \<le> 2 \<Longrightarrow> scaled f n \<le> 2 * n"
proof -
  assume f: "0 \<le> f" "f \<le> 2"
  have "of_nat n * f + 1 / 2 < of_int (int (2 * n) + 1)"
    using mult_left_mono[OF f(2), of "of_nat n"] by simp
  then have "\<lfloor>of_nat n * f + 1 / 2\<rfloor> < int (2 * n) + 1"
    by (simp only: floor_less_iff)
  then show ?thesis by (simp add: scaled_def)
qed

lemma scaled_lower: "1 / 2 \<le> f \<Longrightarrow> n div 2 \<le> scaled f n"
proof -
  assume f: "1 / 2 \<le> f"
  have "n div 2 * 2 \<le> n" by simp
  then have "(of_nat (n div 2 * 2) :: rat) \<le> of_nat n" by (simp only: of_nat_le_iff)
  then have "of_nat (n div 2) \<le> (of_nat n :: rat) / 2" by simp
  also have "\<dots> \<le> of_nat n * f"
    using mult_left_mono[OF f, of "of_nat n"] by simp
  finally have "of_int (int (n div 2)) \<le> of_nat n * f + 1 / 2" by simp
  then have "int (n div 2) \<le> \<lfloor>of_nat n * f + 1 / 2\<rfloor>" by (simp only: le_floor_iff)
  then show ?thesis by (simp add: scaled_def nat_le_iff le_nat_iff)
qed

section \<open>Calibration stays in its range\<close>

datatype estimator_call = Calibrate int int | ResetCalibration

fun estimator_exec :: "estimator_call \<Rightarrow> estimator \<Rightarrow> unit + estimator" where
  "estimator_exec (Calibrate raw actual) e = Inr (calibrate raw actual e)"
| "estimator_exec ResetCalibration e = Inr (reset_calibration e)"

text \<open>The factor lies between the configured bounds, which bracket the neutral factor 1.\<close>

definition estimator_wf :: "estimator \<Rightarrow> bool" where
  [inv_defs]: "estimator_wf e \<longleftrightarrow> min_factor e \<le> 1 \<and> 1 \<le> max_factor e
     \<and> min_factor e \<le> calibration e \<and> calibration e \<le> max_factor e"

interpretation est: machine estimator_exec estimator_wf
proof (unfold_locales, goal_cases)
  case (1 e c e')
  then show ?case
    by (cases c) (auto simp: estimator_wf_def calibrate_def reset_calibration_def clamp_def
        Let_def min_def max_def split: if_splits)
qed

text \<open>With the default bounds a message never counts for nothing, and at most for twice its
  raw estimate.\<close>

definition default_range :: "estimator \<Rightarrow> bool" where
  [inv_defs]: "default_range e \<longleftrightarrow> 1 / 2 \<le> calibration e \<and> calibration e \<le> 2"

lemma default_rangeI: "estimator_wf e \<Longrightarrow> 1 / 2 \<le> min_factor e \<Longrightarrow> max_factor e \<le> 2 \<Longrightarrow> default_range e"
  by (auto simp: inv_defs)

lemma est_message_positive: "default_range e \<Longrightarrow> 2 \<le> est_message e m"
  using scaled_lower[of "calibration e" "estimate_message_tokens m"] message_overhead[of m]
  by (simp add: est_message_def default_range_def)

lemma est_message_upper: "default_range e \<Longrightarrow> est_message e m \<le> 2 * estimate_message_tokens m"
  by (simp add: est_message_def default_range_def scaled_upper)

lemma default_run:
  "run_calls estimator_exec cs (new_estimator None None None) = Inr e \<Longrightarrow> default_range e"
proof -
  assume run: "run_calls estimator_exec cs (new_estimator None None None) = Inr e"
  have bounds: "min_factor e' = min_factor e0 \<and> max_factor e' = max_factor e0"
    if "run_calls estimator_exec cs e0 = Inr e'" for e0 e'
    using that
  proof (induction cs arbitrary: e0)
    case (Cons c cs)
    then show ?case by (cases c) (auto simp: calibrate_def reset_calibration_def Let_def split: if_splits)
  qed simp
  have "estimator_wf (new_estimator None None None)" by (simp add: new_estimator_def estimator_wf_def)
  from est.run_inv[OF this run] show "default_range e"
    using bounds[OF run] by (intro default_rangeI) (auto simp: new_estimator_def)
qed

section \<open>The policy's numbers are ordered\<close>

lemma budget_parts: "0 \<le> (b::int) \<Longrightarrow> 0 \<le> b * 2 div 5 \<and> b * 2 div 5 \<le> b * 4 div 5 \<and> b * 4 div 5 \<le> b"
  by (intro conjI) linarith+

lemma policy_order:
  assumes "case opt_context_window opts of None \<Rightarrow> True | Some w \<Rightarrow> 0 \<le> w"
  defines "p \<equiv> create_context_policy opts"
  shows "0 \<le> tool_result_quota p \<and> tool_result_quota p \<le> compact_threshold p
    \<and> compact_threshold p \<le> input_budget p \<and> input_budget p + output_reserve p \<le> context_window p
    \<and> 0 \<le> output_reserve p \<and> output_reserve p \<le> 32000"
proof -
  define w where "w = (case opt_context_window opts of None \<Rightarrow> DEFAULT_CONTEXT_WINDOW | Some w \<Rightarrow> w)"
  define r where "r = min 32000 (w div 8)"
  define b where "b = (if opt_is_subagent opts then (w - r) div 2 else w - r)"
  have w: "0 \<le> w" using assms(1) by (auto simp: w_def DEFAULT_CONTEXT_WINDOW_def split: option.splits)
  then have r: "0 \<le> r" "r \<le> 32000" "r \<le> w" by (auto simp: r_def)
  then have b: "0 \<le> b" "b \<le> w - r" by (auto simp: b_def)
  have p: "tool_result_quota p = b * 2 div 5" "compact_threshold p = b * 4 div 5"
    "input_budget p = b" "output_reserve p = r" "context_window p = w"
    by (simp_all add: p_def create_context_policy_def Let_def b_def r_def w_def)
  show ?thesis unfolding p using budget_parts[OF b(1)] b r by simp
qed

end
