(* ===== verification/Images.thy ===== *)
theory Images
  imports Tokens
begin

text \<open>
  Images of messages: the reading and the policies of \<open>llm/multimodal.ts\<close> and the files of the workspace in
  \<open>worker/src/workspaceImages.ts\<close>. What a fetch or a file of the workspace gives is an argument, \<open>None\<close> where it
  throws; whether a URL is one of HTTP is an argument too.
\<close>

definition or_text :: "jsstring \<Rightarrow> jsstring \<Rightarrow> jsstring" where
  "or_text a b = (if a \<noteq> [] then a else b)"

definition MAX_RESOLVED_IMAGE_BYTES :: nat where "MAX_RESOLVED_IMAGE_BYTES = 10 * 1024 * 1024"

definition unsupported_image_note :: "nat \<Rightarrow> jsstring" where
  "unsupported_image_note n = ([0xFF08, 0x5F53, 0x524D, 0x6A21, 0x578B, 0x4E0D, 0x652F, 0x6301, 0x770B, 0x56FE, 0xFF0C, 0x5DF2, 0x5FFD, 0x7565] @ js '' '') @ show_nat n @ (js '' '' @ [0x5F20, 0x9644, 0x4EF6, 0xFF09])"

section \<open>Reading\<close>

definition string_field :: "(jsstring \<times> jsval) list \<Rightarrow> string \<Rightarrow> jsstring" where
  "string_field ps k = (case getp ps k of JStr s \<Rightarrow> js_trim s | _ \<Rightarrow> [])"

definition mime_field :: "(jsstring \<times> jsval) list \<Rightarrow> jsstring option" where
  "mime_field ps = (if string_field ps ''mimeType'' = [] then None else Some (string_field ps ''mimeType''))"

definition parse_image_part :: "jsval \<Rightarrow> image_part list" where
  "parse_image_part v =
     (case as_record v of
        None \<Rightarrow> []
      | Some ps \<Rightarrow>
          if getp ps ''kind'' = JStr (js ''url'') \<and> string_field ps ''url'' \<noteq> []
          then [ImgUrl (string_field ps ''url'') (mime_field ps)]
          else if getp ps ''kind'' = JStr (js ''base64'') \<and> string_field ps ''data'' \<noteq> [] \<and> string_field ps ''mimeType'' \<noteq> []
          then [ImgBase64 (string_field ps ''data'') (string_field ps ''mimeType'')]
          else if getp ps ''kind'' = JStr (js ''workspace'') \<and> string_field ps ''path'' \<noteq> []
          then [ImgWorkspace (string_field ps ''path'') (mime_field ps)]
          else [])"

definition parse_image_parts :: "jsval \<Rightarrow> image_part list" where
  "parse_image_parts v = (case v of JArr xs \<Rightarrow> concat (map parse_image_part xs) | _ \<Rightarrow> [])"

text \<open>\<open>/^data:([^;,]+);base64,(.+)$/i\<close> on the trimmed text; a line terminator ends no match.\<close>

definition parse_data_url :: "jsstring \<Rightarrow> (jsstring \<times> jsstring) option" where
  "parse_data_url u =
     (let s = js_trim u; rest = drop 5 s;
          mime = takeWhile (\<lambda>c. c \<noteq> 59 \<and> c \<noteq> 44) rest;
          data = drop (length mime + 8) rest
      in if to_lower (take 5 s) = js ''data:'' \<and> mime \<noteq> [] \<and> to_lower (take 8 (drop (length mime) rest)) = js '';base64,''
           \<and> data \<noteq> [] \<and> list_all (\<lambda>c. c \<notin> {10, 13, 0x2028, 0x2029}) data
         then Some (mime, data) else None)"

section \<open>Policies\<close>

definition with_note :: "nat \<Rightarrow> jsstring \<Rightarrow> jsstring" where
  "with_note n content = (if js_trim content \<noteq> [] then content @ [10] @ unsupported_image_note n else unsupported_image_note n)"

fun images_of :: "llm_message \<Rightarrow> image_part list" where
  "images_of (Chat r c is cs) = (case is of Some xs \<Rightarrow> xs | None \<Rightarrow> [])"
| "images_of (ToolMsg i n c) = []"

fun read_policy :: "bool \<Rightarrow> llm_message \<Rightarrow> llm_message" where
  "read_policy multi (ToolMsg i n c) = ToolMsg i n c"
| "read_policy multi (Chat r c is cs) =
     (let n = length (images_of (Chat r c is cs)) in
      if n = 0 \<or> multi \<and> r = User then Chat r c is cs else Chat r (with_note n c) None cs)"

definition apply_multimodal_read_policy :: "llm_message list \<Rightarrow> bool \<Rightarrow> llm_message list" where
  "apply_multimodal_read_policy ms multi = map (read_policy multi) ms"

fun is_user :: "llm_message \<Rightarrow> bool" where
  "is_user (Chat r c is cs) \<longleftrightarrow> r = User"
| "is_user (ToolMsg i n c) \<longleftrightarrow> False"

fun is_remote :: "image_part \<Rightarrow> bool" where
  "is_remote (ImgUrl u m) \<longleftrightarrow> parse_data_url u = None"
| "is_remote _ \<longleftrightarrow> False"

definition has_remote_url_images :: "llm_message list \<Rightarrow> bool" where
  "has_remote_url_images ms \<longleftrightarrow> list_ex (\<lambda>m. is_user m \<and> list_ex is_remote (images_of m)) ms"

record fetched_image =
  fe_ok :: bool
  fe_size :: nat
  fe_type :: "jsstring option"
  fe_data :: jsstring

definition header_type :: "fetched_image \<Rightarrow> jsstring" where
  "header_type f = (case fe_type f of Some h \<Rightarrow> js_trim (takeWhile (\<lambda>c. c \<noteq> 59) h) | None \<Rightarrow> [])"

definition fetch_remote_image ::
    "(jsstring \<Rightarrow> bool) \<Rightarrow> (jsstring \<Rightarrow> fetched_image option) \<Rightarrow> jsstring \<Rightarrow> jsstring option \<Rightarrow> image_part option" where
  "fetch_remote_image is_http fetch url mime =
     (if \<not> is_http url then None
      else case fetch url of
          None \<Rightarrow> None
        | Some f \<Rightarrow>
            if \<not> fe_ok f \<or> fe_size f = 0 \<or> MAX_RESOLVED_IMAGE_BYTES < fe_size f then None
            else Some (ImgBase64 (fe_data f) (if starts_with (header_type f) (js ''image/'') then header_type f
                 else or_text (case mime of Some m \<Rightarrow> js_trim m | None \<Rightarrow> []) (js ''image/png''))))"

text \<open>The code reads \<open>url\<close> of an image of the workspace, which has none, and throws.\<close>

fun resolve_image :: "(jsstring \<Rightarrow> bool) \<Rightarrow> (jsstring \<Rightarrow> fetched_image option) \<Rightarrow> image_part \<Rightarrow> image_part option" where
  "resolve_image is_http fetch (ImgBase64 d m) = Some (ImgBase64 d m)"
| "resolve_image is_http fetch (ImgUrl u m) = (if parse_data_url u \<noteq> None then Some (ImgUrl u m)
     else Some (case fetch_remote_image is_http fetch u m of Some x \<Rightarrow> x | None \<Rightarrow> ImgUrl u m))"
| "resolve_image is_http fetch (ImgWorkspace p m) = None"

fun all_some :: "'a option list \<Rightarrow> 'a list option" where
  "all_some [] = Some []"
| "all_some (x # xs) = (case x of None \<Rightarrow> None | Some y \<Rightarrow> map_option ((#) y) (all_some xs))"

fun resolve_message :: "(jsstring \<Rightarrow> bool) \<Rightarrow> (jsstring \<Rightarrow> fetched_image option) \<Rightarrow> llm_message \<Rightarrow> llm_message option" where
  "resolve_message is_http fetch (ToolMsg i n c) = Some (ToolMsg i n c)"
| "resolve_message is_http fetch (Chat r c is cs) =
     (if r \<noteq> User \<or> images_of (Chat r c is cs) = [] then Some (Chat r c is cs)
      else map_option (\<lambda>xs. Chat r c (Some xs) cs) (all_some (map (resolve_image is_http fetch) (images_of (Chat r c is cs)))))"

definition resolve_remote_images ::
    "(jsstring \<Rightarrow> bool) \<Rightarrow> (jsstring \<Rightarrow> fetched_image option) \<Rightarrow> llm_message list \<Rightarrow> llm_message list option" where
  "resolve_remote_images is_http fetch ms = (if \<not> has_remote_url_images ms then Some ms else all_some (map (resolve_message is_http fetch) ms))"

text \<open>The filter of \<open>dropRemoteUrlImages\<close>, which throws for the same reason.\<close>

fun keeps_image :: "image_part \<Rightarrow> bool option" where
  "keeps_image (ImgBase64 d m) = Some True"
| "keeps_image (ImgUrl u m) = Some (parse_data_url u \<noteq> None)"
| "keeps_image (ImgWorkspace p m) = None"

fun drop_remote :: "llm_message \<Rightarrow> llm_message option" where
  "drop_remote (ToolMsg i n c) = Some (ToolMsg i n c)"
| "drop_remote (Chat r c is cs) =
     (let xs = images_of (Chat r c is cs) in
      if r \<noteq> User \<or> xs = [] then Some (Chat r c is cs)
      else case all_some (map keeps_image xs) of
          None \<Rightarrow> None
        | Some ks \<Rightarrow>
          let kept = map fst (filter snd (zip xs ks)); n = length xs - length kept
          in if n = 0 then Some (Chat r c is cs)
             else Some (Chat User (with_note n c) (if kept = [] then None else Some kept) cs))"

definition drop_remote_url_images :: "llm_message list \<Rightarrow> llm_message list option" where
  "drop_remote_url_images ms = all_some (map drop_remote ms)"

text \<open>Nothing comes of a URL that holds no data; an image of the workspace throws.\<close>

fun to_pi_image_content :: "image_part \<Rightarrow> (jsstring \<times> jsstring) option option" where
  "to_pi_image_content (ImgBase64 d m) = Some (Some (d, m))"
| "to_pi_image_content (ImgUrl u m) = Some (map_option (\<lambda>p. (snd p, fst p)) (parse_data_url u))"
| "to_pi_image_content (ImgWorkspace p m) = None"

section \<open>Files of the workspace\<close>

text \<open>What reading a file of the workspace gives: whether it is a file, its size, the bytes read and their Base64 text.\<close>

record image_file =
  fl_file :: bool
  fl_size :: nat
  fl_read :: nat
  fl_data :: jsstring

definition mime_from_path :: "jsstring \<Rightarrow> jsstring" where
  "mime_from_path p =
     (let s = to_lower p in
      if ends_with s (js ''.png'') then js ''image/png''
      else if ends_with s (js ''.jpg'') \<or> ends_with s (js ''.jpeg'') then js ''image/jpeg''
      else if ends_with s (js ''.gif'') then js ''image/gif''
      else if ends_with s (js ''.webp'') then js ''image/webp''
      else js ''image/png'')"

definition read_workspace_image :: "(jsstring \<Rightarrow> image_file option) \<Rightarrow> jsstring \<Rightarrow> jsstring option \<Rightarrow> image_part option" where
  "read_workspace_image load path mime =
     (case load path of
        None \<Rightarrow> None
      | Some f \<Rightarrow>
          if \<not> fl_file f \<or> fl_size f = 0 \<or> MAX_RESOLVED_IMAGE_BYTES < fl_size f \<or> fl_read f = 0 then None
          else Some (ImgBase64 (fl_data f) (or_text (case mime of Some m \<Rightarrow> js_trim m | None \<Rightarrow> []) (mime_from_path path))))"

fun materialize_each :: "(jsstring \<Rightarrow> image_file option) \<Rightarrow> image_part list \<Rightarrow> image_part list \<times> nat" where
  "materialize_each load [] = ([], 0)"
| "materialize_each load (x # xs) =
     (case materialize_each load xs of
        (ys, n) \<Rightarrow> (case x of
            ImgWorkspace path mime \<Rightarrow> (case read_workspace_image load path mime of Some y \<Rightarrow> (y # ys, n) | None \<Rightarrow> (ys, n + 1))
          | _ \<Rightarrow> (x # ys, n)))"

definition materialize_workspace_image_parts ::
    "(jsstring \<Rightarrow> image_file option) \<Rightarrow> image_part list option \<Rightarrow> image_part list \<times> nat" where
  "materialize_workspace_image_parts load xs = (case xs of None \<Rightarrow> ([], 0) | Some ys \<Rightarrow> materialize_each load ys)"

definition append_image_note :: "jsstring \<Rightarrow> nat \<Rightarrow> jsstring" where
  "append_image_note content n = (let t = js_trim content in
     if t \<noteq> [] then t @ [10] @ unsupported_image_note n else unsupported_image_note n)"

section \<open>Laws\<close>

lemma keeps_all: "all_some (map keeps_image xs) = Some ks \<Longrightarrow> length ks = length xs \<and> (\<forall>x\<in>set (map fst (filter snd (zip xs ks))). \<not> is_remote x)
    \<and> (length (filter snd (zip xs ks)) = length xs \<longrightarrow> (\<forall>x\<in>set xs. \<not> is_remote x)) \<and> length (filter snd (zip xs ks)) \<le> length xs"
proof (induction xs arbitrary: ks)
  case (Cons x xs)
  obtain k where k: "keeps_image x = Some k" using Cons.prems by (cases "keeps_image x") auto
  then obtain js where js: "all_some (map keeps_image xs) = Some js" "ks = k # js" using Cons.prems by auto
  have "k \<Longrightarrow> \<not> is_remote x" using k by (cases x) auto
  then show ?case using Cons.IH[OF js(1)] js(2) by auto
qed simp

text \<open>What is left of a user's images after the drop is all inline.\<close>

lemma drop_remote_clean:
  assumes "drop_remote m = Some m'"
  shows "\<not> (is_user m' \<and> list_ex is_remote (images_of m'))"
proof (cases m)
  case (Chat r c imgs cs)
  define xs where "xs = images_of (Chat r c imgs cs)"
  show ?thesis
  proof (cases "r \<noteq> User \<or> xs = []")
    case True
    then show ?thesis using assms Chat by (auto simp: xs_def)
  next
    case False
    then obtain ks where ks: "all_some (map keeps_image xs) = Some ks"
      using assms Chat by (auto simp: xs_def Let_def split: option.splits)
    note k = keeps_all[OF ks]
    show ?thesis
    proof (cases "length xs - length (map fst (filter snd (zip xs ks))) = 0")
      case True
      then have "m' = m" "\<forall>x\<in>set xs. \<not> is_remote x" using assms Chat False ks k by (auto simp: xs_def Let_def)
      then show ?thesis using Chat by (auto simp: xs_def list_ex_iff)
    next
      case no: False
      define kept where "kept = map fst (filter snd (zip xs ks))"
      have "m' = Chat User (with_note (length xs - length kept) c) (if kept = [] then None else Some kept) cs"
        using assms Chat False ks no unfolding kept_def by (auto simp: xs_def Let_def)
      then show ?thesis using k by (auto simp: kept_def[symmetric] list_ex_iff split: if_splits)
    qed
  qed
qed (use assms in auto)

lemma all_some_nth: "all_some xs = Some ys \<Longrightarrow> xs = map Some ys"
  by (induction xs arbitrary: ys) (auto split: option.splits)

lemma dropped_images_are_inline: "drop_remote_url_images ms = Some ms' \<Longrightarrow> \<not> has_remote_url_images ms'"
proof -
  assume "drop_remote_url_images ms = Some ms'"
  then have "map drop_remote ms = map Some ms'" by (auto simp: drop_remote_url_images_def dest: all_some_nth)
  then have "list_all2 (\<lambda>m m'. drop_remote m = Some m') ms ms'" by (simp add: list_all2_map1 list_all2_map2 list.rel_eq[symmetric] list.rel_map)
  then show ?thesis using drop_remote_clean by (induction rule: list_all2_induct) (auto simp: has_remote_url_images_def)
qed

end
