(* ===== verification/Thread.thy ===== *)
theory Thread
  imports Tokens
begin

text \<open>
  The conversation thread of worker/core/src/context/conversationThread.ts: one message
  stream per session, cut into turns, of which at most one is open. The state is the class's
  fields and the two module-level id counters; the token estimator a thread is built with is
  the parameter \<open>est\<close>. Every method is one definition, named after it; a method that may
  throw returns \<open>Inl\<close>.
\<close>

section \<open>State\<close>

datatype entry_kind = KUser | KAssistant | KToolResult | KCompaction | KNotice

datatype turn_status = TOpen | TCommitted | TAborted

record thread_entry =
  entry_id :: jsstring
  turn_id :: jsstring
  kind :: entry_kind
  message :: llm_message
  tokens_est :: nat
  elided :: bool
  iteration :: "int option"
  tool_summary :: "jsstring option"
  original_tokens :: "nat option"

record thread =
  entries :: "thread_entry list"
  turns :: "(jsstring, turn_status) jsmap"
  open_turn :: "jsstring option"
  current_iteration :: int
  entry_counter :: nat
  turn_counter :: nat

datatype thread_error = TurnAlreadyOpen | NoOpenTurn

type_synonym estimate = "llm_message \<Rightarrow> nat"

definition entry_name :: "nat \<Rightarrow> jsstring" where
  "entry_name n = js ''entry-'' @ show_nat n"

definition turn_name :: "nat \<Rightarrow> jsstring" where
  "turn_name n = js ''turn-'' @ show_nat n"

definition next_turn_id :: "thread \<Rightarrow> jsstring \<times> thread" where
  "next_turn_id th = (turn_name (Suc (turn_counter th)), th\<lparr>turn_counter := Suc (turn_counter th)\<rparr>)"

definition new_thread :: "nat \<Rightarrow> nat \<Rightarrow> thread" where
  "new_thread ec tc = \<lparr>entries = [], turns = [], open_turn = None, current_iteration = 0,
     entry_counter = ec, turn_counter = tc\<rparr>"

section \<open>Messages and texts\<close>

fun clone_message :: "llm_message \<Rightarrow> llm_message" where
  "clone_message (ToolMsg cid nm content) = ToolMsg cid nm content"
| "clone_message (Chat role content imgs calls) =
     Chat role content (if imgs = Some [] then None else imgs) calls"

definition NOTICE_PREFIX :: jsstring where
  "NOTICE_PREFIX = js ''['' @ [0x7CFB, 0x7EDF, 0x901A, 0x77E5] @ js ''] ''"

definition COMPACTION_HEAD :: jsstring where
  "COMPACTION_HEAD = js ''['' @ [0x4E0A, 0x4E0B, 0x6587, 0x538B, 0x7F29, 0x6458, 0x8981] @ js '' '' @ [0x2014] @ js '' '' @ [0x53EA, 0x4F5C, 0x5386, 0x53F2, 0x53C2, 0x8003] @ js '']''"

definition COMPACTION_LINE :: jsstring where
  "COMPACTION_LINE =
     [0x65E9, 0x524D, 0x5BF9, 0x8BDD, 0x5DF2, 0x538B, 0x7F29, 0x4E3A, 0x6458, 0x8981, 0x3002, 0x5B83, 0x4E0D, 0x662F, 0x5F53, 0x524D, 0x4EFB, 0x52A1, 0x6307, 0x4EE4, 0xFF1B, 0x8BF7, 0x4EE5, 0x6700, 0x65B0, 0x7528, 0x6237, 0x6D88, 0x606F, 0x4E3A, 0x51C6, 0x3002]"

definition COMPACTION_END :: jsstring where
  "COMPACTION_END = js ''--- END OF CONTEXT SUMMARY ---''"

definition LEGACY_COMPACTION_MARKER :: jsstring where
  "LEGACY_COMPACTION_MARKER = js ''[CONTEXT COMPACTION''"

definition INTERRUPTED_NOTICE :: jsstring where
  "INTERRUPTED_NOTICE =
     [0x4E0A, 0x6B21, 0x4F1A, 0x8BDD, 0x5728, 0x672A, 0x5B8C, 0x6210, 0x8F6E, 0x6B21, 0x4E2D, 0x65AD, 0xFF1B, 0x60AC, 0x7A7A, 0x5DE5, 0x5177, 0x8C03, 0x7528, 0x5DF2, 0x53D6, 0x6D88, 0xFF0C, 0x8BF7, 0x91CD, 0x65B0, 0x786E, 0x8BA4, 0x540E, 0x7EED, 0x64CD, 0x4F5C, 0x3002]"

definition format_compaction_content :: "jsstring \<Rightarrow> jsstring" where
  "format_compaction_content summary =
     js_join [10] [COMPACTION_HEAD, COMPACTION_LINE, js_trim summary, COMPACTION_END]"

text \<open>
  The body of a compaction message. The code removes a banner line with the expression
  \<open>/^B\<circ>*$/m\<close>, where \<open>B\<close> is the ten-character banner and \<open>\<circ>\<close> the ideographic full stop
  (code unit 3002 hexadecimal), and then collapses runs of newlines.
\<close>

definition is_line_end :: "nat \<Rightarrow> bool" where
  "is_line_end c \<longleftrightarrow> c = 10 \<or> c = 13 \<or> c = 0x2028 \<or> c = 0x2029"

definition BANNER :: jsstring where
  "BANNER = [0x65E9, 0x524D, 0x5BF9, 0x8BDD, 0x5DF2, 0x538B, 0x7F29, 0x4E3A, 0x6458, 0x8981]"

definition banner_match :: "jsstring \<Rightarrow> jsstring option" where
  "banner_match s =
     (if starts_with s BANNER
      then let r = dropWhile (\<lambda>c. c = 0x3002) (drop (length BANNER) s)
           in if r = [] \<or> is_line_end (hd r) then Some r else None
      else None)"

fun strip_banner :: "bool \<Rightarrow> jsstring \<Rightarrow> jsstring" where
  "strip_banner b [] = []"
| "strip_banner b (c # r) =
     (case (if b then banner_match (c # r) else None) of
        Some rest \<Rightarrow> rest
      | None \<Rightarrow> c # strip_banner (is_line_end c) r)"

fun collapse_newlines :: "jsstring \<Rightarrow> jsstring" where
  "collapse_newlines [] = []"
| "collapse_newlines [c] = [c]"
| "collapse_newlines (c # d # r) =
     (if c = 10 \<and> d = 10 then collapse_newlines (d # r) else c # collapse_newlines (d # r))"

definition extract_compaction_body :: "jsstring \<Rightarrow> jsstring" where
  "extract_compaction_body content =
     (case index_of content ([0x53EA, 0x4F5C, 0x5386, 0x53F2, 0x53C2, 0x8003] @ js '']'') of
        None \<Rightarrow> js_trim content
      | Some st \<Rightarrow>
        (case index_of (drop st content) [10] of
           None \<Rightarrow> js_trim content
         | Some off \<Rightarrow>
           let body_start = st + off;
               body = (case index_of content (js ''--- END OF CONTEXT SUMMARY'') of
                  Some en \<Rightarrow> if body_start < en then slice (body_start + 1) en content
                             else drop (body_start + 1) content
                | None \<Rightarrow> drop (body_start + 1) content)
           in js_trim (collapse_newlines (strip_banner True body))))"

section \<open>Operations\<close>

definition append_entry ::
    "estimate \<Rightarrow> jsstring \<Rightarrow> entry_kind \<Rightarrow> llm_message \<Rightarrow> int option \<Rightarrow> jsstring option \<Rightarrow> thread \<Rightarrow> thread"
where
  "append_entry est tid k msg it summ th =
     th\<lparr>entry_counter := Suc (entry_counter th),
        entries := entries th @ [\<lparr>entry_id = entry_name (Suc (entry_counter th)), turn_id = tid,
          kind = k, message = clone_message msg, tokens_est = est msg, elided = False,
          iteration = it, tool_summary = summ, original_tokens = None\<rparr>]\<rparr>"

text \<open>The caller's writes to the entry \<open>appendEntry\<close> returned.\<close>

definition update_last :: "(thread_entry \<Rightarrow> thread_entry) \<Rightarrow> thread \<Rightarrow> thread" where
  "update_last f th = (if entries th = [] then th
     else th\<lparr>entries := butlast (entries th) @ [f (last (entries th))]\<rparr>)"

definition require_open_turn :: "thread \<Rightarrow> thread_error + jsstring" where
  "require_open_turn th = (case open_turn th of None \<Rightarrow> Inl NoOpenTurn | Some t \<Rightarrow> Inr t)"

definition set_status :: "jsstring \<Rightarrow> turn_status \<Rightarrow> thread \<Rightarrow> thread" where
  "set_status t s th =
     (if map_has (turns th) t then th\<lparr>turns := map_set t s (turns th)\<rparr> else th)"

definition begin_turn ::
    "estimate \<Rightarrow> jsstring \<Rightarrow> image_part list option \<Rightarrow> thread \<Rightarrow> thread_error + thread"
where
  "begin_turn est user_input imgs th =
     (if open_turn th \<noteq> None then Inl TurnAlreadyOpen
      else case next_turn_id th of (t, th1) \<Rightarrow>
        let th2 = th1\<lparr>turns := map_set t TOpen (turns th1), open_turn := Some t\<rparr>
        in Inr (append_entry est t KUser
             (Chat User user_input (case imgs of None \<Rightarrow> None | Some xs \<Rightarrow> if xs = [] then None else Some xs) None)
             None None th2))"

definition commit_turn :: "thread \<Rightarrow> thread_error + thread" where
  "commit_turn th = (case require_open_turn th of
     Inl e \<Rightarrow> Inl e
   | Inr t \<Rightarrow> Inr ((set_status t TCommitted th)\<lparr>open_turn := None\<rparr>))"

definition abort_turn :: "estimate \<Rightarrow> jsstring \<Rightarrow> thread \<Rightarrow> thread_error + thread" where
  "abort_turn est reason th = (case require_open_turn th of
     Inl e \<Rightarrow> Inl e
   | Inr t \<Rightarrow>
       let th1 = append_entry est t KNotice (Chat User (NOTICE_PREFIX @ reason) None None) None None th
       in Inr ((set_status t TAborted th1)\<lparr>open_turn := None\<rparr>))"

text \<open>\<open>removeUnmatchedToolCalls\<close>: the ids answered in the turn, then every assistant entry
  of the turn keeps the calls with an answered id.\<close>

definition is_tool_msg :: "llm_message \<Rightarrow> bool" where
  "is_tool_msg m = (case m of ToolMsg _ _ _ \<Rightarrow> True | Chat _ _ _ _ \<Rightarrow> False)"

definition result_ids :: "jsstring \<Rightarrow> thread_entry list \<Rightarrow> jsstring list" where
  "result_ids t es = map (\<lambda>e. msg_call_id (message e))
     (filter (\<lambda>e. turn_id e = t \<and> is_tool_msg (message e)) es)"

definition prune_calls :: "estimate \<Rightarrow> jsstring \<Rightarrow> jsstring list \<Rightarrow> thread_entry \<Rightarrow> thread_entry" where
  "prune_calls est t ids e =
     (if turn_id e \<noteq> t then e
      else case message e of
        ToolMsg _ _ _ \<Rightarrow> e
      | Chat role content _ calls \<Rightarrow>
          (if role \<noteq> Assistant then e
           else case calls of
             None \<Rightarrow> e
           | Some cs \<Rightarrow>
               let matched = filter (\<lambda>c. call_id c \<in> set ids) cs;
                   m = Chat Assistant content None (if matched \<noteq> [] then Some matched else None)
               in e\<lparr>message := m, tokens_est := est m\<rparr>))"

definition remove_unmatched_tool_calls :: "estimate \<Rightarrow> jsstring \<Rightarrow> thread \<Rightarrow> thread" where
  "remove_unmatched_tool_calls est t th =
     th\<lparr>entries := map (prune_calls est t (result_ids t (entries th))) (entries th)\<rparr>"

definition interrupt_turn :: "estimate \<Rightarrow> jsstring \<Rightarrow> thread \<Rightarrow> thread_error + thread" where
  "interrupt_turn est reason th = (case require_open_turn th of
     Inl e \<Rightarrow> Inl e
   | Inr t \<Rightarrow> abort_turn est reason (remove_unmatched_tool_calls est t th))"

definition append_assistant ::
    "estimate \<Rightarrow> jsstring \<Rightarrow> tool_call list option \<Rightarrow> thread \<Rightarrow> thread_error + thread"
where
  "append_assistant est content calls th = (case require_open_turn th of
     Inl e \<Rightarrow> Inl e
   | Inr t \<Rightarrow> Inr (append_entry est t KAssistant
       (Chat Assistant content None (case calls of None \<Rightarrow> None | Some cs \<Rightarrow> if cs = [] then None else Some cs))
       None None th))"

record tool_result_input =
  tr_call_id :: jsstring
  tr_name :: jsstring
  tr_content :: jsstring
  tr_summary :: "jsstring option"
  tr_iteration :: "int option"

definition append_tool_result ::
    "estimate \<Rightarrow> tool_result_input \<Rightarrow> thread \<Rightarrow> thread_error + thread"
where
  "append_tool_result est inp th = (case require_open_turn th of
     Inl e \<Rightarrow> Inl e
   | Inr t \<Rightarrow>
       let it = (case tr_iteration inp of None \<Rightarrow> current_iteration th | Some i \<Rightarrow> i);
           th1 = append_entry est t KToolResult
             (ToolMsg (tr_call_id inp) (tr_name inp) (tr_content inp)) (Some it) (tr_summary inp) th
       in Inr (update_last (\<lambda>e. e\<lparr>original_tokens := Some (tokens_est e)\<rparr>) th1))"

definition ensure_turn :: "jsstring \<Rightarrow> thread \<Rightarrow> thread" where
  "ensure_turn t th = (if map_has (turns th) t then th
     else th\<lparr>turns := map_set t TCommitted (turns th)\<rparr>)"

definition add_compaction :: "estimate \<Rightarrow> jsstring \<Rightarrow> jsstring option \<Rightarrow> thread \<Rightarrow> thread" where
  "add_compaction est summary tid th =
     (let (t, th1) = (case tid of Some t \<Rightarrow> (t, th)
            | None \<Rightarrow> (case next_turn_id th of (n, th') \<Rightarrow> (js ''compaction-'' @ n, th')))
      in append_entry est t KCompaction
           (Chat User (format_compaction_content summary) None None) None None (ensure_turn t th1))"

definition add_notice :: "estimate \<Rightarrow> jsstring \<Rightarrow> thread \<Rightarrow> thread" where
  "add_notice est content th =
     (let (t, th1) = (case open_turn th of Some t \<Rightarrow> (t, th)
            | None \<Rightarrow> (case next_turn_id th of (n, th') \<Rightarrow> (js ''notice-'' @ n, th')))
      in append_entry est t KNotice
           (Chat User (NOTICE_PREFIX @ content) None None) None None (ensure_turn t th1))"

definition set_current_iteration :: "int \<Rightarrow> thread \<Rightarrow> thread" where
  "set_current_iteration i th = th\<lparr>current_iteration := i\<rparr>"

definition turn_ids_in_order :: "thread \<Rightarrow> jsstring list" where
  "turn_ids_in_order th = uniq (map turn_id (entries th))"

definition entries_for_turn :: "jsstring \<Rightarrow> thread \<Rightarrow> thread_entry list" where
  "entries_for_turn t th = filter (\<lambda>e. turn_id e = t) (entries th)"

definition turn_status_of :: "jsstring \<Rightarrow> thread \<Rightarrow> turn_status option" where
  "turn_status_of t th = map_of (turns th) t"

definition committed_entries :: "thread \<Rightarrow> thread_entry list" where
  "committed_entries th = filter (\<lambda>e. turn_status_of (turn_id e) th = Some TCommitted
     \<or> turn_status_of (turn_id e) th = Some TAborted) (entries th)"

definition remove_turn :: "jsstring \<Rightarrow> thread \<Rightarrow> thread" where
  "remove_turn t th = th\<lparr>turns := map_del t (turns th),
     open_turn := (if open_turn th = Some t then None else open_turn th)\<rparr>"

definition remove_turn_entries :: "jsstring list \<Rightarrow> thread \<Rightarrow> thread" where
  "remove_turn_entries ts th =
     foldl (\<lambda>s t. remove_turn t s) (th\<lparr>entries := filter (\<lambda>e. turn_id e \<notin> set ts) (entries th)\<rparr>) ts"

definition replace_prefix_with_compaction :: "estimate \<Rightarrow> int \<Rightarrow> jsstring \<Rightarrow> thread \<Rightarrow> thread" where
  "replace_prefix_with_compaction est entry_count summary th =
     (let count = nat (max 0 (min entry_count (int (length (entries th)))))
      in if count = 0 then th
         else
           let removed = take count (entries th);
               kept = drop count (entries th);
               gone = filter (\<lambda>t. t \<notin> set (map turn_id kept)) (uniq (map turn_id removed));
               th1 = th\<lparr>entries := kept, turns := foldl (\<lambda>m t. map_del t m) (turns th) gone\<rparr>;
               (n, th2) = next_turn_id th1;
               t = js ''compaction-'' @ n;
               m = Chat User (format_compaction_content summary) None None
           in th2\<lparr>turns := map_set t TCommitted (turns th2),
                  entry_counter := Suc (entry_counter th2),
                  entries := \<lparr>entry_id = entry_name (Suc (entry_counter th2)), turn_id = t,
                    kind = KCompaction, message = m, tokens_est = est m, elided = False,
                    iteration = None, tool_summary = None, original_tokens = None\<rparr> # entries th2\<rparr>)"

text \<open>\<open>entries.find\<close>, then writes to the entry found.\<close>

fun update_first :: "('a \<Rightarrow> bool) \<Rightarrow> ('a \<Rightarrow> 'a) \<Rightarrow> 'a list \<Rightarrow> 'a list" where
  "update_first p f [] = []"
| "update_first p f (x # xs) = (if p x then f x # xs else x # update_first p f xs)"

definition elide_entry :: "estimate \<Rightarrow> jsstring \<Rightarrow> thread_entry \<Rightarrow> thread_entry" where
  "elide_entry est content e =
     (if kind e \<noteq> KToolResult then e
      else case message e of
        Chat _ _ _ _ \<Rightarrow> e
      | ToolMsg cid nm _ \<Rightarrow>
          let m = ToolMsg cid nm content
          in e\<lparr>elided := True,
               original_tokens := (case original_tokens e of None \<Rightarrow> Some (tokens_est e) | Some n \<Rightarrow> Some n),
               message := m, tokens_est := est m\<rparr>)"

definition elide_tool_result :: "estimate \<Rightarrow> jsstring \<Rightarrow> jsstring \<Rightarrow> thread \<Rightarrow> thread" where
  "elide_tool_result est eid content th =
     th\<lparr>entries := update_first (\<lambda>e. entry_id e = eid) (elide_entry est content) (entries th)\<rparr>"

definition truncated_message :: "jsstring \<Rightarrow> llm_message \<Rightarrow> llm_message" where
  "truncated_message content m = (case m of
     ToolMsg cid nm _ \<Rightarrow> ToolMsg cid nm content
   | Chat role _ _ calls \<Rightarrow> Chat role content None (if role = Assistant then calls else None))"

definition truncate_entry :: "estimate \<Rightarrow> jsstring \<Rightarrow> jsstring \<Rightarrow> thread \<Rightarrow> thread" where
  "truncate_entry est eid content th =
     th\<lparr>entries := update_first (\<lambda>e. entry_id e = eid)
       (\<lambda>e. let m = truncated_message content (message e) in e\<lparr>message := m, tokens_est := est m\<rparr>)
       (entries th)\<rparr>"

definition build_messages :: "thread \<Rightarrow> llm_message list" where
  "build_messages th = map (\<lambda>e. clone_message (message e)) (entries th)"

definition reestimate_tokens :: "estimate \<Rightarrow> thread \<Rightarrow> thread" where
  "reestimate_tokens est th = th\<lparr>entries := map (\<lambda>e.
     let n = est (message e)
     in if kind e = KToolResult \<and> \<not> elided e
        then e\<lparr>tokens_est := n, original_tokens := Some n\<rparr> else e\<lparr>tokens_est := n\<rparr>) (entries th)\<rparr>"

definition clear_thread :: "thread \<Rightarrow> thread" where
  "clear_thread th = th\<lparr>entries := [], turns := [], open_turn := None, current_iteration := 0\<rparr>"

section \<open>Export, validation and restore\<close>

record saved_entry =
  s_turn :: jsstring
  s_kind :: entry_kind
  s_message :: llm_message
  s_elided :: bool
  s_iteration :: "int option"
  s_summary :: "jsstring option"
  s_original :: "nat option"

record thread_state =
  st_version :: int
  st_entries :: "saved_entry list"
  st_turns :: "(jsstring \<times> turn_status) list"
  st_open :: "jsstring option"
  st_iteration :: jsnum

definition export_state :: "thread \<Rightarrow> thread_state" where
  "export_state th = \<lparr>st_version = 1,
     st_entries = map (\<lambda>e. \<lparr>s_turn = turn_id e, s_kind = kind e, s_message = clone_message (message e),
       s_elided = elided e, s_iteration = iteration e, s_summary = tool_summary e,
       s_original = original_tokens e\<rparr>) (entries th),
     st_turns = turns th, st_open = open_turn th, st_iteration = Num (of_int (current_iteration th))\<rparr>"

fun entry_role_compatible :: "entry_kind \<Rightarrow> llm_message \<Rightarrow> bool" where
  "entry_role_compatible KAssistant (Chat r _ _ _) = (r = Assistant)"
| "entry_role_compatible KAssistant (ToolMsg _ _ _) = False"
| "entry_role_compatible KToolResult (ToolMsg _ _ _) = True"
| "entry_role_compatible KToolResult (Chat _ _ _ _) = False"
| "entry_role_compatible _ (Chat r _ _ _) = (r = User)"
| "entry_role_compatible _ (ToolMsg _ _ _) = False"

text \<open>\<open>isConversationThreadState\<close> past the shape of the JSON value, which the type of the
  record already has.\<close>

definition is_thread_state :: "thread_state \<Rightarrow> bool" where
  "is_thread_state s =
     (st_version s = 1 \<and> st_iteration s \<noteq> NonFin
      \<and> (case st_open s of None \<Rightarrow> True | Some t \<Rightarrow> t \<in> set (map fst (st_turns s)))
      \<and> (case filter (\<lambda>p. snd p = TOpen) (st_turns s) of
           [] \<Rightarrow> st_open s = None
         | [p] \<Rightarrow> st_open s = Some (fst p)
         | _ \<Rightarrow> False)
      \<and> list_all (\<lambda>e. s_turn e \<in> set (map fst (st_turns s))
           \<and> entry_role_compatible (s_kind e) (s_message e)) (st_entries s))"

fun restore_turns :: "bool \<Rightarrow> (jsstring \<times> turn_status) list \<Rightarrow> (jsstring, jsstring) jsmap \<Rightarrow> thread
    \<Rightarrow> (jsstring, jsstring) jsmap \<times> thread" where
  "restore_turns keep [] ids th = (ids, th)"
| "restore_turns keep ((t, s) # ts) ids th =
     (case next_turn_id th of (n, th1) \<Rightarrow>
        restore_turns keep ts (map_set t n ids)
          (th1\<lparr>turns := map_set n (if s = TOpen \<and> \<not> keep then TAborted else s) (turns th1)\<rparr>))"

fun restore_entries :: "estimate \<Rightarrow> (jsstring, jsstring) jsmap \<Rightarrow> saved_entry list \<Rightarrow> thread \<Rightarrow> thread" where
  "restore_entries est ids [] th = th"
| "restore_entries est ids (e # es) th =
     (case map_of ids (s_turn e) of
        None \<Rightarrow> restore_entries est ids es th
      | Some t \<Rightarrow> restore_entries est ids es
          (update_last (\<lambda>x. x\<lparr>elided := s_elided e, original_tokens := s_original e\<rparr>)
             (append_entry est t (s_kind e) (s_message e) (s_iteration e) (s_summary e) th)))"

definition restore_state :: "estimate \<Rightarrow> bool \<Rightarrow> thread_state \<Rightarrow> thread \<Rightarrow> bool \<times> thread" where
  "restore_state est keep s th =
     (if \<not> is_thread_state s then (False, th)
      else
        let (ids, th1) = restore_turns keep (st_turns s) [] (clear_thread th);
            opened = List.map_filter (\<lambda>p. if snd p = TOpen then map_of ids (fst p) else None) (st_turns s);
            th2 = restore_entries est ids (st_entries s) th1;
            th3 = (case opened of
                [t] \<Rightarrow> if keep then th2\<lparr>open_turn := Some t\<rparr>
                       else remove_unmatched_tool_calls est t th2
              | _ \<Rightarrow> foldl (\<lambda>x t. remove_unmatched_tool_calls est t x) th2 opened);
            th4 = (if opened \<noteq> [] \<and> \<not> keep then add_notice est INTERRUPTED_NOTICE th3 else th3)
        in (True, th4\<lparr>current_iteration :=
              (case st_iteration s of Num x \<Rightarrow> max 0 \<lfloor>x\<rfloor> | NonFin \<Rightarrow> 0)\<rparr>))"

record history_turn =
  h_user :: bool
  h_content :: jsstring
  h_images :: "image_part list option"

text \<open>The loop of \<open>restoreFromConversation\<close>; \<open>n\<close> counts the restored turns and \<open>conv\<close> records
  that a legacy marker was converted.\<close>

fun restore_loop :: "estimate \<Rightarrow> history_turn list \<Rightarrow> nat \<Rightarrow> bool \<Rightarrow> thread \<Rightarrow> nat \<times> bool \<times> thread" where
  "restore_loop est [] n conv th = (n, conv, th)"
| "restore_loop est (m # ms) n conv th =
     (if \<not> h_user m \<and> has_sub (h_content m) LEGACY_COMPACTION_MARKER
      then restore_loop est ms n True (add_compaction est (extract_compaction_body (h_content m)) None th)
      else if \<not> h_user m then restore_loop est ms n conv th
      else case next_turn_id th of (t, th1) \<Rightarrow>
        let th2 = append_entry est t KUser
              (Chat User (h_content m) (case h_images m of None \<Rightarrow> None | Some xs \<Rightarrow> if xs = [] then None else Some xs) None)
              None None (th1\<lparr>turns := map_set t TCommitted (turns th1)\<rparr>)
        in case ms of
             [] \<Rightarrow> (Suc n, conv, th2)
           | a # ms' \<Rightarrow>
               if h_user a then restore_loop est ms (Suc n) conv th2
               else if has_sub (h_content a) LEGACY_COMPACTION_MARKER
               then restore_loop est ms' (Suc n) conv th2
               else restore_loop est ms' (Suc n) conv
                 (append_entry est t KAssistant (Chat Assistant (h_content a) None None) None None th2))"

definition restore_from_conversation ::
    "estimate \<Rightarrow> history_turn list \<Rightarrow> thread \<Rightarrow> nat \<times> bool \<times> thread"
where
  "restore_from_conversation est ms th = restore_loop est ms 0 False (clear_thread th)"

end
