(* ===== verification/Compaction_Text.thy ===== *)
theory Compaction_Text
  imports Thread
begin

text \<open>
  The text of a compaction entry: what \<open>formatCompactionContent\<close> writes and
  \<open>extractCompactionBody\<close> reads back.
\<close>

lemma js_trim_keeps:
  assumes "l \<noteq> []" "\<not> is_ws (hd l)" "\<not> is_ws (last l)"
  shows "starts_with (js_trim (l @ x)) l"
proof -
  have 1: "trim_start (l @ x) = l @ x" using assms by (cases l) (auto simp: trim_start_def)
  have "dropWhile is_ws (rev x @ rev l) = dropWhile is_ws (rev x) @ rev l"
  proof (cases "\<forall>c \<in> set (rev x). is_ws c")
    case True
    then have "dropWhile is_ws (rev x) = []" by (simp add: dropWhile_eq_Nil_conv)
    moreover have "dropWhile is_ws (rev l) = rev l"
      using assms(1,3) by (cases l rule: rev_cases) auto
    ultimately show ?thesis using True by (simp add: dropWhile_append)
  next
    case False
    then obtain c where "c \<in> set (rev x)" "\<not> is_ws c" by auto
    then show ?thesis by (rule dropWhile_append1)
  qed
  then show ?thesis unfolding js_trim_def 1 by (simp add: trim_start_def)
qed

lemma collapse_Cons: "c \<noteq> 10 \<Longrightarrow> collapse_newlines (c # x) = c # collapse_newlines x"
  by (cases x) auto

lemma collapse_append: "10 \<notin> set l \<Longrightarrow> collapse_newlines (l @ x) = l @ collapse_newlines x"
  by (induction l) (auto simp: collapse_Cons)

lemma strip_False: "\<forall>c \<in> set l. \<not> is_line_end c \<Longrightarrow> strip_banner False (l @ x) = l @ strip_banner False x"
  by (induction l) auto

lemma index_of_skip:
  "p \<noteq> [] \<Longrightarrow> hd p \<notin> set l \<Longrightarrow> index_of (l @ x) p = map_option ((+) (length l)) (index_of x p)"
proof (induction l)
  case Nil
  show ?case by (cases "index_of x p") auto
next
  case (Cons c l)
  then have "\<not> starts_with (c # l @ x) p" by (cases p) (auto simp: starts_with_def)
  with Cons show ?case by (cases "index_of x p") auto
qed

lemma format_eq:
  "format_compaction_content s = COMPACTION_HEAD @ [10] @ COMPACTION_LINE @ [10] @ js_trim s @ [10] @ COMPACTION_END"
  by (simp add: format_compaction_content_def)

lemma line_plain: "\<forall>c \<in> set COMPACTION_LINE. \<not> is_line_end c \<and> c \<noteq> 45" "10 \<notin> set COMPACTION_LINE"
  by (simp_all add: COMPACTION_LINE_def is_line_end_def)

lemma line_ends: "COMPACTION_LINE \<noteq> []" "\<not> is_ws (hd COMPACTION_LINE)" "\<not> is_ws (last COMPACTION_LINE)"
  by (simp_all add: COMPACTION_LINE_def is_ws_def)

lemma strip_keeps_line: "strip_banner True (COMPACTION_LINE @ x) = COMPACTION_LINE @ strip_banner False x"
proof -
  obtain c l where l: "COMPACTION_LINE = c # l" by (cases COMPACTION_LINE) (auto simp: line_ends)
  have "banner_match (COMPACTION_LINE @ x) = None"
    by (simp add: banner_match_def starts_with_def BANNER_def COMPACTION_LINE_def is_line_end_def)
  moreover have "strip_banner False (l @ x) = l @ strip_banner False x" "\<not> is_line_end c"
    using line_plain(1) by (auto simp: l intro: strip_False)
  ultimately show ?thesis by (simp add: l)
qed

text \<open>The sentence of the banner ends with a full stop and more text, so the expression, which
  allows only full stops after the banner, never matches the line the formatter writes.\<close>

lemma extract_keeps_line:
  "starts_with (extract_compaction_body (format_compaction_content s)) COMPACTION_LINE"
proof -
  let ?x = "[10] @ js_trim s @ [10] @ COMPACTION_END"
  let ?c = "format_compaction_content s"
  have st: "index_of ?c ([0x53EA, 0x4F5C, 0x5386, 0x53F2, 0x53C2, 0x8003] @ js '']'') = Some 11"
    by (simp add: format_eq COMPACTION_HEAD_def js_def starts_with_def)
  have off: "index_of (drop 11 ?c) [10] = Some 7"
    by (simp add: format_eq COMPACTION_HEAD_def js_def starts_with_def)
  have hd: "hd (js ''--- END OF CONTEXT SUMMARY'') = 45" "js ''--- END OF CONTEXT SUMMARY'' \<noteq> []"
    by (simp_all add: js_def)
  have c: "?c = (COMPACTION_HEAD @ [10] @ COMPACTION_LINE) @ ?x" by (simp add: format_eq)
  have len: "length (COMPACTION_HEAD @ [10]) = 19" by (simp add: COMPACTION_HEAD_def js_def)
  have "hd (js ''--- END OF CONTEXT SUMMARY'') \<notin> set (COMPACTION_HEAD @ [10] @ COMPACTION_LINE)"
    unfolding hd using line_plain(1) by (auto simp: COMPACTION_HEAD_def js_def)
  then have en: "index_of ?c (js ''--- END OF CONTEXT SUMMARY'') = Some en
      \<Longrightarrow> 19 + length COMPACTION_LINE \<le> en" for en
    unfolding c using index_of_skip[OF hd(2), of "COMPACTION_HEAD @ [10] @ COMPACTION_LINE" ?x] len
    by (cases "index_of ?x (js ''--- END OF CONTEXT SUMMARY'')") (auto simp del: append_assoc index_of.simps)
  have dr: "drop 19 ?c = COMPACTION_LINE @ ?x"
    unfolding c using len by simp
  have ex: "extract_compaction_body ?c = js_trim (collapse_newlines (strip_banner True
      (case index_of ?c (js ''--- END OF CONTEXT SUMMARY'') of
         Some en \<Rightarrow> if 18 < en then slice 19 en ?c else drop 19 ?c | None \<Rightarrow> drop 19 ?c)))"
    unfolding extract_compaction_body_def st off option.case Let_def by (simp split: option.split)
  have "\<exists>y. extract_compaction_body ?c = js_trim (collapse_newlines (strip_banner True (COMPACTION_LINE @ y)))"
  proof (cases "index_of ?c (js ''--- END OF CONTEXT SUMMARY'')")
    case None
    then show ?thesis unfolding ex by (intro exI[of _ ?x]) (simp add: dr)
  next
    case (Some n)
    then show ?thesis unfolding ex using en[OF Some]
      by (intro exI[of _ "take (n - 19 - length COMPACTION_LINE) ?x"]) (simp add: dr slice_def)
  qed
  then show ?thesis
    using js_trim_keeps[OF line_ends] by (auto simp: strip_keeps_line collapse_append line_plain)
qed

end
