(* ===== verification/Thread_Inv.thy ===== *)
theory Thread_Inv
  imports Thread
begin

text \<open>
  The well-formedness invariant of the conversation thread and its preservation by every
  method, lifted to runs of calls by the \<open>machine\<close> locale; the behaviour of the turn
  lifecycle; what \<open>interruptTurn\<close> guarantees about dangling tool calls.
\<close>

section \<open>Identifiers are fresh\<close>

definition read_nat :: "jsstring \<Rightarrow> nat" where
  "read_nat s = foldl (\<lambda>a d. a * 10 + (d - 48)) 0 s"

lemma read_show_nat [simp]: "read_nat (show_nat n) = n"
proof (induction n rule: show_nat.induct)
  case (1 n)
  show ?case
  proof (cases "n < 10")
    case True
    then show ?thesis by (simp add: read_nat_def show_nat.simps)
  next
    case False
    have "read_nat (show_nat n) = read_nat (show_nat (n div 10)) * 10 + n mod 10"
      using False by (subst show_nat.simps) (simp add: read_nat_def)
    also have "\<dots> = n" using 1[OF False] by simp
    finally show ?thesis .
  qed
qed

lemma show_nat_eq_iff [simp]: "show_nat m = show_nat n \<longleftrightarrow> m = n"
  using read_show_nat by metis

lemma entry_name_eq_iff [simp]: "entry_name m = entry_name n \<longleftrightarrow> m = n"
  by (simp add: entry_name_def)

lemma turn_name_eq_iff [simp]: "turn_name m = turn_name n \<longleftrightarrow> m = n"
  by (simp add: turn_name_def)

text \<open>The first letter tells the three families of turn ids apart.\<close>

lemma compaction_name_neq [simp]:
  "js ''compaction-'' @ turn_name m \<noteq> turn_name n" "turn_name n \<noteq> js ''compaction-'' @ turn_name m"
  by (simp_all add: turn_name_def js_def)

lemma notice_name_neq [simp]:
  "js ''notice-'' @ turn_name m \<noteq> turn_name n" "turn_name n \<noteq> js ''notice-'' @ turn_name m"
  by (simp_all add: turn_name_def js_def)

lemma compaction_notice_neq [simp]:
  "js ''compaction-'' @ a \<noteq> js ''notice-'' @ b" "js ''notice-'' @ b \<noteq> js ''compaction-'' @ a"
  by (simp_all add: js_def)

text \<open>The turn ids a counter value can have handed out.\<close>

definition turn_known :: "nat \<Rightarrow> jsstring \<Rightarrow> bool" where
  "turn_known n t \<longleftrightarrow> (\<exists>k \<le> n. t = turn_name k \<or> t = js ''compaction-'' @ turn_name k
     \<or> t = js ''notice-'' @ turn_name k)"

lemma turn_known_Suc [simp]: "turn_known n t \<Longrightarrow> turn_known (Suc n) t"
  unfolding turn_known_def using le_SucI by blast

lemma turn_known_new [simp]:
  "turn_known (Suc n) (turn_name (Suc n))"
  "turn_known (Suc n) (js ''compaction-'' @ turn_name (Suc n))"
  "turn_known (Suc n) (js ''notice-'' @ turn_name (Suc n))"
  by (auto simp: turn_known_def)

lemma turn_fresh [simp]:
  "\<not> turn_known n (turn_name (Suc n))"
  "\<not> turn_known n (js ''compaction-'' @ turn_name (Suc n))"
  "\<not> turn_known n (js ''notice-'' @ turn_name (Suc n))"
  by (auto simp: turn_known_def)

section \<open>The invariant\<close>

definition entries_wf :: "nat \<Rightarrow> thread_entry list \<Rightarrow> bool" where
  [inv_defs]: "entries_wf n es \<longleftrightarrow> distinct (map entry_id es)
     \<and> (\<forall>e \<in> set es. (\<exists>k \<le> n. entry_id e = entry_name k) \<and> entry_role_compatible (kind e) (message e))"

definition turns_wf :: "nat \<Rightarrow> jsstring option \<Rightarrow> (jsstring, turn_status) jsmap \<Rightarrow> bool" where
  [inv_defs]: "turns_wf n op m \<longleftrightarrow> map_wf m \<and> (\<forall>t \<in> set (map_keys m). turn_known n t)
     \<and> (\<forall>t. map_of m t = Some TOpen \<longleftrightarrow> op = Some t)"

definition thread_wf :: "thread \<Rightarrow> bool" where
  [inv_defs]: "thread_wf th \<longleftrightarrow> entries_wf (entry_counter th) (entries th)
     \<and> turns_wf (turn_counter th) (open_turn th) (turns th)
     \<and> turn_id ` set (entries th) \<subseteq> set (map_keys (turns th))"

lemma thread_wfD:
  assumes "thread_wf th"
  shows "entries_wf (entry_counter th) (entries th)"
    and "turns_wf (turn_counter th) (open_turn th) (turns th)"
    and "turn_id ` set (entries th) \<subseteq> set (map_keys (turns th))"
  using assms by (auto simp: thread_wf_def)

subsection \<open>Entries\<close>

lemma entries_wf_Nil [simp]: "entries_wf n []"
  by (simp add: entries_wf_def)

lemma entries_wf_snoc:
  "entries_wf n es \<Longrightarrow> entry_id e = entry_name (Suc n) \<Longrightarrow> entry_role_compatible (kind e) (message e)
   \<Longrightarrow> entries_wf (Suc n) (es @ [e])"
  unfolding entries_wf_def by (force intro: le_SucI)

lemma entries_wf_Cons:
  "entries_wf n es \<Longrightarrow> entry_id e = entry_name (Suc n) \<Longrightarrow> entry_role_compatible (kind e) (message e)
   \<Longrightarrow> entries_wf (Suc n) (e # es)"
  unfolding entries_wf_def by (force intro: le_SucI)

lemma entries_wf_filter: "entries_wf n es \<Longrightarrow> entries_wf n (filter p es)"
  unfolding entries_wf_def by (auto simp: distinct_map_filter)

lemma entries_wf_drop: "entries_wf n es \<Longrightarrow> entries_wf n (drop k es)"
  unfolding entries_wf_def by (auto simp: drop_map[symmetric] dest: in_set_dropD)

text \<open>A write to an entry that leaves its id alone and keeps kind and role compatible.\<close>

definition benign :: "(thread_entry \<Rightarrow> thread_entry) \<Rightarrow> bool" where
  "benign f \<longleftrightarrow> (\<forall>e. entry_id (f e) = entry_id e \<and> turn_id (f e) = turn_id e
     \<and> (entry_role_compatible (kind e) (message e) \<longrightarrow> entry_role_compatible (kind (f e)) (message (f e))))"

lemma entries_wf_map: "entries_wf n es \<Longrightarrow> benign f \<Longrightarrow> entries_wf n (map f es)"
  unfolding entries_wf_def benign_def by (auto simp: comp_def)

lemma map_update_first: "(\<And>x. g (f x) = g x) \<Longrightarrow> map g (update_first p f xs) = map g xs"
  by (induction xs) auto

lemma set_update_first: "x \<in> set (update_first p f xs) \<Longrightarrow> \<exists>y \<in> set xs. x = y \<or> x = f y"
  by (induction xs) (auto split: if_splits)

lemma length_update_first [simp]: "length (update_first p f xs) = length xs"
  by (induction xs) auto

lemma entries_wf_update: "entries_wf n es \<Longrightarrow> benign f \<Longrightarrow> entries_wf n (update_first p f es)"
  unfolding entries_wf_def benign_def
  by (auto simp: map_update_first dest!: set_update_first)

lemma entries_wf_last:
  "entries_wf n es \<Longrightarrow> benign f \<Longrightarrow> es \<noteq> [] \<Longrightarrow> entries_wf n (butlast es @ [f (last es)])"
proof -
  assume a: "entries_wf n es" "benign f" "es \<noteq> []"
  then obtain ys y where "es = ys @ [y]" by (metis rev_exhaust)
  with a show ?thesis unfolding entries_wf_def benign_def by auto
qed

lemma benign_elide [simp]: "benign (elide_entry est c)"
  by (auto simp: benign_def elide_entry_def Let_def split: llm_message.splits)

lemma benign_prune [simp]: "benign (prune_calls est t ids)"
  unfolding benign_def prune_calls_def Let_def
  by (auto split: llm_message.splits option.splits elim!: entry_role_compatible.elims)

lemma role_truncated [simp]:
  "entry_role_compatible k m \<Longrightarrow> entry_role_compatible k (truncated_message c m)"
  by (cases k; cases m) (auto simp: truncated_message_def)

lemma benign_truncate [simp]:
  "benign (\<lambda>e. let m = truncated_message c (message e) in e\<lparr>message := m, tokens_est := est m\<rparr>)"
  by (auto simp: benign_def Let_def)

lemma benign_original [simp]:
  "benign (\<lambda>e. e\<lparr>original_tokens := g e\<rparr>)" "benign (\<lambda>e. e\<lparr>elided := b, original_tokens := g e\<rparr>)"
  by (auto simp: benign_def)

lemma benign_reestimate [simp]:
  "benign (\<lambda>e. let n = est (message e)
     in if kind e = KToolResult \<and> \<not> elided e
        then e\<lparr>tokens_est := n, original_tokens := Some n\<rparr> else e\<lparr>tokens_est := n\<rparr>)"
  by (auto simp: benign_def Let_def)

lemma role_clone [simp]: "entry_role_compatible k (clone_message m) = entry_role_compatible k m"
  by (cases k; cases m) auto

subsection \<open>Turns\<close>

lemma turns_wf_Nil [simp]: "turns_wf n None []"
  by (simp add: turns_wf_def)

lemma turns_wf_open:
  "turns_wf n None m \<Longrightarrow> t = turn_name (Suc n) \<Longrightarrow> turns_wf (Suc n) (Some t) (map_set t TOpen m)"
  unfolding turns_wf_def by (simp only: keys_map_set) auto

lemma turns_wf_open_key: "turns_wf n (Some t) m \<Longrightarrow> t \<in> set (map_keys m)"
  unfolding turns_wf_def by (metis map_of_SomeD list.set_map imageI fst_conv)

lemma turns_wf_close:
  "turns_wf n (Some t) m \<Longrightarrow> s \<noteq> TOpen \<Longrightarrow> turns_wf n None (map_set t s m)"
  using turns_wf_open_key[of n t m] unfolding turns_wf_def by (simp only: keys_map_set) auto

lemma turns_wf_closed:
  assumes "turns_wf n op m" "\<not> turn_known n t" "turn_known (Suc n) t" "s \<noteq> TOpen"
  shows "turns_wf (Suc n) op (map_set t s m)"
proof -
  have "op \<noteq> Some t"
    using assms(1,2) unfolding turns_wf_def
    by (metis map_of_eq_None_iff list.set_map option.distinct(1))
  then show ?thesis
    using assms unfolding turns_wf_def by (simp only: keys_map_set) (auto split: if_splits)
qed

lemma turns_wf_Suc: "turns_wf n op m \<Longrightarrow> turns_wf (Suc n) op m"
  unfolding turns_wf_def by auto

lemma turns_wf_del:
  "turns_wf n op m \<Longrightarrow> turns_wf n (if op = Some t then None else op) (map_del t m)"
  unfolding turns_wf_def by (simp only: keys_map_del) auto

lemma turns_wf_dels:
  "turns_wf n op m \<Longrightarrow> (\<forall>t. op = Some t \<longrightarrow> t \<notin> set ts) \<Longrightarrow>
   turns_wf n op (foldl (\<lambda>m t. map_del t m) m ts)"
proof (induction ts arbitrary: m)
  case (Cons t ts)
  then have "turns_wf n op (map_del t m)" using turns_wf_del[of n op m t] by (auto split: if_splits)
  with Cons show ?case by simp
qed simp

section \<open>Every operation keeps the invariant\<close>

lemma append_entry_simps [simp]:
  "turns (append_entry est t k m i s th) = turns th"
  "open_turn (append_entry est t k m i s th) = open_turn th"
  "turn_counter (append_entry est t k m i s th) = turn_counter th"
  "current_iteration (append_entry est t k m i s th) = current_iteration th"
  "entry_counter (append_entry est t k m i s th) = Suc (entry_counter th)"
  by (simp_all add: append_entry_def)

lemma append_entry_wf:
  "thread_wf th \<Longrightarrow> t \<in> set (map_keys (turns th)) \<Longrightarrow> entry_role_compatible k m \<Longrightarrow>
   thread_wf (append_entry est t k m i s th)"
  unfolding thread_wf_def append_entry_def by (auto intro!: entries_wf_snoc)

lemma update_last_simps [simp]:
  "turns (update_last f th) = turns th" "open_turn (update_last f th) = open_turn th"
  "turn_counter (update_last f th) = turn_counter th"
  "entry_counter (update_last f th) = entry_counter th"
  "current_iteration (update_last f th) = current_iteration th"
  by (simp_all add: update_last_def)

lemma turn_ids_update_last:
  "benign f \<Longrightarrow> turn_id ` set (entries (update_last f th)) = turn_id ` set (entries th)"
proof (cases "entries th = []")
  case False
  then obtain ys y where "entries th = ys @ [y]" by (metis rev_exhaust)
  then show "benign f \<Longrightarrow> ?thesis" by (simp add: update_last_def benign_def)
qed (simp add: update_last_def)

lemma update_last_wf: "thread_wf th \<Longrightarrow> benign f \<Longrightarrow> thread_wf (update_last f th)"
  unfolding thread_wf_def using turn_ids_update_last[of f th]
  by (auto simp: update_last_def intro: entries_wf_last)

lemma map_entries_wf:
  "thread_wf th \<Longrightarrow> benign f \<Longrightarrow> thread_wf (th\<lparr>entries := map f (entries th)\<rparr>)"
  unfolding thread_wf_def by (auto simp: entries_wf_map benign_def)

lemma update_entry_wf:
  "thread_wf th \<Longrightarrow> benign f \<Longrightarrow> thread_wf (th\<lparr>entries := update_first p f (entries th)\<rparr>)"
  unfolding thread_wf_def
  by (auto simp: entries_wf_update benign_def dest!: set_update_first)

lemma ensure_turn_wf:
  assumes "thread_wf (th\<lparr>turn_counter := n\<rparr>)" "turn_counter th = Suc n" "\<not> turn_known n t" "turn_known (Suc n) t"
  shows "thread_wf (ensure_turn t th)" "t \<in> set (map_keys (turns (ensure_turn t th)))"
    "open_turn (ensure_turn t th) = open_turn th"
proof -
  have "t \<notin> set (map_keys (turns th))"
    using assms(1,3) by (auto simp: thread_wf_def turns_wf_def)
  then show "thread_wf (ensure_turn t th)" "t \<in> set (map_keys (turns (ensure_turn t th)))"
    "open_turn (ensure_turn t th) = open_turn th"
    using assms turns_wf_closed[of n "open_turn th" "turns th" t TCommitted]
    by (auto simp: ensure_turn_def thread_wf_def keys_map_set simp del: list.set_map)
qed

lemma begin_turn_wf: "thread_wf th \<Longrightarrow> begin_turn est u i th = Inr th' \<Longrightarrow> thread_wf th'"
proof -
  assume wf: "thread_wf th" and eq: "begin_turn est u i th = Inr th'"
  then have op: "open_turn th = None" by (auto simp: begin_turn_def split: if_splits)
  let ?t = "turn_name (Suc (turn_counter th))"
  let ?th = "th\<lparr>turn_counter := Suc (turn_counter th), turns := map_set ?t TOpen (turns th), open_turn := Some ?t\<rparr>"
  have "thread_wf ?th"
    using wf op turns_wf_open[of "turn_counter th" "turns th" ?t]
    by (auto simp: thread_wf_def keys_map_set simp del: list.set_map)
  moreover have "?t \<in> set (map_keys (turns ?th))" by (simp add: keys_map_set del: list.set_map)
  ultimately show ?thesis using eq op
    by (auto simp: begin_turn_def next_turn_id_def Let_def intro!: append_entry_wf)
qed

lemma set_status_wf:
  assumes "thread_wf th" "open_turn th = Some t" "s \<noteq> TOpen"
  shows "thread_wf ((set_status t s th)\<lparr>open_turn := None\<rparr>)"
proof -
  have "t \<in> set (map_keys (turns th))"
    using assms by (auto simp: thread_wf_def dest: turns_wf_open_key)
  then show ?thesis using assms
    by (auto simp: thread_wf_def set_status_def turns_wf_close keys_map_set simp del: list.set_map)
qed

lemma commit_turn_wf: "thread_wf th \<Longrightarrow> commit_turn th = Inr th' \<Longrightarrow> thread_wf th'"
  by (auto simp: commit_turn_def require_open_turn_def set_status_wf split: option.splits)

lemma open_turn_key: "thread_wf th \<Longrightarrow> open_turn th = Some t \<Longrightarrow> t \<in> set (map_keys (turns th))"
  by (auto simp: thread_wf_def dest: turns_wf_open_key)

lemma abort_turn_wf: "thread_wf th \<Longrightarrow> abort_turn est r th = Inr th' \<Longrightarrow> thread_wf th'"
  by (auto simp: abort_turn_def require_open_turn_def Let_def intro!: set_status_wf append_entry_wf
      dest: open_turn_key split: option.splits simp del: list.set_map)

lemma remove_unmatched_wf: "thread_wf th \<Longrightarrow> thread_wf (remove_unmatched_tool_calls est t th)"
  by (simp add: remove_unmatched_tool_calls_def map_entries_wf)

lemma interrupt_turn_wf: "thread_wf th \<Longrightarrow> interrupt_turn est r th = Inr th' \<Longrightarrow> thread_wf th'"
  by (auto simp: interrupt_turn_def require_open_turn_def
      intro: abort_turn_wf remove_unmatched_wf split: option.splits)

lemma append_assistant_wf: "thread_wf th \<Longrightarrow> append_assistant est c cs th = Inr th' \<Longrightarrow> thread_wf th'"
  by (auto simp: append_assistant_def require_open_turn_def intro!: append_entry_wf
      dest: open_turn_key split: option.splits simp del: list.set_map)

lemma append_tool_result_wf: "thread_wf th \<Longrightarrow> append_tool_result est inp th = Inr th' \<Longrightarrow> thread_wf th'"
  by (auto simp: append_tool_result_def require_open_turn_def Let_def
      intro!: append_entry_wf update_last_wf dest: open_turn_key split: option.splits simp del: list.set_map)

lemma add_notice_wf: "thread_wf th \<Longrightarrow> thread_wf (add_notice est c th)"
proof (cases "open_turn th")
  case (Some t)
  then show "thread_wf th \<Longrightarrow> ?thesis"
    using open_turn_key[of th t]
    by (simp add: add_notice_def ensure_turn_def append_entry_wf del: list.set_map)
next
  case None
  assume "thread_wf th"
  then show ?thesis
    using None ensure_turn_wf[where th = "th\<lparr>turn_counter := Suc (turn_counter th)\<rparr>"
        and n = "turn_counter th" and t = "js ''notice-'' @ turn_name (Suc (turn_counter th))"]
    by (auto simp: add_notice_def next_turn_id_def Let_def intro!: append_entry_wf)
qed

lemma add_compaction_wf: "thread_wf th \<Longrightarrow> thread_wf (add_compaction est c None th)"
  using ensure_turn_wf[where th = "th\<lparr>turn_counter := Suc (turn_counter th)\<rparr>"
        and n = "turn_counter th" and t = "js ''compaction-'' @ turn_name (Suc (turn_counter th))"]
  by (auto simp: add_compaction_def next_turn_id_def Let_def intro!: append_entry_wf)

lemma remove_turn_simps [simp]:
  "entries (remove_turn t th) = entries th" "entry_counter (remove_turn t th) = entry_counter th"
  by (simp_all add: remove_turn_def)

lemma remove_turns_wf:
  "thread_wf th \<Longrightarrow> \<forall>e \<in> set (entries th). turn_id e \<notin> set ts \<Longrightarrow>
   thread_wf (foldl (\<lambda>s t. remove_turn t s) th ts)"
proof (induction ts arbitrary: th)
  case (Cons t ts)
  have "thread_wf (remove_turn t th)"
    using Cons.prems turns_wf_del[of "turn_counter th" "open_turn th" "turns th" t]
    by (auto simp: thread_wf_def remove_turn_def keys_map_del simp del: list.set_map)
  with Cons show ?case by simp
qed simp

lemma remove_turn_entries_wf: "thread_wf th \<Longrightarrow> thread_wf (remove_turn_entries ts th)"
  unfolding remove_turn_entries_def
  by (rule remove_turns_wf) (auto simp: thread_wf_def entries_wf_filter)

lemma elide_tool_result_wf: "thread_wf th \<Longrightarrow> thread_wf (elide_tool_result est i c th)"
  by (simp add: elide_tool_result_def update_entry_wf)

lemma truncate_entry_wf: "thread_wf th \<Longrightarrow> thread_wf (truncate_entry est i c th)"
  by (simp add: truncate_entry_def update_entry_wf)

lemma reestimate_wf: "thread_wf th \<Longrightarrow> thread_wf (reestimate_tokens est th)"
  by (simp add: reestimate_tokens_def map_entries_wf)

lemma clear_thread_wf: "thread_wf (clear_thread th)"
  by (simp add: clear_thread_def thread_wf_def)

lemma new_thread_wf: "thread_wf (new_thread ec tc)"
  by (simp add: new_thread_def thread_wf_def)

lemma set_iteration_wf: "thread_wf th \<Longrightarrow> thread_wf (th\<lparr>current_iteration := i\<rparr>)"
  by (simp add: thread_wf_def)

subsection \<open>Replacing a prefix by a summary\<close>

lemma uniq_removed:
  "set (filter (\<lambda>t. t \<notin> set ks) (uniq rs)) = set rs - set ks"
  by auto

definition compaction_keeps_open :: "int \<Rightarrow> thread \<Rightarrow> bool" where
  "compaction_keeps_open n th \<longleftrightarrow>
     (case open_turn th of None \<Rightarrow> True
      | Some t \<Rightarrow> t \<notin> turn_id ` set (take (nat n) (entries th)) \<or> t \<in> turn_id ` set (drop (nat n) (entries th)))"

lemma keys_dels: "map_keys (foldl (\<lambda>m t. map_del t m) m ts) = filter (\<lambda>t. t \<notin> set ts) (map_keys m)"
proof (induction ts arbitrary: m)
  case (Cons t ts)
  show ?case using Cons[of "map_del t m"] by (simp add: keys_map_del)
qed simp

lemma replace_prefix_wf:
  assumes wf: "thread_wf th" and keep: "compaction_keeps_open n th"
  shows "thread_wf (replace_prefix_with_compaction est n s th)"
proof -
  define c where "c = nat (max 0 (min n (int (length (entries th)))))"
  define gone where "gone = filter (\<lambda>t. t \<notin> set (map turn_id (drop c (entries th)))) (uniq (map turn_id (take c (entries th))))"
  define m where "m = foldl (\<lambda>m t. map_del t m) (turns th) gone"
  let ?t = "js ''compaction-'' @ turn_name (Suc (turn_counter th))"
  show ?thesis
  proof (cases "c = 0")
    case True
    then show ?thesis using wf by (simp add: replace_prefix_with_compaction_def c_def[symmetric])
  next
    case False
    have take: "take (nat n) (entries th) = take c (entries th)" "drop (nat n) (entries th) = drop c (entries th)"
      by (auto simp: c_def min_def max_def)
    have "open_turn th = Some t \<Longrightarrow> t \<notin> set gone" for t
      using keep unfolding compaction_keeps_open_def take gone_def uniq_removed by auto
    then have "turns_wf (turn_counter th) (open_turn th) m"
      unfolding m_def using wf by (intro turns_wf_dels) (auto simp: thread_wf_def)
    then have m: "turns_wf (Suc (turn_counter th)) (open_turn th) (map_set ?t TCommitted m)"
      by (rule turns_wf_closed) auto
    have keys: "set (map_keys (map_set ?t TCommitted m)) = insert ?t (set (map_keys m))"
      by (simp add: keys_map_set insert_absorb del: list.set_map)
    have "turn_id ` set (drop c (entries th)) \<subseteq> set (map_keys m)"
      using thread_wfD(3)[OF wf] unfolding m_def keys_dels gone_def
      by (auto dest: in_set_dropD simp del: list.set_map)
    then have sub: "insert ?t (turn_id ` set (drop c (entries th))) \<subseteq> set (map_keys (map_set ?t TCommitted m))"
      unfolding keys by auto
    have "replace_prefix_with_compaction est n s th =
        th\<lparr>entries := \<lparr>entry_id = entry_name (Suc (entry_counter th)), turn_id = ?t, kind = KCompaction,
             message = Chat User (format_compaction_content s) None None,
             tokens_est = est (Chat User (format_compaction_content s) None None), elided = False,
             iteration = None, tool_summary = None, original_tokens = None\<rparr> # drop c (entries th),
           turns := map_set ?t TCommitted m, entry_counter := Suc (entry_counter th),
           turn_counter := Suc (turn_counter th)\<rparr>"
      using False unfolding replace_prefix_with_compaction_def c_def[symmetric] next_turn_id_def
      by (simp add: Let_def m_def gone_def)
    then show ?thesis
      using wf m sub by (auto simp: thread_wf_def intro!: entries_wf_Cons entries_wf_drop simp del: list.set_map)
  qed
qed

subsection \<open>Restoring a plain conversation\<close>

lemma history_turn_wf:
  assumes "thread_wf th"
  shows "thread_wf (append_entry est (turn_name (Suc (turn_counter th))) KUser (Chat User c i None) None None
      (th\<lparr>turn_counter := Suc (turn_counter th),
          turns := map_set (turn_name (Suc (turn_counter th))) TCommitted (turns th)\<rparr>))" (is "thread_wf (append_entry _ ?t _ _ _ _ ?th)")
proof (rule append_entry_wf)
  show "thread_wf ?th"
    using assms turns_wf_closed[of "turn_counter th" "open_turn th" "turns th" ?t TCommitted]
    by (auto simp: thread_wf_def keys_map_set simp del: list.set_map)
  show "?t \<in> set (map_keys (turns ?th))" by (simp add: keys_map_set del: list.set_map)
qed simp

lemma history_answer_wf:
  "thread_wf th \<Longrightarrow> t \<in> set (map_keys (turns th)) \<Longrightarrow>
   thread_wf (append_entry est t KAssistant (Chat Assistant c None None) None None th)"
  by (rule append_entry_wf) auto

lemma restore_loop_wf:
  "thread_wf th \<Longrightarrow> restore_loop est ms n conv th = (n', conv', th') \<Longrightarrow> thread_wf th'"
proof (induction est ms n conv th rule: restore_loop.induct)
  case (2 est m ms n conv th)
  show ?case
  proof (cases "h_user m")
    case False
    then show ?thesis using 2 by (auto simp: add_compaction_wf split: if_splits)
  next
    case True
    define imgs where "imgs = (case h_images m of None \<Rightarrow> None | Some xs \<Rightarrow> if xs = [] then None else Some xs)"
    let ?t = "turn_name (Suc (turn_counter th))"
    let ?th2 = "append_entry est ?t KUser (Chat User (h_content m) imgs None) None None
        (th\<lparr>turn_counter := Suc (turn_counter th), turns := map_set ?t TCommitted (turns th)\<rparr>)"
    have wf2: "thread_wf ?th2" using "2.prems"(1) by (rule history_turn_wf)
    have key: "?t \<in> set (map_keys (turns ?th2))" by (simp add: keys_map_set del: list.set_map)
    note wf3 = history_answer_wf[OF wf2 key]
    note eq = "2.prems"(2)[unfolded restore_loop.simps(2) next_turn_id_def Let_def prod.case imgs_def[symmetric]]
    note IH = "2.IH"[unfolded next_turn_id_def Let_def prod.case imgs_def[symmetric], simplified]
    show ?thesis
    proof (cases ms)
      case Nil
      with eq True wf2 show ?thesis by simp
    next
      case (Cons a ms')
      then show ?thesis
        using eq True wf2 wf3 IH by (simp del: restore_loop.simps split: if_splits)
    qed
  qed
qed simp

lemma restore_from_conversation_wf:
  "restore_from_conversation est ms th = (n, conv, th') \<Longrightarrow> thread_wf th'"
  unfolding restore_from_conversation_def by (rule restore_loop_wf[OF clear_thread_wf])

section \<open>Runs of calls\<close>

datatype thread_call =
    BeginTurn jsstring "image_part list option"
  | CommitTurn
  | AbortTurn jsstring
  | InterruptTurn jsstring
  | AppendAssistant jsstring "tool_call list option"
  | AppendToolResult tool_result_input
  | AddCompaction jsstring
  | AddNotice jsstring
  | SetIteration int
  | RemoveTurns "jsstring list"
  | ElideToolResult jsstring jsstring
  | TruncateEntry jsstring jsstring
  | Reestimate
  | ClearThread
  | RestoreConversation "history_turn list"

fun thread_exec :: "estimate \<Rightarrow> thread_call \<Rightarrow> thread \<Rightarrow> thread_error + thread" where
  "thread_exec est (BeginTurn u i) th = begin_turn est u i th"
| "thread_exec est CommitTurn th = commit_turn th"
| "thread_exec est (AbortTurn r) th = abort_turn est r th"
| "thread_exec est (InterruptTurn r) th = interrupt_turn est r th"
| "thread_exec est (AppendAssistant c cs) th = append_assistant est c cs th"
| "thread_exec est (AppendToolResult inp) th = append_tool_result est inp th"
| "thread_exec est (AddCompaction s) th = Inr (add_compaction est s None th)"
| "thread_exec est (AddNotice c) th = Inr (add_notice est c th)"
| "thread_exec est (SetIteration i) th = Inr (set_current_iteration i th)"
| "thread_exec est (RemoveTurns ts) th = Inr (remove_turn_entries ts th)"
| "thread_exec est (ElideToolResult i c) th = Inr (elide_tool_result est i c th)"
| "thread_exec est (TruncateEntry i c) th = Inr (truncate_entry est i c th)"
| "thread_exec est Reestimate th = Inr (reestimate_tokens est th)"
| "thread_exec est ClearThread th = Inr (clear_thread th)"
| "thread_exec est (RestoreConversation ms) th =
     Inr (snd (snd (restore_from_conversation est ms th)))"

lemmas thread_wf_intros = begin_turn_wf commit_turn_wf abort_turn_wf interrupt_turn_wf
  append_assistant_wf append_tool_result_wf add_compaction_wf add_notice_wf remove_turn_entries_wf
  elide_tool_result_wf truncate_entry_wf reestimate_wf clear_thread_wf set_iteration_wf

interpretation th: machine "thread_exec est" thread_wf for est
proof (unfold_locales, goal_cases)
  case (1 th c th')
  then show ?case
  proof (cases c)
    case (RestoreConversation ms)
    with 1 show ?thesis
      by (cases "restore_from_conversation est ms th") (auto dest: restore_from_conversation_wf)
  qed (auto simp: set_current_iteration_def intro: thread_wf_intros)
qed

section \<open>Dangling tool calls\<close>

text \<open>Every tool call of the turn has a tool result in the turn.\<close>

definition calls_of :: "llm_message \<Rightarrow> tool_call list" where
  "calls_of m = (case m of Chat Assistant _ _ (Some cs) \<Rightarrow> cs | _ \<Rightarrow> [])"

definition turn_answered :: "jsstring \<Rightarrow> thread_entry list \<Rightarrow> bool" where
  "turn_answered t es \<longleftrightarrow> (\<forall>e \<in> set es. turn_id e = t \<longrightarrow>
     (\<forall>c \<in> set (calls_of (message e)). call_id c \<in> set (result_ids t es)))"

lemma prune_simps [simp]:
  "turn_id (prune_calls est t ids e) = turn_id e" "kind (prune_calls est t ids e) = kind e"
  "entry_id (prune_calls est t ids e) = entry_id e"
  "is_tool_msg (message (prune_calls est t ids e)) = is_tool_msg (message e)"
  "turn_id e \<noteq> t \<Longrightarrow> prune_calls est t ids e = e"
  by (auto simp: prune_calls_def is_tool_msg_def Let_def split: llm_message.splits option.splits)

lemma prune_tool [simp]: "is_tool_msg (message e) \<Longrightarrow> prune_calls est t ids e = e"
  by (auto simp: prune_calls_def is_tool_msg_def split: llm_message.splits)

lemma prune_calls_of:
  "turn_id e = t \<Longrightarrow> calls_of (message (prune_calls est t ids e)) = filter (\<lambda>c. call_id c \<in> set ids) (calls_of (message e))"
  by (auto simp: prune_calls_def calls_of_def Let_def filter_empty_conv
      split: llm_message.splits option.splits chat_role.splits)

lemma result_ids_prune [simp]: "result_ids t (map (prune_calls est t' ids) es) = result_ids t es"
  by (induction es) (auto simp: result_ids_def)

lemma remove_unmatched_answered:
  "turn_answered t (entries (remove_unmatched_tool_calls est t th))"
  unfolding turn_answered_def remove_unmatched_tool_calls_def by (auto simp: prune_calls_of)

lemma result_ids_snoc_chat:
  "\<not> is_tool_msg (message e) \<Longrightarrow> result_ids t (es @ [e]) = result_ids t es"
  by (simp add: result_ids_def)

lemma turn_answered_snoc:
  "turn_answered t es \<Longrightarrow> \<not> is_tool_msg (message e) \<Longrightarrow> calls_of (message e) = [] \<Longrightarrow> turn_answered t (es @ [e])"
  unfolding turn_answered_def by (auto simp: result_ids_snoc_chat)

end
