(* ===== verification/Governor.thy ===== *)
theory Governor
  imports Compaction_Text Thread_Inv
begin

text \<open>
  The context governor of \<open>context/contextGovernor.ts\<close>: the three-stage pipeline that brings a
  thread under its token budget (ageing of tool results, summary of a prefix of turns, truncation
  of single entries).

  The loops of the code run over entries of the thread that the loop body changes in place, so
  they are modelled over positions of the entry list, read afresh in every round. The loop of the
  hard truncation runs over the live array, to which its body appends notices; it takes fuel, and
  \<open>Governor_Inv\<close> shows that the fuel given is enough. The signal is a predicate on the three
  points that test it, the summariser a parameter that may throw.
\<close>

section \<open>Printing a token count\<close>

text \<open>
  \<open>(tokens / 1000).toFixed(1)\<close>. The quotient is rounded to the nearest double, ties to even, and
  its tenths are rounded from that double, halves up: for a count such as 1150 the double lies
  below the decimal fraction. The exponent search covers every count below \<open>2 ^ 63\<close>.
\<close>

definition double_mantissa :: "nat \<Rightarrow> nat \<Rightarrow> nat \<Rightarrow> nat" where
  "double_mantissa n d e =
     (let q = n * 2 ^ e div d; r = n * 2 ^ e mod d
      in if 2 * r > d \<or> (2 * r = d \<and> odd q) then Suc q else q)"

fun double_exponent :: "nat \<Rightarrow> nat \<Rightarrow> nat \<Rightarrow> nat \<Rightarrow> nat" where
  "double_exponent 0 n d e = e"
| "double_exponent (Suc k) n d e =
     (if 2 ^ 52 * d \<le> n * 2 ^ e then e else double_exponent k n d (Suc e))"

definition to_fixed1 :: "nat \<Rightarrow> nat \<Rightarrow> jsstring" where
  "to_fixed1 n d =
     (let e = double_exponent 64 n d 0;
          m = double_mantissa n d e;
          tenths = (20 * m + 2 ^ e) div (2 * 2 ^ e)
      in show_nat (tenths div 10) @ js ''.'' @ show_nat (tenths mod 10))"

definition format_token_count :: "nat \<Rightarrow> jsstring" where
  "format_token_count tokens =
     (if 1000 \<le> tokens then to_fixed1 tokens 1000 @ js ''K'' else show_nat tokens)"

section \<open>Shortening texts\<close>

definition clip :: "jsstring \<Rightarrow> int \<Rightarrow> jsstring" where
  "clip value mx =
     (let trimmed = js_trim (squash_ws value)
      in if int (length trimmed) \<le> mx then trimmed
         else take (nat (max 0 (mx - 1))) trimmed @ [0x2026])"

definition OMITTED :: jsstring where
  "OMITTED = [10, 0x2026] @ js ''['' @ [0x4E2D, 0x95F4, 0x5DF2, 0x7701, 0x7565] @ js '']'' @ [0x2026, 10]"

definition truncate_head_tail :: "jsstring \<Rightarrow> int \<Rightarrow> jsstring" where
  "truncate_head_tail content max_tokens =
     (let max_chars = nat (max 32 (max_tokens * 4))
      in if length content \<le> max_chars then content
         else let half = (max_chars - 20) div 2
              in take half content @ OMITTED @ slice_last half content)"

definition build_elided_tool_content :: "thread_entry \<Rightarrow> jsstring" where
  "build_elided_tool_content e = (case message e of
     Chat _ content _ _ \<Rightarrow> content
   | ToolMsg _ nm content \<Rightarrow>
       let original = (case original_tokens e of Some n \<Rightarrow> n | None \<Rightarrow> tokens_est e);
           preview = (case tool_summary e of Some s \<Rightarrow> take 80 s | None \<Rightarrow> clip content 60);
           summary_part = (case tool_summary e of None \<Rightarrow> []
             | Some s \<Rightarrow> if s = [] then [] else [10, 0x6458, 0x8981] @ js '': '' @ clip s 200)
       in js ''['' @ [0x5DF2, 0x7701, 0x7565] @ js '': '' @ nm @ js '' '' @ preview
          @ js '', '' @ [0x539F, 0x59CB, 0x7EA6] @ js '' '' @ format_token_count original
          @ js '' tokens]'' @ summary_part)"

section \<open>Maintenance results\<close>

datatype governance_stage = ToolAging | TurnCompaction | HardTruncation

datatype maintenance_reason = RToolAging | RTurnCompaction | RHardTruncation | RRestoreTruncation | RPreRequest

record maintenance =
  compacted :: bool
  m_stage :: "governance_stage option"
  m_reason :: "maintenance_reason option"
  dropped_messages :: nat
  preserved_messages :: nat
  tokens_before :: nat
  tokens_after :: nat
  chars_before :: nat
  chars_after :: nat
  summary_chars :: "nat option"
  dropped_turns :: "nat option"

definition thread_tokens :: "thread \<Rightarrow> nat" where
  "thread_tokens th = sum_list (map tokens_est (entries th))"

definition tool_tokens :: "thread \<Rightarrow> nat" where
  "tool_tokens th = sum_list (map tokens_est (filter (\<lambda>e. kind e = KToolResult) (entries th)))"

definition empty_maintenance :: "thread \<Rightarrow> nat \<Rightarrow> nat \<Rightarrow> maintenance" where
  "empty_maintenance th before after = \<lparr>compacted = False, m_stage = None, m_reason = None,
     dropped_messages = 0, preserved_messages = length (entries th), tokens_before = before,
     tokens_after = after, chars_before = before * 4, chars_after = after * 4,
     summary_chars = None, dropped_turns = None\<rparr>"

definition stage_maintenance :: "governance_stage \<Rightarrow> maintenance_reason \<Rightarrow> thread \<Rightarrow> nat \<Rightarrow> nat \<Rightarrow> maintenance" where
  "stage_maintenance st rs th before after = (empty_maintenance th before after)
     \<lparr>compacted := True, m_stage := Some st, m_reason := Some rs\<rparr>"

section \<open>Stage 1: ageing of tool results\<close>

definition iteration_of :: "thread_entry \<Rightarrow> int" where
  "iteration_of e = (case iteration e of None \<Rightarrow> 0 | Some i \<Rightarrow> i)"

definition tool_positions :: "thread \<Rightarrow> nat list" where
  "tool_positions th = filter (\<lambda>i. kind (entries th ! i) = KToolResult) [0..<length (entries th)]"

fun cap_results :: "estimate \<Rightarrow> context_policy \<Rightarrow> nat list \<Rightarrow> thread \<Rightarrow> bool \<Rightarrow> nat \<Rightarrow> thread \<times> bool \<times> nat" where
  "cap_results est p [] th changed tt = (th, changed, tt)"
| "cap_results est p (i # is) th changed tt =
     (let e = entries th ! i
      in if int (tokens_est e) > max_tool_result_tokens p
         then let th' = truncate_entry est (entry_id e)
                (truncate_head_tail (msg_content (message e)) (max_tool_result_tokens p)) th
              in cap_results est p is th' True (tool_tokens th')
         else cap_results est p is th changed tt)"

fun age_results :: "estimate \<Rightarrow> context_policy \<Rightarrow> int \<Rightarrow> nat list \<Rightarrow> thread \<Rightarrow> bool \<Rightarrow> nat \<Rightarrow> thread \<times> bool" where
  "age_results est p keep_from [] th changed tt = (th, changed)"
| "age_results est p keep_from (i # is) th changed tt =
     (let e = entries th ! i;
          should_age = (iteration_of e < keep_from \<or> int tt > tool_result_quota p)
      in if \<not> should_age \<or> elided e then age_results est p keep_from is th changed tt
         else
           let th' = elide_tool_result est (entry_id e) (build_elided_tool_content e) th;
               tt' = tool_tokens th'
           in if int tt' \<le> tool_result_quota p then (th', True)
              else age_results est p keep_from is th' True tt')"

definition apply_tool_aging :: "estimate \<Rightarrow> context_policy \<Rightarrow> thread \<Rightarrow> thread \<times> bool \<times> maintenance" where
  "apply_tool_aging est p th =
     (let is = tool_positions th; before = thread_tokens th
      in if is = [] then (th, False, empty_maintenance th before before)
         else
           let max_iteration = Max (set (map (\<lambda>i. iteration_of (entries th ! i)) is));
               keep_from = max_iteration - preserve_tool_iterations p + 1;
               (th1, c1, tt) = cap_results est p is th False (tool_tokens th);
               (th2, c2) = age_results est p keep_from is th1 c1 tt;
               after = thread_tokens th2
           in (th2, c2, if c2 then stage_maintenance ToolAging RToolAging th2 before after
                        else empty_maintenance th2 before after))"

section \<open>Stage 2: summary of a prefix\<close>

record entry_range =
  range_turn :: jsstring
  range_start :: nat
  range_end :: nat
  range_tokens :: nat

text \<open>\<open>getCompactableRanges\<close>: the maximal runs of entries of one closed turn that hold something
  other than compaction entries; \<open>k\<close> is the position of the first entry of the list.\<close>

function compactable_ranges :: "thread \<Rightarrow> nat \<Rightarrow> thread_entry list \<Rightarrow> entry_range list" where
  "compactable_ranges th k [] = []"
| "compactable_ranges th k (e # es) =
     (let t = turn_id e;
          run = e # takeWhile (\<lambda>x. turn_id x = t) es;
          rest = dropWhile (\<lambda>x. turn_id x = t) es;
          n = k + length run;
          status = turn_status_of t th;
          r = \<lparr>range_turn = t, range_start = k, range_end = n, range_tokens = sum_list (map tokens_est run)\<rparr>
      in (if Some t \<noteq> open_turn th \<and> \<not> list_all (\<lambda>x. kind x = KCompaction) run
             \<and> (status = Some TCommitted \<or> status = Some TAborted) then [r] else [])
         @ compactable_ranges th n rest)"
  by pat_completeness auto
termination
  by (relation "measure (\<lambda>(_, _, es). length es)") (auto simp: le_imp_less_Suc length_dropWhile_le)

definition get_compactable_ranges :: "thread \<Rightarrow> entry_range list" where
  "get_compactable_ranges th = compactable_ranges th 0 (entries th)"

definition is_assistant_entry :: "thread_entry \<Rightarrow> bool" where
  "is_assistant_entry e \<longleftrightarrow> kind e = KAssistant
     \<and> (case message e of Chat r _ _ _ \<Rightarrow> r = Assistant | ToolMsg _ _ _ \<Rightarrow> False)"

definition find_safe_suffix_start :: "thread_entry list \<Rightarrow> entry_range \<Rightarrow> int \<Rightarrow> nat option" where
  "find_safe_suffix_start es r budget =
     find (\<lambda>i. is_assistant_entry (es ! i)
             \<and> int (sum_list (map tokens_est (slice i (range_end r) es))) \<le> budget)
       [range_start r + 1..<range_end r]"

text \<open>The loop of \<open>selectAutomaticPrefix\<close>, from the last range backwards.\<close>

fun select_boundary :: "thread_entry list \<Rightarrow> int \<Rightarrow> entry_range list \<Rightarrow> nat \<Rightarrow> nat \<Rightarrow> nat" where
  "select_boundary es budget [] retained boundary = boundary"
| "select_boundary es budget (r # rs) retained boundary =
     (if int (retained + range_tokens r) \<le> budget
      then select_boundary es budget rs (retained + range_tokens r) (range_start r)
      else if retained = 0
      then (case find_safe_suffix_start es r budget of Some s \<Rightarrow> s | None \<Rightarrow> range_start r)
      else range_end r)"

record summarize_turn =
  sum_turn :: jsstring
  sum_entries :: "thread_entry list"

record compaction_selection =
  sel_count :: nat
  sel_turns :: "summarize_turn list"
  sel_previous :: jsstring
  sel_dropped_messages :: nat
  sel_dropped_turns :: nat

definition build_compaction_selection :: "thread_entry list \<Rightarrow> nat \<Rightarrow> compaction_selection option" where
  "build_compaction_selection es count =
     (if count = 0 then None
      else
        let prefix = take count es;
            previous = filter (\<lambda>s. s \<noteq> []) (map (\<lambda>e. extract_compaction_body (msg_content (message e)))
              (filter (\<lambda>e. kind e = KCompaction) prefix));
            others = filter (\<lambda>e. kind e \<noteq> KCompaction) prefix;
            turns = map (\<lambda>t. \<lparr>sum_turn = t, sum_entries = filter (\<lambda>e. turn_id e = t) others\<rparr>)
              (uniq (map turn_id others))
        in if turns = [] \<and> previous = [] then None
           else Some \<lparr>sel_count = count, sel_turns = turns, sel_previous = js_join [10, 10] previous,
             sel_dropped_messages = length others, sel_dropped_turns = length turns\<rparr>)"

definition select_automatic_prefix :: "thread \<Rightarrow> int \<Rightarrow> compaction_selection option" where
  "select_automatic_prefix th preserve =
     (let ranges = get_compactable_ranges th
      in if ranges = [] then None
         else build_compaction_selection (entries th)
           (select_boundary (entries th) (max 1 preserve) (rev ranges) 0 (range_end (last ranges))))"

text \<open>The points of the pipeline that test the signal.\<close>

datatype govern_point = AtStart | AfterSummary | AfterCompaction

datatype govern_error = GovernAborted | SummarizerFailed jsstring

type_synonym summarizer = "summarize_turn list \<Rightarrow> jsstring \<Rightarrow> jsstring + jsstring"

definition compact_prefix ::
    "estimate \<Rightarrow> summarizer \<Rightarrow> (govern_point \<Rightarrow> bool) \<Rightarrow> compaction_selection \<Rightarrow> thread
     \<Rightarrow> thread \<times> (govern_error + maintenance)"
where
  "compact_prefix est summ sig sel th =
     (let before = thread_tokens th
      in case summ (sel_turns sel) (sel_previous sel) of
           Inl err \<Rightarrow> (th, Inl (SummarizerFailed err))
         | Inr summary \<Rightarrow>
             if sig AfterSummary then (th, Inl GovernAborted)
             else
               let th' = replace_prefix_with_compaction est (int (sel_count sel)) summary th;
                   after = thread_tokens th'
               in (th', Inr ((stage_maintenance TurnCompaction RTurnCompaction th' before after)
                    \<lparr>dropped_messages := sel_dropped_messages sel,
                     dropped_turns := Some (sel_dropped_turns sel),
                     summary_chars := Some (length summary)\<rparr>)))"

definition apply_turn_compaction ::
    "estimate \<Rightarrow> context_policy \<Rightarrow> summarizer \<Rightarrow> (govern_point \<Rightarrow> bool) \<Rightarrow> int \<Rightarrow> thread
     \<Rightarrow> thread \<times> (govern_error + bool \<times> maintenance)"
where
  "apply_turn_compaction est p summ sig budget th =
     (let before = thread_tokens th
      in if int before \<le> budget then (th, Inr (False, empty_maintenance th before before))
         else case select_automatic_prefix th (min (preserve_recent_tokens p) (max 0 budget)) of
             None \<Rightarrow> (th, Inr (False, empty_maintenance th before before))
           | Some sel \<Rightarrow>
               (case compact_prefix est summ sig sel th of
                  (th', Inl err) \<Rightarrow> (th', Inl err)
                | (th', Inr m) \<Rightarrow> (th', Inr (compacted m, m))))"

section \<open>Stage 3: hard truncation\<close>

fun kind_name :: "entry_kind \<Rightarrow> jsstring" where
  "kind_name KUser = js ''user''"
| "kind_name KAssistant = js ''assistant''"
| "kind_name KToolResult = js ''tool-result''"
| "kind_name KCompaction = js ''compaction''"
| "kind_name KNotice = js ''notice''"

definition truncation_suffix :: "thread_entry \<Rightarrow> jsstring" where
  "truncation_suffix e = [10, 10] @ js ''['' @ [0x5DF2, 0x622A, 0x65AD] @ js '': ''
     @ [0x5355, 0x6761, 0x6D88, 0x606F, 0x8D85, 0x51FA, 0x9884, 0x7B97, 0xFF0C, 0x539F, 0x6587, 0x7EA6] @ js '' ''
     @ show_nat (case original_tokens e of Some n \<Rightarrow> n | None \<Rightarrow> tokens_est e) @ js '' tokens]''"

definition truncation_notice :: "entry_kind \<Rightarrow> jsstring" where
  "truncation_notice k = [0x5355, 0x6761, 0x6D88, 0x606F, 0x5DF2, 0x786C, 0x622A, 0x65AD] @ js '' ('' @ kind_name k @ js '')''"

fun hard_truncate_loop :: "estimate \<Rightarrow> int \<Rightarrow> nat \<Rightarrow> nat \<Rightarrow> thread \<Rightarrow> bool \<Rightarrow> (thread \<times> bool) option" where
  "hard_truncate_loop est cap 0 i th changed = None"
| "hard_truncate_loop est cap (Suc fuel) i th changed =
     (if length (entries th) \<le> i then Some (th, changed)
      else
        let e = entries th ! i
        in if int (tokens_est e) \<le> cap then hard_truncate_loop est cap fuel (Suc i) th changed
           else hard_truncate_loop est cap fuel (Suc i)
             (add_notice est (truncation_notice (kind e))
               (truncate_entry est (entry_id e)
                 (truncate_head_tail (msg_content (message e)) cap @ truncation_suffix e) th)) True)"

definition apply_hard_truncation :: "estimate \<Rightarrow> int \<Rightarrow> thread \<Rightarrow> (thread \<times> bool \<times> maintenance) option" where
  "apply_hard_truncation est budget th =
     (let before = thread_tokens th; n = length (entries th)
      in if int before \<le> budget then Some (th, False, empty_maintenance th before before)
         else
           let cap = max 256 (budget div max 1 (int n))
           in case hard_truncate_loop est cap (Suc (2 * n)) 0 th False of
                None \<Rightarrow> None
              | Some (th', changed) \<Rightarrow>
                  let after = thread_tokens th'
                  in Some (th', changed,
                       if changed then stage_maintenance HardTruncation RHardTruncation th' before after
                       else empty_maintenance th' before after))"

section \<open>The pipeline\<close>

definition govern ::
    "estimate \<Rightarrow> context_policy \<Rightarrow> summarizer \<Rightarrow> (govern_point \<Rightarrow> bool) \<Rightarrow> int \<Rightarrow> thread
     \<Rightarrow> (thread \<times> (govern_error + maintenance list \<times> nat)) option"
where
  "govern est p summ sig budget th =
     (if sig AtStart then Some (th, Inl GovernAborted)
      else if int (thread_tokens th) \<le> budget then Some (th, Inr ([], thread_tokens th))
      else
        let (th1, c1, m1) = apply_tool_aging est p th;
            ms1 = (if c1 then [m1] else [])
        in if c1 \<and> int (thread_tokens th1) \<le> budget then Some (th1, Inr (ms1, thread_tokens th1))
           else case apply_turn_compaction est p summ sig budget th1 of
               (th2, Inl err) \<Rightarrow> Some (th2, Inl err)
             | (th2, Inr (c2, m2)) \<Rightarrow>
                 if sig AfterCompaction then Some (th2, Inl GovernAborted)
                 else
                   let ms2 = ms1 @ (if c2 then [m2] else [])
                   in if c2 \<and> int (thread_tokens th2) \<le> budget then Some (th2, Inr (ms2, thread_tokens th2))
                      else case apply_hard_truncation est budget th2 of
                          None \<Rightarrow> None
                        | Some (th3, c3, m3) \<Rightarrow>
                            Some (th3, Inr (ms2 @ (if c3 then [m3] else []), thread_tokens th3)))"

end
