(* ===== verification/Governor_Inv.thy ===== *)
theory Governor_Inv
  imports Governor
begin

text \<open>
  What the governor keeps: the well-formedness of the thread, every entry of the open turn, and
  the pairing of each tool result with the assistant entry that made the call.
\<close>

section \<open>The part of an entry no stage changes\<close>

definition result_id :: "llm_message \<Rightarrow> jsstring option" where
  "result_id m = (case m of ToolMsg c _ _ \<Rightarrow> Some c | Chat _ _ _ _ \<Rightarrow> None)"

definition role_tag :: "llm_message \<Rightarrow> chat_role option" where
  "role_tag m = (case m of Chat r _ _ _ \<Rightarrow> Some r | ToolMsg _ _ _ \<Rightarrow> None)"

lemma role_compatible_tag:
  "entry_role_compatible k m = (case k of KAssistant \<Rightarrow> role_tag m = Some Assistant
     | KToolResult \<Rightarrow> role_tag m = None | _ \<Rightarrow> role_tag m = Some User)"
  by (cases k; cases m) (auto simp: role_tag_def)

definition skel ::
    "thread_entry \<Rightarrow> jsstring \<times> jsstring \<times> entry_kind \<times> bool \<times> tool_call list \<times> jsstring option \<times> chat_role option"
where
  "skel e = (entry_id e, turn_id e, kind e, is_assistant_entry e, calls_of (message e), result_id (message e),
     role_tag (message e))"

lemma skel_eqD:
  assumes "skel e = skel e'"
  shows "entry_id e = entry_id e'" "turn_id e = turn_id e'" "kind e = kind e'"
    "is_assistant_entry e = is_assistant_entry e'" "calls_of (message e) = calls_of (message e')"
    "result_id (message e) = result_id (message e')"
    "entry_role_compatible (kind e) (message e) = entry_role_compatible (kind e') (message e')"
  using assms by (auto simp: skel_def role_compatible_tag split: entry_kind.split)

lemma skel_elide [simp]: "skel (elide_entry est c e) = skel e"
  by (auto simp: skel_def role_tag_def elide_entry_def is_assistant_entry_def calls_of_def result_id_def Let_def
      split: llm_message.splits)

lemma skel_truncate [simp]:
  "skel (e\<lparr>message := truncated_message c (message e), tokens_est := n\<rparr>) = skel e"
  by (auto simp: skel_def role_tag_def truncated_message_def is_assistant_entry_def calls_of_def result_id_def
      split: llm_message.splits chat_role.splits option.splits)

lemma skel_update_first: "(\<And>x. skel (f x) = skel x) \<Longrightarrow> map skel (update_first p f xs) = map skel xs"
  by (rule map_update_first)

lemma skel_Cons:
  assumes "map skel (e # es) = map skel ys"
  obtains x xs where "ys = x # xs" "skel e = skel x" "map skel es = map skel xs"
  using assms by (cases ys) auto

lemma skel_map:
  assumes "map skel es' = map skel es" and f: "\<And>e e'. skel e = skel e' \<Longrightarrow> f e = f e'"
  shows "map f es' = map f es"
  using assms(1)
proof (induction es' arbitrary: es)
  case (Cons e es')
  from Cons.prems obtain x xs where x: "es = x # xs" "skel e = skel x" "map skel es' = map skel xs"
    by (rule skel_Cons)
  show ?case using f[OF x(2)] Cons.IH[OF x(3)] by (simp add: x(1))
qed simp

lemma skel_filter:
  assumes "map skel es' = map skel es" and f: "\<And>e e'. skel e = skel e' \<Longrightarrow> f e = f e'"
  shows "map skel (filter f es') = map skel (filter f es)"
  using assms(1)
proof (induction es' arbitrary: es)
  case (Cons e es')
  from Cons.prems obtain x xs where x: "es = x # xs" "skel e = skel x" "map skel es' = map skel xs"
    by (rule skel_Cons)
  show ?case using f[OF x(2)] Cons.IH[OF x(3)] x(2) by (simp add: x(1))
qed simp

lemma skel_all:
  assumes "map skel es' = map skel es" and "\<And>e e'. skel e = skel e' \<Longrightarrow> f e = f e'"
  shows "list_all f es' = list_all f es"
proof -
  have "map f es' = map f es" by (rule skel_map[OF assms])
  then have "list_all id (map f es') = list_all id (map f es)" by (rule arg_cong)
  then show ?thesis by (simp add: list.pred_map)
qed

text \<open>Two threads that differ in texts and token counts only.\<close>

definition same_shape :: "thread \<Rightarrow> thread \<Rightarrow> bool" where
  "same_shape th th' \<longleftrightarrow> map skel (entries th') = map skel (entries th) \<and> turns th' = turns th
     \<and> open_turn th' = open_turn th \<and> current_iteration th' = current_iteration th
     \<and> entry_counter th' = entry_counter th \<and> turn_counter th' = turn_counter th"

lemma same_shape_refl [simp]: "same_shape th th"
  by (simp add: same_shape_def)

lemma same_shape_trans: "same_shape a b \<Longrightarrow> same_shape b c \<Longrightarrow> same_shape a c"
  by (simp add: same_shape_def)

lemma same_shape_elide [simp]: "same_shape th (elide_tool_result est i c th)"
  by (simp add: same_shape_def elide_tool_result_def skel_update_first)

lemma same_shape_truncate [simp]: "same_shape th (truncate_entry est i c th)"
  by (simp add: same_shape_def truncate_entry_def skel_update_first Let_def)

section \<open>Pairing\<close>

text \<open>Every tool result follows, inside its turn and with no other assistant entry between them,
  an assistant entry that made the call it answers.\<close>

definition answers :: "thread_entry list \<Rightarrow> nat \<Rightarrow> nat \<Rightarrow> bool" where
  "answers es j i \<longleftrightarrow> j < i \<and> is_assistant_entry (es ! j)
     \<and> result_id (message (es ! i)) \<in> Some ` call_id ` set (calls_of (message (es ! j)))
     \<and> (\<forall>k. j < k \<and> k \<le> i \<longrightarrow> turn_id (es ! k) = turn_id (es ! j) \<and> \<not> is_assistant_entry (es ! k))"

definition paired :: "thread_entry list \<Rightarrow> bool" where
  "paired es \<longleftrightarrow> (\<forall>i < length es. kind (es ! i) = KToolResult \<longrightarrow> (\<exists>j. answers es j i))"

definition safe_cut :: "nat \<Rightarrow> thread_entry list \<Rightarrow> bool" where
  "safe_cut n es \<longleftrightarrow> n = 0 \<or> length es \<le> n \<or> is_assistant_entry (es ! n)
     \<or> turn_id (es ! (n - 1)) \<noteq> turn_id (es ! n)"

lemma paired_drop:
  assumes p: "paired es" and c: "safe_cut n es"
  shows "paired (drop n es)"
  unfolding paired_def
proof (intro allI impI)
  fix i assume i: "i < length (drop n es)" "kind (drop n es ! i) = KToolResult"
  then obtain j where j: "answers es j (n + i)"
    using p unfolding paired_def by (metis length_drop less_diff_conv add.commute nth_drop less_imp_le_nat
        nat_less_le drop_all length_greater_0_conv list.size(3) not_le_imp_less not_less_zero)
  have "n \<le> j"
  proof (rule ccontr)
    assume "\<not> n \<le> j"
    then have lt: "j < n" "0 < n" by auto
    then have n: "turn_id (es ! n) = turn_id (es ! j)" "\<not> is_assistant_entry (es ! n)"
      using j by (auto simp: answers_def)
    have "turn_id (es ! (n - 1)) = turn_id (es ! j)"
    proof (cases "n - 1 = j")
      case False
      with lt have "j < n - 1" by linarith
      then show ?thesis using j lt by (auto simp: answers_def)
    qed simp
    with n c i lt show False by (auto simp: safe_cut_def)
  qed
  then have "answers (drop n es) (j - n) i"
    using j i by (auto simp: answers_def)
  then show "\<exists>j. answers (drop n es) j i" by blast
qed

lemma answers_cong:
  assumes "map skel es = map skel es'" "i < length es" "j < i"
  shows "answers es j i = answers es' j i"
proof -
  have nth: "skel (es ! k) = skel (es' ! k)" if "k \<le> i" for k
    using assms that by (metis le_less_trans length_map nth_map)
  note eqs = nth[THEN skel_eqD(2)] nth[THEN skel_eqD(4)] nth[THEN skel_eqD(5)] nth[THEN skel_eqD(6)]
  show ?thesis unfolding answers_def using eqs assms(3) by (auto simp: le_less)
qed

lemma paired_cong:
  assumes "map skel es = map skel es'" "paired es"
  shows "paired es'"
  unfolding paired_def
proof (intro allI impI)
  fix i assume i: "i < length es'" "kind (es' ! i) = KToolResult"
  have len: "length es = length es'" using assms(1) by (metis length_map)
  then have "skel (es ! i) = skel (es' ! i)" using assms(1) i by (metis nth_map)
  then have "kind (es ! i) = KToolResult" using i skel_eqD(3) by metis
  then obtain j where "answers es j i" using assms(2) i len by (auto simp: paired_def)
  moreover from this have "j < i" by (simp add: answers_def)
  ultimately show "\<exists>j. answers es' j i" using answers_cong[OF assms(1)] i len by auto
qed

lemma answers_append: "i < length es \<Longrightarrow> answers es j i \<Longrightarrow> answers (es @ xs) j i"
  by (auto simp: answers_def nth_append)

lemma paired_snoc: "paired es \<Longrightarrow> kind e \<noteq> KToolResult \<Longrightarrow> paired (es @ [e])"
  unfolding paired_def by (auto simp: nth_append less_Suc_eq dest: answers_append)

lemma paired_snoc_result:
  "paired es \<Longrightarrow> answers (es @ [e]) j (length es) \<Longrightarrow> paired (es @ [e])"
  unfolding paired_def by (auto simp: nth_append less_Suc_eq dest: answers_append)

lemma answers_Cons:
  assumes "answers es j i"
  shows "answers (e # es) (Suc j) (Suc i)"
proof -
  have "turn_id ((e # es) ! k) = turn_id (es ! j) \<and> \<not> is_assistant_entry ((e # es) ! k)"
    if "Suc j < k" "k \<le> Suc i" for k
    using assms that by (cases k) (auto simp: answers_def)
  then show ?thesis using assms by (simp add: answers_def)
qed

lemma paired_Cons: "paired es \<Longrightarrow> kind e \<noteq> KToolResult \<Longrightarrow> paired (e # es)"
  unfolding paired_def
proof (intro allI impI)
  fix i assume p: "\<forall>i < length es. kind (es ! i) = KToolResult \<longrightarrow> (\<exists>j. answers es j i)"
    and "kind e \<noteq> KToolResult" "i < length (e # es)" "kind ((e # es) ! i) = KToolResult"
  then obtain i' where "i = Suc i'" "i' < length es" "kind (es ! i') = KToolResult"
    by (cases i) auto
  with p show "\<exists>j. answers (e # es) j i" by (blast dest: answers_Cons)
qed

lemma paired_Nil [simp]: "paired []"
  by (simp add: paired_def)

section \<open>Ranges and boundaries\<close>

definition range_ok :: "thread \<Rightarrow> entry_range \<Rightarrow> bool" where
  "range_ok th r \<longleftrightarrow> range_start r < range_end r \<and> range_end r \<le> length (entries th)
     \<and> (\<forall>i. range_start r \<le> i \<and> i < range_end r \<longrightarrow> turn_id (entries th ! i) = range_turn r)
     \<and> (range_start r = 0 \<or> turn_id (entries th ! (range_start r - 1)) \<noteq> range_turn r)
     \<and> (range_end r = length (entries th) \<or> turn_id (entries th ! range_end r) \<noteq> range_turn r)
     \<and> Some (range_turn r) \<noteq> open_turn th
     \<and> (\<exists>i. range_start r \<le> i \<and> i < range_end r \<and> kind (entries th ! i) \<noteq> KCompaction)"

lemma dropWhile_hd: "dropWhile P xs \<noteq> [] \<Longrightarrow> \<not> P (hd (dropWhile P xs))"
  by (rule hd_dropWhile)

lemma nth_at_length: "ys \<noteq> [] \<Longrightarrow> (xs @ ys) ! length xs = hd ys"
  by (simp add: nth_append hd_conv_nth)

lemma run_range_ok:
  assumes es: "entries th = pre @ run @ rest" and run: "run \<noteq> []" "\<forall>x \<in> set run. turn_id x = t"
    and max: "pre = [] \<or> turn_id (last pre) \<noteq> t" "rest = [] \<or> turn_id (hd rest) \<noteq> t"
    and op: "Some t \<noteq> open_turn th" and keep: "\<not> list_all (\<lambda>x. kind x = KCompaction) run"
  shows "range_ok th \<lparr>range_turn = t, range_start = length pre,
     range_end = length pre + length run, range_tokens = n\<rparr>"
proof -
  have nth: "entries th ! i = run ! (i - length pre)" if "length pre \<le> i" "i < length pre + length run" for i
    using that by (simp add: es nth_append)
  have 1: "turn_id (entries th ! i) = t" if "length pre \<le> i" "i < length pre + length run" for i
    using run(2) nth_mem[of "i - length pre" run] that by (simp add: nth)
  have 2: "length pre = 0 \<or> turn_id (entries th ! (length pre - 1)) \<noteq> t"
    using max(1) by (cases pre rule: rev_cases) (auto simp: es nth_append)
  have 3: "rest = [] \<or> turn_id (entries th ! (length pre + length run)) \<noteq> t"
    using max(2) nth_at_length[of rest "pre @ run"] by (auto simp: es)
  obtain k where k: "k < length run" "kind (run ! k) \<noteq> KCompaction"
    using keep by (auto simp: list_all_length)
  then have 4: "length pre \<le> length pre + k \<and> length pre + k < length pre + length run
      \<and> kind (entries th ! (length pre + k)) \<noteq> KCompaction"
    using nth[of "length pre + k"] by simp
  have len: "length (entries th) = length pre + length run + length rest" by (simp add: es)
  show ?thesis unfolding range_ok_def using 1 2 3 4 len op run(1)
    by (auto intro: exI[of _ "length pre + k"])
qed

lemma compactable_ranges_ok:
  "entries th = pre @ es \<Longrightarrow> pre = [] \<or> es = [] \<or> turn_id (last pre) \<noteq> turn_id (hd es) \<Longrightarrow>
   r \<in> set (compactable_ranges th (length pre) es) \<Longrightarrow> range_ok th r"
proof (induction es arbitrary: pre rule: length_induct)
  case (1 es)
  show ?case
  proof (cases es)
    case Nil
    with 1(4) show ?thesis by simp
  next
    case (Cons e xs)
    let ?P = "\<lambda>x. turn_id x = turn_id e"
    define run where "run = e # takeWhile ?P xs"
    define rest where "rest = dropWhile ?P xs"
    have split: "entries th = pre @ run @ rest" using 1(2) by (simp add: Cons run_def rest_def)
    have all: "run \<noteq> []" "\<forall>x \<in> set run. turn_id x = turn_id e" by (auto simp: run_def dest: set_takeWhileD)
    have rest: "rest = [] \<or> turn_id (hd rest) \<noteq> turn_id e" using dropWhile_hd[of ?P xs] by (auto simp: rest_def)
    have pre: "pre = [] \<or> turn_id (last pre) \<noteq> turn_id e" using 1(3) by (simp add: Cons)
    have lt: "length rest < length es" by (simp add: Cons rest_def le_imp_less_Suc length_dropWhile_le)
    have "last (pre @ run) \<in> set run" using all(1) by simp
    then have mx: "pre @ run = [] \<or> rest = [] \<or> turn_id (last (pre @ run)) \<noteq> turn_id (hd rest)"
      using rest all(2) by auto
    have IH: "r \<in> set (compactable_ranges th (length (pre @ run)) rest) \<Longrightarrow> range_ok th r"
      using 1(1) lt mx split by (metis append.assoc)
    have "compactable_ranges th (length pre) es =
        (if Some (turn_id e) \<noteq> open_turn th \<and> \<not> list_all (\<lambda>x. kind x = KCompaction) run
            \<and> (turn_status_of (turn_id e) th = Some TCommitted \<or> turn_status_of (turn_id e) th = Some TAborted)
         then [\<lparr>range_turn = turn_id e, range_start = length pre, range_end = length pre + length run,
                range_tokens = sum_list (map tokens_est run)\<rparr>] else [])
        @ compactable_ranges th (length (pre @ run)) rest"
      by (simp only: Cons compactable_ranges.simps Let_def run_def rest_def length_append)
    with 1(4) IH run_range_ok[OF split all pre rest] show ?thesis by (auto split: if_splits)
  qed
qed

text \<open>A cut the selection may make: safe for the pairing, and not beyond a range of a closed turn.\<close>

definition good_cut :: "nat \<Rightarrow> thread \<Rightarrow> bool" where
  "good_cut n th \<longleftrightarrow> 0 < n \<and> safe_cut n (entries th) \<and> (\<exists>r. range_ok th r \<and> n \<le> range_end r)"

lemma range_start_safe: "range_ok th r \<Longrightarrow> safe_cut (range_start r) (entries th)"
  by (auto simp: range_ok_def safe_cut_def)

lemma range_end_safe:
  assumes "range_ok th r"
  shows "safe_cut (range_end r) (entries th)"
proof -
  have "range_start r \<le> range_end r - 1" "range_end r - 1 < range_end r"
    using assms by (auto simp: range_ok_def)
  then have "turn_id (entries th ! (range_end r - 1)) = range_turn r"
    using assms by (simp add: range_ok_def)
  moreover have "range_end r = length (entries th) \<or> turn_id (entries th ! range_end r) \<noteq> range_turn r"
    using assms by (simp add: range_ok_def)
  ultimately show ?thesis unfolding safe_cut_def by fastforce
qed

lemma find_safe_Some:
  "find_safe_suffix_start es r b = Some i \<Longrightarrow> safe_cut i es \<and> i < range_end r"
  unfolding find_safe_suffix_start_def by (auto simp: find_Some_iff safe_cut_def)

lemma select_boundary_good:
  "\<forall>r \<in> set rs. range_ok th r \<Longrightarrow>
   safe_cut b (entries th) \<and> (\<exists>r. range_ok th r \<and> b \<le> range_end r) \<Longrightarrow>
   n = select_boundary (entries th) budget rs k b \<Longrightarrow>
   safe_cut n (entries th) \<and> (\<exists>r. range_ok th r \<and> n \<le> range_end r)"
proof (induction rs arbitrary: k b)
  case (Cons r rs)
  have r: "range_ok th r" using Cons.prems(1) by simp
  then have st: "safe_cut (range_start r) (entries th) \<and> (\<exists>r'. range_ok th r' \<and> range_start r \<le> range_end r')"
    using range_start_safe[OF r] r by (meson less_imp_le range_ok_def)
  have en: "safe_cut (range_end r) (entries th) \<and> (\<exists>r'. range_ok th r' \<and> range_end r \<le> range_end r')"
    using range_end_safe r by blast
  have sf: "safe_cut i (entries th) \<and> (\<exists>r'. range_ok th r' \<and> i \<le> range_end r')"
    if "find_safe_suffix_start (entries th) r budget = Some i" for i
    using find_safe_Some[OF that] r less_imp_le by blast
  show ?case
  proof (cases "int (k + range_tokens r) \<le> budget")
    case True
    then show ?thesis using Cons.IH[of "range_start r" "k + range_tokens r"] st Cons.prems by auto
  next
    case False
    then show ?thesis using Cons.prems(3) st en sf
      by (auto split: if_splits option.splits)
  qed
qed simp

lemma selection_good:
  assumes "select_automatic_prefix th p = Some sel"
  shows "good_cut (sel_count sel) th"
proof -
  let ?rs = "get_compactable_ranges th"
  have ok: "\<forall>r \<in> set ?rs. range_ok th r"
    using compactable_ranges_ok[of th "[]"] by (auto simp: get_compactable_ranges_def)
  have ne: "?rs \<noteq> []" and b: "build_compaction_selection (entries th)
      (select_boundary (entries th) (max 1 p) (rev ?rs) 0 (range_end (last ?rs))) = Some sel"
    using assms by (auto simp: select_automatic_prefix_def Let_def split: if_splits)
  have l: "range_ok th (last ?rs)" using ok ne by simp
  have "sel_count sel = select_boundary (entries th) (max 1 p) (rev ?rs) 0 (range_end (last ?rs))"
    and pos: "0 < sel_count sel"
    using b by (auto simp: build_compaction_selection_def Let_def split: if_splits)
  then show ?thesis
    using select_boundary_good[of "rev ?rs" th "range_end (last ?rs)" "sel_count sel" "max 1 p" 0]
      ok range_end_safe[OF l] l pos by (auto simp: good_cut_def)
qed

declare hard_truncate_loop.simps [simp del]

lemma hard_step:
  assumes "hard_truncate_loop est cap (Suc fuel) i th c = Some (th', c')"
  obtains "length (entries th) \<le> i" "th' = th" "c' = c"
  | "i < length (entries th)" "int (tokens_est (entries th ! i)) \<le> cap"
    "hard_truncate_loop est cap fuel (Suc i) th c = Some (th', c')"
  | k t where "i < length (entries th)" "hard_truncate_loop est cap fuel (Suc i)
      (add_notice est (truncation_notice k) (truncate_entry est (entry_id (entries th ! i)) t th)) True = Some (th', c')"
  using assms by (auto simp: hard_truncate_loop.simps Let_def split: if_splits)

section \<open>What every stage keeps, the pipeline keeps\<close>

lemma entries_replace_prefix:
  assumes "0 < n" "n \<le> length (entries th)"
  shows "\<exists>c. kind c = KCompaction \<and> turn_id c = js ''compaction-'' @ turn_name (Suc (turn_counter th))
    \<and> entries (replace_prefix_with_compaction est (int n) s th) = c # drop n (entries th)
    \<and> open_turn (replace_prefix_with_compaction est (int n) s th) = open_turn th"
  using assms by (simp add: replace_prefix_with_compaction_def next_turn_id_def Let_def min_def)

text \<open>The four ways in which the pipeline changes a thread; a predicate that each keeps is kept by all of it.\<close>

locale governor_steps =
  fixes est :: estimate and P :: "thread \<Rightarrow> bool"
  assumes elide: "P th \<Longrightarrow> P (elide_tool_result est i c th)"
    and shorten: "P th \<Longrightarrow> P (truncate_entry est i c th)"
    and cut: "P th \<Longrightarrow> good_cut n th \<Longrightarrow> P (replace_prefix_with_compaction est (int n) s th)"
    and notice: "P th \<Longrightarrow> P (add_notice est c th)"
begin

lemma capping: "P th \<Longrightarrow> P (fst (cap_results est p is th c tt))"
  by (induction "is" arbitrary: th c tt) (auto simp: Let_def intro: shorten)

lemma ageing: "P th \<Longrightarrow> P (fst (age_results est p k is th c tt))"
  by (induction "is" arbitrary: th c tt) (auto simp: Let_def intro: elide)

lemma aging: "P th \<Longrightarrow> P (fst (apply_tool_aging est p th))"
  unfolding apply_tool_aging_def Let_def
  using capping ageing by (auto split: prod.splits) (metis fst_conv)+

lemma compaction: "P th \<Longrightarrow> P (fst (apply_turn_compaction est p summ sig budget th))"
  unfolding apply_turn_compaction_def compact_prefix_def
  by (auto simp: Let_def intro: cut selection_good split: option.splits sum.splits)

lemma truncation: "P th \<Longrightarrow> hard_truncate_loop est cap fuel i th c = Some (th', c') \<Longrightarrow> P th'"
proof (induction fuel arbitrary: i th c)
  case (Suc fuel)
  from Suc.prems(2) show ?case
  proof (cases rule: hard_step)
    case (3 k t)
    then show ?thesis using Suc.IH notice shorten[OF Suc.prems(1)] by blast
  qed (use Suc in auto)
qed (simp add: hard_truncate_loop.simps)

lemma hard: "P th \<Longrightarrow> apply_hard_truncation est budget th = Some (th', r) \<Longrightarrow> P th'"
  unfolding apply_hard_truncation_def
  by (auto simp: Let_def split: if_splits option.splits intro: truncation)

lemma pipeline: "P th \<Longrightarrow> govern est p summ sig budget th = Some (th', r) \<Longrightarrow> P th'"
proof -
  assume P: "P th" and g: "govern est p summ sig budget th = Some (th', r)"
  obtain th1 c1 m1 where a: "apply_tool_aging est p th = (th1, c1, m1)" by (metis prod_cases3)
  obtain th2 r2 where c: "apply_turn_compaction est p summ sig budget th1 = (th2, r2)" by force
  have "P th1" using aging[OF P, of p] a by simp
  moreover from this have "P th2" using compaction[of th1 p summ sig budget] c by simp
  ultimately show ?thesis using P g
    by (auto simp: govern_def Let_def a c split: if_splits sum.splits option.splits intro: hard)
qed

end

text \<open>It is enough to look at texts and token counts for the first two.\<close>

locale governed =
  fixes est :: estimate and P :: "thread \<Rightarrow> bool"
  assumes shape: "P th \<Longrightarrow> same_shape th th' \<Longrightarrow> P th'"
    and cutting: "P th \<Longrightarrow> good_cut n th \<Longrightarrow> P (replace_prefix_with_compaction est (int n) s th)"
    and noticing: "P th \<Longrightarrow> P (add_notice est c th)"

sublocale governed \<subseteq> governor_steps
  by unfold_locales (auto intro: shape cutting noticing same_shape_elide same_shape_truncate)

end
