(* ===== verification/Governor_Keeps.thy ===== *)
theory Governor_Keeps
  imports Governor_Inv "HOL-Library.Sublist"
begin

text \<open>
  The three contracts the pipeline keeps: well-formedness with the open turn last, the pairing of
  tool results, and every entry of the open turn.
\<close>

section \<open>The open turn comes last\<close>

text \<open>Behind an entry of the open turn stand only entries of that turn and summaries.\<close>

definition open_last :: "jsstring option \<Rightarrow> thread_entry list \<Rightarrow> bool" where
  "open_last op es \<longleftrightarrow> sorted_wrt (\<lambda>a b. Some (turn_id a) = op \<longrightarrow> Some (turn_id b) = op \<or> kind b = KCompaction) es"

definition thread_ok :: "thread \<Rightarrow> bool" where
  "thread_ok th \<longleftrightarrow> thread_wf th \<and> open_last (open_turn th) (entries th)"

lemma open_last_None [simp]: "open_last None es"
  unfolding open_last_def by (induction es) auto

lemma open_last_fresh: "\<forall>e \<in> set es. turn_id e \<noteq> t \<Longrightarrow> open_last (Some t) es"
  unfolding open_last_def by (induction es) auto

lemma open_last_snoc:
  "open_last op es \<Longrightarrow> Some (turn_id e) = op \<or> kind e = KCompaction \<Longrightarrow> open_last op (es @ [e])"
  by (auto simp: open_last_def sorted_wrt_append)

lemma open_last_Cons: "open_last op es \<Longrightarrow> Some (turn_id e) \<noteq> op \<Longrightarrow> open_last op (e # es)"
  by (simp add: open_last_def)

lemma open_last_drop: "open_last op es \<Longrightarrow> open_last op (drop n es)"
  by (simp add: open_last_def sorted_wrt_drop)

lemma open_last_filter: "open_last op es \<Longrightarrow> open_last op (filter p es)"
  by (simp add: open_last_def sorted_wrt_filter)

lemma open_last_map:
  assumes "map (\<lambda>e. (turn_id e, kind e)) es' = map (\<lambda>e. (turn_id e, kind e)) es" "open_last op es"
  shows "open_last op es'"
proof -
  let ?Q = "\<lambda>a b. Some (fst a) = op \<longrightarrow> Some (fst b) = op \<or> snd b = KCompaction"
  have "open_last op xs \<longleftrightarrow> sorted_wrt ?Q (map (\<lambda>e. (turn_id e, kind e)) xs)" for xs
    by (simp add: open_last_def sorted_wrt_map)
  with assms show ?thesis by simp
qed

lemma open_last_shape: "map skel es' = map skel es \<Longrightarrow> open_last op es \<Longrightarrow> open_last op es'"
  by (rule open_last_map[OF skel_map]) (auto dest: skel_eqD(2,3))

lemma cut_not_open:
  assumes "open_last (open_turn th) (entries th)" "range_ok th r" "i < range_end r"
  shows "Some (turn_id (entries th ! i)) \<noteq> open_turn th"
proof
  assume op: "Some (turn_id (entries th ! i)) = open_turn th"
  obtain m where m: "range_start r \<le> m" "m < range_end r" "kind (entries th ! m) \<noteq> KCompaction"
    using assms(2) by (auto simp: range_ok_def)
  have tm: "Some (turn_id (entries th ! m)) \<noteq> open_turn th" and len: "m < length (entries th)"
    using assms(2) m by (auto simp: range_ok_def)
  have "\<not> range_start r \<le> i" using op assms(2,3) by (auto simp: range_ok_def)
  then have "i < m" using m by simp
  with assms(1) len op have "Some (turn_id (entries th ! m)) = open_turn th \<or> kind (entries th ! m) = KCompaction"
    unfolding open_last_def by (blast dest: sorted_wrt_nth_less)
  with m tm show False by blast
qed

lemma good_cut_not_open:
  assumes "open_last (open_turn th) (entries th)" "good_cut n th"
  shows "n \<le> length (entries th)" "\<forall>e \<in> set (take n (entries th)). Some (turn_id e) \<noteq> open_turn th"
proof -
  obtain r where r: "range_ok th r" "n \<le> range_end r" using assms(2) by (auto simp: good_cut_def)
  then show "n \<le> length (entries th)" by (auto simp: range_ok_def)
  show "\<forall>e \<in> set (take n (entries th)). Some (turn_id e) \<noteq> open_turn th"
  proof
    fix e assume "e \<in> set (take n (entries th))"
    then obtain i where "i < n" "e = entries th ! i" by (auto simp: in_set_conv_nth)
    then show "Some (turn_id e) \<noteq> open_turn th" using cut_not_open[OF assms(1) r(1)] r(2) by auto
  qed
qed

section \<open>The entries an operation adds\<close>

lemma entries_add_notice:
  "\<exists>e. entries (add_notice est c th) = entries th @ [e] \<and> kind e = KNotice
    \<and> open_turn (add_notice est c th) = open_turn th
    \<and> (\<forall>t. open_turn th = Some t \<longrightarrow> turn_id e = t)"
  by (auto simp: add_notice_def next_turn_id_def ensure_turn_def append_entry_def Let_def split: option.splits)

lemma compaction_turn_not_open:
  assumes "thread_wf th"
  shows "Some (js ''compaction-'' @ turn_name (Suc (turn_counter th))) \<noteq> open_turn th"
proof
  assume "Some (js ''compaction-'' @ turn_name (Suc (turn_counter th))) = open_turn th"
  then have "js ''compaction-'' @ turn_name (Suc (turn_counter th)) \<in> set (map_keys (turns th))"
    using open_turn_key[OF assms] by simp
  then have "turn_known (turn_counter th) (js ''compaction-'' @ turn_name (Suc (turn_counter th)))"
    using assms unfolding thread_wf_def turns_wf_def by blast
  then show False by simp
qed

section \<open>Well-formedness\<close>

lemma thread_wf_shape:
  assumes "thread_wf th" "same_shape th th'"
  shows "thread_wf th'"
proof -
  have s: "map skel (entries th') = map skel (entries th)" using assms(2) by (simp add: same_shape_def)
  have "map entry_id (entries th') = map entry_id (entries th)"
    "map turn_id (entries th') = map turn_id (entries th)"
    using skel_map[OF s] by (auto dest: skel_eqD)
  moreover from this have "entry_id ` set (entries th') = entry_id ` set (entries th)"
    "turn_id ` set (entries th') = turn_id ` set (entries th)"
    by (metis list.set_map)+
  moreover have "list_all (\<lambda>e. entry_role_compatible (kind e) (message e)) (entries th')
      = list_all (\<lambda>e. entry_role_compatible (kind e) (message e)) (entries th)"
    by (rule skel_all[OF s]) (rule skel_eqD(7))
  moreover have "list_all (\<lambda>e. \<exists>k \<le> n. entry_id e = entry_name k) (entries th')
      = list_all (\<lambda>e. \<exists>k \<le> n. entry_id e = entry_name k) (entries th)" for n
    by (rule skel_all[OF s]) (drule skel_eqD(1), simp)
  ultimately show ?thesis using assms
    by (simp add: thread_wf_def entries_wf_def same_shape_def ball_conj_distrib list_all_iff)
qed

lemma thread_ok_cut:
  assumes "thread_ok th" "good_cut n th"
  shows "thread_ok (replace_prefix_with_compaction est (int n) s th)"
proof -
  note ok = assms(1)[unfolded thread_ok_def]
  note cut = good_cut_not_open[OF conjunct2[OF ok] assms(2)]
  have n: "0 < n" using assms(2) by (simp add: good_cut_def)
  have "compaction_keeps_open (int n) th"
    using cut(2) by (auto simp: compaction_keeps_open_def split: option.splits)
  then have wf: "thread_wf (replace_prefix_with_compaction est (int n) s th)"
    using ok replace_prefix_wf by blast
  obtain c where c: "turn_id c = js ''compaction-'' @ turn_name (Suc (turn_counter th))"
      "entries (replace_prefix_with_compaction est (int n) s th) = c # drop n (entries th)"
      "open_turn (replace_prefix_with_compaction est (int n) s th) = open_turn th"
    using entries_replace_prefix[OF n cut(1)] by blast
  have "open_last (open_turn th) (c # drop n (entries th))"
    using ok compaction_turn_not_open[of th] by (intro open_last_Cons open_last_drop) (auto simp: c)
  with wf show ?thesis by (simp add: thread_ok_def c)
qed

lemma thread_ok_notice: "thread_ok th \<Longrightarrow> thread_ok (add_notice est c th)"
proof -
  assume ok: "thread_ok th"
  obtain e where e: "entries (add_notice est c th) = entries th @ [e]"
      "open_turn (add_notice est c th) = open_turn th" "\<forall>t. open_turn th = Some t \<longrightarrow> turn_id e = t"
    using entries_add_notice by blast
  have "open_last (open_turn th) (entries th @ [e])"
  proof (cases "open_turn th")
    case (Some t)
    then show ?thesis using ok e(3) by (intro open_last_snoc) (auto simp: thread_ok_def)
  qed simp
  then show ?thesis using ok add_notice_wf by (simp add: thread_ok_def e)
qed

interpretation gov_ok: governed est thread_ok for est
proof (unfold_locales, goal_cases)
  case (1 th th')
  then show ?case
    using thread_wf_shape open_last_shape by (auto simp: thread_ok_def same_shape_def)
qed (auto intro: thread_ok_cut thread_ok_notice)

section \<open>Pairing\<close>

interpretation gov_pair: governed est "\<lambda>th. paired (entries th) \<and> thread_ok th" for est
proof (unfold_locales, goal_cases)
  case (1 th th')
  then have "thread_ok th'" using gov_ok.shape by blast
  then show ?case using 1 paired_cong[of "entries th" "entries th'"] by (auto simp: same_shape_def)
next
  case (2 th n s)
  then have n: "0 < n" "n \<le> length (entries th)" and safe: "safe_cut n (entries th)"
    using good_cut_not_open by (auto simp: good_cut_def thread_ok_def)
  obtain c where c: "kind c = KCompaction"
      "entries (replace_prefix_with_compaction est (int n) s th) = c # drop n (entries th)"
    using entries_replace_prefix[OF n] by blast
  have "paired (c # drop n (entries th))" using 2 safe c(1) by (auto intro: paired_Cons paired_drop)
  then show ?case using 2 thread_ok_cut by (simp add: c)
next
  case (3 th c)
  then show ?case using entries_add_notice[of est c th] thread_ok_notice by (auto intro!: paired_snoc)
qed

section \<open>The open turn is not touched\<close>

text \<open>The entries of a turn up to their texts and token counts.\<close>

definition turn_shape :: "jsstring \<Rightarrow> thread \<Rightarrow> (jsstring \<times> jsstring \<times> entry_kind \<times> bool \<times> tool_call list \<times> jsstring option \<times> chat_role option) list" where
  "turn_shape t th = map skel (entries_for_turn t th)"

interpretation gov_open: governed est
    "\<lambda>th. thread_ok th \<and> open_turn th = Some t \<and> prefix xs (turn_shape t th)" for est t xs
proof (unfold_locales, goal_cases)
  case (1 th th')
  then have "map skel (entries th') = map skel (entries th)" by (simp add: same_shape_def)
  then have "turn_shape t th' = turn_shape t th"
    unfolding turn_shape_def entries_for_turn_def by (rule skel_filter) (drule skel_eqD(2), simp)
  then show ?case using 1 gov_ok.shape by (auto simp: same_shape_def)
next
  case (2 th n s)
  then have n: "0 < n" and len: "n \<le> length (entries th)"
    and no: "\<forall>e \<in> set (take n (entries th)). turn_id e \<noteq> t"
    using good_cut_not_open[of th n] by (auto simp: good_cut_def thread_ok_def)
  obtain c where c: "turn_id c = js ''compaction-'' @ turn_name (Suc (turn_counter th))"
      "entries (replace_prefix_with_compaction est (int n) s th) = c # drop n (entries th)"
      "open_turn (replace_prefix_with_compaction est (int n) s th) = open_turn th"
    using entries_replace_prefix[OF n len] by blast
  have "turn_id c \<noteq> t" using compaction_turn_not_open[of th] 2 by (auto simp: c(1) thread_ok_def)
  moreover have "filter (\<lambda>e. turn_id e = t) (drop n (entries th)) = filter (\<lambda>e. turn_id e = t) (entries th)"
    using no by (metis (mono_tags, lifting) append_Nil append_take_drop_id filter_append filter_False)
  ultimately have "turn_shape t (replace_prefix_with_compaction est (int n) s th) = turn_shape t th"
    by (simp add: turn_shape_def entries_for_turn_def c(2))
  then show ?case using 2 thread_ok_cut by (auto simp: c(3))
next
  case (3 th c)
  then show ?case using entries_add_notice[of est c th] thread_ok_notice[of th est c]
    by (auto simp: turn_shape_def entries_for_turn_def prefix_def)
qed

section \<open>Every thread the operations build\<close>

lemma open_last_append:
  "open_last (open_turn th) (entries th) \<Longrightarrow> (\<forall>u. open_turn th = Some u \<longrightarrow> t = u \<or> k = KCompaction) \<Longrightarrow>
   open_last (open_turn th) (entries (append_entry est t k m i s th))"
  by (cases "open_turn th") (auto simp: append_entry_def intro!: open_last_snoc)

lemma open_turn_simps [simp]:
  "open_turn (ensure_turn t th) = open_turn th" "entries (ensure_turn t th) = entries th"
  "open_turn (add_compaction est s None th) = open_turn th"
  "open_turn (set_status t st th) = open_turn th" "entries (set_status t st th) = entries th"
  by (simp_all add: ensure_turn_def add_compaction_def next_turn_id_def set_status_def)

lemma restore_loop_closed:
  "open_turn th = None \<Longrightarrow> open_turn (snd (snd (restore_loop est ms n c th))) = None"
proof (induction ms arbitrary: n c th rule: length_induct)
  case (1 ms)
  then have IH: "length ys < length ms \<Longrightarrow> open_turn t = None \<Longrightarrow>
      open_turn (snd (snd (restore_loop est ys m d t))) = None" for ys m d t by blast
  show ?case
  proof (cases ms)
    case (Cons m xs)
    note IH' = IH[unfolded Cons length_Cons] and step = restore_loop.simps(2) next_turn_id_def prod.case Let_def
    show ?thesis
    proof (cases xs)
      case Nil
      then show ?thesis using 1(2) by (simp add: Cons next_turn_id_def Let_def)
    next
      case (Cons a ys)
      have xs: "length xs < Suc (length xs)" and ys: "length ys < Suc (length xs)" by (simp_all add: Cons)
      note r = IH'[OF xs] IH'[OF ys]
      show ?thesis using 1(2) unfolding \<open>ms = m # xs\<close> step
        by (simp only: Cons list.case split: if_split) (simp add: r[unfolded Cons] del: restore_loop.simps)
    qed
  qed (use 1 in simp)
qed

lemma open_last_begin:
  assumes wf: "thread_wf th" and b: "begin_turn est u i th = Inr th'"
  shows "open_last (open_turn th') (entries th')"
proof -
  let ?t = "turn_name (Suc (turn_counter th))"
  let ?th = "th\<lparr>turn_counter := Suc (turn_counter th), turns := map_set ?t TOpen (turns th), open_turn := Some ?t\<rparr>"
  have "turn_id e \<noteq> ?t" if "e \<in> set (entries th)" for e
  proof -
    have "turn_id e \<in> set (map_keys (turns th))" using thread_wfD(3)[OF wf] that by blast
    then have "turn_known (turn_counter th) (turn_id e)"
      using wf unfolding thread_wf_def turns_wf_def by blast
    then show ?thesis by auto
  qed
  then have ol: "open_last (open_turn ?th) (entries ?th)" by (simp add: open_last_fresh)
  obtain m where "th' = append_entry est ?t KUser m None None ?th"
    using b by (auto simp: begin_turn_def next_turn_id_def Let_def split: if_splits)
  then show ?thesis using open_last_append[OF ol] by simp
qed

lemma open_last_result:
  assumes ol: "open_last (open_turn th) (entries th)" and a: "append_tool_result est inp th = Inr th'"
  shows "open_last (open_turn th') (entries th')"
proof -
  obtain t where t: "open_turn th = Some t"
    using a by (auto simp: append_tool_result_def require_open_turn_def split: option.splits)
  then obtain m i where th': "th' = update_last (\<lambda>e. e\<lparr>original_tokens := Some (tokens_est e)\<rparr>)
      (append_entry est t KToolResult m (Some i) (tr_summary inp) th)"
    using a by (auto simp: append_tool_result_def require_open_turn_def Let_def)
  have "open_last (open_turn th) (entries (append_entry est t KToolResult m (Some i) (tr_summary inp) th))"
    using ol t by (intro open_last_append) auto
  then show ?thesis unfolding th'
    by (auto simp: update_last_def append_entry_def open_last_def sorted_wrt_append)
qed

lemma entries_removed: "entries (foldl (\<lambda>s t. remove_turn t s) x ts) = entries x"
  by (induction ts arbitrary: x) (auto simp: remove_turn_def)

lemma open_removed:
  "open_turn (foldl (\<lambda>s t. remove_turn t s) x ts) = open_turn x \<or> open_turn (foldl (\<lambda>s t. remove_turn t s) x ts) = None"
proof (induction ts arbitrary: x)
  case (Cons t ts)
  then show ?case using Cons[of "remove_turn t x"] by (auto simp: remove_turn_def)
qed simp

lemma open_last_removed:
  "open_last (open_turn th) (entries th) \<Longrightarrow> open_last (open_turn (remove_turn_entries ts th)) (entries (remove_turn_entries ts th))"
  unfolding remove_turn_entries_def
  using open_removed[of "th\<lparr>entries := filter (\<lambda>e. turn_id e \<notin> set ts) (entries th)\<rparr>" ts]
  by (auto simp: entries_removed open_last_filter)

interpretation tho: machine "thread_exec est" thread_ok for est
proof (unfold_locales, goal_cases)
  case (1 th c th')
  then have wf: "thread_wf th'" using th.exec_inv by (auto simp: thread_ok_def)
  have ol: "open_last (open_turn th) (entries th)" and wf0: "thread_wf th" using 1 by (auto simp: thread_ok_def)
  note ex = 1(2)
  have "open_last (open_turn th') (entries th')"
  proof (cases c)
    case (BeginTurn u i)
    then show ?thesis using ex open_last_begin[OF wf0] by simp
  next
    case (RestoreConversation ms)
    then show ?thesis using ex restore_loop_closed[of "clear_thread th" est ms 0 False]
      by (auto simp: restore_from_conversation_def clear_thread_def)
  next
    case (AddNotice c')
    then show ?thesis using 1 thread_ok_notice by (auto simp: thread_ok_def)
  next
    case (RemoveTurns ts)
    then show ?thesis using ex open_last_removed[OF ol] by auto
  next
    case (AppendToolResult inp)
    then show ?thesis using ex open_last_result[OF ol] by simp
  next
    case (AppendAssistant t cs)
    then show ?thesis using ex ol
      by (auto simp: append_assistant_def require_open_turn_def append_entry_def split: option.splits
          intro!: open_last_snoc)
  next
    case (AddCompaction s)
    then show ?thesis using ex ol
      by (auto simp: add_compaction_def next_turn_id_def ensure_turn_def append_entry_def intro!: open_last_snoc)
  next
    case Reestimate
    then show ?thesis using ex open_last_map[OF _ ol, of "entries th'"]
      by (auto simp: reestimate_tokens_def Let_def)
  next
    case (ElideToolResult i c')
    then show ?thesis using ex 1(1) gov_ok.shape[OF _ same_shape_elide] by (auto simp: thread_ok_def)
  next
    case (TruncateEntry i c')
    then show ?thesis using ex 1(1) gov_ok.shape[OF _ same_shape_truncate] by (auto simp: thread_ok_def)
  next
    case CommitTurn
    then show ?thesis using ex by (auto simp: commit_turn_def split: sum.splits)
  next
    case (AbortTurn r)
    then show ?thesis using ex by (auto simp: abort_turn_def Let_def split: sum.splits)
  next
    case (InterruptTurn r)
    then show ?thesis using ex by (auto simp: interrupt_turn_def abort_turn_def Let_def split: sum.splits)
  next
    case (SetIteration i)
    then show ?thesis using ex ol by (auto simp: set_current_iteration_def)
  next
    case ClearThread
    then show ?thesis using ex by (auto simp: clear_thread_def)
  qed
  with wf show ?case by (simp add: thread_ok_def)
qed

lemma new_thread_ok: "thread_ok (new_thread ec tc)"
  by (simp add: thread_ok_def new_thread_wf) (simp add: new_thread_def)

end
