(* ===== verification/Errors.thy ===== *)
theory Errors
  imports JsValue Complex_Main
begin

text \<open>
  Values a promise rejects with, the classification of \<open>errors/runtimeError.ts\<close>, and the
  cancellation helpers of \<open>abort.ts\<close>.

  A thrown value is an \<open>Error\<close> object or something else; of the latter the code reads the text
  \<open>String(value)\<close> only. The fields \<open>status\<close> and \<open>code\<close> are read from any object.
\<close>

section \<open>Thrown values\<close>

record thrown =
  is_error :: bool
  err_name :: jsstring
  err_text :: jsstring          \<comment> \<open>\<open>message\<close> of an \<open>Error\<close>, else \<open>String(value)\<close>\<close>
  err_status :: "rat option"     \<comment> \<open>a \<open>status\<close> field that is a number\<close>
  err_code :: "jsstring option"  \<comment> \<open>\<open>String(code)\<close> of an object that has the field\<close>
  is_boundary :: bool            \<comment> \<open>an instance of \<open>ToolBoundaryError\<close>\<close>

definition plain_error :: "jsstring \<Rightarrow> jsstring \<Rightarrow> thrown" where
  "plain_error nm msg = \<lparr>is_error = True, err_name = nm, err_text = msg, err_status = None,
     err_code = None, is_boundary = False\<rparr>"

definition error_message :: "thrown \<Rightarrow> jsstring" where
  "error_message e = err_text e"

definition is_error_named :: "thrown \<Rightarrow> jsstring \<Rightarrow> bool" where
  "is_error_named e nm \<longleftrightarrow> is_error e \<and> err_name e = nm"

section \<open>Classification\<close>

datatype error_source = FromModel | FromTool | FromMcp

datatype error_category = CCancelled | CPermission | CValidation | CNotFound | CTimeout
  | CAuthentication | CRateLimit | CUnavailable | CProtocol | CUnknown

record classification =
  c_source :: error_source
  c_category :: error_category
  c_retryable :: bool
  c_recovery :: jsstring

definition classified :: "error_source \<Rightarrow> error_category \<Rightarrow> bool \<Rightarrow> jsstring \<Rightarrow> classification" where
  "classified s c r t = \<lparr>c_source = s, c_category = c, c_retryable = r, c_recovery = t\<rparr>"

definition classify_runtime_error :: "thrown \<Rightarrow> error_source \<Rightarrow> classification" where
  "classify_runtime_error e src =
     (let name = (if is_error e then err_name e else []);
          message = to_lower (err_text e);
          has = (\<lambda>t. has_sub message (js t));
          status = err_status e
      in if name = js ''AbortError'' \<or> has ''aborted'' \<or> has ''cancelled''
         then classified src CCancelled False ([0x8BE5, 0x64CD, 0x4F5C, 0x5DF2, 0x53D6, 0x6D88, 0xFF1B, 0x786E, 0x8BA4, 0x4ECD, 0x9700, 0x6267, 0x884C, 0x540E, 0x91CD, 0x65B0, 0x53D1, 0x8D77, 0x3002])
         else if name = js ''ToolPermissionError'' \<or> has ''requires approval'' \<or> has ''denied by policy''
         then classified src CPermission False ([0x68C0, 0x67E5] @ js '' Cloud '' @ [0x5DE5, 0x5177, 0x7B56, 0x7565, 0xFF1B, 0x5916, 0x90E8, 0x64CD, 0x4F5C, 0x9700, 0x8981, 0x65F6, 0x7531, 0x7528, 0x6237, 0x660E, 0x786E, 0x786E, 0x8BA4, 0x3002])
         else if name = js ''ToolValidationError'' \<or> has ''invalid input''
         then classified src CValidation False ([0x4FEE, 0x6B63, 0x8C03, 0x7528, 0x53C2, 0x6570, 0x540E, 0x518D, 0x8BD5, 0xFF0C, 0x4E0D, 0x8981, 0x539F, 0x6837, 0x91CD, 0x653E, 0x3002])
         else if name = js ''ToolNotFoundError'' \<or> (src \<noteq> FromModel \<and> has ''not found'')
         then classified src CNotFound False ([0x5237, 0x65B0, 0x53EF, 0x7528, 0x5DE5, 0x5177, 0x5217, 0x8868, 0x5E76, 0x6539, 0x7528, 0x5F53, 0x524D, 0x5B58, 0x5728, 0x7684, 0x5DE5, 0x5177, 0x3002])
         else if src = FromModel \<and> (status = Some 404 \<or> has ''not found'')
         then classified src CNotFound False ([0x68C0, 0x67E5, 0x6A21, 0x578B, 0x540D, 0x79F0, 0x3001] @ js ''Provider '' @ [0x548C] @ js '' base URL '' @ [0x914D, 0x7F6E, 0x3002])
         else if name = js ''ToolTimeoutError'' \<or> status = Some 408 \<or> has ''timed out'' \<or> has ''timeout''
         then classified src CTimeout True ([0x786E, 0x8BA4, 0x5916, 0x90E8, 0x670D, 0x52A1, 0x6216, 0x8FDB, 0x7A0B, 0x72B6, 0x6001, 0xFF0C, 0x9000, 0x907F, 0x540E, 0x6709, 0x9650, 0x91CD, 0x8BD5, 0x3002])
         else if status = Some 401 \<or> status = Some 403 \<or> has ''api key'' \<or> has ''unauthorized''
         then classified src CAuthentication False ([0x68C0, 0x67E5, 0x51ED, 0x636E, 0x3001] @ js ''base URL '' @ [0x548C, 0x670D, 0x52A1, 0x6743, 0x9650, 0x3002])
         else if status = Some 429 \<or> has ''rate limit''
         then classified src CRateLimit True ([0x6309, 0x670D, 0x52A1, 0x7AEF, 0x5EFA, 0x8BAE, 0x9000, 0x907F, 0x540E, 0x6709, 0x9650, 0x91CD, 0x8BD5, 0x3002])
         else if (case status of Some n \<Rightarrow> 500 \<le> n | None \<Rightarrow> False) \<or> has ''not running'' \<or> has ''closed''
         then classified src CUnavailable True ([0x68C0, 0x67E5, 0x670D, 0x52A1, 0x8FDB, 0x7A0B, 0x6216, 0x7F51, 0x7EDC, 0x8FDE, 0x901A, 0x6027, 0xFF0C, 0x6062, 0x590D, 0x540E, 0x6709, 0x9650, 0x91CD, 0x8BD5, 0x3002])
         else if src = FromMcp \<or> has ''protocol'' \<or> has ''json-rpc''
         then classified src CProtocol False ([0x68C0, 0x67E5] @ js '' MCP '' @ [0x670D, 0x52A1, 0x7248, 0x672C, 0x3001, 0x4F20, 0x8F93, 0x548C, 0x8FD4, 0x56DE, 0x7ED3, 0x6784, 0x540E, 0x518D, 0x8BD5, 0x3002])
         else classified src CUnknown False ([0x4FDD, 0x7559, 0x539F, 0x59CB, 0x9519, 0x8BEF, 0x8BC1, 0x636E, 0xFF0C, 0x8C03, 0x6574, 0x7B56, 0x7565, 0x6216, 0x914D, 0x7F6E, 0x540E, 0x518D, 0x8BD5, 0x3002]))"

section \<open>Cancellation\<close>

text \<open>The reason of a signal: none, an \<open>Error\<close>, a string, or another value with its \<open>String\<close> text.\<close>

datatype abort_reason_value = NoReason | ErrorReason thrown | StringReason jsstring | OtherReason jsstring

record abort_signal =
  aborted :: bool
  reason_of :: abort_reason_value

definition operation_aborted :: "jsstring \<Rightarrow> thrown" where
  "operation_aborted msg = plain_error (js ''AbortError'') msg"

definition abort_reason :: "abort_signal option \<Rightarrow> jsstring \<Rightarrow> thrown" where
  "abort_reason sig fallback = (case sig of
     None \<Rightarrow> operation_aborted fallback
   | Some s \<Rightarrow> (case reason_of s of
       ErrorReason e \<Rightarrow> e
     | StringReason t \<Rightarrow> operation_aborted t
     | OtherReason t \<Rightarrow> operation_aborted t
     | NoReason \<Rightarrow> operation_aborted fallback))"

definition ABORTED_TEXT :: jsstring where
  "ABORTED_TEXT = js ''Operation aborted''"

definition is_aborted :: "abort_signal option \<Rightarrow> bool" where
  "is_aborted sig = (case sig of Some s \<Rightarrow> aborted s | None \<Rightarrow> False)"

definition throw_if_aborted :: "abort_signal option \<Rightarrow> thrown + unit" where
  "throw_if_aborted sig = (if is_aborted sig then Inl (abort_reason sig ABORTED_TEXT) else Inr ())"

definition is_operation_aborted :: "thrown \<Rightarrow> abort_signal option \<Rightarrow> bool" where
  "is_operation_aborted e sig \<longleftrightarrow> is_aborted sig \<or> is_error e \<and> err_name e = js ''AbortError''"

definition abort_message :: "abort_signal option \<Rightarrow> jsstring \<Rightarrow> jsstring" where
  "abort_message sig fallback = (case sig of
     None \<Rightarrow> fallback
   | Some s \<Rightarrow> (case reason_of s of
       ErrorReason e \<Rightarrow> if js_trim (err_text e) \<noteq> [] then err_text e else fallback
     | StringReason t \<Rightarrow> if js_trim t \<noteq> [] then t else fallback
     | _ \<Rightarrow> fallback))"

text \<open>
  \<open>raceAbort\<close>: what can happen while the promise is pending, in the order the event loop
  delivers it. The abort event exists only when a signal was given, the idle event only when a
  positive idle time was. The closure variable \<open>settled\<close> makes every later event void.
\<close>

datatype 'a race_event = RaceAbort | RaceIdle | RaceResolve 'a | RaceReject thrown

record 'a race =
  settled :: bool
  outcome :: "(thrown + 'a) option"

record race_options =
  idle_ms :: "nat option"
  idle_message :: "jsstring option"

definition idle_limit :: "race_options option \<Rightarrow> nat option" where
  "idle_limit opts = (case opts of None \<Rightarrow> None | Some o' \<Rightarrow>
     (case idle_ms o' of Some n \<Rightarrow> if 0 < n then Some n else None | None \<Rightarrow> None))"

definition settle :: "(thrown + 'a) \<Rightarrow> 'a race \<Rightarrow> 'a race" where
  "settle r st = (if settled st then st else st\<lparr>settled := True, outcome := Some r\<rparr>)"

definition idle_error :: "race_options option \<Rightarrow> nat \<Rightarrow> thrown" where
  "idle_error opts n = operation_aborted (case opts of
       Some o' \<Rightarrow> (case idle_message o' of Some m \<Rightarrow> m | None \<Rightarrow> js ''Idle timeout after '' @ show_nat n @ js ''ms'')
     | None \<Rightarrow> js ''Idle timeout after '' @ show_nat n @ js ''ms'')"

definition race_step ::
    "abort_signal option \<Rightarrow> race_options option \<Rightarrow> 'a race_event \<Rightarrow> 'a race \<Rightarrow> 'a race"
where
  "race_step sig opts ev st = (case ev of
     RaceAbort \<Rightarrow> (case sig of None \<Rightarrow> st | Some _ \<Rightarrow> settle (Inl (abort_reason sig ABORTED_TEXT)) st)
   | RaceIdle \<Rightarrow> (case idle_limit opts of None \<Rightarrow> st | Some n \<Rightarrow> settle (Inl (idle_error opts n)) st)
   | RaceResolve v \<Rightarrow> settle (Inr v) st
   | RaceReject e \<Rightarrow> settle (Inl e) st)"

definition race_abort ::
    "abort_signal option \<Rightarrow> race_options option \<Rightarrow> 'a race_event list \<Rightarrow> (thrown + 'a) option"
where
  "race_abort sig opts evs =
     (if is_aborted sig then Some (Inl (abort_reason sig ABORTED_TEXT))
      else outcome (foldl (\<lambda>st ev. race_step sig opts ev st) \<lparr>settled = False, outcome = None\<rparr> evs))"

text \<open>
  \<open>abortableAsyncIterable\<close>: every \<open>next()\<close> of the source is raced; the steps are given by the
  events of their races, with the state of the signal when the step begins. The result is what
  was yielded and how the iteration ended: returned, thrown, or still waiting.
\<close>

datatype iterate_end = Returned | Threw thrown | Waiting

fun iterate_abortable ::
    "race_options option \<Rightarrow> (abort_signal option \<times> 'a option race_event list) list \<Rightarrow> 'a list \<times> iterate_end"
where
  "iterate_abortable opts [] = ([], Waiting)"
| "iterate_abortable opts ((sig, evs) # steps) =
     (case throw_if_aborted sig of
        Inl e \<Rightarrow> ([], Threw e)
      | Inr _ \<Rightarrow>
        (case race_abort sig opts evs of
           None \<Rightarrow> ([], Waiting)
         | Some (Inl e) \<Rightarrow> ([], Threw e)
         | Some (Inr None) \<Rightarrow> ([], Returned)
         | Some (Inr (Some v)) \<Rightarrow>
             (case iterate_abortable opts steps of (vs, en) \<Rightarrow> (v # vs, en))))"

section \<open>Laws\<close>

lemma classify_retryable:
  "c_retryable (classify_runtime_error e src) \<longleftrightarrow>
     c_category (classify_runtime_error e src) \<in> {CTimeout, CRateLimit, CUnavailable}"
  by (simp add: classify_runtime_error_def classified_def Let_def)

lemma classify_source [simp]: "c_source (classify_runtime_error e src) = src"
  by (simp add: classify_runtime_error_def classified_def Let_def)

lemma classify_cancelled:
  "is_error e \<Longrightarrow> err_name e = js ''AbortError'' \<Longrightarrow> c_category (classify_runtime_error e src) = CCancelled"
  by (simp add: classify_runtime_error_def classified_def)

text \<open>A permission or validation error is never retryable.\<close>

lemma classify_permission:
  "is_error e \<Longrightarrow> err_name e \<in> {js ''ToolPermissionError'', js ''ToolValidationError'', js ''ToolNotFoundError''} \<Longrightarrow>
   \<not> c_retryable (classify_runtime_error e src)"
  by (elim insertE emptyE conjE) (simp_all add: classify_runtime_error_def classified_def Let_def)

lemma settle_settled [simp]: "settled st \<Longrightarrow> settle r st = st"
  by (simp add: settle_def)

lemma race_settled [simp]: "settled st \<Longrightarrow> race_step sig opts ev st = st"
  by (auto simp: race_step_def split: race_event.split option.split)

lemma races_settled: "settled st \<Longrightarrow> foldl (\<lambda>st ev. race_step sig opts ev st) st evs = st"
  by (induction evs) auto

definition relevant :: "abort_signal option \<Rightarrow> race_options option \<Rightarrow> 'a race_event \<Rightarrow> (thrown + 'a) option" where
  "relevant sig opts ev = (case ev of
     RaceAbort \<Rightarrow> (if sig = None then None else Some (Inl (abort_reason sig ABORTED_TEXT)))
   | RaceIdle \<Rightarrow> map_option (\<lambda>n. Inl (idle_error opts n)) (idle_limit opts)
   | RaceResolve v \<Rightarrow> Some (Inr v)
   | RaceReject e \<Rightarrow> Some (Inl e))"

lemma race_step_relevant:
  "\<not> settled st \<Longrightarrow> race_step sig opts ev st =
     (case relevant sig opts ev of None \<Rightarrow> st | Some r \<Rightarrow> st\<lparr>settled := True, outcome := Some r\<rparr>)"
  by (auto simp: race_step_def relevant_def settle_def split: race_event.split option.split)

text \<open>The race settles with the first event that counts, and only once.\<close>

lemma race_first:
  "\<not> settled st \<Longrightarrow> outcome st = None \<Longrightarrow>
   outcome (foldl (\<lambda>st ev. race_step sig opts ev st) st evs) =
     (case List.map_filter (relevant sig opts) evs of [] \<Rightarrow> None | r # _ \<Rightarrow> Some r)"
proof (induction evs arbitrary: st)
  case (Cons ev evs)
  then show ?case
    by (cases "relevant sig opts ev")
      (simp_all add: race_step_relevant races_settled List.map_filter_simps)
qed (simp add: List.map_filter_simps)

lemma race_abort_first:
  "\<not> is_aborted sig \<Longrightarrow> race_abort sig opts evs =
     (case List.map_filter (relevant sig opts) evs of [] \<Rightarrow> None | r # _ \<Rightarrow> Some r)"
  by (simp add: race_abort_def race_first)

text \<open>With a signal no step of an iteration hangs behind an abort.\<close>

lemma race_abort_ends: "sig \<noteq> None \<Longrightarrow> RaceAbort \<in> set evs \<Longrightarrow> race_abort sig opts evs \<noteq> None"
proof (cases "is_aborted sig")
  case False
  assume "sig \<noteq> None" "RaceAbort \<in> set evs"
  then have "List.map_filter (relevant sig opts) evs \<noteq> []"
    by (auto simp: List.map_filter_def relevant_def filter_empty_conv intro!: bexI[of _ RaceAbort])
  then show ?thesis by (simp add: race_abort_first[OF False] split: list.split)
qed (simp add: race_abort_def)

lemma iterate_prefix:
  "iterate_abortable opts steps = (vs, en) \<Longrightarrow> length vs \<le> length steps"
  by (induction opts steps arbitrary: vs en rule: iterate_abortable.induct)
    (auto split: sum.splits option.splits prod.splits)

end
