(* ===== verification/Retry.thy ===== *)
theory Retry
  imports Errors
begin

text \<open>
  Retry policies of tool calls: \<open>tools/toolRetry.ts\<close>. Numbers of a policy are finite; the
  powers of the multiplier are taken exactly, so a delay is the code's up to the rounding of
  doubles.
\<close>

record retry_policy =
  max_attempts :: rat
  backoff_ms :: "rat option"
  backoff_multiplier :: "rat option"
  retry_on :: "(thrown \<Rightarrow> nat \<Rightarrow> bool) option"

datatype retry_setting = RetryUnset | RetryOff | RetryWith retry_policy

record resolved_policy =
  r_max :: nat
  r_backoff :: rat
  r_multiplier :: rat
  r_retry_on :: "thrown \<Rightarrow> nat \<Rightarrow> bool"

record attempt_failure =
  f_attempt :: nat
  f_message :: jsstring

definition RETRYABLE_ERRNO :: "jsstring list" where
  "RETRYABLE_ERRNO = map js [''EAGAIN'', ''EBUSY'', ''ETIMEDOUT'', ''ECONNRESET'', ''ECONNREFUSED'',
     ''EPIPE'', ''EIO'', ''ENFILE'', ''EMFILE'', ''EAI_AGAIN'']"

definition NON_RETRYABLE_ERRNO :: "jsstring list" where
  "NON_RETRYABLE_ERRNO = map js [''ENOENT'', ''ENOTDIR'', ''EISDIR'', ''EEXIST'', ''EPERM'', ''EACCES'',
     ''EROFS'', ''EINVAL'', ''ENAMETOOLONG'', ''ELOOP'']"

definition is_retryable_tool_error :: "thrown \<Rightarrow> bool" where
  "is_retryable_tool_error e =
     (if is_error_named e (js ''ToolValidationError'') \<or> is_error_named e (js ''ToolPermissionError'')
         \<or> is_error_named e (js ''ToolNotFoundError'') then False
      else if is_boundary e then False
      else if is_error_named e (js ''ToolTimeoutError'') then True
      else case err_code e of
          Some c \<Rightarrow> if c \<in> set NON_RETRYABLE_ERRNO then False
                    else if c \<in> set RETRYABLE_ERRNO then True else is_error e
        | None \<Rightarrow> is_error e)"

definition DEFAULT_TOOL_RETRY_POLICY :: resolved_policy where
  "DEFAULT_TOOL_RETRY_POLICY = \<lparr>r_max = 2, r_backoff = 200, r_multiplier = 2,
     r_retry_on = (\<lambda>e _. is_retryable_tool_error e)\<rparr>"

definition TIMEOUT_ONLY_RETRY_POLICY :: retry_policy where
  "TIMEOUT_ONLY_RETRY_POLICY = \<lparr>max_attempts = 2, backoff_ms = Some 200, backoff_multiplier = Some 2,
     retry_on = Some (\<lambda>e _. is_error_named e (js ''ToolTimeoutError''))\<rparr>"

definition no_retry_policy :: resolved_policy where
  "no_retry_policy = \<lparr>r_max = 1, r_backoff = 0, r_multiplier = 1, r_retry_on = (\<lambda>_ _. False)\<rparr>"

definition apply_layer :: "retry_setting \<Rightarrow> resolved_policy \<Rightarrow> resolved_policy" where
  "apply_layer l r = (case l of
     RetryWith p \<Rightarrow> \<lparr>r_max = nat (max 1 \<lfloor>max_attempts p\<rfloor>),
       r_backoff = (case backoff_ms p of Some b \<Rightarrow> b | None \<Rightarrow> r_backoff r),
       r_multiplier = (case backoff_multiplier p of Some b \<Rightarrow> b | None \<Rightarrow> r_multiplier r),
       r_retry_on = (case retry_on p of Some f \<Rightarrow> f | None \<Rightarrow> r_retry_on r)\<rparr>
   | _ \<Rightarrow> r)"

definition resolve_tool_retry_policy :: "retry_setting \<Rightarrow> retry_setting \<Rightarrow> retry_setting \<Rightarrow> resolved_policy" where
  "resolve_tool_retry_policy call_retry definition_retry gateway_retry =
     (if call_retry = RetryOff then no_retry_policy
      else if definition_retry = RetryOff then no_retry_policy
      else if gateway_retry = RetryOff \<and> definition_retry = RetryUnset then no_retry_policy
      else foldl (\<lambda>r l. apply_layer l r) DEFAULT_TOOL_RETRY_POLICY
        [gateway_retry, definition_retry, call_retry])"

definition retry_backoff_ms :: "resolved_policy \<Rightarrow> nat \<Rightarrow> nat" where
  "retry_backoff_ms p failed = nat \<lfloor>r_backoff p * r_multiplier p ^ (failed - 1) + 1 / 2\<rfloor>"

definition clip_summary :: "jsstring \<Rightarrow> jsstring" where
  "clip_summary t = (if 240 < length t then take 240 t @ js ''...'' else t)"

record failure_observation =
  o_content :: jsstring
  o_summary :: jsstring
  o_attempts :: nat
  o_max :: nat
  o_retried :: bool
  o_errors :: "attempt_failure list"

definition format_tool_failure :: "jsstring \<Rightarrow> attempt_failure list \<Rightarrow> nat \<Rightarrow> failure_observation" where
  "format_tool_failure tool failures mx =
     (let attempts = length failures;
          last_message = (if failures = [] then js ''unknown error'' else f_message (last failures));
          retried = 1 < attempts;
          content = (if \<not> retried then js ''Tool '' @ tool @ js '' failed: '' @ last_message
            else js_join [10]
              [js ''Tool '' @ tool @ js '' failed after '' @ show_nat attempts @ js '' attempts: '' @ last_message,
               js ''Last error: '' @ last_message,
               js ''Attempts: '' @ js_join (js ''; '') (map (\<lambda>f. show_nat (f_attempt f) @ js ''='' @ f_message f) failures)]);
          summary = (if \<not> retried then js ''failed: '' @ last_message
            else js ''failed after '' @ show_nat attempts @ js '' attempts: '' @ last_message)
      in \<lparr>o_content = content, o_summary = clip_summary summary, o_attempts = attempts, o_max = mx,
          o_retried = retried, o_errors = failures\<rparr>)"

section \<open>Laws\<close>

lemma apply_layer_max: "0 < r_max r \<Longrightarrow> 0 < r_max (apply_layer l r)"
  by (cases l) (auto simp: apply_layer_def)

lemma resolve_max: "0 < r_max (resolve_tool_retry_policy c d g)"
proof -
  have "0 < r_max DEFAULT_TOOL_RETRY_POLICY" by (simp add: DEFAULT_TOOL_RETRY_POLICY_def)
  then show ?thesis
    by (auto simp: resolve_tool_retry_policy_def no_retry_policy_def intro!: apply_layer_max)
qed

lemma resolve_call_off [simp]: "resolve_tool_retry_policy RetryOff d g = no_retry_policy"
  by (simp add: resolve_tool_retry_policy_def)

lemma resolve_definition_off [simp]: "resolve_tool_retry_policy c RetryOff g = no_retry_policy"
  by (simp add: resolve_tool_retry_policy_def)

text \<open>The call's own policy wins for every field it sets.\<close>

lemma resolve_call_wins:
  "d \<noteq> RetryOff \<Longrightarrow> g \<noteq> RetryOff \<or> d \<noteq> RetryUnset \<Longrightarrow>
   r_max (resolve_tool_retry_policy (RetryWith p) d g) = nat (max 1 \<lfloor>max_attempts p\<rfloor>)
   \<and> (\<forall>b. backoff_ms p = Some b \<longrightarrow> r_backoff (resolve_tool_retry_policy (RetryWith p) d g) = b)
   \<and> (\<forall>f. retry_on p = Some f \<longrightarrow> r_retry_on (resolve_tool_retry_policy (RetryWith p) d g) = f)"
  by (auto simp: resolve_tool_retry_policy_def apply_layer_def)

lemma default_backoff:
  "retry_backoff_ms DEFAULT_TOOL_RETRY_POLICY 1 = 200"
  by (simp add: retry_backoff_ms_def DEFAULT_TOOL_RETRY_POLICY_def floor_eq_iff nat_eq_iff)

lemma backoff_mono:
  assumes "0 \<le> r_backoff p" "1 \<le> r_multiplier p" "a \<le> b"
  shows "retry_backoff_ms p a \<le> retry_backoff_ms p b"
proof -
  have "r_multiplier p ^ (a - 1) \<le> r_multiplier p ^ (b - 1)"
    using assms by (intro power_increasing) auto
  then show ?thesis unfolding retry_backoff_ms_def
    using assms(1) by (intro nat_mono floor_mono add_right_mono mult_left_mono)
qed

text \<open>Logic errors are never retried by the default policy, time-outs always.\<close>

lemma never_retryable:
  "is_error e \<Longrightarrow> err_name e \<in> {js ''ToolValidationError'', js ''ToolPermissionError'', js ''ToolNotFoundError''}
     \<or> is_boundary e \<or> is_error e \<and> err_name e \<noteq> js ''ToolTimeoutError'' \<and> (\<exists>c \<in> set NON_RETRYABLE_ERRNO. err_code e = Some c) \<Longrightarrow>
   \<not> is_retryable_tool_error e"
  by (auto simp: is_retryable_tool_error_def is_error_named_def)

lemma clip_summary_length: "length (clip_summary t) \<le> 243"
  by (simp add: clip_summary_def)

end
