(* ===== verification/Gateway.thy ===== *)
theory Gateway
  imports Retry
begin

text \<open>
  The tool gateway of \<open>tools/toolGateway.ts\<close>: its registry, the approval gate, and the loop that
  executes a call with a time limit, cancellation and retries, recording every step; with the
  fixed policy of \<open>tools/saasToolPolicy.ts\<close> and the risks \<open>mcp/risk.ts\<close> gives to MCP tools.

  Input schemas, dynamic risks, redactions and summaries are functions carried by a tool's
  definition. What happens outside during a call is an environment: the signal's reason, whether
  it is aborted at each point that tests it, and for every attempt the events its race sees, in
  order. A race without a deciding event leaves the call pending (\<open>None\<close>). Clocks, durations and
  event ids are left out, and appending to the trace store succeeds.
\<close>

section \<open>Definitions and the registry\<close>

datatype tool_risk = RiskRead | RiskWrite | RiskExecute | RiskNetwork

fun risk_name :: "tool_risk \<Rightarrow> jsstring" where
  "risk_name RiskRead = js ''read''" | "risk_name RiskWrite = js ''write''"
| "risk_name RiskExecute = js ''execute''" | "risk_name RiskNetwork = js ''network''"

datatype approval_action = Allow | Ask | Deny

record approval_decision =
  ap_action :: approval_action
  ap_reason :: "jsstring option"

record tool_metadata =
  md_name :: jsstring
  md_description :: jsstring
  md_risk :: tool_risk
  md_category :: "jsstring option"
  md_parameters :: jsval

datatype result_status = StatusCompleted | StatusFailed

record handler_result =
  h_status :: "result_status option"
  h_text :: jsstring
  h_summary :: "jsstring option"
  h_data :: jsval

datatype parse_outcome = Parsed jsval | ZodFailed | ParseThrew thrown

record tool_definition =
  t_name :: jsstring
  t_description :: jsstring
  t_risk :: tool_risk
  t_category :: "jsstring option"
  t_parameters :: jsval
  t_parse :: "jsval \<Rightarrow> parse_outcome"
  t_resolve_risk :: "(jsval \<Rightarrow> tool_risk) option"
  t_redact :: "(jsval \<Rightarrow> jsval) option"
  t_timeout :: "nat option"
  t_retry :: retry_setting
  t_summarize :: "(handler_result \<Rightarrow> jsstring) option"

type_synonym approval_policy = "tool_metadata \<Rightarrow> jsval \<Rightarrow> approval_decision"

record gateway =
  g_tools :: "(jsstring, tool_definition) jsmap"
  g_policy :: approval_policy
  g_max_summary :: nat
  g_max_preview :: nat
  g_default_timeout :: "nat option"
  g_default_retry :: retry_setting

datatype call_failure = ToolNotFound jsstring | ToolInvalid jsstring
  | ToolBlocked jsstring tool_risk "jsstring option" approval_action
  | AlreadyRegistered jsstring | DuplicateReplacement jsstring | Thrown thrown

definition failure_thrown :: "call_failure \<Rightarrow> thrown" where
  "failure_thrown f = (case f of
     ToolNotFound n \<Rightarrow> plain_error (js ''ToolNotFoundError'') (js ''Tool not found: '' @ n)
   | ToolInvalid n \<Rightarrow> plain_error (js ''ToolValidationError'') (js ''Invalid input for tool: '' @ n)
   | ToolBlocked n r reason _ \<Rightarrow> plain_error (js ''ToolPermissionError'')
       (case reason of
          Some t \<Rightarrow> if t \<noteq> [] then js ''Tool blocked: '' @ n @ js '' ('' @ risk_name r @ js '') - '' @ t
                    else js ''Tool requires approval: '' @ n @ js '' ('' @ risk_name r @ js '')''
        | None \<Rightarrow> js ''Tool requires approval: '' @ n @ js '' ('' @ risk_name r @ js '')'')
   | AlreadyRegistered n \<Rightarrow> plain_error (js ''Error'') (js ''Tool already registered: '' @ n)
   | DuplicateReplacement n \<Rightarrow> plain_error (js ''Error'') (js ''Duplicate replacement tool: '' @ n)
   | Thrown e \<Rightarrow> e)"

definition default_approval_policy :: approval_policy where
  "default_approval_policy tool input =
     (if md_risk tool = RiskRead then \<lparr>ap_action = Allow, ap_reason = None\<rparr>
      else \<lparr>ap_action = Ask, ap_reason = Some (risk_name (md_risk tool) @ js '' tool requires approval'')\<rparr>)"

definition new_gateway ::
    "approval_policy option \<Rightarrow> nat option \<Rightarrow> nat option \<Rightarrow> nat option \<Rightarrow> retry_setting \<Rightarrow> gateway"
where
  "new_gateway policy summary preview timeout retry = \<lparr>g_tools = [],
     g_policy = (case policy of Some p \<Rightarrow> p | None \<Rightarrow> default_approval_policy),
     g_max_summary = (case summary of Some n \<Rightarrow> n | None \<Rightarrow> 240),
     g_max_preview = (case preview of Some n \<Rightarrow> n | None \<Rightarrow> 4000),
     g_default_timeout = timeout, g_default_retry = retry\<rparr>"

definition set_approval_policy :: "approval_policy \<Rightarrow> gateway \<Rightarrow> gateway" where
  "set_approval_policy p g = g\<lparr>g_policy := p\<rparr>"

definition register :: "tool_definition \<Rightarrow> gateway \<Rightarrow> call_failure + gateway" where
  "register d g =
     (if map_has (g_tools g) (t_name d) then Inl (AlreadyRegistered (t_name d))
      else Inr (g\<lparr>g_tools := map_set (t_name d) d (g_tools g)\<rparr>))"

definition in_category :: "jsstring \<Rightarrow> tool_definition \<Rightarrow> bool" where
  "in_category prefix d = (case t_category d of Some c \<Rightarrow> starts_with c prefix | None \<Rightarrow> False)"

text \<open>The checks of \<open>replaceCategory\<close>; \<open>seen\<close> holds the names met so far.\<close>

fun check_replacement :: "jsstring \<Rightarrow> (jsstring, tool_definition) jsmap \<Rightarrow> jsstring list \<Rightarrow> tool_definition list \<Rightarrow> call_failure option" where
  "check_replacement prefix tools seen [] = None"
| "check_replacement prefix tools seen (d # ds) =
     (if t_name d \<in> set seen then Some (DuplicateReplacement (t_name d))
      else case map_of tools (t_name d) of
          Some old \<Rightarrow> if \<not> in_category prefix old then Some (AlreadyRegistered (t_name d))
                      else check_replacement prefix tools (t_name d # seen) ds
        | None \<Rightarrow> check_replacement prefix tools (t_name d # seen) ds)"

definition replace_category :: "jsstring \<Rightarrow> tool_definition list \<Rightarrow> gateway \<Rightarrow> call_failure + gateway" where
  "replace_category prefix ds g = (case check_replacement prefix (g_tools g) [] ds of
     Some e \<Rightarrow> Inl e
   | None \<Rightarrow> Inr (g\<lparr>g_tools := foldl (\<lambda>m d. map_set (t_name d) d m)
       (filter (\<lambda>p. \<not> in_category prefix (snd p)) (g_tools g)) ds\<rparr>))"

definition definitions_by_category :: "jsstring \<Rightarrow> gateway \<Rightarrow> tool_definition list" where
  "definitions_by_category prefix g = filter (in_category prefix) (map_vals (g_tools g))"

definition to_metadata :: "tool_definition \<Rightarrow> tool_risk \<Rightarrow> tool_metadata" where
  "to_metadata d r = \<lparr>md_name = t_name d, md_description = t_description d, md_risk = r,
     md_category = t_category d, md_parameters = t_parameters d\<rparr>"

definition list_tools :: "gateway \<Rightarrow> tool_metadata list" where
  "list_tools g = map (\<lambda>d. to_metadata d (t_risk d)) (map_vals (g_tools g))"

definition parse_input :: "tool_definition \<Rightarrow> jsval \<Rightarrow> call_failure + jsval" where
  "parse_input d v = (case t_parse d v of
     Parsed w \<Rightarrow> Inr w | ZodFailed \<Rightarrow> Inl (ToolInvalid (t_name d)) | ParseThrew e \<Rightarrow> Inl (Thrown e))"

definition call_risk :: "tool_definition \<Rightarrow> jsval \<Rightarrow> tool_risk" where
  "call_risk d v = (case t_resolve_risk d of Some f \<Rightarrow> f v | None \<Rightarrow> t_risk d)"

definition trace_input :: "tool_definition \<Rightarrow> jsval \<Rightarrow> jsval" where
  "trace_input d v = (case t_redact d of Some f \<Rightarrow> f v | None \<Rightarrow> v)"

definition format_input_for_trace :: "jsstring \<Rightarrow> jsval \<Rightarrow> gateway \<Rightarrow> call_failure + jsval" where
  "format_input_for_trace name v g = (case map_of (g_tools g) name of
     None \<Rightarrow> Inl (ToolNotFound name)
   | Some d \<Rightarrow> (case parse_input d v of Inl e \<Rightarrow> Inl e | Inr w \<Rightarrow> Inr (trace_input d w)))"

definition inspect_call :: "jsstring \<Rightarrow> jsval \<Rightarrow> gateway \<Rightarrow> call_failure + tool_metadata \<times> approval_decision" where
  "inspect_call name v g = (case map_of (g_tools g) name of
     None \<Rightarrow> Inl (ToolNotFound name)
   | Some d \<Rightarrow> (case parse_input d v of
       Inl e \<Rightarrow> Inl e
     | Inr w \<Rightarrow> let tool = to_metadata d (call_risk d w) in Inr (tool, g_policy g tool w)))"

section \<open>Executing one attempt\<close>

datatype exec_event = ExecDone handler_result | ExecThrew thrown | ExecTimeout | ExecAbort

datatype call_point = AtEntry | AtAttempt | AtExecute | AfterExecute | InCatch | BeforeSleep | DuringSleep

record call_env =
  env_signal :: "abort_reason_value option"  \<comment> \<open>the signal's reason; \<open>None\<close> without a signal\<close>
  env_aborted :: "nat \<Rightarrow> call_point \<Rightarrow> bool"
  env_events :: "nat \<Rightarrow> exec_event list"

definition signal_at :: "call_env \<Rightarrow> nat \<Rightarrow> call_point \<Rightarrow> abort_signal option" where
  "signal_at env n pt = map_option (\<lambda>r. \<lparr>aborted = env_aborted env n pt, reason_of = r\<rparr>) (env_signal env)"

definition timeout_error :: "jsstring \<Rightarrow> nat \<Rightarrow> thrown" where
  "timeout_error name ms = plain_error (js ''ToolTimeoutError'')
     (js ''Tool timed out: '' @ name @ js '' after '' @ show_nat ms @ js ''ms'')"

fun exec_race :: "jsstring \<Rightarrow> nat option \<Rightarrow> abort_signal option \<Rightarrow> exec_event list \<Rightarrow> (thrown + handler_result) option" where
  "exec_race name timeout sig [] = None"
| "exec_race name timeout sig (ExecDone r # evs) = Some (Inr r)"
| "exec_race name timeout sig (ExecThrew e # evs) = Some (Inl e)"
| "exec_race name timeout sig (ExecTimeout # evs) = (case timeout of
     Some ms \<Rightarrow> Some (Inl (timeout_error name ms)) | None \<Rightarrow> exec_race name timeout sig evs)"
| "exec_race name timeout sig (ExecAbort # evs) = (case sig of
     Some s \<Rightarrow> Some (Inl (abort_reason sig ABORTED_TEXT)) | None \<Rightarrow> exec_race name timeout sig evs)"

definition execute_with_timeout :: "gateway \<Rightarrow> call_env \<Rightarrow> tool_definition \<Rightarrow> nat \<Rightarrow> (thrown + handler_result) option" where
  "execute_with_timeout g env d n = (case throw_if_aborted (signal_at env n AtExecute) of
     Inl e \<Rightarrow> Some (Inl e)
   | Inr _ \<Rightarrow> exec_race (t_name d)
       (case t_timeout d of Some ms \<Rightarrow> Some ms | None \<Rightarrow> g_default_timeout g)
       (signal_at env n AtExecute) (env_events env n))"

text \<open>The \<open>try\<close> block up to the result: the two tests of the signal and the execution between.\<close>

definition try_attempt :: "gateway \<Rightarrow> call_env \<Rightarrow> tool_definition \<Rightarrow> nat \<Rightarrow> (thrown + handler_result) option" where
  "try_attempt g env d n = (case throw_if_aborted (signal_at env n AtAttempt) of
     Inl e \<Rightarrow> Some (Inl e)
   | Inr _ \<Rightarrow> (case execute_with_timeout g env d n of
       None \<Rightarrow> None
     | Some (Inl e) \<Rightarrow> Some (Inl e)
     | Some (Inr r) \<Rightarrow> (case throw_if_aborted (signal_at env n AfterExecute) of
         Inl e \<Rightarrow> Some (Inl e) | Inr _ \<Rightarrow> Some (Inr r))))"

section \<open>Results and trace events\<close>

record tool_result =
  rs_status :: result_status
  rs_content :: jsstring
  rs_summary :: jsstring
  rs_data :: jsval

record call_meta =
  cm_tool :: jsstring
  cm_risk :: tool_risk
  cm_call_id :: "jsstring option"
  cm_iteration :: "int option"

datatype trace_event =
    TDenied call_meta "jsstring option"
  | TApprovalRequired call_meta "jsstring option" jsval
  | TStarted call_meta jsval nat
  | TSettled call_meta tool_result jsstring nat nat "classification option"
  | TCancelled call_meta jsstring nat nat
  | TRetry call_meta nat nat jsstring bool nat
  | TFailed call_meta tool_result jsstring nat nat classification

fun source_name :: "error_source \<Rightarrow> jsstring" where
  "source_name FromModel = js ''model''" | "source_name FromTool = js ''tool''" | "source_name FromMcp = js ''mcp''"

fun category_name :: "error_category \<Rightarrow> jsstring" where
  "category_name CCancelled = js ''cancelled''" | "category_name CPermission = js ''permission''"
| "category_name CValidation = js ''validation''" | "category_name CNotFound = js ''not-found''"
| "category_name CTimeout = js ''timeout''" | "category_name CAuthentication = js ''authentication''"
| "category_name CRateLimit = js ''rate-limit''" | "category_name CUnavailable = js ''unavailable''"
| "category_name CProtocol = js ''protocol''" | "category_name CUnknown = js ''unknown''"

definition class_json :: "classification \<Rightarrow> jsval" where
  "class_json c = JObj [(js ''source'', JStr (source_name (c_source c))),
     (js ''category'', JStr (category_name (c_category c))),
     (js ''retryable'', JBool (c_retryable c)), (js ''recovery'', JStr (c_recovery c))]"

definition nat_json :: "nat \<Rightarrow> jsval" where
  "nat_json n = JInt (int n)"

definition spread :: "jsval \<Rightarrow> (jsstring \<times> jsval) list \<Rightarrow> jsval" where
  "spread v ps = JObj (foldl (\<lambda>m p. map_set (fst p) (snd p) m)
     (case as_record v of Some qs \<Rightarrow> qs | None \<Rightarrow> [(js ''value'', v)]) ps)"

definition attempt_props :: "nat \<Rightarrow> nat \<Rightarrow> (jsstring \<times> jsval) list" where
  "attempt_props n mx = [(js ''attempts'', nat_json n), (js ''maxAttempts'', nat_json mx),
     (js ''retried'', JBool (1 < n))]"

definition summarize_result :: "tool_definition \<Rightarrow> handler_result \<Rightarrow> nat \<Rightarrow> jsstring" where
  "summarize_result d r mx =
     (let s = (case h_summary r of Some t \<Rightarrow> t
         | None \<Rightarrow> (case t_summarize d of Some f \<Rightarrow> f r | None \<Rightarrow> h_text r))
      in if mx < length s then take mx s @ js ''...'' else s)"

definition source_of :: "tool_definition \<Rightarrow> error_source" where
  "source_of d = (if in_category (js ''mcp:'') d then FromMcp else FromTool)"

definition RECOVERY :: jsstring where
  "RECOVERY = [10, 10] @ js ''Recovery: ''"

definition finish_attempt :: "gateway \<Rightarrow> tool_definition \<Rightarrow> call_meta \<Rightarrow> nat \<Rightarrow> nat \<Rightarrow> handler_result \<Rightarrow> trace_event \<times> tool_result" where
  "finish_attempt g d meta mx n r =
     (let merged = (if h_data r = JUndef then JObj (attempt_props n mx) else spread (h_data r) (attempt_props n mx));
          status = (case h_status r of Some s \<Rightarrow> s | None \<Rightarrow> StatusCompleted);
          res = \<lparr>rs_status = status, rs_content = h_text r, rs_summary = summarize_result d r (g_max_summary g),
                 rs_data = merged\<rparr>;
          cls = (if status = StatusFailed
                 then Some (classify_runtime_error (plain_error (js ''Error'') (rs_summary res)) (source_of d)) else None);
          res' = (case cls of None \<Rightarrow> res
             | Some c \<Rightarrow> res\<lparr>rs_content := rs_content res @ RECOVERY @ c_recovery c,
                 rs_data := spread (rs_data res) [(js ''error'', class_json c)]\<rparr>)
      in (TSettled meta res' (take (g_max_preview g) (rs_content res')) n mx cls, res'))"

definition failures_json :: "attempt_failure list \<Rightarrow> jsval" where
  "failures_json fs = JArr (map (\<lambda>f. JObj [(js ''attempt'', nat_json (f_attempt f)), (js ''message'', JStr (f_message f))]) fs)"

definition failed_result :: "jsstring \<Rightarrow> attempt_failure list \<Rightarrow> nat \<Rightarrow> classification \<Rightarrow> tool_result" where
  "failed_result name failures mx cls =
     (let ob = format_tool_failure name failures mx
      in \<lparr>rs_status = StatusFailed, rs_content = o_content ob @ RECOVERY @ c_recovery cls,
          rs_summary = o_summary ob,
          rs_data = JObj [(js ''attempts'', nat_json (o_attempts ob)), (js ''maxAttempts'', nat_json (o_max ob)),
            (js ''retried'', JBool (o_retried ob)), (js ''errors'', failures_json (o_errors ob)),
            (js ''error'', class_json cls)]\<rparr>)"

section \<open>A call\<close>

record call_input =
  ci_name :: jsstring
  ci_input :: jsval
  ci_call_id :: "jsstring option"
  ci_iteration :: "int option"
  ci_approved :: "bool option"
  ci_return_errors :: "bool option"
  ci_retry :: retry_setting

text \<open>
  The loop over attempts: \<open>left\<close> attempts remain, \<open>n\<close> is the current one. The \<open>catch\<close> block
  rethrows a cancellation, sleeps and goes on while the policy allows, and else fails. The
  rejection of the sleep leaves the \<open>catch\<close> block, so no event follows it.
\<close>

fun attempt_loop ::
    "gateway \<Rightarrow> call_env \<Rightarrow> call_input \<Rightarrow> tool_definition \<Rightarrow> call_meta \<Rightarrow> resolved_policy \<Rightarrow> nat \<Rightarrow> nat
     \<Rightarrow> attempt_failure list \<Rightarrow> thrown option \<Rightarrow> (trace_event list \<times> (call_failure + tool_result)) option"
where
  "attempt_loop g env inp d meta p 0 n fs lst =
     (let msg = (case lst of Some e \<Rightarrow> err_text e | None \<Rightarrow> js ''undefined'')
      in Some ([], if ci_return_errors inp = Some True
           then Inr \<lparr>rs_status = StatusFailed, rs_content = js ''Tool '' @ ci_name inp @ js '' failed: '' @ msg,
                  rs_summary = js ''failed: '' @ msg, rs_data = JUndef\<rparr>
           else Inl (Thrown (case lst of Some e \<Rightarrow> if is_error e then e else plain_error (js ''Error'') msg
                  | None \<Rightarrow> plain_error (js ''Error'') msg))))"
| "attempt_loop g env inp d meta p (Suc left) n fs lst =
     (case try_attempt g env d n of
        None \<Rightarrow> None
      | Some (Inr r) \<Rightarrow> (case finish_attempt g d meta (r_max p) n r of (ev, res) \<Rightarrow> Some ([ev], Inr res))
      | Some (Inl e) \<Rightarrow>
        (let sig = signal_at env n InCatch in
         if is_operation_aborted e sig
         then let msg = abort_message sig ([0x7528, 0x6237, 0x4E2D, 0x65AD])
              in Some ([TCancelled meta msg n (r_max p)], Inl (Thrown (abort_reason sig msg)))
         else
           let cls = classify_runtime_error e (source_of d);
               fs' = fs @ [\<lparr>f_attempt = n, f_message = err_text e\<rparr>]
           in if n < r_max p \<and> r_retry_on p e n
              then let delay = retry_backoff_ms p n;
                       ev = TRetry meta n (r_max p) (err_text e) True delay
                   in if 0 < delay \<and> is_aborted (signal_at env n BeforeSleep)
                      then Some ([ev], Inl (Thrown (abort_reason (signal_at env n BeforeSleep) ABORTED_TEXT)))
                      else if 0 < delay \<and> is_aborted (signal_at env n DuringSleep)
                      then Some ([ev], Inl (Thrown (abort_reason (signal_at env n DuringSleep) ABORTED_TEXT)))
                      else map_option (\<lambda>(evs, r). (ev # evs, r))
                        (attempt_loop g env inp d meta p left (Suc n) fs' (Some e))
              else
                let retries = (if n < r_max p then [TRetry meta n (r_max p) (err_text e) False 0] else []);
                    failed = failed_result (ci_name inp) fs' (r_max p) cls
                in Some (retries @ [TFailed meta failed (err_text e) (length fs') (r_max p) cls],
                     if ci_return_errors inp = Some True then Inr failed else Inl (Thrown e))))"

definition call_policy :: "gateway \<Rightarrow> call_input \<Rightarrow> tool_definition \<Rightarrow> resolved_policy" where
  "call_policy g inp d = resolve_tool_retry_policy (ci_retry inp) (t_retry d) (g_default_retry g)"

definition call_meta_of :: "call_input \<Rightarrow> tool_risk \<Rightarrow> call_meta" where
  "call_meta_of inp r = \<lparr>cm_tool = ci_name inp, cm_risk = r,
     cm_call_id = (case ci_call_id inp of Some c \<Rightarrow> if c \<noteq> [] then Some c else None | None \<Rightarrow> None),
     cm_iteration = ci_iteration inp\<rparr>"

definition call_tool :: "gateway \<Rightarrow> call_env \<Rightarrow> call_input \<Rightarrow> (trace_event list \<times> (call_failure + tool_result)) option" where
  "call_tool g env inp =
     (case throw_if_aborted (signal_at env 0 AtEntry) of
        Inl e \<Rightarrow> Some ([], Inl (Thrown e))
      | Inr _ \<Rightarrow>
        (case map_of (g_tools g) (ci_name inp) of
           None \<Rightarrow> Some ([], Inl (ToolNotFound (ci_name inp)))
         | Some d \<Rightarrow>
           (case parse_input d (ci_input inp) of
              Inl e \<Rightarrow> Some ([], Inl e)
            | Inr w \<Rightarrow>
              (let risk = call_risk d w;
                   ap = g_policy g (to_metadata d risk) w;
                   meta = call_meta_of inp risk
               in if ap_action ap = Deny
                  then Some ([TDenied meta (ap_reason ap)], Inl (ToolBlocked (ci_name inp) risk (ap_reason ap) Deny))
                  else if ap_action ap = Ask \<and> ci_approved inp \<noteq> Some True
                  then Some ([TApprovalRequired meta (ap_reason ap) (trace_input d w)],
                         Inl (ToolBlocked (ci_name inp) risk (ap_reason ap) Ask))
                  else
                    let p = call_policy g inp d
                    in map_option (\<lambda>(evs, r). (TStarted meta (trace_input d w) (r_max p) # evs, r))
                         (attempt_loop g env inp d meta p (r_max p) 1 [] None)))))"

section \<open>The fixed policy and the risks of MCP tools\<close>

definition saas_tool_approval_policy :: approval_policy where
  "saas_tool_approval_policy tool input =
     (if md_risk tool = RiskRead \<or> md_risk tool = RiskWrite
      then \<lparr>ap_action = Allow, ap_reason = Some ([0x5DE5, 0x4F5C, 0x533A, 0x5185, 0x64CD, 0x4F5C])\<rparr>
      else if md_risk tool = RiskNetwork
        \<or> (case md_category tool of Some c \<Rightarrow> starts_with c (js ''mcp:'') | None \<Rightarrow> False)
      then \<lparr>ap_action = Ask, ap_reason = Some (js ''Agent '' @ [0x5C06, 0x8BBF, 0x95EE, 0x6216, 0x4FEE, 0x6539, 0x5916, 0x90E8, 0x7CFB, 0x7EDF, 0x3002])\<rparr>
      else \<lparr>ap_action = Ask, ap_reason = Some ([0x8BE5, 0x64CD, 0x4F5C, 0x4E0D, 0x5C5E, 0x4E8E, 0x5DF2, 0x77E5, 0x7684, 0x5BB9, 0x5668, 0x5185, 0x5B89, 0x5168, 0x64CD, 0x4F5C, 0x3002])\<rparr>)"

record mcp_annotations =
  read_only_hint :: "bool option"
  destructive_hint :: "bool option"
  open_world_hint :: "bool option"

definition risk_from_annotations :: "mcp_annotations option \<Rightarrow> tool_risk" where
  "risk_from_annotations an = (case an of
     None \<Rightarrow> RiskNetwork
   | Some a \<Rightarrow> if read_only_hint a = Some True then RiskRead
       else if destructive_hint a = Some True then RiskWrite
       else if open_world_hint a = Some True then RiskNetwork
       else RiskNetwork)"

definition infer_mcp_tool_risk :: "mcp_annotations option \<Rightarrow> tool_risk option \<Rightarrow> tool_risk" where
  "infer_mcp_tool_risk an server_risk = (case server_risk of Some r \<Rightarrow> r | None \<Rightarrow> risk_from_annotations an)"

definition name_char :: "nat \<Rightarrow> bool" where
  "name_char c \<longleftrightarrow> (97 \<le> c \<and> c \<le> 122) \<or> (65 \<le> c \<and> c \<le> 90) \<or> (48 \<le> c \<and> c \<le> 57) \<or> c = 95 \<or> c = 45"

text \<open>\<open>replace(/[^a-zA-Z0-9_-]+/g, '_')\<close>.\<close>

function squash_name :: "jsstring \<Rightarrow> jsstring" where
  "squash_name [] = []"
| "squash_name (c # r) =
     (if name_char c then c # squash_name r else 95 # squash_name (dropWhile (\<lambda>x. \<not> name_char x) r))"
  by pat_completeness auto
termination
  by (relation "measure length") (auto simp: le_imp_less_Suc length_dropWhile_le)

definition sanitize_mcp_name_part :: "jsstring \<Rightarrow> jsstring" where
  "sanitize_mcp_name_part v =
     (let s = squash_name (js_trim v);
          cleaned = rev (dropWhile (\<lambda>c. c = 95) (rev (dropWhile (\<lambda>c. c = 95) s)))
      in if cleaned = [] then js ''tool'' else cleaned)"

definition build_mcp_tool_name :: "jsstring \<Rightarrow> jsstring \<Rightarrow> jsstring" where
  "build_mcp_tool_name server tool = sanitize_mcp_name_part server @ js ''__'' @ sanitize_mcp_name_part tool"

end
