(* ===== verification/Session.thy ===== *)
theory Session
  imports Governor_Keeps Gateway
begin

text \<open>
  The session context of \<open>context/sessionContext.ts\<close>: the thread, its estimator, the budget policy
  and the context sources of one conversation, the assembly of a request from them, and the
  persistence of the whole.

  The governor of \<open>Governor\<close> runs on the thread when a request is prepared; its summariser is a
  parameter. A thread is built on the session's own estimator. Times are left out, and numbers
  are finite.
\<close>

section \<open>State\<close>

datatype source_kind = SrcWorkspace | SrcRepo | SrcTrace | SrcMemory | SrcUser | SrcMcp | SrcCompaction

fun source_kind_name :: "source_kind \<Rightarrow> jsstring" where
  "source_kind_name SrcWorkspace = js ''workspace''" | "source_kind_name SrcRepo = js ''repo''"
| "source_kind_name SrcTrace = js ''trace''" | "source_kind_name SrcMemory = js ''memory''"
| "source_kind_name SrcUser = js ''user''" | "source_kind_name SrcMcp = js ''mcp''"
| "source_kind_name SrcCompaction = js ''compaction''"

record context_source =
  src_id :: jsstring
  src_kind :: source_kind
  src_title :: jsstring
  src_content :: jsstring
  src_priority :: "rat option"
  src_pinned :: bool

text \<open>Of a model client the session reads the context window only. The summariser is the caller's
  own, or one bound to a client.\<close>

record model_client =
  mc_label :: jsstring
  mc_window :: "int option"

datatype summarizer_binding = OwnSummarizer | ClientSummarizer "model_client option"

record session =
  ss_thread :: thread
  ss_estimator :: estimator
  ss_policy :: context_policy
  ss_subagent :: bool
  ss_sources :: "(jsstring, context_source) jsmap"
  ss_maintenance :: "maintenance list"
  ss_summarizer :: summarizer_binding
  ss_follows :: bool

record session_options =
  so_window :: "int option"
  so_subagent :: bool
  so_client :: "model_client option"
  so_policy :: "context_policy option"
  so_estimator :: "estimator option"
  so_own_summarizer :: bool
  so_summarizer_client :: "model_client option"

definition window_options :: "int option \<Rightarrow> bool \<Rightarrow> policy_options" where
  "window_options w sub = \<lparr>opt_context_window = w, opt_is_subagent = sub, opt_preserve_full_turns = None,
     opt_preserve_recent_tokens = None, opt_preserve_tool_iterations = None, opt_max_tool_result_tokens = None\<rparr>"

text \<open>The two counters of the thread module are shared by all threads: \<open>ec\<close> and \<open>tc\<close>.\<close>

definition new_session :: "session_options \<Rightarrow> nat \<Rightarrow> nat \<Rightarrow> session" where
  "new_session o1 ec tc = \<lparr>ss_thread = new_thread ec tc,
     ss_estimator = (case so_estimator o1 of Some e \<Rightarrow> e | None \<Rightarrow> new_estimator None None None),
     ss_policy = (case so_policy o1 of Some p \<Rightarrow> p
        | None \<Rightarrow> create_context_policy (window_options (so_window o1) (so_subagent o1))),
     ss_subagent = so_subagent o1, ss_sources = [], ss_maintenance = [],
     ss_summarizer = (if so_own_summarizer o1 then OwnSummarizer
        else ClientSummarizer (case so_summarizer_client o1 of Some c \<Rightarrow> Some c | None \<Rightarrow> so_client o1)),
     ss_follows = (\<not> so_own_summarizer o1 \<and> so_summarizer_client o1 = None)\<rparr>"

abbreviation ss_est :: "session \<Rightarrow> estimate" where
  "ss_est s \<equiv> est_message (ss_estimator s)"

definition set_llm_client :: "model_client option \<Rightarrow> session \<Rightarrow> session" where
  "set_llm_client c s =
     (let s1 = (case c of
          Some m \<Rightarrow> (case mc_window m of
              Some w \<Rightarrow> if w = 0 then s
                else let p = ss_policy s in
                  s\<lparr>ss_policy := create_context_policy \<lparr>opt_context_window = Some w, opt_is_subagent = ss_subagent s,
                      opt_preserve_full_turns = Some (Num (of_int (preserve_full_turns p))),
                      opt_preserve_recent_tokens = Some (Num (of_int (preserve_recent_tokens p))),
                      opt_preserve_tool_iterations = Some (Num (of_int (preserve_tool_iterations p))),
                      opt_max_tool_result_tokens = Some (Num (of_int (max_tool_result_tokens p)))\<rparr>\<rparr>
            | None \<Rightarrow> s)
        | None \<Rightarrow> s)
      in if ss_follows s1 then s1\<lparr>ss_summarizer := ClientSummarizer c\<rparr> else s1)"

section \<open>The thread behind the facade\<close>

text \<open>The methods that hand on to the thread: a throw leaves the session as it was.\<close>

definition on_thread :: "(thread \<Rightarrow> thread_error + thread) \<Rightarrow> session \<Rightarrow> thread_error + session" where
  "on_thread f s = map_sum id (\<lambda>th. s\<lparr>ss_thread := th\<rparr>) (f (ss_thread s))"

definition session_begin_turn :: "jsstring \<Rightarrow> image_part list option \<Rightarrow> session \<Rightarrow> thread_error + session" where
  "session_begin_turn u imgs s = on_thread (begin_turn (ss_est s) u imgs) s"

definition session_commit_turn :: "session \<Rightarrow> thread_error + session" where
  "session_commit_turn s = on_thread commit_turn s"

definition session_abort_turn :: "jsstring \<Rightarrow> session \<Rightarrow> thread_error + session" where
  "session_abort_turn r s = on_thread (abort_turn (ss_est s) r) s"

definition session_interrupt_turn :: "jsstring \<Rightarrow> session \<Rightarrow> thread_error + session" where
  "session_interrupt_turn r s = on_thread (interrupt_turn (ss_est s) r) s"

definition session_append_assistant :: "jsstring \<Rightarrow> tool_call list option \<Rightarrow> session \<Rightarrow> thread_error + session" where
  "session_append_assistant c cs s = on_thread (append_assistant (ss_est s) c cs) s"

definition session_append_tool_result :: "tool_result_input \<Rightarrow> session \<Rightarrow> thread_error + session" where
  "session_append_tool_result inp s = on_thread (append_tool_result (ss_est s) inp) s"

definition set_iteration :: "int \<Rightarrow> session \<Rightarrow> session" where
  "set_iteration i s = s\<lparr>ss_thread := set_current_iteration i (ss_thread s)\<rparr>"

definition add_source :: "context_source \<Rightarrow> session \<Rightarrow> session" where
  "add_source c s = s\<lparr>ss_sources := map_set (src_id c) c (ss_sources s)\<rparr>"

definition remove_source :: "jsstring \<Rightarrow> session \<Rightarrow> session" where
  "remove_source i s = s\<lparr>ss_sources := map_del i (ss_sources s)\<rparr>"

definition clear_sources :: "session \<Rightarrow> session" where
  "clear_sources s = s\<lparr>ss_sources := []\<rparr>"

definition get_last_maintenance :: "session \<Rightarrow> maintenance option" where
  "get_last_maintenance s = (if ss_maintenance s = [] then None else Some (last (ss_maintenance s)))"

definition clear_maintenance_history :: "session \<Rightarrow> session" where
  "clear_maintenance_history s = s\<lparr>ss_maintenance := []\<rparr>"

text \<open>One turn of the committed dialogue: its first user entry and its last assistant entry.\<close>

definition dialog_of_turn :: "thread_entry list \<Rightarrow> llm_message list" where
  "dialog_of_turn es =
     (case find (\<lambda>e. kind e = KUser) es of
        None \<Rightarrow> []
      | Some u \<Rightarrow> (case message u of Chat _ c _ _ \<Rightarrow> [Chat User c None None] | ToolMsg _ _ _ \<Rightarrow> []))
     @ (case filter (\<lambda>e. kind e = KAssistant) es of
          [] \<Rightarrow> []
        | as \<Rightarrow> (case message (last as) of
              Chat Assistant c _ _ \<Rightarrow> [Chat Assistant c None None] | _ \<Rightarrow> []))"

definition get_committed_dialog :: "session \<Rightarrow> llm_message list" where
  "get_committed_dialog s = concat (map (\<lambda>t.
     if turn_status_of t (ss_thread s) = Some TCommitted \<or> turn_status_of t (ss_thread s) = Some TAborted
     then dialog_of_turn (entries_for_turn t (ss_thread s)) else [])
     (turn_ids_in_order (ss_thread s)))"

definition restore_conversation :: "history_turn list \<Rightarrow> session \<Rightarrow> maintenance \<times> session" where
  "restore_conversation ms s =
     (let before = thread_tokens (ss_thread s);
          th = snd (snd (restore_from_conversation (ss_est s) ms (ss_thread s)))
      in (empty_maintenance th before (thread_tokens th), s\<lparr>ss_thread := th\<rparr>))"

text \<open>The counts of the thread are taken afresh when the factor has changed.\<close>

definition recalibrated :: "estimator \<Rightarrow> session \<Rightarrow> session" where
  "recalibrated e s = (let s1 = s\<lparr>ss_estimator := e\<rparr>
     in if calibration e = calibration (ss_estimator s) then s1
        else s1\<lparr>ss_thread := reestimate_tokens (est_message e) (ss_thread s)\<rparr>)"

definition calibrate_from_usage :: "int option \<Rightarrow> llm_message list \<Rightarrow> session \<Rightarrow> session" where
  "calibrate_from_usage actual ms s = (case actual of
     None \<Rightarrow> s
   | Some n \<Rightarrow>
       let raw = estimate_messages_tokens ms in
       if n \<le> 0 \<or> raw = 0 then s else recalibrated (calibrate (int raw) n (ss_estimator s)) s)"

definition session_reset_calibration :: "session \<Rightarrow> session" where
  "session_reset_calibration s = recalibrated (reset_calibration (ss_estimator s)) s"

section \<open>The system block\<close>

definition render_source :: "context_source \<Rightarrow> jsstring" where
  "render_source c = js ''### '' @ src_title c @ js '' ('' @ source_kind_name (src_kind c) @ js '')'' @ [10] @ src_content c"

definition render_sources :: "context_source list \<Rightarrow> jsstring" where
  "render_sources cs = (if cs = [] then [] else js_join [10] (js ''Context sources:'' # map render_source cs))"

fun falsy :: "jsval \<Rightarrow> bool" where
  "falsy JUndef = True" | "falsy JNull = True" | "falsy (JBool b) = (\<not> b)" | "falsy (JInt i) = (i = 0)"
| "falsy (JNonFinite t) = (t = js ''NaN'')" | "falsy (JStr t) = (t = [])" | "falsy _ = False"

definition render_tool :: "tool_metadata \<Rightarrow> jsstring" where
  "render_tool t =
     (let details = [js ''risk: '' @ risk_name (md_risk t)]
          @ (case md_category t of Some c \<Rightarrow> if c = [] then [] else [js ''category: '' @ c] | None \<Rightarrow> [])
          @ (if falsy (md_parameters t) then []
             else [js ''parameters: '' @ (case stringify (md_parameters t) of Some x \<Rightarrow> x | None \<Rightarrow> js ''undefined'')])
      in js ''- '' @ md_name t @ js '' ('' @ js_join (js ''; '') details @ js ''): '' @ md_description t)"

definition render_tools :: "tool_metadata list \<Rightarrow> jsstring" where
  "render_tools ts = (if ts = [] then [] else js_join [10] (js ''Available tools:'' # map render_tool ts))"

text \<open>A stable sort by falling priority.\<close>

definition priority_of :: "context_source \<Rightarrow> rat" where
  "priority_of c = (case src_priority c of Some p \<Rightarrow> p | None \<Rightarrow> 0)"

definition by_priority :: "context_source list \<Rightarrow> context_source list" where
  "by_priority cs = sort_key (\<lambda>c. - priority_of c) cs"

fun take_fitting :: "estimator \<Rightarrow> int \<Rightarrow> int \<Rightarrow> context_source list \<Rightarrow> context_source list \<times> context_source list" where
  "take_fitting e budget used [] = ([], [])"
| "take_fitting e budget used (c # cs) =
     (let n = int (est_text e (render_source c))
      in if used + n \<le> budget
         then (case take_fitting e budget (used + n) cs of (inc, dr) \<Rightarrow> (c # inc, dr))
         else (case take_fitting e budget used cs of (inc, dr) \<Rightarrow> (inc, c # dr)))"

definition pinned_tokens :: "estimator \<Rightarrow> context_source list \<Rightarrow> int" where
  "pinned_tokens e cs = sum_list (map (\<lambda>c. int (est_text e (render_source c))) (filter src_pinned cs))"

definition select_sources :: "context_source list \<Rightarrow> int \<Rightarrow> estimator \<Rightarrow> context_source list \<times> context_source list" where
  "select_sources cs budget e =
     (case take_fitting e budget (pinned_tokens e cs) (by_priority (filter (\<lambda>c. \<not> src_pinned c) cs)) of
        (inc, dr) \<Rightarrow> (filter src_pinned cs @ inc, dr))"

datatype context_section = SecSystem | SecThread | SecHistory | SecSources | SecTools

datatype contributor_status = CsIncluded | CsDropped | CsPruned | CsElided

record contributor =
  co_id :: jsstring
  co_section :: context_section
  co_title :: jsstring
  co_raw :: nat
  co_injected :: nat
  co_status :: contributor_status

definition source_contributor :: "estimator \<Rightarrow> contributor_status \<Rightarrow> context_source \<Rightarrow> contributor" where
  "source_contributor e st c =
     (let raw = est_text e (render_source c)
      in \<lparr>co_id = src_id c, co_section = SecSources, co_title = src_title c, co_raw = raw,
          co_injected = (if st = CsIncluded then raw else 0), co_status = st\<rparr>)"

record build_input =
  bi_system :: jsstring
  bi_tools :: "tool_metadata list option"

record system_block =
  sb_content :: jsstring
  sb_included :: "jsstring list"
  sb_dropped :: "jsstring list"
  sb_tools :: "contributor list"
  sb_sources :: "contributor list"

definition the_tools :: "build_input \<Rightarrow> tool_metadata list" where
  "the_tools inp = (case bi_tools inp of Some ts \<Rightarrow> ts | None \<Rightarrow> [])"

definition source_budget :: "build_input \<Rightarrow> session \<Rightarrow> int" where
  "source_budget inp s = max 0 (input_budget (ss_policy s)
     - int (est_text (ss_estimator s) (bi_system inp) + est_text (ss_estimator s) (render_tools (the_tools inp))
            + thread_tokens (ss_thread s)))"

definition build_system_block :: "build_input \<Rightarrow> session \<Rightarrow> system_block" where
  "build_system_block inp s =
     (let e = ss_estimator s; tool_block = render_tools (the_tools inp);
          (inc, dr) = select_sources (map_vals (ss_sources s)) (source_budget inp s) e
      in \<lparr>sb_content = js_join [10] (filter (\<lambda>t. js_trim t \<noteq> []) [bi_system inp, tool_block, render_sources inc]),
          sb_included = map src_id inc, sb_dropped = map src_id dr,
          sb_tools = map (\<lambda>t. let n = est_text e (render_tool t) in
              \<lparr>co_id = js ''tool:'' @ md_name t, co_section = SecTools, co_title = md_name t, co_raw = n,
               co_injected = n, co_status = CsIncluded\<rparr>) (the_tools inp),
          sb_sources = map (source_contributor e CsIncluded) inc @ map (source_contributor e CsDropped) dr\<rparr>)"

section \<open>The report\<close>

record context_report =
  rp_tokens :: nat
  rp_chars :: nat
  rp_sections :: "context_section \<Rightarrow> nat"
  rp_contributors :: "contributor list"

definition thread_contributor :: "thread_entry \<Rightarrow> contributor" where
  "thread_contributor e = \<lparr>co_id = entry_id e, co_section = SecThread,
     co_title = kind_name (kind e) @ js '':'' @ turn_id e,
     co_raw = (case original_tokens e of Some n \<Rightarrow> n | None \<Rightarrow> tokens_est e),
     co_injected = tokens_est e, co_status = (if elided e then CsElided else CsIncluded)\<rparr>"

fun add_contributor :: "contributor \<Rightarrow> (context_section \<Rightarrow> nat) \<Rightarrow> context_section \<Rightarrow> nat" where
  "add_contributor c f =
     (if co_id c = js ''thread'' then f(SecThread := f SecThread + co_injected c)
      else if co_section c = SecThread then f
      else f(co_section c := f (co_section c) + co_injected c))"

definition build_report ::
    "estimator \<Rightarrow> thread \<Rightarrow> jsstring \<Rightarrow> llm_message list \<Rightarrow> system_block \<Rightarrow> nat \<Rightarrow> context_report" where
  "build_report e th content ms blk estimated =
     (let sys = est_text e content; hist = est_messages e ms;
          contributors =
            [\<lparr>co_id = js ''system'', co_section = SecSystem, co_title = js ''System prompt'', co_raw = sys,
              co_injected = sys, co_status = CsIncluded\<rparr>,
             \<lparr>co_id = js ''history'', co_section = SecHistory, co_title = js ''Conversation history'',
              co_raw = hist, co_injected = hist, co_status = CsIncluded\<rparr>]
            @ sb_sources blk @ sb_tools blk
            @ filter (\<lambda>c. co_id c \<noteq> js ''thread'') (map thread_contributor (entries th));
          totals = fold add_contributor contributors (\<lambda>_. 0)
      in \<lparr>rp_tokens = estimated, rp_chars = estimated * 4,
          rp_sections = totals(SecThread := hist, SecHistory := hist), rp_contributors = contributors\<rparr>)"

section \<open>Requests\<close>

record snapshot =
  sn_messages :: "llm_message list"
  sn_included :: "jsstring list"
  sn_dropped :: "jsstring list"
  sn_pinned :: "jsstring list"
  sn_tokens :: nat
  sn_report :: context_report
  sn_budget :: int
  sn_threshold :: int

definition assemble :: "system_block \<Rightarrow> session \<Rightarrow> snapshot" where
  "assemble blk s =
     (let th_msgs = build_messages (ss_thread s);
          msgs = Chat System (sb_content blk) None None # th_msgs;
          n = est_messages (ss_estimator s) msgs
      in \<lparr>sn_messages = msgs, sn_included = sb_included blk, sn_dropped = sb_dropped blk,
          sn_pinned = map src_id (filter src_pinned (map_vals (ss_sources s))), sn_tokens = n,
          sn_report = build_report (ss_estimator s) (ss_thread s) (sb_content blk) th_msgs blk n,
          sn_budget = input_budget (ss_policy s), sn_threshold = compact_threshold (ss_policy s)\<rparr>)"

definition take_snapshot :: "build_input \<Rightarrow> session \<Rightarrow> snapshot" where
  "take_snapshot inp s = assemble (build_system_block inp s) s"

definition noteworthy :: "maintenance \<Rightarrow> bool" where
  "noteworthy m \<longleftrightarrow> compacted m \<or> 0 < dropped_messages m
     \<or> 0 < (case dropped_turns m of Some n \<Rightarrow> n | None \<Rightarrow> 0)"

definition remember_maintenance :: "maintenance \<Rightarrow> session \<Rightarrow> session" where
  "remember_maintenance m s = (if noteworthy m then s\<lparr>ss_maintenance := ss_maintenance s @ [m]\<rparr> else s)"

definition thread_budget :: "system_block \<Rightarrow> session \<Rightarrow> int" where
  "thread_budget blk s = max 0 (compact_threshold (ss_policy s)
     - int (est_messages (ss_estimator s) [Chat System (sb_content blk) None None]))"

definition prepare_request ::
    "(summarizer_binding \<Rightarrow> summarizer) \<Rightarrow> (govern_point \<Rightarrow> bool) \<Rightarrow> build_input \<Rightarrow> session
     \<Rightarrow> (session \<times> (govern_error + snapshot \<times> maintenance list)) option" where
  "prepare_request summ sig inp s =
     (let blk = build_system_block inp s in
      case govern (ss_est s) (ss_policy s) (summ (ss_summarizer s)) sig (thread_budget blk s) (ss_thread s) of
        None \<Rightarrow> None
      | Some (th, Inl e) \<Rightarrow> Some (s\<lparr>ss_thread := th\<rparr>, Inl e)
      | Some (th, Inr (ms, _)) \<Rightarrow>
          let s1 = fold remember_maintenance ms (s\<lparr>ss_thread := th\<rparr>)
          in Some (s1, Inr (assemble blk s1, ms)))"

section \<open>Persistence\<close>

record session_state =
  se_version :: int
  se_thread :: thread_state
  se_maintenance :: "maintenance list option"

definition export_session :: "session \<Rightarrow> session_state" where
  "export_session s = \<lparr>se_version = 1, se_thread = export_state (ss_thread s),
     se_maintenance = Some (slice_last 20 (ss_maintenance s))\<rparr>"

text \<open>\<open>isSessionContextState\<close> past the shape of the value; a maintenance record always has its fields.\<close>

definition is_session_state :: "session_state \<Rightarrow> bool" where
  "is_session_state st \<longleftrightarrow> se_version st = 1 \<and> is_thread_state (se_thread st)"

definition restore_session :: "bool \<Rightarrow> session_state \<Rightarrow> session \<Rightarrow> bool \<times> session" where
  "restore_session keep st s =
     (if \<not> is_session_state st then (False, s)
      else case restore_state (ss_est s) keep (se_thread st) (ss_thread s) of
        (restored, th) \<Rightarrow>
          let s1 = s\<lparr>ss_thread := th\<rparr>
          in (restored, if restored
              then s1\<lparr>ss_maintenance := (case se_maintenance st of Some ms \<Rightarrow> ms | None \<Rightarrow> [])\<rparr> else s1))"

section \<open>Windows\<close>

text \<open>\<open>parsePositiveInt\<close> is given what \<open>Number(text)\<close> makes of the text.\<close>

definition parse_positive_int :: "(jsstring \<Rightarrow> jsnum) \<Rightarrow> jsstring option \<Rightarrow> int option" where
  "parse_positive_int num v = (case v of
     None \<Rightarrow> None
   | Some t \<Rightarrow> if t = [] then None else (case num t of Num x \<Rightarrow> if x \<le> 0 then None else Some \<lfloor>x\<rfloor> | NonFin \<Rightarrow> None))"

definition parse_positive_number :: "jsnum option \<Rightarrow> int option" where
  "parse_positive_number v = (case v of
     Some (Num x) \<Rightarrow> if x \<le> 0 then None else Some \<lfloor>x\<rfloor> | _ \<Rightarrow> None)"

definition resolve_model_context_window ::
    "(jsstring \<Rightarrow> jsnum) \<Rightarrow> (jsstring \<Rightarrow> jsstring option) \<Rightarrow> jsnum option \<Rightarrow> jsnum option \<Rightarrow> int" where
  "resolve_model_context_window num env configured catalog =
     (case parse_positive_int num (case env (js ''AGENT_CONTEXT_WINDOW'') of
             Some t \<Rightarrow> Some t | None \<Rightarrow> env (js ''APP_CONTEXT_WINDOW'')) of
        Some n \<Rightarrow> n
      | None \<Rightarrow> (case parse_positive_number configured of
          Some n \<Rightarrow> n
        | None \<Rightarrow> (case parse_positive_number catalog of Some n \<Rightarrow> n | None \<Rightarrow> DEFAULT_CONTEXT_WINDOW)))"

definition create_session_context ::
    "(jsstring \<Rightarrow> jsnum) \<Rightarrow> (jsstring \<Rightarrow> jsstring option) \<Rightarrow> session_options \<Rightarrow> model_client option \<Rightarrow> nat \<Rightarrow> nat \<Rightarrow> session" where
  "create_session_context num env o1 client ec tc =
     (let w = (case so_window o1 of
          Some w \<Rightarrow> w
        | None \<Rightarrow> (case client of
            Some c \<Rightarrow> (case mc_window c of Some w \<Rightarrow> w | None \<Rightarrow> resolve_model_context_window num env None None)
          | None \<Rightarrow> resolve_model_context_window num env None None))
      in new_session (o1\<lparr>so_window := Some w,
           so_client := (case so_client o1 of Some c \<Rightarrow> Some c | None \<Rightarrow> client)\<rparr>) ec tc)"

end
