(* ===== verification/Model_Client.thy ===== *)
theory Model_Client
  imports Images Session
begin

text \<open>
  The model client: the efforts, providers, credentials, capabilities and model descriptions of \<open>llm/\<close>, the
  conversion of messages to and from the provider package in \<open>llm/piAiConvert.ts\<close>, the metrics of
  \<open>llm/providerObservability.ts\<close> and the client of \<open>llm/piAiLlmClient.ts\<close>.

  The catalogue of models, the provider package and fetching are arguments. Usage counts are integers, costs
  rationals; a duration is what \<open>elapsed\<close> makes of two clock readings. The environment is a map.
\<close>

section \<open>Thinking effort\<close>

datatype thinking_effort = EffortOff | EffortMinimal | EffortLow | EffortMedium | EffortHigh | EffortXhigh

definition THINKING_EFFORT_LEVELS :: "thinking_effort list" where
  "THINKING_EFFORT_LEVELS = [EffortOff, EffortMinimal, EffortLow, EffortMedium, EffortHigh, EffortXhigh]"

definition DEFAULT_THINKING_EFFORT :: thinking_effort where "DEFAULT_THINKING_EFFORT = EffortHigh"

fun effort_name :: "thinking_effort \<Rightarrow> jsstring" where
  "effort_name EffortOff = js ''off''" | "effort_name EffortMinimal = js ''minimal''" | "effort_name EffortLow = js ''low''"
| "effort_name EffortMedium = js ''medium''" | "effort_name EffortHigh = js ''high''" | "effort_name EffortXhigh = js ''xhigh''"

definition find_effort :: "jsstring \<Rightarrow> thinking_effort option" where
  "find_effort v = find (\<lambda>e. effort_name e = v) THINKING_EFFORT_LEVELS"

definition parse_thinking_effort :: "jsstring option \<Rightarrow> thinking_effort option" where
  "parse_thinking_effort v =
     (let t = (case v of None \<Rightarrow> [] | Some s \<Rightarrow> to_lower (js_trim s)) in
      if t = [] then None
      else if t = js ''none'' \<or> t = js ''disable'' \<or> t = js ''disabled'' then Some EffortOff
      else if t = js ''max'' \<or> t = js ''maximum'' then Some EffortXhigh
      else find_effort t)"

fun index_in :: "'a \<Rightarrow> 'a list \<Rightarrow> nat option" where
  "index_in x [] = None"
| "index_in x (y # ys) = (if x = y then Some 0 else map_option Suc (index_in x ys))"

definition cycle_thinking_effort :: "thinking_effort \<Rightarrow> thinking_effort" where
  "cycle_thinking_effort c =
     (let nxt = (case index_in c THINKING_EFFORT_LEVELS of None \<Rightarrow> 0 | Some i \<Rightarrow> (i + 1) mod length THINKING_EFFORT_LEVELS)
      in THINKING_EFFORT_LEVELS ! nxt)"

definition format_model_effort_label :: "jsstring option \<Rightarrow> thinking_effort \<Rightarrow> jsstring" where
  "format_model_effort_label m e =
     (let name = (case m of None \<Rightarrow> [] | Some s \<Rightarrow> js_trim s) in
      if name = [] then js ''no model'' else name @ js '' ('' @ effort_name e @ js '')'')"

section \<open>Providers and credentials\<close>

datatype llm_provider = OpenAI | Anthropic | OpenRouter | DeepSeek | XAI

record provider_definition =
  pd_id :: jsstring
  pd_name :: jsstring
  pd_base :: jsstring
  pd_key_env :: "jsstring list"
  pd_model_env :: "jsstring list"
  pd_token_env :: "jsstring list option"
  pd_base_env :: "jsstring option"
  pd_example :: jsstring
  pd_recommended :: "jsstring list"

fun get_llm_provider_definition :: "llm_provider \<Rightarrow> provider_definition" where
  "get_llm_provider_definition OpenAI = \<lparr>pd_id = js ''openai'', pd_name = js ''OpenAI'', pd_base = js ''https://api.openai.com/v1'',
     pd_key_env = [js ''OPENAI_API_KEY''], pd_model_env = [js ''OPENAI_MODEL'', js ''AGENT_LLM_MODEL''], pd_token_env = None,
     pd_base_env = Some (js ''OPENAI_BASE_URL''), pd_example = js ''gpt-5.6-sol'',
     pd_recommended = [js ''gpt-5.6-sol'', js ''gpt-5.6-terra'', js ''gpt-5.4-mini'', js ''gpt-4.1-mini'']\<rparr>"
| "get_llm_provider_definition Anthropic = \<lparr>pd_id = js ''anthropic'', pd_name = js ''Anthropic'', pd_base = js ''https://api.anthropic.com'',
     pd_key_env = [js ''ANTHROPIC_API_KEY''], pd_model_env = [js ''ANTHROPIC_MODEL'', js ''AGENT_LLM_MODEL''],
     pd_token_env = Some [js ''ANTHROPIC_AUTH_TOKEN''], pd_base_env = Some (js ''ANTHROPIC_BASE_URL''), pd_example = js ''claude-sonnet-5'',
     pd_recommended = [js ''claude-sonnet-5'', js ''claude-opus-4-8'', js ''claude-haiku-4-5'']\<rparr>"
| "get_llm_provider_definition OpenRouter = \<lparr>pd_id = js ''openrouter'', pd_name = js ''OpenRouter'', pd_base = js ''https://openrouter.ai/api/v1'',
     pd_key_env = [js ''OPENROUTER_API_KEY''], pd_model_env = [js ''OPENROUTER_MODEL'', js ''AGENT_LLM_MODEL''], pd_token_env = None,
     pd_base_env = Some (js ''OPENROUTER_BASE_URL''), pd_example = js ''anthropic/claude-sonnet-4.6'',
     pd_recommended = [js ''openai/gpt-5.4'', js ''anthropic/claude-sonnet-4.6'', js ''google/gemini-3.1-pro-preview'', js ''deepseek/deepseek-v3.2'']\<rparr>"
| "get_llm_provider_definition DeepSeek = \<lparr>pd_id = js ''deepseek'', pd_name = js ''DeepSeek'', pd_base = js ''https://api.deepseek.com'',
     pd_key_env = [js ''DEEPSEEK_API_KEY''], pd_model_env = [js ''DEEPSEEK_MODEL'', js ''AGENT_LLM_MODEL''], pd_token_env = None,
     pd_base_env = Some (js ''DEEPSEEK_BASE_URL''), pd_example = js ''deepseek-v4-pro'',
     pd_recommended = [js ''deepseek-v4-pro'', js ''deepseek-v4-flash'']\<rparr>"
| "get_llm_provider_definition XAI = \<lparr>pd_id = js ''xai'', pd_name = js ''xAI'', pd_base = js ''https://api.x.ai/v1'',
     pd_key_env = [js ''XAI_API_KEY''], pd_model_env = [js ''XAI_MODEL'', js ''AGENT_LLM_MODEL''], pd_token_env = None,
     pd_base_env = Some (js ''XAI_BASE_URL''), pd_example = js ''grok-4.6'', pd_recommended = [js ''grok-4.6'', js ''grok-4.5'', js ''grok-4.3'']\<rparr>"

definition LLM_PROVIDERS :: "llm_provider list" where
  "LLM_PROVIDERS = [OpenAI, Anthropic, OpenRouter, DeepSeek, XAI]"

definition provider_id :: "llm_provider \<Rightarrow> jsstring" where
  "provider_id p = pd_id (get_llm_provider_definition p)"

definition find_provider :: "jsstring \<Rightarrow> llm_provider option" where
  "find_provider v = find (\<lambda>p. provider_id p = v) LLM_PROVIDERS"

text \<open>\<open>value in LLM_PROVIDER_DEFINITIONS\<close> also finds the names that every object inherits; they are an argument.\<close>

definition is_llm_provider :: "jsstring list \<Rightarrow> jsstring \<Rightarrow> bool" where
  "is_llm_provider inherited v \<longleftrightarrow> find_provider v \<noteq> None \<or> v \<in> set inherited"

type_synonym environment = "jsstring \<Rightarrow> jsstring option"

fun first_env :: "environment \<Rightarrow> jsstring list \<Rightarrow> jsstring option" where
  "first_env env [] = None"
| "first_env env (k # ks) = (case env k of
     Some v \<Rightarrow> if js_trim v \<noteq> [] then Some (js_trim v) else first_env env ks
   | None \<Rightarrow> first_env env ks)"

fun first_non_empty :: "jsstring option list \<Rightarrow> jsstring option" where
  "first_non_empty [] = None"
| "first_non_empty (v # vs) = (case v of
     Some s \<Rightarrow> if js_trim s \<noteq> [] then Some (js_trim s) else first_non_empty vs
   | None \<Rightarrow> first_non_empty vs)"

record llm_credentials =
  lc_provider :: llm_provider
  lc_key :: "jsstring option"
  lc_token :: "jsstring option"
  lc_model :: jsstring
  lc_base :: "jsstring option"
  lc_version :: "jsstring option"
  lc_window :: "int option"

definition key_of :: "environment \<Rightarrow> provider_definition \<Rightarrow> jsstring option" where
  "key_of env d = first_env env (pd_key_env d)"

definition token_of :: "environment \<Rightarrow> provider_definition \<Rightarrow> jsstring option" where
  "token_of env d = (case pd_token_env d of Some ks \<Rightarrow> first_env env ks | None \<Rightarrow> None)"

definition has_provider_credentials_from_env :: "llm_provider \<Rightarrow> environment \<Rightarrow> bool" where
  "has_provider_credentials_from_env p env \<longleftrightarrow>
     (let d = get_llm_provider_definition p in key_of env d \<noteq> None \<or> token_of env d \<noteq> None)"

definition resolve_provider_credentials ::
    "(jsstring \<Rightarrow> jsnum) \<Rightarrow> llm_provider \<Rightarrow> environment \<Rightarrow> jsstring option \<Rightarrow> llm_credentials option" where
  "resolve_provider_credentials num p env explicit =
     (let d = get_llm_provider_definition p; k = key_of env d; t = token_of env d in
      case first_non_empty [explicit, first_env env (pd_model_env d)] of
        None \<Rightarrow> None
      | Some m \<Rightarrow>
          if k = None \<and> t = None then None
          else Some \<lparr>lc_provider = p, lc_key = k, lc_token = t, lc_model = m,
            lc_base = (case pd_base_env d of Some b \<Rightarrow> env b | None \<Rightarrow> None),
            lc_version = (if p = Anthropic then first_non_empty [env (js ''ANTHROPIC_VERSION'')] else None),
            lc_window = parse_positive_int num (case env (js ''AGENT_CONTEXT_WINDOW'') of Some v \<Rightarrow> Some v | None \<Rightarrow> env (js ''APP_CONTEXT_WINDOW''))\<rparr>)"

text \<open>The variant that throws names what is missing.\<close>

definition join_or :: "jsstring list \<Rightarrow> jsstring" where
  "join_or ks = js_join ((js '' '' @ [0x6216] @ js '' '')) ks"

definition missing_model :: "provider_definition \<Rightarrow> thrown" where
  "missing_model d = plain_error (js ''Error'') (pd_name d @ (js '' '' @ [0x9700, 0x8981, 0x914D, 0x7F6E, 0x6A21, 0x578B, 0xFF1A]) @ join_or (pd_model_env d) @ ([0xFF08, 0x793A, 0x4F8B] @ js '' '') @ pd_example d @ ([0xFF09]))"

definition missing_key :: "provider_definition \<Rightarrow> thrown" where
  "missing_key d = plain_error (js ''Error'') (pd_name d @ (js '' '' @ [0x9700, 0x8981, 0x914D, 0x7F6E, 0x5BC6, 0x94A5, 0xFF1A])
     @ join_or (pd_key_env d @ (case pd_token_env d of Some ks \<Rightarrow> ks | None \<Rightarrow> [])))"

definition resolve_provider_credentials_from_env :: "llm_provider \<Rightarrow> environment \<Rightarrow> thrown + llm_credentials option" where
  "resolve_provider_credentials_from_env p env =
     (let d = get_llm_provider_definition p; k = key_of env d; t = token_of env d; has = (k \<noteq> None \<or> t \<noteq> None) in
      case first_env env (pd_model_env d) of
        None \<Rightarrow> if \<not> has then Inr None else Inl (missing_model d)
      | Some m \<Rightarrow>
          if \<not> has then Inl (missing_key d)
          else Inr (Some \<lparr>lc_provider = p, lc_key = k, lc_token = t, lc_model = m,
            lc_base = (case pd_base_env d of Some b \<Rightarrow> env b | None \<Rightarrow> None),
            lc_version = (if p = Anthropic then env (js ''ANTHROPIC_VERSION'') else None), lc_window = None\<rparr>))"

record provider_row =
  pw_provider :: llm_provider
  pw_name :: jsstring
  pw_configured :: bool
  pw_model :: "jsstring option"
  pw_example :: jsstring

definition list_providers_from_env :: "environment \<Rightarrow> provider_row list" where
  "list_providers_from_env env = map (\<lambda>p.
     let d = get_llm_provider_definition p; m = first_env env (pd_model_env d) in
     \<lparr>pw_provider = p, pw_name = pd_name d, pw_configured = ((key_of env d \<noteq> None \<or> token_of env d \<noteq> None) \<and> m \<noteq> None),
       pw_model = m, pw_example = pd_example d\<rparr>) LLM_PROVIDERS"

definition format_provider_model_label :: "llm_provider option \<Rightarrow> jsstring option \<Rightarrow> jsstring" where
  "format_provider_model_label p m =
     (let name = (case m of None \<Rightarrow> [] | Some s \<Rightarrow> js_trim s) in
      if name = [] then js ''no model''
      else case p of None \<Rightarrow> name | Some q \<Rightarrow> provider_id q @ js ''/'' @ name)"

section \<open>Models\<close>

record pi_model =
  pi_id :: jsstring
  pi_name :: jsstring
  pi_api :: jsstring
  pi_base :: "jsstring option"
  pi_reasoning :: bool
  pi_input :: "jsstring list"
  pi_window :: int
  pi_max :: "int option"

definition FALLBACK_MAX_TOKENS :: int where "FALLBACK_MAX_TOKENS = 32768"

definition strip_slashes :: "jsstring \<Rightarrow> jsstring" where
  "strip_slashes s = rev (dropWhile (\<lambda>c. c = 47) (rev s))"

definition normalize_openai_base_url :: "jsstring option \<Rightarrow> jsstring" where
  "normalize_openai_base_url b =
     (let fallback = pd_base (get_llm_provider_definition OpenAI) in
      or_text (strip_slashes (case b of Some s \<Rightarrow> s | None \<Rightarrow> fallback)) fallback)"

definition normalize_anthropic_base_url :: "jsstring option \<Rightarrow> jsstring" where
  "normalize_anthropic_base_url b =
     (let fallback = pd_base (get_llm_provider_definition Anthropic);
          raw = strip_slashes (case b of Some s \<Rightarrow> s | None \<Rightarrow> fallback)
      in if raw = [] then fallback
         else or_text (if ends_with (to_lower raw) (js ''/v1'') then take (length raw - 3) raw else raw) fallback)"

definition normalize_pi_model_base_url :: "jsstring \<Rightarrow> jsstring option \<Rightarrow> jsstring" where
  "normalize_pi_model_base_url api b = (if api = js ''anthropic-messages'' then normalize_anthropic_base_url b else normalize_openai_base_url b)"

definition is_custom_openai_base_url :: "jsstring option \<Rightarrow> bool" where
  "is_custom_openai_base_url b = (case b of
     None \<Rightarrow> False
   | Some s \<Rightarrow> js_trim s \<noteq> [] \<and> normalize_openai_base_url b \<noteq> normalize_openai_base_url (Some (pd_base (get_llm_provider_definition OpenAI))))"

datatype wire_api = WireResponses | WireCompletions

definition resolve_openai_api :: "llm_provider \<Rightarrow> jsstring option \<Rightarrow> wire_api option \<Rightarrow> jsstring option" where
  "resolve_openai_api p b w =
     (if p \<noteq> OpenAI then None
      else if w = Some WireResponses then Some (js ''openai-responses'')
      else if w = Some WireCompletions \<or> is_custom_openai_base_url b then Some (js ''openai-completions'')
      else None)"

text \<open>The catalogue of a provider, with the model whose protocol unknown models follow.\<close>

record catalog =
  ct_find :: "jsstring \<Rightarrow> pi_model option"
  ct_first :: "pi_model option"

definition resolve_pi_ai_model ::
    "(jsstring \<Rightarrow> jsnum) \<Rightarrow> environment \<Rightarrow> catalog \<Rightarrow> llm_provider \<Rightarrow> jsstring option \<Rightarrow> jsnum option \<Rightarrow> wire_api option \<Rightarrow> jsstring
      \<Rightarrow> thrown + pi_model" where
  "resolve_pi_ai_model num env cat p base window wire model =
     (let i = js_trim model in
      if i = [] then Inl (plain_error (js ''Error'') ((js ''model '' @ [0x4E0D, 0x80FD, 0x4E3A, 0x7A7A])))
      else case (case ct_find cat i of Some m \<Rightarrow> Some m | None \<Rightarrow> ct_first cat) of
          None \<Rightarrow> Inl (plain_error (js ''Error'') (js ''pi-ai provider '' @ provider_id p @ (js '' '' @ [0x6CA1, 0x6709, 0x53EF, 0x7528, 0x7684, 0x6A21, 0x578B, 0x534F, 0x8BAE, 0x6A21, 0x677F])))
        | Some t \<Rightarrow>
          let w = resolve_model_context_window num env window (map_option (\<lambda>m. Num (of_int (pi_window m))) (ct_find cat i));
              url = normalize_pi_model_base_url (pi_api t) (case base of Some b \<Rightarrow> Some b | None \<Rightarrow> pi_base t);
              api = (case resolve_openai_api p base wire of Some a \<Rightarrow> a | None \<Rightarrow> pi_api t)
          in Inr (case ct_find cat i of
              Some m \<Rightarrow> m\<lparr>pi_api := api, pi_base := Some url, pi_window := w\<rparr>
            | None \<Rightarrow> \<lparr>pi_id = i, pi_name = i, pi_api = api, pi_base = Some url, pi_reasoning = True, pi_input = [js ''text''],
                pi_window = w, pi_max = Some FALLBACK_MAX_TOKENS\<rparr>))"

datatype capability_source = FromCatalog | FromAdapter

record llm_capabilities =
  cap_source :: capability_source
  cap_tools :: bool
  cap_thinking :: bool
  cap_structured :: bool
  cap_caching :: bool
  cap_images :: bool

definition supports_tool_calling :: "jsstring \<Rightarrow> bool" where
  "supports_tool_calling api \<longleftrightarrow> api \<in> set [js ''anthropic-messages'', js ''openai-completions'', js ''openai-responses'']"

definition capabilities_for_pi_model :: "pi_model \<Rightarrow> capability_source \<Rightarrow> llm_capabilities" where
  "capabilities_for_pi_model m s = \<lparr>cap_source = s, cap_tools = supports_tool_calling (pi_api m), cap_thinking = pi_reasoning m,
     cap_structured = False, cap_caching = (pi_api m = js ''anthropic-messages'' \<or> pi_api m = js ''openai-responses''),
     cap_images = (s = FromCatalog \<and> js ''image'' \<in> set (pi_input m))\<rparr>"

section \<open>A client from the environment\<close>

record client_config =
  cf_provider :: llm_provider
  cf_key :: "jsstring option"
  cf_token :: "jsstring option"
  cf_model :: jsstring
  cf_base :: "jsstring option"
  cf_effort :: thinking_effort
  cf_window :: "int option"

definition create_llm_client_from_credentials :: "llm_credentials \<Rightarrow> environment \<Rightarrow> thrown + client_config" where
  "create_llm_client_from_credentials c env =
     (let effort = (case parse_thinking_effort (env (js ''AGENT_THINKING_EFFORT'')) of
          Some e \<Rightarrow> e
        | None \<Rightarrow> (case parse_thinking_effort (env (js ''APP_THINKING_EFFORT'')) of Some e \<Rightarrow> e | None \<Rightarrow> DEFAULT_THINKING_EFFORT))
      in if lc_provider c \<noteq> Anthropic \<and> lc_key c = None
         then Inl (plain_error (js ''Error'') (provider_id (lc_provider c) @ (js '' '' @ [0x9700, 0x8981] @ js '' API key'')))
         else Inr \<lparr>cf_provider = lc_provider c, cf_key = lc_key c, cf_token = lc_token c, cf_model = lc_model c, cf_base = lc_base c,
           cf_effort = effort, cf_window = lc_window c\<rparr>)"

definition unknown_provider :: "jsstring \<Rightarrow> thrown" where
  "unknown_provider v = plain_error (js ''Error'') (([0x672A, 0x77E5] @ js '' AGENT_LLM_PROVIDER='') @ v @ ([0x3002, 0x53EF, 0x9009, 0xFF1A])
     @ js_join (js '', '') (map (\<lambda>r. provider_id (pw_provider r)) (list_providers_from_env (\<lambda>_. None))))"

text \<open>An inherited name has no definition, and reading its fields throws.\<close>

definition create_llm_client_from_env ::
    "(jsstring \<Rightarrow> jsnum) \<Rightarrow> jsstring list \<Rightarrow> environment \<Rightarrow> int option \<Rightarrow> thrown + client_config option" where
  "create_llm_client_from_env num inherited env window =
     (let raw = (case env (js ''AGENT_LLM_PROVIDER'') of Some v \<Rightarrow> js_trim v | None \<Rightarrow> []) in
      if raw = [] then Inr None
      else if \<not> is_llm_provider inherited raw then Inl (unknown_provider raw)
      else case find_provider raw of
          None \<Rightarrow> Inl (plain_error (js ''TypeError'') (js ''keys is not iterable''))
        | Some p \<Rightarrow> (case resolve_provider_credentials num p env None of
            None \<Rightarrow> Inr None
          | Some c \<Rightarrow>
              map_sum id Some (create_llm_client_from_credentials
                (c\<lparr>lc_window := (case lc_window c of Some w \<Rightarrow> Some w | None \<Rightarrow> window)\<rparr>) env)))"

end
