(* ===== verification/Model_Calls.thy ===== *)
theory Model_Calls
  imports Model_Client
begin

text \<open>
  Calls of the model: the conversion of \<open>llm/piAiConvert.ts\<close>, the metrics of \<open>llm/providerObservability.ts\<close> and the
  client of \<open>llm/piAiLlmClient.ts\<close>. What the provider package answers, and the clock, are arguments; time stamps
  and the raw message are left out.
\<close>

section \<open>Messages for the provider package\<close>

datatype pi_block = PiText jsstring | PiImage jsstring jsstring | PiCall jsstring jsstring "(jsstring \<times> jsval) list"

datatype pi_content = PlainText jsstring | Blocks "pi_block list"

datatype pi_message = PiUser pi_content | PiAssistant "pi_block list" bool | PiResult jsstring jsstring jsstring

record pi_tool =
  pt_name :: jsstring
  pt_description :: jsstring
  pt_parameters :: jsval

record pi_context =
  px_system :: "jsstring option"
  px_messages :: "pi_message list"
  px_tools :: "pi_tool list option"

text \<open>\<open>JSON.parse\<close> is an argument; it throws for \<open>None\<close>.\<close>

definition to_argument_record :: "(jsstring \<Rightarrow> jsval option) \<Rightarrow> jsval \<Rightarrow> (jsstring \<times> jsval) list" where
  "to_argument_record parse v =
     (case v of
        JObj ps \<Rightarrow> ps
      | JUndef \<Rightarrow> []
      | JStr s \<Rightarrow> (case parse s of Some (JObj ps) \<Rightarrow> ps | _ \<Rightarrow> [(js ''value'', v)])
      | _ \<Rightarrow> [(js ''value'', v)])"

text \<open>An image without a URL throws, as in \<open>to_pi_image_content\<close>.\<close>

definition to_pi_user_content :: "jsstring \<Rightarrow> image_part list option \<Rightarrow> pi_content option" where
  "to_pi_user_content c images =
     (case images of
        None \<Rightarrow> Some (PlainText c)
      | Some [] \<Rightarrow> Some (PlainText c)
      | Some xs \<Rightarrow> (case all_some (map to_pi_image_content xs) of
          None \<Rightarrow> None
        | Some ys \<Rightarrow>
          let bs = (if js_trim c \<noteq> [] then [PiText c] else []) @ concat (map (\<lambda>y. case y of Some (d, m) \<Rightarrow> [PiImage d m] | None \<Rightarrow> []) ys)
          in Some (if bs = [] then PlainText c else Blocks bs)))"

definition to_pi_assistant_message :: "(jsstring \<Rightarrow> jsval option) \<Rightarrow> jsstring \<Rightarrow> tool_call list option \<Rightarrow> pi_message" where
  "to_pi_assistant_message parse c calls =
     (let cs = (case calls of Some xs \<Rightarrow> xs | None \<Rightarrow> []);
          bs = (if js_trim c \<noteq> [] then [PiText c] else [])
            @ map (\<lambda>x. PiCall (call_id x) (call_name x) (to_argument_record parse (call_input x))) cs
      in PiAssistant (if bs = [] then [PiText []] else bs) (cs \<noteq> []))"

fun to_pi_message :: "(jsstring \<Rightarrow> jsval option) \<Rightarrow> llm_message \<Rightarrow> pi_message list option" where
  "to_pi_message parse (ToolMsg i n c) = Some [PiResult i n c]"
| "to_pi_message parse (Chat System c images calls) = Some []"
| "to_pi_message parse (Chat User c images calls) = map_option (\<lambda>x. [PiUser x]) (to_pi_user_content c images)"
| "to_pi_message parse (Chat Assistant c images calls) = Some [to_pi_assistant_message parse c calls]"

fun system_part :: "llm_message \<Rightarrow> jsstring list" where
  "system_part (Chat System c images calls) = (if js_trim c \<noteq> [] then [c] else [])"
| "system_part _ = []"

text \<open>The parameters of a tool that are not an object are replaced.\<close>

record tool_description =
  td_name :: jsstring
  td_description :: jsstring
  td_parameters :: jsval

definition to_pi_tool :: "tool_description \<Rightarrow> pi_tool" where
  "to_pi_tool t = \<lparr>pt_name = td_name t, pt_description = td_description t, pt_parameters = (case td_parameters t of
       JObj ps \<Rightarrow> JObj ps | JArr xs \<Rightarrow> JArr xs | _ \<Rightarrow> JObj [(js ''type'', JStr (js ''object'')), (js ''properties'', JObj [])])\<rparr>"

definition to_pi_context :: "(jsstring \<Rightarrow> jsval option) \<Rightarrow> llm_message list \<Rightarrow> tool_description list option \<Rightarrow> pi_context option" where
  "to_pi_context parse ms tools =
     (case all_some (map (to_pi_message parse) ms) of
        None \<Rightarrow> None
      | Some pss \<Rightarrow>
        let parts = concat (map system_part ms) in
        Some \<lparr>px_system = (if parts \<noteq> [] then Some (js_join [10, 10] parts) else None), px_messages = concat pss,
              px_tools = map_option (map to_pi_tool) tools\<rparr>)"

section \<open>Answers\<close>

record llm_usage =
  lu_input :: "int option"
  lu_output :: "int option"
  lu_total :: "int option"
  lu_cache_read :: "int option"
  lu_cache_write :: "int option"
  lu_reasoning :: "int option"
  lu_cost :: "rat option"

record pi_usage =
  pu_input :: int
  pu_output :: int
  pu_total :: int
  pu_cache_read :: int
  pu_cache_write :: int
  pu_reasoning :: "int option"
  pu_cost :: rat

definition from_pi_usage :: "pi_usage option \<Rightarrow> llm_usage option" where
  "from_pi_usage u = map_option (\<lambda>p. \<lparr>lu_input = Some (pu_input p), lu_output = Some (pu_output p), lu_total = Some (pu_total p),
     lu_cache_read = Some (pu_cache_read p), lu_cache_write = Some (pu_cache_write p), lu_reasoning = pu_reasoning p,
     lu_cost = Some (pu_cost p)\<rparr>) u"

text \<open>The blocks of an answer; others, and those without their text, are skipped.\<close>

datatype answer_block = AnswerText jsstring | AnswerThinking jsstring | AnswerCall jsstring jsstring "jsval option" | AnswerOther

record pi_answer =
  an_provider :: jsstring
  an_model :: jsstring
  an_content :: "answer_block list"
  an_usage :: "pi_usage option"
  an_stop :: jsstring
  an_error :: "jsstring option"

record llm_response =
  lr_provider :: llm_provider
  lr_model :: jsstring
  lr_text :: jsstring
  lr_thinking :: "jsstring option"
  lr_calls :: "tool_call list option"
  lr_usage :: "llm_usage option"

definition normalize_provider :: "jsstring \<Rightarrow> llm_provider \<Rightarrow> llm_provider" where
  "normalize_provider v fallback = (case find_provider v of Some p \<Rightarrow> p | None \<Rightarrow> fallback)"

definition call_arguments :: "jsval option \<Rightarrow> jsval" where
  "call_arguments v = (case v of None \<Rightarrow> JObj [] | Some JNull \<Rightarrow> JObj [] | Some JUndef \<Rightarrow> JObj [] | Some x \<Rightarrow> x)"

fun answer_text :: "answer_block \<Rightarrow> jsstring" where
  "answer_text (AnswerText t) = t" | "answer_text _ = []"

fun answer_thinking :: "answer_block \<Rightarrow> jsstring" where
  "answer_thinking (AnswerThinking t) = t" | "answer_thinking _ = []"

fun answer_calls :: "answer_block \<Rightarrow> tool_call list" where
  "answer_calls (AnswerCall i n v) = [\<lparr>call_id = i, call_name = n, call_input = call_arguments v\<rparr>]" | "answer_calls _ = []"

definition from_pi_assistant_message :: "pi_answer \<Rightarrow> llm_provider \<Rightarrow> llm_response" where
  "from_pi_assistant_message a fallback =
     (let thinking = concat (map answer_thinking (an_content a)); calls = concat (map answer_calls (an_content a)) in
      \<lparr>lr_provider = normalize_provider (an_provider a) fallback, lr_model = an_model a, lr_text = concat (map answer_text (an_content a)),
       lr_thinking = (if thinking \<noteq> [] then Some thinking else None), lr_calls = (if calls \<noteq> [] then Some calls else None),
       lr_usage = from_pi_usage (an_usage a)\<rparr>)"

datatype pi_event = PiTextDelta "jsstring option" | PiThinkingDelta "jsstring option"
  | PiCallEnd "(jsstring \<times> jsstring \<times> jsval option) option" | PiDone "pi_usage option" | PiError "jsstring option" jsstring | PiOtherEvent

datatype llm_chunk = ChunkText jsstring | ChunkThinking jsstring | ChunkCall tool_call | ChunkDone "llm_usage option"

definition non_empty_text :: "jsstring option \<Rightarrow> jsstring option" where
  "non_empty_text d = (case d of Some t \<Rightarrow> if t \<noteq> [] then Some t else None | None \<Rightarrow> None)"

text \<open>\<open>Inl\<close> is the message of an error.\<close>

definition map_pi_stream_event :: "pi_event \<Rightarrow> (jsstring + llm_chunk) option" where
  "map_pi_stream_event e =
     (case e of
        PiTextDelta d \<Rightarrow> map_option (\<lambda>t. Inr (ChunkText t)) (non_empty_text d)
      | PiThinkingDelta d \<Rightarrow> map_option (\<lambda>t. Inr (ChunkThinking t)) (non_empty_text d)
      | PiCallEnd c \<Rightarrow> map_option (\<lambda>(i, n, v). Inr (ChunkCall \<lparr>call_id = i, call_name = n, call_input = call_arguments v\<rparr>)) c
      | PiDone u \<Rightarrow> Some (Inr (ChunkDone (from_pi_usage u)))
      | PiError m r \<Rightarrow> Some (Inl (case m of Some t \<Rightarrow> t
          | None \<Rightarrow> if r = js ''aborted'' then js ''request aborted'' else js ''provider error''))
      | PiOtherEvent \<Rightarrow> None)"

section \<open>Metrics\<close>

datatype llm_error_category = LlmAuthentication | LlmPermission | LlmRateLimit | LlmInvalidRequest | LlmServer | LlmNetwork
  | LlmTimeout | LlmAborted | LlmUnknown

text \<open>The pattern for the word timeout is written with two backslashes: it asks for a backslash and the letter b
  around the word.\<close>

definition says_timeout :: "jsstring \<Rightarrow> bool" where
  "says_timeout m \<longleftrightarrow> has_sub (to_lower m) ([92] @ js ''btimeout'' @ [92] @ js ''b'') \<or> has_sub (to_lower m) (js ''timed out'')"

definition status_category :: "thrown \<Rightarrow> llm_error_category option" where
  "status_category e =
     (if is_error_named e (js ''LlmProviderError'') then
        (case err_status e of
           None \<Rightarrow> None
         | Some s \<Rightarrow>
             if s = 401 then Some LlmAuthentication else if s = 403 then Some LlmPermission else if s = 429 then Some LlmRateLimit
             else if 400 \<le> s \<and> s < 500 then Some LlmInvalidRequest else if 500 \<le> s then Some LlmServer else None)
      else None)"

definition classify_llm_error :: "thrown \<Rightarrow> llm_error_category" where
  "classify_llm_error e =
     (if is_operation_aborted e None then LlmAborted
      else case status_category e of
          Some c \<Rightarrow> c
        | None \<Rightarrow> if is_error e \<and> (err_name e = js ''TimeoutError'' \<or> says_timeout (err_text e)) then LlmTimeout
            else if is_error_named e (js ''TypeError'') then LlmNetwork else LlmUnknown)"

datatype call_status = CallCompleted | CallFailed | CallAborted

record call_metrics =
  lm_provider :: llm_provider
  lm_model :: jsstring
  lm_status :: call_status
  lm_duration :: int
  lm_limited :: bool
  lm_usage :: "llm_usage option"
  lm_error :: "llm_error_category option"

definition elapsed :: "rat \<Rightarrow> rat \<Rightarrow> int" where
  "elapsed a b = max 0 \<lfloor>b - a + 1 / 2\<rfloor>"

definition completed_metrics :: "llm_provider \<Rightarrow> jsstring \<Rightarrow> int \<Rightarrow> llm_usage option \<Rightarrow> call_metrics" where
  "completed_metrics p m d u = \<lparr>lm_provider = p, lm_model = m, lm_status = CallCompleted, lm_duration = d, lm_limited = False,
     lm_usage = u, lm_error = None\<rparr>"

definition failed_metrics :: "llm_provider \<Rightarrow> jsstring \<Rightarrow> int \<Rightarrow> thrown \<Rightarrow> call_metrics" where
  "failed_metrics p m d e = (let c = classify_llm_error e in
     \<lparr>lm_provider = p, lm_model = m, lm_status = (if c = LlmAborted then CallAborted else CallFailed), lm_duration = d,
      lm_limited = (c = LlmRateLimit), lm_usage = None, lm_error = Some c\<rparr>)"

section \<open>The client\<close>

record model_state =
  ms_provider :: llm_provider
  ms_model :: jsstring
  ms_pi :: pi_model
  ms_effort :: thinking_effort
  ms_usage :: "llm_usage option"
  ms_metrics :: "call_metrics option"

text \<open>What is fixed: the resolution of models, the credentials, the catalogue and how remote images are fetched.\<close>

record client_env =
  ce_resolve :: "jsstring \<Rightarrow> thrown + pi_model"
  ce_listed :: "jsstring \<Rightarrow> bool"
  ce_key :: "jsstring option"
  ce_token :: "jsstring option"
  ce_parse :: "jsstring \<Rightarrow> jsval option"
  ce_is_http :: "jsstring \<Rightarrow> bool"
  ce_fetch :: "jsstring \<Rightarrow> fetched_image option"

definition new_client :: "(jsstring \<Rightarrow> thrown + pi_model) \<Rightarrow> llm_provider \<Rightarrow> jsstring \<Rightarrow> thinking_effort option \<Rightarrow> thrown + model_state" where
  "new_client resolve p m effort = (case resolve m of
     Inl e \<Rightarrow> Inl e
   | Inr pm \<Rightarrow> Inr \<lparr>ms_provider = p, ms_model = m, ms_pi = pm, ms_effort = (case effort of Some e \<Rightarrow> e | None \<Rightarrow> DEFAULT_THINKING_EFFORT),
       ms_usage = None, ms_metrics = None\<rparr>)"

definition client_capabilities :: "client_env \<Rightarrow> model_state \<Rightarrow> llm_capabilities" where
  "client_capabilities env st = capabilities_for_pi_model (ms_pi st) (if ce_listed env (pi_id (ms_pi st)) then FromCatalog else FromAdapter)"

definition clear_last_usage :: "model_state \<Rightarrow> model_state" where
  "clear_last_usage st = st\<lparr>ms_usage := None, ms_metrics := None\<rparr>"

text \<open>The new name is stored before it is resolved.\<close>

definition client_set_model :: "client_env \<Rightarrow> jsstring \<Rightarrow> model_state \<Rightarrow> (thrown + unit) \<times> model_state" where
  "client_set_model env m st =
     (let nxt = js_trim m in
      if nxt = [] then (Inl (plain_error (js ''Error'') ((js ''model '' @ [0x4E0D, 0x80FD, 0x4E3A, 0x7A7A]))), st)
      else case ce_resolve env nxt of
          Inl e \<Rightarrow> (Inl e, st\<lparr>ms_model := nxt\<rparr>)
        | Inr pm \<Rightarrow> (Inr (), st\<lparr>ms_model := nxt, ms_pi := pm\<rparr>))"

definition client_set_effort :: "thinking_effort \<Rightarrow> model_state \<Rightarrow> model_state" where
  "client_set_effort e st = st\<lparr>ms_effort := e\<rparr>"

record llm_request =
  rq_messages :: "llm_message list"
  rq_tools :: "tool_description list option"
  rq_model :: "jsstring option"
  rq_max :: "int option"
  rq_temperature :: "rat option"
  rq_effort :: "thinking_effort option"

definition prepare_messages :: "client_env \<Rightarrow> bool \<Rightarrow> llm_message list \<Rightarrow> llm_message list option" where
  "prepare_messages env multi ms =
     (case resolve_remote_images (ce_is_http env) (ce_fetch env) (apply_multimodal_read_policy ms multi) of
        None \<Rightarrow> None
      | Some ms1 \<Rightarrow> drop_remote_url_images ms1)"

definition url_error :: thrown where
  "url_error = plain_error (js ''TypeError'') (js ''Cannot read properties of undefined (reading 'trim')'')"

definition model_for_request :: "client_env \<Rightarrow> llm_request \<Rightarrow> model_state \<Rightarrow> thrown + pi_model" where
  "model_for_request env rq st =
     (let i = (case rq_model rq of Some m \<Rightarrow> m | None \<Rightarrow> ms_model st) in
      if i = pi_id (ms_pi st) then Inr (ms_pi st) else ce_resolve env i)"

record stream_options =
  op_temperature :: "rat option"
  op_max :: int
  op_reasoning :: "thinking_effort option"
  op_authorization :: "jsstring option"
  op_key :: "jsstring option"

text \<open>The token counts for Anthropic alone; an empty credential is none.\<close>

definition auth_token :: "client_env \<Rightarrow> model_state \<Rightarrow> jsstring option" where
  "auth_token env st = (if ms_provider st = Anthropic then non_empty_text (ce_token env) else None)"

definition simple_stream_options :: "client_env \<Rightarrow> llm_request \<Rightarrow> pi_model \<Rightarrow> model_state \<Rightarrow> stream_options" where
  "simple_stream_options env rq m st =
     (let effort = (case rq_effort rq of Some e \<Rightarrow> e | None \<Rightarrow> ms_effort st) in
      \<lparr>op_temperature = rq_temperature rq,
       op_max = (case rq_max rq of Some n \<Rightarrow> n | None \<Rightarrow> (case pi_max m of Some n \<Rightarrow> n | None \<Rightarrow> FALLBACK_MAX_TOKENS)),
       op_reasoning = (if effort \<noteq> EffortOff then Some effort else None),
       op_authorization = map_option (\<lambda>t. js ''Bearer '' @ t) (auth_token env st),
       op_key = (if auth_token env st \<noteq> None then None else non_empty_text (ce_key env))\<rparr>)"

text \<open>What a call sends to the package, or the error before it.\<close>

record pi_call =
  pc_model :: pi_model
  pc_context :: pi_context
  pc_options :: stream_options

definition prepare_call :: "client_env \<Rightarrow> llm_request \<Rightarrow> model_state \<Rightarrow> thrown + pi_call" where
  "prepare_call env rq st =
     (case prepare_messages env (cap_images (client_capabilities env st)) (rq_messages rq) of
        None \<Rightarrow> Inl url_error
      | Some ms \<Rightarrow> (case model_for_request env rq st of
          Inl e \<Rightarrow> Inl e
        | Inr m \<Rightarrow> (case to_pi_context (ce_parse env) ms (rq_tools rq) of
            None \<Rightarrow> Inl url_error
          | Some cx \<Rightarrow> Inr \<lparr>pc_model = m, pc_context = cx, pc_options = simple_stream_options env rq m st\<rparr>)))"

definition record_failure :: "jsstring \<Rightarrow> int \<Rightarrow> thrown \<Rightarrow> model_state \<Rightarrow> model_state" where
  "record_failure m d e st = st\<lparr>ms_metrics := Some (failed_metrics (ms_provider st) m d e)\<rparr>"

definition provider_error :: "jsstring \<Rightarrow> thrown" where
  "provider_error m = plain_error (js ''LlmProviderError'') m"

text \<open>\<open>complete\<close>: \<open>sig\<close> at the start, the race of the answer, the signal behind it, and the time it took.\<close>

definition client_complete ::
    "client_env \<Rightarrow> abort_signal option \<Rightarrow> thrown + pi_answer \<Rightarrow> abort_signal option \<Rightarrow> int \<Rightarrow> llm_request \<Rightarrow> model_state
      \<Rightarrow> (thrown + llm_response) \<times> model_state" where
  "client_complete env sig answer sig' d rq st =
     (case throw_if_aborted sig of
        Inl e \<Rightarrow> (Inl e, st)
      | Inr _ \<Rightarrow> (case prepare_call env rq st of
          Inl e \<Rightarrow> (Inl e, st)
        | Inr pc \<Rightarrow> (case answer of
            Inl e \<Rightarrow> (Inl e, record_failure (pi_id (pc_model pc)) d e st)
          | Inr a \<Rightarrow>
              if an_stop a = js ''aborted'' \<or> is_aborted sig'
              then (Inl (abort_reason sig' (case an_error a of Some t \<Rightarrow> t | None \<Rightarrow> js ''request aborted'')), st)
              else if an_stop a = js ''error''
              then (Inl (provider_error (case an_error a of Some t \<Rightarrow> t | None \<Rightarrow> js ''request error'')), st)
              else let r = from_pi_assistant_message a (ms_provider st)
                in (Inr r, st\<lparr>ms_usage := lr_usage r, ms_metrics := Some (completed_metrics (ms_provider st)
                     (or_text (lr_model r) (pi_id (pc_model pc))) d (lr_usage r))\<rparr>))))"

text \<open>The body of the stream over the events that arrive, with the signal and the time at each, and how the iteration
  ends. The chunks yielded come with it.\<close>

definition stream_failed :: "abort_signal option \<Rightarrow> jsstring \<Rightarrow> int \<Rightarrow> thrown \<Rightarrow> model_state \<Rightarrow> iterate_end \<times> model_state" where
  "stream_failed sig m d e st = (Threw (if is_operation_aborted e sig \<and> \<not> is_error e then abort_reason sig ABORTED_TEXT else e),
     record_failure m d e st)"

fun stream_body ::
    "(nat \<Rightarrow> abort_signal option) \<Rightarrow> (nat \<Rightarrow> int) \<Rightarrow> jsstring \<Rightarrow> nat \<Rightarrow> pi_event list \<Rightarrow> iterate_end \<Rightarrow> model_state
      \<Rightarrow> llm_chunk list \<times> iterate_end \<times> model_state" where
  "stream_body sig time m k [] en st =
     (case en of Threw e \<Rightarrow> ([], stream_failed (sig k) m (time k) e st) | _ \<Rightarrow> ([], en, st))"
| "stream_body sig time m k (e # es) en st =
     (case throw_if_aborted (sig k) of
        Inl x \<Rightarrow> ([], stream_failed (sig k) m (time k) x st)
      | Inr _ \<Rightarrow> (case map_pi_stream_event e of
          None \<Rightarrow> stream_body sig time m (Suc k) es en st
        | Some (Inl t) \<Rightarrow> ([], stream_failed (sig k) m (time k)
            (if is_aborted (sig k) \<or> has_sub (to_lower t) (js ''abort'') then abort_reason (sig k) t else provider_error t) st)
        | Some (Inr c) \<Rightarrow>
            let st1 = (case c of
                ChunkDone u \<Rightarrow> st\<lparr>ms_usage := u, ms_metrics := Some (completed_metrics (ms_provider st) m (time k) u)\<rparr>
              | _ \<Rightarrow> st)
            in (case stream_body sig time m (Suc k) es en st1 of (cs, r) \<Rightarrow> (c # cs, r))))"

definition STREAM_IDLE_MS :: nat where "STREAM_IDLE_MS = 180000"

definition stream_race :: race_options where
  "stream_race = \<lparr>idle_ms = Some STREAM_IDLE_MS, idle_message = Some (js ''LLM stream idle for '' @ show_nat STREAM_IDLE_MS @ js ''ms'')\<rparr>"

definition client_stream ::
    "client_env \<Rightarrow> abort_signal option \<Rightarrow> (abort_signal option \<times> pi_event option race_event list) list \<Rightarrow> (nat \<Rightarrow> abort_signal option)
      \<Rightarrow> (nat \<Rightarrow> int) \<Rightarrow> llm_request \<Rightarrow> model_state \<Rightarrow> llm_chunk list \<times> iterate_end \<times> model_state" where
  "client_stream env sig steps sigs time rq st =
     (case throw_if_aborted sig of
        Inl e \<Rightarrow> ([], Threw e, st)
      | Inr _ \<Rightarrow>
        let st1 = st\<lparr>ms_usage := None\<rparr> in
        (case prepare_call env rq st1 of
           Inl e \<Rightarrow> ([], Threw e, st1)
         | Inr pc \<Rightarrow> (case iterate_abortable (Some stream_race) steps of
             (es, en) \<Rightarrow> stream_body sigs time (pi_id (pc_model pc)) 0 es en st1)))"

end
