(* ===== verification/Telemetry.thy ===== *)
theory Telemetry
  imports Model_Calls
begin

text \<open>
  The trace stores of \<open>trace/\<close>, and the usage of a run that \<open>runtime/agentRuntime.ts\<close> sums up from the metrics in
  its trace. A listener is known by a number, and what it does with an event is an argument: it may subscribe and
  unsubscribe listeners, and throw.
\<close>

section \<open>Stores\<close>

record traced =
  tv_run :: jsstring
  tv_type :: jsstring
  tv_payload :: "(jsstring \<times> jsval) list"

definition store_append :: "traced \<Rightarrow> traced list \<Rightarrow> traced list" where
  "store_append e es = es @ [e]"

definition read_run :: "jsstring \<Rightarrow> traced list \<Rightarrow> traced list" where
  "read_run run es = filter (\<lambda>e. tv_run e = run) es"

text \<open>The ids from the latest event back, each once; an empty id is passed over.\<close>

fun run_ids_from :: "jsstring list \<Rightarrow> traced list \<Rightarrow> jsstring list" where
  "run_ids_from seen [] = []"
| "run_ids_from seen (e # es) =
     (if tv_run e = [] \<or> tv_run e \<in> set seen then run_ids_from seen es else tv_run e # run_ids_from (tv_run e # seen) es)"

definition list_run_ids :: "traced list \<Rightarrow> jsstring list" where
  "list_run_ids es = run_ids_from [] (rev es)"

datatype listener_change = Subscribes nat | Unsubscribes nat

record observable =
  ob_events :: "traced list"
  ob_listeners :: "nat list"
  ob_heard :: "(nat \<times> traced) list"
  ob_failures :: "(nat \<times> thrown) list"

definition subscribe :: "nat \<Rightarrow> observable \<Rightarrow> observable" where
  "subscribe l ob = ob\<lparr>ob_listeners := (if l \<in> set (ob_listeners ob) then ob_listeners ob else ob_listeners ob @ [l])\<rparr>"

definition unsubscribe :: "nat \<Rightarrow> observable \<Rightarrow> observable" where
  "unsubscribe l ob = ob\<lparr>ob_listeners := filter (\<lambda>k. k \<noteq> l) (ob_listeners ob)\<rparr>"

fun change_listeners :: "listener_change \<Rightarrow> observable \<Rightarrow> observable" where
  "change_listeners (Subscribes l) ob = subscribe l ob"
| "change_listeners (Unsubscribes l) ob = unsubscribe l ob"

definition notify :: "(nat \<Rightarrow> traced \<Rightarrow> listener_change list \<times> thrown option) \<Rightarrow> traced \<Rightarrow> nat \<Rightarrow> observable \<Rightarrow> observable" where
  "notify react e l ob =
     (case react l e of (cs, failed) \<Rightarrow>
        let ob1 = fold change_listeners cs (ob\<lparr>ob_heard := ob_heard ob @ [(l, e)]\<rparr>)
        in (case failed of None \<Rightarrow> ob1 | Some x \<Rightarrow> ob1\<lparr>ob_failures := ob_failures ob1 @ [(l, x)]\<rparr>))"

definition observable_append ::
    "(nat \<Rightarrow> traced \<Rightarrow> listener_change list \<times> thrown option) \<Rightarrow> traced \<Rightarrow> observable \<Rightarrow> observable" where
  "observable_append react e ob = fold (notify react e) (ob_listeners ob) (ob\<lparr>ob_events := store_append e (ob_events ob)\<rparr>)"

section \<open>Usage of a run\<close>

record run_usage =
  us_calls :: nat
  us_input :: rat
  us_output :: rat
  us_total :: rat
  us_cache_read :: rat
  us_cache_write :: rat
  us_reasoning :: rat
  us_cost :: rat
  us_duration :: rat

definition no_usage :: run_usage where
  "no_usage = \<lparr>us_calls = 0, us_input = 0, us_output = 0, us_total = 0, us_cache_read = 0, us_cache_write = 0, us_reasoning = 0,
     us_cost = 0, us_duration = 0\<rparr>"

text \<open>\<open>num\<close> reads the digits of a number that is no integer.\<close>

definition as_finite_number :: "(jsstring \<Rightarrow> rat) \<Rightarrow> jsval \<Rightarrow> rat" where
  "as_finite_number num v = (case v of JInt n \<Rightarrow> of_int n | JFloat s \<Rightarrow> num s | _ \<Rightarrow> 0)"

definition fields_of :: "jsval \<Rightarrow> (jsstring \<times> jsval) list" where
  "fields_of v = (case as_record v of Some ps \<Rightarrow> ps | None \<Rightarrow> [])"

definition add_metrics :: "(jsstring \<Rightarrow> rat) \<Rightarrow> traced \<Rightarrow> run_usage \<Rightarrow> run_usage" where
  "add_metrics num e u =
     (let metrics = fields_of (getp (tv_payload e) ''metrics''); cu = fields_of (getp metrics ''usage'') in
      case getp metrics ''status'' of
        JStr s \<Rightarrow> \<lparr>us_calls = us_calls u + 1, us_input = us_input u + as_finite_number num (getp cu ''inputTokens''),
            us_output = us_output u + as_finite_number num (getp cu ''outputTokens''),
            us_total = us_total u + as_finite_number num (getp cu ''totalTokens''),
            us_cache_read = us_cache_read u + as_finite_number num (getp cu ''cacheReadTokens''),
            us_cache_write = us_cache_write u + as_finite_number num (getp cu ''cacheWriteTokens''),
            us_reasoning = us_reasoning u + as_finite_number num (getp cu ''reasoningTokens''),
            us_cost = us_cost u + as_finite_number num (getp cu ''estimatedCostUsd''),
            us_duration = us_duration u + as_finite_number num (getp metrics ''durationMs'')\<rparr>
      | _ \<Rightarrow> u)"

definition summarize_run_usage :: "(jsstring \<Rightarrow> rat) \<Rightarrow> traced list \<Rightarrow> run_usage option" where
  "summarize_run_usage num es = (let u = fold (add_metrics num) es no_usage in if us_calls u > 0 then Some u else None)"

definition get_run_usage :: "(jsstring \<Rightarrow> rat) \<Rightarrow> jsstring \<Rightarrow> traced list \<Rightarrow> run_usage option" where
  "get_run_usage num run es = summarize_run_usage num (read_run run es)"

section \<open>The metrics in a payload\<close>

fun call_status_name :: "call_status \<Rightarrow> jsstring" where
  "call_status_name CallCompleted = js ''completed'' " | "call_status_name CallFailed = js ''failed''"
| "call_status_name CallAborted = js ''aborted''"

fun llm_category_name :: "llm_error_category \<Rightarrow> jsstring" where
  "llm_category_name LlmAuthentication = js ''authentication''" | "llm_category_name LlmPermission = js ''permission''"
| "llm_category_name LlmRateLimit = js ''rate-limit''" | "llm_category_name LlmInvalidRequest = js ''invalid-request''"
| "llm_category_name LlmServer = js ''server''" | "llm_category_name LlmNetwork = js ''network''"
| "llm_category_name LlmTimeout = js ''timeout''" | "llm_category_name LlmAborted = js ''aborted''"
| "llm_category_name LlmUnknown = js ''unknown''"

definition count_value :: "int option \<Rightarrow> jsval" where
  "count_value n = (case n of Some k \<Rightarrow> JInt k | None \<Rightarrow> JUndef)"

text \<open>\<open>shown\<close> is the number a cost is.\<close>

definition usage_value :: "(rat \<Rightarrow> jsval) \<Rightarrow> llm_usage \<Rightarrow> jsval" where
  "usage_value shown u = JObj [(js ''inputTokens'', count_value (lu_input u)), (js ''outputTokens'', count_value (lu_output u)),
     (js ''totalTokens'', count_value (lu_total u)), (js ''cacheReadTokens'', count_value (lu_cache_read u)),
     (js ''cacheWriteTokens'', count_value (lu_cache_write u)), (js ''reasoningTokens'', count_value (lu_reasoning u)),
     (js ''estimatedCostUsd'', case lu_cost u of Some c \<Rightarrow> shown c | None \<Rightarrow> JUndef)]"

definition metrics_value :: "(rat \<Rightarrow> jsval) \<Rightarrow> call_metrics \<Rightarrow> jsval" where
  "metrics_value shown m = JObj ([(js ''version'', JInt 1), (js ''provider'', JStr (provider_id (lm_provider m))),
      (js ''model'', JStr (lm_model m)), (js ''status'', JStr (call_status_name (lm_status m))), (js ''durationMs'', JInt (lm_duration m)),
      (js ''rateLimited'', JBool (lm_limited m))]
    @ (case lm_usage m of Some u \<Rightarrow> [(js ''usage'', usage_value shown u)] | None \<Rightarrow> [])
    @ (case lm_error m of Some c \<Rightarrow> [(js ''errorCategory'', JStr (llm_category_name c))] | None \<Rightarrow> []))"

text \<open>The event a loop records behind a call of the model holds the metrics the client has then.\<close>

definition metrics_event :: "(rat \<Rightarrow> jsval) \<Rightarrow> jsstring \<Rightarrow> jsstring \<Rightarrow> model_state \<Rightarrow> traced" where
  "metrics_event shown run type st = \<lparr>tv_run = run, tv_type = type, tv_payload =
     [(js ''metrics'', case ms_metrics st of Some m \<Rightarrow> metrics_value shown m | None \<Rightarrow> JUndef)]\<rparr>"

end
