(* ===== verification/Governor_Total.thy ===== *)
theory Governor_Total
  imports Governor_Keeps
begin

text \<open>
  The governor returns: the loop of the hard truncation ends, whatever the thread. And what it
  returns accounts for the tokens, stage by stage, with the stages in the order of the pipeline.
\<close>

section \<open>The hard truncation ends\<close>

lemma drop_update_first: "i < length xs \<Longrightarrow> p (xs ! i) \<Longrightarrow> drop (Suc i) (update_first p f xs) = drop (Suc i) xs"
proof (induction xs arbitrary: i)
  case (Cons x xs)
  then show ?case by (cases i) auto
qed simp

definition notice_message :: "entry_kind \<Rightarrow> llm_message" where
  "notice_message k = Chat User (NOTICE_PREFIX @ truncation_notice k) None None"

lemma add_truncation_notice:
  "\<exists>e. entries (add_notice est (truncation_notice k) th) = entries th @ [e] \<and> tokens_est e = est (notice_message k)"
  by (auto simp: add_notice_def next_turn_id_def ensure_turn_def append_entry_def Let_def notice_message_def
      split: option.splits)

definition over_cap :: "int \<Rightarrow> thread_entry list \<Rightarrow> nat" where
  "over_cap cap es = length (filter (\<lambda>e. \<not> int (tokens_est e) \<le> cap) es)"

lemma hard_truncate_ends:
  assumes "\<And>k. int (est (notice_message k)) \<le> cap"
  shows "length (drop i (entries th)) + over_cap cap (drop i (entries th)) < fuel \<Longrightarrow>
    hard_truncate_loop est cap fuel i th c \<noteq> None"
proof (induction fuel arbitrary: i th c)
  case (Suc fuel)
  show ?case
  proof (cases "length (entries th) \<le> i")
    case False
    then have d: "drop i (entries th) = entries th ! i # drop (Suc i) (entries th)"
      by (simp add: Cons_nth_drop_Suc)
    show ?thesis
    proof (cases "int (tokens_est (entries th ! i)) \<le> cap")
      case True
      then show ?thesis using Suc False d
        by (auto simp: hard_truncate_loop.simps Let_def over_cap_def)
    next
      case over: False
      let ?th = "truncate_entry est (entry_id (entries th ! i))
        (truncate_head_tail (msg_content (message (entries th ! i))) cap @ truncation_suffix (entries th ! i)) th"
      let ?th' = "add_notice est (truncation_notice (kind (entries th ! i))) ?th"
      obtain e where e: "entries ?th' = entries ?th @ [e]" "tokens_est e = est (notice_message (kind (entries th ! i)))"
        using add_truncation_notice by blast
      have "drop (Suc i) (entries ?th) = drop (Suc i) (entries th)" "length (entries ?th) = length (entries th)"
        using False by (simp_all add: truncate_entry_def drop_update_first)
      then have d': "drop (Suc i) (entries ?th') = drop (Suc i) (entries th) @ [e]"
        using False by (simp add: e(1))
      have "over_cap cap (drop (Suc i) (entries ?th')) = over_cap cap (drop (Suc i) (entries th))"
        using assms[of "kind (entries th ! i)"] by (simp add: d' over_cap_def e(2))
      moreover have "over_cap cap (drop i (entries th)) = Suc (over_cap cap (drop (Suc i) (entries th)))"
        using over by (simp add: d over_cap_def)
      moreover have "length (drop (Suc i) (entries ?th')) = length (drop i (entries th))"
        using d' d by simp
      ultimately have "hard_truncate_loop est cap fuel (Suc i) ?th' True \<noteq> None"
        using Suc.prems by (intro Suc.IH) linarith
      then show ?thesis using over False by (simp add: hard_truncate_loop.simps Let_def)
    qed
  qed (simp add: hard_truncate_loop.simps)
qed simp

lemma over_cap_length: "over_cap cap es \<le> length es"
  by (simp add: over_cap_def)

lemma apply_hard_ends:
  assumes "\<And>k. int (est (notice_message k)) \<le> 256"
  shows "apply_hard_truncation est budget th \<noteq> None"
proof -
  let ?cap = "max 256 (budget div max 1 (int (length (entries th))))"
  have "hard_truncate_loop est ?cap (Suc (2 * length (entries th))) 0 th False \<noteq> None"
    using assms over_cap_length[of ?cap "entries th"]
    by (intro hard_truncate_ends) (auto simp: le_max_iff_disj)
  then show ?thesis by (auto simp: apply_hard_truncation_def Let_def)
qed

lemma govern_ends:
  assumes "\<And>k. int (est (notice_message k)) \<le> 256"
  shows "govern est p summ sig budget th \<noteq> None"
proof -
  obtain th1 c1 m1 where a: "apply_tool_aging est p th = (th1, c1, m1)" by (metis prod_cases3)
  obtain th2 r2 where c: "apply_turn_compaction est p summ sig budget th1 = (th2, r2)" by force
  obtain h where "apply_hard_truncation est budget th2 = Some h"
    using apply_hard_ends[of est budget th2] assms by blast
  then show ?thesis
    by (cases h) (auto simp: govern_def Let_def a c split: sum.split prod.split)
qed

text \<open>The notices are short, so the default estimator keeps them under every cap.\<close>

lemma notice_short: "length (NOTICE_PREFIX @ truncation_notice k) \<le> 32"
  by (cases k) (simp_all add: NOTICE_PREFIX_def truncation_notice_def)

lemma notice_message_tokens: "default_range e \<Longrightarrow> est_message e (notice_message k) \<le> 256"
proof -
  assume d: "default_range e"
  have "estimate_message_tokens (notice_message k) \<le> 36"
    using text_tokens_upper[of "NOTICE_PREFIX @ truncation_notice k"] notice_short[of k]
    by (simp add: notice_message_def MESSAGE_OVERHEAD_TOKENS_def)
  then show ?thesis using est_message_upper[OF d, of "notice_message k"] by linarith
qed

section \<open>The stages in order\<close>

instantiation governance_stage :: linorder
begin

fun stage_rank :: "governance_stage \<Rightarrow> nat" where
  "stage_rank ToolAging = 0" | "stage_rank TurnCompaction = 1" | "stage_rank HardTruncation = 2"

definition less_eq_governance_stage :: "governance_stage \<Rightarrow> governance_stage \<Rightarrow> bool" where
  "less_eq_governance_stage a b \<longleftrightarrow> stage_rank a \<le> stage_rank b"

definition less_governance_stage :: "governance_stage \<Rightarrow> governance_stage \<Rightarrow> bool" where
  "less_governance_stage a b \<longleftrightarrow> stage_rank a < stage_rank b"

instance
proof
  fix a b :: governance_stage
  show "a \<le> b \<Longrightarrow> b \<le> a \<Longrightarrow> a = b"
    by (cases a; cases b) (auto simp: less_eq_governance_stage_def)
qed (auto simp: less_eq_governance_stage_def less_governance_stage_def)

end

lemma stage_order [simp]: "ToolAging < TurnCompaction" "ToolAging < HardTruncation" "TurnCompaction < HardTruncation"
  by (simp_all add: less_governance_stage_def)

text \<open>Each step starts from the tokens the step before it left.\<close>

fun accounts :: "nat \<Rightarrow> maintenance list \<Rightarrow> nat \<Rightarrow> bool" where
  "accounts a [] b \<longleftrightarrow> a = b"
| "accounts a (m # ms) b \<longleftrightarrow> tokens_before m = a \<and> accounts (tokens_after m) ms b"

lemma accounts_append: "accounts a (ms @ ns) b \<longleftrightarrow> (\<exists>c. accounts a ms c \<and> accounts c ns b)"
  by (induction ms arbitrary: a) auto

lemma cap_results_unchanged: "cap_results est p is th c tt = (th', False, tt') \<Longrightarrow> th' = th \<and> \<not> c"
proof (induction "is" arbitrary: th c tt)
  case (Cons i "is")
  from Cons.prems show ?case
    by (simp add: Let_def split: if_splits) (use Cons.IH in blast)+
qed simp

lemma age_results_unchanged: "age_results est p k is th c tt = (th', False) \<Longrightarrow> th' = th \<and> \<not> c"
proof (induction "is" arbitrary: th c tt)
  case (Cons i "is")
  from Cons.prems show ?case
    by (simp add: Let_def split: if_splits) (use Cons.IH in blast)+
qed simp

lemma cap_age_unchanged:
  assumes "cap_results est p is th False t = (x, c, u)" "age_results est p k ks x c u = (th', False)"
  shows "th' = th"
proof -
  have "th' = x" "c = False" using age_results_unchanged[OF assms(2)] by auto
  then show ?thesis using cap_results_unchanged[of est p "is" th False t x u] assms(1) by simp
qed

lemma hard_loop_unchanged: "hard_truncate_loop est cap fuel i th c = Some (th', c') \<Longrightarrow> \<not> c' \<Longrightarrow> th' = th \<and> \<not> c"
proof (induction fuel arbitrary: i th c)
  case (Suc fuel)
  from Suc.prems(1) show ?case by (cases rule: hard_step) (use Suc in blast)+
qed (simp add: hard_truncate_loop.simps)

definition stage_step :: "governance_stage \<Rightarrow> thread \<Rightarrow> thread \<Rightarrow> bool \<Rightarrow> maintenance \<Rightarrow> bool" where
  "stage_step st th th' c m \<longleftrightarrow> (\<not> c \<longrightarrow> th' = th)
     \<and> (c \<longrightarrow> compacted m \<and> m_stage m = Some st \<and> tokens_before m = thread_tokens th
            \<and> tokens_after m = thread_tokens th')"

lemma aging_step: "apply_tool_aging est p th = (th', c, m) \<Longrightarrow> stage_step ToolAging th th' c m"
  unfolding apply_tool_aging_def stage_step_def
  by (auto simp: Let_def stage_maintenance_def empty_maintenance_def split: if_splits prod.splits
      dest: cap_age_unchanged)

lemma compaction_step:
  "apply_turn_compaction est p summ sig budget th = (th', Inr (c, m)) \<Longrightarrow> stage_step TurnCompaction th th' c m"
  unfolding apply_turn_compaction_def compact_prefix_def stage_step_def
  by (auto simp: Let_def stage_maintenance_def empty_maintenance_def
      split: if_splits option.splits sum.splits)

lemma hard_step_ok:
  "apply_hard_truncation est budget th = Some (th', c, m) \<Longrightarrow> stage_step HardTruncation th th' c m"
  unfolding apply_hard_truncation_def stage_step_def
  by (auto simp: Let_def stage_maintenance_def empty_maintenance_def
      split: if_splits option.splits dest: hard_loop_unchanged)

definition stages_of :: "maintenance list \<Rightarrow> governance_stage list" where
  "stages_of ms = map (\<lambda>m. the (m_stage m)) ms"

lemma govern_accounts:
  assumes "govern est p summ sig budget th = Some (th', Inr (ms, n))"
  shows "n = thread_tokens th' \<and> accounts (thread_tokens th) ms n \<and> sorted_wrt (<) (stages_of ms)
    \<and> (\<forall>m \<in> set ms. compacted m)"
proof -
  obtain th1 c1 m1 where a: "apply_tool_aging est p th = (th1, c1, m1)" by (metis prod_cases3)
  obtain th2 r2 where c: "apply_turn_compaction est p summ sig budget th1 = (th2, r2)" by force
  note s1 = aging_step[OF a, unfolded stage_step_def]
  show ?thesis
  proof (cases r2)
    case (Inl e)
    then show ?thesis using assms s1
      by (auto simp: govern_def Let_def a c stages_of_def split: if_splits)
  next
    case (Inr cm)
    obtain c2 m2 where cm: "cm = (c2, m2)" by force
    note s2 = compaction_step[OF c[unfolded Inr cm], unfolded stage_step_def]
    show ?thesis
    proof (cases "apply_hard_truncation est budget th2")
      case None
      then show ?thesis using assms s1 s2
        by (auto simp: govern_def Let_def a c Inr cm stages_of_def split: if_splits)
    next
      case (Some h)
      obtain th3 c3 m3 where h: "h = (th3, c3, m3)" by (metis prod_cases3)
      note s3 = hard_step_ok[OF Some[unfolded h], unfolded stage_step_def]
      show ?thesis using assms s1 s2 s3
        by (auto simp: govern_def Let_def a c Inr cm Some h stages_of_def split: if_splits)
    qed
  qed
qed

text \<open>A run that ends over the budget without an error has tried every stage on the way.\<close>

lemma govern_under_budget:
  "int (thread_tokens th) \<le> budget \<Longrightarrow> \<not> sig AtStart \<Longrightarrow>
   govern est p summ sig budget th = Some (th, Inr ([], thread_tokens th))"
  by (simp add: govern_def)

section \<open>Truncation\<close>

lemma truncate_length: "int (length (truncate_head_tail s n)) \<le> max 32 (n * 4)"
proof -
  define k where "k = nat (max 32 (n * 4))"
  have k: "32 \<le> k" "int k = max 32 (n * 4)" by (auto simp: k_def)
  have "length OMITTED = 11" by (simp add: OMITTED_def)
  then have "length (truncate_head_tail s n) \<le> k"
    using k(1) by (auto simp: truncate_head_tail_def k_def[symmetric] Let_def slice_last_def)
  with k(2) show ?thesis by linarith
qed

lemma truncate_short: "int (length s) \<le> max 32 (n * 4) \<Longrightarrow> truncate_head_tail s n = s"
  by (auto simp: truncate_head_tail_def Let_def)

lemma truncate_ends:
  assumes "max 32 (n * 4) < int (length s)"
  shows "\<exists>h. 6 \<le> h \<and> truncate_head_tail s n = take h s @ OMITTED @ drop (length s - h) s"
proof -
  define k where "k = nat (max 32 (n * 4))"
  have k: "32 \<le> k" "\<not> length s \<le> k" using assms by (auto simp: k_def)
  have "6 \<le> (k - 20) div 2" using k(1) by linarith
  moreover have "truncate_head_tail s n = take ((k - 20) div 2) s @ OMITTED @ drop (length s - (k - 20) div 2) s"
    using k by (auto simp: truncate_head_tail_def k_def[symmetric] Let_def slice_last_def)
  ultimately show ?thesis by blast
qed

text \<open>The cut counts four characters to a token, so a Chinese text of up to four times the cap
  passes through it whole.\<close>

lemma truncate_cjk:
  "\<forall>c \<in> set s. is_cjk c \<Longrightarrow> 8 \<le> n \<Longrightarrow> int (length s) = 4 * n \<Longrightarrow>
   truncate_head_tail s n = s \<and> int (estimate_text_tokens s) = 4 * n"
  by (simp add: truncate_short text_tokens_cjk)
section \<open>A small thread\<close>

text \<open>An open turn with a call, its result, and a long answer: a thread the pipeline has to truncate.\<close>

definition demo_options :: policy_options where
  "demo_options = \<lparr>opt_context_window = None, opt_is_subagent = False, opt_preserve_full_turns = None,
     opt_preserve_recent_tokens = None, opt_preserve_tool_iterations = None, opt_max_tool_result_tokens = None\<rparr>"

definition demo_call :: tool_call where
  "demo_call = \<lparr>call_id = js ''c1'', call_name = js ''read'', call_input = JNull\<rparr>"

definition demo_calls :: "thread_call list" where
  "demo_calls = [BeginTurn (js ''hi'') None, AppendAssistant (js ''ok'') (Some [demo_call]),
     AppendToolResult \<lparr>tr_call_id = js ''c1'', tr_name = js ''read'', tr_content = replicate 2000 97,
       tr_summary = None, tr_iteration = None\<rparr>]"

definition demo_thread :: thread where
  "demo_thread = (case run_calls (thread_exec estimate_message_tokens) demo_calls (new_thread 0 0) of
     Inr th \<Rightarrow> th | Inl e \<Rightarrow> new_thread 0 0)"

lemmas demo_defs = demo_calls_def begin_turn_def append_assistant_def append_tool_result_def new_thread_def
  next_turn_id_def require_open_turn_def append_entry_def update_last_def Let_def

lemma demo_run: "run_calls (thread_exec estimate_message_tokens) demo_calls (new_thread 0 0) = Inr demo_thread"
proof -
  have "\<exists>th. run_calls (thread_exec estimate_message_tokens) demo_calls (new_thread 0 0) = Inr th"
    by (simp add: demo_defs)
  then show ?thesis by (auto simp: demo_thread_def)
qed

lemma demo_thread_ok: "thread_ok demo_thread"
  by (rule tho.run_inv[OF new_thread_ok demo_run])

lemma demo_ok: "thread_wf demo_thread" and demo_ol: "open_last (open_turn demo_thread) (entries demo_thread)"
  using demo_thread_ok by (simp_all add: thread_ok_def)

lemma demo_open: "open_turn demo_thread = Some (turn_name 1)"
  by (simp add: demo_thread_def demo_defs)

lemma demo_skel: "\<exists>a b c. entries demo_thread = [a, b, c] \<and> kind a = KUser \<and> kind b = KAssistant
   \<and> is_assistant_entry b \<and> \<not> is_assistant_entry c \<and> turn_id c = turn_id b
   \<and> calls_of (message b) = [demo_call] \<and> result_id (message c) = Some (call_id demo_call)"
  by (simp add: demo_thread_def demo_defs is_assistant_entry_def calls_of_def result_id_def demo_call_def)

lemma demo_paired: "paired (entries demo_thread)"
proof -
  obtain a b c where e: "entries demo_thread = [a, b, c]" "kind a = KUser" "kind b = KAssistant"
      "is_assistant_entry b" "\<not> is_assistant_entry c" "turn_id c = turn_id b"
      "calls_of (message b) = [demo_call]" "result_id (message c) = Some (call_id demo_call)"
    using demo_skel by blast
  have "answers [a, b, c] 1 2"
    using e by (auto simp: answers_def numeral_2_eq_2 less_Suc_eq_le le_Suc_eq)
  moreover have "paired [a, b]" using e by (auto simp: paired_def less_Suc_eq)
  ultimately show ?thesis using paired_snoc_result[of "[a, b]" c 1] by (simp add: e(1) numeral_2_eq_2)
qed

lemma demo_govern: "govern estimate_message_tokens p summ sig budget th \<noteq> None"
proof (rule govern_ends)
  fix k
  have "estimate_message_tokens (notice_message k) \<le> 36"
    using text_tokens_upper[of "NOTICE_PREFIX @ truncation_notice k"] notice_short[of k]
    by (simp add: notice_message_def MESSAGE_OVERHEAD_TOKENS_def)
  then show "int (estimate_message_tokens (notice_message k)) \<le> 256" by linarith
qed

end
