(* ===== verification/Thread_Restore.thy ===== *)
theory Thread_Restore
  imports Thread_Inv
begin

text \<open>
  Persistence of a conversation thread: what \<open>restoreState\<close> rebuilds from an exported state,
  with and without keeping the open turn, as closed forms of its two loops.
\<close>

section \<open>The loops of restoreState in closed form\<close>

fun renames :: "nat \<Rightarrow> (jsstring \<times> 'a) list \<Rightarrow> (jsstring \<times> jsstring) list" where
  "renames n [] = []"
| "renames n (p # ps) = (fst p, turn_name (Suc n)) # renames (Suc n) ps"

definition restored_status :: "bool \<Rightarrow> turn_status \<Rightarrow> turn_status" where
  "restored_status keep s = (if s = TOpen \<and> \<not> keep then TAborted else s)"

fun rturns :: "bool \<Rightarrow> nat \<Rightarrow> (jsstring \<times> turn_status) list \<Rightarrow> (jsstring, turn_status) jsmap" where
  "rturns keep n [] = []"
| "rturns keep n (p # ps) = (turn_name (Suc n), restored_status keep (snd p)) # rturns keep (Suc n) ps"

definition rentry :: "estimate \<Rightarrow> (jsstring \<times> jsstring) list \<Rightarrow> nat \<Rightarrow> saved_entry \<Rightarrow> thread_entry" where
  "rentry est ids n e = \<lparr>entry_id = entry_name n, turn_id = the (map_of ids (s_turn e)), kind = s_kind e,
     message = clone_message (s_message e), tokens_est = est (s_message e), elided = s_elided e,
     iteration = s_iteration e, tool_summary = s_summary e, original_tokens = s_original e\<rparr>"

fun rents :: "estimate \<Rightarrow> (jsstring \<times> jsstring) list \<Rightarrow> nat \<Rightarrow> saved_entry list \<Rightarrow> thread_entry list" where
  "rents est ids n [] = []"
| "rents est ids n (e # es) = rentry est ids (Suc n) e # rents est ids (Suc n) es"

lemma fst_renames [simp]: "map fst (renames n ps) = map fst ps"
  by (induction ps arbitrary: n) auto

lemma dom_renames [simp]: "fst ` set (renames n ps) = fst ` set ps"
  by (metis fst_renames list.set_map)

lemma snd_renames: "s \<in> set (map snd (renames n ps)) \<Longrightarrow> \<exists>k > n. k \<le> n + length ps \<and> s = turn_name k"
proof (induction ps arbitrary: n)
  case (Cons p ps)
  show ?case
  proof (cases "s = turn_name (Suc n)")
    case True
    then show ?thesis by auto
  next
    case False
    with Cons obtain k where "k > Suc n" "k \<le> Suc n + length ps" "s = turn_name k" by fastforce
    then show ?thesis by auto
  qed
qed simp

lemma distinct_snd_renames: "distinct (map snd (renames n ps))"
proof (induction ps arbitrary: n)
  case (Cons p ps)
  have "turn_name (Suc n) \<notin> set (map snd (renames (Suc n) ps))"
    using snd_renames[of _ "Suc n" ps] by fastforce
  with Cons show ?case by simp
qed simp

lemma restore_turns_closed:
  "\<forall>t \<in> set (map_keys (turns th)). turn_known (turn_counter th) t \<Longrightarrow> distinct (map fst ids @ map fst ts) \<Longrightarrow>
   restore_turns keep ts ids th =
     (ids @ renames (turn_counter th) ts,
      th\<lparr>turn_counter := turn_counter th + length ts,
         turns := turns th @ rturns keep (turn_counter th) ts\<rparr>)"
proof (induction ts arbitrary: ids th)
  case (Cons p ts)
  obtain t s where p: "p = (t, s)" by force
  let ?n = "turn_name (Suc (turn_counter th))"
  have new: "?n \<notin> set (map_keys (turns th))" using Cons.prems(1) turn_fresh(1) by blast
  have new2: "t \<notin> set (map_keys ids)" using Cons.prems(2) by (simp add: p)
  let ?th = "th\<lparr>turn_counter := Suc (turn_counter th), turns := map_set ?n (restored_status keep s) (turns th)\<rparr>"
  have "restore_turns keep ts (map_set t ?n ids) ?th =
      ((ids @ [(t, ?n)]) @ renames (Suc (turn_counter th)) ts,
       ?th\<lparr>turn_counter := Suc (turn_counter th) + length ts,
          turns := (turns th @ [(?n, restored_status keep s)]) @ rturns keep (Suc (turn_counter th)) ts\<rparr>)"
    using Cons.IH[of ?th "map_set t ?n ids"] Cons.prems new new2
    by (auto simp: map_set_new p)
  then show ?case using new new2 by (simp add: p next_turn_id_def restored_status_def)
qed simp

lemma restore_entries_closed:
  "\<forall>e \<in> set es. map_of ids (s_turn e) \<noteq> None \<Longrightarrow>
   restore_entries est ids es th =
     th\<lparr>entry_counter := entry_counter th + length es,
        entries := entries th @ rents est ids (entry_counter th) es\<rparr>"
proof (induction es arbitrary: th)
  case (Cons e es)
  then obtain t where t: "map_of ids (s_turn e) = Some t" by auto
  have "update_last (\<lambda>x. x\<lparr>elided := s_elided e, original_tokens := s_original e\<rparr>)
      (append_entry est t (s_kind e) (s_message e) (s_iteration e) (s_summary e) th)
    = th\<lparr>entry_counter := Suc (entry_counter th),
         entries := entries th @ [rentry est ids (Suc (entry_counter th)) e]\<rparr>"
    using t by (simp add: update_last_def append_entry_def rentry_def)
  with Cons t show ?case by simp
qed simp

section \<open>Facts about the closed forms\<close>

lemma keys_rturns: "map fst (rturns keep n ps) = map snd (renames n ps)"
  by (induction ps arbitrary: n) auto

lemma rturns_statuses: "map snd (rturns keep n ps) = map (restored_status keep \<circ> snd) ps"
  by (induction ps arbitrary: n) auto

lemma map_of_rturns:
  "(map_of (rturns keep n ps) u = Some s) \<Longrightarrow> distinct (map fst ps) \<Longrightarrow>
   \<exists>t s'. map_of (renames n ps) t = Some u \<and> map_of ps t = Some s' \<and> s = restored_status keep s'"
proof (induction ps arbitrary: n)
  case (Cons p ps)
  obtain a b where p: "p = (a, b)" by force
  show ?case
  proof (cases "u = turn_name (Suc n)")
    case True
    with Cons.prems show ?thesis by (auto simp: p intro!: exI[of _ a])
  next
    case False
    with Cons.prems have "map_of (rturns keep (Suc n) ps) u = Some s" by (simp add: p)
    with Cons.IH Cons.prems obtain t s' where
      *: "map_of (renames (Suc n) ps) t = Some u" "map_of ps t = Some s'" "s = restored_status keep s'"
      by fastforce
    from *(2) Cons.prems have "t \<noteq> a" by (auto simp: p dest!: map_of_SomeD)
    with * show ?thesis by (auto simp: p intro!: exI[of _ t])
  qed
qed simp

lemma map_of_rturns_rename:
  "map_of ps t = Some s \<Longrightarrow> distinct (map fst ps) \<Longrightarrow>
   map_of (rturns keep n ps) (the (map_of (renames n ps) t)) = Some (restored_status keep s)"
proof (induction ps arbitrary: n)
  case (Cons p ps)
  obtain a b where p: "p = (a, b)" by force
  show ?case
  proof (cases "t = a")
    case True
    with Cons.prems show ?thesis by (auto simp: p)
  next
    case False
    with Cons.prems have "map_of ps t = Some s" by (simp add: p)
    then have "t \<in> fst ` set ps" by (auto dest: map_of_SomeD)
    then obtain u where u: "map_of (renames (Suc n) ps) t = Some u"
      by (metis dom_renames map_of_eq_None_iff not_None_eq)
    then have "u \<in> set (map snd (renames (Suc n) ps))" by (force dest: map_of_SomeD)
    then have "u \<noteq> turn_name (Suc n)" using snd_renames by fastforce
    moreover have "map_of (rturns keep (Suc n) ps) u = Some (restored_status keep s)"
      using Cons.IH[of "Suc n"] \<open>map_of ps t = Some s\<close> Cons.prems(2) unfolding u by (simp add: p)
    moreover have "map_of (renames n (p # ps)) t = Some u" using False u by (simp only: p renames.simps map_of.simps fst_conv fun_upd_def if_False)
    ultimately show ?thesis by (simp add: p)
  qed
qed simp

lemma entry_ids_rents: "map entry_id (rents est ids n es) = map entry_name [Suc n..<Suc (n + length es)]"
proof (induction es arbitrary: n)
  case (Cons e es)
  have "[Suc n..<Suc (n + length (e # es))] = Suc n # [Suc (Suc n)..<Suc (Suc n + length es)]"
    by (simp add: upt_conv_Cons del: upt_Suc)
  with Cons show ?case by (simp add: rentry_def del: upt_Suc)
qed simp

lemma entries_wf_rents:
  assumes "\<forall>e \<in> set es. entry_role_compatible (s_kind e) (s_message e)"
  shows "entries_wf (n + length es) (rents est ids n es)"
proof -
  have d: "distinct (map entry_id (rents est ids n es))"
    unfolding entry_ids_rents by (simp add: distinct_map inj_on_def del: upt_Suc)
  have "set (map entry_id (rents est ids n es)) \<subseteq> entry_name ` {Suc n..<Suc (n + length es)}"
    unfolding entry_ids_rents by (simp del: upt_Suc)
  then have "\<forall>e \<in> set (rents est ids n es). \<exists>k \<le> n + length es. entry_id e = entry_name k"
  proof (intro ballI)
    fix e assume sub: "set (map entry_id (rents est ids n es)) \<subseteq> entry_name ` {Suc n..<Suc (n + length es)}"
      and "e \<in> set (rents est ids n es)"
    then have "entry_id e \<in> entry_name ` {Suc n..<Suc (n + length es)}" by auto
    then obtain k where "entry_id e = entry_name k" "k < Suc (n + length es)" by auto
    then show "\<exists>k \<le> n + length es. entry_id e = entry_name k" by (auto simp: less_Suc_eq_le)
  qed
  moreover have "\<forall>e \<in> set (rents est ids n es). entry_role_compatible (kind e) (message e)"
    using assms by (induction es arbitrary: n) (auto simp: rentry_def)
  ultimately show ?thesis using d by (simp add: entries_wf_def)
qed

lemma rents_fields:
  "map kind (rents est ids n es) = map s_kind es"
  "map message (rents est ids n es) = map (clone_message \<circ> s_message) es"
  "map elided (rents est ids n es) = map s_elided es"
  "map iteration (rents est ids n es) = map s_iteration es"
  "map tool_summary (rents est ids n es) = map s_summary es"
  "map original_tokens (rents est ids n es) = map s_original es"
  "map turn_id (rents est ids n es) = map (\<lambda>e. the (map_of ids (s_turn e))) es"
  "map tokens_est (rents est ids n es) = map (est \<circ> s_message) es"
  by (induction es arbitrary: n) (auto simp: rentry_def)

lemma clone_idem [simp]: "clone_message (clone_message m) = clone_message m"
  by (cases m) auto

section \<open>An exported thread is valid\<close>

lemma distinct_singleton: "distinct xs \<Longrightarrow> set xs = {x} \<Longrightarrow> xs = [x]"
proof -
  assume a: "distinct xs" "set xs = {x}"
  then have "length xs = 1" using distinct_card[of xs] by simp
  then obtain y where "xs = [y]" by (auto simp: length_Suc_conv)
  with a(2) show "xs = [x]" by simp
qed

lemma open_filter:
  assumes "map_wf m" "\<forall>t. map_of m t = Some TOpen \<longleftrightarrow> op = Some t"
  shows "filter (\<lambda>p. snd p = TOpen) m = (case op of None \<Rightarrow> [] | Some t \<Rightarrow> [(t, TOpen)])"
proof -
  have *: "p \<in> set m \<and> snd p = TOpen \<longleftrightarrow> (\<exists>t. op = Some t \<and> p = (t, TOpen))" for p
    by (cases p) (metis assms map_of_SomeD map_of_wf prod.inject prod.sel(2))
  have d: "distinct (filter (\<lambda>p. snd p = TOpen) m)"
    using assms(1) by (simp add: map_wf_def distinct_map)
  show ?thesis
  proof (cases op)
    case None
    then show ?thesis using * by (auto simp: filter_empty_conv)
  next
    case (Some t)
    then have "set (filter (\<lambda>p. snd p = TOpen) m) = {(t, TOpen)}" using * by auto
    with d have "filter (\<lambda>p. snd p = TOpen) m = [(t, TOpen)]"
      by (rule distinct_singleton)
    with Some show ?thesis by simp
  qed
qed

lemma export_valid: "thread_wf th \<Longrightarrow> is_thread_state (export_state th)"
proof -
  assume wf: "thread_wf th"
  have "filter (\<lambda>p. snd p = TOpen) (turns th) = (case open_turn th of None \<Rightarrow> [] | Some t \<Rightarrow> [(t, TOpen)])"
    by (rule open_filter) (use wf in \<open>auto simp: thread_wf_def turns_wf_def\<close>)
  then show ?thesis
    using wf open_turn_key[OF wf]
    by (auto simp: is_thread_state_def export_state_def thread_wf_def entries_wf_def list_all_iff
        split: option.splits)
qed


section \<open>Restoring\<close>

lemma restore_exported:
  fixes th th0 :: thread and est :: estimate and keep :: bool
  assumes wf: "thread_wf th"
  defines "ids \<equiv> renames (turn_counter th0) (turns th)"
  defines "rho \<equiv> (\<lambda>t. the (map_of ids t))"
  defines "th2 \<equiv> (clear_thread th0)\<lparr>turn_counter := turn_counter th0 + length (turns th),
      turns := rturns keep (turn_counter th0) (turns th),
      entry_counter := entry_counter th0 + length (entries th),
      entries := rents est ids (entry_counter th0) (st_entries (export_state th))\<rparr>"
  shows "restore_turns keep (turns th) [] (clear_thread th0) =
      (ids, (clear_thread th0)\<lparr>turn_counter := turn_counter th0 + length (turns th),
         turns := rturns keep (turn_counter th0) (turns th)\<rparr>)"
    and "restore_entries est ids (st_entries (export_state th))
        ((clear_thread th0)\<lparr>turn_counter := turn_counter th0 + length (turns th),
           turns := rturns keep (turn_counter th0) (turns th)\<rparr>) = th2"
    and "List.map_filter (\<lambda>p. if snd p = TOpen then map_of ids (fst p) else None) (turns th)
      = (case open_turn th of None \<Rightarrow> [] | Some t \<Rightarrow> [rho t])"
    and "\<And>t. t \<in> set (map_keys (turns th)) \<Longrightarrow> map_of ids t = Some (rho t)"
    and "inj_on rho (set (map_keys (turns th)))"
proof -
  have dist: "distinct (map_keys (turns th))" using wf by (simp add: thread_wf_def turns_wf_def map_wf_def)
  show "restore_turns keep (turns th) [] (clear_thread th0) =
      (ids, (clear_thread th0)\<lparr>turn_counter := turn_counter th0 + length (turns th),
         turns := rturns keep (turn_counter th0) (turns th)\<rparr>)"
    using restore_turns_closed[of "clear_thread th0" "[]" "turns th" keep] dist
    by (simp add: clear_thread_def ids_def)
  show *: "map_of ids t = Some (rho t)" if "t \<in> set (map_keys (turns th))" for t
  proof -
    have "map_of ids t \<noteq> None" using that by (simp add: ids_def map_of_eq_None_iff)
    then show ?thesis by (auto simp: rho_def)
  qed
  have "\<forall>e \<in> set (st_entries (export_state th)). map_of ids (s_turn e) \<noteq> None"
  proof (intro ballI)
    fix e assume "e \<in> set (st_entries (export_state th))"
    then have "s_turn e \<in> turn_id ` set (entries th)" by (auto simp: export_state_def)
    then have "s_turn e \<in> set (map_keys (turns th))" using thread_wfD(3)[OF wf] by blast
    then show "map_of ids (s_turn e) \<noteq> None" using * by simp
  qed
  from restore_entries_closed[OF this]
  show "restore_entries est ids (st_entries (export_state th))
        ((clear_thread th0)\<lparr>turn_counter := turn_counter th0 + length (turns th),
           turns := rturns keep (turn_counter th0) (turns th)\<rparr>) = th2"
    by (simp add: th2_def clear_thread_def export_state_def)
  have fo: "filter (\<lambda>p. snd p = TOpen) (turns th) = (case open_turn th of None \<Rightarrow> [] | Some t \<Rightarrow> [(t, TOpen)])"
    by (rule open_filter) (use wf in \<open>auto simp: thread_wf_def turns_wf_def\<close>)
  have mf: "List.map_filter (\<lambda>p. if snd p = TOpen then map_of ids (fst p) else None) xs
      = List.map_filter (\<lambda>p. map_of ids (fst p)) (filter (\<lambda>p. snd p = TOpen) xs)" for xs
    by (induction xs) (auto simp: List.map_filter_simps split: option.splits)
  show "List.map_filter (\<lambda>p. if snd p = TOpen then map_of ids (fst p) else None) (turns th)
      = (case open_turn th of None \<Rightarrow> [] | Some t \<Rightarrow> [rho t])"
    unfolding mf fo using *[OF open_turn_key[OF wf]]
    by (auto simp: List.map_filter_simps split: option.splits)
  show "inj_on rho (set (map_keys (turns th)))"
  proof (rule inj_onI)
    fix a b assume a: "a \<in> set (map_keys (turns th))" and b: "b \<in> set (map_keys (turns th))"
      and eq: "rho a = rho b"
    have "(a, rho a) \<in> set ids" "(b, rho a) \<in> set ids" using *[OF a] *[OF b] eq by (auto dest: map_of_SomeD)
    moreover have "distinct (map snd ids)" by (simp add: ids_def distinct_snd_renames)
    ultimately show "a = b" by (metis (no_types, lifting) distinct_map inj_onD prod.inject snd_conv)
  qed
qed

lemma rturns_known: "\<forall>t \<in> set (map fst (rturns keep n ps)). turn_known (n + length ps) t"
proof
  fix t assume "t \<in> set (map fst (rturns keep n ps))"
  then obtain k where "k \<le> n + length ps" "t = turn_name k"
    unfolding keys_rturns using snd_renames by blast
  then show "turn_known (n + length ps) t" unfolding turn_known_def by blast
qed

lemma map_rename_turns:
  "distinct (map fst ps) \<Longrightarrow> rturns True n ps = map (\<lambda>(t, s). (the (map_of (renames n ps) t), s)) ps"
proof (induction ps arbitrary: n)
  case (Cons p ps)
  have "map (\<lambda>(t, s). (the (map_of (renames n (p # ps)) t), s)) ps
      = map (\<lambda>(t, s). (the (map_of (renames (Suc n) ps) t), s)) ps"
    using Cons.prems by (intro map_cong) auto
  with Cons show ?case by (auto simp: restored_status_def split: prod.splits)
qed simp

lemma rturns_open:
  assumes "thread_wf th"
  shows "map_of (rturns keep n (turns th)) u = Some TOpen
     \<longleftrightarrow> keep \<and> (\<exists>t. open_turn th = Some t \<and> u = the (map_of (renames n (turns th)) t))"
proof -
  have dist: "distinct (map_keys (turns th))"
    and op: "\<And>t. map_of (turns th) t = Some TOpen \<longleftrightarrow> open_turn th = Some t"
    using assms by (auto simp: thread_wf_def turns_wf_def map_wf_def)
  show ?thesis (is "?L \<longleftrightarrow> ?R")
  proof
    assume ?L
    from map_of_rturns[OF this dist] obtain t s where
      "map_of (renames n (turns th)) t = Some u" "map_of (turns th) t = Some s" "restored_status keep s = TOpen"
      by auto
    then show ?R using op by (auto simp: restored_status_def split: if_splits intro!: exI[of _ t])
  next
    assume ?R
    then obtain t where "keep" "map_of (turns th) t = Some TOpen"
      and u: "u = the (map_of (renames n (turns th)) t)" using op by auto
    then show ?L using map_of_rturns_rename[OF _ dist, of t TOpen keep n] by (simp add: restored_status_def)
  qed
qed

lemma distinct_rturns: "distinct (map fst (rturns keep n ps))"
  unfolding keys_rturns by (rule distinct_snd_renames)

lemma restored_core_wf:
  fixes n ec :: nat and keep :: bool and th :: thread
  assumes wf: "thread_wf th"
  defines "ids \<equiv> renames n (turns th)"
  shows "thread_wf \<lparr>entries = rents est ids ec (st_entries (export_state th)),
      turns = rturns keep n (turns th),
      open_turn = (if keep then map_option (\<lambda>t. the (map_of ids t)) (open_turn th) else None),
      current_iteration = i, entry_counter = ec + length (entries th),
      turn_counter = n + length (turns th)\<rparr>"
proof -
  have es: "\<forall>e \<in> set (st_entries (export_state th)). entry_role_compatible (s_kind e) (s_message e)"
    using thread_wfD(1)[OF wf] by (auto simp: export_state_def entries_wf_def)
  have len: "length (st_entries (export_state th)) = length (entries th)" by (simp add: export_state_def)
  have tids: "turn_id ` set (rents est ids ec (st_entries (export_state th)))
      = (\<lambda>t. the (map_of ids t)) ` turn_id ` set (entries th)"
    unfolding set_map[symmetric] rents_fields by (simp add: export_state_def image_image comp_def)
  have sub: "turn_id ` set (rents est ids ec (st_entries (export_state th))) \<subseteq> set (map_keys (rturns keep n (turns th)))"
  proof
    fix u assume "u \<in> turn_id ` set (rents est ids ec (st_entries (export_state th)))"
    then obtain t where t: "t \<in> turn_id ` set (entries th)" "u = the (map_of ids t)" unfolding tids by blast
    then have "t \<in> set (map_keys (turns th))" using thread_wfD(3)[OF wf] by blast
    then obtain v where v: "map_of ids t = Some v"
      unfolding ids_def by (metis fst_renames list.set_map map_of_eq_None_iff not_None_eq)
    then have "v \<in> set (map snd ids)" by (force dest: map_of_SomeD)
    then show "u \<in> set (map_keys (rturns keep n (turns th)))" using t v by (simp add: keys_rturns ids_def del: list.set_map)
  qed
  have "turns_wf (n + length (turns th)) (if keep then map_option (\<lambda>t. the (map_of ids t)) (open_turn th) else None)
      (rturns keep n (turns th))"
    unfolding turns_wf_def map_wf_def
    using distinct_rturns rturns_known[of keep n "turns th"] rturns_open[OF wf]
    by (auto simp: ids_def simp del: list.set_map)
  then show ?thesis using entries_wf_rents[OF es, of ec est ids] sub by (simp add: thread_wf_def len)
qed

text \<open>What \<open>restoreState\<close> makes of an exported state: the entries and turns under fresh names,
  and then, for an open turn, either the turn kept open or its unanswered calls and a notice.\<close>

definition restored_core :: "estimate \<Rightarrow> bool \<Rightarrow> thread \<Rightarrow> thread \<Rightarrow> thread" where
  "restored_core est keep th th0 = (clear_thread th0)\<lparr>turn_counter := turn_counter th0 + length (turns th),
      turns := rturns keep (turn_counter th0) (turns th),
      entry_counter := entry_counter th0 + length (entries th),
      entries := rents est (renames (turn_counter th0) (turns th)) (entry_counter th0) (st_entries (export_state th))\<rparr>"

definition renamed_turn :: "thread \<Rightarrow> thread \<Rightarrow> jsstring \<Rightarrow> jsstring" where
  "renamed_turn th th0 t = the (map_of (renames (turn_counter th0) (turns th)) t)"

lemma restore_exported_state:
  assumes wf: "thread_wf th"
  shows "restore_state est keep (export_state th) th0 = (True,
     (case open_turn th of None \<Rightarrow> restored_core est keep th th0
      | Some t \<Rightarrow> if keep then (restored_core est keep th th0)\<lparr>open_turn := Some (renamed_turn th th0 t)\<rparr>
          else add_notice est INTERRUPTED_NOTICE
                 (remove_unmatched_tool_calls est (renamed_turn th th0 t) (restored_core est keep th th0)))
     \<lparr>current_iteration := max 0 (current_iteration th)\<rparr>)"
proof -
  have ex: "st_turns (export_state th) = turns th"
    "st_iteration (export_state th) = Num (of_int (current_iteration th))"
    by (simp_all add: export_state_def)
  note r = restore_exported(1)[OF wf, where ?th0.0 = th0 and keep = keep]
    restore_exported(2)[OF wf, where ?th0.0 = th0 and keep = keep and est = est]
    restore_exported(3)[OF wf, where ?th0.0 = th0]
  have "restore_state est keep (export_state th) th0 = (True,
      (case (case open_turn th of None \<Rightarrow> [] | Some t \<Rightarrow> [renamed_turn th th0 t]) of
         [t] \<Rightarrow> if keep then (restored_core est keep th th0)\<lparr>open_turn := Some t\<rparr>
               else add_notice est INTERRUPTED_NOTICE (remove_unmatched_tool_calls est t (restored_core est keep th th0))
       | _ \<Rightarrow> restored_core est keep th th0)\<lparr>current_iteration := max 0 (current_iteration th)\<rparr>)"
    unfolding restore_state_def Let_def ex r prod.case renamed_turn_def restored_core_def
    using export_valid[OF wf] by (simp split: option.split)
  then show ?thesis by (simp split: option.splits)
qed

text \<open>Keeping the open turn: nothing of the thread is lost but the names of its turns.\<close>

lemma restore_keep:
  fixes th th0 :: thread
  assumes wf: "thread_wf th"
  shows "restore_state est True (export_state th) th0 = (True,
     \<lparr>entries = rents est (renames (turn_counter th0) (turns th)) (entry_counter th0) (st_entries (export_state th)),
      turns = map (\<lambda>(t, s). (renamed_turn th th0 t, s)) (turns th),
      open_turn = map_option (renamed_turn th th0) (open_turn th),
      current_iteration = max 0 (current_iteration th),
      entry_counter = entry_counter th0 + length (entries th),
      turn_counter = turn_counter th0 + length (turns th)\<rparr>)"
proof -
  have dist: "distinct (map_keys (turns th))" using wf by (simp add: thread_wf_def turns_wf_def map_wf_def)
  show ?thesis
    unfolding restore_exported_state[OF wf] restored_core_def
    by (auto simp: map_rename_turns[OF dist] renamed_turn_def clear_thread_def split: option.splits)
qed

lemma restore_keep_wf: "thread_wf th \<Longrightarrow> thread_wf (snd (restore_state est True (export_state th) th0))"
proof -
  assume wf: "thread_wf th"
  have dist: "distinct (map_keys (turns th))" using wf by (simp add: thread_wf_def turns_wf_def map_wf_def)
  show ?thesis unfolding restore_keep[OF wf]
    using restored_core_wf[OF wf, where keep = True and n = "turn_counter th0" and ec = "entry_counter th0" and est = est and i = "max 0 (current_iteration th)"]
    by (simp add: map_rename_turns[OF dist] renamed_turn_def[abs_def])
qed

lemma restored_core_closed: "thread_wf th \<Longrightarrow> thread_wf (restored_core est False th th0)"
  using restored_core_wf[where keep = False and n = "turn_counter th0" and ec = "entry_counter th0" and est = est and i = 0 and th = th]
  by (simp add: restored_core_def clear_thread_def thread_wf_def)

text \<open>After a crash: the thread that restarts has no open turn, and every call of the turn that was
  open has its result.\<close>

lemma restore_crash:
  assumes wf: "thread_wf th"
  shows "thread_wf (snd (restore_state est False (export_state th) th0))"
    and "open_turn (snd (restore_state est False (export_state th) th0)) = None"
    and "open_turn th = Some t \<Longrightarrow>
      turn_answered (renamed_turn th th0 t) (entries (snd (restore_state est False (export_state th) th0)))"
proof -
  let ?c = "restored_core est False th th0"
  have c: "thread_wf ?c" and o: "open_turn ?c = None"
    using restored_core_closed[OF wf] by (auto simp: restored_core_def clear_thread_def)
  note wfs = c remove_unmatched_wf add_notice_wf set_iteration_wf
  show "thread_wf (snd (restore_state est False (export_state th) th0))"
    unfolding restore_exported_state[OF wf] using wfs
    by (auto split: option.splits)
  show "open_turn (snd (restore_state est False (export_state th) th0)) = None"
    unfolding restore_exported_state[OF wf] using o
    by (auto simp: add_notice_def remove_unmatched_tool_calls_def append_entry_def ensure_turn_def next_turn_id_def split: option.splits)
  assume "open_turn th = Some t"
  then show "turn_answered (renamed_turn th th0 t) (entries (snd (restore_state est False (export_state th) th0)))"
    unfolding restore_exported_state[OF wf]
    by (auto simp: add_notice_def Let_def ensure_turn_def next_turn_id_def append_entry_def
        is_tool_msg_def calls_of_def intro!: turn_answered_snoc remove_unmatched_answered split: option.splits prod.splits)
qed

text \<open>An exported state with its turns renamed.\<close>

definition rename_state :: "(jsstring \<Rightarrow> jsstring) \<Rightarrow> thread_state \<Rightarrow> thread_state" where
  "rename_state r s = s\<lparr>st_entries := map (\<lambda>e. e\<lparr>s_turn := r (s_turn e)\<rparr>) (st_entries s),
     st_turns := map (\<lambda>(t, x). (r t, x)) (st_turns s), st_open := map_option r (st_open s)\<rparr>"

lemma saved_rents:
  "map (\<lambda>e. \<lparr>s_turn = turn_id e, s_kind = kind e, s_message = clone_message (message e),
       s_elided = elided e, s_iteration = iteration e, s_summary = tool_summary e,
       s_original = original_tokens e\<rparr>) (rents est ids n es)
   = map (\<lambda>e. e\<lparr>s_turn := the (map_of ids (s_turn e)), s_message := clone_message (s_message e)\<rparr>) es"
  by (induction es arbitrary: n) (auto simp: rentry_def)

lemma export_restored:
  assumes wf: "thread_wf th" and it: "0 \<le> current_iteration th"
  shows "export_state (snd (restore_state est True (export_state th) th0))
       = rename_state (renamed_turn th th0) (export_state th)"
  unfolding restore_keep[OF wf] using it
  by (simp add: export_state_def rename_state_def saved_rents renamed_turn_def comp_def)

lemma renamed_inj: "thread_wf th \<Longrightarrow> inj_on (renamed_turn th th0) (set (map_keys (turns th)))"
  using restore_exported(5)[where ?th0.0 = th0] by (simp add: renamed_turn_def[abs_def])

text \<open>Interrupting the open turn closes it with every call of it answered.\<close>

lemma interrupt_answers:
  assumes wf: "thread_wf th" and op: "open_turn th = Some t"
  shows "\<exists>th'. interrupt_turn est r th = Inr th' \<and> thread_wf th' \<and> open_turn th' = None
    \<and> map_of (turns th') t = Some TAborted \<and> turn_answered t (entries th')"
proof -
  let ?th = "remove_unmatched_tool_calls est t th"
  have o: "require_open_turn ?th = Inr t" "require_open_turn th = Inr t"
    using op by (auto simp: require_open_turn_def remove_unmatched_tool_calls_def)
  have "\<exists>th'. interrupt_turn est r th = Inr th'"
    using o by (simp add: interrupt_turn_def abort_turn_def Let_def)
  then obtain th' where th': "interrupt_turn est r th = Inr th'" by blast
  then have e: "abort_turn est r ?th = Inr th'" using o by (simp add: interrupt_turn_def)
  have "t \<in> set (map_keys (turns ?th))"
    using open_turn_key[OF wf op] by (simp add: remove_unmatched_tool_calls_def)
  then have "map_of (turns th') t = Some TAborted" "open_turn th' = None"
    using e o by (auto simp: abort_turn_def set_status_def Let_def)
  moreover have "turn_answered t (entries th')"
    using e o by (auto simp: abort_turn_def set_status_def Let_def append_entry_def is_tool_msg_def
        calls_of_def intro!: turn_answered_snoc remove_unmatched_answered)
  ultimately show ?thesis using th' interrupt_turn_wf[OF wf th'] by blast
qed

end
