(* ===== verification/Session_Laws.thy ===== *)
theory Session_Laws
  imports Session Governor_Total Thread_Restore "HOL-Library.Sublist" "HOL-Library.Multiset"
begin

text \<open>
  Laws of the session context: the token count kept with every entry is always the one the
  session's estimator gives, the choice of context sources, how a prepared request relates to a
  snapshot, and what is kept when the model changes.
\<close>

section \<open>Token counts stay current\<close>

definition counted :: "estimate \<Rightarrow> thread \<Rightarrow> bool" where
  [inv_defs]: "counted est th \<longleftrightarrow> (\<forall>e\<in>set (entries th). tokens_est e = est (message e))"

lemma estimate_clone [simp]: "est_message e (clone_message m) = est_message e m"
  by (cases m) (auto simp: est_message_def)

lemma set_butlast_last: "xs \<noteq> [] \<Longrightarrow> set xs = insert (last xs) (set (butlast xs))"
  by (cases xs rule: rev_cases) auto

text \<open>What the operations do to the list of entries: append a counted entry, drop entries, change
  entries without touching message and count, or recount them.\<close>

lemma counted_append_entry [simp]:
  "counted (est_message e) (append_entry (est_message e) t k m it sm th) \<longleftrightarrow> counted (est_message e) th"
  by (auto simp: counted_def append_entry_def)

lemma counted_cong: "entries th' = entries th \<Longrightarrow> counted est th' \<longleftrightarrow> counted est th"
  by (simp add: counted_def)

lemma counted_subset: "set (entries th') \<subseteq> set (entries th) \<Longrightarrow> counted est th \<Longrightarrow> counted est th'"
  by (auto simp: counted_def)

lemma counted_update_last:
  assumes "counted est th" "\<And>x. message (f x) = message x \<and> tokens_est (f x) = tokens_est x"
  shows "counted est (update_last f th)"
  using assms set_butlast_last[of "entries th"] by (auto simp: counted_def update_last_def)

lemma counted_update_first:
  assumes "counted est th" "\<And>x. tokens_est x = est (message x) \<Longrightarrow> tokens_est (f x) = est (message (f x))"
  shows "counted est (th\<lparr>entries := update_first q f (entries th)\<rparr>)"
  using assms by (auto simp: counted_def dest!: set_update_first)

lemma counted_map:
  assumes "\<And>x. tokens_est x = est (message x) \<Longrightarrow> tokens_est (f x) = est (message (f x))" "counted est th"
  shows "counted est (th\<lparr>entries := map f (entries th)\<rparr>)"
  using assms by (auto simp: counted_def)

lemma counted_fields [simp]:
  "counted est (th\<lparr>turns := a\<rparr>) = counted est th" "counted est (th\<lparr>open_turn := b\<rparr>) = counted est th"
  "counted est (th\<lparr>current_iteration := c\<rparr>) = counted est th" "counted est (th\<lparr>turn_counter := d\<rparr>) = counted est th"
  "counted est (set_status t st th) = counted est th" "counted est (ensure_turn t th) = counted est th"
  by (auto simp: counted_def set_status_def ensure_turn_def)

lemma counted_empty [simp]: "counted est (th\<lparr>entries := []\<rparr>)"
  by (simp add: counted_def)

lemma counted_prune: "counted est th \<Longrightarrow> counted est (remove_unmatched_tool_calls est t th)"
  unfolding remove_unmatched_tool_calls_def
  by (rule counted_map) (auto simp: prune_calls_def Let_def split: llm_message.splits option.splits)

lemma counted_reestimate: "counted est (reestimate_tokens est th)"
  by (auto simp: counted_def reestimate_tokens_def Let_def)

lemma counted_elide: "counted est th \<Longrightarrow> counted est (elide_tool_result est i c th)"
  unfolding elide_tool_result_def
  by (rule counted_update_first) (auto simp: elide_entry_def Let_def split: llm_message.splits)

lemma counted_truncate: "counted est th \<Longrightarrow> counted est (truncate_entry est i c th)"
  unfolding truncate_entry_def by (rule counted_update_first) (auto simp: Let_def)

lemma counted_notice: "counted (est_message e) th \<Longrightarrow> counted (est_message e) (add_notice (est_message e) c th)"
  by (simp add: add_notice_def next_turn_id_def split: option.split)

lemma counted_compaction: "counted (est_message e) th \<Longrightarrow> counted (est_message e) (add_compaction (est_message e) c t th)"
  by (simp add: add_compaction_def next_turn_id_def split: option.split)

lemma counted_cut:
  "counted est th \<Longrightarrow> counted est (replace_prefix_with_compaction est n s th)"
  by (auto simp: counted_def replace_prefix_with_compaction_def Let_def next_turn_id_def dest: in_set_dropD)

lemma counted_restore_loop:
  "counted (est_message e) th \<Longrightarrow> counted (est_message e) (snd (snd (restore_loop (est_message e) ms n cv th)))"
proof (induction "est_message e" ms n cv th rule: restore_loop.induct)
  case (2 m ms n cv th)
  show ?case
    using 2 by (auto simp: next_turn_id_def counted_compaction Let_def split: list.splits)
qed simp

interpretation cnt: machine "thread_exec (est_message e)" "counted (est_message e)" for e
proof (unfold_locales, goal_cases)
  case (1 th c th')
  then show ?case
  proof (cases c)
    case (RemoveTurns ts)
    with 1 show ?thesis by (auto simp: remove_turn_entries_def counted_def entries_removed)
  next
    case (AppendToolResult inp)
    with 1 show ?thesis
      by (auto simp: append_tool_result_def require_open_turn_def Let_def split: option.splits
          intro!: counted_update_last)
  next
    case (RestoreConversation ms)
    have "counted (est_message e) (clear_thread th)" by (simp add: counted_def clear_thread_def)
    with 1 RestoreConversation show ?thesis
      by (auto simp: restore_from_conversation_def intro: counted_restore_loop)
  qed (auto simp: begin_turn_def commit_turn_def abort_turn_def interrupt_turn_def append_assistant_def
      require_open_turn_def next_turn_id_def set_current_iteration_def counted_compaction counted_notice
      counted_prune counted_reestimate counted_elide counted_truncate Let_def clear_thread_def
      split: option.splits if_splits)
qed

interpretation gov_cnt: governor_steps "est_message e" "counted (est_message e)" for e
  by unfold_locales (auto intro: counted_elide counted_truncate counted_cut counted_notice)

section \<open>Every call of the session\<close>

definition session_ok :: "session \<Rightarrow> bool" where
  "session_ok s \<longleftrightarrow> thread_ok (ss_thread s) \<and> counted (ss_est s) (ss_thread s) \<and> estimator_wf (ss_estimator s)"

datatype session_call =
    OnThread thread_call
  | AddSource context_source | RemoveSource jsstring | ClearSources | ClearMaintenance
  | RestoreMessages "history_turn list"
  | CalibrateUsage "int option" "llm_message list" | ResetUsage
  | SetClient "model_client option"
  | Prepare "summarizer_binding \<Rightarrow> summarizer" "govern_point \<Rightarrow> bool" build_input

datatype session_error = ThreadThrew thread_error | NeverPrepared

text \<open>A request that fails leaves the session as the governor left it, and the caller goes on with it.\<close>

fun session_exec :: "session_call \<Rightarrow> session \<Rightarrow> session_error + session" where
  "session_exec (OnThread c) s = map_sum ThreadThrew id (on_thread (thread_exec (ss_est s) c) s)"
| "session_exec (AddSource c) s = Inr (add_source c s)"
| "session_exec (RemoveSource i) s = Inr (remove_source i s)"
| "session_exec ClearSources s = Inr (clear_sources s)"
| "session_exec ClearMaintenance s = Inr (clear_maintenance_history s)"
| "session_exec (RestoreMessages ms) s = Inr (snd (restore_conversation ms s))"
| "session_exec (CalibrateUsage n ms) s = Inr (calibrate_from_usage n ms s)"
| "session_exec ResetUsage s = Inr (session_reset_calibration s)"
| "session_exec (SetClient c) s = Inr (set_llm_client c s)"
| "session_exec (Prepare summ sig inp) s =
     (case prepare_request summ sig inp s of None \<Rightarrow> Inl NeverPrepared | Some (s', _) \<Rightarrow> Inr s')"

lemma est_message_cong: "calibration e = calibration e' \<Longrightarrow> est_message e = est_message e'"
  by (rule ext) (simp add: est_message_def)

lemma set_client_fields [simp]:
  "ss_thread (set_llm_client c s) = ss_thread s" "ss_estimator (set_llm_client c s) = ss_estimator s"
  "ss_sources (set_llm_client c s) = ss_sources s"
  by (simp_all add: set_llm_client_def Let_def split: option.split)

lemma remember_fields [simp]:
  "ss_thread (fold remember_maintenance ms s) = ss_thread s" "ss_estimator (fold remember_maintenance ms s) = ss_estimator s"
  "ss_policy (fold remember_maintenance ms s) = ss_policy s" "ss_sources (fold remember_maintenance ms s) = ss_sources s"
  by (induction ms arbitrary: s) (auto simp: remember_maintenance_def)

lemma remembered: "ss_maintenance (fold remember_maintenance ms s) = ss_maintenance s @ filter noteworthy ms"
  by (induction ms arbitrary: s) (auto simp: remember_maintenance_def)

lemma prepare_cases:
  assumes "prepare_request summ sig inp s = Some (s', r)"
  obtains th r0 where "govern (ss_est s) (ss_policy s) (summ (ss_summarizer s)) sig
      (thread_budget (build_system_block inp s) s) (ss_thread s) = Some (th, r0)"
    "ss_thread s' = th" "ss_estimator s' = ss_estimator s" "ss_policy s' = ss_policy s" "ss_sources s' = ss_sources s"
    "\<And>sn ms. r = Inr (sn, ms) \<Longrightarrow> sn = assemble (build_system_block inp s) s' \<and> (\<exists>k. r0 = Inr (ms, k))
       \<and> ss_maintenance s' = ss_maintenance s @ filter noteworthy ms"
  using assms by (auto simp: prepare_request_def Let_def remembered split: option.splits sum.splits)

lemma prepare_ok:
  assumes "session_ok s" "prepare_request summ sig inp s = Some (s', r)"
  shows "session_ok s'"
  using assms(2)
proof (cases rule: prepare_cases)
  case (1 th r0)
  then show ?thesis
    using gov_ok.pipeline[OF _ 1(1)] gov_cnt.pipeline[OF _ 1(1)] assms(1) by (simp add: session_ok_def)
qed

lemma reestimate_ok: "thread_ok th \<Longrightarrow> thread_ok (reestimate_tokens est th)"
  using tho.exec_inv[of th est Reestimate] by simp

lemma calibrate_wf: "estimator_wf e \<Longrightarrow> estimator_wf (calibrate raw n e)" "estimator_wf e \<Longrightarrow> estimator_wf (reset_calibration e)"
  by (rule est.exec_inv[of e "Calibrate raw n"], assumption, simp) (rule est.exec_inv[of e ResetCalibration], assumption, simp)

lemma recalibrated_ok:
  assumes "session_ok s" "estimator_wf e"
  shows "session_ok (recalibrated e s)"
proof (cases "calibration e = calibration (ss_estimator s)")
  case True
  then show ?thesis using assms est_message_cong[OF True] by (simp add: recalibrated_def Let_def session_ok_def)
next
  case False
  then show ?thesis using assms by (simp add: recalibrated_def Let_def session_ok_def counted_reestimate reestimate_ok)
qed

interpretation sess: machine session_exec session_ok
proof (unfold_locales, goal_cases)
  case (1 s c s')
  then have wf: "estimator_wf (ss_estimator s)" by (simp add: session_ok_def)
  show ?case
  proof (cases c)
    case (OnThread tc)
    with 1 show ?thesis
      using tho.exec_inv[of "ss_thread s" "ss_est s" tc] cnt.exec_inv[of "ss_estimator s" "ss_thread s" tc]
      by (cases "thread_exec (ss_est s) tc (ss_thread s)") (auto simp: on_thread_def session_ok_def)
  next
    case (RestoreMessages ms)
    with 1 show ?thesis
      using tho.exec_inv[of "ss_thread s" "ss_est s" "RestoreConversation ms"]
        cnt.exec_inv[of "ss_estimator s" "ss_thread s" "RestoreConversation ms"]
      by (auto simp: restore_conversation_def session_ok_def Let_def)
  next
    case (CalibrateUsage n ms)
    with 1 show ?thesis
      using recalibrated_ok[OF 1(1) calibrate_wf(1)[OF wf]]
      by (auto simp: calibrate_from_usage_def Let_def split: option.splits if_splits)
  next
    case ResetUsage
    with 1 show ?thesis
      using recalibrated_ok[OF 1(1) calibrate_wf(2)[OF wf]] by (auto simp: session_reset_calibration_def)
  next
    case (Prepare summ sig inp)
    with 1 show ?thesis by (auto dest: prepare_ok split: option.splits)
  qed (use 1 in \<open>auto simp: session_ok_def add_source_def remove_source_def clear_sources_def clear_maintenance_history_def\<close>)
qed

lemma new_session_ok:
  assumes "case so_estimator o1 of None \<Rightarrow> True | Some e \<Rightarrow> estimator_wf e"
  shows "session_ok (new_session o1 ec tc)"
proof -
  have "estimator_wf (new_estimator None None None)" by (simp add: new_estimator_def estimator_wf_def)
  then show ?thesis using assms
    by (auto simp: session_ok_def new_session_def new_thread_ok counted_def split: option.splits) (simp_all add: new_thread_def)
qed

section \<open>The choice of sources\<close>

definition source_tokens :: "estimator \<Rightarrow> context_source list \<Rightarrow> int" where
  "source_tokens e cs = sum_list (map (\<lambda>c. int (est_text e (render_source c))) cs)"

lemma source_tokens_simps [simp]:
  "source_tokens e [] = 0" "source_tokens e (c # cs) = int (est_text e (render_source c)) + source_tokens e cs"
  "source_tokens e (xs @ ys) = source_tokens e xs + source_tokens e ys"
  by (simp_all add: source_tokens_def)

lemma source_tokens_nonneg: "0 \<le> source_tokens e cs"
  by (induction cs) auto

lemma take_fitting_parts:
  "take_fitting e b u cs = (inc, dr) \<Longrightarrow> mset inc + mset dr = mset cs \<and> subseq inc cs
     \<and> u + source_tokens e inc \<le> max u b"
proof (induction cs arbitrary: u inc dr)
  case (Cons c cs)
  let ?n = "int (est_text e (render_source c))"
  show ?case
  proof (cases "u + ?n \<le> b")
    case True
    then obtain inc' where t: "take_fitting e b (u + ?n) cs = (inc', dr)" "inc = c # inc'"
      using Cons.prems by (auto simp: Let_def split: prod.splits)
    show ?thesis using Cons.IH[OF t(1)] t(2) True by auto
  next
    case False
    then obtain dr' where t: "take_fitting e b u cs = (inc, dr')" "dr = c # dr'"
      using Cons.prems by (auto simp: Let_def split: prod.splits)
    show ?thesis using Cons.IH[OF t(1)] t(2) by auto
  qed
qed simp

lemma take_fitting_dropped:
  "take_fitting e b u cs = (inc, dr) \<Longrightarrow> d \<in> set dr \<Longrightarrow> b < u + source_tokens e inc + int (est_text e (render_source d))"
proof (induction cs arbitrary: u inc dr)
  case (Cons c cs)
  let ?n = "int (est_text e (render_source c))"
  show ?case
  proof (cases "u + ?n \<le> b")
    case True
    then obtain inc' where "take_fitting e b (u + ?n) cs = (inc', dr)" "inc = c # inc'"
      using Cons.prems by (auto simp: Let_def split: prod.splits)
    then show ?thesis using Cons.IH[of "u + ?n" inc' dr] Cons.prems(2) by simp
  next
    case False
    then obtain dr' where t: "take_fitting e b u cs = (inc, dr')" "dr = c # dr'"
      using Cons.prems by (auto simp: Let_def split: prod.splits)
    show ?thesis using Cons.IH[OF t(1)] Cons.prems(2) False source_tokens_nonneg[of e inc] t(2) by auto
  qed
qed simp

lemma mset_by_priority [simp]: "mset (by_priority cs) = mset cs"
  by (simp add: by_priority_def)

lemma by_priority_sorted: "sorted_wrt (\<lambda>a b. priority_of b \<le> priority_of a) (by_priority cs)"
proof -
  have "sorted (map (\<lambda>c. - priority_of c) (by_priority cs))" by (simp add: by_priority_def)
  then show ?thesis by (simp add: sorted_map)
qed

lemma subseq_sorted_wrt: "subseq xs ys \<Longrightarrow> sorted_wrt P ys \<Longrightarrow> sorted_wrt P xs"
  by (induction rule: list_emb.induct) (auto dest: list_emb_set)

lemma select_sources_parts:
  assumes "select_sources cs b e = (inc, dr)"
  shows "mset inc + mset dr = mset cs" "filter src_pinned inc = filter src_pinned cs" "filter src_pinned dr = []"
    "source_tokens e inc \<le> max (pinned_tokens e cs) b"
    "list_all (\<lambda>d. b < source_tokens e inc + int (est_text e (render_source d))) dr"
    "sorted_wrt (\<lambda>a b. priority_of b \<le> priority_of a) (filter (\<lambda>c. \<not> src_pinned c) inc)"
proof -
  let ?un = "filter (\<lambda>c. \<not> src_pinned c) cs"
  obtain k where t: "take_fitting e b (pinned_tokens e cs) (by_priority ?un) = (k, dr)" "inc = filter src_pinned cs @ k"
    using assms by (auto simp: select_sources_def split: prod.splits)
  have p: "mset k + mset dr = mset ?un" "subseq k (by_priority ?un)" "pinned_tokens e cs + source_tokens e k \<le> max (pinned_tokens e cs) b"
    using take_fitting_parts[OF t(1)] by simp_all
  have pt: "source_tokens e (filter src_pinned cs) = pinned_tokens e cs" by (simp add: source_tokens_def pinned_tokens_def)
  have "set k \<union> set dr = set ?un" using arg_cong[OF p(1), of set_mset] by simp
  then have un: "\<forall>c\<in>set k \<union> set dr. \<not> src_pinned c" by auto
  have f: "filter src_pinned k = []" "filter src_pinned dr = []" "filter (\<lambda>c. \<not> src_pinned c) k = k"
    using un by (auto simp: filter_empty_conv intro: filter_True)
  have "mset inc + mset dr = mset (filter src_pinned cs) + (mset k + mset dr)" using t(2) by (simp add: ac_simps)
  also have "\<dots> = mset cs" unfolding p(1) mset_filter by (rule multiset_partition[symmetric])
  finally show "mset inc + mset dr = mset cs" .
  show "filter src_pinned inc = filter src_pinned cs" "filter src_pinned dr = []" using t(2) f by simp_all
  show "source_tokens e inc \<le> max (pinned_tokens e cs) b" using p(3) t(2) pt by simp
  show "list_all (\<lambda>d. b < source_tokens e inc + int (est_text e (render_source d))) dr"
    using take_fitting_dropped[OF t(1)] t(2) pt by (simp add: list_all_iff)
  show "sorted_wrt (\<lambda>a b. priority_of b \<le> priority_of a) (filter (\<lambda>c. \<not> src_pinned c) inc)"
    using subseq_sorted_wrt[OF p(2) by_priority_sorted] t(2) f(3) by simp
qed

section \<open>Requests and snapshots\<close>

lemma prepare_under_budget:
  assumes "\<not> sig AtStart" "int (thread_tokens (ss_thread s)) \<le> thread_budget (build_system_block inp s) s"
  shows "prepare_request summ sig inp s = Some (s, Inr (take_snapshot inp s, []))"
  using assms by (simp add: prepare_request_def take_snapshot_def govern_def Let_def)

lemma prepare_returns:
  assumes "session_ok s" "default_range (ss_estimator s)"
  shows "\<exists>s' r. prepare_request summ sig inp s = Some (s', r)"
proof -
  have "int (ss_est s (notice_message k)) \<le> 256" for k using notice_message_tokens[OF assms(2), of k] by simp
  then show ?thesis
    using govern_ends[of "ss_est s" "ss_policy s" "summ (ss_summarizer s)" sig "thread_budget (build_system_block inp s) s" "ss_thread s"]
    by (auto simp: prepare_request_def Let_def split: option.splits sum.splits prod.splits)
qed

text \<open>What a request carries is the system block of the session as it was before the governor ran.\<close>

lemma prepared_sources:
  assumes "prepare_request summ sig inp s = Some (s', Inr (sn, ms))"
  shows "sn_included sn = sn_included (take_snapshot inp s)" "sn_dropped sn = sn_dropped (take_snapshot inp s)"
    "sn_messages sn = hd (sn_messages (take_snapshot inp s)) # build_messages (ss_thread s')"
  using assms by (cases rule: prepare_cases; simp add: assemble_def take_snapshot_def Let_def)+

section \<open>A change of model\<close>

lemma client_keeps_recent:
  assumes "0 < preserve_recent_tokens (ss_policy s)"
  shows "preserve_recent_tokens (ss_policy (set_llm_client c s)) = preserve_recent_tokens (ss_policy s)"
  using assms by (auto simp: set_llm_client_def Let_def create_context_policy_def split: option.split)

section \<open>A session to try the laws on\<close>

definition demo_session_options :: session_options where
  "demo_session_options = \<lparr>so_window = None, so_subagent = False, so_client = None, so_policy = None,
     so_estimator = None, so_own_summarizer = False, so_summarizer_client = None\<rparr>"

lemma demo_no_estimator: "so_estimator demo_session_options = None"
  by (simp add: demo_session_options_def)

lemmas demo_session_simps = on_thread_def begin_turn_def next_turn_id_def commit_turn_def require_open_turn_def
  append_entry_def new_session_def new_thread_def calibrate_from_usage_def recalibrated_def reestimate_tokens_def
  Let_def

end
