(* ===== verification/Stall.thy ===== *)
theory Stall
  imports Gateway Tokens
begin

text \<open>
  What tells the tool loop that a run makes no progress
  (\<open>runtime/toolLoopStallDetector.ts\<close>, \<open>runtime/runProgressMonitor.ts\<close>) and the phase of a tool call
  (\<open>runtime/runPhase.ts\<close>), with the stable JSON text they compare
  (\<open>runtime/toolLoopShared.ts\<close>).

  The fingerprint of a batch is a SHA-256, an argument \<open>sha\<close>; \<open>cmp\<close> is the order of
  \<open>localeCompare\<close>: \<open>cmp a b\<close> says that \<open>a\<close> sorts before \<open>b\<close> or equal to it.
\<close>

section \<open>Stable JSON\<close>

text \<open>A stable insertion sort by the keys, as \<open>sort\<close> with a comparison function is.\<close>

fun insert_entry :: "(jsstring \<Rightarrow> jsstring \<Rightarrow> bool) \<Rightarrow> jsstring \<times> 'v \<Rightarrow> (jsstring \<times> 'v) list \<Rightarrow> (jsstring \<times> 'v) list" where
  "insert_entry cmp x [] = [x]"
| "insert_entry cmp x (y # ys) = (if cmp (fst x) (fst y) then x # y # ys else y # insert_entry cmp x ys)"

definition sort_entries :: "(jsstring \<Rightarrow> jsstring \<Rightarrow> bool) \<Rightarrow> (jsstring \<times> 'v) list \<Rightarrow> (jsstring \<times> 'v) list" where
  "sort_entries cmp ps = foldr (insert_entry cmp) ps []"

fun normalize_json :: "(jsstring \<Rightarrow> jsstring \<Rightarrow> bool) \<Rightarrow> jsval \<Rightarrow> jsval" where
  "normalize_json cmp (JArr xs) = JArr (map (normalize_json cmp) xs)"
| "normalize_json cmp (JObj ps) = JObj (sort_entries cmp (map (\<lambda>p. (fst p, normalize_json cmp (snd p))) ps))"
| "normalize_json cmp v = v"

text \<open>\<open>JSON.stringify(undefined)\<close> is \<open>undefined\<close>, whose \<open>String\<close> text the code falls back to.\<close>

definition stable_json :: "(jsstring \<Rightarrow> jsstring \<Rightarrow> bool) \<Rightarrow> jsval \<Rightarrow> jsstring" where
  "stable_json cmp v = (case stringify (normalize_json cmp v) of Some t \<Rightarrow> t | None \<Rightarrow> js ''undefined'')"

definition tool_calls_signature :: "(jsstring \<Rightarrow> jsstring \<Rightarrow> bool) \<Rightarrow> tool_call list \<Rightarrow> jsstring" where
  "tool_calls_signature cmp calls =
     js_join (js ''|'') (map (\<lambda>c. call_name c @ js '':'' @ stable_json cmp (Tokens.call_input c)) calls)"

definition to_llm_tools :: "tool_metadata list \<Rightarrow> (jsstring \<times> jsstring \<times> jsval) list option" where
  "to_llm_tools tools =
     (if length tools = 0 then None
      else Some (map (\<lambda>t. (md_name t, md_description t, md_parameters t)) tools))"

section \<open>The stall detector\<close>

datatype stall_state = SProgress | SRepeated | SRecover | SStalled

record stall_observation =
  so_state :: stall_state
  so_repeated :: nat
  so_fingerprint :: jsstring
  so_preview :: jsstring

record stall_detector =
  sd_threshold :: nat
  sd_previous :: "jsstring option"
  sd_repeated :: nat
  sd_recovery :: bool

definition DEFAULT_STALL_REPEAT_THRESHOLD :: int where
  "DEFAULT_STALL_REPEAT_THRESHOLD = 2"

definition new_stall_detector :: "int option \<Rightarrow> stall_detector" where
  "new_stall_detector t =
     \<lparr>sd_threshold = nat (max 1 (case t of None \<Rightarrow> DEFAULT_STALL_REPEAT_THRESHOLD | Some k \<Rightarrow> k)),
      sd_previous = None, sd_repeated = 0, sd_recovery = False\<rparr>"

definition observation_fingerprint ::
  "(jsstring \<Rightarrow> jsstring) \<Rightarrow> (jsstring \<Rightarrow> jsstring \<Rightarrow> bool) \<Rightarrow> tool_call list \<Rightarrow> llm_message list \<Rightarrow> jsstring" where
  "observation_fingerprint sha cmp calls results =
     (let tool_results = concat (map (\<lambda>m. case m of
            ToolMsg i n c \<Rightarrow> [JObj [(js ''name'', JStr n), (js ''content'', JStr c)]]
          | Chat _ _ _ _ \<Rightarrow> []) results) in
      sha (tool_calls_signature cmp calls @ [10] @ js ''results:'' @ stable_json cmp (JArr tool_results)))"

definition tool_names_preview :: "tool_call list \<Rightarrow> jsstring" where
  "tool_names_preview calls = slice 0 240 (js_join (js '', '') (map call_name calls))"

definition observe_stall ::
  "(jsstring \<Rightarrow> jsstring) \<Rightarrow> (jsstring \<Rightarrow> jsstring \<Rightarrow> bool) \<Rightarrow> tool_call list \<Rightarrow> llm_message list \<Rightarrow> stall_detector
     \<Rightarrow> stall_observation \<times> stall_detector" where
  "observe_stall sha cmp calls results d =
     (let fp = observation_fingerprint sha cmp calls results;
          out = (\<lambda>st n. \<lparr>so_state = st, so_repeated = n, so_fingerprint = fp, so_preview = tool_names_preview calls\<rparr>) in
      if sd_previous d \<noteq> Some fp then
        (out SProgress 0, d\<lparr>sd_previous := Some fp, sd_repeated := 0, sd_recovery := False\<rparr>)
      else
        let d1 = d\<lparr>sd_repeated := sd_repeated d + 1\<rparr> in
        if sd_recovery d1 then (out SStalled (sd_repeated d1), d1)
        else if sd_repeated d1 \<ge> sd_threshold d1 then
          (out SRecover (sd_repeated d1), d1\<lparr>sd_recovery := True\<rparr>)
        else (out SRepeated (sd_repeated d1), d1))"

section \<open>The progress monitor\<close>

datatype progress_state = PProgress | PIdle | PWarn | PStalled

record progress_observation =
  po_state :: progress_state
  po_count :: nat
  po_reason :: jsstring
  po_tools :: "jsstring list"

record progress_monitor =
  pm_count :: nat
  pm_warning :: nat
  pm_stall :: nat

definition DEFAULT_PROGRESS_WARNING_THRESHOLD :: nat where "DEFAULT_PROGRESS_WARNING_THRESHOLD = 3"
definition DEFAULT_PROGRESS_STALL_THRESHOLD :: nat where "DEFAULT_PROGRESS_STALL_THRESHOLD = 6"

definition new_progress_monitor :: progress_monitor where
  "new_progress_monitor = \<lparr>pm_count = 0, pm_warning = DEFAULT_PROGRESS_WARNING_THRESHOLD,
     pm_stall = DEFAULT_PROGRESS_STALL_THRESHOLD\<rparr>"

definition READ_ONLY_TOOLS :: "jsstring list" where
  "READ_ONLY_TOOLS = map js [''Read'', ''Rg'', ''List'', ''Glob'', ''Grep'', ''Stat'', ''TodoRead'']"

definition is_meaningful_action :: "tool_call \<Rightarrow> bool" where
  "is_meaningful_action c \<longleftrightarrow> call_name c \<notin> set READ_ONLY_TOOLS"

definition observe_progress :: "tool_call list \<Rightarrow> progress_monitor \<Rightarrow> progress_observation \<times> progress_monitor" where
  "observe_progress calls m =
     (let names = map call_name calls in
      if \<exists>c\<in>set calls. is_meaningful_action c then
        (\<lparr>po_state = PProgress, po_count = 0, po_reason = js ''a state-changing or delegated action was observed'',
          po_tools = names\<rparr>, m\<lparr>pm_count := 0\<rparr>)
      else
        let n = pm_count m + 1;
            st = (if n \<ge> pm_stall m then PStalled else if n = pm_warning m then PWarn else PIdle) in
        (\<lparr>po_state = st, po_count = n, po_reason = js ''only inspection/search actions observed'',
          po_tools = names\<rparr>, m\<lparr>pm_count := n\<rparr>))"

section \<open>Phases\<close>

datatype run_phase = PhInspect | PhPrepare | PhAct | PhReview | PhComplete

definition MUTATION_TOOLS :: "jsstring list" where
  "MUTATION_TOOLS = map js [''Write'', ''Edit'', ''Delete'', ''Move'']"

definition classify_tool_call_phase :: "tool_call \<Rightarrow> tool_metadata option \<Rightarrow> run_phase" where
  "classify_tool_call_phase c md =
     (if call_name c = js ''TodoWrite'' then PhPrepare
      else if call_name c \<in> set MUTATION_TOOLS \<or> call_name c = js ''Task''
        \<or> (case md of Some t \<Rightarrow> md_risk t = RiskWrite \<or> md_risk t = RiskExecute | None \<Rightarrow> False)
      then PhAct else PhInspect)"

definition is_run_phase :: "jsval \<Rightarrow> bool" where
  "is_run_phase v \<longleftrightarrow> v \<in> set (map (\<lambda>s. JStr (js s)) [''inspect'', ''prepare'', ''act'', ''review'', ''complete''])"

definition phase_for_lifecycle_event :: "jsstring \<Rightarrow> run_phase option" where
  "phase_for_lifecycle_event t = (if t = js ''review.completed'' then Some PhReview else None)"

section \<open>Laws\<close>

text \<open>The observations of one batch repeated without change, starting with a new fingerprint.\<close>

fun observe_all ::
  "(jsstring \<Rightarrow> jsstring) \<Rightarrow> (jsstring \<Rightarrow> jsstring \<Rightarrow> bool) \<Rightarrow> (tool_call list \<times> llm_message list) list \<Rightarrow> stall_detector
     \<Rightarrow> stall_state list \<times> stall_detector" where
  "observe_all sha cmp [] d = ([], d)"
| "observe_all sha cmp ((cs, rs) # xs) d =
     (case observe_stall sha cmp cs rs d of
        (o1, d1) \<Rightarrow> (case observe_all sha cmp xs d1 of (os, d2) \<Rightarrow> (so_state o1 # os, d2)))"

lemma observe_all_Cons:
  "fst (observe_all sha cmp ((cs, rs) # xs) d) = so_state (fst (observe_stall sha cmp cs rs d))
     # fst (observe_all sha cmp xs (snd (observe_stall sha cmp cs rs d)))"
  by (simp split: prod.split)

lemma repeats_from:
  assumes "sd_previous d = Some (observation_fingerprint sha cmp cs rs)" "1 \<le> sd_threshold d"
    and "sd_recovery d \<longleftrightarrow> sd_threshold d \<le> sd_repeated d"
  shows "fst (observe_all sha cmp (replicate n (cs, rs)) d)
    = map (\<lambda>k. if sd_repeated d + k < sd_threshold d then SRepeated
               else if sd_repeated d + k = sd_threshold d then SRecover else SStalled) [1..<Suc n]"
  using assms
proof (induction n arbitrary: d)
  case (Suc n)
  obtain o1 d1 where od: "observe_stall sha cmp cs rs d = (o1, d1)" by (cases "observe_stall sha cmp cs rs d")
  have d1: "sd_previous d1 = sd_previous d" "sd_threshold d1 = sd_threshold d" "sd_repeated d1 = sd_repeated d + 1"
      "sd_recovery d1 \<longleftrightarrow> sd_threshold d1 \<le> sd_repeated d1"
      "so_state o1 = (if sd_repeated d + 1 < sd_threshold d then SRepeated
          else if sd_repeated d + 1 = sd_threshold d then SRecover else SStalled)"
    using od Suc(2-4) by (auto simp: observe_stall_def Let_def split: if_splits)
  have up: "[1..<Suc (Suc n)] = 1 # map Suc [1..<Suc n]"
    by (simp add: map_Suc_upt upt_conv_Cons del: upt_Suc)
  have "fst (observe_all sha cmp (replicate n (cs, rs)) d1)
    = map (\<lambda>k. if sd_repeated d1 + k < sd_threshold d1 then SRepeated
               else if sd_repeated d1 + k = sd_threshold d1 then SRecover else SStalled) [1..<Suc n]"
    by (rule Suc(1)) (use Suc(2,3) d1 in simp_all)
  then show ?case
    unfolding up replicate_Suc observe_all_Cons od fst_conv snd_conv
    by (simp add: d1(2,3,5) del: upt_Suc)
qed simp

lemma fresh_repeats:
  assumes "sd_previous d \<noteq> Some (observation_fingerprint sha cmp cs rs)" "1 \<le> sd_threshold d"
  shows "fst (observe_all sha cmp (replicate (Suc n) (cs, rs)) d)
    = SProgress # map (\<lambda>k. if k < sd_threshold d then SRepeated
                          else if k = sd_threshold d then SRecover else SStalled) [1..<Suc n]"
proof -
  obtain o1 d1 where od: "observe_stall sha cmp cs rs d = (o1, d1)" by (cases "observe_stall sha cmp cs rs d")
  have d1: "sd_previous d1 = Some (observation_fingerprint sha cmp cs rs)" "sd_threshold d1 = sd_threshold d"
      "sd_repeated d1 = 0" "\<not> sd_recovery d1" "so_state o1 = SProgress"
    using od assms(1) by (auto simp: observe_stall_def Let_def split: if_splits)
  have "fst (observe_all sha cmp (replicate n (cs, rs)) d1)
    = map (\<lambda>k. if k < sd_threshold d then SRepeated
               else if k = sd_threshold d then SRecover else SStalled) [1..<Suc n]"
    using repeats_from[OF d1(1), of n] assms(2) d1 by simp
  then show ?thesis unfolding replicate_Suc observe_all_Cons od fst_conv snd_conv d1(5) by simp
qed

lemma new_detector_threshold: "1 \<le> sd_threshold (new_stall_detector t)" "sd_previous (new_stall_detector t) = None"
  by (auto simp: new_stall_detector_def split: option.splits)

fun observe_batches :: "tool_call list list \<Rightarrow> progress_monitor \<Rightarrow> progress_state list \<times> progress_monitor" where
  "observe_batches [] m = ([], m)"
| "observe_batches (cs # xs) m =
     (case observe_progress cs m of (o1, m1) \<Rightarrow> (case observe_batches xs m1 of (os, m2) \<Rightarrow> (po_state o1 # os, m2)))"

lemma observe_batches_Cons:
  "fst (observe_batches (cs # xs) m) = po_state (fst (observe_progress cs m)) # fst (observe_batches xs (snd (observe_progress cs m)))"
  by (simp split: prod.split)

lemma reading_batches:
  assumes "\<forall>cs\<in>set bs. \<forall>c\<in>set cs. call_name c \<in> set READ_ONLY_TOOLS"
  shows "fst (observe_batches bs m) = map (\<lambda>k. if pm_stall m \<le> pm_count m + k then PStalled
      else if pm_count m + k = pm_warning m then PWarn else PIdle) [1..<Suc (length bs)]"
  using assms
proof (induction bs arbitrary: m)
  case (Cons cs bs)
  obtain o1 m1 where om: "observe_progress cs m = (o1, m1)" by (cases "observe_progress cs m")
  have m1: "m1 = m\<lparr>pm_count := pm_count m + 1\<rparr>"
      "po_state o1 = (if pm_stall m \<le> pm_count m + 1 then PStalled else if pm_count m + 1 = pm_warning m then PWarn else PIdle)"
    using om Cons(2) by (auto simp: observe_progress_def Let_def is_meaningful_action_def)
  have up: "[1..<Suc (Suc n)] = 1 # map Suc [1..<Suc n]" for n
    by (simp add: map_Suc_upt upt_conv_Cons del: upt_Suc)
  have "fst (observe_batches bs m1) = map (\<lambda>k. if pm_stall m \<le> pm_count m + Suc k then PStalled
      else if pm_count m + Suc k = pm_warning m then PWarn else PIdle) [1..<Suc (length bs)]"
    using Cons(1)[of m1] Cons(2) m1(1) by (simp del: upt_Suc)
  then show ?case
    unfolding list.size add_0_right add_Suc_right up observe_batches_Cons om fst_conv snd_conv
    by (simp add: m1(2) comp_def del: upt_Suc)
qed simp

end
