(* ===== verification/Checkpoint.thy ===== *)
theory Checkpoint
  imports Stall
begin

text \<open>
  The durable checkpoint of an unfinished run (\<open>runtime/runCheckpoint.ts\<close>), the pending approval of
  \<open>domain.ts\<close> it holds, and the short text of a call's input shown to the user
  (\<open>tools/formatToolInputPreview.ts\<close>).

  A checkpoint is cloned by printing it as JSON, parsing it and validating the result against its
  schema. The version number and the time stamp are constant here and left out; the error the
  schema library throws is the argument \<open>zod\<close>.
\<close>

section \<open>Previews of inputs\<close>

definition clip_end :: "jsstring \<Rightarrow> nat \<Rightarrow> jsstring" where
  "clip_end t mx = (if length t \<le> mx then t else take (mx - 1) t @ [0x2026])"

definition truncate_preview :: "jsstring \<Rightarrow> nat \<Rightarrow> jsstring" where
  "truncate_preview t mx = clip_end t mx"

definition clip_line :: "jsstring \<Rightarrow> nat \<Rightarrow> jsstring" where
  "clip_line t mx = clip_end (js_trim (squash_ws t)) mx"

fun first_nonblank :: "jsstring list \<Rightarrow> jsstring" where
  "first_nonblank [] = []"
| "first_nonblank (l # ls) = (if js_trim l \<noteq> [] then l else first_nonblank ls)"

definition first_non_empty_line :: "jsstring \<Rightarrow> jsstring" where
  "first_non_empty_line t = first_nonblank (split_char 10 t)"

definition str_or :: "jsval \<Rightarrow> jsstring \<Rightarrow> jsstring" where
  "str_or v d = (case v of JStr t \<Rightarrow> t | _ \<Rightarrow> d)"

definition drop_final_newline :: "jsstring \<Rightarrow> jsstring" where
  "drop_final_newline t = (if t \<noteq> [] \<and> last t = 10 then butlast t else t)"

definition MIDDLE_DOT :: jsstring where
  "MIDDLE_DOT = [32, 0xB7, 32]"

definition old_new_lines :: "(jsstring \<times> jsval) list \<Rightarrow> nat \<Rightarrow> jsstring" where
  "old_new_lines r mx =
     (let line = (\<lambda>k. let t = str_or (getp r k) [] in
          clip_line (if first_non_empty_line t \<noteq> [] then first_non_empty_line t else squash_ws t) mx)
      in [10] @ js ''- '' @ line ''old_string'' @ [10] @ js ''+ '' @ line ''new_string'')"

definition format_file_mutation_preview :: "jsstring \<Rightarrow> (jsstring \<times> jsval) list \<Rightarrow> jsstring" where
  "format_file_mutation_preview name r =
     (let path = (case getp r ''path'' of JStr p \<Rightarrow> if p \<noteq> [] then p else js ''(no path)'' | _ \<Rightarrow> js ''(no path)'')
      in if name = js ''Write'' then
           let content = str_or (getp r ''content'') [];
               lines = (if content = [] then 0 else length (split_char 10 (drop_final_newline content)));
               first = first_non_empty_line content
           in js_join MIDDLE_DOT ([path, show_nat lines @ js '' lines''] @ (if first \<noteq> [] then [clip_line first 80] else []))
         else case getp r ''edits'' of
             JArr (e # es) \<Rightarrow> path @ MIDDLE_DOT @ show_nat (Suc (length es)) @ js '' edits''
                @ old_new_lines (case as_record e of Some q \<Rightarrow> q | None \<Rightarrow> []) 50
           | _ \<Rightarrow> path @ (if getp r ''replace_all'' = JBool True then MIDDLE_DOT @ js ''replace_all'' else [])
                @ old_new_lines r 60)"

definition stringify_or_undefined :: "jsval \<Rightarrow> jsstring" where
  "stringify_or_undefined v = (case stringify v of Some t \<Rightarrow> t | None \<Rightarrow> js ''undefined'')"

definition task_title :: "(jsstring \<times> jsval) list \<Rightarrow> jsstring" where
  "task_title r = (case getp r ''description'' of
     JStr d \<Rightarrow> if js_trim d \<noteq> [] then js_trim d else (case getp r ''title'' of JStr t \<Rightarrow> js_trim t | _ \<Rightarrow> [])
   | _ \<Rightarrow> (case getp r ''title'' of JStr t \<Rightarrow> js_trim t | _ \<Rightarrow> []))"

definition path_or_json :: "jsval \<Rightarrow> (jsstring \<times> jsval) list \<Rightarrow> jsstring" where
  "path_or_json v r = (case getp r ''path'' of
     JStr p \<Rightarrow> p @ (case getp r ''pattern'' of
         JStr q \<Rightarrow> js '' pattern='' @ q
       | _ \<Rightarrow> (case getp r ''glob'' of JStr q \<Rightarrow> js '' glob='' @ q | _ \<Rightarrow> []))
   | _ \<Rightarrow> stringify_or_undefined v)"

definition record_preview :: "jsstring \<Rightarrow> jsval \<Rightarrow> (jsstring \<times> jsval) list \<Rightarrow> jsstring" where
  "record_preview name v r =
     (if name = js ''Edit'' \<or> name = js ''Write'' then format_file_mutation_preview name r
      else case (name = js ''Delete'', getp r ''path'') of
        (True, JStr p) \<Rightarrow> js ''delete '' @ p @ (if getp r ''recursive'' = JBool True then MIDDLE_DOT @ js ''recursive'' else [])
      | _ \<Rightarrow>
        if name = js ''Move'' then str_or (getp r ''from'') (js ''?'') @ [32, 0x2192, 32] @ str_or (getp r ''to'') (js ''?'')
        else if name = js ''Task'' \<and> task_title r \<noteq> [] then
          task_title r @ (case getp r ''modelProfileId'' of
              JStr m \<Rightarrow> if js_trim m \<noteq> [] then MIDDLE_DOT @ js ''model='' @ js_trim m else [] | _ \<Rightarrow> [])
        else path_or_json v r)"

definition format_tool_input_preview :: "jsstring \<Rightarrow> jsval \<Rightarrow> nat \<Rightarrow> jsstring" where
  "format_tool_input_preview name v mx =
     (if v = JUndef \<or> v = JNull then []
      else case v of
        JStr t \<Rightarrow> truncate_preview t mx
      | JObj r \<Rightarrow> truncate_preview (record_preview name v r) mx
      | _ \<Rightarrow> truncate_preview (stringify_or_undefined v) mx)"

lemma clip_end_length: "length (clip_end t mx) \<le> max 1 mx"
  by (auto simp: clip_end_def)

lemma preview_length: "0 < mx \<Longrightarrow> length (format_tool_input_preview name v mx) \<le> mx"
  using clip_end_length[of _ mx]
  by (auto simp: format_tool_input_preview_def truncate_preview_def max_def split: jsval.split)

section \<open>Checkpoints\<close>

record pending_approval =
  pa_run :: jsstring
  pa_call_id :: jsstring
  pa_tool :: jsstring
  pa_risk :: jsstring
  pa_reason :: "jsstring option"
  pa_command :: "jsstring option"
  pa_work_dir :: "jsstring option"
  pa_preview :: jsstring

datatype checkpoint_status = CkRunning | CkAwaiting

datatype completion_state = CompUnknown | CompPending | CompInProgress

record run_checkpoint =
  rc_run :: jsstring
  rc_input :: jsstring
  rc_status :: checkpoint_status
  rc_phase :: run_phase
  rc_iteration :: int
  rc_followups :: nat
  rc_completion :: "completion_state option"
  rc_completed :: "jsstring list"
  rc_pending :: "tool_call option"
  rc_remaining :: "tool_call list"
  rc_approval :: "pending_approval option"

text \<open>\<open>JSON.parse(JSON.stringify(v))\<close>.\<close>

fun json_clone :: "jsval \<Rightarrow> jsval" where
  "json_clone (JNonFinite t) = JNull"
| "json_clone (JArr xs) = JArr (map (\<lambda>x. if json_clone x = JUndef then JNull else json_clone x) xs)"
| "json_clone (JObj ps) = JObj (concat (map (\<lambda>p. if json_clone (snd p) = JUndef then [] else [(fst p, json_clone (snd p))]) ps))"
| "json_clone v = v"

definition clone_call :: "tool_call \<Rightarrow> tool_call" where
  "clone_call c = c\<lparr>call_input := json_clone (Tokens.call_input c)\<rparr>"

definition call_valid :: "tool_call \<Rightarrow> bool" where
  "call_valid c \<longleftrightarrow> call_id c \<noteq> [] \<and> call_name c \<noteq> []"

definition approval_valid :: "pending_approval \<Rightarrow> bool" where
  "approval_valid a \<longleftrightarrow> pa_run a \<noteq> [] \<and> pa_call_id a \<noteq> [] \<and> pa_tool a \<noteq> [] \<and> pa_risk a \<noteq> []"

definition MAX_COMPLETED :: nat where "MAX_COMPLETED = 1000"
definition MAX_REMAINING :: nat where "MAX_REMAINING = 200"

definition checkpoint_valid :: "run_checkpoint \<Rightarrow> bool" where
  "checkpoint_valid c \<longleftrightarrow> rc_run c \<noteq> [] \<and> 0 < rc_iteration c
     \<and> length (rc_completed c) \<le> MAX_COMPLETED \<and> list_all (\<lambda>i. i \<noteq> []) (rc_completed c)
     \<and> (case rc_pending c of None \<Rightarrow> True | Some p \<Rightarrow> call_valid p)
     \<and> length (rc_remaining c) \<le> MAX_REMAINING \<and> list_all call_valid (rc_remaining c)
     \<and> (case rc_approval c of None \<Rightarrow> True | Some a \<Rightarrow> approval_valid a)
     \<and> (rc_status c = CkAwaiting \<longrightarrow> rc_pending c \<noteq> None \<and> rc_approval c \<noteq> None)"

definition clone_run_checkpoint :: "(run_checkpoint \<Rightarrow> thrown) \<Rightarrow> run_checkpoint \<Rightarrow> thrown + run_checkpoint" where
  "clone_run_checkpoint zod c =
     (let c' = c\<lparr>rc_pending := map_option clone_call (rc_pending c), rc_remaining := map clone_call (rc_remaining c)\<rparr>
      in if checkpoint_valid c' then Inr c' else Inl (zod c'))"

lemma concat_clone:
  assumes "\<forall>p\<in>set ps. json_clone (json_clone (snd p)) = json_clone (snd p)"
  shows "concat (map (\<lambda>p. if json_clone (snd p) = JUndef then [] else [(fst p, json_clone (snd p))])
      (concat (map (\<lambda>p. if json_clone (snd p) = JUndef then [] else [(fst p, json_clone (snd p))]) ps)))
    = concat (map (\<lambda>p. if json_clone (snd p) = JUndef then [] else [(fst p, json_clone (snd p))]) ps)"
  using assms by (induction ps) auto

lemma json_clone_idem [simp]: "json_clone (json_clone v) = json_clone v"
proof (induction v rule: json_clone.induct)
  case (2 xs)
  then show ?case by simp
next
  case (3 ps)
  then show ?case unfolding json_clone.simps by (subst concat_clone) auto
qed simp_all

lemma clone_call_simps [simp]:
  "call_id (clone_call c) = call_id c" "call_name (clone_call c) = call_name c"
  "clone_call (clone_call c) = clone_call c" "call_valid (clone_call c) = call_valid c"
  by (simp_all add: clone_call_def call_valid_def)

lemma list_all_clone [simp]: "list_all call_valid (map clone_call cs) = list_all call_valid cs"
  by (simp add: list_all_iff)

lemma checkpoint_valid_clone:
  "checkpoint_valid (c\<lparr>rc_pending := map_option clone_call (rc_pending c), rc_remaining := map clone_call (rc_remaining c)\<rparr>)
   = checkpoint_valid c"
  by (auto simp: checkpoint_valid_def split: option.splits)

lemma clone_InrD:
  "clone_run_checkpoint zod c = Inr c' \<Longrightarrow> checkpoint_valid c' \<and> clone_run_checkpoint zod c' = Inr c'"
proof -
  assume "clone_run_checkpoint zod c = Inr c'"
  then have c': "c' = c\<lparr>rc_pending := map_option clone_call (rc_pending c), rc_remaining := map clone_call (rc_remaining c)\<rparr>"
    "checkpoint_valid c'" by (auto simp: clone_run_checkpoint_def Let_def split: if_splits)
  moreover have "c'\<lparr>rc_pending := map_option clone_call (rc_pending c'), rc_remaining := map clone_call (rc_remaining c')\<rparr> = c'"
    by (simp add: c'(1) option.map_comp comp_def)
  ultimately show ?thesis by (simp add: clone_run_checkpoint_def Let_def)
qed

lemma clone_Inl_iff: "(\<exists>e. clone_run_checkpoint zod c = Inl e) \<longleftrightarrow> \<not> checkpoint_valid c"
  by (simp add: clone_run_checkpoint_def Let_def checkpoint_valid_clone)

end
