(* ===== verification/Batch.thy ===== *)
theory Batch
  imports Checkpoint
begin

text \<open>
  Executing the tool calls of one model turn: \<open>executeToolBatch\<close> of \<open>runtime/toolLoop.ts\<close> with the
  checkpoint and the pending approvals it keeps, and \<open>executeScheduledToolCalls\<close> of
  \<open>runtime/toolLoopShared.ts\<close>, its relative without approvals.

  The calls of a batch are numbered; an environment gives for each number what the gateway's
  execution meets and what the signal says when the loop tests it. Calls started together are
  awaited with \<open>Promise.all\<close>: when several fail, \<open>bn_first\<close> says which rejects first. The events of
  such calls are listed call by call. A batch that waits for ever is \<open>None\<close>.
\<close>

section \<open>State\<close>

record agent_result =
  ar_run :: jsstring
  ar_status :: jsstring
  ar_reason :: "jsstring option"
  ar_summary :: jsstring
  ar_thinking :: "jsstring option"
  ar_artifacts :: "jsstring list"
  ar_evidence :: "jsstring list"
  ar_incomplete :: "jsstring list"
  ar_pending :: "pending_approval option"

record pending_session =
  ps_run :: jsstring
  ps_input :: jsstring
  ps_call :: tool_call
  ps_remaining :: "tool_call list"
  ps_tools :: "tool_metadata list"
  ps_iteration :: int
  ps_followups :: nat
  ps_completed :: "jsstring list"

text \<open>\<open>tl_notices\<close> counts the calls of \<open>onCheckpointChanged\<close>.\<close>

record tool_loop =
  tl_pending :: "(jsstring, pending_session) jsmap"
  tl_checkpoint :: "run_checkpoint option"
  tl_notices :: nat

text \<open>What a run records, as far as later steps read it: the gateway's events, the calls observed
  for the phase of the run, model turns with the preview of their text, and other types.\<close>

datatype run_event = Observed tool_call | GateEvent trace_event
  | ModelDone jsstring jsstring | Recorded jsstring

record batch_input =
  bi_run :: jsstring
  bi_user_input :: jsstring
  bi_calls :: "tool_call list"
  bi_metadata :: "tool_metadata list"
  bi_iteration :: int
  bi_followups :: nat

record batch_env =
  bn_call :: "nat \<Rightarrow> call_env"
  bn_head :: "nat \<Rightarrow> abort_signal option"
  bn_catch :: "nat \<Rightarrow> abort_signal option"
  bn_first :: "nat \<Rightarrow> nat"
  bn_zod :: "run_checkpoint option \<Rightarrow> thrown"

datatype batch_result =
    BatchCompleted "llm_message list"
  | BatchApproval agent_result "llm_message list"
  | BatchAborted thrown "llm_message list"
  | BatchThrew thrown

section \<open>Checkpoints of the loop\<close>

definition awaiting :: "tool_loop \<Rightarrow> bool" where
  "awaiting lp \<longleftrightarrow> (case tl_checkpoint lp of Some c \<Rightarrow> rc_status c = CkAwaiting | None \<Rightarrow> False)"

definition update_checkpoint ::
    "(run_checkpoint option \<Rightarrow> thrown) \<Rightarrow> bool \<Rightarrow> run_checkpoint \<Rightarrow> tool_loop \<Rightarrow> thrown + tool_loop" where
  "update_checkpoint zod notify c lp = (case clone_run_checkpoint (\<lambda>x. zod (Some x)) c of
     Inl e \<Rightarrow> Inl e
   | Inr c' \<Rightarrow> Inr (lp\<lparr>tl_checkpoint := Some c',
       tl_notices := tl_notices lp + (if notify \<and> (rc_status c = CkAwaiting \<or> awaiting lp) then 1 else 0)\<rparr>))"

text \<open>An update of the active checkpoint; without one the object has the given fields only, and its
  validation fails.\<close>

definition change_checkpoint ::
    "(run_checkpoint option \<Rightarrow> thrown) \<Rightarrow> bool \<Rightarrow> (run_checkpoint \<Rightarrow> run_checkpoint) \<Rightarrow> tool_loop \<Rightarrow> thrown + tool_loop" where
  "change_checkpoint zod notify f lp = (case tl_checkpoint lp of
     None \<Rightarrow> Inl (zod None) | Some c \<Rightarrow> update_checkpoint zod notify (f c) lp)"

definition save_progress ::
    "(run_checkpoint option \<Rightarrow> thrown) \<Rightarrow> jsstring list \<Rightarrow> tool_call list \<Rightarrow> tool_loop \<Rightarrow> thrown + tool_loop" where
  "save_progress zod ids q lp =
     change_checkpoint zod False (\<lambda>c. c\<lparr>rc_completed := uniq ids, rc_remaining := q\<rparr>) lp"

definition find_tool :: "tool_metadata list \<Rightarrow> jsstring \<Rightarrow> tool_metadata option" where
  "find_tool ts n = find (\<lambda>t. md_name t = n) ts"

definition completion_of :: "nat \<Rightarrow> completion_state" where
  "completion_of n = (if 0 < n then CompInProgress else CompUnknown)"

definition start_checkpoint :: "batch_input \<Rightarrow> tool_loop \<Rightarrow> run_checkpoint" where
  "start_checkpoint inp lp =
     \<lparr>rc_run = bi_run inp, rc_input = bi_user_input inp, rc_status = CkRunning,
      rc_phase = (case bi_calls inp of [] \<Rightarrow> PhInspect
        | c # _ \<Rightarrow> classify_tool_call_phase c (find_tool (bi_metadata inp) (call_name c))),
      rc_iteration = bi_iteration inp, rc_followups = bi_followups inp,
      rc_completion = Some (completion_of (bi_followups inp)),
      rc_completed = (case tl_checkpoint lp of
        Some c \<Rightarrow> if rc_run c = bi_run inp then rc_completed c else [] | None \<Rightarrow> []),
      rc_pending = None, rc_remaining = bi_calls inp, rc_approval = None\<rparr>"

section \<open>Reads that may run together\<close>

definition is_independent_read :: "tool_metadata option \<Rightarrow> bool" where
  "is_independent_read t = (case t of None \<Rightarrow> False
     | Some m \<Rightarrow> md_risk m = RiskRead
        \<and> \<not> (case md_category m of Some c \<Rightarrow> starts_with c (js ''mcp:'') | None \<Rightarrow> False)
        \<and> md_category m \<noteq> Some (js ''process''))"

definition DEFAULT_MAX_PARALLEL_READ_TOOLS :: nat where "DEFAULT_MAX_PARALLEL_READ_TOOLS = 4"

definition plain_read :: "tool_metadata \<times> approval_decision \<Rightarrow> bool" where
  "plain_read p \<longleftrightarrow> md_risk (fst p) = RiskRead \<and> ap_action (snd p) = Allow"

text \<open>The calls taken from the front of the queue, at most as many as given, and the rest.\<close>

fun take_parallel ::
    "gateway \<Rightarrow> (jsstring \<Rightarrow> tool_metadata option) \<Rightarrow> nat \<Rightarrow> tool_call list \<Rightarrow> call_failure + tool_call list \<times> tool_call list" where
  "take_parallel g look 0 q = Inr ([], q)"
| "take_parallel g look (Suc n) [] = Inr ([], [])"
| "take_parallel g look (Suc n) (c # q) =
     (if \<not> is_independent_read (look (call_name c)) then Inr ([], c # q)
      else case inspect_call (call_name c) (Tokens.call_input c) g of
          Inl e \<Rightarrow> Inl e
        | Inr p \<Rightarrow> if \<not> plain_read p then Inr ([], c # q)
            else (case take_parallel g look n q of
                Inl e \<Rightarrow> Inl e | Inr (a, b) \<Rightarrow> Inr (c # a, b)))"

type_synonym settled_call = "(trace_event list \<times> (call_failure + tool_result)) option"

definition settled_events :: "settled_call list \<Rightarrow> trace_event list" where
  "settled_events rs = concat (map (\<lambda>r. case r of Some (evs, _) \<Rightarrow> evs | None \<Rightarrow> []) rs)"

definition failures_of :: "settled_call list \<Rightarrow> call_failure list" where
  "failures_of rs = concat (map (\<lambda>r. case r of Some (_, Inl f) \<Rightarrow> [f] | _ \<Rightarrow> []) rs)"

definition values_of :: "settled_call list \<Rightarrow> tool_result list" where
  "values_of rs = concat (map (\<lambda>r. case r of Some (_, Inr v) \<Rightarrow> [v] | _ \<Rightarrow> []) rs)"

text \<open>\<open>Promise.all\<close>: it rejects with the failure that comes first in time, else it waits for all.\<close>

definition promise_all :: "nat \<Rightarrow> settled_call list \<Rightarrow> (call_failure + tool_result list) option" where
  "promise_all k rs =
     (let fs = failures_of rs in
      if fs \<noteq> [] then Some (Inl (fs ! (k mod length fs)))
      else if None \<in> set rs then None else Some (Inr (values_of rs)))"

definition batch_call :: "int option \<Rightarrow> tool_call \<Rightarrow> Gateway.call_input" where
  "batch_call it c = \<lparr>ci_name = call_name c, ci_input = Tokens.call_input c, ci_call_id = Some (call_id c),
     ci_iteration = it, ci_approved = None, ci_return_errors = Some True, ci_retry = RetryUnset\<rparr>"

definition run_calls_together ::
    "gateway \<Rightarrow> (nat \<Rightarrow> call_env) \<Rightarrow> int option \<Rightarrow> nat \<Rightarrow> tool_call list \<Rightarrow> settled_call list" where
  "run_calls_together g env it i cs =
     map (\<lambda>p. call_tool g (env (fst p)) (batch_call it (snd p))) (zip [i..<i + length cs] cs)"

definition tool_message :: "tool_call \<Rightarrow> jsstring \<Rightarrow> llm_message" where
  "tool_message c content = ToolMsg (call_id c) (call_name c) content"

definition tool_messages :: "tool_call list \<Rightarrow> tool_result list \<Rightarrow> llm_message list" where
  "tool_messages cs rs = map (\<lambda>p. tool_message (fst p) (rs_content (snd p))) (zip cs rs)"

section \<open>Approvals\<close>

definition denied_text :: "tool_call \<Rightarrow> call_failure \<Rightarrow> jsstring option \<Rightarrow> jsstring" where
  "denied_text c f reason = js ''Tool '' @ call_name c @ js '' denied by policy: ''
     @ (case reason of Some r \<Rightarrow> r | None \<Rightarrow> err_text (failure_thrown f))"

definition pending_approval_of :: "pending_session \<Rightarrow> tool_risk \<Rightarrow> jsstring option \<Rightarrow> pending_approval" where
  "pending_approval_of ps risk reason =
     (let c = ps_call ps;
          r = (case as_record (Tokens.call_input c) of Some q \<Rightarrow> q | None \<Rightarrow> [])
      in \<lparr>pa_run = ps_run ps, pa_call_id = call_id c, pa_tool = call_name c, pa_risk = risk_name risk,
          pa_reason = reason, pa_command = str_of (getp r ''command''),
          pa_work_dir = (case str_of (getp r ''cwd'') of Some d \<Rightarrow> Some d | None \<Rightarrow> str_of (getp r ''workDir'')),
          pa_preview = format_tool_input_preview (call_name c) (Tokens.call_input c) 500\<rparr>)"

definition plain_result :: "jsstring \<Rightarrow> jsstring \<Rightarrow> jsstring \<Rightarrow> jsstring list \<Rightarrow> jsstring list \<Rightarrow> agent_result" where
  "plain_result run status summary evidence incomplete =
     \<lparr>ar_run = run, ar_status = status, ar_reason = None, ar_summary = summary, ar_thinking = None,
      ar_artifacts = [], ar_evidence = evidence, ar_incomplete = incomplete, ar_pending = None\<rparr>"

definition approval_result :: "pending_session \<Rightarrow> pending_approval \<Rightarrow> agent_result" where
  "approval_result ps a =
     (plain_result (ps_run ps) (js ''approval-required'') (([0x9700, 0x8981, 0x786E, 0x8BA4, 0x5DE5, 0x5177, 0x8C03, 0x7528, 0xFF1A]) @ call_name (ps_call ps))
        [([0x6A21, 0x578B, 0x8BF7, 0x6C42, 0x4E86, 0x9700, 0x8981, 0x7528, 0x6237, 0x786E, 0x8BA4, 0x7684, 0x5DE5, 0x5177, 0x8C03, 0x7528])] [pa_risk a @ js '' tool requires approval''])\<lparr>ar_pending := Some a\<rparr>"

definition create_pending_approval_result ::
    "(run_checkpoint option \<Rightarrow> thrown) \<Rightarrow> (agent_result \<Rightarrow> agent_result) \<Rightarrow> pending_session \<Rightarrow> tool_risk
     \<Rightarrow> jsstring option \<Rightarrow> tool_loop \<Rightarrow> (thrown + agent_result) \<times> tool_loop" where
  "create_pending_approval_result zod attach ps risk reason lp =
     (let a = pending_approval_of ps risk reason;
          lp1 = lp\<lparr>tl_pending := map_set (ps_run ps) ps (tl_pending lp)\<rparr>
      in case update_checkpoint zod False
            \<lparr>rc_run = ps_run ps, rc_input = ps_input ps, rc_status = CkAwaiting,
             rc_phase = classify_tool_call_phase (ps_call ps) (find_tool (ps_tools ps) (call_name (ps_call ps))),
             rc_iteration = ps_iteration ps, rc_followups = ps_followups ps,
             rc_completion = Some (completion_of (ps_followups ps)), rc_completed = ps_completed ps,
             rc_pending = Some (ps_call ps), rc_remaining = ps_remaining ps, rc_approval = Some a\<rparr> lp1 of
           Inl e \<Rightarrow> (Inl e, lp1)
         | Inr lp2 \<Rightarrow> (Inr (attach (approval_result ps a)), lp2))"

section \<open>The loop over the queue\<close>

type_synonym batch_state = "tool_loop \<times> llm_message list \<times> jsstring list \<times> run_event list"

definition caught :: "thrown \<Rightarrow> abort_signal option \<Rightarrow> llm_message list \<Rightarrow> batch_result" where
  "caught e sig msgs = (if is_operation_aborted e sig then BatchAborted e msgs else BatchThrew e)"

text \<open>One call on its own, the \<open>i\<close>-th of the batch; \<open>q\<close> is what remains of the queue behind it.\<close>

definition single_call ::
    "gateway \<Rightarrow> batch_env \<Rightarrow> (agent_result \<Rightarrow> agent_result) \<Rightarrow> batch_input \<Rightarrow> nat \<Rightarrow> tool_call \<Rightarrow> tool_call list \<Rightarrow> batch_state
     \<Rightarrow> (batch_result option \<times> batch_state) option" where
  "single_call g env attach inp i c q st =
     (let (lp, msgs, ids, tr) = st; tr1 = tr @ [Observed c]
      in case call_tool g (bn_call env i) (batch_call (Some (bi_iteration inp)) c) of
           None \<Rightarrow> None
         | Some (evs, r) \<Rightarrow>
             let tr2 = tr1 @ map GateEvent evs;
                 push = (\<lambda>content. let msgs1 = msgs @ [tool_message c content]; ids1 = ids @ [call_id c]
                   in case save_progress (bn_zod env) ids1 q lp of
                        Inl e \<Rightarrow> Some (Some (BatchThrew e), lp, msgs1, ids1, tr2)
                      | Inr lp1 \<Rightarrow> Some (None, lp1, msgs1, ids1, tr2))
             in (case r of
                   Inr res \<Rightarrow> push (rs_content res)
                 | Inl (ToolBlocked n risk reason act) \<Rightarrow>
                     if act = Deny then push (denied_text c (ToolBlocked n risk reason act) reason)
                     else
                       let ps = \<lparr>ps_run = bi_run inp, ps_input = bi_user_input inp, ps_call = c, ps_remaining = q,
                             ps_tools = bi_metadata inp, ps_iteration = bi_iteration inp,
                             ps_followups = bi_followups inp, ps_completed = uniq ids\<rparr>
                       in (case create_pending_approval_result (bn_zod env) attach ps risk reason lp of
                             (Inl e, lp1) \<Rightarrow> Some (Some (BatchThrew e), lp1, msgs, ids, tr2)
                           | (Inr res, lp1) \<Rightarrow> Some (Some (BatchApproval res msgs), lp1, msgs, ids, tr2))
                 | Inl f \<Rightarrow> Some (Some (caught (failure_thrown f) (bn_catch env i) msgs), lp, msgs, ids, tr2)))"

text \<open>Several reads at once, from the \<open>i\<close>-th on.\<close>

definition parallel_calls ::
    "gateway \<Rightarrow> batch_env \<Rightarrow> batch_input \<Rightarrow> nat \<Rightarrow> tool_call list \<Rightarrow> tool_call list \<Rightarrow> batch_state
     \<Rightarrow> (batch_result option \<times> batch_state) option" where
  "parallel_calls g env inp i cs q st =
     (let (lp, msgs, ids, tr) = st;
          rs = run_calls_together g (bn_call env) (Some (bi_iteration inp)) i cs;
          tr1 = tr @ map Observed cs @ map GateEvent (settled_events rs)
      in case promise_all (bn_first env i) rs of
           None \<Rightarrow> None
         | Some (Inl f) \<Rightarrow> Some (Some (caught (failure_thrown f) (bn_catch env i) msgs), lp, msgs, ids, tr1)
         | Some (Inr vs) \<Rightarrow>
             let msgs1 = msgs @ tool_messages cs vs; ids1 = ids @ map call_id cs
             in (case save_progress (bn_zod env) ids1 q lp of
                   Inl e \<Rightarrow> Some (Some (caught e (bn_catch env i) msgs1), lp, msgs1, ids1, tr1)
                 | Inr lp1 \<Rightarrow> Some (None, lp1, msgs1, ids1, tr1)))"

text \<open>One round of the loop with \<open>c\<close> at the front of the queue: its outcome, unless the loop goes on, and
  the queue and state it goes on with.\<close>

definition batch_round ::
    "gateway \<Rightarrow> batch_env \<Rightarrow> (agent_result \<Rightarrow> agent_result) \<Rightarrow> batch_input \<Rightarrow> nat \<Rightarrow> tool_call \<Rightarrow> tool_call list \<Rightarrow> batch_state
     \<Rightarrow> (batch_result option \<times> tool_call list \<times> batch_state) option" where
  "batch_round g env attach inp i c q st =
     (let on_its_own = map_option (\<lambda>(r, st'). (r, q, st')) (single_call g env attach inp i c q st)
      in if is_aborted (bn_head env i)
         then Some (Some (BatchAborted (abort_reason (bn_head env i) ABORTED_TEXT) (fst (snd st))), q, st)
         else if \<not> is_independent_read (find_tool (bi_metadata inp) (call_name c)) then on_its_own
         else case take_parallel g (find_tool (bi_metadata inp)) (DEFAULT_MAX_PARALLEL_READ_TOOLS - 1) q of
             Inl f \<Rightarrow> Some (Some (BatchThrew (failure_thrown f)), q, st)
           | Inr (peers, rest) \<Rightarrow>
             (case inspect_call (call_name c) (Tokens.call_input c) g of
                Inl f \<Rightarrow> Some (Some (BatchThrew (failure_thrown f)), q, st)
              | Inr p \<Rightarrow>
                  if \<not> plain_read p then on_its_own
                  else map_option (\<lambda>(r, st'). (r, rest, st')) (parallel_calls g env inp i (c # peers) rest st)))"

lemma take_parallel_split: "take_parallel g look n q = Inr (a, b) \<Longrightarrow> a @ b = q \<and> length a \<le> n"
  by (induction g look n q arbitrary: a b rule: take_parallel.induct) (auto split: if_splits sum.splits prod.splits)

lemma take_parallel_shorter: "take_parallel g look n (c # q) = Inr (a, b) \<Longrightarrow> a \<noteq> [] \<Longrightarrow> length b < Suc (length q)"
  by (drule take_parallel_split) (cases a, auto)

lemma batch_round_queue:
  "batch_round g env attach inp i c q st = Some (r, q', st') \<Longrightarrow> \<exists>cs. q = cs @ q'"
  by (auto simp: batch_round_def Let_def split: if_splits sum.splits dest!: take_parallel_split)

function batch_loop ::
    "gateway \<Rightarrow> batch_env \<Rightarrow> (agent_result \<Rightarrow> agent_result) \<Rightarrow> batch_input \<Rightarrow> nat \<Rightarrow> tool_call list \<Rightarrow> batch_state
     \<Rightarrow> (batch_result \<times> tool_loop \<times> run_event list) option" where
  "batch_loop g env attach inp i [] st = (case st of (lp, msgs, ids, tr) \<Rightarrow> Some (BatchCompleted msgs, lp, tr))"
| "batch_loop g env attach inp i (c # q) st =
     (case batch_round g env attach inp i c q st of
        None \<Rightarrow> None
      | Some (r, q', st') \<Rightarrow>
        (case r of
           Some res \<Rightarrow> (case st' of (lp, _, _, tr) \<Rightarrow> Some (res, lp, tr))
         | None \<Rightarrow> batch_loop g env attach inp (i + (Suc (length q) - length q')) q' st'))"
  by pat_completeness auto
termination
  by (relation "measure (\<lambda>(_, _, _, _, _, q, _). length q)") (auto dest!: batch_round_queue)

definition execute_tool_batch ::
    "gateway \<Rightarrow> batch_env \<Rightarrow> (agent_result \<Rightarrow> agent_result) \<Rightarrow> batch_input \<Rightarrow> tool_loop
     \<Rightarrow> (batch_result \<times> tool_loop \<times> run_event list) option" where
  "execute_tool_batch g env attach inp lp =
     (let c = start_checkpoint inp lp
      in case update_checkpoint (bn_zod env) False c lp of
           Inl e \<Rightarrow> Some (BatchThrew e, lp, [])
         | Inr lp1 \<Rightarrow> batch_loop g env attach inp 0 (bi_calls inp) (lp1, [], rc_completed c, []))"

section \<open>Scheduled calls without approvals\<close>

definition metadata_map :: "tool_metadata list \<Rightarrow> jsstring \<Rightarrow> tool_metadata option" where
  "metadata_map ts = map_of (rev (map (\<lambda>t. (md_name t, t)) ts))"

function scheduled_loop ::
    "gateway \<Rightarrow> batch_env \<Rightarrow> (jsstring \<Rightarrow> tool_metadata option) \<Rightarrow> int option \<Rightarrow> nat \<Rightarrow> nat \<Rightarrow> tool_call list
     \<Rightarrow> llm_message list \<Rightarrow> trace_event list \<Rightarrow> ((thrown + llm_message list) \<times> trace_event list) option" where
  "scheduled_loop g env look it mx i [] out tr = Some (Inr out, tr)"
| "scheduled_loop g env look it mx i (c # q) out tr =
     (if is_aborted (bn_head env i) then Some (Inl (abort_reason (bn_head env i) ABORTED_TEXT), tr)
      else case take_parallel g look mx (c # q) of
          Inl f \<Rightarrow> Some (Inl (failure_thrown f), tr)
        | Inr (par, rest) \<Rightarrow>
            let cs = (if par = [] then [c] else par);
                peers = (if par = [] then q else rest);
                rs = run_calls_together g (bn_call env) it i cs;
                tr1 = tr @ settled_events rs
            in (case promise_all (bn_first env i) rs of
                  None \<Rightarrow> None
                | Some (Inl f) \<Rightarrow> Some (Inl (failure_thrown f), tr1)
                | Some (Inr vs) \<Rightarrow>
                    scheduled_loop g env look it mx (i + length cs) peers (out @ tool_messages cs vs) tr1))"
  by pat_completeness auto
termination
  by (relation "measure (\<lambda>(_, _, _, _, _, _, q, _). length q)") (auto dest: take_parallel_shorter split: if_splits)

definition execute_scheduled_tool_calls ::
    "gateway \<Rightarrow> batch_env \<Rightarrow> tool_call list \<Rightarrow> tool_metadata list option \<Rightarrow> int option \<Rightarrow> int option
     \<Rightarrow> ((thrown + llm_message list) \<times> trace_event list) option" where
  "execute_scheduled_tool_calls g env calls tools it mx =
     scheduled_loop g env (metadata_map (case tools of Some ts \<Rightarrow> ts | None \<Rightarrow> list_tools g)) it
       (nat (max 1 (case mx of Some n \<Rightarrow> n | None \<Rightarrow> int DEFAULT_MAX_PARALLEL_READ_TOOLS))) 0 calls [] []"

end
