(* ===== verification/Gateway_Laws.thy ===== *)
theory Gateway_Laws
  imports Gateway
begin

text \<open>
  What the gateway guarantees: the registry stays keyed by tool name, a category is replaced
  atomically, no tool runs past the approval gate, and every started call records one final event
  behind its retries, except when it is cancelled while waiting for the next attempt.
\<close>

section \<open>The registry\<close>

definition tools_keyed :: "(jsstring, tool_definition) jsmap \<Rightarrow> bool" where
  "tools_keyed m \<longleftrightarrow> map_wf m \<and> (\<forall>p \<in> set m. t_name (snd p) = fst p)"

definition gateway_wf :: "gateway \<Rightarrow> bool" where
  [inv_defs]: "gateway_wf g \<longleftrightarrow> tools_keyed (g_tools g)"

lemma tools_keyed_Nil [simp]: "tools_keyed []"
  by (simp add: tools_keyed_def)

lemma tools_keyed_set: "tools_keyed m \<Longrightarrow> tools_keyed (map_set (t_name d) d m)"
  unfolding tools_keyed_def using set_map_set_subset[of "t_name d" d m] by (auto dest!: subsetD)

lemma tools_keyed_puts: "tools_keyed m \<Longrightarrow> tools_keyed (foldl (\<lambda>m d. map_set (t_name d) d m) m ds)"
  by (induction ds arbitrary: m) (auto intro: tools_keyed_set)

lemma map_wf_filter: "map_wf m \<Longrightarrow> map_wf (filter p m)"
  by (simp add: map_wf_def distinct_map_filter)

lemma tools_keyed_filter: "tools_keyed m \<Longrightarrow> tools_keyed (filter p m)"
  by (simp add: tools_keyed_def map_wf_filter)

datatype gateway_call = Register tool_definition | ReplaceCategory jsstring "tool_definition list"
  | SetPolicy approval_policy

fun gateway_exec :: "gateway_call \<Rightarrow> gateway \<Rightarrow> call_failure + gateway" where
  "gateway_exec (Register d) g = register d g"
| "gateway_exec (ReplaceCategory p ds) g = replace_category p ds g"
| "gateway_exec (SetPolicy p) g = Inr (set_approval_policy p g)"

interpretation gw: machine gateway_exec gateway_wf
proof (unfold_locales, goal_cases)
  case (1 g c g')
  then show ?case
    by (cases c) (auto simp: gateway_wf_def register_def replace_category_def set_approval_policy_def
        split: if_splits option.splits intro!: tools_keyed_set tools_keyed_puts tools_keyed_filter)
qed

lemma check_replacement_None:
  "check_replacement prefix tools seen ds = None \<Longrightarrow>
   distinct (map t_name ds) \<and> set seen \<inter> t_name ` set ds = {}
   \<and> (\<forall>d \<in> set ds. \<forall>old. map_of tools (t_name d) = Some old \<longrightarrow> in_category prefix old)"
  by (induction prefix tools seen ds rule: check_replacement.induct)
    (auto split: if_splits option.splits)

lemma map_of_filter_vals:
  "map_wf m \<Longrightarrow> map_of (filter (\<lambda>p. f (snd p)) m) k =
     (case map_of m k of Some v \<Rightarrow> if f v then Some v else None | None \<Rightarrow> None)"
proof (induction m)
  case (Cons p m)
  then have "map_wf m" "fst p \<notin> fst ` set m" by (auto simp: map_wf_def)
  moreover from this have "map_of m (fst p) = None" by (simp add: map_of_eq_None_iff)
  ultimately show ?case using Cons by (cases p) (auto split: option.splits)
qed simp

text \<open>What a successful replacement leaves at each name: the new definition, nothing if the name
  was in the category, and the old definition otherwise.\<close>

lemma replace_category_lookup:
  assumes wf: "gateway_wf g" and r: "replace_category prefix ds g = Inr g'"
  shows "map_of (g_tools g') k = (case find (\<lambda>d. t_name d = k) ds of
     Some d \<Rightarrow> Some d
   | None \<Rightarrow> (case map_of (g_tools g) k of
       Some old \<Rightarrow> if in_category prefix old then None else Some old | None \<Rightarrow> None))"
proof -
  have ck: "check_replacement prefix (g_tools g) [] ds = None"
    and g': "g_tools g' = foldl (\<lambda>m d. map_set (t_name d) d m)
       (filter (\<lambda>p. \<not> in_category prefix (snd p)) (g_tools g)) ds"
    using r by (auto simp: replace_category_def split: option.splits)
  have dist: "distinct (map t_name ds)" using check_replacement_None[OF ck] by simp
  have wfm: "map_wf (g_tools g)" using wf by (simp add: gateway_wf_def tools_keyed_def)
  show ?thesis
  proof (cases "find (\<lambda>d. t_name d = k) ds")
    case None
    then have "k \<notin> t_name ` set ds" by (auto simp: find_None_iff)
    then have "map_of (g_tools g') k = map_of (filter (\<lambda>p. \<not> in_category prefix (snd p)) (g_tools g)) k"
      unfolding g' by (rule jm.get_puts_miss)
    then show ?thesis using None
      by (simp add: map_of_filter_vals[OF wfm, of "\<lambda>d. \<not> in_category prefix d"] split: option.split)
  next
    case (Some d)
    then have d: "d \<in> set ds" "t_name d = k" by (auto simp: find_Some_iff)
    then show ?thesis using Some jm.get_puts_hit[OF d(1) dist, of "\<lambda>d. d"] by (simp add: g')
  qed
qed

section \<open>The approval gate\<close>

definition permitted :: "gateway \<Rightarrow> call_input \<Rightarrow> bool" where
  "permitted g inp \<longleftrightarrow> (\<exists>d w. map_of (g_tools g) (ci_name inp) = Some d \<and> t_parse d (ci_input inp) = Parsed w
     \<and> (let ap = g_policy g (to_metadata d (call_risk d w)) w
        in ap_action ap = Allow \<or> ap_action ap = Ask \<and> ci_approved inp = Some True))"

lemma not_permitted_env:
  assumes "\<not> permitted g inp"
  shows "call_tool g (env\<lparr>env_events := evs\<rparr>) inp = call_tool g env inp"
    and "call_tool g env inp = Some (tr, r) \<Longrightarrow> TStarted m v n \<notin> set tr"
    and "call_tool g env inp = Some (tr, r) \<Longrightarrow> \<exists>f. r = Inl f"
proof -
  have sig: "signal_at (env\<lparr>env_events := evs\<rparr>) k pt = signal_at env k pt" for k pt
    by (simp add: signal_at_def)
  have np: "ap_action (g_policy g (to_metadata d (call_risk d w)) w) \<noteq> Deny \<Longrightarrow>
      ap_action (g_policy g (to_metadata d (call_risk d w)) w) = Ask \<and> ci_approved inp \<noteq> Some True"
    if "map_of (g_tools g) (ci_name inp) = Some d" "parse_input d (ci_input inp) = Inr w" for d w
  proof -
    have "t_parse d (ci_input inp) = Parsed w" using that(2) by (auto simp: parse_input_def split: parse_outcome.splits)
    then show "ap_action (g_policy g (to_metadata d (call_risk d w)) w) \<noteq> Deny \<Longrightarrow> ?thesis"
      using assms that(1) by (auto simp: permitted_def Let_def intro: approval_action.exhaust)
  qed
  show "call_tool g (env\<lparr>env_events := evs\<rparr>) inp = call_tool g env inp"
    unfolding call_tool_def sig Let_def by (auto split: sum.split option.split dest: np)
  show "call_tool g env inp = Some (tr, r) \<Longrightarrow> TStarted m v n \<notin> set tr"
    unfolding call_tool_def Let_def by (auto split: sum.splits option.splits if_splits dest: np)
  show "call_tool g env inp = Some (tr, r) \<Longrightarrow> \<exists>f. r = Inl f"
    unfolding call_tool_def Let_def by (auto split: sum.splits option.splits if_splits dest: np)
qed

section \<open>The trace of a call\<close>

fun is_final :: "trace_event \<Rightarrow> bool" where
  "is_final (TSettled _ _ _ _ _ _) = True" | "is_final (TCancelled _ _ _ _) = True"
| "is_final (TFailed _ _ _ _ _ _) = True" | "is_final _ = False"

fun retry_attempt :: "trace_event \<Rightarrow> nat option" where
  "retry_attempt (TRetry _ n _ _ _ _) = Some n" | "retry_attempt _ = None"

fun will_retry :: "trace_event \<Rightarrow> bool" where
  "will_retry (TRetry _ _ _ _ b _) = b" | "will_retry _ = False"

fun final_attempts :: "trace_event \<Rightarrow> nat" where
  "final_attempts (TSettled _ _ _ n _ _) = n" | "final_attempts (TCancelled _ _ n _) = n"
| "final_attempts (TFailed _ _ _ n _ _) = n" | "final_attempts _ = 0"

text \<open>
  The events of the attempts from \<open>n\<close> on: a retry for each attempt that failed and is repeated,
  then the final event; a failure that is not repeated before the last attempt records one more
  retry event, marked as not retryable.
\<close>

fun trace_from :: "nat \<Rightarrow> nat \<Rightarrow> trace_event list \<Rightarrow> bool" where
  "trace_from mx n [] \<longleftrightarrow> False"
| "trace_from mx n [e] \<longleftrightarrow> is_final e \<and> final_attempts e = n \<and> n \<le> mx"
| "trace_from mx n (e # e' # es) \<longleftrightarrow> retry_attempt e = Some n \<and> n < mx \<and>
     (if will_retry e then trace_from mx (Suc n) (e' # es)
      else es = [] \<and> is_final e' \<and> final_attempts e' = n)"

definition backoff_aborted :: "call_env \<Rightarrow> nat \<Rightarrow> bool" where
  "backoff_aborted env n \<longleftrightarrow> is_aborted (signal_at env n BeforeSleep) \<or> is_aborted (signal_at env n DuringSleep)"

lemma trace_from_Cons:
  "trace_from mx (Suc n) es \<Longrightarrow> n < mx \<Longrightarrow> trace_from mx n (TRetry m n mx t True k # es)"
  by (cases es) auto

lemma attempt_loop_trace:
  "attempt_loop g env inp d meta p left n fs lst = Some (evs, r) \<Longrightarrow> left + n = Suc (r_max p) \<Longrightarrow> 0 < left \<Longrightarrow>
   length fs = n - 1 \<Longrightarrow> 0 < n \<Longrightarrow> (\<And>k. \<not> backoff_aborted env k) \<Longrightarrow> trace_from (r_max p) n evs"
proof (induction left arbitrary: n fs lst evs)
  case (Suc left)
  note noabort = Suc.prems(6)[unfolded backoff_aborted_def]
  from Suc.prems(1) obtain t where t: "try_attempt g env d n = Some t" by (auto split: option.splits)
  show ?case
  proof (cases t)
    case (Inr h)
    then show ?thesis using Suc.prems t by (auto simp: finish_attempt_def Let_def split: prod.splits)
  next
    case (Inl e)
    show ?thesis
    proof (cases "is_operation_aborted e (signal_at env n InCatch)")
      case True
      then show ?thesis using Suc.prems t Inl by (auto simp: Let_def)
    next
      case na: False
      show ?thesis
      proof (cases "n < r_max p \<and> r_retry_on p e n")
        case True
        then obtain evs' fs' where rec: "attempt_loop g env inp d meta p left (Suc n) fs' (Some e) = Some (evs', r)"
            "length fs' = n" and evs: "evs = TRetry meta n (r_max p) (err_text e) True (retry_backoff_ms p n) # evs'"
          using Suc.prems(1,4,5) t Inl na noabort by (auto simp: Let_def)
        have "0 < left" using True Suc.prems(2) by linarith
        then have "trace_from (r_max p) (Suc n) evs'"
          using Suc.IH[OF rec(1)] rec(2) Suc.prems(2,6) by simp
        then show ?thesis unfolding evs using True by (intro trace_from_Cons) auto
      next
        case False
        then show ?thesis using Suc.prems t Inl na
          by (auto simp: Let_def split: if_splits)
      qed
    qed
  qed
qed simp

lemma call_trace:
  assumes "call_tool g env inp = Some (evs, r)" "permitted g inp" "\<not> is_aborted (signal_at env 0 AtEntry)"
    and "\<And>k. \<not> backoff_aborted env k"
  shows "\<exists>m v mx es. evs = TStarted m v mx # es \<and> trace_from mx 1 es"
proof -
  obtain d w where d: "map_of (g_tools g) (ci_name inp) = Some d" "t_parse d (ci_input inp) = Parsed w"
    and ap: "let ap = g_policy g (to_metadata d (call_risk d w)) w
        in ap_action ap = Allow \<or> ap_action ap = Ask \<and> ci_approved inp = Some True"
    using assms(2) by (auto simp: permitted_def)
  let ?p = "call_policy g inp d"
  obtain es where es: "attempt_loop g env inp d (call_meta_of inp (call_risk d w)) ?p (r_max ?p) 1 [] None = Some (es, r)"
    and evs: "evs = TStarted (call_meta_of inp (call_risk d w)) (trace_input d w) (r_max ?p) # es"
    using assms(1,3) d ap by (auto simp: call_tool_def parse_input_def throw_if_aborted_def Let_def split: if_splits)
  have "0 < r_max ?p" by (simp add: call_policy_def resolve_max)
  then have "trace_from (r_max ?p) 1 es" using attempt_loop_trace[OF es] assms(4) by simp
  then show ?thesis using evs by blast
qed

text \<open>Cancelled while waiting for the next attempt, a call ends without a final event.\<close>

lemma backoff_abort_trace:
  assumes "try_attempt g env d 1 = Some (Inl e)" "\<not> is_operation_aborted e (signal_at env 1 InCatch)"
    and "1 < r_max p" "r_retry_on p e 1" "0 < retry_backoff_ms p 1" "is_aborted (signal_at env 1 DuringSleep)"
  shows "\<exists>ev f. attempt_loop g env inp d meta p (r_max p) 1 [] None = Some ([ev], Inl f) \<and> \<not> is_final ev"
proof -
  obtain k where "r_max p = Suc k" using assms(3) by (cases "r_max p") auto
  then show ?thesis using assms by (auto simp: Let_def)
qed

section \<open>Retries\<close>

lemma trace_from_length: "trace_from mx n es \<Longrightarrow> n \<le> mx \<and> length (filter will_retry es) \<le> mx - n"
proof (induction mx n es rule: trace_from.induct)
  case (2 mx n e)
  then show ?case by (cases e) auto
next
  case (3 mx n e e' es)
  then show ?case by (cases e; cases e') (auto split: if_splits)
qed simp

text \<open>An error the policy does not retry ends the call after one attempt.\<close>

lemma no_retry_once:
  assumes "try_attempt g env d 1 = Some (Inl e)" "\<not> is_operation_aborted e (signal_at env 1 InCatch)"
    and "\<not> r_retry_on p e 1" "0 < r_max p"
  shows "\<exists>evs fin. attempt_loop g env inp d meta p (r_max p) 1 [] None
     = Some (evs, if ci_return_errors inp = Some True
         then Inr (failed_result (ci_name inp) [\<lparr>f_attempt = 1, f_message = err_text e\<rparr>] (r_max p)
                (classify_runtime_error e (source_of d)))
         else Inl (Thrown e))
     \<and> (\<forall>ev \<in> set evs. \<not> will_retry ev)"
proof -
  obtain k where "r_max p = Suc k" using assms(4) by (cases "r_max p") auto
  then show ?thesis using assms by (auto simp: Let_def)
qed

section \<open>A call returns\<close>

text \<open>An event that settles the race of an attempt whatever the signal and the time limit.\<close>

definition decisive :: "exec_event \<Rightarrow> bool" where
  "decisive ev \<longleftrightarrow> (case ev of ExecDone _ \<Rightarrow> True | ExecThrew _ \<Rightarrow> True | _ \<Rightarrow> False)"

lemma exec_race_returns: "\<exists>ev \<in> set evs. decisive ev \<Longrightarrow> exec_race name tm sig evs \<noteq> None"
  by (induction name tm sig evs rule: exec_race.induct) (auto simp: decisive_def split: option.splits)

lemma try_attempt_returns: "\<exists>ev \<in> set (env_events env n). decisive ev \<Longrightarrow> try_attempt g env d n \<noteq> None"
proof -
  assume "\<exists>ev \<in> set (env_events env n). decisive ev"
  then have "exec_race name tm sig (env_events env n) \<noteq> None" for name tm sig by (rule exec_race_returns)
  then show ?thesis
    by (simp add: try_attempt_def execute_with_timeout_def del: not_None_eq split: sum.split option.split)
qed

lemma attempt_loop_returns:
  assumes "\<And>k. try_attempt g env d k \<noteq> None"
  shows "attempt_loop g env inp d meta p left n fs lst \<noteq> None"
proof (induction left arbitrary: n fs lst)
  case (Suc left)
  obtain t where "try_attempt g env d n = Some t" using assms[of n] by auto
  then show ?case by (simp add: Let_def Suc del: not_None_eq split: sum.split prod.split)
qed (simp add: Let_def)

lemma call_returns:
  "(\<And>k. \<exists>ev \<in> set (env_events env k). decisive ev) \<Longrightarrow> call_tool g env inp \<noteq> None"
proof -
  assume "\<And>k. \<exists>ev \<in> set (env_events env k). decisive ev"
  then have "attempt_loop g env inp d meta p left n fs lst \<noteq> None" for d meta p left n fs lst
    by (intro attempt_loop_returns try_attempt_returns)
  then show ?thesis by (simp add: call_tool_def Let_def del: not_None_eq split: sum.split option.split)
qed

section \<open>Policy and names\<close>

text \<open>Under the fixed policy a tool that starts without an approval is a read or a write.\<close>

lemma saas_gate:
  assumes "g_policy g = saas_tool_approval_policy" "ci_approved inp \<noteq> Some True" "permitted g inp"
  shows "\<exists>d w. map_of (g_tools g) (ci_name inp) = Some d \<and> t_parse d (ci_input inp) = Parsed w
    \<and> call_risk d w \<in> {RiskRead, RiskWrite}"
  using assms by (auto simp: permitted_def saas_tool_approval_policy_def to_metadata_def Let_def split: if_splits)

lemma saas_never_denies: "ap_action (saas_tool_approval_policy t v) \<noteq> Deny"
  by (simp add: saas_tool_approval_policy_def)

lemma destructive_allowed:
  "destructive_hint a = Some True \<Longrightarrow> read_only_hint a \<noteq> Some True \<Longrightarrow>
   md_risk t = infer_mcp_tool_risk (Some a) None \<Longrightarrow> ap_action (saas_tool_approval_policy t v) = Allow"
  by (simp add: infer_mcp_tool_risk_def risk_from_annotations_def saas_tool_approval_policy_def)

lemma unannotated_asks:
  "md_risk t = infer_mcp_tool_risk None None \<Longrightarrow> ap_action (saas_tool_approval_policy t v) = Ask"
  by (simp add: infer_mcp_tool_risk_def risk_from_annotations_def saas_tool_approval_policy_def)

lemma squash_name_chars: "c \<in> set (squash_name s) \<Longrightarrow> name_char c"
  by (induction s rule: squash_name.induct) (auto simp: name_char_def split: if_splits)

lemma sanitized_chars:
  "sanitize_mcp_name_part v \<noteq> [] \<and> (\<forall>c \<in> set (sanitize_mcp_name_part v). name_char c)"
proof -
  define y where "y = dropWhile (\<lambda>c. c = 95) (rev (dropWhile (\<lambda>c. c = 95) (squash_name (js_trim v))))"
  have "set y \<subseteq> set (squash_name (js_trim v))" unfolding y_def by (auto dest!: set_dropWhileD)
  then have "\<forall>c \<in> set y. name_char c" using squash_name_chars by blast
  moreover have "\<forall>c \<in> set (js ''tool''). name_char c" by (simp add: js_def name_char_def)
  moreover have "sanitize_mcp_name_part v = (if y = [] then js ''tool'' else rev y)"
    unfolding sanitize_mcp_name_part_def Let_def y_def[symmetric] by (simp only: rev_is_Nil_conv)
  ultimately show ?thesis by (cases "y = []") simp_all
qed

lemma sanitized_ends:
  "hd (sanitize_mcp_name_part v) \<noteq> 95 \<and> last (sanitize_mcp_name_part v) \<noteq> 95"
proof -
  define x where "x = dropWhile (\<lambda>c. c = 95) (squash_name (js_trim v))"
  define y where "y = dropWhile (\<lambda>c. c = 95) (rev x)"
  have "sanitize_mcp_name_part v = (if y = [] then js ''tool'' else rev y)"
    unfolding sanitize_mcp_name_part_def Let_def x_def[symmetric] y_def[symmetric] by (simp only: rev_is_Nil_conv)
  moreover have "y \<noteq> [] \<Longrightarrow> hd y \<noteq> 95" using hd_dropWhile[of "\<lambda>c. c = 95" "rev x"] by (simp add: y_def)
  moreover have "last y \<noteq> 95" if "y \<noteq> []"
  proof -
    have "last y = last (rev x)" using that by (metis y_def dropWhile_eq_drop last_drop length_0_conv not_le drop_eq_Nil)
    moreover have "x \<noteq> []" using that by (auto simp: y_def)
    moreover from this have "hd x \<noteq> 95" using hd_dropWhile[of "\<lambda>c. c = 95" "squash_name (js_trim v)"] by (simp add: x_def)
    ultimately show ?thesis by (simp add: last_rev)
  qed
  ultimately show ?thesis by (auto simp: hd_rev last_rev js_def)
qed

section \<open>A small gateway\<close>

definition demo_tool :: tool_definition where
  "demo_tool = \<lparr>t_name = js ''Read'', t_description = js ''reads'', t_risk = RiskExecute, t_category = Some (js ''mcp:x''),
     t_parameters = JNull, t_parse = (\<lambda>v. Parsed v), t_resolve_risk = None, t_redact = None, t_timeout = None,
     t_retry = RetryUnset, t_summarize = None\<rparr>"

definition demo_gateway :: gateway where
  "demo_gateway = (new_gateway None None None None RetryUnset)\<lparr>g_tools := [(js ''Read'', demo_tool)]\<rparr>"

definition demo_env :: call_env where
  "demo_env = \<lparr>env_signal = Some NoReason, env_aborted = (\<lambda>n pt. pt = DuringSleep),
     env_events = (\<lambda>n. [ExecThrew (plain_error (js ''Error'') (js ''socket closed''))])\<rparr>"

definition demo_input :: "bool option \<Rightarrow> call_input" where
  "demo_input ok = \<lparr>ci_name = js ''Read'', ci_input = JNull, ci_call_id = None, ci_iteration = None,
     ci_approved = ok, ci_return_errors = None, ci_retry = RetryUnset\<rparr>"

lemmas demo_gateway_defs = demo_tool_def demo_gateway_def demo_env_def demo_input_def new_gateway_def
  default_approval_policy_def to_metadata_def call_risk_def

lemma demo_gateway_wf: "gateway_wf demo_gateway"
  by (simp add: demo_gateway_defs gateway_wf_def tools_keyed_def map_wf_def)

lemma demo_not_permitted: "\<not> permitted demo_gateway (demo_input None)"
  by (simp add: permitted_def demo_gateway_defs)

lemma demo_permitted: "permitted demo_gateway (demo_input (Some True))"
  by (simp add: permitted_def demo_gateway_defs)

lemma demo_try: "try_attempt demo_gateway demo_env demo_tool n = Some (Inl (plain_error (js ''Error'') (js ''socket closed'')))"
  by (simp add: try_attempt_def execute_with_timeout_def demo_gateway_defs throw_if_aborted_def is_aborted_def signal_at_def)

lemma demo_not_cancelled:
  "\<not> is_operation_aborted (plain_error (js ''Error'') (js ''socket closed'')) (signal_at demo_env n InCatch)"
  by (simp add: is_operation_aborted_def plain_error_def demo_env_def is_aborted_def signal_at_def)

lemma demo_retries: "r_retry_on DEFAULT_TOOL_RETRY_POLICY (plain_error (js ''Error'') (js ''socket closed'')) 1"
  by (simp add: DEFAULT_TOOL_RETRY_POLICY_def is_retryable_tool_error_def is_error_named_def plain_error_def)

lemma demo_sleep: "is_aborted (signal_at demo_env 1 DuringSleep)"
  by (simp add: demo_env_def is_aborted_def signal_at_def)

end
