(* ===== verification/Batch_Laws.thy ===== *)
theory Batch_Laws
  imports Batch Gateway_Laws
begin

text \<open>
  Laws of a batch: its results answer its calls in order whatever ran in parallel, nothing starts
  that the policy does not allow, an approval keeps the interrupted call and the calls behind it,
  and the checkpoint's limits are limits of the batch.
\<close>

section \<open>Messages answer calls\<close>

definition answers_calls :: "llm_message list \<Rightarrow> tool_call list \<Rightarrow> bool" where
  "answers_calls msgs cs \<longleftrightarrow> list_all2 (\<lambda>m c. \<exists>t. m = ToolMsg (call_id c) (call_name c) t) msgs cs"

lemma answers_Nil [simp]: "answers_calls [] []" "answers_calls msgs [] \<longleftrightarrow> msgs = []" "answers_calls [] cs \<longleftrightarrow> cs = []"
  by (auto simp: answers_calls_def)

lemma answers_calls_append: "answers_calls ms cs \<Longrightarrow> answers_calls ms' cs' \<Longrightarrow> answers_calls (ms @ ms') (cs @ cs')"
  by (simp add: answers_calls_def list_all2_appendI)

lemma answers_message [simp]: "answers_calls [tool_message c t] [c]"
  by (simp add: answers_calls_def tool_message_def)

lemma answers_tool_messages: "length rs = length cs \<Longrightarrow> answers_calls (tool_messages cs rs) cs"
  by (auto simp: answers_calls_def tool_messages_def tool_message_def list_all2_conv_all_nth)

lemma settled_values:
  "failures_of rs = [] \<Longrightarrow> None \<notin> set rs \<Longrightarrow> length (values_of rs) = length rs"
  by (induction rs) (auto simp: failures_of_def values_of_def split: option.splits sum.splits)

lemma promise_all_values: "promise_all k rs = Some (Inr vs) \<Longrightarrow> length vs = length rs"
  by (auto simp: promise_all_def Let_def settled_values split: if_splits)

lemma length_run_together [simp]: "length (run_calls_together g env it i cs) = length cs"
  by (simp add: run_calls_together_def)

section \<open>The parts of a round\<close>

definition saved_pending :: "batch_input \<Rightarrow> tool_call \<Rightarrow> tool_call list \<Rightarrow> tool_loop \<Rightarrow> bool" where
  "saved_pending inp c q lp \<longleftrightarrow> (\<exists>ps. map_of (tl_pending lp) (bi_run inp) = Some ps \<and> ps_run ps = bi_run inp
     \<and> ps_call ps = c \<and> ps_remaining ps = q)
     \<and> (\<exists>k. tl_checkpoint lp = Some k \<and> rc_status k = CkAwaiting \<and> rc_pending k = Some (clone_call c)
          \<and> rc_remaining k = map clone_call q)"

lemma update_checkpoint_InrD:
  "update_checkpoint zod nt c lp = Inr lp' \<Longrightarrow> \<exists>c'. tl_checkpoint lp' = Some c' \<and> checkpoint_valid c'
     \<and> c' = c\<lparr>rc_pending := map_option clone_call (rc_pending c), rc_remaining := map clone_call (rc_remaining c)\<rparr>
     \<and> tl_pending lp' = tl_pending lp"
  by (auto simp: update_checkpoint_def clone_run_checkpoint_def Let_def split: sum.splits if_splits)

lemma save_progress_InrD:
  "save_progress zod ids q lp = Inr lp' \<Longrightarrow> length (uniq ids) \<le> MAX_COMPLETED \<and> tl_pending lp' = tl_pending lp
     \<and> (\<exists>c'. tl_checkpoint lp' = Some c' \<and> checkpoint_valid c')"
  by (auto simp: save_progress_def change_checkpoint_def split: option.splits
      dest!: update_checkpoint_InrD) (auto simp: checkpoint_valid_def)

lemma create_pending_InrD:
  assumes "create_pending_approval_result zod attach ps risk reason lp = (Inr res, lp')"
  shows "map_of (tl_pending lp') (ps_run ps) = Some ps
    \<and> (\<exists>k. tl_checkpoint lp' = Some k \<and> rc_status k = CkAwaiting \<and> rc_pending k = Some (clone_call (ps_call ps))
         \<and> rc_remaining k = map clone_call (ps_remaining ps))"
  using assms by (auto simp: create_pending_approval_result_def Let_def split: sum.splits dest!: update_checkpoint_InrD)

text \<open>What one round does to the messages and the completed ids, and how it can end the batch.\<close>

inductive round_end :: "batch_input \<Rightarrow> tool_call \<Rightarrow> tool_call list \<Rightarrow> llm_message list \<Rightarrow> llm_message list \<Rightarrow> tool_loop \<Rightarrow> batch_result \<Rightarrow> bool" for inp c q where
  threw: "round_end inp c q msgs msgs' lp (BatchThrew e)"
| stopped: "round_end inp c q msgs msgs lp (BatchAborted e msgs)"
| stopped_after: "c # q = cs @ rest \<Longrightarrow> answers_calls new cs \<Longrightarrow> round_end inp c q msgs msgs' lp (BatchAborted e (msgs @ new))"
| asked: "saved_pending inp c q lp \<Longrightarrow> round_end inp c q msgs msgs lp (BatchApproval res msgs)"

lemma caught_end: "round_end inp c q msgs msgs' lp (caught e sig msgs)"
  using stopped_after[of c q "[]" "c # q" "[]" inp msgs msgs' lp e] by (auto simp: caught_def intro: threw)

lemma single_call_next:
  assumes "single_call g env attach inp i c q (lp, msgs, ids, tr) = Some (None, lp', msgs', ids', tr')"
  shows "\<exists>t. msgs' = msgs @ [tool_message c t] \<and> ids' = ids @ [call_id c] \<and> length (uniq ids') \<le> MAX_COMPLETED"
  using assms
  by (auto simp: single_call_def Let_def split: option.splits sum.splits call_failure.splits if_splits prod.splits
      dest!: save_progress_InrD)

lemma single_call_end:
  assumes "single_call g env attach inp i c q (lp, msgs, ids, tr) = Some (Some r, lp', msgs', ids', tr')"
  shows "round_end inp c q msgs msgs' lp' r"
  using assms
  by (auto simp: single_call_def Let_def split: option.splits sum.splits call_failure.splits if_splits prod.splits
      intro: caught_end threw intro!: asked dest!: create_pending_InrD simp: saved_pending_def)

lemma parallel_calls_next:
  assumes "parallel_calls g env inp i cs q (lp, msgs, ids, tr) = Some (None, lp', msgs', ids', tr')"
  shows "\<exists>new. msgs' = msgs @ new \<and> answers_calls new cs \<and> ids' = ids @ map call_id cs \<and> length (uniq ids') \<le> MAX_COMPLETED"
  using assms
  by (auto simp: parallel_calls_def Let_def split: option.splits sum.splits dest!: save_progress_InrD promise_all_values
      intro: answers_tool_messages)

lemma parallel_calls_end:
  assumes "parallel_calls g env inp i cs rest (lp, msgs, ids, tr) = Some (Some r, lp', msgs', ids', tr')"
    and "c # q = cs @ rest"
  shows "round_end inp c q msgs msgs' lp' r"
proof -
  have late: "round_end inp c q msgs msgs' lp' (caught e sig (msgs @ new))" if "answers_calls new cs" for e sig new
    using stopped_after[OF assms(2) that] by (auto simp: caught_def intro: threw)
  show ?thesis using assms(1)
    by (auto simp: parallel_calls_def Let_def split: option.splits sum.splits dest!: promise_all_values
        intro: caught_end intro!: late answers_tool_messages)
qed

lemma parallel_peers_end:
  assumes "take_parallel g look n q = Inr (peers, rest)"
    and "parallel_calls g env inp i (c # peers) rest (lp, msgs, ids, tr) = Some (Some r, lp', msgs', ids', tr')"
  shows "round_end inp c q msgs msgs' lp' r"
  using parallel_calls_end[OF assms(2), of c q] take_parallel_split[OF assms(1)] by simp

definition round_next where
  "round_next c q q' msgs msgs' ids ids' \<longleftrightarrow> (\<exists>cs new. c # q = cs @ q' \<and> msgs' = msgs @ new \<and> answers_calls new cs
     \<and> ids' = ids @ map call_id cs \<and> length (uniq ids') \<le> MAX_COMPLETED)"

lemma single_next:
  assumes "single_call g env attach inp i c q (lp, msgs, ids, tr) = Some (None, lp', msgs', ids', tr')"
  shows "round_next c q q msgs msgs' ids ids'"
proof -
  obtain t where t: "msgs' = msgs @ [tool_message c t]" "ids' = ids @ [call_id c]" "length (uniq ids') \<le> MAX_COMPLETED"
    using single_call_next[OF assms] by blast
  then show ?thesis unfolding round_next_def by (intro exI[of _ "[c]"] exI[of _ "[tool_message c t]"]) simp
qed

lemma peers_next:
  assumes "take_parallel g look n q = Inr (peers, rest)"
    and "parallel_calls g env inp i (c # peers) rest (lp, msgs, ids, tr) = Some (None, lp', msgs', ids', tr')"
  shows "round_next c q rest msgs msgs' ids ids'"
proof -
  obtain new where "msgs' = msgs @ new" "answers_calls new (c # peers)" "ids' = ids @ map call_id (c # peers)"
      "length (uniq ids') \<le> MAX_COMPLETED"
    using parallel_calls_next[OF assms(2)] by blast
  then show ?thesis using take_parallel_split[OF assms(1)] unfolding round_next_def
    by (intro exI[of _ "c # peers"] exI[of _ new]) simp
qed

lemma batch_round_next:
  assumes "batch_round g env attach inp i c q (lp, msgs, ids, tr) = Some (None, q', lp', msgs', ids', tr')"
  shows "round_next c q q' msgs msgs' ids ids'"
  using assms
  by (auto simp: batch_round_def Let_def split: if_splits sum.splits intro: single_next peers_next)

lemma batch_round_end:
  assumes "batch_round g env attach inp i c q (lp, msgs, ids, tr) = Some (Some r, q', lp', msgs', ids', tr')"
  shows "round_end inp c q msgs msgs' lp' r"
  using assms
  by (auto simp: batch_round_def Let_def split: if_splits sum.splits
      intro: single_call_end stopped threw parallel_peers_end)

section \<open>The whole batch\<close>

text \<open>What a batch on the calls \<open>cs\<close> returns, given what was answered before.\<close>

fun batch_outcome :: "batch_input \<Rightarrow> tool_call list \<Rightarrow> tool_loop \<Rightarrow> batch_result \<Rightarrow> bool" where
  "batch_outcome inp cs lp (BatchCompleted msgs) \<longleftrightarrow> answers_calls msgs cs"
| "batch_outcome inp cs lp (BatchAborted e msgs) \<longleftrightarrow> (\<exists>done rest. cs = done @ rest \<and> answers_calls msgs done)"
| "batch_outcome inp cs lp (BatchApproval res msgs) \<longleftrightarrow>
     (\<exists>done c rest. cs = done @ c # rest \<and> answers_calls msgs done \<and> saved_pending inp c rest lp)"
| "batch_outcome inp cs lp (BatchThrew e) \<longleftrightarrow> True"

lemma round_end_outcome:
  assumes "round_end inp c q msgs msgs' lp r" "answers_calls msgs before"
  shows "batch_outcome inp (before @ c # q) lp r"
  using assms
proof cases
  case (stopped_after cs rest new e)
  have "before @ c # q = (before @ cs) @ rest" using stopped_after(2) by simp
  moreover have "answers_calls (msgs @ new) (before @ cs)" using answers_calls_append[OF assms(2) stopped_after(3)] .
  ultimately show ?thesis unfolding stopped_after(1) by (simp only: batch_outcome.simps) blast
qed auto

lemma batch_loop_outcome:
  "batch_loop g env attach inp i q (lp, msgs, ids, tr) = Some (r, lp', tr') \<Longrightarrow> answers_calls msgs before \<Longrightarrow>
   batch_outcome inp (before @ q) lp' r"
proof (induction "length q" arbitrary: i q lp msgs ids tr before rule: less_induct)
  case less
  show ?case
  proof (cases q)
    case Nil
    then show ?thesis using less.prems by auto
  next
    case (Cons c q1)
    then obtain x q2 lp2 msgs2 ids2 tr2 where
      rd: "batch_round g env attach inp i c q1 (lp, msgs, ids, tr) = Some (x, q2, lp2, msgs2, ids2, tr2)"
      using less.prems(1) by (auto split: option.splits prod.splits)
    show ?thesis
    proof (cases x)
      case None
      obtain cs new where n: "c # q1 = cs @ q2" "msgs2 = msgs @ new" "answers_calls new cs"
        using batch_round_next[OF rd[unfolded None]] unfolding round_next_def by blast
      have sh: "length q2 < length q" using batch_round_queue[OF rd] Cons by auto
      have lp: "batch_loop g env attach inp (i + (Suc (length q1) - length q2)) q2 (lp2, msgs2, ids2, tr2) = Some (r, lp', tr')"
        using less.prems(1) Cons rd None by simp
      have "answers_calls msgs2 (before @ cs)" using answers_calls_append[OF less.prems(2) n(3)] n(2) by simp
      then have "batch_outcome inp ((before @ cs) @ q2) lp' r" by (rule less.hyps[OF sh lp])
      then show ?thesis using n(1) Cons by simp
    next
      case (Some r1)
      then have "r1 = r" "lp2 = lp'" using less.prems(1) Cons rd by auto
      then show ?thesis using round_end_outcome[OF batch_round_end less.prems(2)] rd Some Cons by blast
    qed
  qed
qed

lemma batch_loop_completed:
  "batch_loop g env attach inp i q (lp, msgs, ids, tr) = Some (BatchCompleted ms, lp', tr') \<Longrightarrow>
   length (uniq ids) \<le> MAX_COMPLETED \<Longrightarrow> length (uniq (ids @ map call_id q)) \<le> MAX_COMPLETED"
proof (induction "length q" arbitrary: i q lp msgs ids tr rule: less_induct)
  case less
  show ?case
  proof (cases q)
    case Nil
    then show ?thesis using less.prems by simp
  next
    case (Cons c q1)
    then obtain x q2 lp2 msgs2 ids2 tr2 where
      rd: "batch_round g env attach inp i c q1 (lp, msgs, ids, tr) = Some (x, q2, lp2, msgs2, ids2, tr2)"
      using less.prems(1) by (auto split: option.splits prod.splits)
    have "x = None"
    proof (rule ccontr)
      assume "x \<noteq> None"
      then obtain r1 where "x = Some r1" by auto
      moreover from this have "r1 = BatchCompleted ms" using less.prems(1) Cons rd by auto
      ultimately have "round_end inp c q1 msgs msgs2 lp2 (BatchCompleted ms)" using batch_round_end rd by blast
      then show False by cases
    qed
    obtain cs new where n: "c # q1 = cs @ q2" "ids2 = ids @ map call_id cs" "length (uniq ids2) \<le> MAX_COMPLETED"
      using batch_round_next[OF rd[unfolded \<open>x = None\<close>]] unfolding round_next_def by blast
    have sh: "length q2 < length q" using batch_round_queue[OF rd] Cons by auto
    have lp: "batch_loop g env attach inp (i + (Suc (length q1) - length q2)) q2 (lp2, msgs2, ids2, tr2) = Some (BatchCompleted ms, lp', tr')"
      using less.prems(1) Cons rd \<open>x = None\<close> by simp
    have "map call_id q = map call_id cs @ map call_id q2" using n(1) Cons by (metis map_append)
    then show ?thesis using less.hyps[OF sh lp n(3)] n(2) by simp
  qed
qed

lemma uniq_length: "length (uniq xs) = card (set xs)"
  by (metis distinct_card distinct_uniq set_uniq)

text \<open>The ids a batch starts from.\<close>

definition ids_before :: "batch_input \<Rightarrow> tool_loop \<Rightarrow> jsstring list" where
  "ids_before inp lp = (case tl_checkpoint lp of
     Some c \<Rightarrow> if rc_run c = bi_run inp then rc_completed c else [] | None \<Rightarrow> [])"

lemma start_ids [simp]: "rc_completed (start_checkpoint inp lp) = ids_before inp lp"
  "rc_remaining (start_checkpoint inp lp) = bi_calls inp"
  by (simp_all add: start_checkpoint_def ids_before_def)

lemma execute_batch_outcome:
  assumes "execute_tool_batch g env attach inp lp = Some (r, lp', tr)"
  shows "batch_outcome inp (bi_calls inp) lp' r"
  using assms batch_loop_outcome[where before = "[]" and msgs = "[]"]
  by (auto simp: execute_tool_batch_def Let_def split: sum.splits)

lemma execute_batch_limits:
  assumes "execute_tool_batch g env attach inp lp = Some (BatchCompleted msgs, lp', tr)"
  shows "length (bi_calls inp) \<le> MAX_REMAINING"
    "card (set (ids_before inp lp) \<union> call_id ` set (bi_calls inp)) \<le> MAX_COMPLETED"
proof -
  obtain lp1 where u: "update_checkpoint (bn_zod env) False (start_checkpoint inp lp) lp = Inr lp1"
    and l: "batch_loop g env attach inp 0 (bi_calls inp) (lp1, [], ids_before inp lp, []) = Some (BatchCompleted msgs, lp', tr)"
    using assms by (auto simp: execute_tool_batch_def Let_def split: sum.splits)
  have v: "checkpoint_valid (start_checkpoint inp lp)"
    using u by (auto simp: update_checkpoint_def clone_run_checkpoint_def Let_def checkpoint_valid_clone
        simp del: start_ids split: sum.splits if_splits)
  then show "length (bi_calls inp) \<le> MAX_REMAINING" by (simp add: checkpoint_valid_def)
  have "length (ids_before inp lp) \<le> MAX_COMPLETED" using v by (simp add: checkpoint_valid_def)
  then have "length (uniq (ids_before inp lp)) \<le> MAX_COMPLETED"
    using card_length[of "ids_before inp lp"] by (simp add: uniq_length)
  from batch_loop_completed[OF l this]
  show "card (set (ids_before inp lp) \<union> call_id ` set (bi_calls inp)) \<le> MAX_COMPLETED" by (simp add: uniq_length)
qed

section \<open>Nothing unasked starts\<close>

definition allowed_call :: "gateway \<Rightarrow> tool_call \<Rightarrow> bool" where
  "allowed_call g c \<longleftrightarrow> (\<exists>d w. map_of (g_tools g) (call_name c) = Some d \<and> t_parse d (Tokens.call_input c) = Parsed w
     \<and> ap_action (g_policy g (to_metadata d (call_risk d w)) w) = Allow)"

lemma permitted_batch_call: "permitted g (batch_call it c) \<longleftrightarrow> allowed_call g c"
  by (auto simp: permitted_def allowed_call_def batch_call_def Let_def)

lemma attempts_no_start: "attempt_loop g e inp d meta p left k fs lst = Some (evs, r) \<Longrightarrow> TStarted m v n \<notin> set evs"
proof (induction left arbitrary: k fs lst evs r)
  case (Suc left)
  then show ?case
    by (auto simp: Let_def finish_attempt_def split: option.splits sum.splits if_splits prod.splits)
qed (simp add: Let_def)

lemma call_started:
  assumes "call_tool g e (batch_call it c) = Some (evs, r)" "TStarted m v n \<in> set evs"
  shows "allowed_call g c" "cm_tool m = call_name c"
proof -
  show "allowed_call g c"
    using not_permitted_env(2)[of g "batch_call it c" e evs r m v n] permitted_batch_call assms by blast
  show "cm_tool m = call_name c"
    using assms by (auto simp: call_tool_def batch_call_def call_meta_of_def Let_def dest: attempts_no_start
        split: sum.splits option.splits if_splits)
qed

fun start_ok :: "gateway \<Rightarrow> tool_call list \<Rightarrow> run_event \<Rightarrow> bool" where
  "start_ok g cs (GateEvent (TStarted m v n)) \<longleftrightarrow> (\<exists>c\<in>set cs. cm_tool m = call_name c \<and> allowed_call g c)"
| "start_ok g cs _ \<longleftrightarrow> True"

definition starts_allowed :: "gateway \<Rightarrow> tool_call list \<Rightarrow> run_event list \<Rightarrow> bool" where
  "starts_allowed g cs tr \<longleftrightarrow> list_all (start_ok g cs) tr"

lemma starts_allowed_simps [simp]:
  "starts_allowed g cs []" "starts_allowed g cs (tr @ tr') \<longleftrightarrow> starts_allowed g cs tr \<and> starts_allowed g cs tr'"
  "starts_allowed g cs (map Observed ds)" "starts_allowed g cs (Observed d # tr) \<longleftrightarrow> starts_allowed g cs tr"
  by (auto simp: starts_allowed_def list_all_iff)

lemma start_ok_mono: "start_ok g cs e \<Longrightarrow> set cs \<subseteq> set ds \<Longrightarrow> start_ok g ds e"
  by (cases "(g, cs, e)" rule: start_ok.cases) auto

lemma starts_allowed_mono: "starts_allowed g cs tr \<Longrightarrow> set cs \<subseteq> set ds \<Longrightarrow> starts_allowed g ds tr"
  by (auto simp: starts_allowed_def list_all_iff intro: start_ok_mono)

lemma call_starts:
  assumes "call_tool g e (batch_call it c) = Some (evs, r)" "c \<in> set cs"
  shows "starts_allowed g cs (map GateEvent evs)"
proof -
  have "start_ok g cs (GateEvent v)" if "v \<in> set evs" for v
    using call_started[OF assms(1)] assms(2) that by (cases v) auto
  then show ?thesis by (auto simp: starts_allowed_def list_all_iff)
qed

lemma together_starts: "starts_allowed g cs (map GateEvent (settled_events (run_calls_together g env it i cs)))"
proof -
  have all: "starts_allowed g cs (map GateEvent (settled_events (map (\<lambda>p. call_tool g (env (fst p)) (batch_call it (snd p))) ps)))"
    if "set (map snd ps) \<subseteq> set cs" for ps
    using that by (induction ps) (auto simp: settled_events_def intro: call_starts split: option.split)
  have "set (map snd (zip [i..<i + length cs] cs)) \<subseteq> set cs" by (auto dest: set_zip_rightD)
  then show ?thesis unfolding run_calls_together_def by (rule all)
qed

lemma single_call_trace:
  assumes "single_call g env attach inp i c q (lp, msgs, ids, tr) = Some (x, lp', msgs', ids', tr')"
  shows "\<exists>new. tr' = tr @ new \<and> starts_allowed g [c] new"
proof -
  obtain evs r where "call_tool g (bn_call env i) (batch_call (Some (bi_iteration inp)) c) = Some (evs, r)"
      "tr' = tr @ Observed c # map GateEvent evs"
    using assms by (auto simp: single_call_def Let_def split: option.splits sum.splits call_failure.splits if_splits prod.splits)
  then show ?thesis using call_starts[of g _ _ c evs r "[c]"] by (intro exI[of _ "Observed c # map GateEvent evs"]) auto
qed

lemma parallel_calls_trace:
  assumes "parallel_calls g env inp i cs q (lp, msgs, ids, tr) = Some (x, lp', msgs', ids', tr')"
  shows "\<exists>new. tr' = tr @ new \<and> starts_allowed g cs new"
  using assms together_starts by (auto simp: parallel_calls_def Let_def split: option.splits sum.splits)

lemma batch_round_trace:
  assumes "batch_round g env attach inp i c q (lp, msgs, ids, tr) = Some (x, q', lp', msgs', ids', tr')"
  shows "\<exists>new. tr' = tr @ new \<and> starts_allowed g (c # q) new"
proof -
  consider "tr' = tr" | "single_call g env attach inp i c q (lp, msgs, ids, tr) = Some (x, lp', msgs', ids', tr')"
    | peers rest n where "take_parallel g (find_tool (bi_metadata inp)) n q = Inr (peers, rest)"
        "parallel_calls g env inp i (c # peers) rest (lp, msgs, ids, tr) = Some (x, lp', msgs', ids', tr')"
    using assms by (auto simp: batch_round_def Let_def split: if_splits sum.splits)
  then show ?thesis
  proof cases
    case 2
    show ?thesis using single_call_trace[OF 2] starts_allowed_mono[of g "[c]"] by fastforce
  next
    case 3
    have "set (c # peers) \<subseteq> set (c # q)" using take_parallel_split[OF 3(1)] by auto
    then show ?thesis using parallel_calls_trace[OF 3(2)] starts_allowed_mono by blast
  qed simp
qed

lemma batch_loop_trace:
  "batch_loop g env attach inp i q (lp, msgs, ids, tr) = Some (r, lp', tr') \<Longrightarrow> \<exists>new. tr' = tr @ new \<and> starts_allowed g q new"
proof (induction "length q" arbitrary: i q lp msgs ids tr rule: less_induct)
  case less
  show ?case
  proof (cases q)
    case Nil
    then show ?thesis using less.prems by simp
  next
    case (Cons c q1)
    then obtain x q2 lp2 msgs2 ids2 tr2 where
      rd: "batch_round g env attach inp i c q1 (lp, msgs, ids, tr) = Some (x, q2, lp2, msgs2, ids2, tr2)"
      using less.prems(1) by (auto split: option.splits prod.splits)
    obtain new where new: "tr2 = tr @ new" "starts_allowed g q new" using batch_round_trace[OF rd] Cons by auto
    show ?thesis
    proof (cases x)
      case None
      have sh: "length q2 < length q" "set q2 \<subseteq> set q" using batch_round_queue[OF rd] Cons by auto
      have "batch_loop g env attach inp (i + (Suc (length q1) - length q2)) q2 (lp2, msgs2, ids2, tr2) = Some (r, lp', tr')"
        using less.prems(1) Cons rd None by simp
      from less.hyps[OF sh(1) this] obtain new2 where "tr' = tr2 @ new2" "starts_allowed g q2 new2" by blast
      then show ?thesis using new starts_allowed_mono[OF _ sh(2)] by (intro exI[of _ "new @ new2"]) simp
    next
      case (Some r1)
      then show ?thesis using less.prems(1) Cons rd new by auto
    qed
  qed
qed

lemma execute_batch_trace:
  assumes "execute_tool_batch g env attach inp lp = Some (r, lp', tr)"
  shows "starts_allowed g (bi_calls inp) tr"
  using assms batch_loop_trace[where tr = "[]"] by (fastforce simp: execute_tool_batch_def Let_def split: sum.splits)

section \<open>Scheduled calls\<close>

lemma scheduled_loop_answers:
  "scheduled_loop g env look it mx i q out tr = Some (Inr msgs, tr') \<Longrightarrow> answers_calls out before \<Longrightarrow>
   answers_calls msgs (before @ q)"
proof (induction g env look it mx i q out tr arbitrary: before rule: scheduled_loop.induct)
  case (2 g env look it mx i c q out tr)
  then obtain par rest where tp: "\<not> is_aborted (bn_head env i)" "take_parallel g look mx (c # q) = Inr (par, rest)"
    by (auto split: if_splits sum.splits)
  define cs where "cs = (if par = [] then [c] else par)"
  define peers where "peers = (if par = [] then q else rest)"
  obtain vs where vs: "promise_all (bn_first env i) (run_calls_together g (bn_call env) it i cs) = Some (Inr vs)"
    "scheduled_loop g env look it mx (i + length cs) peers (out @ tool_messages cs vs)
       (tr @ settled_events (run_calls_together g (bn_call env) it i cs)) = Some (Inr msgs, tr')"
    using 2(2) tp unfolding cs_def peers_def by (auto simp: Let_def split: option.splits sum.splits)
  have split: "cs @ peers = c # q" using take_parallel_split[OF tp(2)] by (simp add: cs_def peers_def)
  have "answers_calls (out @ tool_messages cs vs) (before @ cs)"
    using answers_calls_append[OF 2(3) answers_tool_messages[of vs cs]] promise_all_values[OF vs(1)] by simp
  from 2(1)[OF tp(1) tp(2) refl cs_def peers_def refl refl vs(1) refl vs(2)[unfolded ] this]
  show ?case using split by simp
qed auto

section \<open>A batch returns when its calls do\<close>

lemma promise_all_returns: "None \<notin> set rs \<Longrightarrow> promise_all k rs \<noteq> None"
  by (auto simp: promise_all_def Let_def)

lemma together_returns:
  assumes "\<And>i c. call_tool g (env i) (batch_call it c) \<noteq> None"
  shows "None \<notin> set (run_calls_together g env it i cs)"
proof
  assume "None \<in> set (run_calls_together g env it i cs)"
  then obtain j c where "call_tool g (env j) (batch_call it c) = None" by (auto simp: run_calls_together_def dest: sym)
  then show False using assms by blast
qed

lemma single_call_returns:
  assumes "\<And>i c. call_tool g (bn_call env i) (batch_call (Some (bi_iteration inp)) c) \<noteq> None"
  shows "single_call g env attach inp i c q st \<noteq> None"
  using assms[of i c]
  by (auto simp: single_call_def Let_def split: option.splits sum.splits call_failure.splits prod.splits)

lemma parallel_calls_returns:
  assumes "\<And>i c. call_tool g (bn_call env i) (batch_call (Some (bi_iteration inp)) c) \<noteq> None"
  shows "parallel_calls g env inp i cs q st \<noteq> None"
proof -
  have "promise_all (bn_first env i) (run_calls_together g (bn_call env) (Some (bi_iteration inp)) i cs) \<noteq> None"
    by (rule promise_all_returns[OF together_returns]) (rule assms)
  then show ?thesis by (auto simp: parallel_calls_def Let_def split: option.splits sum.splits prod.splits)
qed

lemma batch_loop_returns:
  assumes "\<And>i c. call_tool g (bn_call env i) (batch_call (Some (bi_iteration inp)) c) \<noteq> None"
  shows "batch_loop g env attach inp i q st \<noteq> None"
proof (induction "length q" arbitrary: i q st rule: less_induct)
  case less
  show ?case
  proof (cases q)
    case Nil
    then show ?thesis by (simp split: prod.splits)
  next
    case (Cons c q')
    have "batch_round g env attach inp i c q' st \<noteq> None"
      using single_call_returns[OF assms] parallel_calls_returns[OF assms]
      by (cases st) (auto simp: batch_round_def Let_def split: sum.splits prod.splits)
    then obtain r q2 st2 where rd: "batch_round g env attach inp i c q' st = Some (r, q2, st2)" by auto
    have "length q2 < length q" using batch_round_queue[OF rd] Cons by auto
    from less[OF this] show ?thesis using rd Cons by (auto split: option.splits prod.splits)
  qed
qed

lemma execute_batch_returns:
  assumes "\<And>i c. call_tool g (bn_call env i) (batch_call (Some (bi_iteration inp)) c) \<noteq> None"
  shows "execute_tool_batch g env attach inp lp \<noteq> None"
  using batch_loop_returns[OF assms] by (auto simp: execute_tool_batch_def Let_def split: sum.splits)

section \<open>A small gateway\<close>

definition demo_read :: tool_definition where
  "demo_read = \<lparr>t_name = js ''Stat'', t_description = js ''stats'', t_risk = RiskRead, t_category = None,
     t_parameters = JNull, t_parse = (\<lambda>v. Parsed v), t_resolve_risk = None, t_redact = None, t_timeout = None,
     t_retry = RetryUnset, t_summarize = None\<rparr>"

definition demo_write :: tool_definition where
  "demo_write = demo_read\<lparr>t_name := js ''Send'', t_risk := RiskNetwork\<rparr>"

definition demo_tools :: gateway where
  "demo_tools = (new_gateway None None None None RetryUnset)\<lparr>g_tools := [(js ''Stat'', demo_read), (js ''Send'', demo_write)]\<rparr>"

definition demo_done :: call_env where
  "demo_done = \<lparr>env_signal = None, env_aborted = (\<lambda>_ _. False),
     env_events = (\<lambda>_. [ExecDone \<lparr>h_status = None, h_text = js ''ok'', h_summary = None, h_data = JUndef\<rparr>])\<rparr>"

definition demo_batch_env :: batch_env where
  "demo_batch_env = \<lparr>bn_call = (\<lambda>_. demo_done), bn_head = (\<lambda>_. None), bn_catch = (\<lambda>_. None), bn_first = (\<lambda>_. 0),
     bn_zod = (\<lambda>_. plain_error (js ''ZodError'') [])\<rparr>"

definition named_call :: "string \<Rightarrow> string \<Rightarrow> tool_call" where
  "named_call i n = \<lparr>call_id = js i, call_name = js n, call_input = JObj []\<rparr>"

definition demo_batch :: "tool_call list \<Rightarrow> batch_input" where
  "demo_batch cs = \<lparr>bi_run = js ''r'', bi_user_input = js ''hi'', bi_calls = cs, bi_metadata = list_tools demo_tools,
     bi_iteration = 1, bi_followups = 0\<rparr>"

definition demo_loop :: tool_loop where
  "demo_loop = \<lparr>tl_pending = [], tl_checkpoint = None, tl_notices = 0\<rparr>"

lemma demo_try_read: "try_attempt demo_tools demo_done d n
   = Some (Inr \<lparr>h_status = None, h_text = js ''ok'', h_summary = None, h_data = JUndef\<rparr>)"
  by (simp add: try_attempt_def execute_with_timeout_def throw_if_aborted_def demo_done_def is_aborted_def signal_at_def)

lemma demo_attempts: "\<exists>r evs. attempt_loop demo_tools demo_done inp d meta p k n fs lst = Some (evs, r)"
  by (cases k) (simp_all add: demo_try_read Let_def split: prod.split)

lemma demo_call_returns: "\<exists>evs r. call_tool demo_tools demo_done inp = Some (evs, r)"
  using demo_attempts by (simp add: call_tool_def Let_def split: sum.split option.split)

end
