(* ===== verification/Exchange.thy ===== *)
theory Exchange
  imports Session_Laws Batch_Laws
begin

text \<open>
  The order model providers require: every tool call of an assistant message is answered by the
  tool results right behind it, in the order of the calls, and there is no other tool result. On
  entries the results also share the turn of the call. The governor keeps this order, and a turn
  with a completed batch of tools extends it.
\<close>

section \<open>On messages\<close>

function well_paired :: "llm_message list \<Rightarrow> bool" where
  "well_paired [] = True"
| "well_paired (m # ms) = (result_id m = None
     \<and> map result_id (take (length (calls_of m)) ms) = map (\<lambda>c. Some (call_id c)) (calls_of m)
     \<and> well_paired (drop (length (calls_of m)) ms))"
  by pat_completeness auto
termination by (relation "measure length") auto

lemma map_take_length: "map f (take n xs) = ys \<Longrightarrow> length ys = n \<Longrightarrow> n \<le> length xs"
  by auto

lemma well_paired_append: "well_paired ms \<Longrightarrow> well_paired ns \<Longrightarrow> well_paired (ms @ ns)"
proof (induction ms rule: well_paired.induct)
  case (2 m ms)
  have "length (calls_of m) \<le> length ms" using 2(2) map_take_length by fastforce
  then show ?case using 2 by simp
qed simp

section \<open>On entries\<close>

function grouped :: "thread_entry list \<Rightarrow> bool" where
  "grouped [] = True"
| "grouped (e # es) = (result_id (message e) = None
     \<and> map (\<lambda>x. (turn_id x, result_id (message x))) (take (length (calls_of (message e))) es)
         = map (\<lambda>c. (turn_id e, Some (call_id c))) (calls_of (message e))
     \<and> grouped (drop (length (calls_of (message e))) es))"
  by pat_completeness auto
termination by (relation "measure length") auto

lemma grouped_room:
  assumes "grouped (e # es)"
  shows "length (calls_of (message e)) \<le> length es"
proof -
  have "length (take (length (calls_of (message e))) es) = length (calls_of (message e))"
    using arg_cong[where f = length, OF conjunct1[OF conjunct2[OF assms[unfolded grouped.simps(2)]]]] by simp
  then show ?thesis by simp
qed

lemma grouped_answer:
  assumes "grouped (e # es)" "k < length (calls_of (message e))"
  shows "turn_id (es ! k) = turn_id e" "result_id (message (es ! k)) = Some (call_id (calls_of (message e) ! k))"
proof -
  have "map (\<lambda>x. (turn_id x, result_id (message x))) (take (length (calls_of (message e))) es) ! k
      = map (\<lambda>c. (turn_id e, Some (call_id c))) (calls_of (message e)) ! k"
    using assms(1) by simp
  then show "turn_id (es ! k) = turn_id e" "result_id (message (es ! k)) = Some (call_id (calls_of (message e) ! k))"
    using assms(2) grouped_room[OF assms(1)] by simp_all
qed

lemma grouped_append: "grouped es \<Longrightarrow> grouped fs \<Longrightarrow> grouped (es @ fs)"
proof (induction es rule: grouped.induct)
  case (2 e es)
  then show ?case using grouped_room[OF 2(2)] by simp
qed simp

lemma result_not_assistant: "result_id (message e) = Some i \<Longrightarrow> \<not> is_assistant_entry e"
  by (auto simp: result_id_def is_assistant_entry_def split: llm_message.splits)

text \<open>A safe cut does not fall into a group.\<close>

lemma grouped_drop: "grouped es \<Longrightarrow> safe_cut n es \<Longrightarrow> grouped (drop n es)"
proof (induction es arbitrary: n rule: grouped.induct)
  case (2 e es)
  define L where "L = length (calls_of (message e))"
  show ?case
  proof (cases n)
    case 0
    then show ?thesis using 2 by simp
  next
    case (Suc k)
    show ?thesis
    proof (cases "k < L \<and> k < length es")
      case True
      then have r: "turn_id (es ! k) = turn_id e" "\<not> is_assistant_entry (es ! k)"
        using grouped_answer[OF 2(2), of k] result_not_assistant unfolding L_def by auto
      have "turn_id ((e # es) ! k) = turn_id e"
        using True grouped_answer(1)[OF 2(2), of "k - 1"] unfolding L_def by (cases k) auto
      then have False using 2(3) r True Suc by (auto simp: safe_cut_def)
      then show ?thesis ..
    next
      case False
      show ?thesis
      proof (cases "k < L")
        case True
        then show ?thesis using False Suc by simp
      next
        case ge: False
        have "safe_cut (k - L) (drop L es)"
        proof (cases "k = L")
          case True
          then show ?thesis by (simp add: safe_cut_def)
        next
          case False
          then have k: "L < k" using ge by simp
          show ?thesis
          proof (cases "length es \<le> k")
            case True
            then show ?thesis by (simp add: safe_cut_def diff_le_mono)
          next
            case False
            have "(e # es) ! (n - 1) = drop L es ! (k - L - 1)" "(e # es) ! n = drop L es ! (k - L)"
              using k False Suc grouped_room[OF 2(2)] by (auto simp: L_def[symmetric] nth_Cons')
            then show ?thesis using 2(3) False k Suc by (auto simp: safe_cut_def)
          qed
        qed
        moreover have "grouped (drop L es)" using 2(2) by (simp add: L_def)
        ultimately have "grouped (drop (k - L) (drop L es))" using 2(1)[folded L_def] by blast
        then show ?thesis using ge Suc by simp
      qed
    qed
  qed
qed simp

lemma grouped_cong: "map skel es = map skel es' \<Longrightarrow> grouped es \<Longrightarrow> grouped es'"
proof (induction es arbitrary: es' rule: grouped.induct)
  case (2 e es)
  obtain x xs where x: "es' = x # xs" "skel e = skel x" "map skel es = map skel xs"
    by (rule skel_Cons[OF 2(2)])
  note f = skel_eqD[OF x(2)]
  have t: "map skel (take n es) = map skel (take n xs)" "map skel (drop n es) = map skel (drop n xs)" for n
    using x(3) by (simp_all add: take_map[symmetric] drop_map[symmetric])
  have "map (\<lambda>z. (turn_id z, result_id (message z))) (take n es) = map (\<lambda>z. (turn_id z, result_id (message z))) (take n xs)" for n
    by (rule skel_map[OF t(1)]) (auto dest: skel_eqD)
  then show ?case using 2(1)[OF t(2)] 2(3) f by (simp add: x(1))
qed simp

lemma grouped_messages: "grouped es \<Longrightarrow> well_paired (map message es)"
proof (induction es rule: grouped.induct)
  case (2 e es)
  have "map snd (map (\<lambda>x. (turn_id x, result_id (message x))) (take (length (calls_of (message e))) es))
      = map snd (map (\<lambda>c. (turn_id e, Some (call_id c))) (calls_of (message e)))"
    using 2(2) by simp
  then have "map (\<lambda>x. result_id (message x)) (take (length (calls_of (message e))) es)
      = map (\<lambda>c. Some (call_id c)) (calls_of (message e))"
    by (simp add: comp_def)
  then show ?case using 2 by (simp add: take_map drop_map comp_def)
qed simp

lemma clone_simps [simp]: "result_id (clone_message m) = result_id m" "calls_of (clone_message m) = calls_of m"
  by (cases m; simp add: result_id_def calls_of_def)+

lemma well_paired_clone: "well_paired (map clone_message ms) = well_paired ms"
  by (induction ms rule: well_paired.induct) (simp_all add: take_map drop_map comp_def)

section \<open>The governor keeps the groups\<close>

lemma compaction_entry:
  assumes "0 < n" "n \<le> length (entries th)"
  shows "\<exists>c. result_id (message c) = None \<and> calls_of (message c) = []
    \<and> entries (replace_prefix_with_compaction est (int n) s th) = c # drop n (entries th)"
  using assms by (simp add: replace_prefix_with_compaction_def next_turn_id_def Let_def min_def result_id_def calls_of_def)

lemma notice_entry:
  "\<exists>e. result_id (message e) = None \<and> calls_of (message e) = [] \<and> entries (add_notice est c th) = entries th @ [e]"
  by (auto simp: add_notice_def next_turn_id_def ensure_turn_def append_entry_def Let_def result_id_def calls_of_def split: option.splits)

interpretation gov_grouped: governed est "\<lambda>th. grouped (entries th) \<and> thread_ok th" for est
proof (unfold_locales, goal_cases)
  case (1 th th')
  then show ?case using gov_ok.shape grouped_cong[of "entries th" "entries th'"] by (auto simp: same_shape_def)
next
  case (2 th n s)
  then have n: "0 < n" "n \<le> length (entries th)" and safe: "safe_cut n (entries th)"
    using good_cut_not_open by (auto simp: good_cut_def thread_ok_def)
  obtain c where "result_id (message c) = None" "calls_of (message c) = []"
      "entries (replace_prefix_with_compaction est (int n) s th) = c # drop n (entries th)"
    using compaction_entry[OF n] by blast
  then show ?case using 2 safe thread_ok_cut grouped_drop by auto
next
  case (3 th c)
  then show ?case using notice_entry[of est c th] thread_ok_notice by (auto intro!: grouped_append)
qed

end
