(* ===== verification/Model_Laws.thy ===== *)
theory Model_Laws
  imports Telemetry Exchange
begin

text \<open>
  Laws of the model client: the provider sees the calls and results of a request in their places and images as
  data only; a call that ends leaves metrics of its own, one that fails before it starts leaves those of the call
  before it; the usage of a run is the sum over its own events.
\<close>

section \<open>Efforts and names\<close>

lemma effort_names: "parse_thinking_effort (Some (effort_name e)) = Some e"
  by (cases e) (simp_all add: parse_thinking_effort_def find_effort_def THINKING_EFFORT_LEVELS_def js_def js_trim_def trim_start_def is_ws_def)

lemma cycle_six: "(cycle_thinking_effort ^^ 6) e = e"
  by (induction e; code_simp)

lemma provider_names: "find_provider (provider_id p) = Some p"
  by (induction p; code_simp)

lemma strip_slashes_none: "strip_slashes s = [] \<or> last (strip_slashes s) \<noteq> 47"
  using hd_dropWhile[of "\<lambda>c. c = 47" "rev s"] by (cases "dropWhile (\<lambda>c. c = 47) (rev s)") (auto simp: strip_slashes_def)

section \<open>What the provider sees\<close>

lemma all_some_map_Some: "all_some (map Some xs) = Some xs"
  by (induction xs) simp_all

fun block_call :: "pi_block \<Rightarrow> jsstring list" where
  "block_call (PiCall i n v) = [i]"
| "block_call _ = []"

fun pi_calls :: "pi_message \<Rightarrow> jsstring list" where
  "pi_calls (PiAssistant bs t) = concat (map block_call bs)"
| "pi_calls _ = []"

fun pi_answers :: "pi_message \<Rightarrow> jsstring option" where
  "pi_answers (PiResult i n c) = Some i"
| "pi_answers _ = None"

function pi_paired :: "pi_message list \<Rightarrow> bool" where
  "pi_paired [] = True"
| "pi_paired (m # ms) = (pi_answers m = None
     \<and> map pi_answers (take (length (pi_calls m)) ms) = map Some (pi_calls m)
     \<and> pi_paired (drop (length (pi_calls m)) ms))"
  by pat_completeness auto
termination by (relation "measure length") auto

lemma well_paired_cong:
  "map calls_of ms = map calls_of ns \<Longrightarrow> map result_id ms = map result_id ns \<Longrightarrow> well_paired ms = well_paired ns"
proof (induction ms arbitrary: ns rule: well_paired.induct)
  case (2 m ms)
  then obtain n ns' where n: "ns = n # ns'" by (cases ns) auto
  have "well_paired (drop (length (calls_of m)) ms) = well_paired (drop (length (calls_of m)) ns')"
    using 2(1)[of "drop (length (calls_of m)) ns'"] 2(2,3) n by (simp add: drop_map[symmetric])
  then show ?case using 2(2,3) n by (simp add: take_map[symmetric])
qed simp

text \<open>One message becomes one message of the package, a system message none.\<close>

lemma to_pi_message_view:
  assumes "to_pi_message parse m = Some ps"
  shows "(\<exists>p. ps = [p] \<and> pi_calls p = map call_id (calls_of m) \<and> pi_answers p = result_id m)
    \<or> ps = [] \<and> calls_of m = [] \<and> result_id m = None"
proof (cases m)
  case (ToolMsg i n c)
  then show ?thesis using assms by (auto simp: calls_of_def result_id_def)
next
  case (Chat r c images calls)
  show ?thesis
  proof (cases r)
    case Assistant
    have calls: "concat (map (block_call \<circ> (\<lambda>x. PiCall (call_id x) (call_name x) (to_argument_record parse (call_input x)))) cs) = map call_id cs" for cs
      by (induction cs) simp_all
    define cs where "cs = (case calls of Some xs \<Rightarrow> xs | None \<Rightarrow> [])"
    have "pi_calls (to_pi_assistant_message parse c calls) = map call_id cs"
      by (cases "js_trim c = []"; cases "cs = []") (simp_all add: to_pi_assistant_message_def Let_def cs_def[symmetric] calls)
    moreover have "calls_of m = cs" using Chat Assistant by (simp add: calls_of_def cs_def split: option.split)
    moreover have "ps = [to_pi_assistant_message parse c calls]" using assms Chat Assistant by simp
    moreover have "pi_answers (to_pi_assistant_message parse c calls) = None" by (simp add: to_pi_assistant_message_def Let_def)
    ultimately show ?thesis using Chat by (simp add: result_id_def)
  qed (use assms Chat in \<open>auto simp: calls_of_def result_id_def\<close>)
qed

lemma to_pi_paired:
  "all_some (map (to_pi_message parse) ms) = Some pss \<Longrightarrow> well_paired ms \<Longrightarrow> pi_paired (concat pss)"
proof (induction ms arbitrary: pss rule: well_paired.induct)
  case (2 m ms)
  obtain ps qss where q: "to_pi_message parse m = Some ps" "all_some (map (to_pi_message parse) ms) = Some qss" "pss = ps # qss"
    using 2(2) by (auto split: option.splits)
  define n where "n = length (calls_of m)"
  have qs: "map (to_pi_message parse) ms = map Some qss" using all_some_nth[OF q(2)] .
  have taken: "map result_id (take n ms) = map (\<lambda>c. Some (call_id c)) (calls_of m)" using 2(3) by (simp add: n_def)
  have len: "n \<le> length ms" using map_take_length[OF taken] by (simp add: n_def)
  have answers: "\<exists>rs. take n qss = map (\<lambda>r. [r]) rs \<and> map pi_answers rs = map (\<lambda>c. Some (call_id c)) (calls_of m)"
  proof -
    have "\<exists>rs. qs = map (\<lambda>r. [r]) rs \<and> map pi_answers rs = map Some is"
      if "map (to_pi_message parse) xs = map Some qs" "map result_id xs = map Some is" for xs qs "is"
      using that
    proof (induction xs arbitrary: qs "is")
      case (Cons x xs)
      then obtain q0 qs' i0 is' where s: "qs = q0 # qs'" "is = i0 # is'" by (cases qs; cases "is"; auto)
      obtain rs where rs: "qs' = map (\<lambda>r. [r]) rs" "map pi_answers rs = map Some is'" using Cons.IH[of qs' is'] Cons.prems s by auto
      have "to_pi_message parse x = Some q0" "result_id x = Some i0" using Cons.prems s by simp_all
      then obtain r where "q0 = [r]" "pi_answers r = Some i0" using to_pi_message_view[of parse x q0] by auto
      then have "qs = map (\<lambda>r. [r]) (r # rs) \<and> map pi_answers (r # rs) = map Some is" using rs s by simp
      then show ?case by blast
    qed simp
    from this[of "take n ms" "take n qss" "map call_id (calls_of m)"] show ?thesis
      using qs taken by (simp add: take_map[symmetric] comp_def)
  qed
  then obtain rs where rs: "take n qss = map (\<lambda>r. [r]) rs" "map pi_answers rs = map (\<lambda>c. Some (call_id c)) (calls_of m)" by blast
  have lrs: "length rs = n" using arg_cong[OF rs(2), of length] by (simp add: n_def)
  have split: "concat qss = rs @ concat (drop n qss)"
  proof -
    have "concat qss = concat (take n qss) @ concat (drop n qss)" by (metis append_take_drop_id concat_append)
    moreover have "concat (map (\<lambda>r. [r]) rs) = rs" by (induction rs) simp_all
    ultimately show ?thesis using rs(1) by simp
  qed
  have "all_some (map (to_pi_message parse) (drop n ms)) = Some (drop n qss)"
    using arg_cong[OF qs, of "drop n"] all_some_map_Some[of "drop n qss"] by (simp add: drop_map)
  then have rest: "pi_paired (concat (drop n qss))" using 2(1) 2(3) by (simp add: n_def)
  show ?case
  proof (cases "ps = []")
    case True
    then have "calls_of m = []" using to_pi_message_view[OF q(1)] by auto
    then show ?thesis using rest True q(3) by (simp add: n_def)
  next
    case False
    then obtain p where p: "ps = [p]" "pi_calls p = map call_id (calls_of m)" "pi_answers p = result_id m"
      using to_pi_message_view[OF q(1)] by auto
    have "length (pi_calls p) = n" using p(2) by (simp add: n_def)
    then show ?thesis using p q(3) rest split rs(2) lrs 2(3) by (simp add: comp_def)
  qed
qed simp

text \<open>Preparing the images changes no call and no result.\<close>

lemma read_policy_view: "calls_of (read_policy b m) = calls_of m \<and> result_id (read_policy b m) = result_id m"
  by (cases m) (auto simp: calls_of_def result_id_def Let_def)

lemma resolve_message_view: "resolve_message h f m = Some m' \<Longrightarrow> calls_of m' = calls_of m \<and> result_id m' = result_id m"
  by (cases m) (auto simp: calls_of_def result_id_def split: if_splits)

lemma drop_remote_view: "drop_remote m = Some m' \<Longrightarrow> calls_of m' = calls_of m \<and> result_id m' = result_id m"
  by (cases m) (auto simp: calls_of_def result_id_def Let_def split: if_splits option.splits)

lemma all_some_view:
  assumes "all_some (map f ms) = Some ns" "\<And>m n. f m = Some n \<Longrightarrow> calls_of n = calls_of m \<and> result_id n = result_id m"
  shows "map calls_of ns = map calls_of ms \<and> map result_id ns = map result_id ms"
  using assms(1)
proof (induction ms arbitrary: ns)
  case (Cons m ms)
  then show ?case using assms(2) by (auto split: option.splits)
qed simp

lemma prepared_view:
  assumes "prepare_messages env b ms = Some ns"
  shows "map calls_of ns = map calls_of ms \<and> map result_id ns = map result_id ms"
proof -
  define ms0 where "ms0 = apply_multimodal_read_policy ms b"
  obtain ms1 where m: "resolve_remote_images (ce_is_http env) (ce_fetch env) ms0 = Some ms1" "drop_remote_url_images ms1 = Some ns"
    using assms by (auto simp: prepare_messages_def ms0_def split: option.splits)
  have 0: "map calls_of ms0 = map calls_of ms \<and> map result_id ms0 = map result_id ms"
    by (simp add: ms0_def apply_multimodal_read_policy_def comp_def read_policy_view)
  have 1: "map calls_of ms1 = map calls_of ms0 \<and> map result_id ms1 = map result_id ms0"
    using m(1) all_some_view[OF _ resolve_message_view] by (auto simp: resolve_remote_images_def split: if_splits)
  have 2: "map calls_of ns = map calls_of ms1 \<and> map result_id ns = map result_id ms1"
    using m(2) all_some_view[OF _ drop_remote_view] by (auto simp: drop_remote_url_images_def)
  show ?thesis using 0 1 2 by simp
qed

lemma prepared_call_paired:
  assumes "prepare_call env rq st = Inr pc" "well_paired (rq_messages rq)"
  shows "pi_paired (px_messages (pc_context pc))"
proof -
  obtain ms cx where p: "prepare_messages env (cap_images (client_capabilities env st)) (rq_messages rq) = Some ms"
      "to_pi_context (ce_parse env) ms (rq_tools rq) = Some cx" "pc_context pc = cx"
    using assms(1) by (auto simp: prepare_call_def split: option.splits sum.splits)
  have "well_paired ms" using well_paired_cong prepared_view[OF p(1)] assms(2) by blast
  moreover obtain pss where "all_some (map (to_pi_message (ce_parse env)) ms) = Some pss" "px_messages cx = concat pss"
    using p(2) by (auto simp: to_pi_context_def Let_def split: option.splits)
  ultimately show ?thesis using p(3) to_pi_paired by simp
qed

text \<open>No call is lost or invented.\<close>

lemma to_pi_calls:
  "all_some (map (to_pi_message parse) ms) = Some pss
   \<Longrightarrow> concat (map pi_calls (concat pss)) = concat (map (\<lambda>m. map call_id (calls_of m)) ms)"
proof (induction ms arbitrary: pss)
  case (Cons m ms)
  then obtain ps qss where q: "to_pi_message parse m = Some ps" "all_some (map (to_pi_message parse) ms) = Some qss" "pss = ps # qss"
    by (auto split: option.splits)
  show ?case using Cons.IH[OF q(2)] to_pi_message_view[OF q(1)] q(3) by auto
qed simp

lemma prepared_call_calls:
  assumes "prepare_call env rq st = Inr pc"
  shows "concat (map pi_calls (px_messages (pc_context pc))) = concat (map (\<lambda>m. map call_id (calls_of m)) (rq_messages rq))"
proof -
  obtain ms cx where p: "prepare_messages env (cap_images (client_capabilities env st)) (rq_messages rq) = Some ms"
      "to_pi_context (ce_parse env) ms (rq_tools rq) = Some cx" "pc_context pc = cx"
    using assms by (auto simp: prepare_call_def split: option.splits sum.splits)
  obtain pss where x: "all_some (map (to_pi_message (ce_parse env)) ms) = Some pss" "px_messages cx = concat pss"
    using p(2) by (auto simp: to_pi_context_def Let_def split: option.splits)
  have "map (map call_id) (map calls_of ms) = map (map call_id) (map calls_of (rq_messages rq))"
    using prepared_view[OF p(1)] by simp
  then show ?thesis using to_pi_calls[OF x(1)] x(2) p(3) by (simp add: comp_def)
qed

text \<open>Images reach the provider as data.\<close>

lemma prepared_inline: "prepare_messages env b ms = Some ns \<Longrightarrow> \<not> has_remote_url_images ns"
  by (auto simp: prepare_messages_def dest: dropped_images_are_inline split: option.splits)

section \<open>Metrics of a stream\<close>

fun done_usage :: "llm_chunk \<Rightarrow> llm_usage option list" where
  "done_usage (ChunkDone u) = [u]"
| "done_usage _ = []"

definition last_done :: "llm_chunk list \<Rightarrow> llm_usage option option" where
  "last_done cs = (case rev (concat (map done_usage cs)) of [] \<Rightarrow> None | u # us \<Rightarrow> Some u)"

lemma last_done_Cons: "last_done (c # cs) = (case last_done cs of Some u \<Rightarrow> Some u
    | None \<Rightarrow> (case c of ChunkDone u \<Rightarrow> Some u | _ \<Rightarrow> None))"
proof -
  have "(case rev (done_usage c @ ds) of [] \<Rightarrow> None | u # us \<Rightarrow> Some u) = (case (case rev ds of [] \<Rightarrow> None | u # us \<Rightarrow> Some u) of
      Some u \<Rightarrow> Some u | None \<Rightarrow> (case c of ChunkDone u \<Rightarrow> Some u | _ \<Rightarrow> None))" for ds
    by (cases ds rule: rev_cases; cases c) simp_all
  then show ?thesis by (simp only: last_done_def list.map concat.simps)
qed

lemma last_done_Nil [simp]: "last_done [] = None"
  by (simp add: last_done_def)

definition own_failure :: "jsstring \<Rightarrow> model_state \<Rightarrow> bool" where
  "own_failure m st = (case ms_metrics st of Some x \<Rightarrow> lm_model x = m \<and> lm_status x \<noteq> CallCompleted \<and> lm_usage x = None | None \<Rightarrow> False)"

definition own_success :: "jsstring \<Rightarrow> llm_chunk list \<Rightarrow> model_state \<Rightarrow> model_state \<Rightarrow> bool" where
  "own_success m cs st st' = (case last_done cs of
     None \<Rightarrow> ms_usage st' = ms_usage st \<and> ms_metrics st' = ms_metrics st
   | Some u \<Rightarrow> ms_usage st' = u \<and> (\<exists>d. ms_metrics st' = Some (completed_metrics (ms_provider st) m d u)))"

lemma stream_failed_own: "stream_failed sig m d e st = (en, st') \<Longrightarrow> (\<exists>x. en = Threw x) \<and> own_failure m st'"
  by (auto simp: stream_failed_def own_failure_def record_failure_def failed_metrics_def Let_def)

lemma stream_body_metrics:
  "stream_body sig time m k es en st = (cs, r, st')
   \<Longrightarrow> (case r of Threw e \<Rightarrow> own_failure m st' | _ \<Rightarrow> own_success m cs st st')"
proof (induction sig time m k es en st arbitrary: cs r st' rule: stream_body.induct)
  case (1 sig time m k en st)
  then show ?case using stream_failed_own[of "sig k" m "time k" _ st r st']
    by (cases en) (auto simp: own_success_def split: iterate_end.splits)
next
  case (2 sig time m k e es en st)
  show ?case
  proof (cases "throw_if_aborted (sig k)")
    case (Inl x)
    then show ?thesis using 2(3) stream_failed_own[of "sig k" m "time k" x st r st'] by auto
  next
    case (Inr u)
    show ?thesis
    proof (cases "map_pi_stream_event e")
      case None
      then show ?thesis using 2(1)[OF Inr None] 2(3) Inr by simp
    next
      case (Some y)
      show ?thesis
      proof (cases y)
        case (Inl t)
        then have "stream_failed (sig k) m (time k)
            (if is_aborted (sig k) \<or> has_sub (to_lower t) (js ''abort'') then abort_reason (sig k) t else provider_error t) st = (r, st')"
          using 2(3) Inr Some by simp
        from stream_failed_own[OF this] show ?thesis by auto
      next
        case c: (Inr c)
        define st1 where "st1 = (case c of
            ChunkDone u \<Rightarrow> st\<lparr>ms_usage := u, ms_metrics := Some (completed_metrics (ms_provider st) m (time k) u)\<rparr> | _ \<Rightarrow> st)"
        obtain cs' r' s' where b: "stream_body sig time m (Suc k) es en st1 = (cs', r', s')" by (metis prod_cases3)
        have e: "cs = c # cs'" "r = r'" "st' = s'" using 2(3) Inr Some c b by (simp_all add: st1_def)
        have "case r' of Threw e \<Rightarrow> own_failure m s' | _ \<Rightarrow> own_success m cs' st1 s'"
          using 2(2)[OF Inr Some c st1_def b] by (cases c) auto
        moreover have "own_success m cs' st1 s' \<Longrightarrow> own_success m cs st s'"
          by (cases c) (auto simp: own_success_def e(1) last_done_Cons st1_def split: option.splits)
        ultimately show ?thesis using e by (auto split: iterate_end.splits)
      qed
    qed
  qed
qed

text \<open>A failed preparation leaves the metrics that were there.\<close>

lemma client_stream_metrics:
  "case client_stream env sig steps sigs time rq st of (cs, en, st') \<Rightarrow>
     if is_aborted sig then cs = [] \<and> st' = st
     else (case prepare_call env rq (st\<lparr>ms_usage := None\<rparr>) of
         Inl e \<Rightarrow> cs = [] \<and> en = Threw e \<and> ms_metrics st' = ms_metrics st
       | Inr pc \<Rightarrow> (case en of Threw e \<Rightarrow> own_failure (pi_id (pc_model pc)) st'
           | _ \<Rightarrow> own_success (pi_id (pc_model pc)) cs (st\<lparr>ms_usage := None\<rparr>) st'))"
proof (cases "throw_if_aborted sig")
  case (Inl x)
  then have "is_aborted sig" by (auto simp: throw_if_aborted_def split: if_splits)
  then show ?thesis using Inl by (simp add: client_stream_def)
next
  case (Inr u)
  then have a: "\<not> is_aborted sig" by (auto simp: throw_if_aborted_def split: if_splits)
  show ?thesis
  proof (cases "prepare_call env rq (st\<lparr>ms_usage := None\<rparr>)")
    case (Inl e)
    then show ?thesis using Inr a by (simp add: client_stream_def Let_def)
  next
    case p: (Inr pc)
    obtain es en0 where i: "iterate_abortable (Some stream_race) steps = (es, en0)" by fastforce
    obtain cs en st' where b: "stream_body sigs time (pi_id (pc_model pc)) 0 es en0 (st\<lparr>ms_usage := None\<rparr>) = (cs, en, st')"
      by (metis prod_cases3)
    have "client_stream env sig steps sigs time rq st = (cs, en, st')"
      by (simp add: client_stream_def Let_def Inr p i b)
    then show ?thesis using stream_body_metrics[OF b] a p by simp
  qed
qed

section \<open>Usage of a run\<close>

definition plus_usage :: "run_usage \<Rightarrow> run_usage \<Rightarrow> run_usage" where
  "plus_usage a b = \<lparr>us_calls = us_calls a + us_calls b, us_input = us_input a + us_input b, us_output = us_output a + us_output b,
     us_total = us_total a + us_total b, us_cache_read = us_cache_read a + us_cache_read b, us_cache_write = us_cache_write a + us_cache_write b,
     us_reasoning = us_reasoning a + us_reasoning b, us_cost = us_cost a + us_cost b, us_duration = us_duration a + us_duration b\<rparr>"

definition totals :: "(jsstring \<Rightarrow> rat) \<Rightarrow> jsstring \<Rightarrow> traced list \<Rightarrow> run_usage" where
  "totals num run es = (case get_run_usage num run es of Some u \<Rightarrow> u | None \<Rightarrow> no_usage)"

lemma add_metrics_plus: "add_metrics num e u = plus_usage u (add_metrics num e no_usage)"
  by (auto simp: add_metrics_def plus_usage_def no_usage_def Let_def split: jsval.split)

lemma plus_usage_zero: "plus_usage u no_usage = u" "plus_usage no_usage u = u"
  by (simp_all add: plus_usage_def no_usage_def)

lemma plus_usage_assoc: "plus_usage (plus_usage a b) c = plus_usage a (plus_usage b c)"
  by (simp add: plus_usage_def)

lemma fold_metrics: "fold (add_metrics num) es u = plus_usage u (fold (add_metrics num) es no_usage)"
proof (induction es arbitrary: u)
  case (Cons e es)
  have "fold (add_metrics num) (e # es) u = plus_usage (add_metrics num e u) (fold (add_metrics num) es no_usage)"
    using Cons.IH[of "add_metrics num e u"] by simp
  also have "\<dots> = plus_usage u (plus_usage (add_metrics num e no_usage) (fold (add_metrics num) es no_usage))"
    by (subst add_metrics_plus) (rule plus_usage_assoc)
  also have "\<dots> = plus_usage u (fold (add_metrics num) (e # es) no_usage)"
    using Cons.IH[of "add_metrics num e no_usage"] by simp
  finally show ?case .
qed (simp add: plus_usage_zero)

lemma no_calls_no_usage: "us_calls (fold (add_metrics num) es no_usage) = 0 \<Longrightarrow> fold (add_metrics num) es no_usage = no_usage"
proof (induction es)
  case (Cons e es)
  have s: "fold (add_metrics num) (e # es) no_usage = plus_usage (add_metrics num e no_usage) (fold (add_metrics num) es no_usage)"
    using fold_metrics[of num es "add_metrics num e no_usage"] by simp
  then have "us_calls (add_metrics num e no_usage) = 0" "us_calls (fold (add_metrics num) es no_usage) = 0"
    using Cons.prems by (simp_all add: plus_usage_def)
  moreover have "us_calls (add_metrics num e no_usage) = 0 \<Longrightarrow> add_metrics num e no_usage = no_usage"
    by (simp add: add_metrics_def Let_def split: jsval.split_asm)
  ultimately have "add_metrics num e no_usage = no_usage" "fold (add_metrics num) es no_usage = no_usage"
    using Cons.IH by blast+
  then show ?case using s plus_usage_zero by simp
qed simp

lemma totals_fold: "totals num run es = fold (add_metrics num) (read_run run es) no_usage"
  using no_calls_no_usage[of num "read_run run es"] by (auto simp: totals_def get_run_usage_def summarize_run_usage_def Let_def)

lemma totals_append: "totals num run (es @ fs) = plus_usage (totals num run es) (totals num run fs)"
  by (simp add: totals_fold read_run_def fold_metrics[of num "filter (\<lambda>e. tv_run e = run) fs" "fold (add_metrics num) _ _"])

lemma totals_others: "list_all (\<lambda>e. tv_run e \<noteq> run) fs \<Longrightarrow> totals num run fs = no_usage"
proof -
  assume "list_all (\<lambda>e. tv_run e \<noteq> run) fs"
  then have "read_run run fs = []" by (simp add: read_run_def filter_empty_conv list_all_iff)
  then show ?thesis by (simp add: totals_fold)
qed

lemma counted_event: "us_calls (totals num run [metrics_event shown run type st]) = (if ms_metrics st = None then 0 else 1)"
  by (cases "ms_metrics st")
    (simp_all add: totals_fold read_run_def metrics_event_def add_metrics_def metrics_value_def fields_of_def getp_def js_def no_usage_def Let_def)

lemma event_totals: "totals num run [metrics_event shown run type st] = totals num run [metrics_event shown run type' st']"
  if "ms_metrics st' = ms_metrics st"
  using that by (simp add: totals_fold read_run_def metrics_event_def add_metrics_def)

section \<open>Listeners\<close>

lemma change_same: "ob_events (fold change_listeners cs ob) = ob_events ob" "ob_heard (fold change_listeners cs ob) = ob_heard ob"
    "ob_failures (fold change_listeners cs ob) = ob_failures ob"
proof (induction cs arbitrary: ob)
  case (Cons c cs)
  { case 1 then show ?case using Cons(1)[of "change_listeners c ob"] by (cases c) (simp_all add: subscribe_def unsubscribe_def) }
  { case 2 then show ?case using Cons(2)[of "change_listeners c ob"] by (cases c) (simp_all add: subscribe_def unsubscribe_def) }
  { case 3 then show ?case using Cons(3)[of "change_listeners c ob"] by (cases c) (simp_all add: subscribe_def unsubscribe_def) }
qed simp_all

lemma notify_heard: "ob_heard (notify react e l ob) = ob_heard ob @ [(l, e)]" "ob_events (notify react e l ob) = ob_events ob"
  by (simp_all add: notify_def Let_def change_same split: prod.split option.split)

lemma notified: "ob_heard (fold (notify react e) ls ob) = ob_heard ob @ map (\<lambda>l. (l, e)) ls"
    "ob_events (fold (notify react e) ls ob) = ob_events ob"
  by (induction ls arbitrary: ob) (simp_all add: notify_heard)

section \<open>An example\<close>

definition demo_client_env :: client_env where
  "demo_client_env = \<lparr>ce_resolve = \<lambda>m. Inl url_error, ce_listed = \<lambda>m. True, ce_key = None, ce_token = None, ce_parse = \<lambda>t. None,
     ce_is_http = \<lambda>u. False, ce_fetch = \<lambda>u. None\<rparr>"

definition demo_pi_model :: pi_model where
  "demo_pi_model = \<lparr>pi_id = js ''m'', pi_name = js ''m'', pi_api = js ''openai-completions'', pi_base = None, pi_reasoning = False,
     pi_input = [js ''text'', js ''image''], pi_window = 128000, pi_max = None\<rparr>"

definition demo_model_state :: model_state where
  "demo_model_state = \<lparr>ms_provider = OpenAI, ms_model = js ''m'', ms_pi = demo_pi_model, ms_effort = EffortOff, ms_usage = None,
     ms_metrics = Some (completed_metrics OpenAI (js ''m'') 5 None)\<rparr>"

definition demo_image_request :: llm_request where
  "demo_image_request = \<lparr>rq_messages = [Chat User (js ''see'') (Some [ImgWorkspace (js ''a.png'') None]) None], rq_tools = None,
     rq_model = None, rq_max = None, rq_temperature = None, rq_effort = None\<rparr>"

lemma demo_preparation_fails: "prepare_call demo_client_env demo_image_request (demo_model_state\<lparr>ms_usage := None\<rparr>) = Inl url_error"
  by (simp add: prepare_call_def prepare_messages_def demo_client_env_def demo_image_request_def demo_model_state_def demo_pi_model_def
      client_capabilities_def capabilities_for_pi_model_def apply_multimodal_read_policy_def resolve_remote_images_def
      drop_remote_url_images_def js_def)

end
