(* ===== verification/Changed_Files.thy ===== *)
theory Changed_Files
  imports Batch
begin

text \<open>
  The files a run touched, from \<open>workspace/changedFiles.ts\<close>, and the artifacts that
  \<open>attachArtifacts\<close> of \<open>runtime/agentRuntime.ts\<close> adds to a result: the paths of the calls of file
  tools that completed and changed something, each once, sorted by code units.
\<close>

section \<open>Tools and inputs\<close>

definition MUTATING_FILE_TOOLS :: "jsstring list" where
  "MUTATING_FILE_TOOLS = map js [''Write'', ''Edit'', ''Delete'', ''Move'']"

definition did_mutate :: "jsstring \<Rightarrow> jsval \<Rightarrow> jsstring \<Rightarrow> bool" where
  "did_mutate tool data summary =
     (case getp (case as_record data of Some q \<Rightarrow> q | None \<Rightarrow> []) ''mutated'' of
        JBool b \<Rightarrow> b
      | _ \<Rightarrow>
        if tool = js ''Edit'' then
          (if summary = js ''no match'' \<or> summary = js ''no change'' \<or> starts_with summary (js ''ambiguous:'') then False
           else if starts_with summary (js ''replaced '') then True
           else summary = [] \<or> \<not> has_sub summary (([0x672A, 0x505A, 0x4FEE, 0x6539])))
        else if tool = js ''Delete'' then
          (if starts_with summary (js ''refused'') \<or> has_sub summary (js ''no-op'') then False
           else starts_with summary (js ''deleted'') \<or> summary = [])
        else if tool = js ''Move'' then
          (if has_sub summary (js ''no-op'') then False else starts_with summary (js ''moved'') \<or> summary = [])
        else True)"

definition path_field :: "jsval \<Rightarrow> jsstring list" where
  "path_field v = (case str_of v of Some s \<Rightarrow> if js_trim s \<noteq> [] then [js_trim s] else [] | None \<Rightarrow> [])"

definition extract_paths_from_input :: "jsval \<Rightarrow> jsstring list" where
  "extract_paths_from_input v = (case as_record v of
     None \<Rightarrow> []
   | Some r \<Rightarrow> uniq (path_field (getp r ''path'') @ path_field (getp r ''from'') @ path_field (getp r ''to'')
       @ (case getp r ''files'' of JArr xs \<Rightarrow> concat (map path_field xs) | _ \<Rightarrow> [])))"

section \<open>The files of a trace\<close>

record touch_state =
  to_started :: "(jsstring, jsstring list) jsmap"
  to_queues :: "(jsstring, jsstring list list) jsmap"
  to_files :: "(jsstring, jsstring list) jsmap"

definition start_touching :: "call_meta \<Rightarrow> jsval \<Rightarrow> touch_state \<Rightarrow> touch_state" where
  "start_touching m v st =
     (let paths = extract_paths_from_input v in
      if cm_tool m \<notin> set MUTATING_FILE_TOOLS \<or> paths = [] then st
      else case cm_call_id m of
          Some i \<Rightarrow> if i \<noteq> [] then st\<lparr>to_started := map_set i paths (to_started st)\<rparr>
            else st\<lparr>to_queues := map_set (cm_tool m) ((case map_of (to_queues st) (cm_tool m) of Some q \<Rightarrow> q | None \<Rightarrow> []) @ [paths]) (to_queues st)\<rparr>
        | None \<Rightarrow> st\<lparr>to_queues := map_set (cm_tool m) ((case map_of (to_queues st) (cm_tool m) of Some q \<Rightarrow> q | None \<Rightarrow> []) @ [paths]) (to_queues st)\<rparr>)"

definition add_tool :: "jsstring \<Rightarrow> jsstring \<Rightarrow> (jsstring, jsstring list) jsmap \<Rightarrow> (jsstring, jsstring list) jsmap" where
  "add_tool t p fs = (let ts = (case map_of fs p of Some ts \<Rightarrow> ts | None \<Rightarrow> []) in
     map_set p (if t \<in> set ts then ts else ts @ [t]) fs)"

text \<open>The paths of a completed call, and what is left of the queues.\<close>

definition completed_paths :: "call_meta \<Rightarrow> jsval \<Rightarrow> touch_state \<Rightarrow> jsstring list \<times> touch_state" where
  "completed_paths m data st =
     (let named = (case cm_call_id m of None \<Rightarrow> []
           | Some i \<Rightarrow> if i = [] then [] else (case map_of (to_started st) i of Some ps \<Rightarrow> ps | None \<Rightarrow> []))
      in if named \<noteq> [] then (named, st)
         else case map_of (to_queues st) (cm_tool m) of
             Some (ps # q) \<Rightarrow> (if ps \<noteq> [] then ps else extract_paths_from_input data, st\<lparr>to_queues := map_set (cm_tool m) q (to_queues st)\<rparr>)
           | _ \<Rightarrow> (extract_paths_from_input data, st))"

definition complete_touching :: "call_meta \<Rightarrow> tool_result \<Rightarrow> touch_state \<Rightarrow> touch_state" where
  "complete_touching m r st =
     (if cm_tool m \<notin> set MUTATING_FILE_TOOLS \<or> \<not> did_mutate (cm_tool m) (rs_data r) (rs_summary r) then st
      else case completed_paths m (rs_data r) st of (paths, st1) \<Rightarrow>
        st1\<lparr>to_files := fold (add_tool (cm_tool m)) paths (to_files st1)\<rparr>)"

definition touch :: "run_event \<Rightarrow> touch_state \<Rightarrow> touch_state" where
  "touch e st = (case e of
     GateEvent (TStarted m v n) \<Rightarrow> start_touching m v st
   | GateEvent (TSettled m r p n k c) \<Rightarrow> if rs_status r = StatusFailed then st else complete_touching m r st
   | _ \<Rightarrow> st)"

text \<open>Sorting with a comparison, and the order of code units.\<close>

fun insert_by :: "('a \<Rightarrow> 'a \<Rightarrow> bool) \<Rightarrow> 'a \<Rightarrow> 'a list \<Rightarrow> 'a list" where
  "insert_by le x [] = [x]"
| "insert_by le x (y # ys) = (if le x y then x # y # ys else y # insert_by le x ys)"

definition sort_by :: "('a \<Rightarrow> 'a \<Rightarrow> bool) \<Rightarrow> 'a list \<Rightarrow> 'a list" where
  "sort_by le xs = foldr (insert_by le) xs []"

fun unit_le :: "jsstring \<Rightarrow> jsstring \<Rightarrow> bool" where
  "unit_le [] y = True"
| "unit_le (a # x) [] = False"
| "unit_le (a # x) (b # y) = (a < b \<or> a = b \<and> unit_le x y)"

definition extract_touched_files :: "(jsstring \<Rightarrow> jsstring \<Rightarrow> bool) \<Rightarrow> run_event list \<Rightarrow> (jsstring \<times> jsstring list) list" where
  "extract_touched_files cmp es = sort_by (\<lambda>a b. cmp (fst a) (fst b))
     (map (\<lambda>p. (fst p, sort_by unit_le (snd p)))
        (to_files (fold touch es \<lparr>to_started = [], to_queues = [], to_files = []\<rparr>)))"

definition extract_changed_files :: "(jsstring \<Rightarrow> jsstring \<Rightarrow> bool) \<Rightarrow> run_event list \<Rightarrow> jsstring list" where
  "extract_changed_files cmp es = map fst (extract_touched_files cmp es)"

definition is_completed_file_mutation :: "run_event \<Rightarrow> bool" where
  "is_completed_file_mutation e = (case e of
     GateEvent (TSettled m r p n k c) \<Rightarrow> rs_status r \<noteq> StatusFailed \<and> cm_tool m \<in> set MUTATING_FILE_TOOLS
       \<and> did_mutate (cm_tool m) (rs_data r) (rs_summary r)
   | _ \<Rightarrow> False)"

definition find_last_file_mutation_index :: "run_event list \<Rightarrow> int" where
  "find_last_file_mutation_index es =
     (case find (\<lambda>i. is_completed_file_mutation (es ! i)) (rev [0..<length es]) of Some i \<Rightarrow> int i | None \<Rightarrow> -1)"

text \<open>The artifacts of a result; an unreadable trace adds none.\<close>

definition attach_result :: "(jsstring \<Rightarrow> jsstring \<Rightarrow> bool) \<Rightarrow> run_event list option \<Rightarrow> agent_result \<Rightarrow> agent_result" where
  "attach_result cmp es r = r\<lparr>ar_artifacts := sort_by unit_le
     (uniq (ar_artifacts r @ (case es of Some xs \<Rightarrow> extract_changed_files cmp xs | None \<Rightarrow> [])))\<rparr>"

section \<open>Laws\<close>

lemma set_insert_by [simp]: "set (insert_by le x ys) = insert x (set ys)"
  by (induction ys) auto

lemma set_sort_by [simp]: "set (sort_by le xs) = set xs"
  unfolding sort_by_def by (induction xs) auto

lemma distinct_insert_by: "distinct ys \<Longrightarrow> x \<notin> set ys \<Longrightarrow> distinct (insert_by le x ys)"
  by (induction ys) auto

lemma distinct_sort_by: "distinct xs \<Longrightarrow> distinct (sort_by le xs)"
  unfolding sort_by_def
proof (induction xs)
  case (Cons x xs)
  then show ?case using distinct_insert_by[of "foldr (insert_by le) xs []" x le] set_sort_by[of le xs] by (simp add: sort_by_def)
qed simp

lemma unit_le_refl [simp]: "unit_le x x"
  by (induction x) auto

lemma unit_le_total: "unit_le x y \<or> unit_le y x"
  by (induction x y rule: unit_le.induct) auto

lemma unit_le_trans: "unit_le x y \<Longrightarrow> unit_le y z \<Longrightarrow> unit_le x z"
proof (induction x y arbitrary: z rule: unit_le.induct)
  case (3 a x b y)
  then show ?case by (cases z) auto
qed auto

lemma unit_le_antisym: "unit_le x y \<Longrightarrow> unit_le y x \<Longrightarrow> x = y"
proof (induction x y rule: unit_le.induct)
  case (1 y)
  then show ?case by (cases y) auto
qed auto

lemma sorted_insert_by: "sorted_wrt unit_le ys \<Longrightarrow> sorted_wrt unit_le (insert_by unit_le x ys)"
proof (induction ys)
  case (Cons y ys)
  then show ?case using unit_le_total[of x y] by (auto intro: unit_le_trans)
qed simp

lemma sorted_sort_by: "sorted_wrt unit_le (sort_by unit_le xs)"
  unfolding sort_by_def by (induction xs) (simp_all add: sorted_insert_by)

lemma sorted_unique: "sorted_wrt unit_le xs \<Longrightarrow> distinct xs \<Longrightarrow> sorted_wrt unit_le ys \<Longrightarrow> distinct ys \<Longrightarrow> set xs = set ys \<Longrightarrow> xs = ys"
proof (induction xs arbitrary: ys)
  case (Cons x xs)
  then obtain y zs where ys: "ys = y # zs" by (cases ys) auto
  have "x = y"
  proof (rule ccontr)
    assume "x \<noteq> y"
    then have "y \<in> set xs" "x \<in> set zs" using Cons.prems(5) ys by auto
    then show False using Cons.prems ys unit_le_antisym \<open>x \<noteq> y\<close> by auto
  qed
  moreover have "xs = zs"
  proof (rule Cons.IH)
    show "set xs = set zs" using Cons.prems ys \<open>x = y\<close> by auto
  qed (use Cons.prems ys in auto)
  ultimately show ?case using ys by simp
qed simp

lemma attach_frame [simp]:
  "ar_run (attach_result cmp es r) = ar_run r" "ar_status (attach_result cmp es r) = ar_status r"
  "ar_reason (attach_result cmp es r) = ar_reason r" "ar_summary (attach_result cmp es r) = ar_summary r"
  "ar_pending (attach_result cmp es r) = ar_pending r" "ar_evidence (attach_result cmp es r) = ar_evidence r"
  by (simp_all add: attach_result_def)

lemma attach_idem: "attach_result cmp es (attach_result cmp es r) = attach_result cmp es r"
proof -
  define fs where "fs = (case es of Some xs \<Rightarrow> extract_changed_files cmp xs | None \<Rightarrow> [])"
  define a where "a = sort_by unit_le (uniq (ar_artifacts r @ fs))"
  have "sort_by unit_le (uniq (a @ fs)) = a"
    by (rule sorted_unique) (auto simp: a_def sorted_sort_by intro!: distinct_sort_by)
  then show ?thesis by (simp add: attach_result_def fs_def[symmetric] a_def[symmetric])
qed

text \<open>Only paths of the input of a started call, or of the data of a completed one, are reported.\<close>

definition started_path :: "run_event list \<Rightarrow> jsstring \<Rightarrow> bool" where
  "started_path es p \<longleftrightarrow> (\<exists>m v n. GateEvent (TStarted m v n) \<in> set es \<and> cm_tool m \<in> set MUTATING_FILE_TOOLS
     \<and> p \<in> set (extract_paths_from_input v))"

definition data_path :: "run_event list \<Rightarrow> jsstring \<Rightarrow> bool" where
  "data_path es p \<longleftrightarrow> (\<exists>m r q n k c. GateEvent (TSettled m r q n k c) \<in> set es \<and> p \<in> set (extract_paths_from_input (rs_data r)))"

definition completed_with :: "run_event list \<Rightarrow> jsstring \<Rightarrow> bool" where
  "completed_with es t \<longleftrightarrow> (\<exists>m r q n k c. GateEvent (TSettled m r q n k c) \<in> set es \<and> cm_tool m = t
     \<and> is_completed_file_mutation (GateEvent (TSettled m r q n k c)))"

definition touched_by :: "run_event list \<Rightarrow> jsstring \<Rightarrow> jsstring \<Rightarrow> bool" where
  "touched_by es p t \<longleftrightarrow> completed_with es t \<and> (started_path es p \<or> data_path es p)"

definition touch_inv :: "run_event list \<Rightarrow> touch_state \<Rightarrow> bool" where
  "touch_inv es st \<longleftrightarrow> list_all (\<lambda>x. list_all (started_path es) (snd x)) (to_started st)
     \<and> list_all (\<lambda>x. list_all (list_all (started_path es)) (snd x)) (to_queues st)
     \<and> list_all (\<lambda>x. snd x \<noteq> [] \<and> list_all (touched_by es (fst x)) (snd x)) (to_files st)"

lemma list_all_set: "list_all R m \<Longrightarrow> R (k, v) \<Longrightarrow> list_all R (map_set k v m)"
  using set_map_set_subset[of k v m] by (auto simp: list_all_iff)

lemma list_all_get: "list_all R m \<Longrightarrow> map_of m k = Some v \<Longrightarrow> R (k, v)"
  by (auto simp: list_all_iff dest: map_of_SomeD)

lemma got_list: "list_all (\<lambda>x. Q (fst x) (snd x)) m \<Longrightarrow> (\<And>v. Q k v \<Longrightarrow> list_all P v) \<Longrightarrow>
   list_all P (case map_of m k of Some q \<Rightarrow> q | None \<Rightarrow> [])"
  using list_all_get[of "\<lambda>x. Q (fst x) (snd x)" m k] by (auto split: option.split)

lemma touched_mono: "started_path es p \<Longrightarrow> started_path (es @ fs) p" "data_path es p \<Longrightarrow> data_path (es @ fs) p"
  "completed_with es t \<Longrightarrow> completed_with (es @ fs) t"
  unfolding started_path_def data_path_def completed_with_def by (simp_all, blast+)

lemma touched_by_mono: "touched_by es p t \<Longrightarrow> touched_by (es @ fs) p t"
  unfolding touched_by_def using touched_mono by blast

lemma touch_inv_mono: "touch_inv es st \<Longrightarrow> touch_inv (es @ fs) st"
  unfolding touch_inv_def
  by (auto elim!: list.pred_mono_strong intro: touched_mono touched_by_mono)

lemma start_keeps:
  assumes "touch_inv es st" "GateEvent (TStarted m v n) \<in> set es"
  shows "touch_inv es (start_touching m v st)"
proof (cases "cm_tool m \<notin> set MUTATING_FILE_TOOLS \<or> extract_paths_from_input v = []")
  case True
  then show ?thesis using assms by (auto simp: start_touching_def Let_def)
next
  case False
  then have p: "list_all (started_path es) (extract_paths_from_input v)"
    using assms(2) unfolding started_path_def list_all_iff by blast
  have q: "list_all (list_all (started_path es)) (case map_of (to_queues st) (cm_tool m) of Some q \<Rightarrow> q | None \<Rightarrow> [])"
    using assms(1) got_list[of "\<lambda>_. list_all (list_all (started_path es))" "to_queues st" "cm_tool m"] by (simp add: touch_inv_def)
  have "touch_inv es (st\<lparr>to_queues := map_set (cm_tool m) ((case map_of (to_queues st) (cm_tool m) of Some q \<Rightarrow> q | None \<Rightarrow> [])
      @ [extract_paths_from_input v]) (to_queues st)\<rparr>)"
    using assms(1) p q by (simp add: touch_inv_def list_all_set)
  moreover have "touch_inv es (st\<lparr>to_started := map_set i (extract_paths_from_input v) (to_started st)\<rparr>)" for i
    using assms(1) p by (simp add: touch_inv_def list_all_set)
  ultimately show ?thesis using False by (auto simp: start_touching_def Let_def split: option.split)
qed

lemma completed_paths_keep:
  assumes "touch_inv es st" "completed_paths m data st = (ps, st')" "list_all (data_path es) (extract_paths_from_input data)"
  shows "touch_inv es st' \<and> list_all (\<lambda>p. started_path es p \<or> data_path es p) ps"
proof -
  define named where "named = (case cm_call_id m of None \<Rightarrow> []
       | Some i \<Rightarrow> if i = [] then [] else (case map_of (to_started st) i of Some ps \<Rightarrow> ps | None \<Rightarrow> []))"
  have "list_all (started_path es) (case map_of (to_started st) i of Some ps \<Rightarrow> ps | None \<Rightarrow> [])" for i
    using assms(1) got_list[of "\<lambda>_. list_all (started_path es)" "to_started st" i] by (simp add: touch_inv_def)
  then have n: "list_all (\<lambda>p. started_path es p \<or> data_path es p) named"
    by (auto simp: named_def list_all_iff split: option.split)
  have d: "list_all (\<lambda>p. started_path es p \<or> data_path es p) (extract_paths_from_input data)"
    using assms(3) by (simp add: list_all_iff)
  have q: "list_all (list_all (started_path es)) q" if "map_of (to_queues st) (cm_tool m) = Some q" for q
    using assms(1) got_list[of "\<lambda>_. list_all (list_all (started_path es))" "to_queues st" "cm_tool m"] that by (simp add: touch_inv_def)
  have "touch_inv es (st\<lparr>to_queues := map_set (cm_tool m) q (to_queues st)\<rparr>) \<and> list_all (\<lambda>p. started_path es p \<or> data_path es p) x"
    if "map_of (to_queues st) (cm_tool m) = Some (x # q)" for x q
    using assms(1) q[OF that] by (simp add: touch_inv_def list_all_set) (simp add: list_all_iff)
  then show ?thesis using assms(1,2) n d
    by (auto simp: completed_paths_def named_def[symmetric] Let_def split: if_splits option.splits list.splits)
qed

lemma add_tools_keep:
  "list_all (\<lambda>x. snd x \<noteq> [] \<and> list_all (R (fst x)) (snd x)) fs \<Longrightarrow> list_all (\<lambda>p. R p t) ps \<Longrightarrow>
   list_all (\<lambda>x. snd x \<noteq> [] \<and> list_all (R (fst x)) (snd x)) (fold (add_tool t) ps fs)"
proof (induction ps arbitrary: fs)
  case (Cons p ps)
  define ts where "ts = (case map_of fs p of Some ts \<Rightarrow> ts | None \<Rightarrow> [])"
  have "list_all (R p) ts"
    unfolding ts_def using got_list[of "\<lambda>p ts. ts \<noteq> [] \<and> list_all (R p) ts" fs p] Cons(2) by simp
  then have "(if t \<in> set ts then ts else ts @ [t]) \<noteq> [] \<and> list_all (R p) (if t \<in> set ts then ts else ts @ [t])"
    using Cons(3) by (cases ts) auto
  then have "list_all (\<lambda>x. snd x \<noteq> [] \<and> list_all (R (fst x)) (snd x)) (add_tool t p fs)"
    unfolding add_tool_def Let_def ts_def[symmetric] by (intro list_all_set[OF Cons(2)]) simp
  then show ?case using Cons(1)[of "add_tool t p fs"] Cons(3) by simp
qed simp

lemma complete_keeps:
  assumes "touch_inv es st" "GateEvent (TSettled m r p n k c) \<in> set es" "rs_status r \<noteq> StatusFailed"
  shows "touch_inv es (complete_touching m r st)"
proof (cases "cm_tool m \<notin> set MUTATING_FILE_TOOLS \<or> \<not> did_mutate (cm_tool m) (rs_data r) (rs_summary r)")
  case True
  then show ?thesis using assms(1) by (auto simp: complete_touching_def)
next
  case False
  then have t: "completed_with es (cm_tool m)" unfolding completed_with_def is_completed_file_mutation_def using assms(2,3) by fastforce
  have "list_all (data_path es) (extract_paths_from_input (rs_data r))"
    unfolding data_path_def list_all_iff using assms(2) by blast
  moreover obtain ps st' where c: "completed_paths m (rs_data r) st = (ps, st')" by fastforce
  ultimately have k: "touch_inv es st'" "list_all (\<lambda>p. started_path es p \<or> data_path es p) ps"
    using completed_paths_keep[OF assms(1)] by blast+
  have "list_all (\<lambda>p. touched_by es p (cm_tool m)) ps" using k(2) t by (simp add: touched_by_def)
  then show ?thesis using False c k(1) add_tools_keep[of "touched_by es" "to_files st'" "cm_tool m" ps]
    by (auto simp: complete_touching_def touch_inv_def)
qed

lemma touch_keeps: "touch_inv es st \<Longrightarrow> e \<in> set es \<Longrightarrow> touch_inv es (touch e st)"
  by (auto simp: touch_def start_keeps complete_keeps split: run_event.split trace_event.split)

lemma touched_files: "touch_inv es (fold touch es \<lparr>to_started = [], to_queues = [], to_files = []\<rparr>)"
proof (induction es rule: rev_induct)
  case (snoc e es)
  then show ?case using touch_keeps[OF touch_inv_mono[OF snoc, of "[e]"], of e] by simp
qed (simp add: touch_inv_def)

lemma reported_files:
  "list_all (\<lambda>x. snd x \<noteq> [] \<and> list_all (touched_by es (fst x)) (snd x)) (extract_touched_files cmp es)"
proof -
  have ne: "sort_by le xs \<noteq> []" if "xs \<noteq> []" for le and xs :: "jsstring list"
    using that set_sort_by[of le xs] by (metis set_empty)
  show ?thesis using touched_files[of es] ne
    by (auto simp: extract_touched_files_def touch_inv_def list_all_iff)
qed

lemma map_add_tools: "map_wf fs \<Longrightarrow> map_wf (fold (add_tool t) ps fs)"
  by (induction ps arbitrary: fs) (simp_all add: add_tool_def Let_def)

lemma touch_wf: "map_wf (to_files st) \<Longrightarrow> map_wf (to_files (touch e st))"
  by (auto simp: touch_def start_touching_def complete_touching_def completed_paths_def Let_def map_add_tools
      split: run_event.split trace_event.split prod.split option.split list.split)

lemma distinct_files: "distinct (extract_changed_files cmp es)"
proof -
  have "map_wf (to_files (fold touch es st))" if "map_wf (to_files st)" for st
    using that by (induction es arbitrary: st) (simp_all add: touch_wf)
  then have d: "distinct (map fst (to_files (fold touch es \<lparr>to_started = [], to_queues = [], to_files = []\<rparr>)))"
    by (fastforce simp: map_wf_def)
  define xs where "xs = map (\<lambda>p. (fst p, sort_by unit_le (snd p))) (to_files (fold touch es \<lparr>to_started = [], to_queues = [], to_files = []\<rparr>))"
  have x: "distinct (map fst xs)" using d by (simp add: xs_def comp_def)
  have "inj_on fst (set xs)" "distinct xs" using x by (simp_all add: distinct_map)
  then have "distinct (map fst (sort_by le xs))" for le by (simp add: distinct_map distinct_sort_by)
  then show ?thesis by (simp add: extract_changed_files_def extract_touched_files_def xs_def[symmetric])
qed

end
