(* ===== verification/Tool_Loop.thy ===== *)
theory Tool_Loop
  imports Changed_Files Session
begin

text \<open>
  The streaming tool loop of \<open>runtime/streamingToolLoop.ts\<close> with the parts of \<open>runtime/toolLoop.ts\<close> it is
  given (the soft landing, the batch of \<open>Batch\<close>) and the run phases of \<open>runtime/agentRuntime.ts\<close>.

  The rounds of a loop are numbered; an environment gives for each the model's reply to the messages
  it is sent, what the signal says at each place that tests it, the usage the client reports, what
  the tools of the round meet, and which traces can be read. A reply lists its chunks, each with
  the signal seen when it arrives, and how the stream ends. \<open>None\<close> is a loop that waits for ever.
  Of the payloads of trace events the model keeps those of tool calls and the text preview, which are read.
\<close>

section \<open>Data\<close>

datatype loop_stage = StContext | StLlm | StTool | StSoftLand | StFinalize | StStartup

fun stage_name :: "loop_stage \<Rightarrow> jsstring" where
  "stage_name StContext = js ''context''" | "stage_name StLlm = js ''llm''" | "stage_name StTool = js ''tool''"
| "stage_name StSoftLand = js ''soft-land''" | "stage_name StFinalize = js ''finalize''"
| "stage_name StStartup = js ''startup''"

datatype stream_event =
    TurnStart int | ThinkingDelta jsstring | TextDelta jsstring | ToolsStart int nat
  | CallRequested tool_call | CallAnswered jsstring jsstring jsstring | FinalResult agent_result

datatype llm_chunk = ChThinking jsstring | ChText jsstring | ChCall tool_call

record llm_reply =
  lr_chunks :: "(abort_signal option \<times> llm_chunk) list"
  lr_threw :: "thrown option"

datatype loop_point = LpHead | LpPrepared | LpStreamed | LpLanding | LpTools | LpCatch | LpFinal

record assessment =
  as_satisfied :: bool
  as_complete :: bool
  as_reason :: jsstring

text \<open>A completion policy reads the events of the run; an unreadable trace is the empty one.\<close>

record completion_policy =
  cp_without_tools :: bool
  cp_prefix :: "jsstring option"
  cp_assess :: "run_event list \<Rightarrow> assessment"
  cp_followup :: "(assessment \<Rightarrow> jsstring) option"
  cp_satisfied :: "(assessment \<Rightarrow> jsstring option) option"

record loop_state =
  ls_session :: session
  ls_loop :: tool_loop
  ls_events :: "run_event list"
  ls_phase :: "run_phase option"
  ls_out :: "stream_event list"
  ls_requests :: "llm_message list list"
  ls_iteration :: int
  ls_text :: jsstring
  ls_thinking :: jsstring
  ls_stage :: loop_stage
  ls_recovering :: bool
  ls_followups :: nat
  ls_followup :: "assessment option"
  ls_satisfied :: "assessment option"
  ls_stall :: stall_detector
  ls_progress :: progress_monitor

datatype loop_thrown = LoopThrew thrown | BatchCut thrown "llm_message list"

record loop_handlers =
  on_success :: "jsstring \<Rightarrow> jsstring \<Rightarrow> loop_state \<Rightarrow> (thrown + agent_result) \<times> loop_state"
  on_soft_land :: "jsstring \<Rightarrow> loop_state \<Rightarrow> (thrown + agent_result) \<times> loop_state"
  on_stalled :: "jsstring \<Rightarrow> loop_state \<Rightarrow> (thrown + agent_result) \<times> loop_state"
  on_failure :: "jsstring \<Rightarrow> classification \<Rightarrow> loop_state \<Rightarrow> (thrown + agent_result) \<times> loop_state"
  on_cancelled :: "jsstring \<Rightarrow> loop_stage \<Rightarrow> loop_state \<Rightarrow> (thrown + agent_result) \<times> loop_state"

record loop_params =
  lq_run :: jsstring
  lq_input :: jsstring
  lq_build :: build_input
  lq_tools :: "tool_metadata list"
  lq_start :: int
  lq_planner :: bool
  lq_followups :: nat
  lq_failure :: "jsstring option"
  lq_max :: "int option"
  lq_gateway :: "gateway option"
  lq_policy :: completion_policy
  lq_handlers :: loop_handlers

text \<open>What a tool may do to the context sources of the session while it runs, as the todo list does.\<close>

datatype source_change = PutSource context_source | DropSource jsstring

fun change_source :: "source_change \<Rightarrow> session \<Rightarrow> session" where
  "change_source (PutSource c) s = add_source c s"
| "change_source (DropSource i) s = remove_source i s"

record loop_env =
  le_summ :: "nat \<Rightarrow> summarizer_binding \<Rightarrow> summarizer"
  le_govern :: "nat \<Rightarrow> govern_point \<Rightarrow> bool"
  le_govern_error :: "nat \<Rightarrow> govern_error \<Rightarrow> thrown"
  le_signal :: "nat \<Rightarrow> loop_point \<Rightarrow> abort_signal option"
  le_reply :: "nat \<Rightarrow> llm_message list \<Rightarrow> llm_reply option"
  le_landing :: "nat \<Rightarrow> llm_message list \<Rightarrow> llm_reply option"
  le_usage :: "nat \<Rightarrow> int option"
  le_batch :: "nat \<Rightarrow> batch_env"
  le_sources :: "nat \<Rightarrow> source_change list"
  le_reads :: "run_event list \<Rightarrow> bool"
  le_sha :: "jsstring \<Rightarrow> jsstring"
  le_cmp :: "jsstring \<Rightarrow> jsstring \<Rightarrow> bool"
  le_recovery_text :: jsstring
  le_stalled_text :: jsstring
  le_landing_text :: "int \<Rightarrow> int \<Rightarrow> jsstring"

definition DEFAULT_MAX_TOOL_ITERATIONS :: int where "DEFAULT_MAX_TOOL_ITERATIONS = 200"
definition MAX_COMPLETION_FOLLOWUPS :: nat where "MAX_COMPLETION_FOLLOWUPS = 1"

definition max_iterations :: "loop_params \<Rightarrow> int" where
  "max_iterations q = (case lq_max q of Some n \<Rightarrow> n | None \<Rightarrow> DEFAULT_MAX_TOOL_ITERATIONS)"

definition SOFT_LAND_FALLBACK :: jsstring where
  "SOFT_LAND_FALLBACK = ([0x5DF2, 0x8FBE, 0x5230, 0x5DE5, 0x5177, 0x8C03, 0x7528, 0x8F6E, 0x6B21, 0x4E0A, 0x9650, 0x3002, 0x8BF7, 0x67E5, 0x770B, 0x4E0A, 0x6587, 0x5DE5, 0x5177, 0x7ED3, 0x679C, 0xFF1B, 0x5982, 0x9700, 0x7EE7, 0x7EED, 0xFF0C, 0x8BF7, 0x518D, 0x53D1, 0x4E00, 0x6761, 0x6307, 0x4EE4, 0x63A8, 0x8FDB, 0x5269, 0x4F59, 0x5DE5, 0x4F5C, 0x3002])"

definition format_max_iterations_notice :: "int \<Rightarrow> jsstring" where
  "format_max_iterations_notice mx = SOFT_LAND_FALLBACK @ ([0xFF08, 0x4E0A, 0x9650] @ js '' '') @ show_int mx @ (js '' '' @ [0x8F6E, 0xFF09])"

definition thread_thrown :: "thread_error \<Rightarrow> thrown" where
  "thread_thrown e = plain_error (js ''Error'') (case e of
     TurnAlreadyOpen \<Rightarrow> js ''Cannot begin turn while another turn is open'' | NoOpenTurn \<Rightarrow> js ''No open turn'')"

section \<open>The trace of a run\<close>

definition emit :: "stream_event \<Rightarrow> loop_state \<Rightarrow> loop_state" where
  "emit o1 st = st\<lparr>ls_out := ls_out st @ [o1]\<rparr>"

definition append_trace :: "run_event \<Rightarrow> loop_state \<Rightarrow> loop_state" where
  "append_trace e st = st\<lparr>ls_events := ls_events st @ [e]\<rparr>"

definition set_run_phase :: "run_phase \<Rightarrow> loop_state \<Rightarrow> loop_state" where
  "set_run_phase p st = (if ls_phase st = Some p then st
     else append_trace (Recorded (js ''run.phase.changed'')) (st\<lparr>ls_phase := Some p\<rparr>))"

definition record_type :: "jsstring \<Rightarrow> loop_state \<Rightarrow> loop_state" where
  "record_type t st =
     (if t = js ''run.started'' then set_run_phase PhInspect (append_trace (Recorded t) st)
      else
        let st1 = (case phase_for_lifecycle_event t of Some p \<Rightarrow> set_run_phase p st | None \<Rightarrow> st);
            st2 = (if t = js ''run.completed'' then set_run_phase PhComplete st1 else st1);
            st3 = append_trace (Recorded t) st2
        in if t = js ''run.completed'' then st3\<lparr>ls_phase := None\<rparr> else st3)"

text \<open>What a batch did, entered into the trace; an observed call sets the phase.\<close>

definition note_event :: "tool_metadata list \<Rightarrow> run_event \<Rightarrow> loop_state \<Rightarrow> loop_state" where
  "note_event ts e st = (case e of
     Observed c \<Rightarrow> set_run_phase (classify_tool_call_phase c (find_tool ts (call_name c))) st
   | _ \<Rightarrow> append_trace e st)"

definition note_events :: "tool_metadata list \<Rightarrow> run_event list \<Rightarrow> loop_state \<Rightarrow> loop_state" where
  "note_events ts es st = fold (note_event ts) es st"

definition record_maintained :: "maintenance list \<Rightarrow> loop_state \<Rightarrow> loop_state" where
  "record_maintained ms st = fold (\<lambda>m s. if compacted m \<or> 0 < dropped_messages m
     then record_type (js ''context.compacted'') s else s) ms st"

definition read_run :: "loop_env \<Rightarrow> loop_state \<Rightarrow> run_event list" where
  "read_run env st = (if le_reads env (ls_events st) then ls_events st else [])"

text \<open>\<open>attachArtifacts\<close>, given the events of the run.\<close>

definition attach_from :: "loop_env \<Rightarrow> run_event list \<Rightarrow> agent_result \<Rightarrow> agent_result" where
  "attach_from env es r = attach_result (le_cmp env) (if le_reads env es then Some es else None) r"

section \<open>Changes of the session\<close>

definition on_session :: "(session \<Rightarrow> thread_error + session) \<Rightarrow> loop_state \<Rightarrow> (thrown + unit) \<times> loop_state" where
  "on_session f st = (case f (ls_session st) of
     Inl e \<Rightarrow> (Inl (thread_thrown e), st) | Inr s \<Rightarrow> (Inr (), st\<lparr>ls_session := s\<rparr>))"

text \<open>Tool results are appended one by one; \<open>loud\<close> says whether each is also yielded.\<close>

fun append_results :: "bool \<Rightarrow> llm_message list \<Rightarrow> loop_state \<Rightarrow> (thrown + unit) \<times> loop_state" where
  "append_results loud [] st = (Inr (), st)"
| "append_results loud (Chat r c im cs # ms) st = append_results loud ms st"
| "append_results loud (ToolMsg i n c # ms) st =
     (case on_session (session_append_tool_result
            \<lparr>tr_call_id = i, tr_name = n, tr_content = c, tr_summary = None, tr_iteration = Some (ls_iteration st)\<rparr>) st of
        (Inl e, st1) \<Rightarrow> (Inl e, st1)
      | (Inr _, st1) \<Rightarrow> append_results loud ms (if loud then emit (CallAnswered i n c) st1 else st1))"

definition clear_run_checkpoint :: "jsstring \<Rightarrow> loop_state \<Rightarrow> loop_state" where
  "clear_run_checkpoint run st = (case tl_checkpoint (ls_loop st) of
     None \<Rightarrow> st
   | Some c \<Rightarrow> if run \<noteq> [] \<and> rc_run c \<noteq> run then st
       else st\<lparr>ls_loop := (ls_loop st)\<lparr>tl_checkpoint := None,
         tl_notices := tl_notices (ls_loop st) + (if rc_status c = CkAwaiting then 1 else 0)\<rparr>\<rparr>)"

definition notify_synchronized :: "jsstring \<Rightarrow> loop_state \<Rightarrow> loop_state" where
  "notify_synchronized run st = (case tl_checkpoint (ls_loop st) of
     None \<Rightarrow> st
   | Some c \<Rightarrow> if rc_run c = run \<and> rc_status c = CkAwaiting
       then st\<lparr>ls_loop := (ls_loop st)\<lparr>tl_notices := tl_notices (ls_loop st) + 1\<rparr>\<rparr> else st)"

definition forget_pending :: "jsstring \<Rightarrow> loop_state \<Rightarrow> loop_state" where
  "forget_pending run st = st\<lparr>ls_loop := (ls_loop st)\<lparr>tl_pending := map_del run (tl_pending (ls_loop st))\<rparr>\<rparr>"

section \<open>Preparing a request\<close>

definition overlays :: "loop_env \<Rightarrow> loop_params \<Rightarrow> loop_state \<Rightarrow> jsstring list" where
  "overlays env q st =
     (if ls_recovering st then [le_recovery_text env] else [])
     @ (case ls_followup st of None \<Rightarrow> []
        | Some a \<Rightarrow> [case cp_followup (lq_policy q) of Some f \<Rightarrow> f a
             | None \<Rightarrow> js ''Completion policy is not satisfied: '' @ as_reason a])
     @ (case ls_satisfied st of None \<Rightarrow> []
        | Some a \<Rightarrow> (case cp_satisfied (lq_policy q) of None \<Rightarrow> []
             | Some f \<Rightarrow> (case f a of None \<Rightarrow> [] | Some t \<Rightarrow> if t = [] then [] else [t])))"

definition round_input :: "loop_env \<Rightarrow> loop_params \<Rightarrow> loop_state \<Rightarrow> build_input" where
  "round_input env q st = (let os = overlays env q st in
     if os = [] then lq_build q
     else (lq_build q)\<lparr>bi_system := bi_system (lq_build q) @ [10] @ js_join [10] os\<rparr>)"

definition throw_now :: "abort_signal option \<Rightarrow> loop_thrown" where
  "throw_now sig = LoopThrew (abort_reason sig ABORTED_TEXT)"

definition open_round :: "loop_env \<Rightarrow> loop_params \<Rightarrow> nat \<Rightarrow> loop_state \<Rightarrow> ((loop_thrown + llm_message list) \<times> loop_state) option" where
  "open_round env q k st =
     (let st0 = st\<lparr>ls_stage := StContext\<rparr>
      in if is_aborted (le_signal env k LpHead) then Some (Inl (throw_now (le_signal env k LpHead)), st0)
         else
           let st1 = st0\<lparr>ls_session := set_iteration (ls_iteration st) (ls_session st)\<rparr>
           in (case prepare_request (le_summ env k) (le_govern env k) (round_input env q st) (ls_session st1) of
                 None \<Rightarrow> None
               | Some (s, Inl e) \<Rightarrow> Some (Inl (LoopThrew (le_govern_error env k e)), st1\<lparr>ls_session := s\<rparr>)
               | Some (s, Inr (sn, ms)) \<Rightarrow>
                   let st2 = st1\<lparr>ls_session := s, ls_recovering := False, ls_followup := None, ls_satisfied := None\<rparr>
                   in if is_aborted (le_signal env k LpPrepared) then Some (Inl (throw_now (le_signal env k LpPrepared)), st2)
                      else Some (Inr (sn_messages sn), emit (TurnStart (ls_iteration st)) (record_maintained ms st2))))"

section \<open>The model's reply\<close>

record model_turn =
  tu_text :: jsstring
  tu_thinking :: jsstring
  tu_calls :: "tool_call list"

definition gap :: "jsstring \<Rightarrow> jsstring \<Rightarrow> jsstring" where
  "gap turn full = (if turn = [] \<and> full \<noteq> [] then [10, 10] else [])"

fun take_chunks ::
    "(abort_signal option \<times> llm_chunk) list \<Rightarrow> model_turn \<Rightarrow> loop_state \<Rightarrow> (thrown + model_turn) \<times> loop_state" where
  "take_chunks [] tu st = (Inr tu, st)"
| "take_chunks ((sig, c) # cs) tu st =
     (if is_aborted sig then (Inl (abort_reason sig ABORTED_TEXT), st)
      else case c of
          ChThinking t \<Rightarrow> take_chunks cs (tu\<lparr>tu_thinking := tu_thinking tu @ t\<rparr>)
            (emit (ThinkingDelta t) (st\<lparr>ls_thinking := ls_thinking st @ gap (tu_thinking tu) (ls_thinking st) @ t\<rparr>))
        | ChText t \<Rightarrow> take_chunks cs (tu\<lparr>tu_text := tu_text tu @ t\<rparr>)
            (emit (TextDelta t) (st\<lparr>ls_text := ls_text st @ gap (tu_text tu) (ls_text st) @ t\<rparr>))
        | ChCall x \<Rightarrow> take_chunks cs (tu\<lparr>tu_calls := tu_calls tu @ [x]\<rparr>) st)"

definition completed_event :: "loop_params \<Rightarrow> loop_state \<Rightarrow> jsstring" where
  "completed_event q st = (if ls_iteration st = lq_start q \<and> lq_planner q
     then js ''llm.planner.completed'' else js ''llm.tool_followup.completed'')"

definition model_round ::
    "loop_env \<Rightarrow> loop_params \<Rightarrow> nat \<Rightarrow> llm_message list \<Rightarrow> loop_state \<Rightarrow> ((loop_thrown + model_turn) \<times> loop_state) option" where
  "model_round env q k msgs st =
     (let st1 = st\<lparr>ls_stage := StLlm, ls_requests := ls_requests st @ [msgs]\<rparr>
      in case le_reply env k msgs of
           None \<Rightarrow> None
         | Some rp \<Rightarrow>
           (case take_chunks (lr_chunks rp) \<lparr>tu_text = [], tu_thinking = [], tu_calls = []\<rparr> st1 of
              (Inl e, st2) \<Rightarrow> Some (Inl (LoopThrew e), st2)
            | (Inr tu, st2) \<Rightarrow>
              (case lr_threw rp of
                 Some e \<Rightarrow> Some (Inl (LoopThrew e), st2)
               | None \<Rightarrow>
                 if is_aborted (le_signal env k LpStreamed) then Some (Inl (throw_now (le_signal env k LpStreamed)), st2)
                 else Some (Inr tu, append_trace (ModelDone (completed_event q st) (take 240 (tu_text tu)))
                   (st2\<lparr>ls_session := calibrate_from_usage (le_usage env k) msgs (ls_session st2)\<rparr>)))))"

section \<open>The ways a round ends\<close>

datatype round_end = GoOn | LeaveLoop | Finish agent_result

definition finish_with ::
    "(thrown + agent_result) \<times> loop_state \<Rightarrow> (loop_thrown + round_end) \<times> loop_state" where
  "finish_with r = (case r of (Inl e, st) \<Rightarrow> (Inl (LoopThrew e), st) | (Inr a, st) \<Rightarrow> (Inr (Finish a), st))"

definition next_iteration :: "loop_state \<Rightarrow> (loop_thrown + round_end) \<times> loop_state" where
  "next_iteration st = (Inr GoOn, st\<lparr>ls_iteration := ls_iteration st + 1\<rparr>)"

text \<open>The landing behind the last iteration: one more request, without tools, whose text is the result.\<close>

definition add_landing_text :: "jsstring \<Rightarrow> loop_state \<Rightarrow> loop_state" where
  "add_landing_text t st = emit (TextDelta t)
     (st\<lparr>ls_text := (if ls_text st \<noteq> [] then ls_text st @ [10, 10] @ t else t)\<rparr>)"

fun landing_chunks ::
    "(abort_signal option \<times> llm_chunk) list \<Rightarrow> jsstring \<Rightarrow> loop_state \<Rightarrow> (thrown + jsstring) \<times> loop_state" where
  "landing_chunks [] soft st = (Inr soft, st)"
| "landing_chunks ((sig, ChText t) # cs) soft st =
     (if is_aborted sig then (Inl (abort_reason sig ABORTED_TEXT), st)
      else landing_chunks cs (soft @ t) (add_landing_text t st))"
| "landing_chunks ((sig, ChThinking t) # cs) soft st = landing_chunks cs soft st"
| "landing_chunks ((sig, ChCall x) # cs) soft st = landing_chunks cs soft st"

definition landing_message :: "loop_env \<Rightarrow> loop_params \<Rightarrow> loop_state \<Rightarrow> llm_message" where
  "landing_message env q st = Chat User (le_landing_text env (max_iterations q) (ls_iteration st)) None None"

definition landing_summary :: "loop_params \<Rightarrow> jsstring \<Rightarrow> loop_state \<Rightarrow> jsstring" where
  "landing_summary q soft st = (if js_trim soft \<noteq> [] then js_trim soft
     else if js_trim (ls_text st) \<noteq> [] then js_trim (ls_text st)
     else format_max_iterations_notice (max_iterations q))"

definition soft_land ::
    "loop_env \<Rightarrow> loop_params \<Rightarrow> nat \<Rightarrow> llm_message list \<Rightarrow> loop_state \<Rightarrow> ((loop_thrown + round_end) \<times> loop_state) option" where
  "soft_land env q k msgs st =
     (let st0 = emit (TurnStart (ls_iteration st)) (record_type (js ''llm.tool_loop.max_iterations'') st);
          asked = msgs @ [landing_message env q st];
          st1 = st0\<lparr>ls_stage := StSoftLand, ls_requests := ls_requests st0 @ [asked]\<rparr>;
          notice = format_max_iterations_notice (max_iterations q);
          sig = le_signal env k LpLanding
      in case le_landing env k asked of
           None \<Rightarrow> None
         | Some rp \<Rightarrow>
           (case landing_chunks (lr_chunks rp) [] st1 of
              (Inl e, st2) \<Rightarrow> Some (Inl (LoopThrew e), st2)
            | (Inr soft, st2) \<Rightarrow>
              (case lr_threw rp of
                 Some e \<Rightarrow> Some (Inl (LoopThrew e), st2)
               | None \<Rightarrow>
                 let st3 = record_type (js ''llm.soft_land.completed'') st2
                 in if js_trim soft \<noteq> []
                    then Some (finish_with (on_soft_land (lq_handlers q) (landing_summary q soft st3) st3))
                    else if is_aborted sig then Some (Inl (throw_now sig), st3)
                    else
                      let st4 = add_landing_text notice st3
                      in Some (finish_with (on_soft_land (lq_handlers q) (landing_summary q (soft @ notice) st4) st4)))))"

text \<open>A reply without tool calls, or a loop without a gateway.\<close>

definition event_prefix :: "loop_params \<Rightarrow> jsstring" where
  "event_prefix q = (case cp_prefix (lq_policy q) of Some t \<Rightarrow> t | None \<Rightarrow> js ''run.completion'')"

definition final_turn ::
    "loop_env \<Rightarrow> loop_params \<Rightarrow> nat \<Rightarrow> model_turn \<Rightarrow> loop_state \<Rightarrow> (loop_thrown + round_end) \<times> loop_state" where
  "final_turn env q k tu st =
     (case (if js_trim (tu_text tu) \<noteq> [] then on_session (session_append_assistant (tu_text tu) None) st else (Inr (), st)) of
        (Inl e, st1) \<Rightarrow> (Inl (LoopThrew e), st1)
      | (Inr _, st1) \<Rightarrow>
        let st2 = set_run_phase PhReview st1;
            a = cp_assess (lq_policy q) (read_run env st2)
        in if (lq_gateway q = None \<and> \<not> cp_without_tools (lq_policy q)) \<or> as_satisfied a then (Inr LeaveLoop, st2)
           else if ls_followups st2 < MAX_COMPLETION_FOLLOWUPS
           then next_iteration ((record_type (event_prefix q @ js ''.followup'')
             (st2\<lparr>ls_followups := ls_followups st2 + 1, ls_followup := Some a\<rparr>))\<lparr>ls_text := []\<rparr>)
           else finish_with (on_stalled (lq_handlers q) (([0x65E0, 0x6CD5, 0x786E, 0x8BA4, 0x4EFB, 0x52A1, 0x5B8C, 0x6210, 0xFF1A]) @ as_reason a)
             (record_type (event_prefix q @ js ''.exhausted'') st2)))"

text \<open>What the loop makes of the results of a turn's tools.\<close>

definition note_satisfied :: "loop_params \<Rightarrow> assessment \<Rightarrow> loop_state \<Rightarrow> loop_state" where
  "note_satisfied q a st = (if as_satisfied a \<and> as_complete a
     then record_type (js ''run.completion.recommended'') (st\<lparr>ls_satisfied := Some a\<rparr>) else st)"

definition STAGNATION_SUMMARY :: jsstring where
  "STAGNATION_SUMMARY = ([0x8FDE, 0x7EED, 0x591A, 0x8F6E, 0x53EA, 0x6709, 0x68C0, 0x7D22, 0x6216, 0x8BFB, 0x53D6, 0xFF0C, 0x6CA1, 0x6709, 0x4EA7, 0x751F, 0x5DE5, 0x4F5C, 0x533A, 0x4FEE, 0x6539, 0x3001, 0x9A8C, 0x8BC1, 0x7ED3, 0x679C, 0x6216, 0x65B0, 0x7684, 0x6267, 0x884C, 0x8FDB, 0x5C55, 0xFF0C, 0x5DF2, 0x505C, 0x6B62, 0x672C, 0x6B21, 0x8FD0, 0x884C, 0x3002])"

definition announce :: "jsstring \<Rightarrow> loop_state \<Rightarrow> loop_state" where
  "announce summary st = emit (TextDelta summary) (emit (TurnStart (ls_iteration st + 1)) st)"

definition check_stall ::
    "loop_env \<Rightarrow> loop_params \<Rightarrow> stall_observation \<Rightarrow> loop_state \<Rightarrow> (loop_thrown + round_end) \<times> loop_state" where
  "check_stall env q ob st =
     (if so_state ob = SRecover
      then next_iteration ((record_type (js ''llm.tool_loop.stall_recovery'')
             (record_type (js ''llm.tool_loop.stall_detected'') st))\<lparr>ls_recovering := True\<rparr>)
      else if so_state ob = SStalled
      then
        let summary = le_stalled_text env;
            st1 = announce summary (record_type (js ''llm.tool_loop.stalled'') st);
            st2 = st1\<lparr>ls_text := (if ls_text st1 \<noteq> [] then ls_text st1 @ [10, 10] @ summary else summary)\<rparr>
        in finish_with (on_stalled (lq_handlers q) summary st2)
      else next_iteration st)"

definition after_tools ::
    "loop_env \<Rightarrow> loop_params \<Rightarrow> nat \<Rightarrow> tool_call list \<Rightarrow> llm_message list \<Rightarrow> loop_state
     \<Rightarrow> (loop_thrown + round_end) \<times> loop_state" where
  "after_tools env q k calls results st =
     (let st1 = set_run_phase PhReview st;
          st2 = note_satisfied q (cp_assess (lq_policy q) (read_run env st1)) st1;
          so = observe_stall (le_sha env) (le_cmp env) calls results (ls_stall st2);
          po = observe_progress calls (ls_progress st2);
          st3 = record_type (js ''run.progress.assessed'') (st2\<lparr>ls_stall := snd so, ls_progress := snd po\<rparr>)
      in if po_state (fst po) = PStalled
         then finish_with (on_stalled (lq_handlers q) STAGNATION_SUMMARY
                (announce STAGNATION_SUMMARY (record_type (js ''run.stagnation.terminated'') st3)))
         else check_stall env q (fst so)
                (if po_state (fst po) = PWarn then record_type (js ''run.stagnation.warning'') st3 else st3))"

definition batch_of :: "loop_params \<Rightarrow> tool_call list \<Rightarrow> loop_state \<Rightarrow> batch_input" where
  "batch_of q calls st = \<lparr>bi_run = lq_run q, bi_user_input = lq_input q, bi_calls = calls, bi_metadata = lq_tools q,
     bi_iteration = ls_iteration st, bi_followups = ls_followups st\<rparr>"

definition announce_calls :: "tool_call list \<Rightarrow> loop_state \<Rightarrow> loop_state" where
  "announce_calls calls st = record_type (js ''llm.tool_calls.received'')
     (fold (\<lambda>c. emit (CallRequested c)) calls (emit (ToolsStart (ls_iteration st) (length calls)) st))"

text \<open>The results of a batch enter the thread before anything else is looked at.\<close>

definition with_results ::
    "loop_env \<Rightarrow> loop_params \<Rightarrow> nat \<Rightarrow> llm_message list \<Rightarrow> (loop_state \<Rightarrow> (loop_thrown + round_end) \<times> loop_state)
     \<Rightarrow> loop_state \<Rightarrow> (loop_thrown + round_end) \<times> loop_state" where
  "with_results env q k ms next st =
     (case append_results True ms st of
        (Inl e, st1) \<Rightarrow> (Inl (LoopThrew e), st1)
      | (Inr _, st1) \<Rightarrow>
        let st2 = notify_synchronized (lq_run q) st1
        in if is_aborted (le_signal env k LpTools) then (Inl (throw_now (le_signal env k LpTools)), st2)
           else next st2)"

definition await_approval :: "loop_env \<Rightarrow> agent_result \<Rightarrow> loop_state \<Rightarrow> (loop_thrown + round_end) \<times> loop_state" where
  "await_approval env r st =
     (Inr (Finish (attach_from env (ls_events st) r)), record_type (js ''run.awaiting_approval'') st)"

definition tool_turn ::
    "loop_env \<Rightarrow> loop_params \<Rightarrow> gateway \<Rightarrow> nat \<Rightarrow> model_turn \<Rightarrow> loop_state
     \<Rightarrow> ((loop_thrown + round_end) \<times> loop_state) option" where
  "tool_turn env q g k tu st =
     (case on_session (session_append_assistant (tu_text tu) (Some (tu_calls tu))) (announce_calls (tu_calls tu) st) of
        (Inl e, st1) \<Rightarrow> Some (Inl (LoopThrew e), st1)
      | (Inr _, st1) \<Rightarrow>
        let st2 = st1\<lparr>ls_stage := StTool\<rparr>
        in (case execute_tool_batch g (le_batch env k) (attach_from env (ls_events st2))
                  (batch_of q (tu_calls tu) st2) (ls_loop st2) of
              None \<Rightarrow> None
            | Some (r, lp, tr) \<Rightarrow>
              let st3 = note_events (lq_tools q) tr
                    (st2\<lparr>ls_loop := lp, ls_session := fold change_source (le_sources env k) (ls_session st2)\<rparr>)
              in Some (case r of
                   BatchThrew e \<Rightarrow> (Inl (LoopThrew e), st3)
                 | BatchAborted e ms \<Rightarrow> (Inl (BatchCut e ms), st3)
                 | BatchApproval res ms \<Rightarrow> with_results env q k ms (await_approval env res) st3
                 | BatchCompleted ms \<Rightarrow> with_results env q k ms (after_tools env q k (tu_calls tu) ms) st3)))"

section \<open>The loop\<close>

definition take_turn ::
    "loop_env \<Rightarrow> loop_params \<Rightarrow> nat \<Rightarrow> llm_message list \<Rightarrow> model_turn \<Rightarrow> loop_state
     \<Rightarrow> ((loop_thrown + round_end) \<times> loop_state) option" where
  "take_turn env q k msgs tu st =
     (if tu_calls tu \<noteq> [] \<and> ls_iteration st > max_iterations q then soft_land env q k msgs st
      else case lq_gateway q of
          None \<Rightarrow> Some (final_turn env q k tu st)
        | Some g \<Rightarrow> if tu_calls tu = [] then Some (final_turn env q k tu st) else tool_turn env q g k tu st)"

definition loop_round ::
    "loop_env \<Rightarrow> loop_params \<Rightarrow> nat \<Rightarrow> loop_state \<Rightarrow> ((loop_thrown + round_end) \<times> loop_state) option" where
  "loop_round env q k st =
     (case open_round env q k st of
        None \<Rightarrow> None
      | Some (Inl e, st1) \<Rightarrow> Some (Inl e, st1)
      | Some (Inr msgs, st1) \<Rightarrow>
        (case model_round env q k msgs st1 of
           None \<Rightarrow> None
         | Some (Inl e, st2) \<Rightarrow> Some (Inl e, st2)
         | Some (Inr tu, st2) \<Rightarrow> take_turn env q k msgs tu st2))"

definition yield_result :: "(thrown + agent_result) \<times> loop_state \<Rightarrow> (thrown + agent_result) \<times> loop_state" where
  "yield_result r = (case r of (Inl e, st) \<Rightarrow> (Inl e, st) | (Inr a, st) \<Rightarrow> (Inr a, emit (FinalResult a) st))"

definition USER_INTERRUPT :: jsstring where "USER_INTERRUPT = ([0x7528, 0x6237, 0x4E2D, 0x65AD])"

definition cancel_loop ::
    "loop_params \<Rightarrow> abort_signal option \<Rightarrow> loop_stage \<Rightarrow> loop_state \<Rightarrow> (thrown + agent_result) \<times> loop_state" where
  "cancel_loop q sig stage st = yield_result
     (on_cancelled (lq_handlers q) (abort_message sig USER_INTERRUPT) stage (forget_pending (lq_run q) st))"

definition catch_thrown ::
    "loop_env \<Rightarrow> loop_params \<Rightarrow> nat \<Rightarrow> loop_thrown \<Rightarrow> loop_state \<Rightarrow> (thrown + agent_result) \<times> loop_state" where
  "catch_thrown env q k x st =
     (let sig = le_signal env k LpCatch in
      case x of
        BatchCut e ms \<Rightarrow>
          (case append_results False ms st of
             (Inl e', st1) \<Rightarrow> (Inl e', st1)
           | (Inr _, st1) \<Rightarrow> cancel_loop q sig (ls_stage st1) st1)
      | LoopThrew e \<Rightarrow>
          if is_operation_aborted e sig then cancel_loop q sig (ls_stage st) st
          else
            let c = classify_runtime_error e (if ls_stage st = StTool then FromTool else FromModel);
                st1 = record_type (case lq_failure q of Some t \<Rightarrow> t | None \<Rightarrow> js ''llm.planner.failed'') st
            in yield_result (on_failure (lq_handlers q) (err_text e) c st1))"

definition finalize_loop ::
    "loop_env \<Rightarrow> loop_params \<Rightarrow> nat \<Rightarrow> loop_state \<Rightarrow> (thrown + agent_result) \<times> loop_state" where
  "finalize_loop env q k st =
     (let st1 = st\<lparr>ls_stage := StFinalize\<rparr>; sig = le_signal env k LpFinal
      in if is_aborted sig then cancel_loop q sig StFinalize st1
         else yield_result (on_success (lq_handlers q) (ls_text st1) (ls_thinking st1) st1))"

text \<open>The iterations left, and the follow-ups left, decrease together in one of them at least.\<close>

definition rounds_left :: "loop_params \<Rightarrow> loop_state \<Rightarrow> nat" where
  "rounds_left q st = nat (max_iterations q + 1 - ls_iteration st) + (MAX_COMPLETION_FOLLOWUPS - ls_followups st)"

lemma emit_frame [simp]:
  "ls_session (emit o1 st) = ls_session st" "ls_loop (emit o1 st) = ls_loop st" "ls_iteration (emit o1 st) = ls_iteration st"
  "ls_followups (emit o1 st) = ls_followups st" "ls_requests (emit o1 st) = ls_requests st" "ls_events (emit o1 st) = ls_events st"
  "ls_stage (emit o1 st) = ls_stage st" "ls_out (emit o1 st) = ls_out st @ [o1]"
  by (simp_all add: emit_def)

lemma append_trace_frame [simp]:
  "ls_session (append_trace e st) = ls_session st" "ls_loop (append_trace e st) = ls_loop st"
  "ls_iteration (append_trace e st) = ls_iteration st" "ls_followups (append_trace e st) = ls_followups st"
  "ls_requests (append_trace e st) = ls_requests st" "ls_out (append_trace e st) = ls_out st" "ls_stage (append_trace e st) = ls_stage st"
  by (simp_all add: append_trace_def)

lemma set_run_phase_frame [simp]:
  "ls_session (set_run_phase p st) = ls_session st" "ls_loop (set_run_phase p st) = ls_loop st"
  "ls_iteration (set_run_phase p st) = ls_iteration st" "ls_followups (set_run_phase p st) = ls_followups st"
  "ls_requests (set_run_phase p st) = ls_requests st" "ls_out (set_run_phase p st) = ls_out st" "ls_stage (set_run_phase p st) = ls_stage st"
  by (simp_all add: set_run_phase_def)

lemma record_type_frame [simp]:
  "ls_session (record_type t st) = ls_session st" "ls_loop (record_type t st) = ls_loop st"
  "ls_iteration (record_type t st) = ls_iteration st" "ls_followups (record_type t st) = ls_followups st"
  "ls_requests (record_type t st) = ls_requests st" "ls_out (record_type t st) = ls_out st" "ls_stage (record_type t st) = ls_stage st"
  by (simp_all add: record_type_def Let_def split: option.split)

lemma note_event_frame [simp]:
  "ls_session (note_event ts e st) = ls_session st" "ls_loop (note_event ts e st) = ls_loop st"
  "ls_iteration (note_event ts e st) = ls_iteration st" "ls_followups (note_event ts e st) = ls_followups st"
  "ls_requests (note_event ts e st) = ls_requests st" "ls_out (note_event ts e st) = ls_out st" "ls_stage (note_event ts e st) = ls_stage st"
  by (cases e; simp add: note_event_def)+

lemma note_events_frame [simp]:
  "ls_session (note_events ts es st) = ls_session st" "ls_loop (note_events ts es st) = ls_loop st"
  "ls_iteration (note_events ts es st) = ls_iteration st" "ls_followups (note_events ts es st) = ls_followups st"
  "ls_requests (note_events ts es st) = ls_requests st" "ls_out (note_events ts es st) = ls_out st" "ls_stage (note_events ts es st) = ls_stage st"
  unfolding note_events_def by (induction es arbitrary: st) simp_all

lemma record_maintained_frame [simp]:
  "ls_session (record_maintained ms st) = ls_session st" "ls_loop (record_maintained ms st) = ls_loop st"
  "ls_iteration (record_maintained ms st) = ls_iteration st" "ls_followups (record_maintained ms st) = ls_followups st"
  "ls_requests (record_maintained ms st) = ls_requests st" "ls_out (record_maintained ms st) = ls_out st"
  "ls_stage (record_maintained ms st) = ls_stage st"
  unfolding record_maintained_def by (induction ms arbitrary: st) simp_all

lemma announce_frame [simp]:
  "ls_session (announce t st) = ls_session st" "ls_loop (announce t st) = ls_loop st" "ls_iteration (announce t st) = ls_iteration st"
  "ls_followups (announce t st) = ls_followups st" "ls_requests (announce t st) = ls_requests st" "ls_stage (announce t st) = ls_stage st"
  by (simp_all add: announce_def)

lemma announce_calls_frame [simp]:
  "ls_session (announce_calls cs st) = ls_session st" "ls_loop (announce_calls cs st) = ls_loop st"
  "ls_iteration (announce_calls cs st) = ls_iteration st" "ls_followups (announce_calls cs st) = ls_followups st"
  "ls_requests (announce_calls cs st) = ls_requests st" "ls_stage (announce_calls cs st) = ls_stage st"
proof -
  have "ls_session (fold (\<lambda>c. emit (CallRequested c)) cs st) = ls_session st
     \<and> ls_loop (fold (\<lambda>c. emit (CallRequested c)) cs st) = ls_loop st
     \<and> ls_iteration (fold (\<lambda>c. emit (CallRequested c)) cs st) = ls_iteration st
     \<and> ls_followups (fold (\<lambda>c. emit (CallRequested c)) cs st) = ls_followups st
     \<and> ls_requests (fold (\<lambda>c. emit (CallRequested c)) cs st) = ls_requests st
     \<and> ls_stage (fold (\<lambda>c. emit (CallRequested c)) cs st) = ls_stage st" for st
    by (induction cs arbitrary: st) simp_all
  then show "ls_session (announce_calls cs st) = ls_session st" "ls_loop (announce_calls cs st) = ls_loop st"
      "ls_iteration (announce_calls cs st) = ls_iteration st" "ls_followups (announce_calls cs st) = ls_followups st"
      "ls_requests (announce_calls cs st) = ls_requests st" "ls_stage (announce_calls cs st) = ls_stage st"
    by (simp_all add: announce_calls_def)
qed

lemma note_satisfied_frame [simp]:
  "ls_session (note_satisfied q a st) = ls_session st" "ls_loop (note_satisfied q a st) = ls_loop st"
  "ls_iteration (note_satisfied q a st) = ls_iteration st" "ls_followups (note_satisfied q a st) = ls_followups st"
  "ls_requests (note_satisfied q a st) = ls_requests st" "ls_out (note_satisfied q a st) = ls_out st"
  "ls_stage (note_satisfied q a st) = ls_stage st"
  by (simp_all add: note_satisfied_def)

lemma notify_frame [simp]:
  "ls_session (notify_synchronized r st) = ls_session st" "ls_iteration (notify_synchronized r st) = ls_iteration st"
  "ls_followups (notify_synchronized r st) = ls_followups st" "ls_requests (notify_synchronized r st) = ls_requests st"
  "ls_out (notify_synchronized r st) = ls_out st" "ls_stage (notify_synchronized r st) = ls_stage st"
  "ls_events (notify_synchronized r st) = ls_events st"
  "tl_pending (ls_loop (notify_synchronized r st)) = tl_pending (ls_loop st)"
  "tl_checkpoint (ls_loop (notify_synchronized r st)) = tl_checkpoint (ls_loop st)"
  by (simp_all add: notify_synchronized_def split: option.split)

lemma on_session_frame:
  assumes "on_session f st = (r, st')"
  shows "ls_iteration st' = ls_iteration st
    \<and> ls_followups st' = ls_followups st
    \<and> ls_requests st' = ls_requests st
    \<and> ls_loop st' = ls_loop st
    \<and> ls_out st' = ls_out st
    \<and> ls_stage st' = ls_stage st"
  using assms by (auto simp: on_session_def split: sum.splits)

lemma append_results_frame:
  assumes "append_results loud ms st = (r, st')"
  shows "ls_iteration st' = ls_iteration st
    \<and> ls_followups st' = ls_followups st
    \<and> ls_requests st' = ls_requests st
    \<and> ls_loop st' = ls_loop st
    \<and> ls_stage st' = ls_stage st"
  using assms
  by (induction loud ms st rule: append_results.induct)
    (auto split: prod.splits sum.splits if_splits dest!: on_session_frame)

lemma take_chunks_frame:
  assumes "take_chunks cs tu st = (r, st')"
  shows "ls_iteration st' = ls_iteration st
    \<and> ls_followups st' = ls_followups st
    \<and> ls_requests st' = ls_requests st
    \<and> ls_loop st' = ls_loop st
    \<and> ls_session st' = ls_session st
    \<and> ls_stage st' = ls_stage st"
  using assms by (induction cs tu st rule: take_chunks.induct) (auto split: llm_chunk.splits if_splits)

lemma landing_chunks_frame:
  assumes "landing_chunks cs soft st = (r, st')"
  shows "ls_requests st' = ls_requests st
    \<and> ls_loop st' = ls_loop st
    \<and> ls_session st' = ls_session st"
  using assms by (induction cs soft st rule: landing_chunks.induct) (auto simp: add_landing_text_def split: if_splits)

lemma finish_not_goon [simp]: "finish_with r \<noteq> (Inr GoOn, st)"
  by (auto simp: finish_with_def split: prod.splits sum.splits)

lemma open_round_frame:
  assumes "open_round env q k st = Some (r, st')"
  shows "ls_iteration st' = ls_iteration st
    \<and> ls_followups st' = ls_followups st
    \<and> ls_requests st' = ls_requests st
    \<and> ls_loop st' = ls_loop st"
  using assms by (auto simp: open_round_def Let_def split: if_splits option.splits sum.splits)

lemma model_round_frame:
  assumes "model_round env q k msgs st = Some (r, st')"
  shows "ls_iteration st' = ls_iteration st
    \<and> ls_followups st' = ls_followups st
    \<and> ls_requests st' = ls_requests st @ [msgs]
    \<and> ls_loop st' = ls_loop st"
  using assms by (auto simp: model_round_def Let_def split: if_splits option.splits sum.splits prod.splits dest!: take_chunks_frame)

lemma final_turn_goes_on:
  assumes "final_turn env q k tu st = (Inr GoOn, st')"
  shows "ls_followups st < MAX_COMPLETION_FOLLOWUPS \<and> ls_followups st' = Suc (ls_followups st) \<and> ls_iteration st' = ls_iteration st + 1"
  using assms
  by (auto simp: final_turn_def next_iteration_def Let_def split: if_splits prod.splits sum.splits dest!: on_session_frame)

lemma check_stall_goes_on:
  assumes "check_stall env q ob st = (Inr GoOn, st')"
  shows "ls_followups st' = ls_followups st \<and> ls_iteration st' = ls_iteration st + 1"
  using assms by (auto simp: check_stall_def next_iteration_def Let_def split: if_splits)

lemma after_tools_goes_on:
  assumes "after_tools env q k calls ms st = (Inr GoOn, st')"
  shows "ls_followups st' = ls_followups st \<and> ls_iteration st' = ls_iteration st + 1"
  using assms by (auto simp: after_tools_def Let_def split: if_splits dest!: check_stall_goes_on)

lemma tool_turn_goes_on:
  assumes "tool_turn env q g k tu st = Some (Inr GoOn, st')"
  shows "ls_followups st' = ls_followups st \<and> ls_iteration st' = ls_iteration st + 1"
  using assms
  by (auto simp: tool_turn_def with_results_def await_approval_def Let_def
      split: option.splits prod.splits sum.splits batch_result.splits if_splits
      dest!: after_tools_goes_on append_results_frame on_session_frame)

lemma soft_land_ends: "soft_land env q k msgs st \<noteq> Some (Inr GoOn, st')"
  by (auto simp: soft_land_def Let_def split: option.splits prod.splits sum.splits)

lemma loop_round_decreases:
  assumes "loop_round env q k st = Some (Inr GoOn, st')"
  shows "rounds_left q st' < rounds_left q st"
proof -
  obtain msgs st1 tu st2 where o: "open_round env q k st = Some (Inr msgs, st1)"
      "model_round env q k msgs st1 = Some (Inr tu, st2)" "take_turn env q k msgs tu st2 = Some (Inr GoOn, st')"
    using assms by (auto simp: loop_round_def split: option.splits sum.splits)
  note f = open_round_frame[OF o(1)] model_round_frame[OF o(2)]
  show ?thesis
    using o(3) f
    by (auto simp: take_turn_def rounds_left_def soft_land_ends split: if_splits option.splits
        dest!: final_turn_goes_on tool_turn_goes_on)
qed

function streaming_loop :: "loop_env \<Rightarrow> loop_params \<Rightarrow> nat \<Rightarrow> loop_state \<Rightarrow> ((thrown + agent_result) \<times> loop_state) option" where
  "streaming_loop env q k st =
     (case loop_round env q k st of
        None \<Rightarrow> None
      | Some (Inl x, st1) \<Rightarrow> Some (catch_thrown env q k x st1)
      | Some (Inr GoOn, st1) \<Rightarrow> streaming_loop env q (Suc k) st1
      | Some (Inr LeaveLoop, st1) \<Rightarrow> Some (finalize_loop env q k st1)
      | Some (Inr (Finish r), st1) \<Rightarrow> Some (yield_result (Inr r, st1)))"
  by pat_completeness auto
termination
  by (relation "measure (\<lambda>(env, q, k, st). rounds_left q st)") (auto dest: loop_round_decreases)

declare streaming_loop.simps [simp del]

definition run_streaming_tool_loop ::
    "loop_env \<Rightarrow> loop_params \<Rightarrow> loop_state \<Rightarrow> ((thrown + agent_result) \<times> loop_state) option" where
  "run_streaming_tool_loop env q st = streaming_loop env q 0
     (st\<lparr>ls_iteration := lq_start q, ls_text := [], ls_thinking := [], ls_stage := StContext, ls_recovering := False,
        ls_followups := lq_followups q, ls_followup := None, ls_satisfied := None,
        ls_stall := new_stall_detector None, ls_progress := new_progress_monitor\<rparr>)"

end
