(* ===== verification/Todo.thy ===== *)
theory Todo
  imports Prelude
begin

text \<open>
  The session's todo list: \<open>todo/todoStore.ts\<close> and the two tools of \<open>tools/builtin/todo.ts\<close>
  that read and write it. The listeners of the store are left out: each write calls them after
  the list is replaced, and none is given the list.
\<close>

datatype todo_status = Pending | InProgress | Completed | Cancelled

fun status_name :: "todo_status \<Rightarrow> jsstring" where
  "status_name Pending = js ''pending''"
| "status_name InProgress = js ''in_progress''"
| "status_name Completed = js ''completed''"
| "status_name Cancelled = js ''cancelled''"

definition TODO_STATUSES :: "todo_status list" where
  "TODO_STATUSES = [Pending, InProgress, Completed, Cancelled]"

fun status_mark :: "todo_status \<Rightarrow> jsstring" where
  "status_mark Pending = js ''[ ]''"
| "status_mark InProgress = js ''[~]''"
| "status_mark Completed = js ''[x]''"
| "status_mark Cancelled = js ''[-]''"

text \<open>The status of an incoming item is a text until it has been checked.\<close>

record todo_input =
  in_id :: jsstring
  in_content :: jsstring
  in_status :: jsstring

record todo_item =
  todo_id :: jsstring
  todo_content :: jsstring
  todo_status :: todo_status

definition read_status :: "jsstring \<Rightarrow> todo_status option" where
  "read_status v = find (\<lambda>s. status_name s = v) TODO_STATUSES"

definition normalize_todo_item :: "todo_input \<Rightarrow> jsstring + todo_item" where
  "normalize_todo_item item =
     (let i = js_trim (in_id item); c = js_trim (in_content item)
      in if i = [] then Inl (js ''Todo id must not be empty'')
         else if c = [] then Inl (js ''Todo content must not be empty (id='' @ i @ js '')'')
         else case read_status (in_status item) of
             None \<Rightarrow> Inl (js ''Invalid todo status for '' @ i @ js '': '' @ in_status item)
           | Some s \<Rightarrow> Inr \<lparr>todo_id = i, todo_content = c, todo_status = s\<rparr>)"

fun normalize_all :: "todo_input list \<Rightarrow> jsstring + todo_item list" where
  "normalize_all [] = Inr []"
| "normalize_all (x # xs) = (case normalize_todo_item x of
     Inl e \<Rightarrow> Inl e
   | Inr t \<Rightarrow> (case normalize_all xs of Inl e \<Rightarrow> Inl e | Inr ts \<Rightarrow> Inr (t # ts)))"

type_synonym todo_map = "(jsstring, todo_item) jsmap"

definition put_items :: "todo_map \<Rightarrow> todo_item list \<Rightarrow> todo_map" where
  "put_items m ts = foldl (\<lambda>m t. map_set (todo_id t) t m) m ts"

definition dedupe_by_id :: "todo_item list \<Rightarrow> todo_item list" where
  "dedupe_by_id ts = map_vals (put_items [] ts)"

text \<open>\<open>new Map(this.items.map(item => [item.id, item]))\<close> writes the items one by one.\<close>

definition todo_write :: "bool option \<Rightarrow> todo_input list \<Rightarrow> todo_item list \<Rightarrow> jsstring + todo_item list" where
  "todo_write merge input items = (case normalize_all input of
     Inl e \<Rightarrow> Inl e
   | Inr incoming \<Rightarrow>
       if merge = Some False then Inr (dedupe_by_id incoming)
       else Inr (map_vals (put_items (put_items [] items) incoming)))"

definition todo_clear :: "todo_item list \<Rightarrow> todo_item list" where
  "todo_clear items = []"

definition todo_restore :: "todo_input list \<Rightarrow> todo_item list \<Rightarrow> jsstring + todo_item list" where
  "todo_restore input items = (case normalize_all input of
     Inl e \<Rightarrow> Inl e | Inr ts \<Rightarrow> Inr (dedupe_by_id ts))"

definition todo_count :: "todo_status \<Rightarrow> todo_item list \<Rightarrow> nat" where
  "todo_count s items = length (filter (\<lambda>t. todo_status t = s) items)"

record todo_snapshot =
  snap_todos :: "todo_item list"
  snap_counts :: "todo_status \<Rightarrow> nat"

definition todo_snapshot_of :: "todo_item list \<Rightarrow> todo_snapshot" where
  "todo_snapshot_of items = \<lparr>snap_todos = items, snap_counts = (\<lambda>s. todo_count s items)\<rparr>"

definition format_for_prompt :: "todo_item list \<Rightarrow> jsstring" where
  "format_for_prompt items =
     (if items = [] then []
      else js_join [10] ([js ''Session todo list (update via TodoWrite; mark in_progress/completed as you work):'']
        @ map (\<lambda>t. status_mark (todo_status t) @ js '' '' @ todo_id t @ js '': '' @ todo_content t) items
        @ [js ''Progress: '' @ show_nat (todo_count Completed items) @ js ''/'' @ show_nat (length items)
           @ js '' completed, '' @ show_nat (todo_count InProgress items) @ js '' in progress, ''
           @ show_nat (todo_count Pending items) @ js '' pending.'']))"

section \<open>The tools\<close>

definition format_snapshot :: "jsstring \<Rightarrow> todo_item list \<Rightarrow> jsstring" where
  "format_snapshot title items =
     (if items = [] then js ''Todo list is empty.''
      else js_join [10] ([title]
        @ map (\<lambda>t. js ''- ('' @ status_name (todo_status t) @ js '') '' @ todo_id t @ js '': '' @ todo_content t) items
        @ [js ''Counts: pending='' @ show_nat (todo_count Pending items)
           @ js '', in_progress='' @ show_nat (todo_count InProgress items)
           @ js '', completed='' @ show_nat (todo_count Completed items)
           @ js '', cancelled='' @ show_nat (todo_count Cancelled items)]))"

record todo_result =
  res_content :: jsstring
  res_summary :: jsstring
  res_data :: "todo_item list"

definition todo_write_tool ::
    "bool option \<Rightarrow> todo_input list \<Rightarrow> todo_item list \<Rightarrow> jsstring + todo_item list \<times> todo_result"
where
  "todo_write_tool merge input items = (case todo_write merge input items of
     Inl e \<Rightarrow> Inl e
   | Inr items' \<Rightarrow>
       let active = (if 0 < todo_count InProgress items'
             then show_nat (todo_count InProgress items') @ js '' in progress''
             else show_nat (todo_count Pending items') @ js '' pending'')
       in Inr (items', \<lparr>res_content = format_snapshot (js ''Todo list updated:'') items',
            res_summary = js ''Todos: '' @ show_nat (length items') @ js '' items ('' @ active @ js '')'',
            res_data = items'\<rparr>))"

text \<open>The read tool replaces the title, which is the first line of the text and holds no item.\<close>

definition todo_read_tool :: "todo_item list \<Rightarrow> todo_result" where
  "todo_read_tool items =
     (if items = [] then \<lparr>res_content = js ''Todo list is empty.'', res_summary = js ''Todos: empty'', res_data = []\<rparr>
      else \<lparr>res_content = format_snapshot (js ''Current todo list:'') items,
        res_summary = js ''Todos: '' @ show_nat (length items) @ js '' items'', res_data = items\<rparr>)"

section \<open>Laws\<close>

definition todos_wf :: "todo_item list \<Rightarrow> bool" where
  [inv_defs]: "todos_wf ts \<longleftrightarrow> distinct (map todo_id ts)
     \<and> (\<forall>t \<in> set ts. todo_id t \<noteq> [] \<and> todo_content t \<noteq> []
          \<and> js_trim (todo_id t) = todo_id t \<and> js_trim (todo_content t) = todo_content t)"

definition keyed :: "todo_map \<Rightarrow> bool" where
  "keyed m \<longleftrightarrow> map_wf m \<and> (\<forall>(k, t) \<in> set m. todo_id t = k)"

lemma keyed_set: "keyed m \<Longrightarrow> keyed (map_set (todo_id t) t m)"
  unfolding keyed_def using set_map_set_subset[of "todo_id t" t m] by (auto dest!: subsetD)

lemma keyed_put: "keyed m \<Longrightarrow> keyed (put_items m ts)"
  unfolding put_items_def by (induction ts arbitrary: m) (auto intro: keyed_set)

lemma keyed_Nil [simp]: "keyed []"
  by (simp add: keyed_def)

lemma keyed_ids: "keyed m \<Longrightarrow> map todo_id (map_vals m) = map_keys m"
  by (auto simp: keyed_def)

lemma keyed_distinct: "keyed m \<Longrightarrow> distinct (map todo_id (map_vals m))"
  by (simp only: keyed_ids) (simp add: keyed_def map_wf_def)

lemma vals_set: "x \<in> set (map_vals (map_set k t m)) \<Longrightarrow> x = t \<or> x \<in> set (map_vals m)"
  using set_map_set_subset[of k t m] by auto

lemma vals_put_in: "x \<in> set (map_vals (put_items m ts)) \<Longrightarrow> x \<in> set (map_vals m) \<or> x \<in> set ts"
proof (induction ts arbitrary: m)
  case (Cons t ts)
  from Cons.prems have "x \<in> set (map_vals (put_items (map_set (todo_id t) t m) ts))" by (simp add: put_items_def)
  from Cons.IH[OF this] show ?case
  proof
    assume "x \<in> set (map_vals (map_set (todo_id t) t m))"
    from vals_set[OF this] show ?thesis by (rule disjE) (simp_all del: list.set_map)
  qed simp
qed (simp add: put_items_def)

lemma vals_put: "set (map_vals (put_items m ts)) \<subseteq> set (map_vals m) \<union> set ts"
  using vals_put_in by blast

lemma normalized:
  "normalize_todo_item x = Inr t \<Longrightarrow> todo_id t \<noteq> [] \<and> todo_content t \<noteq> []
     \<and> js_trim (todo_id t) = todo_id t \<and> js_trim (todo_content t) = todo_content t"
  by (auto simp: normalize_todo_item_def Let_def js_trim_idem split: if_splits option.splits)

lemma normalize_all_ok:
  "normalize_all xs = Inr ts \<Longrightarrow> \<forall>t \<in> set ts. todo_id t \<noteq> [] \<and> todo_content t \<noteq> []
     \<and> js_trim (todo_id t) = todo_id t \<and> js_trim (todo_content t) = todo_content t"
  by (induction xs arbitrary: ts) (auto split: sum.splits dest: normalized)

lemma put_wf:
  assumes "keyed m" "\<forall>t \<in> set (map_vals m) \<union> set ts. todo_id t \<noteq> [] \<and> todo_content t \<noteq> []
     \<and> js_trim (todo_id t) = todo_id t \<and> js_trim (todo_content t) = todo_content t"
  shows "todos_wf (map_vals (put_items m ts))"
  unfolding todos_wf_def
  using keyed_distinct[OF keyed_put[OF assms(1)]] assms(2) vals_put[of m ts] by blast

lemma dedupe_wf:
  "\<forall>t \<in> set ts. todo_id t \<noteq> [] \<and> todo_content t \<noteq> []
     \<and> js_trim (todo_id t) = todo_id t \<and> js_trim (todo_content t) = todo_content t \<Longrightarrow> todos_wf (dedupe_by_id ts)"
  unfolding dedupe_by_id_def by (rule put_wf) auto

lemma todo_write_wf: "todos_wf items \<Longrightarrow> todo_write mg input items = Inr items' \<Longrightarrow> todos_wf items'"
proof -
  assume wf: "todos_wf items" and w: "todo_write mg input items = Inr items'"
  then obtain inc where inc: "normalize_all input = Inr inc"
    by (auto simp: todo_write_def split: sum.splits)
  have 1: "todos_wf (dedupe_by_id inc)" by (rule dedupe_wf[OF normalize_all_ok[OF inc]])
  have "set (map_vals (put_items [] items)) \<subseteq> set items" using vals_put[of "[]" items] by simp
  then have 2: "todos_wf (map_vals (put_items (put_items [] items) inc))"
    using wf normalize_all_ok[OF inc] by (intro put_wf keyed_put keyed_Nil) (auto simp: todos_wf_def)
  show ?thesis using w inc 1 2 by (auto simp: todo_write_def split: if_splits)
qed

datatype todo_call = TodoWrite "bool option" "todo_input list" | TodoClear | TodoRestore "todo_input list"

fun todo_exec :: "todo_call \<Rightarrow> todo_item list \<Rightarrow> jsstring + todo_item list" where
  "todo_exec (TodoWrite mg i) items = todo_write mg i items"
| "todo_exec TodoClear items = Inr (todo_clear items)"
| "todo_exec (TodoRestore i) items = todo_restore i items"

interpretation todo: machine todo_exec todos_wf
proof (unfold_locales, goal_cases)
  case (1 s c s')
  then show ?case
    by (cases c) (auto simp: todo_clear_def todos_wf_def[of "[]"] todo_restore_def split: sum.splits
        intro: todo_write_wf dedupe_wf[OF normalize_all_ok])
qed

text \<open>What a merge leaves: the last incoming item of each id, and every other item as it was.\<close>

lemma put_items_lookup:
  "map_of (put_items m ts) k = (case find (\<lambda>t. todo_id t = k) (rev ts) of Some t \<Rightarrow> Some t | None \<Rightarrow> map_of m k)"
proof (induction ts rule: rev_induct)
  case (snoc t ts)
  then show ?case by (auto simp: put_items_def)
qed (simp add: put_items_def)

definition todo_at :: "todo_item list \<Rightarrow> jsstring \<Rightarrow> todo_item option" where
  "todo_at items k = find (\<lambda>t. todo_id t = k) items"

lemma todo_at_vals: "keyed m \<Longrightarrow> todo_at (map_vals m) k = map_of m k"
proof (induction m)
  case (Cons p m)
  then have "keyed m" "todo_id (snd p) = fst p" by (auto simp: keyed_def map_wf_def split: prod.splits)
  with Cons show ?case by (cases p) (auto simp: todo_at_def)
qed (simp add: todo_at_def)

lemma find_append: "find P (xs @ ys) = (case find P xs of None \<Rightarrow> find P ys | Some x \<Rightarrow> Some x)"
  by (induction xs) auto

lemma find_distinct_rev: "distinct (map todo_id items) \<Longrightarrow> find (\<lambda>t. todo_id t = k) (rev items) = find (\<lambda>t. todo_id t = k) items"
proof (induction items)
  case (Cons t items)
  have "todo_id t = k \<Longrightarrow> find (\<lambda>t. todo_id t = k) items = None"
    using Cons.prems by (simp add: find_None_iff) (metis image_eqI)
  then show ?case using Cons by (auto simp: find_append split: option.splits)
qed simp

lemma todo_merge_lookup:
  assumes wf: "todos_wf items" and n: "normalize_all input = Inr inc" and m: "mg \<noteq> Some False"
    and w: "todo_write mg input items = Inr items'"
  shows "todo_at items' k = (case todo_at (rev inc) k of Some t \<Rightarrow> Some t | None \<Rightarrow> todo_at items k)"
proof -
  have i: "items' = map_vals (put_items (put_items [] items) inc)"
    using n m w by (simp add: todo_write_def)
  have d: "distinct (map todo_id items)" using wf by (simp add: todos_wf_def)
  have "todo_at items' k = map_of (put_items (put_items [] items) inc) k"
    unfolding i by (intro todo_at_vals keyed_put keyed_Nil)
  then show ?thesis
    by (simp add: put_items_lookup todo_at_def find_distinct_rev[OF d] split: option.split)
qed

lemma todo_merge_ids:
  assumes "todos_wf items" "normalize_all input = Inr inc" "mg \<noteq> Some False"
    "todo_write mg input items = Inr items'"
  shows "set (map todo_id items') = set (map todo_id items) \<union> set (map todo_id inc)
    \<and> take (length items) (map todo_id items') = map todo_id items"
proof -
  have i: "items' = map_vals (put_items (put_items [] items) inc)"
    using assms by (simp add: todo_write_def)
  have keys: "map todo_id items' = map_keys (put_items (put_items [] items) inc)"
    unfolding i by (intro keyed_ids keyed_put keyed_Nil)
  have init: "map_keys (put_items [] items) = map todo_id items"
  proof -
    have "map_keys (put_items m ts) = map_keys m @ map todo_id ts"
      if "distinct (map_keys m @ map todo_id ts)" for m ts
      using that
    proof (induction ts arbitrary: m)
      case (Cons t ts)
      then show ?case using Cons.IH[of "map_set (todo_id t) t m"] by (simp add: put_items_def keys_map_set)
    qed (simp add: put_items_def)
    from this[of "[]" items] show ?thesis using assms(1) by (simp add: todos_wf_def)
  qed
  obtain r where r: "map_keys (put_items (put_items [] items) inc) = map_keys (put_items [] items) @ r"
    using jm.keys_puts_prefix[of todo_id "\<lambda>x. x" "put_items [] items" inc] by (auto simp: put_items_def)
  have "set (map_keys (put_items (put_items [] items) inc)) = set (map_keys (put_items [] items)) \<union> todo_id ` set inc"
    using jm.keys_puts_set[of todo_id "\<lambda>x. x" "put_items [] items" inc] by (simp add: put_items_def)
  then show ?thesis unfolding keys using r init by (metis append_eq_conv_conj length_map list.set_map)
qed

lemma todo_count_sum: "todo_count Pending ts + todo_count InProgress ts + todo_count Completed ts + todo_count Cancelled ts = length ts"
proof (induction ts)
  case (Cons t ts)
  then show ?case by (cases "todo_status t") (auto simp: todo_count_def)
qed (simp add: todo_count_def)

end
