(* ===== verification/Model_Session.thy ===== *)
theory Model_Session
  imports Agent_Run Telemetry
begin

text \<open>
  The controls of a live runtime: \<open>runtime/modelSession.ts\<close>, the counters of \<open>llm/modelContextWindows.ts\<close>, and what
  \<open>runtime/agentRuntime.ts\<close> offers besides runs: restoring a conversation or a saved context, and the usage of the
  context. The client is the one of \<open>Model_Calls\<close>, which has all optional methods of the interface.
\<close>

section \<open>Compact counts\<close>

text \<open>\<open>Math.round(n / 10^k * 10) / 10\<close> with one decimal; the quotient is taken exactly.\<close>

definition format_one_decimal :: "rat \<Rightarrow> jsstring" where
  "format_one_decimal n =
     (let t = \<lfloor>n * 10 + 1 / 2\<rfloor> in
      if t mod 10 = 0 then show_int (t div 10) else show_int (t div 10) @ js ''.'' @ show_int (t mod 10))"

definition format_compact_count :: "int \<Rightarrow> jsstring" where
  "format_compact_count v =
     (let n = max 0 v in
      if 1000000 \<le> n then format_one_decimal (of_int n / 1000000) @ js ''M''
      else if 1000 \<le> n then format_one_decimal (of_int n / 1000) @ js ''K''
      else show_int n)"

definition format_context_usage :: "int \<Rightarrow> int \<Rightarrow> jsstring" where
  "format_context_usage used mx = format_compact_count (max 0 used) @ js ''/'' @ format_compact_count (max 1 mx)"

section \<open>The runtime and its client\<close>

record runtime =
  rt_options :: runtime_options
  rt_state :: loop_state
  rt_client :: "model_state option"

definition on_session :: "(session \<Rightarrow> session) \<Rightarrow> runtime \<Rightarrow> runtime" where
  "on_session f rt = rt\<lparr>rt_state := (rt_state rt)\<lparr>ls_session := f (ls_session (rt_state rt))\<rparr>\<rparr>"

definition get_model_label :: "runtime \<Rightarrow> jsstring" where
  "get_model_label rt = (case rt_client rt of
     Some c \<Rightarrow> format_model_effort_label (Some (ms_model c)) (ms_effort c)
   | None \<Rightarrow> format_model_effort_label None DEFAULT_THINKING_EFFORT)"

definition get_thinking_effort :: "runtime \<Rightarrow> thinking_effort" where
  "get_thinking_effort rt = (case rt_client rt of Some c \<Rightarrow> ms_effort c | None \<Rightarrow> DEFAULT_THINKING_EFFORT)"

definition get_llm_capabilities :: "client_env \<Rightarrow> runtime \<Rightarrow> llm_capabilities option" where
  "get_llm_capabilities env rt = map_option (client_capabilities env) (rt_client rt)"

definition set_thinking_effort :: "client_env \<Rightarrow> thinking_effort \<Rightarrow> runtime \<Rightarrow> thrown option \<times> runtime" where
  "set_thinking_effort env e rt = (case rt_client rt of
     None \<Rightarrow> (Some (plain_error (js ''Error'') (([0x5F53, 0x524D] @ js '' LLM '' @ [0x5BA2, 0x6237, 0x7AEF, 0x4E0D, 0x652F, 0x6301, 0x5207, 0x6362, 0x601D, 0x8003, 0x5F3A, 0x5EA6]))), rt)
   | Some c \<Rightarrow>
       if e \<noteq> EffortOff \<and> \<not> cap_thinking (client_capabilities env c)
       then (Some (plain_error (js ''Error'') (([0x5F53, 0x524D, 0x6A21, 0x578B, 0x4E0D, 0x652F, 0x6301, 0x601D, 0x8003, 0x5F3A, 0x5EA6]))), rt)
       else (None, rt\<lparr>rt_client := Some (client_set_effort e c)\<rparr>))"

text \<open>The next effort, when it could be set.\<close>

definition cycle_effort :: "client_env \<Rightarrow> runtime \<Rightarrow> (thrown + thinking_effort) \<times> runtime" where
  "cycle_effort env rt =
     (let nxt = cycle_thinking_effort (get_thinking_effort rt) in
      case set_thinking_effort env nxt rt of (Some e, rt1) \<Rightarrow> (Inl e, rt1) | (None, rt1) \<Rightarrow> (Inr nxt, rt1))"

text \<open>What the session reads of a client; \<open>onClientChange\<close> passes it to the tool loop and the session.\<close>

definition session_client :: "model_state \<Rightarrow> model_client" where
  "session_client c = \<lparr>mc_label = ms_model c, mc_window = Some (pi_window (ms_pi c))\<rparr>"

definition client_changed :: "model_state option \<Rightarrow> runtime \<Rightarrow> runtime" where
  "client_changed c rt = on_session (set_llm_client (map_option session_client c))
     (rt\<lparr>rt_options := (rt_options rt)\<lparr>ro_model := (c \<noteq> None)\<rparr>, rt_client := c\<rparr>)"

definition runtime_set_client :: "model_state option \<Rightarrow> runtime \<Rightarrow> runtime" where
  "runtime_set_client c rt = client_changed c rt"

text \<open>The client changes in place, also when it throws.\<close>

definition runtime_set_model :: "client_env \<Rightarrow> jsstring \<Rightarrow> runtime \<Rightarrow> thrown option \<times> runtime" where
  "runtime_set_model env m rt = (case rt_client rt of
     None \<Rightarrow> (Some (plain_error (js ''Error'') (([0x5F53, 0x524D] @ js '' LLM '' @ [0x5BA2, 0x6237, 0x7AEF, 0x4E0D, 0x652F, 0x6301, 0x5207, 0x6362, 0x6A21, 0x578B]))), rt)
   | Some c \<Rightarrow> (case client_set_model env m c of
       (Inl e, c1) \<Rightarrow> (Some e, rt\<lparr>rt_client := Some c1\<rparr>)
     | (Inr _, c1) \<Rightarrow> (None, client_changed (Some c1) rt)))"

section \<open>Restoring\<close>

definition runtime_restore_conversation :: "history_turn list \<Rightarrow> runtime \<Rightarrow> maintenance \<times> runtime" where
  "runtime_restore_conversation ms rt =
     (case restore_conversation ms (ls_session (rt_state rt)) of
        (m, s) \<Rightarrow> (m, on_session (\<lambda>_. session_reset_calibration s) (rt\<lparr>rt_client := map_option clear_last_usage (rt_client rt)\<rparr>)))"

definition runtime_restore_context :: "bool \<Rightarrow> session_state \<Rightarrow> runtime \<Rightarrow> bool \<times> runtime" where
  "runtime_restore_context keep saved rt =
     (case restore_session keep saved (session_reset_calibration (ls_session (rt_state rt))) of
        (ok, s) \<Rightarrow> (ok, on_session (\<lambda>_. s) (rt\<lparr>rt_client := map_option clear_last_usage (rt_client rt)\<rparr>)))"

section \<open>Usage of the context\<close>

record context_usage =
  cu_chars :: nat
  cu_tokens :: nat
  cu_max :: int
  cu_threshold :: int
  cu_last :: "int option"
  cu_label :: jsstring
  cu_ratio :: rat
  cu_header :: jsstring
  cu_header_ratio :: rat
  cu_window :: int

definition usage_of_snapshot :: "snapshot \<Rightarrow> int \<Rightarrow> model_state option \<Rightarrow> context_usage" where
  "usage_of_snapshot sn window c =
     \<lparr>cu_chars = rp_chars (sn_report sn), cu_tokens = sn_tokens sn, cu_max = sn_budget sn, cu_threshold = sn_threshold sn,
      cu_last = (case c of Some x \<Rightarrow> (case ms_usage x of Some u \<Rightarrow> lu_input u | None \<Rightarrow> None) | None \<Rightarrow> None),
      cu_label = format_context_usage (int (sn_tokens sn)) (sn_budget sn),
      cu_ratio = of_nat (sn_tokens sn) / of_int (max 1 (sn_threshold sn)),
      cu_header = format_context_usage (int (sn_tokens sn)) window,
      cu_header_ratio = of_nat (sn_tokens sn) / of_int (max 1 window), cu_window = window\<rparr>"

text \<open>Reading the usage synchronises the sources of the session first.\<close>

definition get_context_usage :: "runtime \<Rightarrow> context_usage \<times> runtime" where
  "get_context_usage rt =
     (let tools = list_visible_tools (rt_options rt);
          rt1 = on_session (sync_context_sources (rt_options rt)) rt;
          s = ls_session (rt_state rt1)
      in (usage_of_snapshot (take_snapshot (build_context_input (rt_options rt) tools) s) (context_window (ss_policy s)) (rt_client rt), rt1))"

section \<open>The controls together\<close>

datatype runtime_call = SetEffort thinking_effort | CycleEffort | BindClient "model_state option" | BindModel jsstring
  | RestoreTurns "history_turn list" | ReadUsage

fun runtime_exec :: "client_env \<Rightarrow> runtime_call \<Rightarrow> runtime \<Rightarrow> runtime" where
  "runtime_exec env (SetEffort e) rt = snd (set_thinking_effort env e rt)"
| "runtime_exec env CycleEffort rt = snd (cycle_effort env rt)"
| "runtime_exec env (BindClient c) rt = runtime_set_client c rt"
| "runtime_exec env (BindModel m) rt = snd (runtime_set_model env m rt)"
| "runtime_exec env (RestoreTurns ms) rt = snd (runtime_restore_conversation ms rt)"
| "runtime_exec env ReadUsage rt = snd (get_context_usage rt)"

end
