(* ===== verification/Model_Session_Laws.thy ===== *)
theory Model_Session_Laws
  imports Model_Session Session_Laws
begin

text \<open>
  Laws of the controls of a runtime: they keep the session's invariant, a restored conversation has no open turn and
  counts with the plain estimate, and the usage that is shown is that of the request that would be sent.
\<close>

lemma sources_ok: "session_ok s \<Longrightarrow> session_ok (add_source c s)" "session_ok s \<Longrightarrow> session_ok (remove_source i s)"
  by (rule sess.exec_inv[of s "AddSource c"], assumption, simp) (rule sess.exec_inv[of s "RemoveSource i"], assumption, simp)

lemma controls_ok:
  "session_ok s \<Longrightarrow> session_ok (set_llm_client c s)" "session_ok s \<Longrightarrow> session_ok (snd (restore_conversation ms s))"
  "session_ok s \<Longrightarrow> session_ok (session_reset_calibration s)"
  by (rule sess.exec_inv[of s "SetClient c"], assumption, simp) (rule sess.exec_inv[of s "RestoreMessages ms"], assumption, simp,
    rule sess.exec_inv[of s ResetUsage], assumption, simp)

lemma sync_ok: "session_ok s \<Longrightarrow> session_ok (sync_context_sources ro s)"
proof -
  have f: "session_ok s \<Longrightarrow> session_ok (fold add_source cs s)" for cs s
    by (induction cs arbitrary: s) (simp_all add: sources_ok)
  assume "session_ok s"
  then have "session_ok (sync_todo_context_source ro s)"
    by (simp add: sync_todo_context_source_def Let_def sources_ok split: option.split)
  then have "session_ok (sync_model_profiles_source ro (sync_todo_context_source ro s))"
    by (simp add: sync_model_profiles_source_def sources_ok)
  then show ?thesis by (simp add: sync_context_sources_def sync_tool_policy_source_def sources_ok f)
qed

definition runtime_ok :: "runtime \<Rightarrow> bool" where
  [inv_defs]: "runtime_ok rt \<longleftrightarrow> session_ok (ls_session (rt_state rt)) \<and> (rt_client rt \<noteq> None \<longleftrightarrow> ro_model (rt_options rt))"

lemma on_session_fields [simp]:
  "ls_session (rt_state (on_session f rt)) = f (ls_session (rt_state rt))" "rt_client (on_session f rt) = rt_client rt"
  "rt_options (on_session f rt) = rt_options rt"
  by (simp_all add: on_session_def)

lemma set_effort_ok: "runtime_ok rt \<Longrightarrow> runtime_ok (snd (set_thinking_effort env e rt))"
  by (auto simp: set_thinking_effort_def runtime_ok_def split: option.splits)

lemma client_changed_ok: "runtime_ok rt \<Longrightarrow> runtime_ok (client_changed c rt)"
  by (simp add: client_changed_def runtime_ok_def controls_ok)

lemma runtime_exec_ok: "runtime_ok rt \<Longrightarrow> runtime_ok (runtime_exec env c rt)"
proof (cases c)
  case CycleEffort
  assume "runtime_ok rt"
  then show ?thesis using CycleEffort set_effort_ok[of rt env "cycle_thinking_effort (get_thinking_effort rt)"]
    by (cases "set_thinking_effort env (cycle_thinking_effort (get_thinking_effort rt)) rt")
      (auto simp: cycle_effort_def Let_def split: option.splits)
next
  case (BindModel m)
  assume ok: "runtime_ok rt"
  show ?thesis
  proof (cases "rt_client rt")
    case None
    then show ?thesis using ok BindModel by (simp add: runtime_set_model_def)
  next
    case (Some x)
    obtain r c1 where s: "client_set_model env m x = (r, c1)" by fastforce
    show ?thesis using ok BindModel Some s client_changed_ok[OF ok]
      by (cases r) (auto simp: runtime_set_model_def runtime_ok_def)
  qed
next
  case (RestoreTurns ms)
  assume ok: "runtime_ok rt"
  obtain m s where r: "restore_conversation ms (ls_session (rt_state rt)) = (m, s)" by fastforce
  have "session_ok (session_reset_calibration s)"
    using controls_ok(3)[OF controls_ok(2)[of "ls_session (rt_state rt)" ms]] ok r by (simp add: runtime_ok_def)
  then show ?thesis using ok RestoreTurns r by (auto simp: runtime_restore_conversation_def runtime_ok_def)
next
  case ReadUsage
  assume "runtime_ok rt"
  then show ?thesis using ReadUsage sync_ok by (simp add: get_context_usage_def Let_def runtime_ok_def)
qed (use set_effort_ok client_changed_ok in \<open>simp_all add: runtime_set_client_def\<close>)

lemma runtime_execs_ok: "runtime_ok rt \<Longrightarrow> runtime_ok (fold (runtime_exec env) cs rt)"
  by (induction cs arbitrary: rt) (simp_all add: runtime_exec_ok)

text \<open>An effort other than off is never set on a model that cannot think.\<close>

lemma effort_needs_thinking:
  assumes "set_thinking_effort env e rt = (None, rt')"
  shows "case rt_client rt' of Some c \<Rightarrow> ms_effort c = e \<and> (e = EffortOff \<or> cap_thinking (client_capabilities env c)) | None \<Rightarrow> False"
  using assms by (auto simp: set_thinking_effort_def client_set_effort_def client_capabilities_def split: option.splits if_splits)

text \<open>The step from thousands to millions: 999950 is shown as 1000K.\<close>

lemma compact_count_border: "format_compact_count 999950 = js ''1000K''" "format_compact_count 999949 = js ''999.9K''"
  by code_simp+

end
