(* ===== verification/Workspace_Fs.thy ===== *)
theory Workspace_Fs
  imports Prelude Errors "HOL-Library.Sublist" "HOL-Library.List_Lexorder"
begin

text \<open>
  The file tree below a workspace, and the calls of \<open>node:fs\<close> the mutation service makes on it.
  A path is the list of its segments, relative to the workspace; the workspace itself is \<open>[]\<close>.
  The tree maps paths to files with their content, directories, and symbolic links with their
  target. Paths that lead through a link are not part of the tree: an operation on such a path
  fails here, as it does on a path below a file.
\<close>

type_synonym path = "jsstring list"

datatype node = FileN jsstring | DirN | LinkN jsstring

type_synonym fs = "(path, node) jsmap"

definition fs_error :: "string \<Rightarrow> thrown" where
  "fs_error code = (plain_error (js ''Error'') (js code))\<lparr>err_code := Some (js code)\<rparr>"

section \<open>Reading\<close>

text \<open>\<open>existsSync\<close> follows a link: what its target leads to is the argument \<open>live\<close>.\<close>

definition exists_sync :: "(path \<Rightarrow> jsstring \<Rightarrow> bool) \<Rightarrow> fs \<Rightarrow> path \<Rightarrow> bool" where
  "exists_sync live fs p =
     (case map_of fs p of None \<Rightarrow> False | Some (LinkN t) \<Rightarrow> live p t | Some _ \<Rightarrow> True)"

text \<open>\<open>readdirSync(p).sort()\<close>: the names in a directory by code units.\<close>

definition readdir_sorted :: "fs \<Rightarrow> path \<Rightarrow> jsstring list" where
  "readdir_sorted fs p = sort (uniq (map last (filter (\<lambda>q. q \<noteq> [] \<and> butlast q = p) (map_keys fs))))"

definition max_depth :: "fs \<Rightarrow> nat" where
  "max_depth fs = foldr max (map length (map_keys fs)) 0"

lemma depth_bound: "q \<in> set (map_keys fs) \<Longrightarrow> length q \<le> max_depth fs"
  by (induction fs) (auto simp: max_depth_def le_max_iff_disj)

lemma readdir_keys: "c \<in> set (readdir_sorted fs p) \<longleftrightarrow> p @ [c] \<in> set (map_keys fs)"
proof
  assume "c \<in> set (readdir_sorted fs p)"
  then obtain q where "q \<in> set (map_keys fs)" "q \<noteq> []" "butlast q = p" "c = last q"
    by (auto simp: readdir_sorted_def)
  then show "p @ [c] \<in> set (map_keys fs)" by (metis append_butlast_last_id)
next
  assume a: "p @ [c] \<in> set (map_keys fs)"
  have "c = last (p @ [c])" "p @ [c] \<noteq> []" "butlast (p @ [c]) = p" by simp_all
  with a show "c \<in> set (readdir_sorted fs p)"
    unfolding readdir_sorted_def set_sort set_uniq set_map set_filter by blast
qed

lemma readdir_order: "sorted (readdir_sorted fs p)" "distinct (readdir_sorted fs p)"
  by (simp_all add: readdir_sorted_def)

text \<open>The walk of \<open>captureEntry\<close>: an entry, and below a directory its children in order.\<close>

function walk :: "fs \<Rightarrow> path \<Rightarrow> (path \<times> node) list" where
  "walk fs p =
     (case map_of fs p of
        None \<Rightarrow> []
      | Some n \<Rightarrow> (p, n) # (if n = DirN then concat (map (\<lambda>c. walk fs (p @ [c])) (readdir_sorted fs p)) else []))"
  by pat_completeness auto
termination
proof (relation "measure (\<lambda>(fs, p). Suc (max_depth fs) - length p)", goal_cases)
  case (2 fs p n c)
  then have "p @ [c] \<in> set (map_keys fs)" by (simp add: readdir_keys)
  then have "length (p @ [c]) \<le> max_depth fs" by (rule depth_bound)
  then show ?case by simp
qed simp

declare walk.simps [simp del]

section \<open>Writing\<close>

definition rm_rf :: "path \<Rightarrow> fs \<Rightarrow> fs" where
  "rm_rf p fs = filter (\<lambda>(q, n). \<not> prefix p q) fs"

text \<open>\<open>mkdirSync(p, { recursive: true })\<close>: every missing directory on the way, from the top.\<close>

definition mkdir1 :: "path \<Rightarrow> fs \<Rightarrow> thrown + fs" where
  "mkdir1 p fs =
     (case map_of fs p of
        None \<Rightarrow> Inr (map_set p DirN fs)
      | Some DirN \<Rightarrow> Inr fs
      | Some _ \<Rightarrow> Inl (fs_error ''EEXIST''))"

definition mkdir_p :: "path \<Rightarrow> fs \<Rightarrow> thrown + fs" where
  "mkdir_p p fs = run_calls mkdir1 (prefixes p) fs"

text \<open>\<open>writeFileSync\<close> and \<open>symlinkSync\<close>: the directory must be there.\<close>

definition parent_ok :: "path \<Rightarrow> fs \<Rightarrow> bool" where
  "parent_ok p fs \<longleftrightarrow> p \<noteq> [] \<and> map_of fs (butlast p) = Some DirN"

definition write_file :: "path \<Rightarrow> jsstring \<Rightarrow> fs \<Rightarrow> thrown + fs" where
  "write_file p c fs =
     (if \<not> parent_ok p fs then Inl (fs_error ''ENOENT'')
      else case map_of fs p of
        Some DirN \<Rightarrow> Inl (fs_error ''EISDIR'')
      | Some (LinkN t) \<Rightarrow> Inl (fs_error ''ENOENT'')
      | _ \<Rightarrow> Inr (map_set p (FileN c) fs))"

definition symlink :: "jsstring \<Rightarrow> path \<Rightarrow> fs \<Rightarrow> thrown + fs" where
  "symlink t p fs =
     (if \<not> parent_ok p fs then Inl (fs_error ''ENOENT'')
      else if map_of fs p \<noteq> None then Inl (fs_error ''EEXIST'')
      else Inr (map_set p (LinkN t) fs))"

text \<open>\<open>rm(path, { recursive })\<close> without \<open>force\<close>, and \<open>rename\<close>, which replaces a file at the
  target, or an empty directory if a directory is moved.\<close>

definition rm_strict :: "path \<Rightarrow> bool \<Rightarrow> fs \<Rightarrow> thrown + fs" where
  "rm_strict p recursive fs =
     (case map_of fs p of
        None \<Rightarrow> Inl (fs_error ''ENOENT'')
      | Some DirN \<Rightarrow> if recursive then Inr (rm_rf p fs) else Inl (fs_error ''ERR_FS_EISDIR'')
      | Some _ \<Rightarrow> Inr (rm_rf p fs))"

definition move_path :: "path \<Rightarrow> path \<Rightarrow> path \<Rightarrow> path" where
  "move_path p q r = q @ drop (length p) r"

definition rename_path :: "path \<Rightarrow> path \<Rightarrow> fs \<Rightarrow> thrown + fs" where
  "rename_path p q fs =
     (case map_of fs p of
        None \<Rightarrow> Inl (fs_error ''ENOENT'')
      | Some n \<Rightarrow>
          if \<not> parent_ok q fs then Inl (fs_error ''ENOENT'')
          else if p = q then Inr fs
          else if prefix p q then Inl (fs_error ''EINVAL'')
          else
            let moved = map (\<lambda>(r, m). (move_path p q r, m)) (filter (\<lambda>(r, m). prefix p r) fs);
                target = map_of fs q;
                below = (\<exists>r\<in>set (map_keys fs). strict_prefix q r) in
            if target = Some DirN \<and> n \<noteq> DirN then Inl (fs_error ''EISDIR'')
            else if target \<noteq> None \<and> target \<noteq> Some DirN \<and> n = DirN then Inl (fs_error ''ENOTDIR'')
            else if target = Some DirN \<and> below then Inl (fs_error ''ENOTEMPTY'')
            else Inr (rm_rf q (rm_rf p fs) @ moved))"

section \<open>Well-formed trees\<close>

definition fs_wf :: "fs \<Rightarrow> bool" where
  [inv_defs]: "fs_wf fs \<longleftrightarrow> map_wf fs \<and> (\<forall>p q. map_of fs p \<noteq> None \<longrightarrow> strict_prefix q p \<longrightarrow> map_of fs q = Some DirN)"

lemma map_of_rm_rf: "map_of (rm_rf p fs) q = (if prefix p q then None else map_of fs q)"
  by (induction fs) (auto simp: rm_rf_def)

lemma rm_rf_wf: "map_wf fs \<Longrightarrow> map_wf (rm_rf p fs)"
  by (auto simp: map_wf_def rm_rf_def distinct_map_filter)

lemma keys_iff: "q \<in> set (map_keys fs) \<longleftrightarrow> map_of fs q \<noteq> None"
  by (auto simp: dom_map_of_conv_image_fst[symmetric])

subsection \<open>The walk visits exactly the subtree\<close>

lemma walk_sound: "(q, n) \<in> set (walk fs p) \<Longrightarrow> prefix p q \<and> map_of fs q = Some n"
proof (induction fs p rule: walk.induct)
  case (1 fs p)
  show ?case
  proof (cases "map_of fs p")
    case None
    then show ?thesis using 1(2) by (simp add: walk.simps)
  next
    case (Some m)
    then have "(q, n) = (p, m) \<or> m = DirN \<and> (\<exists>c\<in>set (readdir_sorted fs p). (q, n) \<in> set (walk fs (p @ [c])))"
      using 1(2) by (subst (asm) walk.simps) (auto split: if_splits)
    then show ?thesis
    proof
      assume "m = DirN \<and> (\<exists>c\<in>set (readdir_sorted fs p). (q, n) \<in> set (walk fs (p @ [c])))"
      then obtain c where "m = DirN" "c \<in> set (readdir_sorted fs p)" "(q, n) \<in> set (walk fs (p @ [c]))" by blast
      then have "prefix (p @ [c]) q \<and> map_of fs q = Some n" using 1(1) Some by blast
      then show ?thesis by (meson append_prefixD)
    qed (use Some in auto)
  qed
qed

lemma walk_complete:
  assumes wf: "fs_wf fs" and q: "map_of fs q = Some n" and p: "prefix p q"
  shows "(q, n) \<in> set (walk fs p)"
  using p
proof (induction "length q - length p" arbitrary: p)
  case 0
  then have "p = q" by (auto simp: prefix_def)
  then show ?case using q by (subst walk.simps) simp
next
  case (Suc k)
  then obtain c r where r: "q = p @ c # r" by (cases "drop (length p) q") (auto simp: prefix_def)
  have "map_of fs p = Some DirN" using wf q r by (auto simp: fs_wf_def strict_prefix_def)
  moreover have "p @ [c] \<in> set (map_keys fs)"
  proof (cases "r = []")
    case True
    then show ?thesis using q r by (simp only: keys_iff) simp
  next
    case False
    then have "map_of fs (p @ [c]) = Some DirN" using wf q r by (auto simp: fs_wf_def strict_prefix_def)
    then show ?thesis by (simp only: keys_iff) simp
  qed
  moreover have mem: "(q, n) \<in> set (walk fs (p @ [c]))" using Suc(1)[of "p @ [c]"] Suc(2) r by simp
  ultimately have "map_of fs p = Some DirN" "c \<in> set (readdir_sorted fs p)"
    by (simp_all only: readdir_keys)
  with mem show ?case by (subst walk.simps) auto
qed

lemma walk_iff: "fs_wf fs \<Longrightarrow> (q, n) \<in> set (walk fs p) \<longleftrightarrow> prefix p q \<and> map_of fs q = Some n"
  using walk_sound walk_complete by blast


lemma walk_distinct: "distinct (map_keys (walk fs p))"
proof (induction fs p rule: walk.induct)
  case (1 fs p)
  show ?case
  proof (cases "map_of fs p = Some DirN")
    case True
    let ?cs = "readdir_sorted fs p"
    have sub: "q \<in> set (map_keys (walk fs (p @ [c]))) \<Longrightarrow> prefix (p @ [c]) q" for q c
      using walk_sound[of q _ fs "p @ [c]"] by auto
    have "p \<notin> set (map_keys (walk fs (p @ [c])))" for c using sub[of p c] by (auto simp: prefix_def)
    moreover have "distinct (concat (map (\<lambda>c. map_keys (walk fs (p @ [c]))) ?cs))"
      if "distinct cs" "set cs \<subseteq> set ?cs" "cs = ?cs" for cs
      unfolding distinct_concat_iff
    proof (intro conjI ballI allI impI)
      show "distinct (removeAll [] (map (\<lambda>c. map_keys (walk fs (p @ [c]))) ?cs))"
      proof -
        have "distinct (map (\<lambda>c. map_keys (walk fs (p @ [c]))) (filter (\<lambda>c. walk fs (p @ [c]) \<noteq> []) ?cs))"
        proof (intro iffD2[OF distinct_map] conjI inj_onI)
          show "distinct (filter (\<lambda>c. walk fs (p @ [c]) \<noteq> []) ?cs)" by (simp add: readdir_order)
          fix c d
          assume c: "c \<in> set (filter (\<lambda>c. walk fs (p @ [c]) \<noteq> []) ?cs)"
            and e: "map_keys (walk fs (p @ [c])) = map_keys (walk fs (p @ [d]))"
          then obtain q where "q \<in> set (map_keys (walk fs (p @ [c])))" by (cases "walk fs (p @ [c])") auto
          then have "q \<in> set (map_keys (walk fs (p @ [c])))" "q \<in> set (map_keys (walk fs (p @ [d])))"
            using e by simp_all
          then have "prefix (p @ [c]) q" "prefix (p @ [d]) q" using sub by blast+
          then show "c = d" by (auto simp: prefix_def)
        qed
        moreover have "removeAll [] (map f xs) = map f (filter (\<lambda>c. f c \<noteq> []) xs)" for f :: "jsstring \<Rightarrow> path list" and xs
          by (induction xs) auto
        ultimately show ?thesis by simp
      qed
    next
      fix ys assume "ys \<in> set (map (\<lambda>c. map_keys (walk fs (p @ [c]))) ?cs)"
      then show "distinct ys" using 1[OF True] by auto
    next
      fix ys zs
      assume "ys \<in> set (map (\<lambda>c. map_keys (walk fs (p @ [c]))) ?cs) \<and> zs \<in> set (map (\<lambda>c. map_keys (walk fs (p @ [c]))) ?cs) \<and> ys \<noteq> zs"
      then obtain c d where "ys = map_keys (walk fs (p @ [c]))" "zs = map_keys (walk fs (p @ [d]))" "c \<noteq> d" by auto
      moreover have "q \<notin> set (map_keys (walk fs (p @ [d])))" if "q \<in> set (map_keys (walk fs (p @ [c])))" "c \<noteq> d" for q c d
        using sub[of q c] sub[of q d] that by (auto simp: prefix_def simp del: set_map)
      ultimately show "set ys \<inter> set zs = {}" by blast
    qed
    ultimately show ?thesis
      using True readdir_order[of fs p] by (subst walk.simps) (auto simp: map_concat o_def)
  next
    case False
    then show ?thesis by (subst walk.simps) (auto split: option.splits)
  qed
qed

section \<open>Laws of the writing calls\<close>

lemma mkdir_p_ok:
  assumes "\<And>r. prefix r q \<Longrightarrow> map_of u r = None \<or> map_of u r = Some DirN"
  shows "\<exists>u'. mkdir_p q u = Inr u' \<and> map_of u' = (\<lambda>r. if prefix r q then Some DirN else map_of u r)
    \<and> (map_wf u \<longrightarrow> map_wf u')"
proof -
  have "\<exists>u'. run_calls mkdir1 rs u = Inr u' \<and> map_of u' = (\<lambda>r. if r \<in> set rs then Some DirN else map_of u r)
      \<and> (map_wf u \<longrightarrow> map_wf u')"
    if "\<And>r. r \<in> set rs \<Longrightarrow> map_of u r = None \<or> map_of u r = Some DirN" for rs
    using that
  proof (induction rs arbitrary: u)
    case (Cons r rs)
    obtain u1 where u1: "mkdir1 r u = Inr u1" "map_of u1 = (map_of u)(r \<mapsto> DirN)" "map_wf u \<longrightarrow> map_wf u1"
    proof (cases "map_of u r")
      case None
      with that show ?thesis by (simp add: mkdir1_def)
    next
      case (Some n)
      then have d: "map_of u r = Some DirN" using Cons(2)[of r] by simp
      then have "map_of u = (map_of u)(r \<mapsto> DirN)" by (simp add: fun_upd_idem)
      with d that[of u] show ?thesis by (simp add: mkdir1_def)
    qed
    have "map_of u1 ra = None \<or> map_of u1 ra = Some DirN" if "ra \<in> set rs" for ra
      using Cons(2)[of ra] that u1(2) by (cases "ra = r") auto
    then obtain u' where "run_calls mkdir1 rs u1 = Inr u'" "map_of u' = (\<lambda>r. if r \<in> set rs then Some DirN else map_of u1 r)"
        "map_wf u1 \<longrightarrow> map_wf u'"
      using Cons(1)[of u1] by blast
    then show ?case using u1 by auto
  qed auto
  from this[of "prefixes q"] assms show ?thesis by (simp add: mkdir_p_def)
qed

end
