(* ===== verification/Journal.thy ===== *)
theory Journal
  imports Workspace_Fs
begin

text \<open>
  The mutation journal (\<open>worker/core/src/mutations/mutationJournal.ts\<close>): an append-only file of
  events, one JSON text per line, and the three collections a process keeps of it. Loading the
  file replays the events; the operations append an event and apply it.

  A line of the file is an event, an event of a version the code does not read, or text that is
  not an event. A process that stops in the middle of an append leaves a line without its end:
  the tail, which the next append continues. Times are numbers of milliseconds.
\<close>

section \<open>Records and events\<close>

datatype mutation_tool = MWrite | MEdit | MDelete | MMove

datatype entry_kind = KFile | KDirectory | KSymlink

record entry_snapshot =
  en_path :: path
  en_kind :: entry_kind
  en_hash :: jsstring
  en_ref :: "jsstring option"
  en_link :: "jsstring option"

record root_snapshot =
  rs_path :: path
  rs_hash :: jsstring
  rs_entries :: "entry_snapshot list"

record prepared_mutation =
  pm_id :: jsstring
  pm_run :: jsstring
  pm_tool :: mutation_tool
  pm_root :: jsstring
  pm_created :: nat
  pm_pre :: "root_snapshot list"

record mutation_record = prepared_mutation +
  mr_post :: "root_snapshot list"

datatype mutation_event =
    EvPrepared prepared_mutation
  | EvCommitted jsstring "root_snapshot list"
  | EvRolledBack jsstring jsstring
  | EvUndone jsstring nat

datatype journal_line = GoodLine mutation_event | OldVersion | BadLine

record journal =
  j_root :: jsstring
  j_lines :: "journal_line list"
  j_tail :: "journal_line option"    \<comment> \<open>text after the last line end, if any, as it reads\<close>
  j_prepared :: "(jsstring, prepared_mutation) jsmap"
  j_committed :: "(jsstring, mutation_record) jsmap"
  j_inactive :: "jsstring list"

definition with_post :: "prepared_mutation \<Rightarrow> root_snapshot list \<Rightarrow> mutation_record" where
  "with_post p post = prepared_mutation.extend p (mutation_record.fields post)"

section \<open>Loading\<close>

definition load_event :: "mutation_event \<Rightarrow> journal \<Rightarrow> journal" where
  "load_event ev j =
     (case ev of
        EvPrepared m \<Rightarrow> j\<lparr>j_prepared := map_set (pm_id m) m (j_prepared j)\<rparr>
      | EvCommitted i post \<Rightarrow>
          (case map_of (j_prepared j) i of
             None \<Rightarrow> j
           | Some p \<Rightarrow> j\<lparr>j_committed := map_set i (with_post p post) (j_committed j),
                        j_prepared := map_del i (j_prepared j)\<rparr>)
      | EvRolledBack i reason \<Rightarrow>
          j\<lparr>j_prepared := map_del i (j_prepared j), j_inactive := List.insert i (j_inactive j)\<rparr>
      | EvUndone i t \<Rightarrow> j\<lparr>j_inactive := List.insert i (j_inactive j)\<rparr>)"

definition unsupported_version :: thrown where
  "unsupported_version = plain_error (js ''UnsupportedDataVersionError'')
     (js ''Mutation journal event '' @ ([0x4F7F, 0x7528, 0x4E0D, 0x53D7, 0x652F, 0x6301, 0x7684, 0x6570, 0x636E, 0x7248, 0x672C]))"

fun load_line :: "journal_line \<Rightarrow> journal \<Rightarrow> thrown + journal" where
  "load_line (GoodLine ev) j = Inr (load_event ev j)"
| "load_line OldVersion j = Inl unsupported_version"
| "load_line BadLine j = Inr j"

definition empty_journal :: "jsstring \<Rightarrow> journal_line list \<Rightarrow> journal_line option \<Rightarrow> journal" where
  "empty_journal wsroot ls tail = \<lparr>j_root = wsroot, j_lines = ls, j_tail = tail,
     j_prepared = [], j_committed = [], j_inactive = []\<rparr>"

definition load :: "jsstring \<Rightarrow> journal_line list \<Rightarrow> journal_line option \<Rightarrow> thrown + journal" where
  "load wsroot ls tail =
     run_calls load_line (ls @ (case tail of None \<Rightarrow> [] | Some l \<Rightarrow> [l])) (empty_journal wsroot ls tail)"

section \<open>Operations\<close>

text \<open>The line appended after an unfinished one makes one line that is not an event.\<close>

definition append_event :: "mutation_event \<Rightarrow> journal \<Rightarrow> journal" where
  "append_event ev j =
     (case j_tail j of
        None \<Rightarrow> j\<lparr>j_lines := j_lines j @ [GoodLine ev]\<rparr>
      | Some _ \<Rightarrow> j\<lparr>j_lines := j_lines j @ [BadLine], j_tail := None\<rparr>)"

definition create_prepared ::
  "journal \<Rightarrow> jsstring \<Rightarrow> nat \<Rightarrow> jsstring \<Rightarrow> mutation_tool \<Rightarrow> root_snapshot list \<Rightarrow> prepared_mutation" where
  "create_prepared j fresh now run tool pre =
     \<lparr>pm_id = fresh, pm_run = run, pm_tool = tool, pm_root = j_root j, pm_created = now, pm_pre = pre\<rparr>"

definition append_prepared :: "prepared_mutation \<Rightarrow> journal \<Rightarrow> journal" where
  "append_prepared m j =
     (let j' = append_event (EvPrepared m) j in j'\<lparr>j_prepared := map_set (pm_id m) m (j_prepared j')\<rparr>)"

definition append_committed :: "jsstring \<Rightarrow> root_snapshot list \<Rightarrow> journal \<Rightarrow> thrown + journal" where
  "append_committed i post j =
     (case map_of (j_prepared j) i of
        None \<Rightarrow> Inl (plain_error (js ''Error'') (js ''Unknown prepared mutation: '' @ i))
      | Some p \<Rightarrow>
          let j' = append_event (EvCommitted i post) j in
          Inr (j'\<lparr>j_committed := map_set i (with_post p post) (j_committed j'),
                 j_prepared := map_del i (j_prepared j')\<rparr>))"

definition append_rolled_back :: "jsstring \<Rightarrow> jsstring \<Rightarrow> journal \<Rightarrow> journal" where
  "append_rolled_back i reason j =
     (let j' = append_event (EvRolledBack i reason) j in
      j'\<lparr>j_prepared := map_del i (j_prepared j'), j_inactive := List.insert i (j_inactive j')\<rparr>)"

definition append_undone :: "jsstring \<Rightarrow> nat \<Rightarrow> journal \<Rightarrow> journal" where
  "append_undone i now j =
     (let j' = append_event (EvUndone i now) j in j'\<lparr>j_inactive := List.insert i (j_inactive j')\<rparr>)"

definition list_active :: "journal \<Rightarrow> mutation_record list" where
  "list_active j =
     sort_key pm_created (filter (\<lambda>m. pm_id m \<notin> set (j_inactive j)) (map_vals (j_committed j)))"

definition list_incomplete :: "journal \<Rightarrow> prepared_mutation list" where
  "list_incomplete j = map_vals (j_prepared j)"

section \<open>The journal as a machine\<close>

datatype journal_call =
    JPrepare prepared_mutation
  | JCommit jsstring "root_snapshot list"
  | JRollBack jsstring jsstring
  | JUndo jsstring nat

fun journal_exec :: "journal_call \<Rightarrow> journal \<Rightarrow> thrown + journal" where
  "journal_exec (JPrepare m) j = Inr (append_prepared m j)"
| "journal_exec (JCommit i post) j = append_committed i post j"
| "journal_exec (JRollBack i r) j = Inr (append_rolled_back i r j)"
| "journal_exec (JUndo i t) j = Inr (append_undone i t j)"

text \<open>What a process that starts now would know: the journal replayed from its own file.\<close>

definition in_step :: "journal \<Rightarrow> bool" where
  "in_step j \<longleftrightarrow> j_tail j = None \<and> load (j_root j) (j_lines j) None = Inr j"

lemma load_event_file [simp]:
  "j_root (load_event ev j) = j_root j" "j_lines (load_event ev j) = j_lines j" "j_tail (load_event ev j) = j_tail j"
  by (simp_all add: load_event_def split: mutation_event.splits option.splits)

lemma load_event_lines: "load_event ev (j\<lparr>j_lines := ls\<rparr>) = (load_event ev j)\<lparr>j_lines := ls\<rparr>"
  by (simp add: load_event_def split: mutation_event.splits option.splits)

lemma load_lines:
  "run_calls load_line xs (j\<lparr>j_lines := ls\<rparr>) = map_sum id (\<lambda>k. k\<lparr>j_lines := ls\<rparr>) (run_calls load_line xs j)"
proof (induction xs arbitrary: j)
  case (Cons x xs)
  then show ?case by (cases x) (simp_all add: load_event_lines)
qed simp

lemma load_snoc:
  assumes "load wsroot ls None = Inr j"
  shows "load wsroot (ls @ [GoodLine ev]) None = Inr ((load_event ev j)\<lparr>j_lines := ls @ [GoodLine ev]\<rparr>)"
proof -
  have e: "empty_journal wsroot (ls @ [GoodLine ev]) None = (empty_journal wsroot ls None)\<lparr>j_lines := ls @ [GoodLine ev]\<rparr>"
    by (simp add: empty_journal_def)
  have "run_calls load_line ls (empty_journal wsroot ls None) = Inr j" using assms by (simp add: load_def)
  then show ?thesis by (simp add: load_def e load_lines run_calls_append load_event_lines)
qed

lemma exec_replays:
  assumes "j_tail j = None" "journal_exec c j = Inr j'"
  shows "\<exists>ev. j_lines j' = j_lines j @ [GoodLine ev] \<and> j' = (load_event ev j)\<lparr>j_lines := j_lines j @ [GoodLine ev]\<rparr>"
  using assms
  by (cases c) (auto simp: append_prepared_def append_committed_def append_rolled_back_def append_undone_def
      append_event_def load_event_def Let_def split: option.splits)

lemma exec_in_step:
  assumes "in_step j" "journal_exec c j = Inr j'"
  shows "in_step j'"
proof -
  obtain ev where ev: "j' = (load_event ev j)\<lparr>j_lines := j_lines j @ [GoodLine ev]\<rparr>"
    using exec_replays[of j c j'] assms by (auto simp: in_step_def)
  have "load (j_root j) (j_lines j) None = Inr j" "j_tail j = None" using assms by (simp_all add: in_step_def)
  then show ?thesis using load_snoc[of "j_root j" "j_lines j" j ev] ev by (simp add: in_step_def)
qed

interpretation jrn: machine journal_exec in_step
  by unfold_locales (rule exec_in_step)

lemma start_in_step: "load wsroot ls None = Inr j \<Longrightarrow> in_step j"
proof -
  assume l: "load wsroot ls None = Inr j"
  have "run_calls load_line xs k = Inr k' \<Longrightarrow> j_root k' = j_root k \<and> j_lines k' = j_lines k \<and> j_tail k' = j_tail k" for xs k k'
  proof (induction xs arbitrary: k)
    case (Cons x xs)
    then show ?case by (cases x) auto
  qed simp
  from this[of ls "empty_journal wsroot ls None" j] l show ?thesis
    by (simp add: in_step_def load_def empty_journal_def)
qed

text \<open>An event appended after a torn line is in memory but not in the file: a process that starts
  later does not know it.\<close>

lemma torn_tail_loses:
  assumes "load wsroot ls (Some BadLine) = Inr j"
  shows "\<exists>k. load wsroot (j_lines (append_prepared m j)) (j_tail (append_prepared m j)) = Inr k
    \<and> j_prepared k = j_prepared j \<and> j_prepared (append_prepared m j) = map_set (pm_id m) m (j_prepared j)"
proof -
  have keep: "run_calls load_line xs k = Inr k' \<Longrightarrow> j_root k' = j_root k \<and> j_lines k' = j_lines k \<and> j_tail k' = j_tail k" for xs k k'
  proof (induction xs arbitrary: k)
    case (Cons x xs)
    then show ?case by (cases x) auto
  qed simp
  have r: "run_calls load_line ls (empty_journal wsroot ls (Some BadLine)) = Inr j"
    using assms by (auto simp: load_def run_calls_append split: sum.splits)
  from keep[OF r] have jl: "j_lines j = ls" "j_tail j = Some BadLine" by (simp_all add: empty_journal_def)
  have tl: "load_event ev (k\<lparr>j_tail := t\<rparr>) = (load_event ev k)\<lparr>j_tail := t\<rparr>" for ev k t
    by (simp add: load_event_def split: mutation_event.splits option.splits)
  have "run_calls load_line xs (k\<lparr>j_lines := l, j_tail := t\<rparr>)
      = map_sum id (\<lambda>k. k\<lparr>j_lines := l, j_tail := t\<rparr>) (run_calls load_line xs k)" for xs k l t
  proof (induction xs arbitrary: k)
    case (Cons x xs)
    then show ?case by (cases x) (simp_all add: load_event_lines tl)
  qed simp
  from this[where xs = ls and k = "empty_journal wsroot ls (Some BadLine)" and l = "ls @ [BadLine]" and t = None] r
  have "run_calls load_line ls (empty_journal wsroot (ls @ [BadLine]) None) = Inr (j\<lparr>j_lines := ls @ [BadLine], j_tail := None\<rparr>)"
    by (simp add: empty_journal_def)
  then show ?thesis
    by (simp add: append_prepared_def append_event_def jl Let_def load_def run_calls_append)
qed

end
