(* ===== verification/Paths.thy ===== *)
theory Paths
  imports Edit Errors
begin

text \<open>
  Where the file tools may reach (\<open>worker/core/src/tools/builtin/paths.ts\<close>) and the write, delete
  and move tools (\<open>write.ts\<close>, \<open>delete.ts\<close>, \<open>move.ts\<close>).

  Paths are POSIX paths; \<open>normalize\<close>, \<open>resolve\<close>, \<open>dirname\<close> and \<open>isAbsolute\<close> of \<open>node:path\<close> are
  written out. \<open>realpath\<close>, \<open>readFile\<close> and \<open>lstat\<close> are arguments: functions of the path that give
  their result or the error they throw.
\<close>

section \<open>POSIX paths\<close>

abbreviation slash :: nat where "slash \<equiv> 47"

definition dot :: jsstring where "dot = js ''.''"
definition dotdot :: jsstring where "dotdot = js ''..''"

definition is_absolute :: "jsstring \<Rightarrow> bool" where
  "is_absolute p \<longleftrightarrow> p \<noteq> [] \<and> p ! 0 = slash"

text \<open>The segments of a normalised path: empty and \<open>.\<close> segments dropped, \<open>..\<close> removes the segment
  before it, or stays when there is none and the path is relative. The accumulator holds the
  last segment first.\<close>

fun norm_segments :: "bool \<Rightarrow> jsstring list \<Rightarrow> jsstring list \<Rightarrow> jsstring list" where
  "norm_segments up [] acc = rev acc"
| "norm_segments up (s # ss) acc =
     (if s = [] \<or> s = dot then norm_segments up ss acc
      else if s = dotdot then
        (if acc \<noteq> [] \<and> hd acc \<noteq> dotdot then norm_segments up ss (tl acc)
         else if up then norm_segments up ss (dotdot # acc)
         else norm_segments up ss acc)
      else norm_segments up ss (s # acc))"

definition path_segments :: "jsstring \<Rightarrow> jsstring list" where
  "path_segments p = norm_segments (\<not> is_absolute p) (split_char slash p) []"

definition normalize_path :: "jsstring \<Rightarrow> jsstring" where
  "normalize_path p =
     (if p = [] then dot
      else
        let trailing = ends_with p [slash]; body = js_join [slash] (path_segments p) in
        if body = [] then (if is_absolute p then [slash] else if trailing then js ''./'' else dot)
        else (if is_absolute p then [slash] else []) @ body @ (if trailing then [slash] else []))"

text \<open>\<open>resolve(base, input)\<close> with the working directory \<open>cwd\<close>, an absolute path.\<close>

definition resolve2 :: "jsstring \<Rightarrow> jsstring \<Rightarrow> jsstring \<Rightarrow> jsstring" where
  "resolve2 cwd base input =
     (let full = (if is_absolute input then input
                  else if is_absolute base then base @ [slash] @ input
                  else cwd @ [slash] @ base @ [slash] @ input) in
      [slash] @ js_join [slash] (norm_segments False (split_char slash full) []))"

definition dirname :: "jsstring \<Rightarrow> jsstring" where
  "dirname p =
     (let q = rev (dropWhile (\<lambda>c. c = slash) (rev p)) in
      if q = [] then (if p = [] then dot else [slash])
      else if slash \<notin> set q then dot
      else let d = rev (dropWhile (\<lambda>c. c = slash) (dropWhile (\<lambda>c. c \<noteq> slash) (rev q))) in
        if d = [] then [slash] else d)"

section \<open>The boundary checks\<close>

definition tool_boundary_error :: "jsstring \<Rightarrow> thrown" where
  "tool_boundary_error p =
     (plain_error (js ''ToolBoundaryError'') (([0x8DEF, 0x5F84, 0x8D85, 0x51FA] @ js '' workspace '' @ [0x8303, 0x56F4, 0xFF0C, 0x5DF2, 0x62D2, 0x7EDD, 0xFF1A]) @ p))\<lparr>is_boundary := True\<rparr>"

definition path_under :: "jsstring \<Rightarrow> jsstring \<Rightarrow> bool" where
  "path_under base target \<longleftrightarrow> target = base \<or> starts_with target (base @ [slash])"

definition resolve_within_workspace :: "jsstring \<Rightarrow> jsstring \<Rightarrow> jsstring \<Rightarrow> thrown + jsstring" where
  "resolve_within_workspace cwd wroot input =
     (let base = normalize_path wroot;
          target = (if is_absolute input then normalize_path input else normalize_path (resolve2 cwd base input)) in
      if target \<noteq> base \<and> \<not> starts_with target (base @ [slash]) then Inl (tool_boundary_error input)
      else Inr target)"

datatype access_scope = WorkspaceScope | SystemScope

definition resolve_tool_path :: "jsstring \<Rightarrow> jsstring \<Rightarrow> jsstring \<Rightarrow> access_scope \<Rightarrow> thrown + jsstring" where
  "resolve_tool_path cwd wroot input sc =
     (if sc = WorkspaceScope then resolve_within_workspace cwd wroot input
      else Inr (if is_absolute input then normalize_path input else normalize_path (resolve2 cwd wroot input)))"

definition assert_real_path_within_workspace :: "jsstring \<Rightarrow> jsstring \<Rightarrow> jsstring \<Rightarrow> thrown + unit" where
  "assert_real_path_within_workspace real_base real_target attempted =
     (let base = normalize_path real_base; target = normalize_path real_target in
      if target \<noteq> base \<and> \<not> starts_with target (base @ [slash]) then Inl (tool_boundary_error attempted)
      else Inr ())"

definition is_missing_path :: "thrown \<Rightarrow> bool" where
  "is_missing_path e \<longleftrightarrow> err_code e = Some (js ''ENOENT'')"

text \<open>\<open>realpath\<close> of the workspace and of the target are awaited together: an error of either rejects,
  and if both reject, either of them may be the one thrown; the model takes the first.\<close>

definition resolve_existing_path_within_workspace ::
  "(jsstring \<Rightarrow> thrown + jsstring) \<Rightarrow> jsstring \<Rightarrow> jsstring \<Rightarrow> jsstring \<Rightarrow> access_scope \<Rightarrow> thrown + jsstring" where
  "resolve_existing_path_within_workspace realpath cwd wroot input sc =
     (case resolve_tool_path cwd wroot input sc of
        Inl e \<Rightarrow> Inl e
      | Inr target \<Rightarrow>
          if sc = SystemScope then
            (case realpath target of Inl e \<Rightarrow> Inl e | Inr _ \<Rightarrow> Inr target)
          else
            (case realpath wroot of
               Inl e \<Rightarrow> Inl e
             | Inr real_base \<Rightarrow>
                 (case realpath target of
                    Inl e \<Rightarrow> Inl e
                  | Inr real_target \<Rightarrow>
                      (case assert_real_path_within_workspace real_base real_target input of
                         Inl e \<Rightarrow> Inl e
                       | Inr _ \<Rightarrow> Inr target))))"

text \<open>The walk to the nearest existing ancestor ends: every parent but the last two is shorter.\<close>

definition walk_measure :: "jsstring \<Rightarrow> nat" where
  "walk_measure p = (if p = [] then 2 else if p = dot \<or> p = [slash] then 0 else Suc (2 * length p))"

lemma dropWhile_rev_len: "length (rev (dropWhile P (rev p))) \<le> length p"
  using length_dropWhile_le[of P "rev p"] by simp

lemma dirname_shorter: "dirname p \<noteq> p \<Longrightarrow> walk_measure (dirname p) < walk_measure p"
proof -
  assume ne: "dirname p \<noteq> p"
  define q where "q = rev (dropWhile (\<lambda>c. c = slash) (rev p))"
  define d where "d = rev (dropWhile (\<lambda>c. c = slash) (dropWhile (\<lambda>c. c \<noteq> slash) (rev q)))"
  have dn: "dirname p = (if q = [] then (if p = [] then dot else [slash]) else if slash \<notin> set q then dot
      else if d = [] then [slash] else d)"
    unfolding dirname_def Let_def d_def q_def by (rule refl)
  have ql: "length q \<le> length p" unfolding q_def by (rule dropWhile_rev_len)
  have w0: "walk_measure dot = 0" "walk_measure [slash] = 0"
    by (simp_all add: walk_measure_def dot_def js_def)
  have wpos: "0 < walk_measure p" if "p \<noteq> dot" "p \<noteq> [slash]" using that by (simp add: walk_measure_def)
  show ?thesis
  proof (cases "dirname p = dot \<or> dirname p = [slash]")
    case True
    have "p \<noteq> dot"
    proof
      assume p: "p = dot"
      have "dirname dot = dot" by (simp add: dirname_def dot_def js_def)
      with p ne show False by simp
    qed
    moreover have "p \<noteq> [slash]"
    proof
      assume p: "p = [slash]"
      have "dirname [slash] = [slash]" by (simp add: dirname_def)
      with p ne show False by simp
    qed
    ultimately show ?thesis using True w0 wpos by auto
  next
    case False
    then have dd: "dirname p = d" "d \<noteq> []" "q \<noteq> []" "slash \<in> set q" using dn by (auto split: if_splits)
    have "length (dropWhile (\<lambda>c. c \<noteq> slash) (rev q)) \<le> length q"
      using length_dropWhile_le[of _ "rev q"] by simp
    moreover have "length (dropWhile (\<lambda>c. c = slash) (dropWhile (\<lambda>c. c \<noteq> slash) (rev q)))
        < length (dropWhile (\<lambda>c. c \<noteq> slash) (rev q))"
    proof -
      have "dropWhile (\<lambda>c. c \<noteq> slash) (rev q) \<noteq> []" using dd(4) by simp
      moreover have "hd (dropWhile (\<lambda>c. c \<noteq> slash) (rev q)) = slash"
        using hd_dropWhile[OF calculation] by simp
      ultimately show ?thesis
        by (cases "dropWhile (\<lambda>c. c \<noteq> slash) (rev q)") (auto simp: le_imp_less_Suc length_dropWhile_le)
    qed
    ultimately have "length d < length q" by (simp add: d_def)
    with ql have "length d < length p" by simp
    moreover have "p \<noteq> []" using dd(3) by (auto simp: q_def)
    moreover have "p \<noteq> dot \<and> p \<noteq> [slash]" using calculation(1) dd(2) by (auto simp: dot_def js_def)
    ultimately show ?thesis using dd False by (simp add: walk_measure_def)
  qed
qed

function realpath_existing_ancestor ::
  "(jsstring \<Rightarrow> thrown + jsstring) \<Rightarrow> jsstring \<Rightarrow> jsstring \<Rightarrow> jsstring \<Rightarrow> thrown + jsstring" where
  "realpath_existing_ancestor realpath wroot path current =
     (case realpath current of
        Inr r \<Rightarrow> Inr r
      | Inl e \<Rightarrow>
          if \<not> is_missing_path e then Inl e
          else if current = normalize_path wroot then realpath (normalize_path wroot)
          else
            let parent = dirname current in
            if parent = current then Inl (tool_boundary_error path)
            else realpath_existing_ancestor realpath wroot path parent)"
  by pat_completeness auto
termination
  by (relation "measure (\<lambda>(rp, wroot, path, current). walk_measure current)") (auto simp: dirname_shorter)

declare realpath_existing_ancestor.simps [simp del]

definition resolve_writable_path_within_workspace ::
  "(jsstring \<Rightarrow> thrown + jsstring) \<Rightarrow> jsstring \<Rightarrow> jsstring \<Rightarrow> jsstring \<Rightarrow> access_scope \<Rightarrow> thrown + jsstring" where
  "resolve_writable_path_within_workspace realpath cwd wroot input sc =
     (case resolve_tool_path cwd wroot input sc of
        Inl e \<Rightarrow> Inl e
      | Inr target \<Rightarrow>
          if sc = SystemScope then Inr target
          else
            (case realpath wroot of
               Inl e \<Rightarrow> Inl e
             | Inr real_base \<Rightarrow>
                 let first = (case realpath target of
                                Inl e \<Rightarrow> Inl e
                              | Inr real_target \<Rightarrow> assert_real_path_within_workspace real_base real_target input) in
                 (case first of
                    Inr _ \<Rightarrow> Inr target
                  | Inl e \<Rightarrow>
                      if \<not> is_missing_path e then Inl e
                      else
                        (case realpath_existing_ancestor realpath wroot (dirname target) (dirname target) of
                           Inl e \<Rightarrow> Inl e
                         | Inr real_parent \<Rightarrow>
                             (case assert_real_path_within_workspace real_base real_parent input of
                                Inl e \<Rightarrow> Inl e
                              | Inr _ \<Rightarrow> Inr target)))))"

end
