(* ===== verification/Mutation.thy ===== *)
theory Mutation
  imports Journal Paths
begin

text \<open>
  The mutation service (\<open>worker/core/src/mutations/mutationService.ts\<close>) and the recorder the file
  tools call (\<open>worker/core/src/tools/builtin/mutationRecorder.ts\<close>): snapshots of the roots a tool
  may change, the transaction around the tool's action, undo with its conflict check, and the
  recovery of transactions a stopped process left open.

  Arguments of the model: the SHA-256 of a content, the hash of the JSON text of a list of
  entries, and whether a symbolic link leads to something that exists. The tool's action is a
  function of the tree that returns the tree it leaves, whether it succeeds or throws.
\<close>

record hashes =
  hx_sha :: "jsstring \<Rightarrow> jsstring"
  hx_digest :: "entry_snapshot list \<Rightarrow> jsstring"
  hx_live :: "path \<Rightarrow> jsstring \<Rightarrow> bool"

record service =
  sv_root :: jsstring
  sv_fs :: fs
  sv_blobs :: "(jsstring, jsstring) jsmap"
  sv_journal :: journal

section \<open>Paths\<close>

definition unique_roots :: "jsstring list \<Rightarrow> jsstring list" where
  "unique_roots ps = uniq (map (map (\<lambda>c. if c = 92 then 47 else c)) ps)"

definition segments_of :: "jsstring \<Rightarrow> path" where
  "segments_of p = norm_segments False (split_char slash p) []"

text \<open>\<open>resolve(workspaceRoot, path)\<close>, checked to be inside and made relative.\<close>

definition locate :: "jsstring \<Rightarrow> jsstring \<Rightarrow> thrown + path" where
  "locate wsroot p =
     (let base = segments_of wsroot; full = segments_of (resolve2 [slash] wsroot p) in
      if prefix base full then Inr (drop (length base) full)
      else Inl (plain_error (js ''Error'') (js ''Mutation path outside workspace: '' @ p)))"

definition is_path_within :: "path \<Rightarrow> path \<Rightarrow> bool" where
  "is_path_within p wroot \<longleftrightarrow> prefix wroot p"

definition snapshot_parent :: "path \<Rightarrow> path" where
  "snapshot_parent p = butlast p"

section \<open>Snapshots\<close>

definition snapshot_entry :: "hashes \<Rightarrow> path \<times> node \<Rightarrow> entry_snapshot" where
  "snapshot_entry hx x =
     (case x of
        (p, LinkN t) \<Rightarrow> \<lparr>en_path = p, en_kind = KSymlink, en_hash = hx_sha hx t, en_ref = None, en_link = Some t\<rparr>
      | (p, DirN) \<Rightarrow> \<lparr>en_path = p, en_kind = KDirectory, en_hash = js ''directory'', en_ref = None, en_link = None\<rparr>
      | (p, FileN c) \<Rightarrow> \<lparr>en_path = p, en_kind = KFile, en_hash = hx_sha hx c, en_ref = Some (hx_sha hx c), en_link = None\<rparr>)"

definition capture_entries :: "hashes \<Rightarrow> fs \<Rightarrow> path \<Rightarrow> entry_snapshot list" where
  "capture_entries hx fs p = (if exists_sync (hx_live hx) fs p then map (snapshot_entry hx) (walk fs p) else [])"

definition capture_root :: "hashes \<Rightarrow> fs \<Rightarrow> path \<Rightarrow> root_snapshot" where
  "capture_root hx fs p =
     (let es = capture_entries hx fs p in \<lparr>rs_path = p, rs_hash = hx_digest hx es, rs_entries = es\<rparr>)"

text \<open>\<open>writeBlob\<close> keeps the blob that is there; capturing a root writes the blob of every file.\<close>

definition write_blob :: "hashes \<Rightarrow> jsstring \<Rightarrow> (jsstring, jsstring) jsmap \<Rightarrow> (jsstring, jsstring) jsmap" where
  "write_blob hx c bs = (if map_has bs (hx_sha hx c) then bs else map_set (hx_sha hx c) c bs)"

definition capture_blobs :: "hashes \<Rightarrow> fs \<Rightarrow> path \<Rightarrow> (jsstring, jsstring) jsmap \<Rightarrow> (jsstring, jsstring) jsmap" where
  "capture_blobs hx fs p bs =
     (if exists_sync (hx_live hx) fs p
      then foldl (\<lambda>bs (q, n). case n of FileN c \<Rightarrow> write_blob hx c bs | _ \<Rightarrow> bs) bs (walk fs p) else bs)"

definition capture_roots :: "hashes \<Rightarrow> service \<Rightarrow> path list \<Rightarrow> root_snapshot list \<times> service" where
  "capture_roots hx sv ps =
     (map (capture_root hx (sv_fs sv)) ps,
      sv\<lparr>sv_blobs := foldl (\<lambda>bs p. capture_blobs hx (sv_fs sv) p bs) (sv_blobs sv) ps\<rparr>)"

definition same_roots :: "root_snapshot list \<Rightarrow> root_snapshot list \<Rightarrow> bool" where
  "same_roots a b \<longleftrightarrow> length a = length b
     \<and> list_all2 (\<lambda>x y. rs_path x = rs_path y \<and> rs_hash x = rs_hash y) a b"

section \<open>Restoring\<close>

datatype restore_step = StepRm path | StepMkdir path | StepPut entry_snapshot

fun exec_step :: "(jsstring, jsstring) jsmap \<Rightarrow> restore_step \<Rightarrow> fs \<Rightarrow> thrown + fs" where
  "exec_step bs (StepRm p) fs = Inr (rm_rf p fs)"
| "exec_step bs (StepMkdir p) fs = mkdir_p p fs"
| "exec_step bs (StepPut e) fs =
     (case (en_kind e, en_ref e, en_link e) of
        (KFile, Some r, _) \<Rightarrow>
          (case map_of bs r of None \<Rightarrow> Inl (fs_error ''ENOENT'') | Some c \<Rightarrow> write_file (en_path e) c fs)
      | (KSymlink, _, Some t) \<Rightarrow> symlink t (en_path e) fs
      | _ \<Rightarrow> Inr fs)"

definition restore_steps :: "root_snapshot \<Rightarrow> restore_step list" where
  "restore_steps r =
     StepRm (rs_path r)
     # map (\<lambda>e. StepMkdir (en_path e)) (filter (\<lambda>e. en_kind e = KDirectory) (rs_entries r))
     @ concat (map (\<lambda>e. [StepMkdir (butlast (en_path e)), StepPut e])
         (filter (\<lambda>e. en_kind e \<noteq> KDirectory) (rs_entries r)))"

text \<open>Steps until the first that throws: the tree they leave, and what was thrown.\<close>

fun run_keep :: "('c \<Rightarrow> 's \<Rightarrow> 'e + 's) \<Rightarrow> 'c list \<Rightarrow> 's \<Rightarrow> 's \<times> 'e option" where
  "run_keep f [] s = (s, None)"
| "run_keep f (c # cs) s = (case f c s of Inl e \<Rightarrow> (s, Some e) | Inr s' \<Rightarrow> run_keep f cs s')"

definition restore_roots :: "(jsstring, jsstring) jsmap \<Rightarrow> root_snapshot list \<Rightarrow> fs \<Rightarrow> fs \<times> thrown option" where
  "restore_roots bs rs fs = run_keep (exec_step bs) (concat (map restore_steps rs)) fs"

section \<open>Recording a mutation\<close>

record mutation_input =
  mi_id :: jsstring      \<comment> \<open>the identifier drawn for the transaction\<close>
  mi_time :: nat
  mi_run :: jsstring
  mi_tool :: mutation_tool
  mi_paths :: "jsstring list"

fun sequence_sum :: "('e + 'a) list \<Rightarrow> 'e + 'a list" where
  "sequence_sum [] = Inr []"
| "sequence_sum (x # xs) =
     (case x of Inl e \<Rightarrow> Inl e | Inr a \<Rightarrow> (case sequence_sum xs of Inl e \<Rightarrow> Inl e | Inr as \<Rightarrow> Inr (a # as)))"

text \<open>\<open>check\<close> is \<open>resolveWritablePathWithinWorkspace\<close> on a path of the call.\<close>

text \<open>The catch block: the roots are restored, then the transaction is closed, then the error is
  thrown again; an error of the restoration replaces it.\<close>

definition roll_back :: "service \<Rightarrow> prepared_mutation \<Rightarrow> thrown \<Rightarrow> service \<times> thrown" where
  "roll_back sv prepared e =
     (case restore_roots (sv_blobs sv) (pm_pre prepared) (sv_fs sv) of
        (fs', Some e') \<Rightarrow> (sv\<lparr>sv_fs := fs'\<rparr>, e')
      | (fs', None) \<Rightarrow>
          (sv\<lparr>sv_fs := fs', sv_journal := append_rolled_back (pm_id prepared) (err_text e) (sv_journal sv)\<rparr>, e))"

text \<open>Up to the action: the snapshots and the prepared event are on disk.\<close>

definition prepare_mutation :: "hashes \<Rightarrow> service \<Rightarrow> mutation_input \<Rightarrow> path list \<Rightarrow> prepared_mutation \<times> service" where
  "prepare_mutation hx sv inp roots =
     (let (pre, sv1) = capture_roots hx sv roots;
          prepared = create_prepared (sv_journal sv1) (mi_id inp) (mi_time inp) (mi_run inp) (mi_tool inp) pre in
      (prepared, sv1\<lparr>sv_journal := append_prepared prepared (sv_journal sv1)\<rparr>))"

definition record_mutation ::
  "hashes \<Rightarrow> (jsstring \<Rightarrow> thrown + jsstring) \<Rightarrow> service \<Rightarrow> mutation_input \<Rightarrow> (fs \<Rightarrow> fs \<times> (thrown + 'r))
     \<Rightarrow> service \<times> (thrown + 'r)" where
  "record_mutation hx check sv inp action =
     (let paths = unique_roots (mi_paths inp) in
      case sequence_sum (map check paths) of
        Inl e \<Rightarrow> (sv, Inl e)
      | Inr _ \<Rightarrow>
      (case sequence_sum (map (locate (sv_root sv)) paths) of
        Inl e \<Rightarrow> (sv, Inl e)
      | Inr roots \<Rightarrow>
          let (prepared, sv2) = prepare_mutation hx sv inp roots in
          (case action (sv_fs sv2) of
             (fs', Inl e) \<Rightarrow> (case roll_back (sv2\<lparr>sv_fs := fs'\<rparr>) prepared e of (sv', f) \<Rightarrow> (sv', Inl f))
           | (fs', Inr r) \<Rightarrow>
               let (post, sv3) = capture_roots hx (sv2\<lparr>sv_fs := fs'\<rparr>) roots in
               if same_roots (pm_pre prepared) post then
                 (sv3\<lparr>sv_journal := append_rolled_back (pm_id prepared) (js ''no-change'') (sv_journal sv3)\<rparr>, Inr r)
               else
                 (case append_committed (pm_id prepared) post (sv_journal sv3) of
                    Inl e \<Rightarrow> (case roll_back sv3 prepared e of (sv', f) \<Rightarrow> (sv', Inl f))
                  | Inr j \<Rightarrow> (sv3\<lparr>sv_journal := j\<rparr>, Inr r)))))"

section \<open>The state a sequence of transactions leaves\<close>

function visit :: "path \<Rightarrow> (path, entry_snapshot) jsmap \<Rightarrow> path \<Rightarrow> entry_snapshot list" where
  "visit rt es p =
     (case map_of es p of
        None \<Rightarrow> []
      | Some e \<Rightarrow>
          e # (if en_kind e = KDirectory
               then concat (map (visit rt es)
                 (sort (filter (\<lambda>q. q \<noteq> rt \<and> q \<noteq> [] \<and> snapshot_parent q = p) (map_keys es))))
               else []))"
  by pat_completeness auto
termination
proof (relation "measure (\<lambda>(rt, es, p). Suc (foldr max (map length (map_keys es)) 0) - length p)", goal_cases)
  case (2 rt es p e q)
  then have q: "q \<in> set (map_keys es)" "q \<noteq> []" "butlast q = p" by (auto simp: snapshot_parent_def)
  have "length q \<le> foldr max (map length (map_keys es)) 0"
    using q(1) by (induction es) (auto simp: le_max_iff_disj)
  moreover have "length q = Suc (length p)" using q(2,3) by (cases q rule: rev_cases) auto
  ultimately show ?case by simp
qed simp

declare visit.simps [simp del]

text \<open>An entry at \<open>.\<close> other than the root itself does not occur: it is not below any root.\<close>

definition order_snapshot_entries :: "entry_snapshot list \<Rightarrow> path \<Rightarrow> entry_snapshot list" where
  "order_snapshot_entries es rt =
     visit rt (foldl (\<lambda>m e. map_set (en_path e) e m) [] es) rt"

definition compose_step :: "(path, entry_snapshot) jsmap \<Rightarrow> root_snapshot \<Rightarrow> (path, entry_snapshot) jsmap" where
  "compose_step m r =
     foldl (\<lambda>m e. map_set (en_path e) e m)
       (foldl (\<lambda>m p. map_del p m) m (filter (\<lambda>p. is_path_within p (rs_path r)) (map_keys m)))
       (rs_entries r)"

definition compose_final_roots :: "hashes \<Rightarrow> mutation_record list \<Rightarrow> root_snapshot list" where
  "compose_final_roots hx ts =
     (let roots = concat (map mr_post ts);
          root_paths = map rs_path roots;
          top_level = filter (\<lambda>c. \<not> (\<exists>d\<in>set root_paths. d \<noteq> c \<and> is_path_within c d)) (uniq root_paths);
          entries = foldl compose_step [] roots in
      map (\<lambda>p. let es = order_snapshot_entries (filter (\<lambda>e. is_path_within (en_path e) p) (map_vals entries)) p in
             \<lparr>rs_path = p, rs_hash = hx_digest hx es, rs_entries = es\<rparr>) top_level)"

section \<open>Undo\<close>

definition select_transactions :: "service \<Rightarrow> jsstring option \<Rightarrow> mutation_record list" where
  "select_transactions sv target =
     (let active = list_active (sv_journal sv) in
      case target of
        Some t \<Rightarrow> if t \<noteq> [] then filter (\<lambda>m. pm_run m = t \<or> pm_id m = t) active
                  else if length active > 0 then [last active] else []
      | None \<Rightarrow> if length active > 0 then [last active] else [])"

definition show_path :: "path \<Rightarrow> jsstring" where
  "show_path p = (if p = [] then dot else js_join [slash] p)"

definition conflict_error :: "path list \<Rightarrow> thrown" where
  "conflict_error ps = plain_error (js ''MutationConflictError'')
     (js ''Cannot undo because files changed after the mutation: '' @ js_join (js '', '') (map show_path ps))"

text \<open>The check captures every root it compares, which may add blobs.\<close>

definition assert_can_undo :: "hashes \<Rightarrow> service \<Rightarrow> mutation_record list \<Rightarrow> thrown option" where
  "assert_can_undo hx sv ts =
     (let conflicts = map rs_path (filter (\<lambda>x. rs_hash (capture_root hx (sv_fs sv) (rs_path x)) \<noteq> rs_hash x)
                        (compose_final_roots hx ts)) in
      if length conflicts > 0 then Some (conflict_error (uniq conflicts)) else None)"

definition check_blobs :: "hashes \<Rightarrow> service \<Rightarrow> mutation_record list \<Rightarrow> service" where
  "check_blobs hx sv ts = snd (capture_roots hx sv (map rs_path (compose_final_roots hx ts)))"

record undo_result =
  ur_transactions :: "jsstring list"
  ur_files :: "path list"

fun undo_each :: "nat \<Rightarrow> mutation_record list \<Rightarrow> service \<Rightarrow> service \<times> thrown option" where
  "undo_each now [] sv = (sv, None)"
| "undo_each now (m # ms) sv =
     (case restore_roots (sv_blobs sv) (pm_pre m) (sv_fs sv) of
        (fs', Some e) \<Rightarrow> (sv\<lparr>sv_fs := fs'\<rparr>, Some e)
      | (fs', None) \<Rightarrow>
          undo_each now ms (sv\<lparr>sv_fs := fs', sv_journal := append_undone (pm_id m) now (sv_journal sv)\<rparr>))"

definition undo :: "hashes \<Rightarrow> nat \<Rightarrow> service \<Rightarrow> jsstring option \<Rightarrow> service \<times> (thrown + undo_result)" where
  "undo hx now sv target =
     (let selected = select_transactions sv target in
      if length selected = 0 then
        (sv, Inl (plain_error (js ''Error'')
           (case target of
              Some t \<Rightarrow> if t \<noteq> [] then js ''No reversible mutation found: '' @ t else js ''No reversible mutations''
            | None \<Rightarrow> js ''No reversible mutations'')))
      else
        let ordered = rev selected; sv1 = check_blobs hx sv selected in
        (case assert_can_undo hx sv selected of
           Some e \<Rightarrow> (sv1, Inl e)
         | None \<Rightarrow>
             (case undo_each now ordered sv1 of
                (sv2, Some e) \<Rightarrow> (sv2, Inl e)
              | (sv2, None) \<Rightarrow>
                  (sv2, Inr \<lparr>ur_transactions = map pm_id ordered,
                     ur_files = uniq (concat (map (\<lambda>m. map rs_path (pm_pre m)) ordered))\<rparr>))))"

section \<open>Starting\<close>

fun recover_each :: "prepared_mutation list \<Rightarrow> service \<Rightarrow> service \<times> thrown option" where
  "recover_each [] sv = (sv, None)"
| "recover_each (m # ms) sv =
     (case restore_roots (sv_blobs sv) (pm_pre m) (sv_fs sv) of
        (fs', Some e) \<Rightarrow> (sv\<lparr>sv_fs := fs'\<rparr>, Some e)
      | (fs', None) \<Rightarrow>
          recover_each ms (sv\<lparr>sv_fs := fs',
            sv_journal := append_rolled_back (pm_id m) (js ''recovered-incomplete'') (sv_journal sv)\<rparr>))"

definition recover_incomplete :: "service \<Rightarrow> service \<times> thrown option" where
  "recover_incomplete sv = recover_each (list_incomplete (sv_journal sv)) sv"

text \<open>A service that starts on the tree, the blobs and the journal file an earlier one left.\<close>

definition start_service ::
  "jsstring \<Rightarrow> fs \<Rightarrow> (jsstring, jsstring) jsmap \<Rightarrow> journal_line list \<Rightarrow> journal_line option
     \<Rightarrow> thrown + (service \<times> thrown option)" where
  "start_service wsroot fs bs ls tail =
     (case load wsroot ls tail of
        Inl e \<Rightarrow> Inl e
      | Inr j \<Rightarrow> Inr (recover_incomplete \<lparr>sv_root = wsroot, sv_fs = fs, sv_blobs = bs, sv_journal = j\<rparr>))"

section \<open>What the file tools do\<close>

datatype file_action = WriteFile path jsstring | RemovePath path bool | RenamePath path path

fun perform :: "file_action \<Rightarrow> fs \<Rightarrow> fs \<times> (thrown + unit)" where
  "perform (WriteFile p c) fs =
     (case mkdir_p (butlast p) fs of
        Inl e \<Rightarrow> (fs, Inl e)
      | Inr fs1 \<Rightarrow> (case write_file p c fs1 of Inl e \<Rightarrow> (fs1, Inl e) | Inr fs2 \<Rightarrow> (fs2, Inr ())))"
| "perform (RemovePath p rec) fs =
     (case rm_strict p rec fs of Inl e \<Rightarrow> (fs, Inl e) | Inr fs1 \<Rightarrow> (fs1, Inr ()))"
| "perform (RenamePath p q) fs =
     (case mkdir_p (butlast q) fs of
        Inl e \<Rightarrow> (fs, Inl e)
      | Inr fs1 \<Rightarrow> (case rename_path p q fs1 of Inl e \<Rightarrow> (fs1, Inl e) | Inr fs2 \<Rightarrow> (fs2, Inr ())))"

text \<open>\<open>recordToolMutation\<close>: the system recorder for the system scope, else the workspace
  recorder, else the bare action. A recorder is the function that runs an action in it.\<close>

definition record_tool_mutation ::
  "('a \<Rightarrow> 'b) option \<Rightarrow> ('a \<Rightarrow> 'b) option \<Rightarrow> ('a \<Rightarrow> 'b) \<Rightarrow> access_scope \<Rightarrow> 'a \<Rightarrow> 'b" where
  "record_tool_mutation workspace system bare sc act =
     (case (sc, system) of
        (SystemScope, Some rec) \<Rightarrow> rec act
      | _ \<Rightarrow> (case workspace of Some rec \<Rightarrow> rec act | None \<Rightarrow> bare act))"

end
