(* ===== verification/Mutation_Laws.thy ===== *)
theory Mutation_Laws
  imports Mutation
begin

text \<open>
  What a snapshot and its restoration do to the tree: after the restoration every path below the
  root is as it was when the snapshot was taken, and elsewhere only missing ancestor directories
  have appeared. From it: a failed mutation leaves its roots as they were, an undo right after a
  mutation takes it back, and a service that starts takes back what a stopped one left open.
\<close>

lemma run_keep_append:
  "run_keep f (xs @ ys) s = (case run_keep f xs s of (s', None) \<Rightarrow> run_keep f ys s' | (s', Some e) \<Rightarrow> (s', Some e))"
  by (induction xs arbitrary: s) (auto split: sum.splits)

section \<open>Blobs\<close>

definition blobs_ok :: "hashes \<Rightarrow> (jsstring, jsstring) jsmap \<Rightarrow> bool" where
  "blobs_ok hx bs \<longleftrightarrow> (\<forall>h c. map_of bs h = Some c \<longrightarrow> hx_sha hx c = h)"

definition blobs_le :: "(jsstring, jsstring) jsmap \<Rightarrow> (jsstring, jsstring) jsmap \<Rightarrow> bool" where
  "blobs_le a b \<longleftrightarrow> (\<forall>h c. map_of a h = Some c \<longrightarrow> map_of b h = Some c)"

definition covers :: "hashes \<Rightarrow> (jsstring, jsstring) jsmap \<Rightarrow> fs \<Rightarrow> path \<Rightarrow> bool" where
  "covers hx bs s p \<longleftrightarrow> (\<forall>q c. (q, FileN c) \<in> set (walk s p) \<longrightarrow> map_of bs (hx_sha hx c) = Some c)"

lemma blobs_le_refl [simp]: "blobs_le a a" by (simp add: blobs_le_def)
lemma blobs_le_trans: "blobs_le a b \<Longrightarrow> blobs_le b c \<Longrightarrow> blobs_le a c" by (simp add: blobs_le_def)
lemma covers_le: "covers hx a s p \<Longrightarrow> blobs_le a b \<Longrightarrow> covers hx b s p"
  by (auto simp: covers_def blobs_le_def)

lemma write_blob_laws:
  assumes "blobs_ok hx bs"
  shows "blobs_ok hx (write_blob hx c bs)" "blobs_le bs (write_blob hx c bs)"
    "inj (hx_sha hx) \<Longrightarrow> map_of (write_blob hx c bs) (hx_sha hx c) = Some c"
proof -
  have k: "map_has bs (hx_sha hx c) \<longleftrightarrow> map_of bs (hx_sha hx c) \<noteq> None" by (simp only: map_has_def)
  show "blobs_ok hx (write_blob hx c bs)" using assms by (auto simp: write_blob_def blobs_ok_def)
  show "blobs_le bs (write_blob hx c bs)"
    unfolding write_blob_def k by (auto simp: blobs_le_def)
  show "map_of (write_blob hx c bs) (hx_sha hx c) = Some c" if "inj (hx_sha hx)"
    using assms that unfolding write_blob_def k by (auto simp: blobs_ok_def dest: injD)
qed

lemma capture_blobs_laws:
  assumes "blobs_ok hx bs"
  shows "blobs_ok hx (capture_blobs hx fs p bs) \<and> blobs_le bs (capture_blobs hx fs p bs)
    \<and> (inj (hx_sha hx) \<longrightarrow> exists_sync (hx_live hx) fs p \<longrightarrow> covers hx (capture_blobs hx fs p bs) fs p)"
proof -
  let ?f = "\<lambda>bs (q, n). case n of FileN c \<Rightarrow> write_blob hx c bs | _ \<Rightarrow> bs"
  have "blobs_ok hx (foldl ?f bs xs) \<and> blobs_le bs (foldl ?f bs xs)
    \<and> (inj (hx_sha hx) \<longrightarrow> (\<forall>q c. (q, FileN c) \<in> set xs \<longrightarrow> map_of (foldl ?f bs xs) (hx_sha hx c) = Some c))" for xs
    using assms
  proof (induction xs arbitrary: bs)
    case (Cons x xs)
    define b1 where "b1 = ?f bs x"
    have b1: "blobs_ok hx b1" "blobs_le bs b1"
      using write_blob_laws[OF Cons(2)] Cons(2) by (auto simp: b1_def split: prod.splits node.splits)
    have "inj (hx_sha hx) \<Longrightarrow> x = (q, FileN c) \<Longrightarrow> map_of b1 (hx_sha hx c) = Some c" for q c
      using write_blob_laws(3)[OF Cons(2)] by (auto simp: b1_def)
    then show ?case using Cons(1)[OF b1(1)] b1 blobs_le_trans[OF b1(2)]
      by (auto simp: b1_def[symmetric] blobs_le_def)
  qed simp
  from this[of "walk fs p"] assms show ?thesis
    by (auto simp: capture_blobs_def covers_def)
qed

lemma capture_roots_laws:
  assumes "blobs_ok hx (sv_blobs sv)"
  shows "fst (capture_roots hx sv ps) = map (capture_root hx (sv_fs sv)) ps"
    "sv_fs (snd (capture_roots hx sv ps)) = sv_fs sv" "sv_journal (snd (capture_roots hx sv ps)) = sv_journal sv"
    "blobs_ok hx (sv_blobs (snd (capture_roots hx sv ps)))"
    "blobs_le (sv_blobs sv) (sv_blobs (snd (capture_roots hx sv ps)))"
    "inj (hx_sha hx) \<Longrightarrow> p \<in> set ps \<Longrightarrow> exists_sync (hx_live hx) (sv_fs sv) p \<Longrightarrow>
       covers hx (sv_blobs (snd (capture_roots hx sv ps))) (sv_fs sv) p"
proof -
  have "blobs_ok hx (foldl (\<lambda>bs p. capture_blobs hx fs p bs) bs ps)
    \<and> blobs_le bs (foldl (\<lambda>bs p. capture_blobs hx fs p bs) bs ps)
    \<and> (inj (hx_sha hx) \<longrightarrow> (\<forall>p\<in>set ps. exists_sync (hx_live hx) fs p \<longrightarrow>
         covers hx (foldl (\<lambda>bs p. capture_blobs hx fs p bs) bs ps) fs p))" if "blobs_ok hx bs" for bs fs
    using that
  proof (induction ps arbitrary: bs)
    case (Cons p ps)
    note l = capture_blobs_laws[OF Cons(2), of fs p]
    from Cons(1)[of "capture_blobs hx fs p bs"] l show ?case
      by (auto intro: blobs_le_trans covers_le)
  qed simp
  from this[OF assms, of "sv_fs sv"]
  show "fst (capture_roots hx sv ps) = map (capture_root hx (sv_fs sv)) ps"
    "sv_fs (snd (capture_roots hx sv ps)) = sv_fs sv" "sv_journal (snd (capture_roots hx sv ps)) = sv_journal sv"
    "blobs_ok hx (sv_blobs (snd (capture_roots hx sv ps)))"
    "blobs_le (sv_blobs sv) (sv_blobs (snd (capture_roots hx sv ps)))"
    "inj (hx_sha hx) \<Longrightarrow> p \<in> set ps \<Longrightarrow> exists_sync (hx_live hx) (sv_fs sv) p \<Longrightarrow>
       covers hx (sv_blobs (snd (capture_roots hx sv ps))) (sv_fs sv) p"
    by (auto simp: capture_roots_def)
qed

section \<open>Restoring one root\<close>

definition partly_restored :: "fs \<Rightarrow> path \<Rightarrow> fs \<Rightarrow> fs \<Rightarrow> bool" where
  "partly_restored s p t u \<longleftrightarrow> map_wf u
     \<and> (\<forall>q. prefix p q \<longrightarrow> map_of u q = None \<or> map_of u q = map_of s q)
     \<and> (\<forall>q. \<not> prefix p q \<longrightarrow> map_of u q = map_of t q
          \<or> strict_prefix q p \<and> map_of t q = None \<and> map_of u q = Some DirN \<and> map_of s p \<noteq> None)"

definition clear_way :: "path \<Rightarrow> fs \<Rightarrow> bool" where
  "clear_way p t \<longleftrightarrow> (\<forall>q. strict_prefix q p \<longrightarrow> map_of t q = None \<or> map_of t q = Some DirN)"

lemma mkdir_restores:
  assumes "partly_restored s p t u" "clear_way p t" "map_of s p \<noteq> None"
    and q: "prefix p q \<or> strict_prefix q p"
    and s: "\<And>r. prefix p r \<Longrightarrow> prefix r q \<Longrightarrow> map_of s r = Some DirN"
  shows "\<exists>u'. mkdir_p q u = Inr u' \<and> partly_restored s p t u' \<and> map_of u' q = Some DirN
    \<and> (\<forall>r. map_of u r \<noteq> None \<longrightarrow> map_of u' r = map_of u r)
    \<and> (\<forall>r. map_of s r \<noteq> Some DirN \<longrightarrow> prefix p r \<longrightarrow> map_of u' r = map_of u r)"
proof -
  have free: "map_of u r = None \<or> map_of u r = Some DirN" if "prefix r q" for r
  proof (cases "prefix p r")
    case True
    then show ?thesis using assms(1) s[OF True that] by (auto simp: partly_restored_def)
  next
    case False
    have "strict_prefix r p" using q that False
      by (metis prefix_same_cases prefix_order.le_less_trans strict_prefixI)
    then have "map_of t r = None \<or> map_of t r = Some DirN" using assms(2) by (simp add: clear_way_def)
    moreover have "map_of u r = map_of t r \<or> map_of u r = Some DirN"
      using assms(1) False unfolding partly_restored_def by blast
    ultimately show ?thesis by auto
  qed
  obtain u' where u': "mkdir_p q u = Inr u'" "map_of u' = (\<lambda>r. if prefix r q then Some DirN else map_of u r)"
      "map_wf u \<longrightarrow> map_wf u'"
    using mkdir_p_ok[OF free] by blast
  have "partly_restored s p t u'"
    unfolding partly_restored_def
  proof (intro conjI allI impI)
    show "map_wf u'" using u'(3) assms(1) by (simp add: partly_restored_def)
  next
    fix r assume pr: "prefix p r"
    then show "map_of u' r = None \<or> map_of u' r = map_of s r"
      using assms(1) s[OF pr] u'(2) by (auto simp: partly_restored_def)
  next
    fix r assume np: "\<not> prefix p r"
    show "map_of u' r = map_of t r \<or> strict_prefix r p \<and> map_of t r = None \<and> map_of u' r = Some DirN \<and> map_of s p \<noteq> None"
    proof (cases "prefix r q")
      case True
      have sp: "strict_prefix r p" using q True np
        by (metis prefix_same_cases prefix_order.le_less_trans strict_prefixI)
      then have "map_of t r = None \<or> map_of t r = Some DirN" using assms(2) by (auto simp: clear_way_def)
      then show ?thesis using u'(2) True sp assms(3) by auto
    next
      case False
      then show ?thesis using assms(1) np u'(2) by (auto simp: partly_restored_def)
    qed
  qed
  moreover have "map_of u r \<noteq> None \<longrightarrow> map_of u' r = map_of u r" for r
    using free[of r] u'(2) by auto
  moreover have "map_of u' r = map_of u r" if "map_of s r \<noteq> Some DirN" "prefix p r" for r
    using s[OF that(2)] that(1) u'(2) by auto
  ultimately show ?thesis using u' by auto
qed

lemma snapshot_entry_sel [simp]:
  "en_path (snapshot_entry hx (q, n)) = q"
  "en_kind (snapshot_entry hx (q, n)) = KDirectory \<longleftrightarrow> n = DirN"
  by (auto simp: snapshot_entry_def split: node.splits)

lemma put_restores:
  assumes "partly_restored s p t u" "prefix p q" "q \<noteq> []" "map_of s q = Some n" "n \<noteq> DirN"
    and "map_of u (butlast q) = Some DirN" "map_of u q = None"
    and "\<And>c. n = FileN c \<Longrightarrow> map_of bs (hx_sha hx c) = Some c"
  shows "\<exists>u'. exec_step bs (StepPut (snapshot_entry hx (q, n))) u = Inr u' \<and> map_of u' = (map_of u)(q \<mapsto> n)
    \<and> partly_restored s p t u'"
proof -
  have po: "parent_ok q u" using assms(3,6) by (simp add: parent_ok_def)
  have "exec_step bs (StepPut (snapshot_entry hx (q, n))) u = Inr (map_set q n u)"
    using assms(5,7,8) po
    by (cases n) (simp_all add: snapshot_entry_def write_file_def symlink_def)
  moreover have "partly_restored s p t (map_set q n u)"
    using assms(1,2,4) by (auto simp: partly_restored_def)
  ultimately show ?thesis by auto
qed

lemma dirs_restore:
  assumes "fs_wf s" "clear_way p t" "map_of s p \<noteq> None"
  shows "\<lbrakk>partly_restored s p t u; \<And>q. q \<in> set ds \<Longrightarrow> prefix p q \<and> map_of s q = Some DirN\<rbrakk> \<Longrightarrow>
    \<exists>u'. run_keep (exec_step bs) (map StepMkdir ds) u = (u', None) \<and> partly_restored s p t u'
      \<and> (\<forall>q\<in>set ds. map_of u' q = Some DirN) \<and> (\<forall>r. map_of u r \<noteq> None \<longrightarrow> map_of u' r = map_of u r)
      \<and> (\<forall>r. map_of s r \<noteq> Some DirN \<longrightarrow> prefix p r \<longrightarrow> map_of u' r = map_of u r)"
proof (induction ds arbitrary: u)
  case (Cons d ds)
  have d: "prefix p d" "map_of s d = Some DirN" using Cons(3)[of d] by auto
  have below: "map_of s r = Some DirN" if "prefix p r" "prefix r d" for r
    using assms(1) d(2) that by (cases "r = d") (auto simp: fs_wf_def strict_prefix_def)
  obtain u1 where u1: "mkdir_p d u = Inr u1" "partly_restored s p t u1" "map_of u1 d = Some DirN"
      "\<And>r. map_of u r \<noteq> None \<Longrightarrow> map_of u1 r = map_of u r"
      "\<And>r. map_of s r \<noteq> Some DirN \<Longrightarrow> prefix p r \<Longrightarrow> map_of u1 r = map_of u r"
    using mkdir_restores[OF Cons(2) assms(2,3) disjI1[OF d(1)] below] by blast
  obtain u' where u': "run_keep (exec_step bs) (map StepMkdir ds) u1 = (u', None)" "partly_restored s p t u'"
      "\<And>q. q \<in> set ds \<Longrightarrow> map_of u' q = Some DirN" "\<And>r. map_of u1 r \<noteq> None \<Longrightarrow> map_of u' r = map_of u1 r"
      "\<And>r. map_of s r \<noteq> Some DirN \<Longrightarrow> prefix p r \<Longrightarrow> map_of u' r = map_of u1 r"
    using Cons(1)[OF u1(2)] Cons(3) by force
  show ?case
  proof (intro exI[of _ u'] conjI ballI allI impI)
    show "run_keep (exec_step bs) (map StepMkdir (d # ds)) u = (u', None)" using u1(1) u'(1) by simp
    show "partly_restored s p t u'" by (rule u'(2))
    show "map_of u' q = Some DirN" if "q \<in> set (d # ds)" for q
      using that u'(3)[of q] u'(4)[of d] u1(3) by auto
    show "map_of u' r = map_of u r" if "map_of u r \<noteq> None" for r
      using u1(4)[OF that] u'(4)[of r] that by simp
    show "map_of u' r = map_of u r" if "map_of s r \<noteq> Some DirN" "prefix p r" for r
      using u1(5)[OF that] u'(5)[OF that] by simp
  qed
qed auto

lemma files_restore:
  assumes "fs_wf s" "clear_way p t" "map_of s p \<noteq> None" "map_of s [] = Some DirN"
  shows "\<lbrakk>partly_restored s p t u; distinct (map fst xs);
    \<And>q n. (q, n) \<in> set xs \<Longrightarrow> prefix p q \<and> map_of s q = Some n \<and> n \<noteq> DirN \<and> map_of u q = None;
    \<And>q c. (q, FileN c) \<in> set xs \<Longrightarrow> map_of bs (hx_sha hx c) = Some c\<rbrakk> \<Longrightarrow>
    \<exists>u'. run_keep (exec_step bs) (concat (map (\<lambda>e. [StepMkdir (butlast (en_path e)), StepPut e]) (map (snapshot_entry hx) xs))) u = (u', None)
      \<and> partly_restored s p t u' \<and> (\<forall>(q, n)\<in>set xs. map_of u' q = Some n)
      \<and> (\<forall>r. map_of u r \<noteq> None \<longrightarrow> map_of u' r = map_of u r)"
proof (induction xs arbitrary: u)
  case (Cons x xs)
  obtain q n where x: "x = (q, n)" by (cases x)
  have q: "prefix p q" "map_of s q = Some n" "n \<noteq> DirN" "map_of u q = None" using Cons(4)[of q n] x by auto
  have ne: "q \<noteq> []" using q assms(4) by auto
  have b: "prefix p (butlast q) \<or> strict_prefix (butlast q) p"
  proof (cases "p = q")
    case True
    then show ?thesis using ne by (metis append_butlast_last_id not_Cons_self2 prefixI self_append_conv strict_prefixI)
  next
    case False
    then obtain z where "q = p @ z" "z \<noteq> []" using q(1) by (auto simp: prefix_def)
    then show ?thesis by (simp add: butlast_append)
  qed
  have below: "map_of s r = Some DirN" if "prefix p r" "prefix r (butlast q)" for r
  proof -
    have "strict_prefix r q"
      using that(2) ne by (metis append_butlast_last_id not_Cons_self2 prefixI prefix_order.le_less_trans self_append_conv strict_prefixI)
    then show ?thesis using assms(1) q(2) by (auto simp: fs_wf_def)
  qed
  obtain u1 where u1: "mkdir_p (butlast q) u = Inr u1" "partly_restored s p t u1" "map_of u1 (butlast q) = Some DirN"
      "\<And>r. map_of u r \<noteq> None \<Longrightarrow> map_of u1 r = map_of u r"
      "\<And>r. map_of s r \<noteq> Some DirN \<Longrightarrow> prefix p r \<Longrightarrow> map_of u1 r = map_of u r"
    using mkdir_restores[OF Cons(2) assms(2,3) b below] by blast
  have "map_of u1 q = None" using u1(5)[of q] q by simp
  moreover have "\<And>c. n = FileN c \<Longrightarrow> map_of bs (hx_sha hx c) = Some c" using Cons(5) x by auto
  ultimately obtain u2 where u2: "exec_step bs (StepPut (snapshot_entry hx (q, n))) u1 = Inr u2"
      "map_of u2 = (map_of u1)(q \<mapsto> n)" "partly_restored s p t u2"
    using put_restores[OF u1(2) q(1) ne q(2,3) u1(3)] by blast
  have rest: "prefix p r \<and> map_of s r = Some m \<and> m \<noteq> DirN \<and> map_of u2 r = None" if "(r, m) \<in> set xs" for r m
  proof -
    have "r \<noteq> q" using Cons(3) x that by force
    moreover have "prefix p r \<and> map_of s r = Some m \<and> m \<noteq> DirN \<and> map_of u r = None" using Cons(4)[of r m] that by auto
    ultimately show ?thesis using u1(5)[of r] u2(2) by auto
  qed
  obtain u' where u': "run_keep (exec_step bs) (concat (map (\<lambda>e. [StepMkdir (butlast (en_path e)), StepPut e]) (map (snapshot_entry hx) xs))) u2 = (u', None)"
      "partly_restored s p t u'" "\<And>q n. (q, n) \<in> set xs \<Longrightarrow> map_of u' q = Some n"
      "\<And>r. map_of u2 r \<noteq> None \<Longrightarrow> map_of u' r = map_of u2 r"
    using Cons(1)[OF u2(3) _ rest] Cons(3,5) by force
  show ?case
  proof (intro exI[of _ u'] conjI ballI allI impI)
    show "run_keep (exec_step bs) (concat (map (\<lambda>e. [StepMkdir (butlast (en_path e)), StepPut e]) (map (snapshot_entry hx) (x # xs)))) u = (u', None)"
      using u1(1) u2(1) u'(1) x by simp
    show "partly_restored s p t u'" by (rule u'(2))
    show "case y of (q, n) \<Rightarrow> map_of u' q = Some n" if "y \<in> set (x # xs)" for y
      using that u'(3) u'(4)[of q] u2(2) x by auto
    show "map_of u' r = map_of u r" if "map_of u r \<noteq> None" for r
      using u1(4)[OF that] u2(2) u'(4)[of r] that q(4) by auto
  qed
qed auto

text \<open>The restoration of one captured root.\<close>

lemma restore_root:
  assumes "fs_wf s" "map_of s [] = Some DirN" "map_wf t" "clear_way p t" "covers hx bs s p"
    and live: "exists_sync (hx_live hx) s p \<longleftrightarrow> map_of s p \<noteq> None"
  shows "\<exists>u. run_keep (exec_step bs) (restore_steps (capture_root hx s p)) t = (u, None) \<and> map_wf u
    \<and> (\<forall>q. prefix p q \<longrightarrow> map_of u q = map_of s q)
    \<and> (\<forall>q. \<not> prefix p q \<longrightarrow> map_of u q = map_of t q
          \<or> strict_prefix q p \<and> map_of t q = None \<and> map_of u q = Some DirN \<and> map_of s p \<noteq> None)"
proof (cases "map_of s p = None")
  case True
  then have e: "rs_entries (capture_root hx s p) = []" "rs_path (capture_root hx s p) = p"
    using live by (simp_all add: capture_root_def capture_entries_def Let_def)
  have "map_of s q = None" if "prefix p q" for q
    using that True assms(1) by (cases "q = p") (auto simp: fs_wf_def strict_prefix_def)
  then show ?thesis using assms(3) by (auto simp: restore_steps_def e map_of_rm_rf rm_rf_wf)
next
  case False
  define es where "es = walk s p"
  define ds where "ds = map fst (filter (\<lambda>(q, n). n = DirN) es)"
  define xs where "xs = filter (\<lambda>(q, n). n \<noteq> DirN) es"
  have cap: "rs_entries (capture_root hx s p) = map (snapshot_entry hx) es" "rs_path (capture_root hx s p) = p"
    using live False by (simp_all add: capture_root_def capture_entries_def Let_def es_def)
  have kd: "en_kind (snapshot_entry hx y) = KDirectory \<longleftrightarrow> snd y = DirN" "en_path (snapshot_entry hx y) = fst y" for y
    by (cases y; simp)+
  have steps: "restore_steps (capture_root hx s p) = StepRm p # map StepMkdir ds
      @ concat (map (\<lambda>e. [StepMkdir (butlast (en_path e)), StepPut e]) (map (snapshot_entry hx) xs))"
    by (simp add: restore_steps_def cap filter_map o_def kd ds_def xs_def case_prod_unfold)
  have inw: "(q, n) \<in> set es \<longleftrightarrow> prefix p q \<and> map_of s q = Some n" for q n
    unfolding es_def by (rule walk_iff[OF assms(1)])
  have p0: "partly_restored s p t (rm_rf p t)"
    using assms(3) by (auto simp: partly_restored_def map_of_rm_rf rm_rf_wf)
  obtain u1 where u1: "run_keep (exec_step bs) (map StepMkdir ds) (rm_rf p t) = (u1, None)" "partly_restored s p t u1"
      "\<And>q. q \<in> set ds \<Longrightarrow> map_of u1 q = Some DirN"
      "\<And>r. map_of s r \<noteq> Some DirN \<Longrightarrow> prefix p r \<Longrightarrow> map_of u1 r = map_of (rm_rf p t) r"
    using dirs_restore[OF assms(1,4) False p0, of ds bs] inw by (force simp: ds_def)
  have "distinct (map fst xs)" unfolding xs_def es_def using walk_distinct[of s p] by (simp add: distinct_map_filter)
  moreover have "prefix p q \<and> map_of s q = Some n \<and> n \<noteq> DirN \<and> map_of u1 q = None" if "(q, n) \<in> set xs" for q n
    using that inw[of q n] u1(4)[of q] by (auto simp: xs_def map_of_rm_rf)
  moreover have "map_of bs (hx_sha hx c) = Some c" if "(q, FileN c) \<in> set xs" for q c
    using that assms(5) by (auto simp: xs_def es_def covers_def)
  ultimately obtain u where u: "run_keep (exec_step bs) (concat (map (\<lambda>e. [StepMkdir (butlast (en_path e)), StepPut e]) (map (snapshot_entry hx) xs))) u1 = (u, None)"
      "partly_restored s p t u" "\<And>q n. (q, n) \<in> set xs \<Longrightarrow> map_of u q = Some n"
      "\<And>r. map_of u1 r \<noteq> None \<Longrightarrow> map_of u r = map_of u1 r"
    using files_restore[OF assms(1,4) False assms(2) u1(2), of xs bs hx] by blast
  have "map_of u q = map_of s q" if "prefix p q" for q
  proof (cases "map_of s q")
    case None
    then show ?thesis using u(2) that by (auto simp: partly_restored_def)
  next
    case (Some n)
    then have "(q, n) \<in> set es" using inw that by simp
    then show ?thesis
      using Some u(3)[of q n] u(4)[of q] u1(3)[of q] by (cases "n = DirN") (force simp: xs_def ds_def)+
  qed
  then show ?thesis using u1(1) u(1,2) steps
    by (intro exI[of _ u]) (auto simp: run_keep_append partly_restored_def)
qed

section \<open>Restoring several roots\<close>

definition live_root :: "hashes \<Rightarrow> fs \<Rightarrow> path \<Rightarrow> bool" where
  "live_root hx s p \<longleftrightarrow> (exists_sync (hx_live hx) s p \<longleftrightarrow> map_of s p \<noteq> None)"

definition capturable :: "hashes \<Rightarrow> fs \<Rightarrow> path list \<Rightarrow> bool" where
  "capturable hx s ps \<longleftrightarrow> fs_wf s \<and> map_of s [] = Some DirN \<and> (\<forall>p\<in>set ps. clear_way p s \<and> live_root hx s p)"

lemma restore_list:
  "\<lbrakk>capturable hx s ps; \<And>p. p \<in> set ps \<Longrightarrow> map_of s p \<noteq> None \<Longrightarrow> covers hx bs s p; map_wf t;
    \<And>p. p \<in> set ps \<Longrightarrow> clear_way p t\<rbrakk> \<Longrightarrow>
   \<exists>u. restore_roots bs (map (capture_root hx s) ps) t = (u, None) \<and> map_wf u
    \<and> (\<forall>p\<in>set ps. \<forall>q. prefix p q \<longrightarrow> map_of u q = map_of s q)
    \<and> (\<forall>q. (\<forall>p\<in>set ps. \<not> prefix p q) \<longrightarrow> map_of u q = map_of t q
          \<or> map_of t q = None \<and> map_of u q = Some DirN \<and> (\<exists>p\<in>set ps. strict_prefix q p \<and> map_of s p \<noteq> None))"
proof (induction ps arbitrary: t)
  case Nil
  then show ?case by (simp add: restore_roots_def)
next
  case (Cons p ps)
  have s: "fs_wf s" "map_of s [] = Some DirN" and lp: "live_root hx s p"
    and cw: "\<And>r. r \<in> set ps \<Longrightarrow> clear_way r s" and cap: "capturable hx s ps"
    using Cons(2) by (auto simp: capturable_def)
  have cov: "covers hx bs s p"
  proof (cases "map_of s p")
    case None
    then show ?thesis by (simp add: covers_def walk.simps)
  qed (use Cons(3)[of p] in auto)
  obtain u1 where u1: "run_keep (exec_step bs) (restore_steps (capture_root hx s p)) t = (u1, None)" "map_wf u1"
      "\<And>q. prefix p q \<Longrightarrow> map_of u1 q = map_of s q"
      "\<And>q. \<not> prefix p q \<Longrightarrow> map_of u1 q = map_of t q
          \<or> strict_prefix q p \<and> map_of t q = None \<and> map_of u1 q = Some DirN \<and> map_of s p \<noteq> None"
    using restore_root[OF s Cons(4) Cons(5)[of p] cov] lp by (auto simp: live_root_def)
  have "clear_way r u1" if r: "r \<in> set ps" for r
    unfolding clear_way_def
  proof (intro allI impI)
    fix q assume q: "strict_prefix q r"
    show "map_of u1 q = None \<or> map_of u1 q = Some DirN"
    proof (cases "prefix p q")
      case True
      then show ?thesis using u1(3) cw[OF r] q by (auto simp: clear_way_def)
    next
      case False
      then show ?thesis using u1(4)[OF False] Cons(5)[of r] r q by (auto simp: clear_way_def)
    qed
  qed
  then obtain u where u: "restore_roots bs (map (capture_root hx s) ps) u1 = (u, None)" "map_wf u"
      "\<And>r q. r \<in> set ps \<Longrightarrow> prefix r q \<Longrightarrow> map_of u q = map_of s q"
      "\<And>q. (\<forall>r\<in>set ps. \<not> prefix r q) \<Longrightarrow> map_of u q = map_of u1 q
          \<or> map_of u1 q = None \<and> map_of u q = Some DirN \<and> (\<exists>r\<in>set ps. strict_prefix q r \<and> map_of s r \<noteq> None)"
    using Cons(1)[OF cap _ u1(2)] Cons(3) by auto
  have first: "map_of u q = map_of s q" if pq: "prefix p q" for q
  proof (cases "\<exists>r\<in>set ps. prefix r q")
    case True
    then show ?thesis using u(3) by blast
  next
    case False
    then have "map_of u q = map_of u1 q \<or> map_of u1 q = None \<and> (\<exists>r\<in>set ps. strict_prefix q r \<and> map_of s r \<noteq> None)"
      using u(4)[of q] by blast
    then show ?thesis
    proof
      assume "map_of u1 q = None \<and> (\<exists>r\<in>set ps. strict_prefix q r \<and> map_of s r \<noteq> None)"
      then have "map_of s q = Some DirN" "map_of s q = None" using s(1) u1(3)[OF pq] by (auto simp: fs_wf_def)
      then show ?thesis by simp
    qed (simp add: u1(3)[OF pq])
  qed
  show ?case
  proof (intro exI[of _ u] conjI ballI allI impI)
    show "restore_roots bs (map (capture_root hx s) (p # ps)) t = (u, None)"
      using u1(1) u(1) by (simp add: restore_roots_def run_keep_append)
    show "map_of u q = map_of s q" if "r \<in> set (p # ps)" "prefix r q" for r q
      using that first u(3) by auto
    show "map_of u q = map_of t q \<or> map_of t q = None \<and> map_of u q = Some DirN
        \<and> (\<exists>p\<in>set (p # ps). strict_prefix q p \<and> map_of s p \<noteq> None)" if "\<forall>r\<in>set (p # ps). \<not> prefix r q" for q
      using u(4)[of q] u1(4)[of q] that by auto
  qed (rule u(2))
qed

section \<open>Recording\<close>

lemma append_prepared_sel [simp]:
  "j_committed (append_prepared m j) = j_committed j" "j_inactive (append_prepared m j) = j_inactive j"
  "j_prepared (append_prepared m j) = map_set (pm_id m) m (j_prepared j)" "j_root (append_prepared m j) = j_root j"
  by (simp_all add: append_prepared_def append_event_def Let_def split: option.splits)

lemma append_rolled_back_sel [simp]:
  "j_committed (append_rolled_back i r j) = j_committed j"
  "j_prepared (append_rolled_back i r j) = map_del i (j_prepared j)"
  "j_inactive (append_rolled_back i r j) = List.insert i (j_inactive j)"
  by (simp_all add: append_rolled_back_def append_event_def Let_def split: option.splits)

lemma append_undone_sel [simp]:
  "j_committed (append_undone i t j) = j_committed j"
  "j_prepared (append_undone i t j) = j_prepared j"
  "j_inactive (append_undone i t j) = List.insert i (j_inactive j)"
  by (simp_all add: append_undone_def append_event_def Let_def split: option.splits)

lemma append_committed_ok:
  assumes "map_of (j_prepared j) i = Some p"
  shows "\<exists>j'. append_committed i post j = Inr j' \<and> j_committed j' = map_set i (with_post p post) (j_committed j)
    \<and> j_prepared j' = map_del i (j_prepared j) \<and> j_inactive j' = j_inactive j"
  using assms by (auto simp: append_committed_def append_event_def Let_def split: option.splits)

definition roots_of :: "service \<Rightarrow> mutation_input \<Rightarrow> path list \<Rightarrow> bool" where
  "roots_of sv inp ps \<longleftrightarrow> sequence_sum (map (locate (sv_root sv)) (unique_roots (mi_paths inp))) = Inr ps"

definition admitted :: "(jsstring \<Rightarrow> thrown + jsstring) \<Rightarrow> mutation_input \<Rightarrow> bool" where
  "admitted check inp \<longleftrightarrow> (\<exists>xs. sequence_sum (map check (unique_roots (mi_paths inp))) = Inr xs)"

lemma covers_live:
  assumes "capturable hx s ps" "p \<in> set ps" "map_of s p \<noteq> None"
  shows "exists_sync (hx_live hx) s p"
  using assms by (auto simp: capturable_def live_root_def)

text \<open>A mutation whose action throws: the roots are as before, whatever the action left.\<close>

lemma record_failure:
  assumes inj: "inj (hx_sha hx)" and b: "blobs_ok hx (sv_blobs sv)"
    and adm: "admitted check inp" and ps: "roots_of sv inp ps"
    and cap: "capturable hx (sv_fs sv) ps"
    and act: "action (sv_fs sv) = (fs', Inl e)" "map_wf fs'" "\<And>p. p \<in> set ps \<Longrightarrow> clear_way p fs'"
  shows "\<exists>sv'. record_mutation hx check sv inp action = (sv', Inl e)
    \<and> (\<forall>p\<in>set ps. \<forall>q. prefix p q \<longrightarrow> map_of (sv_fs sv') q = map_of (sv_fs sv) q)
    \<and> j_committed (sv_journal sv') = j_committed (sv_journal sv)
    \<and> map_of (j_prepared (sv_journal sv')) = (map_of (j_prepared (sv_journal sv)))(mi_id inp := None)"
proof -
  obtain xs where xs: "sequence_sum (map check (unique_roots (mi_paths inp))) = Inr xs"
    using adm by (auto simp: admitted_def)
  obtain pre sv1 where c: "capture_roots hx sv ps = (pre, sv1)" by (cases "capture_roots hx sv ps")
  note cl = capture_roots_laws[OF b, where ps = ps, unfolded c fst_conv snd_conv]
  define prep where "prep = create_prepared (sv_journal sv1) (mi_id inp) (mi_time inp) (mi_run inp) (mi_tool inp) pre"
  have prep: "pm_pre prep = map (capture_root hx (sv_fs sv)) ps" "pm_id prep = mi_id inp"
    by (simp_all add: prep_def create_prepared_def cl(1))
  have "covers hx (sv_blobs sv1) (sv_fs sv) p" if "p \<in> set ps" "map_of (sv_fs sv) p \<noteq> None" for p
    using cl(6)[OF inj that(1) covers_live[OF cap that]] .
  then obtain u where u: "restore_roots (sv_blobs sv1) (pm_pre prep) fs' = (u, None)"
      "\<And>p q. p \<in> set ps \<Longrightarrow> prefix p q \<Longrightarrow> map_of u q = map_of (sv_fs sv) q"
    using restore_list[OF cap _ act(2,3), of "sv_blobs sv1"] unfolding prep(1) by blast
  have "record_mutation hx check sv inp action =
     (sv1\<lparr>sv_fs := u, sv_journal := append_rolled_back (mi_id inp) (err_text e) (append_prepared prep (sv_journal sv1))\<rparr>, Inl e)"
    using ps xs act(1) u(1) cl(2)
    by (simp add: record_mutation_def prepare_mutation_def Let_def roots_of_def c prep_def[symmetric] roll_back_def prep(2))
  then show ?thesis using u(2) cl(3) by (simp add: prep(2) fun_upd_idem_iff)
qed

section \<open>The final roots of one transaction\<close>

lemma cons_le_iff: "q @ [c] \<le> q @ [d] \<longleftrightarrow> c \<le> (d :: 'a :: linorder)"
  by (induction q) auto

lemma children_sorted:
  assumes "map_wf M" "\<And>r. r \<in> set (map_keys M) \<longleftrightarrow> prefix p r \<and> map_of F r \<noteq> None" "prefix p q"
  shows "sort (filter (\<lambda>r. r \<noteq> p \<and> r \<noteq> [] \<and> snapshot_parent r = q) (map_keys M)) = map (\<lambda>c. q @ [c]) (readdir_sorted F q)"
proof (rule sorted_distinct_set_unique)
  let ?cs = "readdir_sorted F q"
  show "sorted (map (\<lambda>c. q @ [c]) ?cs)"
    using readdir_order(1)[of F q] by (simp add: sorted_map cons_le_iff)
  show "sorted (sort (filter (\<lambda>r. r \<noteq> p \<and> r \<noteq> [] \<and> snapshot_parent r = q) (map_keys M)))" by simp
  show "distinct (map (\<lambda>c. q @ [c]) ?cs)" using readdir_order(2)[of F q] by (simp add: distinct_map inj_on_def)
  show "distinct (sort (filter (\<lambda>r. r \<noteq> p \<and> r \<noteq> [] \<and> snapshot_parent r = q) (map_keys M)))"
    using assms(1) by (simp add: map_wf_def)
  show "set (sort (filter (\<lambda>r. r \<noteq> p \<and> r \<noteq> [] \<and> snapshot_parent r = q) (map_keys M))) = set (map (\<lambda>c. q @ [c]) ?cs)"
  proof (intro set_eqI)
    fix r
    have "r \<in> set (sort (filter (\<lambda>r. r \<noteq> p \<and> r \<noteq> [] \<and> snapshot_parent r = q) (map_keys M)))
        \<longleftrightarrow> prefix p r \<and> map_of F r \<noteq> None \<and> r \<noteq> p \<and> r \<noteq> [] \<and> butlast r = q"
      unfolding set_sort set_filter mem_Collect_eq assms(2) by (auto simp: snapshot_parent_def)
    also have "\<dots> \<longleftrightarrow> (\<exists>c. r = q @ [c] \<and> map_of F r \<noteq> None)"
    proof
      assume a: "prefix p r \<and> map_of F r \<noteq> None \<and> r \<noteq> p \<and> r \<noteq> [] \<and> butlast r = q"
      then have "r = q @ [last r]" by (metis append_butlast_last_id)
      with a show "\<exists>c. r = q @ [c] \<and> map_of F r \<noteq> None" by blast
    next
      assume "\<exists>c. r = q @ [c] \<and> map_of F r \<noteq> None"
      then show "prefix p r \<and> map_of F r \<noteq> None \<and> r \<noteq> p \<and> r \<noteq> [] \<and> butlast r = q"
        using assms(3) by (auto simp: prefix_def butlast_append)
    qed
    also have "\<dots> \<longleftrightarrow> r \<in> set (map (\<lambda>c. q @ [c]) ?cs)"
      using readdir_keys[of _ F q] keys_iff[of r F] by (auto simp del: set_map simp: image_iff set_map[of _ ?cs])
    finally show "r \<in> set (sort (filter (\<lambda>r. r \<noteq> p \<and> r \<noteq> [] \<and> snapshot_parent r = q) (map_keys M)))
        \<longleftrightarrow> r \<in> set (map (\<lambda>c. q @ [c]) ?cs)" .
  qed
qed

lemma visit_is_walk:
  "\<lbrakk>map_wf M; \<And>q. map_of M q = (if prefix p q then map_option (\<lambda>n. snapshot_entry hx (q, n)) (map_of F q) else None);
    prefix p q\<rbrakk> \<Longrightarrow> visit p M q = map (snapshot_entry hx) (walk F q)"
proof (induction F q rule: walk.induct)
  case (1 F q)
  note IH = 1(1) and wf = 1(2) and M = 1(3) and pq = 1(4)
  show ?case
  proof (cases "map_of F q")
    case None
    then show ?thesis using pq M[of q] by (simp add: visit.simps walk.simps)
  next
    case (Some n)
    have k: "r \<in> set (map_keys M) \<longleftrightarrow> prefix p r \<and> map_of F r \<noteq> None" for r
      unfolding keys_iff M by simp
    have v: "visit p M q = snapshot_entry hx (q, n) # (if n = DirN
        then concat (map (visit p M) (map (\<lambda>c. q @ [c]) (readdir_sorted F q))) else [])"
      using Some M[of q] pq children_sorted[OF wf k pq] by (subst visit.simps) (simp del: set_map map_map)
    show ?thesis
    proof (cases "n = DirN")
      case True
      have "visit p M (q @ [c]) = map (snapshot_entry hx) (walk F (q @ [c]))" if "c \<in> set (readdir_sorted F q)" for c
        using IH[OF Some True that wf M] pq by (auto simp: prefix_def)
      then have "map (visit p M) (map (\<lambda>c. q @ [c]) (readdir_sorted F q))
          = map (\<lambda>c. map (snapshot_entry hx) (walk F (q @ [c]))) (readdir_sorted F q)" by simp
      then show ?thesis unfolding v using Some True
        by (simp only: walk.simps[of F q]) (simp add: map_concat o_def)
    next
      case False
      then show ?thesis using Some by (simp add: v walk.simps[of F q])
    qed
  qed
qed

lemma puts_captured:
  assumes "fs_wf F"
  shows "map_of (foldl (\<lambda>m e. map_set (en_path e) e m) m (map (snapshot_entry hx) (walk F p))) q
    = (if prefix p q \<and> map_of F q \<noteq> None then Some (snapshot_entry hx (q, the (map_of F q))) else map_of m q)"
proof -
  let ?es = "map (snapshot_entry hx) (walk F p)"
  have en: "map en_path ?es = map fst (walk F p)" by (auto simp: o_def snapshot_entry_def split: node.splits)
  show ?thesis
  proof (cases "prefix p q \<and> map_of F q \<noteq> None")
    case True
    then obtain n where n: "map_of F q = Some n" by auto
    then have "snapshot_entry hx (q, n) \<in> set ?es" using True walk_iff[OF assms, of q n p] by auto
    moreover have "distinct (map en_path ?es)" unfolding en by (rule walk_distinct)
    ultimately show ?thesis
      using jm.get_puts_hit[of "snapshot_entry hx (q, n)" ?es en_path "\<lambda>e. e" m] True n by simp
  next
    case False
    then have "q \<notin> en_path ` set ?es"
      using walk_sound[of q _ F p] by (auto simp: image_iff snapshot_entry_def split: node.splits prod.splits)
    then show ?thesis using jm.get_puts_miss[of q en_path ?es "\<lambda>e. e" m] False by auto
  qed
qed

lemma rs_path_capture [simp]: "rs_path (capture_root hx F p) = p"
  by (simp add: capture_root_def Let_def)

lemma capture_entries_walk:
  "live_root hx F p \<Longrightarrow> capture_entries hx F p = map (snapshot_entry hx) (walk F p)"
  by (cases "map_of F p") (simp_all add: capture_entries_def live_root_def walk.simps)

lemma compose_lookup:
  assumes "fs_wf F" "\<And>p. p \<in> set ps \<Longrightarrow> live_root hx F p"
  shows "map_of (foldl compose_step m (map (capture_root hx F) ps)) q
      = (if \<exists>p\<in>set ps. prefix p q then map_option (\<lambda>n. snapshot_entry hx (q, n)) (map_of F q) else map_of m q)
    \<and> (map_wf m \<longrightarrow> map_wf (foldl compose_step m (map (capture_root hx F) ps)))"
  using assms(2)
proof (induction ps arbitrary: m)
  case (Cons p ps)
  define m1 where "m1 = compose_step m (capture_root hx F p)"
  have es: "rs_entries (capture_root hx F p) = map (snapshot_entry hx) (walk F p)" "rs_path (capture_root hx F p) = p"
    using Cons(2) by (simp_all add: capture_root_def Let_def capture_entries_walk)
  have "map_of m1 q = (if prefix p q then map_option (\<lambda>n. snapshot_entry hx (q, n)) (map_of F q) else map_of m q)"
  proof -
    let ?del = "foldl (\<lambda>m p. map_del p m) m (filter (\<lambda>r. is_path_within r p) (map_keys m))"
    have "map_of ?del q = (if prefix p q then None else map_of m q)"
    proof (cases "map_of m q")
      case None
      then show ?thesis by (simp add: jm.get_dels)
    next
      case (Some x)
      then have "q \<in> set (map_keys m)" by (simp add: keys_iff del: set_map)
      then show ?thesis by (simp add: jm.get_dels is_path_within_def del: set_map)
    qed
    then show ?thesis
      unfolding m1_def compose_step_def es puts_captured[OF assms(1)] by (auto simp: map_option_case split: option.splits)
  qed
  moreover have "map_wf m \<Longrightarrow> map_wf m1"
    unfolding m1_def compose_step_def es by (intro jm.wf_puts jm.wf_dels)
  ultimately show ?case using Cons(1)[of m1] Cons(2) by (auto simp: m1_def)
qed simp

lemma compose_single:
  assumes "fs_wf F" "\<And>p. p \<in> set ps \<Longrightarrow> live_root hx F p" "mr_post t = map (capture_root hx F) ps"
    and "x \<in> set (compose_final_roots hx [t])"
  shows "\<exists>p\<in>set ps. x = capture_root hx F p"
proof -
  define E where "E = foldl compose_step [] (map (capture_root hx F) ps)"
  have E: "map_of E q = (if \<exists>p\<in>set ps. prefix p q then map_option (\<lambda>n. snapshot_entry hx (q, n)) (map_of F q) else None)"
      "map_wf E" for q
    using compose_lookup[OF assms(1,2), of ps "[]" q] unfolding E_def by auto
  have rp: "map rs_path (map (capture_root hx F) ps) = ps" by (simp add: o_def capture_root_def Let_def)
  obtain p where p: "p \<in> set ps"
      and x: "x = (let es = order_snapshot_entries (filter (\<lambda>e. is_path_within (en_path e) p) (map_vals E)) p in
             \<lparr>rs_path = p, rs_hash = hx_digest hx es, rs_entries = es\<rparr>)"
    using assms(4) unfolding compose_final_roots_def Let_def by (auto simp: assms(3) rp E_def[symmetric])
  define es where "es = filter (\<lambda>e. is_path_within (en_path e) p) (map_vals E)"
  define M where "M = foldl (\<lambda>m e. map_set (en_path e) e m) [] es"
  have pair: "en_path e = q" if "(q, e) \<in> set E" for q e
  proof -
    have "map_of E q = Some e" using map_of_wf[OF E(2) that] .
    then obtain n where "e = snapshot_entry hx (q, n)" unfolding E(1) by (auto split: if_splits)
    then show ?thesis by simp
  qed
  have en: "map en_path es = filter (\<lambda>q. prefix p q) (map_keys E)"
  proof -
    have "map en_path (filter (\<lambda>e. is_path_within (en_path e) p) (map_vals xs)) = filter (\<lambda>q. prefix p q) (map_keys xs)"
      if "\<forall>x\<in>set xs. en_path (snd x) = fst x" for xs
      using that by (induction xs) (simp_all add: is_path_within_def)
    moreover have "\<forall>x\<in>set E. en_path (snd x) = fst x" using pair by auto
    ultimately show ?thesis unfolding es_def by blast
  qed
  have "map_of M q = (if prefix p q then map_option (\<lambda>n. snapshot_entry hx (q, n)) (map_of F q) else None)" for q
  proof (cases "prefix p q \<and> map_of F q \<noteq> None")
    case True
    then obtain n where n: "map_of F q = Some n" by auto
    then have "map_of E q = Some (snapshot_entry hx (q, n))" using E(1)[of q] p True by auto
    then have "(q, snapshot_entry hx (q, n)) \<in> set E" by (rule map_of_SomeD)
    then have "snapshot_entry hx (q, n) \<in> set es" using True by (force simp: es_def is_path_within_def)
    moreover have "distinct (map en_path es)" unfolding en using E(2) by (simp add: map_wf_def)
    ultimately show ?thesis
      using jm.get_puts_hit[of "snapshot_entry hx (q, n)" es en_path "\<lambda>e. e" "[]"] True n by (simp add: M_def)
  next
    case False
    have "q \<notin> set (map en_path es)"
      using False E(1)[of q] by (auto simp: en keys_iff simp del: set_map split: if_splits)
    then show ?thesis using jm.get_puts_miss[of q en_path es "\<lambda>e. e" "[]"] False by (auto simp: M_def)
  qed
  moreover have "map_wf M" unfolding M_def by (rule jm.wf_puts) simp
  ultimately have "visit p M p = map (snapshot_entry hx) (walk F p)" by (intro visit_is_walk) auto
  then have "x = capture_root hx F p"
    using assms(2)[OF p]
    by (simp add: x es_def[symmetric] order_snapshot_entries_def M_def[symmetric] capture_root_def Let_def capture_entries_walk)
  with p show ?thesis by blast
qed

section \<open>Undo right after a mutation\<close>

lemma insort_snoc: "f y \<le> f x \<Longrightarrow> insort_key f y (zs @ [x]) = insort_key f y zs @ [x]"
  by (induction zs) auto

lemma sort_key_snoc: "\<forall>y\<in>set xs. f y \<le> f x \<Longrightarrow> sort_key f (xs @ [x]) = sort_key f xs @ [x]"
  by (induction xs) (auto simp: insort_snoc)

lemma with_post_sel [simp]:
  "pm_id (with_post p post) = pm_id p" "pm_pre (with_post p post) = pm_pre p"
  "pm_created (with_post p post) = pm_created p" "mr_post (with_post p post) = post"
  by (simp_all add: with_post_def prepared_mutation.extend_def mutation_record.fields_def)

definition newest :: "journal \<Rightarrow> mutation_input \<Rightarrow> bool" where
  "newest j inp \<longleftrightarrow> mi_id inp \<notin> set (map_keys (j_committed j)) \<and> mi_id inp \<notin> set (j_inactive j)
     \<and> (\<forall>m\<in>set (map_vals (j_committed j)). pm_created m \<le> mi_time inp)"

lemma record_success:
  assumes inj: "inj (hx_sha hx)" and b: "blobs_ok hx (sv_blobs sv)"
    and adm: "admitted check inp" and ps: "roots_of sv inp ps"
    and cap: "capturable hx (sv_fs sv) ps"
    and act: "action (sv_fs sv) = (F, Inr r)"
    and ch: "\<not> same_roots (map (capture_root hx (sv_fs sv)) ps) (map (capture_root hx F) ps)"
    and new: "newest (sv_journal sv) inp"
  shows "\<exists>sv1 m. record_mutation hx check sv inp action = (sv1, Inr r) \<and> sv_fs sv1 = F \<and> blobs_ok hx (sv_blobs sv1)
    \<and> (\<forall>p\<in>set ps. map_of (sv_fs sv) p \<noteq> None \<longrightarrow> covers hx (sv_blobs sv1) (sv_fs sv) p)
    \<and> last (list_active (sv_journal sv1)) = m \<and> list_active (sv_journal sv1) \<noteq> []
    \<and> pm_id m = mi_id inp \<and> pm_pre m = map (capture_root hx (sv_fs sv)) ps \<and> mr_post m = map (capture_root hx F) ps"
proof -
  obtain xs where xs: "sequence_sum (map check (unique_roots (mi_paths inp))) = Inr xs"
    using adm by (auto simp: admitted_def)
  obtain pre sv1 where c: "capture_roots hx sv ps = (pre, sv1)" by (cases "capture_roots hx sv ps")
  note cl = capture_roots_laws[OF b, where ps = ps, unfolded c fst_conv snd_conv]
  define prep where "prep = create_prepared (sv_journal sv1) (mi_id inp) (mi_time inp) (mi_run inp) (mi_tool inp) pre"
  have prep: "pm_pre prep = map (capture_root hx (sv_fs sv)) ps" "pm_id prep = mi_id inp" "pm_created prep = mi_time inp"
    by (simp_all add: prep_def create_prepared_def cl(1))
  define sv2 where "sv2 = sv1\<lparr>sv_journal := append_prepared prep (sv_journal sv1), sv_fs := F\<rparr>"
  obtain post sv3 where c3: "capture_roots hx sv2 ps = (post, sv3)" by (cases "capture_roots hx sv2 ps")
  have b2: "blobs_ok hx (sv_blobs sv2)" using cl(4) by (simp add: sv2_def)
  note cl3 = capture_roots_laws[OF b2, where ps = ps, unfolded c3 fst_conv snd_conv]
  have post: "post = map (capture_root hx F) ps" using cl3(1) by (simp add: sv2_def)
  have j3: "sv_journal sv3 = append_prepared prep (sv_journal sv)" using cl3(3) cl(3) by (simp add: sv2_def)
  obtain j where j: "append_committed (pm_id prep) post (sv_journal sv3) = Inr j"
      "j_committed j = map_set (mi_id inp) (with_post prep post) (j_committed (sv_journal sv))"
      "j_inactive j = j_inactive (sv_journal sv)"
    using append_committed_ok[of "sv_journal sv3" "pm_id prep" prep post] j3 prep(2) by auto
  have rec: "record_mutation hx check sv inp action = (sv3\<lparr>sv_journal := j\<rparr>, Inr r)"
  proof -
    have "\<not> same_roots (pm_pre prep) post" using ch prep(1) post by simp
    then show ?thesis
      using ps xs act cl(2) j(1) c3
      by (simp add: record_mutation_def prepare_mutation_def Let_def roots_of_def c prep_def[symmetric] sv2_def[symmetric])
  qed
  have act_j: "list_active j = sort_key pm_created
      (filter (\<lambda>m. pm_id m \<notin> set (j_inactive (sv_journal sv))) (map_vals (j_committed (sv_journal sv)))) @ [with_post prep post]"
  proof -
    let ?old = "filter (\<lambda>m. pm_id m \<notin> set (j_inactive (sv_journal sv))) (map_vals (j_committed (sv_journal sv)))"
    have k: "mi_id inp \<notin> set (map_keys (j_committed (sv_journal sv)))" "mi_id inp \<notin> set (j_inactive (sv_journal sv))"
        "\<forall>m\<in>set ?old. pm_created m \<le> pm_created (with_post prep post)"
      using new prep(3) by (auto simp: newest_def)
    have "list_active j = sort_key pm_created (?old @ [with_post prep post])"
      unfolding list_active_def j(2,3) map_set_new[OF k(1)] using k(2) prep(2) by simp
    also have "\<dots> = sort_key pm_created ?old @ [with_post prep post]" by (rule sort_key_snoc[OF k(3)])
    finally show ?thesis .
  qed
  have "covers hx (sv_blobs sv3) (sv_fs sv) p" if "p \<in> set ps" "map_of (sv_fs sv) p \<noteq> None" for p
    using cl(6)[OF inj that(1) covers_live[OF cap that]] cl3(5) by (auto simp: sv2_def intro: covers_le)
  then show ?thesis
    using rec act_j cl3(2,4) prep by (intro exI[of _ "sv3\<lparr>sv_journal := j\<rparr>"] exI[of _ "with_post prep post"]) (simp add: sv2_def post)
qed

lemma undo_last:
  assumes inj: "inj (hx_sha hx)" and b: "blobs_ok hx (sv_blobs sv1)"
    and cap: "capturable hx s ps" "capturable hx (sv_fs sv1) ps"
    and cov: "\<And>p. p \<in> set ps \<Longrightarrow> map_of s p \<noteq> None \<Longrightarrow> covers hx (sv_blobs sv1) s p"
    and m: "last (list_active (sv_journal sv1)) = m" "list_active (sv_journal sv1) \<noteq> []"
      "pm_pre m = map (capture_root hx s) ps" "mr_post m = map (capture_root hx (sv_fs sv1)) ps"
  shows "\<exists>sv2 out. undo hx now sv1 None = (sv2, Inr out) \<and> ur_transactions out = [pm_id m]
    \<and> (\<forall>p\<in>set ps. \<forall>q. prefix p q \<longrightarrow> map_of (sv_fs sv2) q = map_of s q)
    \<and> (\<forall>q. (\<forall>p\<in>set ps. \<not> prefix p q) \<longrightarrow> map_of (sv_fs sv2) q = map_of (sv_fs sv1) q
          \<or> map_of (sv_fs sv1) q = None \<and> map_of (sv_fs sv2) q = Some DirN)"
proof -
  have F: "fs_wf (sv_fs sv1)" "\<And>p. p \<in> set ps \<Longrightarrow> live_root hx (sv_fs sv1) p" "map_wf (sv_fs sv1)"
      "\<And>p. p \<in> set ps \<Longrightarrow> clear_way p (sv_fs sv1)"
    using cap(2) by (auto simp: capturable_def fs_wf_def)
  have "x \<in> set (compose_final_roots hx [m]) \<Longrightarrow> rs_hash (capture_root hx (sv_fs sv1) (rs_path x)) = rs_hash x" for x
    using compose_single[OF F(1,2) m(4), of x] by auto
  then have nc: "assert_can_undo hx sv1 [m] = None"
    by (auto simp: assert_can_undo_def Let_def filter_empty_conv)
  define svb where "svb = check_blobs hx sv1 [m]"
  have svb: "sv_fs svb = sv_fs sv1" "sv_journal svb = sv_journal sv1" "blobs_le (sv_blobs sv1) (sv_blobs svb)"
    using capture_roots_laws[OF b, where ps = "map rs_path (compose_final_roots hx [m])"]
    by (simp_all add: svb_def check_blobs_def)
  obtain u where u: "restore_roots (sv_blobs svb) (map (capture_root hx s) ps) (sv_fs sv1) = (u, None)"
      "\<And>p q. p \<in> set ps \<Longrightarrow> prefix p q \<Longrightarrow> map_of u q = map_of s q"
      "\<And>q. (\<forall>p\<in>set ps. \<not> prefix p q) \<Longrightarrow> map_of u q = map_of (sv_fs sv1) q
          \<or> map_of (sv_fs sv1) q = None \<and> map_of u q = Some DirN"
    using restore_list[OF cap(1) covers_le[OF cov svb(3)] F(3,4)] by blast
  have sel: "select_transactions sv1 None = [m]" using m(1,2) by (simp add: select_transactions_def)
  have "undo hx now sv1 None = (svb\<lparr>sv_fs := u, sv_journal := append_undone (pm_id m) now (sv_journal svb)\<rparr>,
      Inr \<lparr>ur_transactions = [pm_id m], ur_files = uniq (map rs_path (pm_pre m))\<rparr>)"
    using nc u(1) m(3) svb by (simp add: undo_def Let_def sel svb_def[symmetric])
  then show ?thesis using u(2,3) by auto
qed

section \<open>Recovery\<close>

lemma recover_one:
  assumes cap: "capturable hx s ps" and cov: "\<And>p. p \<in> set ps \<Longrightarrow> map_of s p \<noteq> None \<Longrightarrow> covers hx (sv_blobs sv) s p"
    and t: "map_wf (sv_fs sv)" "\<And>p. p \<in> set ps \<Longrightarrow> clear_way p (sv_fs sv)"
    and j: "j_prepared (sv_journal sv) = [(i, m)]" "pm_id m = i" "pm_pre m = map (capture_root hx s) ps"
  shows "\<exists>sv'. recover_incomplete sv = (sv', None) \<and> j_prepared (sv_journal sv') = []
    \<and> j_committed (sv_journal sv') = j_committed (sv_journal sv)
    \<and> (\<forall>p\<in>set ps. \<forall>q. prefix p q \<longrightarrow> map_of (sv_fs sv') q = map_of s q)"
proof -
  obtain u where u: "restore_roots (sv_blobs sv) (map (capture_root hx s) ps) (sv_fs sv) = (u, None)"
      "\<And>p q. p \<in> set ps \<Longrightarrow> prefix p q \<Longrightarrow> map_of u q = map_of s q"
    using restore_list[OF cap cov t] by blast
  then show ?thesis using j by (auto simp: recover_incomplete_def list_incomplete_def map_del_def)
qed

text \<open>A process that stops inside the action, and the one that starts next.\<close>

lemma recover_crash:
  assumes inj: "inj (hx_sha hx)" and b: "blobs_ok hx (sv_blobs sv)" and cap: "capturable hx (sv_fs sv) ps"
    and j: "in_step (sv_journal sv)" "j_prepared (sv_journal sv) = []" "j_root (sv_journal sv) = sv_root sv"
    and p: "prepare_mutation hx sv inp ps = (m, sv2)"
    and t: "map_wf fs'" "\<And>p. p \<in> set ps \<Longrightarrow> clear_way p fs'"
  shows "\<exists>sv'. start_service (sv_root sv) fs' (sv_blobs sv2) (j_lines (sv_journal sv2)) (j_tail (sv_journal sv2)) = Inr (sv', None)
    \<and> j_prepared (sv_journal sv') = [] \<and> j_committed (sv_journal sv') = j_committed (sv_journal sv)
    \<and> (\<forall>p\<in>set ps. \<forall>q. prefix p q \<longrightarrow> map_of (sv_fs sv') q = map_of (sv_fs sv) q)"
proof -
  obtain pre sv1 where c: "capture_roots hx sv ps = (pre, sv1)" by (cases "capture_roots hx sv ps")
  note cl = capture_roots_laws[OF b, where ps = ps, unfolded c fst_conv snd_conv]
  have m: "pm_pre m = map (capture_root hx (sv_fs sv)) ps" "pm_id m = mi_id inp"
    and j2: "sv_journal sv2 = append_prepared m (sv_journal sv)" and bl: "sv_blobs sv2 = sv_blobs sv1"
    using p cl(1,3) by (auto simp: prepare_mutation_def c Let_def create_prepared_def)
  have "in_step (sv_journal sv2)" using exec_in_step[OF j(1), of "JPrepare m"] by (simp add: j2)
  then have ld: "load (sv_root sv) (j_lines (sv_journal sv2)) (j_tail (sv_journal sv2)) = Inr (sv_journal sv2)"
    using j(3) by (simp add: in_step_def j2)
  have cov: "covers hx (sv_blobs sv2) (sv_fs sv) p" if "p \<in> set ps" "map_of (sv_fs sv) p \<noteq> None" for p
    using cl(6)[OF inj that(1) covers_live[OF cap that]] by (simp add: bl)
  define svr where "svr = \<lparr>sv_root = sv_root sv, sv_fs = fs', sv_blobs = sv_blobs sv2, sv_journal = sv_journal sv2\<rparr>"
  have "\<exists>sv'. recover_incomplete svr = (sv', None) \<and> j_prepared (sv_journal sv') = []
    \<and> j_committed (sv_journal sv') = j_committed (sv_journal svr)
    \<and> (\<forall>p\<in>set ps. \<forall>q. prefix p q \<longrightarrow> map_of (sv_fs sv') q = map_of (sv_fs sv) q)"
    by (rule recover_one[where i = "mi_id inp" and m = m, OF cap])
      (simp_all add: svr_def cov t m j2 j(2))
  then show ?thesis using ld by (simp add: start_service_def svr_def j2)
qed

section \<open>A conflict that is none\<close>

text \<open>A run that deletes a directory and then writes a file below it: the second transaction
  creates the directory again, but only the file is in its snapshot, so the composed state has
  a file without its directory and its listing is empty.\<close>

lemma delete_then_write:
  assumes "mr_post t1 = [capture_root hx F1 [a]]" "map_of F1 [a] = None"
    and "mr_post t2 = [capture_root hx F [a, b]]" "map_of F [a, b] = Some (FileN c)"
  shows "compose_final_roots hx [t1, t2] = [\<lparr>rs_path = [a], rs_hash = hx_digest hx [], rs_entries = []\<rparr>]"
proof -
  have e1: "rs_entries (capture_root hx F1 [a]) = []"
    using assms(2) by (simp add: capture_root_def Let_def capture_entries_def exists_sync_def)
  have e2: "rs_entries (capture_root hx F [a, b]) = [snapshot_entry hx ([a, b], FileN c)]"
    using assms(4) by (simp add: capture_root_def Let_def capture_entries_def exists_sync_def walk.simps)
  have E: "foldl compose_step [] [capture_root hx F1 [a], capture_root hx F [a, b]] = [([a, b], snapshot_entry hx ([a, b], FileN c))]"
    by (simp add: compose_step_def e1 e2)
  have "visit [a] [([a, b], snapshot_entry hx ([a, b], FileN c))] [a] = []" by (subst visit.simps) simp
  then show ?thesis
    unfolding compose_final_roots_def Let_def using E
    by (simp add: assms(1,3) is_path_within_def order_snapshot_entries_def)
qed

lemma undo_refused:
  assumes "select_transactions sv target = ts" "ts \<noteq> []" "assert_can_undo hx sv ts = Some e"
  shows "undo hx now sv target = (check_blobs hx sv ts, Inl e)
    \<and> sv_fs (check_blobs hx sv ts) = sv_fs sv \<and> sv_journal (check_blobs hx sv ts) = sv_journal sv"
  using assms by (simp add: undo_def Let_def check_blobs_def capture_roots_def)

section \<open>A concrete service\<close>

definition demo_hashes :: hashes where
  "demo_hashes = \<lparr>hx_sha = (\<lambda>c. c), hx_digest = (\<lambda>es. concat (map (\<lambda>e. en_hash e @ [0]) es)), hx_live = (\<lambda>p t. True)\<rparr>"

definition demo_journal :: journal where
  "demo_journal = \<lparr>j_root = js ''/w'', j_lines = [], j_tail = None, j_prepared = [], j_committed = [], j_inactive = []\<rparr>"

definition demo_service :: service where
  "demo_service = \<lparr>sv_root = js ''/w'', sv_fs = [([], DirN), ([js ''f''], FileN (js ''x''))], sv_blobs = [], sv_journal = demo_journal\<rparr>"

definition demo_mutation :: mutation_input where
  "demo_mutation = \<lparr>mi_id = js ''t1'', mi_time = 7, mi_run = js ''r'', mi_tool = MWrite, mi_paths = [js ''f'']\<rparr>"

abbreviation demo_after :: fs where
  "demo_after \<equiv> [([], DirN), ([js ''f''], FileN (js ''y''))]"

lemma demo_roots: "roots_of demo_service demo_mutation [[js ''f'']]"
  unfolding roots_of_def demo_service_def demo_mutation_def by code_simp

lemma demo_admitted: "admitted Inr demo_mutation"
  by (simp add: admitted_def demo_mutation_def unique_roots_def)

lemma demo_hash: "inj (hx_sha demo_hashes)" "blobs_ok demo_hashes (sv_blobs demo_service)"
  by (simp_all add: demo_hashes_def demo_service_def blobs_ok_def)

lemma demo_wf: "fs_wf [([], DirN), ([js ''f''], FileN c)]"
  by (auto simp: fs_wf_def map_wf_def strict_prefix_def prefix_def Cons_eq_append_conv)

lemma demo_clear: "clear_way [js ''f''] [([], DirN), ([js ''f''], FileN c)]"
  by (auto simp: clear_way_def strict_prefix_def prefix_def Cons_eq_append_conv)

lemma demo_capturable: "capturable demo_hashes [([], DirN), ([js ''f''], FileN c)] [[js ''f'']]"
  by (simp add: capturable_def demo_wf demo_clear live_root_def exists_sync_def)

text \<open>A run that deleted the directory \<open>d\<close> and then wrote \<open>d/f\<close>.\<close>

definition demo_deleted :: prepared_mutation where
  "demo_deleted = \<lparr>pm_id = js ''t1'', pm_run = js ''r'', pm_tool = MDelete, pm_root = js ''/w'', pm_created = 1, pm_pre = []\<rparr>"

definition demo_written :: prepared_mutation where
  "demo_written = \<lparr>pm_id = js ''t2'', pm_run = js ''r'', pm_tool = MWrite, pm_root = js ''/w'', pm_created = 2, pm_pre = []\<rparr>"

definition demo_tree :: fs where
  "demo_tree = [([], DirN), ([js ''d''], DirN), ([js ''d'', js ''f''], FileN (js ''x''))]"

definition demo_rewritten :: service where
  "demo_rewritten = \<lparr>sv_root = js ''/w'', sv_fs = demo_tree, sv_blobs = [],
     sv_journal = demo_journal\<lparr>j_committed :=
       [(js ''t1'', with_post demo_deleted [capture_root demo_hashes [([], DirN)] [js ''d'']]),
        (js ''t2'', with_post demo_written [capture_root demo_hashes demo_tree [js ''d'', js ''f'']])]\<rparr>\<rparr>"

lemma demo_selected:
  "select_transactions demo_rewritten (Some (js ''r''))
     = [with_post demo_deleted [capture_root demo_hashes [([], DirN)] [js ''d'']],
        with_post demo_written [capture_root demo_hashes demo_tree [js ''d'', js ''f'']]]"
  "mr_post (with_post demo_deleted [capture_root demo_hashes [([], DirN)] [js ''d'']]) = [capture_root demo_hashes [([], DirN)] [js ''d'']]"
  "mr_post (with_post demo_written [capture_root demo_hashes demo_tree [js ''d'', js ''f'']])
     = [capture_root demo_hashes (sv_fs demo_rewritten) [js ''d'', js ''f'']]"
  by (simp_all add: select_transactions_def list_active_def demo_rewritten_def demo_journal_def Let_def)
    (simp add: with_post_def prepared_mutation.extend_def mutation_record.fields_def demo_deleted_def demo_written_def)

lemma demo_changed:
  "hx_digest demo_hashes (capture_entries demo_hashes (sv_fs demo_rewritten) [js ''d'']) \<noteq> hx_digest demo_hashes []"
proof -
  have "map_of demo_tree [js ''d''] = Some DirN" by (simp add: demo_tree_def)
  then obtain es where w: "walk demo_tree [js ''d''] = ([js ''d''], DirN) # es" using walk.simps[of demo_tree "[js ''d'']"] by simp
  have "exists_sync (hx_live demo_hashes) demo_tree [js ''d'']" by (simp add: exists_sync_def demo_tree_def)
  then have "capture_entries demo_hashes (sv_fs demo_rewritten) [js ''d'']
      = snapshot_entry demo_hashes ([js ''d''], DirN) # map (snapshot_entry demo_hashes) es"
    by (simp add: capture_entries_def demo_rewritten_def w)
  then show ?thesis by (simp add: demo_hashes_def)
qed

end
