(* ===== verification/Paths_Laws.thy ===== *)
theory Paths_Laws
  imports Paths
begin

text \<open>
  The lexical boundary: a path that passes the check has no \<open>..\<close> segment left, so being below the
  workspace as a text means being below it as a path.
\<close>

section \<open>Splitting and joining\<close>

lemma split_char_append: "split_char c (xs @ c # ys) = split_char c xs @ split_char c ys"
  by (induction xs) (auto split: list.splits)

lemma split_char_single: "c \<notin> set x \<Longrightarrow> split_char c x = [x]"
  by (induction x) auto

lemma split_join: "\<lbrakk>ss \<noteq> []; \<And>s. s \<in> set ss \<Longrightarrow> c \<notin> set s\<rbrakk> \<Longrightarrow> split_char c (js_join [c] ss) = ss"
  by (induction "[c]" ss rule: js_join.induct) (auto simp: split_char_append split_char_single)

lemma split_no_sep: "s \<in> set (split_char c xs) \<Longrightarrow> c \<notin> set s"
  by (induction xs arbitrary: s) (auto split: list.splits if_splits)

section \<open>Normalised segments\<close>

definition proper :: "jsstring \<Rightarrow> bool" where
  "proper s \<longleftrightarrow> s \<noteq> [] \<and> s \<noteq> dot \<and> s \<noteq> dotdot \<and> slash \<notin> set s"

lemma all_tl: "\<forall>s\<in>set acc. P s \<Longrightarrow> \<forall>s\<in>set (tl acc). P s"
  by (cases acc) auto

lemma norm_proper:
  "\<lbrakk>\<forall>s\<in>set ss. slash \<notin> set s; \<forall>s\<in>set acc. proper s\<rbrakk> \<Longrightarrow> \<forall>s\<in>set (norm_segments False ss acc). proper s"
proof (induction ss arbitrary: acc)
  case (Cons s ss)
  have ih: "\<forall>s\<in>set acc'. proper s \<Longrightarrow> \<forall>s\<in>set (norm_segments False ss acc'). proper s" for acc'
    using Cons(1)[of acc'] Cons(2) by simp
  consider "s = [] \<or> s = dot" | "\<not> (s = [] \<or> s = dot)" "s = dotdot" | "\<not> (s = [] \<or> s = dot)" "s \<noteq> dotdot" by blast
  then show ?case
  proof cases
    case 1
    then have "norm_segments False (s # ss) acc = norm_segments False ss acc" by simp
    then show ?thesis using ih[OF Cons(3)] by simp
  next
    case 2
    then have "norm_segments False (s # ss) acc = norm_segments False ss (tl acc) \<or> norm_segments False (s # ss) acc = norm_segments False ss acc"
      by simp
    then show ?thesis using ih[OF Cons(3)] ih[OF all_tl[OF Cons(3)]] by metis
  next
    case 3
    then have "norm_segments False (s # ss) acc = norm_segments False ss (s # acc)" by simp
    moreover have "\<forall>s\<in>set (s # acc). proper s" using 3 Cons(2,3) by (simp add: proper_def)
    ultimately show ?thesis using ih[of "s # acc"] by metis
  qed
qed simp

lemma norm_of_proper: "\<forall>s\<in>set ss. proper s \<Longrightarrow> norm_segments up ss acc = rev acc @ ss"
  by (induction up ss acc rule: norm_segments.induct) (auto simp: proper_def)

lemma path_segments_proper: "is_absolute p \<Longrightarrow> \<forall>s\<in>set (path_segments p). proper s"
  unfolding path_segments_def using norm_proper[of "split_char slash p" "[]"] split_no_sep[of _ slash p] by simp

lemma dotdot_clean: "\<forall>s\<in>set ss. proper s \<Longrightarrow> dotdot \<notin> set ss"
  by (auto simp: proper_def)

lemma normalize_clean:
  assumes "is_absolute p"
  shows "dotdot \<notin> set (split_char slash (normalize_path p))"
proof -
  let ?ss = "path_segments p"
  have pr: "\<forall>s\<in>set ?ss. proper s" using path_segments_proper[OF assms] .
  have dd: "dotdot \<noteq> []" by (simp add: dotdot_def)
  show ?thesis
  proof (cases "?ss = []")
    case True
    then show ?thesis using assms dd by (auto simp: normalize_path_def Let_def is_absolute_def)
  next
    case False
    have "js_join [slash] ?ss \<noteq> []"
      using False pr by (cases ?ss; cases "tl ?ss") (auto simp: proper_def)
    then have n: "normalize_path p = [slash] @ js_join [slash] ?ss @ (if ends_with p [slash] then [slash] else [])"
      using assms by (auto simp: normalize_path_def Let_def is_absolute_def)
    have sj: "split_char slash (js_join [slash] ?ss) = ?ss"
      using False pr by (intro split_join) (auto simp: proper_def)
    have "split_char slash (js_join [slash] ?ss @ [slash]) = ?ss @ [[]]"
      using split_char_append[of slash "js_join [slash] ?ss" "[]"] sj by simp
    then show ?thesis using n sj dd dotdot_clean[OF pr] by auto
  qed
qed

lemma resolve2_absolute: "is_absolute (resolve2 cwd base input)"
  by (simp add: resolve2_def Let_def is_absolute_def)

lemma path_under_iff: "path_under base t \<longleftrightarrow> t = base \<or> (\<exists>r. t = base @ slash # r)"
  by (auto simp: path_under_def starts_with_iff)

lemma resolve_inside:
  assumes "resolve_within_workspace cwd wroot input = Inr t"
  shows "path_under (normalize_path wroot) t \<and> dotdot \<notin> set (split_char slash t)"
  using assms normalize_clean[of input] normalize_clean[OF resolve2_absolute, of cwd "normalize_path wroot" input]
  by (auto simp: resolve_within_workspace_def Let_def path_under_def split: if_splits)

section \<open>Real paths\<close>

definition really_inside :: "(jsstring \<Rightarrow> thrown + jsstring) \<Rightarrow> jsstring \<Rightarrow> jsstring \<Rightarrow> bool" where
  "really_inside realpath wroot p \<longleftrightarrow>
     (\<exists>rb rp. realpath wroot = Inr rb \<and> realpath p = Inr rp \<and> path_under (normalize_path rb) (normalize_path rp))"

definition missing :: "(jsstring \<Rightarrow> thrown + jsstring) \<Rightarrow> jsstring \<Rightarrow> bool" where
  "missing realpath p \<longleftrightarrow> (\<exists>e. realpath p = Inl e \<and> is_missing_path e)"

lemma assert_real: "assert_real_path_within_workspace rb rt a = Inr u \<longleftrightarrow> path_under (normalize_path rb) (normalize_path rt)"
  by (auto simp: assert_real_path_within_workspace_def Let_def path_under_def)

lemma existing_inside:
  assumes "resolve_existing_path_within_workspace realpath cwd wroot input WorkspaceScope = Inr t"
  shows "path_under (normalize_path wroot) t \<and> dotdot \<notin> set (split_char slash t) \<and> really_inside realpath wroot t"
  using assms resolve_inside[of cwd wroot input t]
  by (auto simp: resolve_existing_path_within_workspace_def resolve_tool_path_def really_inside_def assert_real
      split: sum.splits)

lemma ancestor_found:
  "realpath_existing_ancestor realpath wroot path q = Inr r \<Longrightarrow>
   \<exists>k. realpath ((dirname ^^ k) q) = Inr r \<and> (\<forall>i<k. missing realpath ((dirname ^^ i) q))"
proof (induction realpath wroot path q rule: realpath_existing_ancestor.induct)
  case (1 realpath wroot path q)
  show ?case
  proof (cases "realpath q")
    case (Inr x)
    then have "realpath ((dirname ^^ 0) q) = Inr r" using 1(2) by (simp add: realpath_existing_ancestor.simps)
    then show ?thesis by blast
  next
    case (Inl e)
    then have m: "is_missing_path e" using 1(2) by (auto simp: realpath_existing_ancestor.simps split: if_splits)
    have ne: "q \<noteq> normalize_path wroot"
    proof
      assume "q = normalize_path wroot"
      then show False using 1(2) Inl m by (simp add: realpath_existing_ancestor.simps)
    qed
    have p: "dirname q \<noteq> q" "realpath_existing_ancestor realpath wroot path (dirname q) = Inr r"
      using 1(2) Inl m ne by (auto simp: realpath_existing_ancestor.simps[of _ _ _ q] Let_def split: if_splits)
    obtain k where k: "realpath ((dirname ^^ k) (dirname q)) = Inr r" "\<forall>i<k. missing realpath ((dirname ^^ i) (dirname q))"
      using 1(1)[OF Inl _ ne refl p(1) p(2)] m by blast
    have "missing realpath ((dirname ^^ i) q)" if "i < Suc k" for i
      using that k(2) Inl m by (cases i) (auto simp: missing_def funpow_swap1)
    moreover have "realpath ((dirname ^^ Suc k) q) = Inr r" using k(1) by (simp add: funpow_swap1)
    ultimately show ?thesis by blast
  qed
qed

lemma writable_inside:
  assumes "resolve_writable_path_within_workspace realpath cwd wroot input WorkspaceScope = Inr t"
  shows "path_under (normalize_path wroot) t \<and> dotdot \<notin> set (split_char slash t)
    \<and> (really_inside realpath wroot t
       \<or> missing realpath t \<and> (\<exists>k. really_inside realpath wroot ((dirname ^^ Suc k) t)
            \<and> (\<forall>i\<le>k. missing realpath ((dirname ^^ i) t))))"
proof -
  have ti: "path_under (normalize_path wroot) t \<and> dotdot \<notin> set (split_char slash t)"
    using assms resolve_inside[of cwd wroot input t]
    by (auto simp: resolve_writable_path_within_workspace_def resolve_tool_path_def Let_def split: sum.splits if_splits)
  obtain rb where rb: "realpath wroot = Inr rb"
    using assms by (auto simp: resolve_writable_path_within_workspace_def resolve_tool_path_def split: sum.splits)
  have "resolve_within_workspace cwd wroot input = Inr t"
    using assms by (auto simp: resolve_writable_path_within_workspace_def resolve_tool_path_def Let_def split: sum.splits if_splits)
  then have cases: "(\<exists>rt. realpath t = Inr rt \<and> path_under (normalize_path rb) (normalize_path rt))
      \<or> (\<exists>e ra. realpath t = Inl e \<and> is_missing_path e
           \<and> realpath_existing_ancestor realpath wroot (dirname t) (dirname t) = Inr ra \<and> path_under (normalize_path rb) (normalize_path ra))"
    using assms rb
    by (auto simp: resolve_writable_path_within_workspace_def resolve_tool_path_def Let_def assert_real
        assert_real_path_within_workspace_def is_missing_path_def tool_boundary_error_def plain_error_def path_under_def
        split: sum.splits if_splits)
  then show ?thesis
  proof
    assume "\<exists>rt. realpath t = Inr rt \<and> path_under (normalize_path rb) (normalize_path rt)"
    then show ?thesis using ti rb by (auto simp: really_inside_def)
  next
    assume "\<exists>e ra. realpath t = Inl e \<and> is_missing_path e
           \<and> realpath_existing_ancestor realpath wroot (dirname t) (dirname t) = Inr ra \<and> path_under (normalize_path rb) (normalize_path ra)"
    then obtain e ra where e: "realpath t = Inl e" "is_missing_path e"
        "realpath_existing_ancestor realpath wroot (dirname t) (dirname t) = Inr ra" "path_under (normalize_path rb) (normalize_path ra)" by blast
    obtain k where k: "realpath ((dirname ^^ k) (dirname t)) = Inr ra" "\<forall>i<k. missing realpath ((dirname ^^ i) (dirname t))"
      using ancestor_found[OF e(3)] by blast
    have "missing realpath ((dirname ^^ i) t)" if "i \<le> k" for i
      using that k(2) e(1,2) by (cases i) (auto simp: missing_def funpow_swap1)
    moreover have "really_inside realpath wroot ((dirname ^^ Suc k) t)"
      using k(1) e(4) rb by (auto simp: really_inside_def funpow_swap1)
    ultimately show ?thesis using ti e(1,2) by (auto simp: missing_def)
  qed
qed

section \<open>A concrete workspace\<close>

definition demo_realpath :: "jsstring \<Rightarrow> thrown + jsstring" where
  "demo_realpath p = (if p = js ''/w/n'' then Inl ((plain_error (js ''Error'') [])\<lparr>err_code := Some (js ''ENOENT'')\<rparr>) else Inr p)"

lemma demo_lexical: "resolve_within_workspace (js ''/'') (js ''/w'') (js ''n'') = Inr (js ''/w/n'')"
  by code_simp

lemma demo_missing: "missing demo_realpath (js ''/w/n'')"
  by (simp add: missing_def demo_realpath_def is_missing_path_def)

lemma demo_parent: "really_inside demo_realpath (js ''/w'') (dirname (js ''/w/n''))"
proof -
  have "dirname (js ''/w/n'') = js ''/w''" by code_simp
  then show ?thesis by (simp add: really_inside_def demo_realpath_def path_under_def)
qed

lemma demo_writable:
  "resolve_writable_path_within_workspace demo_realpath (js ''/'') (js ''/w'') (js ''n'') WorkspaceScope = Inr (js ''/w/n'')"
  by code_simp

end
