(* ===== verification/Rpc_Stdio.thy ===== *)
theory Rpc_Stdio
  imports Errors
begin

text \<open>
  The JSON-RPC client over the standard streams of an MCP server, \<open>mcp/jsonRpcStdio.ts\<close>: the framing
  of messages by \<open>Content-Length\<close> headers and the table of requests that wait for an answer.

  Bytes are numbers below 256. \<open>dec\<close> is the decoding of UTF-8, \<open>enc\<close> the encoding and \<open>parse\<close> is
  \<open>JSON.parse\<close>, \<open>None\<close> where it throws. What reaches the client is a list of events: calls of its
  methods, output of the process, timers and aborted signals. Messages written, requests settled and
  diagnostics are recorded in order.
\<close>

section \<open>Frames\<close>

fun header_end :: "nat list \<Rightarrow> nat option" where
  "header_end [] = None"
| "header_end (b # r) = (if take 4 (b # r) = [13, 10, 13, 10] then Some 0 else map_option Suc (header_end r))"

definition lower_unit :: "nat \<Rightarrow> nat" where
  "lower_unit c = (if 65 \<le> c \<and> c \<le> 90 then c + 32 else c)"

definition is_digit :: "nat \<Rightarrow> bool" where
  "is_digit c \<longleftrightarrow> 48 \<le> c \<and> c \<le> 57"

definition read_digits :: "jsstring \<Rightarrow> nat" where
  "read_digits ds = foldl (\<lambda>n d. 10 * n + (d - 48)) 0 ds"

definition LENGTH_HEADER :: jsstring where
  "LENGTH_HEADER = js ''content-length:''"

text \<open>The first match of \<open>/Content-Length:\s*(\d+)/i\<close>. A number too large for a double exceeds every buffer.\<close>

fun content_length :: "jsstring \<Rightarrow> nat option" where
  "content_length [] = None"
| "content_length (c # r) =
     (if starts_with (map lower_unit (c # r)) LENGTH_HEADER
      then (case takeWhile is_digit (dropWhile is_ws (drop (length LENGTH_HEADER) (c # r))) of
          [] \<Rightarrow> content_length r | d # ds \<Rightarrow> Some (read_digits (d # ds)))
      else content_length r)"

text \<open>Behind the first line break; nothing without one.\<close>

fun behind_line :: "nat list \<Rightarrow> nat list option" where
  "behind_line [] = None"
| "behind_line (b # r) = (if b = 10 then Some r else behind_line r)"

lemma behind_line_shorter: "behind_line bs = Some r \<Longrightarrow> length r < length bs"
  by (induction bs) (auto split: if_splits)

text \<open>A message that is no JSON counts as \<open>undefined\<close>.\<close>

function try_read_framed_message ::
    "(nat list \<Rightarrow> jsstring) \<Rightarrow> (jsstring \<Rightarrow> jsval option) \<Rightarrow> nat list \<Rightarrow> (jsval \<times> nat list) option" where
  "try_read_framed_message dec parse buf =
     (case header_end buf of
        None \<Rightarrow> None
      | Some h \<Rightarrow> (case content_length (dec (take h buf)) of
          None \<Rightarrow> (case behind_line buf of None \<Rightarrow> None | Some r \<Rightarrow> try_read_framed_message dec parse r)
        | Some n \<Rightarrow> if length buf < h + 4 + n then None
            else Some (case parse (dec (take n (drop (h + 4) buf))) of Some v \<Rightarrow> v | None \<Rightarrow> JUndef, drop (h + 4 + n) buf)))"
  by pat_completeness auto
termination
  by (relation "measure (\<lambda>(d, p, buf). length buf)") (auto dest: behind_line_shorter)

declare try_read_framed_message.simps [simp del]

lemma header_end_room: "header_end buf = Some h \<Longrightarrow> h + 4 \<le> length buf"
proof (induction buf arbitrary: h)
  case (Cons b r)
  then show ?case
  proof (cases "take 4 (b # r) = [13, 10, 13, 10]")
    case True
    then have "length (take 4 (b # r)) = 4" by (simp only: list.size)
    then have "4 \<le> length (b # r)" by (simp only: length_take)
    then show ?thesis using Cons.prems True by simp
  qed auto
qed simp

lemma try_read_shorter: "try_read_framed_message dec parse buf = Some (v, rest) \<Longrightarrow> length rest < length buf"
proof (induction dec parse buf rule: try_read_framed_message.induct)
  case (1 dec parse buf)
  obtain h where h: "header_end buf = Some h"
    using 1(2) by (subst (asm) try_read_framed_message.simps) (auto split: option.splits)
  show ?case
  proof (cases "content_length (dec (take h buf))")
    case None
    then obtain r where r: "behind_line buf = Some r" "try_read_framed_message dec parse r = Some (v, rest)"
      using 1(2) h by (subst (asm) try_read_framed_message.simps) (auto split: option.splits)
    show ?thesis using 1(1)[OF h None r(1,2)] behind_line_shorter[OF r(1)] by simp
  next
    case (Some n)
    then show ?thesis using 1(2) h header_end_room[OF h]
      by (subst (asm) try_read_framed_message.simps) (auto split: if_splits)
  qed
qed

function read_all :: "(nat list \<Rightarrow> jsstring) \<Rightarrow> (jsstring \<Rightarrow> jsval option) \<Rightarrow> nat list \<Rightarrow> jsval list \<times> nat list" where
  "read_all dec parse buf = (case try_read_framed_message dec parse buf of
     None \<Rightarrow> ([], buf)
   | Some (v, rest) \<Rightarrow> (case read_all dec parse rest of (vs, r) \<Rightarrow> (v # vs, r)))"
  by pat_completeness auto
termination
  by (relation "measure (\<lambda>(d, p, buf). length buf)") (auto dest: try_read_shorter)

declare read_all.simps [simp del]

definition frame :: "(jsstring \<Rightarrow> nat list) \<Rightarrow> jsval \<Rightarrow> nat list" where
  "frame enc v = (let body = enc (case stringify v of Some t \<Rightarrow> t | None \<Rightarrow> js ''undefined'')
     in enc (js ''Content-Length: '' @ show_nat (length body) @ [13, 10, 13, 10]) @ body)"

section \<open>The client\<close>

record rpc_client =
  rp_child :: bool
  rp_closed :: bool
  rp_next :: nat
  rp_buffer :: "nat list"
  rp_pending :: "(nat, unit) jsmap"
  rp_sent :: "jsval list"
  rp_settled :: "(nat \<times> (thrown + jsval)) list"
  rp_notes :: "jsval list"
  rp_diagnostics :: "jsstring list"

definition new_rpc_client :: rpc_client where
  "new_rpc_client = \<lparr>rp_child = False, rp_closed = False, rp_next = 1, rp_buffer = [], rp_pending = [], rp_sent = [],
     rp_settled = [], rp_notes = [], rp_diagnostics = []\<rparr>"

definition not_running :: thrown where
  "not_running = plain_error (js ''Error'') (js ''MCP client is not running'')"

definition settle_request :: "nat \<Rightarrow> thrown + jsval \<Rightarrow> rpc_client \<Rightarrow> rpc_client" where
  "settle_request i r c = c\<lparr>rp_pending := map_del i (rp_pending c), rp_settled := rp_settled c @ [(i, r)]\<rparr>"

definition fail_all :: "thrown \<Rightarrow> rpc_client \<Rightarrow> rpc_client" where
  "fail_all e c = fold (\<lambda>i. settle_request i (Inl e)) (map_keys (rp_pending c)) c"

definition with_params :: "jsval \<Rightarrow> (jsstring \<times> jsval) list" where
  "with_params v = (if v = JUndef then [] else [(js ''params'', v)])"

definition rpc_request :: "nat \<Rightarrow> jsstring \<Rightarrow> jsval \<Rightarrow> jsval" where
  "rpc_request i m v = JObj ([(js ''jsonrpc'', JStr (js ''2.0'')), (js ''id'', JInt (int i)), (js ''method'', JStr m)] @ with_params v)"

definition rpc_notification :: "jsstring \<Rightarrow> jsval \<Rightarrow> jsval" where
  "rpc_notification m v = JObj ([(js ''jsonrpc'', JStr (js ''2.0'')), (js ''method'', JStr m)] @ with_params v)"

text \<open>A write fails with an error of the stream, or goes through.\<close>

definition write_message :: "thrown option \<Rightarrow> jsval \<Rightarrow> rpc_client \<Rightarrow> thrown + rpc_client" where
  "write_message fault v c = (case fault of Some e \<Rightarrow> Inl e | None \<Rightarrow> Inr (c\<lparr>rp_sent := rp_sent c @ [v]\<rparr>))"

definition running :: "rpc_client \<Rightarrow> bool" where
  "running c \<longleftrightarrow> \<not> rp_closed c \<and> rp_child c"

definition rpc_notify :: "thrown option \<Rightarrow> jsstring \<Rightarrow> jsval \<Rightarrow> rpc_client \<Rightarrow> thrown + rpc_client" where
  "rpc_notify fault m v c = (if \<not> running c then Inl not_running else write_message fault (rpc_notification m v) c)"

text \<open>\<open>request\<close> up to the promise it returns: a rejection, or the number of the pending request.
  \<open>pre\<close> is the reason of a signal that is aborted already.\<close>

definition open_request ::
    "thrown option \<Rightarrow> thrown option \<Rightarrow> jsstring \<Rightarrow> jsval \<Rightarrow> rpc_client \<Rightarrow> thrown + nat \<times> rpc_client" where
  "open_request fault pre m v c =
     (if \<not> running c then Inl not_running
      else case pre of
          Some e \<Rightarrow> Inl e
        | None \<Rightarrow>
          let i = rp_next c; c1 = c\<lparr>rp_next := i + 1, rp_pending := map_set i () (rp_pending c)\<rparr>
          in (case write_message fault (rpc_request i m v) c1 of
                Inl e \<Rightarrow> Inr (i, settle_request i (Inl (if is_error e then e else plain_error (js ''Error'') (err_text e))) c1)
              | Inr c2 \<Rightarrow> Inr (i, c2)))"

definition notify_cancellation :: "thrown option \<Rightarrow> nat \<Rightarrow> jsstring \<Rightarrow> rpc_client \<Rightarrow> rpc_client" where
  "notify_cancellation fault i why c =
     (case rpc_notify fault (js ''notifications/cancelled'') (JObj [(js ''requestId'', JInt (int i)), (js ''reason'', JStr why)]) c of
        Inl e \<Rightarrow> c | Inr c1 \<Rightarrow> c1)"

definition cancel_request :: "thrown option \<Rightarrow> nat \<Rightarrow> thrown \<Rightarrow> rpc_client \<Rightarrow> rpc_client" where
  "cancel_request fault i e c = (if \<not> map_has (rp_pending c) i then c
     else notify_cancellation fault i (err_text e) (settle_request i (Inl e) c))"

definition timeout_of :: "jsstring \<Rightarrow> thrown" where
  "timeout_of m = plain_error (js ''Error'') (js ''MCP request timed out: '' @ m)"

definition create_abort_error :: "abort_reason_value \<Rightarrow> thrown" where
  "create_abort_error r = plain_error (js ''AbortError'')
     (case r of StringReason t \<Rightarrow> if t \<noteq> [] then t else js ''MCP request aborted'' | _ \<Rightarrow> js ''MCP request aborted'')"

section \<open>Answers\<close>

text \<open>How a template literal prints a value; of objects it prints a fixed text.\<close>

fun show_value :: "jsval \<Rightarrow> jsstring" where
  "show_value JUndef = js ''undefined''" | "show_value JNull = js ''null''"
| "show_value (JBool b) = (if b then js ''true'' else js ''false'')" | "show_value (JInt i) = show_int i"
| "show_value (JFloat t) = t" | "show_value (JNonFinite t) = t" | "show_value (JStr t) = t"
| "show_value (JArr vs) = js_join (js '','') (map (\<lambda>v. if v = JUndef \<or> v = JNull then [] else show_value v) vs)"
| "show_value (JObj ps) = js ''[object Object]''"

fun truthy :: "jsval \<Rightarrow> bool" where
  "truthy JUndef = False" | "truthy JNull = False" | "truthy (JBool b) = b" | "truthy (JInt i) = (i \<noteq> 0)"
| "truthy (JNonFinite t) = (t \<noteq> js ''NaN'')" | "truthy (JStr t) = (t \<noteq> [])" | "truthy _ = True"

definition field_of :: "jsval \<Rightarrow> string \<Rightarrow> jsval" where
  "field_of v k = (case v of JObj ps \<Rightarrow> getp ps k | _ \<Rightarrow> JUndef)"

definition server_error :: "jsval \<Rightarrow> thrown" where
  "server_error v = plain_error (js ''Error'')
     (js ''MCP error '' @ show_value (field_of v ''code'') @ js '': '' @ show_value (field_of v ''message''))"

definition handle_message :: "jsval \<Rightarrow> rpc_client \<Rightarrow> rpc_client" where
  "handle_message v c =
     (case v of
        JObj ps \<Rightarrow>
          (case getp ps ''id'' of
             JUndef \<Rightarrow> c\<lparr>rp_notes := rp_notes c @ [v]\<rparr>
           | JNull \<Rightarrow> c\<lparr>rp_notes := rp_notes c @ [v]\<rparr>
           | JInt i \<Rightarrow>
               if 0 \<le> i \<and> map_has (rp_pending c) (nat i)
               then settle_request (nat i) (if truthy (getp ps ''error'') then Inl (server_error (getp ps ''error''))
                      else Inr (getp ps ''result'')) c
               else c
           | _ \<Rightarrow> c)
      | JArr vs \<Rightarrow> c\<lparr>rp_notes := rp_notes c @ [v]\<rparr>
      | _ \<Rightarrow> c)"

definition on_stdout ::
    "(nat list \<Rightarrow> jsstring) \<Rightarrow> (jsstring \<Rightarrow> jsval option) \<Rightarrow> nat list \<Rightarrow> rpc_client \<Rightarrow> rpc_client" where
  "on_stdout dec parse chunk c =
     (case read_all dec parse (rp_buffer c @ chunk) of
        (vs, rest) \<Rightarrow> fold handle_message vs (c\<lparr>rp_buffer := rest\<rparr>))"

section \<open>Life of the client\<close>

definition rpc_start :: "rpc_client \<Rightarrow> thrown + rpc_client" where
  "rpc_start c = (if rp_closed c then Inl (plain_error (js ''Error'') (js ''MCP stdio transport is closed''))
     else Inr (c\<lparr>rp_child := True\<rparr>))"

definition diagnose :: "jsstring \<Rightarrow> rpc_client \<Rightarrow> rpc_client" where
  "diagnose t c = c\<lparr>rp_diagnostics := rp_diagnostics c @ [t]\<rparr>"

definition on_child_error :: "thrown \<Rightarrow> rpc_client \<Rightarrow> rpc_client" where
  "on_child_error e c = diagnose (err_text e)
     (fail_all (if is_error e then e else plain_error (js ''Error'') (err_text e)) c)"

definition exit_message :: "int option \<Rightarrow> jsstring option \<Rightarrow> jsstring" where
  "exit_message code sig = js ''MCP process exited (code='' @ (case code of Some n \<Rightarrow> show_int n | None \<Rightarrow> js ''null'')
     @ js '', signal='' @ (case sig of Some t \<Rightarrow> t | None \<Rightarrow> js ''null'') @ js '')''"

definition on_child_close :: "int option \<Rightarrow> jsstring option \<Rightarrow> rpc_client \<Rightarrow> rpc_client" where
  "on_child_close code sig c = diagnose (exit_message code sig)
     (fail_all (plain_error (js ''Error'') (exit_message code sig)) (c\<lparr>rp_closed := True\<rparr>))"

definition rpc_close :: "rpc_client \<Rightarrow> rpc_client" where
  "rpc_close c = (if rp_closed c then c
     else (fail_all (plain_error (js ''Error'') (js ''MCP client closed'')) (c\<lparr>rp_closed := True\<rparr>))\<lparr>rp_child := False\<rparr>)"

datatype rpc_event =
    Start
  | Request "thrown option" "thrown option" jsstring jsval
  | Notify "thrown option" jsstring jsval
  | TimedOut "thrown option" nat jsstring
  | Aborted "thrown option" nat abort_reason_value
  | Output "nat list"
  | Stderr jsstring
  | ChildError thrown
  | ChildClose "int option" "jsstring option"
  | Close

fun rpc_step ::
    "(nat list \<Rightarrow> jsstring) \<Rightarrow> (jsstring \<Rightarrow> jsval option) \<Rightarrow> rpc_event \<Rightarrow> rpc_client \<Rightarrow> thrown + rpc_client" where
  "rpc_step dec parse Start c = rpc_start c"
| "rpc_step dec parse (Request fault pre m v) c = map_sum id snd (open_request fault pre m v c)"
| "rpc_step dec parse (Notify fault m v) c = rpc_notify fault m v c"
| "rpc_step dec parse (TimedOut fault i m) c = Inr (cancel_request fault i (timeout_of m) c)"
| "rpc_step dec parse (Aborted fault i r) c = Inr (cancel_request fault i (create_abort_error r) c)"
| "rpc_step dec parse (Output bs) c = Inr (on_stdout dec parse bs c)"
| "rpc_step dec parse (Stderr t) c = Inr (diagnose t c)"
| "rpc_step dec parse (ChildError e) c = Inr (on_child_error e c)"
| "rpc_step dec parse (ChildClose code sig) c = Inr (on_child_close code sig c)"
| "rpc_step dec parse Close c = Inr (rpc_close c)"

text \<open>A call that throws leaves the client as it was, and its caller goes on.\<close>

definition rpc_run ::
    "(nat list \<Rightarrow> jsstring) \<Rightarrow> (jsstring \<Rightarrow> jsval option) \<Rightarrow> rpc_event list \<Rightarrow> rpc_client \<Rightarrow> rpc_client" where
  "rpc_run dec parse es c = fold (\<lambda>e c. case rpc_step dec parse e c of Inl _ \<Rightarrow> c | Inr c1 \<Rightarrow> c1) es c"

section \<open>The environment of the process\<close>

definition INHERITED_ENV_NAMES :: "jsstring list" where
  "INHERITED_ENV_NAMES = map js [''HOME'', ''LANG'', ''LC_ALL'', ''LC_CTYPE'', ''NO_COLOR'', ''PATH'', ''SHELL'', ''SYSTEMROOT'',
     ''TEMP'', ''TMP'', ''TMPDIR'', ''USERPROFILE'']"

definition build_stdio_process_env ::
    "(jsstring \<Rightarrow> jsstring option) \<Rightarrow> (jsstring \<times> jsstring option) list \<Rightarrow> (jsstring, jsstring) jsmap" where
  "build_stdio_process_env inherited configured =
     (let safe = fold (\<lambda>n m. case inherited n of Some v \<Rightarrow> map_set n v m | None \<Rightarrow> m) INHERITED_ENV_NAMES []
      in fold (\<lambda>p m. case snd p of Some v \<Rightarrow> map_set (fst p) v m | None \<Rightarrow> m) configured safe)"

end
