(* ===== verification/Rpc_Laws.thy ===== *)
theory Rpc_Laws
  imports Rpc_Stdio "HOL-Library.Sublist"
begin

text \<open>
  Laws of the JSON-RPC client: reading does not depend on how the bytes are split into chunks,
  framed messages are read back, and no request is settled twice or lost.
\<close>

section \<open>Chunks\<close>

lemma header_end_more: "header_end buf = Some h \<Longrightarrow> header_end (buf @ x) = Some h"
proof (induction buf arbitrary: h)
  case (Cons b r)
  show ?case
  proof (cases "take 4 (b # r) = [13, 10, 13, 10]")
    case True
    then have "take 4 ((b # r) @ x) = [13, 10, 13, 10]"
      using header_end_room[OF Cons.prems] by (simp del: take_Suc_Cons)
    then show ?thesis using Cons.prems True by (simp del: take_Suc_Cons)
  next
    case False
    then obtain k where k: "header_end r = Some k" "h = Suc k" using Cons.prems by (auto split: if_splits)
    have "3 \<le> length r" using header_end_room[OF k(1)] by simp
    then have "take 4 (b # r @ x) = take 4 (b # r)" by simp
    then show ?thesis using False Cons.IH[OF k(1)] k(2) by (simp del: take_Cons_numeral)
  qed
qed simp

lemma behind_line_more: "behind_line buf = Some r \<Longrightarrow> behind_line (buf @ x) = Some (r @ x)"
  by (induction buf) (auto split: if_splits)

lemma header_has_line: "header_end buf = Some h \<Longrightarrow> behind_line buf \<noteq> None"
proof (induction buf arbitrary: h)
  case (Cons b r)
  show ?case
  proof (cases "take 4 (b # r) = [13, 10, 13, 10]")
    case True
    then show ?thesis by (cases r) auto
  qed (use Cons in \<open>auto split: if_splits\<close>)
qed simp

lemma try_read_more: "try_read_framed_message dec parse buf = Some (v, rest) \<Longrightarrow> try_read_framed_message dec parse (buf @ x) = Some (v, rest @ x)"
proof (induction dec parse buf rule: try_read_framed_message.induct)
  case (1 dec parse buf)
  obtain h where h: "header_end buf = Some h"
    using 1(2) by (subst (asm) try_read_framed_message.simps) (auto split: option.splits)
  note h' = header_end_more[OF h, of x] header_end_room[OF h]
  have th: "take h (buf @ x) = take h buf" using h'(2) by simp
  show ?case
  proof (cases "content_length (dec (take h buf))")
    case None
    then obtain r where r: "behind_line buf = Some r" "try_read_framed_message dec parse r = Some (v, rest)"
      using 1(2) h by (subst (asm) try_read_framed_message.simps) (auto split: option.splits)
    show ?thesis
      by (subst try_read_framed_message.simps) (simp only: h'(1) option.case th None behind_line_more[OF r(1)] 1(1)[OF h None r])
  next
    case (Some n)
    then have e: "h + 4 + n \<le> length buf" "v = (case parse (dec (take n (drop (h + 4) buf))) of Some v \<Rightarrow> v | None \<Rightarrow> JUndef)"
        "rest = drop (h + 4 + n) buf"
      using 1(2) h by (subst (asm) try_read_framed_message.simps, auto split: if_splits)+
    have "take n (drop (h + 4) (buf @ x)) = take n (drop (h + 4) buf)" "drop (h + 4 + n) (buf @ x) = drop (h + 4 + n) buf @ x"
      using e(1) by simp_all
    then show ?thesis using h'(1) th Some e by (subst try_read_framed_message.simps) simp
  qed
qed

text \<open>Reading what came first, then the rest of it with what came later, is reading both at once.\<close>

lemma read_all_append:
  "read_all dec parse (a @ b) = (case read_all dec parse a of (vs, r) \<Rightarrow> (case read_all dec parse (r @ b) of (ws, r') \<Rightarrow> (vs @ ws, r')))"
proof (induction "length a" arbitrary: a rule: less_induct)
  case less
  show ?case
  proof (cases "try_read_framed_message dec parse a")
    case None
    then show ?thesis by (subst (2) read_all.simps) (simp split: prod.split)
  next
    case (Some p)
    obtain v rest where p: "p = (v, rest)" by (cases p)
    have "read_all dec parse (rest @ b) = (case read_all dec parse rest of (vs, r) \<Rightarrow> (case read_all dec parse (r @ b) of (ws, r') \<Rightarrow> (vs @ ws, r')))"
      using less try_read_shorter Some p by blast
    moreover have "read_all dec parse (a @ b) = (case read_all dec parse (rest @ b) of (vs, r) \<Rightarrow> (v # vs, r))"
      using try_read_more[of dec parse a v rest b] Some p by (subst read_all.simps) simp
    moreover have "read_all dec parse a = (case read_all dec parse rest of (vs, r) \<Rightarrow> (v # vs, r))"
      using Some p by (subst read_all.simps) simp
    ultimately show ?thesis by (simp split: prod.splits)
  qed
qed

lemma settle_buffer [simp]: "rp_buffer (settle_request i r c) = rp_buffer c" "settle_request i r (c\<lparr>rp_buffer := b\<rparr>) = (settle_request i r c)\<lparr>rp_buffer := b\<rparr>"
  by (simp_all add: settle_request_def)

lemma handle_buffer [simp]: "handle_message v (c\<lparr>rp_buffer := b\<rparr>) = (handle_message v c)\<lparr>rp_buffer := b\<rparr>"
  "rp_buffer (handle_message v c) = rp_buffer c"
  by (auto simp: handle_message_def settle_request_def split: jsval.split)

lemma handle_all_buffer: "fold handle_message vs (c\<lparr>rp_buffer := b\<rparr>) = (fold handle_message vs c)\<lparr>rp_buffer := b\<rparr>"
  by (induction vs arbitrary: c) simp_all

lemma stdout_append: "on_stdout dec parse (a @ b) c = on_stdout dec parse b (on_stdout dec parse a c)"
proof -
  obtain vs r where r: "read_all dec parse (rp_buffer c @ a) = (vs, r)" by fastforce
  obtain ws r' where r': "read_all dec parse (r @ b) = (ws, r')" by fastforce
  have "rp_buffer (fold handle_message vs (c\<lparr>rp_buffer := r\<rparr>)) = r" by (simp add: handle_all_buffer)
  then show ?thesis using read_all_append[of dec parse "rp_buffer c @ a" b] r r'
    by (simp add: on_stdout_def handle_all_buffer)
qed

lemma chunks_read: "fold (on_stdout dec parse) (chunk # chunks) c = on_stdout dec parse (concat (chunk # chunks)) c"
proof (induction chunks arbitrary: chunk c)
  case (Cons x xs)
  have "fold (on_stdout dec parse) (chunk # x # xs) c = fold (on_stdout dec parse) ((chunk @ x) # xs) c"
    by (simp add: stdout_append)
  also have "\<dots> = on_stdout dec parse (concat ((chunk @ x) # xs)) c" by (rule Cons)
  finally show ?case by simp
qed simp

lemma read_all_nothing [simp]: "read_all dec parse [] = ([], [])"
  by (simp add: read_all.simps try_read_framed_message.simps)

section \<open>Frames are read back\<close>

text \<open>What the code relies on of the codecs: ASCII is encoded by itself, and a body is read back.\<close>

definition ascii_codec :: "(jsstring \<Rightarrow> nat list) \<Rightarrow> (nat list \<Rightarrow> jsstring) \<Rightarrow> bool" where
  "ascii_codec enc dec \<longleftrightarrow> (\<forall>s. list_all (\<lambda>c. c < 128) s \<longrightarrow> enc s = s \<and> dec s = s)"

definition reads_back :: "(jsstring \<Rightarrow> nat list) \<Rightarrow> (nat list \<Rightarrow> jsstring) \<Rightarrow> (jsstring \<Rightarrow> jsval option) \<Rightarrow> jsval \<Rightarrow> bool" where
  "reads_back enc dec parse v \<longleftrightarrow> (case stringify v of None \<Rightarrow> False | Some t \<Rightarrow> parse (dec (enc t)) = Some v)"

lemma show_nat_digits: "list_all is_digit (show_nat n)"
proof (induction n rule: show_nat.induct)
  case (1 n)
  then show ?case by (subst show_nat.simps) (auto simp: is_digit_def list_all_iff)
qed

lemma read_digits_snoc: "read_digits (ds @ [d]) = 10 * read_digits ds + (d - 48)"
  by (simp add: read_digits_def)

lemma read_show [simp]: "read_digits (show_nat n) = n"
proof (induction n rule: show_nat.induct)
  case (1 n)
  then show ?case by (subst show_nat.simps) (auto simp: read_digits_snoc, simp add: read_digits_def)
qed

lemma digits_takeWhile: "list_all is_digit ds \<Longrightarrow> takeWhile is_digit ds = ds"
  by (induction ds) auto

definition HEADER :: jsstring where "HEADER = js ''Content-Length: ''"

lemma header_units: "HEADER = [67, 111, 110, 116, 101, 110, 116, 45, 76, 101, 110, 103, 116, 104, 58, 32]"
  by (simp add: HEADER_def js_def)

lemma content_length_show: "content_length (HEADER @ show_nat n) = Some n"
proof -
  have low: "map lower_unit (take 15 HEADER) = LENGTH_HEADER" by (simp add: header_units LENGTH_HEADER_def lower_unit_def js_def)
  have d: "dropWhile is_ws (32 # show_nat n) = show_nat n"
    using show_nat_digits[of n] by (cases "show_nat n") (auto simp: is_ws_def is_digit_def)
  have l: "length LENGTH_HEADER = 15" by (simp add: LENGTH_HEADER_def)
  have "starts_with (map lower_unit (HEADER @ show_nat n)) LENGTH_HEADER"
    unfolding starts_with_def l take_map using low by (simp add: header_units)
  moreover have "takeWhile is_digit (dropWhile is_ws (drop 15 (HEADER @ show_nat n))) = show_nat n"
    using d digits_takeWhile[OF show_nat_digits] by (simp add: header_units)
  moreover obtain c r where "HEADER @ show_nat n = c # r" by (simp add: header_units)
  moreover obtain d ds where "show_nat n = d # ds" by (cases "show_nat n") simp_all
  ultimately show ?thesis using l read_show[of n] by (simp only: content_length.simps if_True list.case)
qed

lemma header_end_plain: "list_all (\<lambda>c. c \<noteq> 13) xs \<Longrightarrow> header_end (xs @ [13, 10, 13, 10] @ ys) = Some (length xs)"
  by (induction xs) auto

lemma digits_ascii: "list_all (\<lambda>c. c < 128) (show_nat n)" "list_all (\<lambda>c. c \<noteq> 13) (show_nat n)"
  using show_nat_digits[of n] by (auto simp: list_all_iff is_digit_def)

lemma frame_read:
  assumes "ascii_codec enc dec" "reads_back enc dec parse v"
  shows "try_read_framed_message dec parse (frame enc v @ rest) = Some (v, rest)"
proof -
  obtain t where t: "stringify v = Some t" "parse (dec (enc t)) = Some v" using assms(2) by (auto simp: reads_back_def split: option.splits)
  define h where "h = HEADER @ show_nat (length (enc t))"
  have asc: "list_all (\<lambda>c. c < 128) h" "list_all (\<lambda>c. c \<noteq> 13) h" using digits_ascii by (simp_all add: h_def header_units)
  then have "enc (h @ [13, 10, 13, 10]) = h @ [13, 10, 13, 10]" "dec h = h" using assms(1) by (simp_all add: ascii_codec_def)
  then have f: "frame enc v @ rest = h @ [13, 10, 13, 10] @ enc t @ rest" "dec h = h"
    using t(1) by (simp_all add: frame_def Let_def h_def HEADER_def)
  have e: "header_end (frame enc v @ rest) = Some (length h)" unfolding f(1) by (rule header_end_plain[OF asc(2)])
  have "content_length (dec (take (length h) (frame enc v @ rest))) = Some (length (enc t))"
    using content_length_show f by (simp add: h_def)
  moreover have "drop (length h + 4) (frame enc v @ rest) = enc t @ rest" unfolding f(1) by simp
  moreover from this have "drop (length h + 4 + length (enc t)) (frame enc v @ rest) = rest"
    by (metis add.commute append_eq_conv_conj drop_drop)
  moreover have "length h + 4 + length (enc t) \<le> length (frame enc v @ rest)" unfolding f(1) by simp
  ultimately show ?thesis using e t(2) by (subst try_read_framed_message.simps) (simp del: length_append)
qed

lemma frames_read:
  assumes "ascii_codec enc dec" "list_all (reads_back enc dec parse) vs"
  shows "read_all dec parse (concat (map (frame enc) vs)) = (vs, [])"
  using assms(2)
proof (induction vs)
  case (Cons v vs)
  then show ?case using frame_read[OF assms(1), of parse v] by (subst read_all.simps) simp
qed simp

section \<open>Requests are settled once\<close>

definition settled_ids :: "rpc_client \<Rightarrow> nat list" where
  "settled_ids c = map fst (rp_settled c)"

text \<open>The requests numbered so far are pending or settled, none twice; a closed client has none pending.\<close>

definition rpc_inv :: "rpc_client \<Rightarrow> bool" where
  [inv_defs]: "rpc_inv c \<longleftrightarrow> distinct (map_keys (rp_pending c) @ settled_ids c)
     \<and> set (map_keys (rp_pending c)) \<union> set (settled_ids c) = {1..<rp_next c} \<and> 1 \<le> rp_next c
     \<and> (rp_closed c \<longrightarrow> rp_pending c = [])"

lemma settle_inv:
  assumes "rpc_inv c" "i \<in> set (map_keys (rp_pending c))"
  shows "rpc_inv (settle_request i r c)"
proof -
  have d: "distinct (map_keys (rp_pending c))" "distinct (settled_ids c)"
      "set (map_keys (rp_pending c)) \<inter> set (settled_ids c) = {}"
    using assms(1) by (simp_all add: rpc_inv_def)
  have k: "map_keys (map_del i (rp_pending c)) = filter (\<lambda>j. j \<noteq> i) (map_keys (rp_pending c))"
    by (simp add: map_del_def filter_map o_def)
  have "distinct (filter (\<lambda>j. j \<noteq> i) (map_keys (rp_pending c)) @ settled_ids c @ [i])"
    using d assms(2) by auto
  moreover have "set (filter (\<lambda>j. j \<noteq> i) (map_keys (rp_pending c))) \<union> set (settled_ids c @ [i])
      = set (map_keys (rp_pending c)) \<union> set (settled_ids c)"
    using assms(2) by auto
  moreover have "rp_closed c \<Longrightarrow> map_del i (rp_pending c) = []" using assms(1) by (simp add: rpc_inv_def map_del_def)
  ultimately show ?thesis using assms(1) k
    by (simp add: rpc_inv_def settle_request_def settled_ids_def del: set_map set_filter set_append)
qed

lemma rpc_inv_fields [simp]:
  "rpc_inv (c\<lparr>rp_buffer := b\<rparr>) = rpc_inv c" "rpc_inv (c\<lparr>rp_sent := s\<rparr>) = rpc_inv c" "rpc_inv (c\<lparr>rp_notes := n\<rparr>) = rpc_inv c"
  "rpc_inv (c\<lparr>rp_diagnostics := d\<rparr>) = rpc_inv c" "rpc_inv (c\<lparr>rp_child := b2\<rparr>) = rpc_inv c"
  by (simp_all add: rpc_inv_def settled_ids_def)

lemma fold_settle_inv:
  "distinct is \<Longrightarrow> set is \<subseteq> set (map_keys (rp_pending c)) \<Longrightarrow> rpc_inv c \<Longrightarrow> rpc_inv (fold (\<lambda>i. settle_request i r) is c)"
proof (induction "is" arbitrary: c)
  case (Cons i js)
  have "set js \<subseteq> set (map_keys (rp_pending (settle_request i r c)))"
    using Cons.prems(1,2) by (auto simp: settle_request_def keys_map_del simp del: set_map)
  then show ?case using Cons.IH settle_inv[of c i r] Cons.prems by simp
qed simp

lemma fold_settle_fields:
  "rp_closed (fold (\<lambda>i. settle_request i r) is c) = rp_closed c" "rp_next (fold (\<lambda>i. settle_request i r) is c) = rp_next c"
  "rp_pending (fold (\<lambda>i. settle_request i r) is c) = filter (\<lambda>p. fst p \<notin> set is) (rp_pending c)"
  "settled_ids (fold (\<lambda>i. settle_request i r) is c) = settled_ids c @ is"
proof (induction "is" arbitrary: c)
  case (Cons i js)
  { case 1 show ?case using Cons(1) by (simp add: settle_request_def) }
  { case 2 show ?case using Cons(2) by (simp add: settle_request_def) }
  { case 3 show ?case using Cons(3) by (auto simp: settle_request_def map_del_def intro: filter_cong) }
  { case 4 show ?case using Cons(4) by (simp add: settle_request_def settled_ids_def) }
qed simp_all

lemma fail_all_empty [simp]: "rp_pending (fail_all e c) = []"
  by (auto simp: fail_all_def fold_settle_fields filter_empty_conv)

lemma fail_all_inv:
  assumes "rpc_inv c"
  shows "rpc_inv (fail_all e (c\<lparr>rp_closed := b\<rparr>))"
proof -
  have "distinct (map_keys (rp_pending c))" using assms by (simp add: rpc_inv_def)
  then have "rpc_inv (fail_all e (c\<lparr>rp_closed := False\<rparr>))" unfolding fail_all_def
    by (intro fold_settle_inv) (use assms in \<open>auto simp: rpc_inv_def settled_ids_def\<close>)
  moreover have "fail_all e (c\<lparr>rp_closed := b\<rparr>) = (fail_all e (c\<lparr>rp_closed := False\<rparr>))\<lparr>rp_closed := b\<rparr>"
  proof -
    have "fold (\<lambda>i. settle_request i (Inl e)) is (c\<lparr>rp_closed := b\<rparr>) = (fold (\<lambda>i. settle_request i (Inl e)) is (c\<lparr>rp_closed := False\<rparr>))\<lparr>rp_closed := b\<rparr>"
      for "is"
    proof (induction "is" arbitrary: c)
      case (Cons i js)
      have "settle_request i (Inl e) (c\<lparr>rp_closed := x\<rparr>) = (settle_request i (Inl e) c)\<lparr>rp_closed := x\<rparr>" for x by (simp add: settle_request_def)
      then show ?case using Cons[of "settle_request i (Inl e) c"] by simp
    qed simp
    then show ?thesis by (simp add: fail_all_def)
  qed
  ultimately show ?thesis by (simp add: rpc_inv_def settled_ids_def)
qed

lemma notify_inv: "rpc_inv c \<Longrightarrow> rpc_notify fault m v c = Inr c' \<Longrightarrow> rpc_inv c'"
  by (auto simp: rpc_notify_def write_message_def split: if_splits option.splits)

lemma cancel_inv:
  assumes "rpc_inv c"
  shows "rpc_inv (cancel_request fault i e c)"
proof (cases "map_has (rp_pending c) i")
  case True
  then have st: "rpc_inv (settle_request i (Inl e) c)" by (intro settle_inv assms) simp
  show ?thesis unfolding cancel_request_def notify_cancellation_def
    using True st notify_inv[OF st] by (simp only: not_True_eq_False if_False split: sum.split) blast
qed (simp add: cancel_request_def assms)

lemma handle_inv: "rpc_inv c \<Longrightarrow> rpc_inv (handle_message v c)"
  by (auto simp: handle_message_def intro!: settle_inv split: jsval.split)

lemma handle_all_inv: "rpc_inv c \<Longrightarrow> rpc_inv (fold handle_message vs c)"
  by (induction vs arbitrary: c) (auto simp: handle_inv)

lemma open_request_inv:
  assumes "rpc_inv c" "open_request fault pre m v c = Inr (i, c')"
  shows "rpc_inv c'"
proof -
  define c1 where "c1 = c\<lparr>rp_next := rp_next c + 1, rp_pending := map_set (rp_next c) () (rp_pending c)\<rparr>"
  have run: "running c" using assms(2) by (auto simp: open_request_def split: if_splits)
  have new: "rp_next c \<notin> set (map_keys (rp_pending c))" "rp_next c \<notin> set (settled_ids c)" using assms(1) by (auto simp: rpc_inv_def)
  have p: "rp_pending c1 = rp_pending c @ [(rp_next c, ())]" using new(1) by (simp add: c1_def map_set_new del: set_map)
  have i1: "rpc_inv c1" using assms(1) run new unfolding rpc_inv_def p by (auto simp: c1_def settled_ids_def running_def)
  have in1: "rp_next c \<in> set (map_keys (rp_pending c1))" by (simp add: p)
  have "pre = None" using assms(2) run by (auto simp: open_request_def split: option.splits)
  then have o: "open_request fault pre m v c = (case write_message fault (rpc_request (rp_next c) m v) c1 of
      Inl e \<Rightarrow> Inr (rp_next c, settle_request (rp_next c) (Inl (if is_error e then e else plain_error (js ''Error'') (err_text e))) c1)
    | Inr c2 \<Rightarrow> Inr (rp_next c, c2))"
    using run by (simp only: open_request_def Let_def c1_def not_True_eq_False if_False option.case)
  show ?thesis
  proof (cases fault)
    case None
    then show ?thesis using assms(2) i1 unfolding o by (auto simp: write_message_def)
  next
    case (Some e)
    have "c' = settle_request (rp_next c) (Inl (if is_error e then e else plain_error (js ''Error'') (err_text e))) c1"
      using assms(2) Some unfolding o by (auto simp: write_message_def)
    then show ?thesis using settle_inv[OF i1 in1] by simp
  qed
qed

interpretation rpc: machine "rpc_step dec parse" rpc_inv for dec parse
proof (unfold_locales, goal_cases)
  case (1 c e c')
  then show ?case
  proof (cases e)
    case (Request fault pre m v)
    then show ?thesis using 1 open_request_inv[of c fault pre m v] by (cases "open_request fault pre m v c") auto
  next
    case (Output bs)
    then show ?thesis using 1 by (auto simp: on_stdout_def handle_all_inv split: prod.split)
  next
    case (ChildError x)
    then show ?thesis using 1 fail_all_inv[of c _ "rp_closed c"] by (auto simp: on_child_error_def diagnose_def)
  next
    case (ChildClose a b)
    then show ?thesis using 1 fail_all_inv by (auto simp: on_child_close_def diagnose_def)
  next
    case Close
    then show ?thesis using 1 fail_all_inv by (auto simp: rpc_close_def)
  qed (auto simp: rpc_start_def diagnose_def intro: notify_inv cancel_inv split: if_splits)
qed

lemma rpc_new: "rpc_inv new_rpc_client"
  by (auto simp: rpc_inv_def new_rpc_client_def settled_ids_def)

lemma rpc_run_inv: "rpc_inv c \<Longrightarrow> rpc_inv (rpc_run dec parse es c)"
  unfolding rpc_run_def by (induction es arbitrary: c) (auto split: sum.split dest: rpc.exec_inv)

lemma rpc_close_inv: "rpc_inv c \<Longrightarrow> rpc_inv (rpc_close c)"
  using fail_all_inv[of c] by (auto simp: rpc_close_def)

lemma rpc_run_append: "rpc_run dec parse (es @ fs) c = rpc_run dec parse fs (rpc_run dec parse es c)"
  by (simp add: rpc_run_def)

lemma close_pending [simp]: "rpc_inv c \<Longrightarrow> rp_pending (rpc_close c) = []"
  by (simp add: rpc_close_def rpc_inv_def)

text \<open>Settled requests keep their outcome.\<close>

lemma settle_grows: "prefix (rp_settled c) (rp_settled (settle_request i r c))"
  by (simp add: settle_request_def)

lemma fold_grows:
  assumes "\<And>x c. prefix (rp_settled c) (rp_settled (f x c))"
  shows "prefix (rp_settled c) (rp_settled (fold f xs c))"
  by (induction xs arbitrary: c) (simp, metis assms fold_simps(2) prefix_order.trans)

lemma fail_all_grows: "prefix (rp_settled c) (rp_settled (fail_all e c))"
  unfolding fail_all_def by (rule fold_grows) (rule settle_grows)

lemma handle_grows: "prefix (rp_settled c) (rp_settled (handle_message v c))"
  by (auto simp: handle_message_def settle_request_def split: jsval.split)

lemma notify_grows: "rpc_notify fault m v c = Inr c' \<Longrightarrow> rp_settled c' = rp_settled c"
  by (auto simp: rpc_notify_def write_message_def split: if_splits option.splits)

lemma cancel_grows: "prefix (rp_settled c) (rp_settled (cancel_request fault i e c))"
  by (auto simp: cancel_request_def notify_cancellation_def settle_request_def split: sum.split dest!: notify_grows)

lemma open_grows: "open_request fault pre m v c = Inr (i, c') \<Longrightarrow> prefix (rp_settled c) (rp_settled c')"
  by (auto simp: open_request_def write_message_def Let_def settle_request_def split: if_splits option.splits)

lemma step_grows: "rpc_step dec parse e c = Inr c' \<Longrightarrow> prefix (rp_settled c) (rp_settled c')"
proof (cases e)
  case (Request fault pre m v)
  assume "rpc_step dec parse e c = Inr c'"
  then show ?thesis using Request open_grows[of fault pre m v c] by (cases "open_request fault pre m v c") auto
next
  case (Output bs)
  have "prefix (rp_settled c) (rp_settled (fold handle_message vs (c\<lparr>rp_buffer := r\<rparr>)))" for vs r
    using fold_grows[of handle_message "c\<lparr>rp_buffer := r\<rparr>" vs] handle_grows by simp
  moreover assume "rpc_step dec parse e c = Inr c'"
  ultimately show ?thesis using Output by (auto simp: on_stdout_def split: prod.splits)
next
  case (ChildError x)
  assume "rpc_step dec parse e c = Inr c'"
  then show ?thesis using ChildError fail_all_grows[of c] by (auto simp: on_child_error_def diagnose_def)
next
  case (ChildClose a b)
  assume "rpc_step dec parse e c = Inr c'"
  then show ?thesis using ChildClose fail_all_grows[of "c\<lparr>rp_closed := True\<rparr>"] by (auto simp: on_child_close_def diagnose_def)
next
  case Close
  assume "rpc_step dec parse e c = Inr c'"
  then show ?thesis using Close fail_all_grows[of "c\<lparr>rp_closed := True\<rparr>"] by (auto simp: rpc_close_def)
qed (auto simp: rpc_start_def diagnose_def split: if_splits dest: notify_grows intro: cancel_grows)

lemma rpc_run_grows: "prefix (rp_settled c) (rp_settled (rpc_run dec parse es c))"
  unfolding rpc_run_def by (rule fold_grows) (auto split: sum.split dest: step_grows)

section \<open>A small codec\<close>

text \<open>Bytes are units, and a text is parsed when it is the text of the one message sent.\<close>

definition demo_message :: jsval where
  "demo_message = JObj [(js ''id'', JInt 1), (js ''result'', JStr (js ''ok''))]"

definition demo_parse :: "jsstring \<Rightarrow> jsval option" where
  "demo_parse t = (if Some t = stringify demo_message then Some demo_message else None)"

lemma demo_codec: "ascii_codec id id" "reads_back id id demo_parse demo_message"
proof -
  show "ascii_codec id id" by (simp add: ascii_codec_def)
  obtain t where "stringify demo_message = Some t" by (simp add: demo_message_def)
  then show "reads_back id id demo_parse demo_message" by (simp add: reads_back_def demo_parse_def)
qed

end
