(* ===== verification/Tool_Loop_Laws.thy ===== *)
theory Tool_Loop_Laws
  imports Agent_Run Exchange
begin

text \<open>
  Laws of the tool loop. Within an open turn no operation of the loop throws, the governor keeps the
  turn open, and every request the loop sends has the order providers require. With handlers that
  close the turn, a loop whose calls and streams end returns one result, the last thing it yields,
  and leaves no turn open unless it waits for an approval.
\<close>

section \<open>A session in an open turn\<close>

definition usual_estimator :: "estimator \<Rightarrow> bool" where
  "usual_estimator e \<longleftrightarrow> estimator_wf e \<and> 1 / 2 \<le> min_factor e \<and> max_factor e \<le> 2"

definition in_turn :: "jsstring \<Rightarrow> session \<Rightarrow> bool" where
  "in_turn t s \<longleftrightarrow> session_ok s \<and> usual_estimator (ss_estimator s) \<and> open_turn (ss_thread s) = Some t"

definition closed_session :: "session \<Rightarrow> bool" where
  "closed_session s \<longleftrightarrow> session_ok s \<and> usual_estimator (ss_estimator s) \<and> open_turn (ss_thread s) = None"

lemma usual_range: "usual_estimator e \<Longrightarrow> default_range e"
  by (auto simp: usual_estimator_def intro: default_rangeI)

lemma usual_calibrate: "usual_estimator e \<Longrightarrow> usual_estimator (calibrate raw n e)"
  using calibrate_wf(1) by (auto simp: usual_estimator_def calibrate_def Let_def)

lemma session_ok_call:
  assumes "session_ok s" "thread_exec (ss_est s) c (ss_thread s) = Inr th"
  shows "session_ok (s\<lparr>ss_thread := th\<rparr>)"
  using sess.exec_inv[OF assms(1), of "OnThread c" "s\<lparr>ss_thread := th\<rparr>"] assms(2) by (simp add: on_thread_def)

abbreviation session_entries :: "session \<Rightarrow> thread_entry list" where
  "session_entries s \<equiv> entries (ss_thread s)"

lemma in_turn_assistant:
  assumes "in_turn t s"
  shows "\<exists>s' e. session_append_assistant c cs s = Inr s' \<and> in_turn t s' \<and> session_entries s' = session_entries s @ [e]
    \<and> turn_id e = t \<and> result_id (message e) = None \<and> calls_of (message e) = (case cs of None \<Rightarrow> [] | Some l \<Rightarrow> l)"
proof -
  obtain th where th: "append_assistant (ss_est s) c cs (ss_thread s) = Inr th"
    using assms by (auto simp: in_turn_def append_assistant_def require_open_turn_def)
  have "session_ok (s\<lparr>ss_thread := th\<rparr>)"
    using session_ok_call[of s "AppendAssistant c cs" th] assms th by (simp add: in_turn_def)
  then show ?thesis using assms th
    by (auto simp: session_append_assistant_def on_thread_def in_turn_def append_assistant_def require_open_turn_def
        append_entry_def result_id_def calls_of_def split: option.splits)
qed

lemma in_turn_result:
  assumes "in_turn t s"
  shows "\<exists>s' e. session_append_tool_result inp s = Inr s' \<and> in_turn t s' \<and> session_entries s' = session_entries s @ [e]
    \<and> turn_id e = t \<and> result_id (message e) = Some (tr_call_id inp)"
proof -
  obtain th where th: "append_tool_result (ss_est s) inp (ss_thread s) = Inr th"
    using assms by (auto simp: in_turn_def append_tool_result_def require_open_turn_def Let_def)
  have "session_ok (s\<lparr>ss_thread := th\<rparr>)"
    using session_ok_call[of s "AppendToolResult inp" th] assms th by (simp add: in_turn_def)
  then show ?thesis using assms th
    by (auto simp: session_append_tool_result_def on_thread_def in_turn_def append_tool_result_def require_open_turn_def
        append_entry_def update_last_def result_id_def Let_def)
qed

lemma in_turn_iteration: "in_turn t s \<Longrightarrow> in_turn t (set_iteration i s)"
  using session_ok_call[of s "SetIteration i"] by (simp add: in_turn_def set_iteration_def set_current_iteration_def)

lemma in_turn_sources: "in_turn t s \<Longrightarrow> in_turn t (fold change_source cs s)"
proof (induction cs arbitrary: s)
  case (Cons c cs)
  have "in_turn t (change_source c s)"
    using Cons(2) by (cases c) (auto simp: in_turn_def session_ok_def add_source_def remove_source_def)
  then show ?case using Cons(1) by simp
qed simp

lemma entries_sources [simp]: "ss_thread (fold change_source cs s) = ss_thread s"
proof (induction cs arbitrary: s)
  case (Cons c cs)
  have "ss_thread (change_source c s) = ss_thread s" by (cases c) (simp_all add: add_source_def remove_source_def)
  then show ?case using Cons by simp
qed simp

lemma in_turn_recalibrated: "in_turn t s \<Longrightarrow> usual_estimator e \<Longrightarrow> in_turn t (recalibrated e s)"
  using recalibrated_ok[of s e]
  by (auto simp: in_turn_def usual_estimator_def) (auto simp: recalibrated_def reestimate_tokens_def Let_def)

lemma skel_reestimate: "map skel (entries (reestimate_tokens est th)) = map skel (entries th)"
  by (simp add: reestimate_tokens_def skel_def is_assistant_entry_def Let_def)

lemma grouped_recalibrated: "grouped (session_entries s) \<Longrightarrow> grouped (session_entries (recalibrated e s))"
  using grouped_cong[of "session_entries s"] skel_reestimate by (simp add: recalibrated_def Let_def)

lemma in_turn_usage:
  assumes "in_turn t s"
  shows "in_turn t (calibrate_from_usage n ms s)"
    and "grouped (session_entries s) \<Longrightarrow> grouped (session_entries (calibrate_from_usage n ms s))"
proof -
  have e: "usual_estimator (calibrate raw k (ss_estimator s))" for raw k
    using assms usual_calibrate by (simp add: in_turn_def)
  show "in_turn t (calibrate_from_usage n ms s)"
    using assms in_turn_recalibrated[OF assms e] by (auto simp: calibrate_from_usage_def Let_def split: option.split)
  show "grouped (session_entries s) \<Longrightarrow> grouped (session_entries (calibrate_from_usage n ms s))"
    using grouped_recalibrated by (auto simp: calibrate_from_usage_def Let_def split: option.split)
qed

lemma in_turn_prepare:
  assumes "in_turn t s"
  shows "\<exists>s' r. prepare_request summ sig inp s = Some (s', r) \<and> in_turn t s'
    \<and> (grouped (session_entries s) \<longrightarrow> grouped (session_entries s'))
    \<and> (\<forall>sn ms. r = Inr (sn, ms) \<longrightarrow> (\<exists>sys. sn_messages sn = Chat System sys None None # build_messages (ss_thread s')))"
proof -
  have ok: "session_ok s" "default_range (ss_estimator s)" "open_turn (ss_thread s) = Some t" "thread_ok (ss_thread s)"
    using assms usual_range by (auto simp: in_turn_def session_ok_def)
  obtain s' r where p: "prepare_request summ sig inp s = Some (s', r)" using prepare_returns[OF ok(1,2)] by blast
  obtain th r0 where g: "govern (ss_est s) (ss_policy s) (summ (ss_summarizer s)) sig
      (thread_budget (build_system_block inp s) s) (ss_thread s) = Some (th, r0)"
    "ss_thread s' = th" "ss_estimator s' = ss_estimator s"
    using prepare_cases[OF p] by metis
  have "open_turn th = Some t"
    using gov_open.pipeline[OF _ g(1), where t = t and xs = "[]"] ok by simp
  then have it: "in_turn t s'" using prepare_ok[OF ok(1) p] assms g by (simp add: in_turn_def)
  moreover have "grouped (session_entries s) \<longrightarrow> grouped (session_entries s')"
    using gov_grouped.pipeline[OF _ g(1)] ok(4) g(2) by blast
  moreover have "\<exists>sys. sn_messages sn = Chat System sys None None # build_messages (ss_thread s')" if "r = Inr (sn, ms)" for sn ms
    using p that by (cases rule: prepare_cases) (auto simp: assemble_def Let_def)
  ultimately show ?thesis using p by blast
qed

lemma in_turn_commit:
  assumes "in_turn t s"
  shows "\<exists>s'. session_commit_turn s = Inr s' \<and> closed_session s' \<and> session_entries s' = session_entries s"
proof -
  obtain th where th: "commit_turn (ss_thread s) = Inr th"
    using assms by (auto simp: in_turn_def commit_turn_def require_open_turn_def)
  have "session_ok (s\<lparr>ss_thread := th\<rparr>)" using session_ok_call[of s CommitTurn th] assms th by (simp add: in_turn_def)
  then show ?thesis using assms th
    by (auto simp: session_commit_turn_def on_thread_def in_turn_def closed_session_def commit_turn_def require_open_turn_def)
qed

lemma in_turn_abort:
  assumes "in_turn t s"
  shows "\<exists>s'. session_abort_turn m s = Inr s' \<and> closed_session s'"
proof -
  obtain th where th: "abort_turn (ss_est s) m (ss_thread s) = Inr th"
    using assms by (auto simp: in_turn_def abort_turn_def require_open_turn_def Let_def)
  have "session_ok (s\<lparr>ss_thread := th\<rparr>)" using session_ok_call[of s "AbortTurn m" th] assms th by (simp add: in_turn_def)
  then show ?thesis using assms th
    by (auto simp: session_abort_turn_def on_thread_def in_turn_def closed_session_def abort_turn_def require_open_turn_def Let_def)
qed

lemma in_turn_interrupt:
  assumes "in_turn t s"
  shows "\<exists>s'. session_interrupt_turn m s = Inr s' \<and> closed_session s' \<and> turn_answered t (session_entries s')"
proof -
  have "thread_wf (ss_thread s)" "open_turn (ss_thread s) = Some t" using assms by (auto simp: in_turn_def session_ok_def thread_ok_def)
  from interrupt_answers[OF this, of "ss_est s" m] obtain th where th: "interrupt_turn (ss_est s) m (ss_thread s) = Inr th"
    "open_turn th = None" "turn_answered t (entries th)" by blast
  have "session_ok (s\<lparr>ss_thread := th\<rparr>)" using session_ok_call[of s "InterruptTurn m" th] assms th by (simp add: in_turn_def)
  then show ?thesis using assms th by (auto simp: session_interrupt_turn_def on_thread_def in_turn_def closed_session_def)
qed

section \<open>The state of the loop\<close>

fun is_result :: "stream_event \<Rightarrow> bool" where
  "is_result (FinalResult r) = True"
| "is_result _ = False"

abbreviation loop_entries :: "loop_state \<Rightarrow> thread_entry list" where
  "loop_entries st \<equiv> session_entries (ls_session st)"

definition steady :: "jsstring \<Rightarrow> loop_state \<Rightarrow> bool" where
  "steady t st \<longleftrightarrow> in_turn t (ls_session st) \<and> list_all (\<lambda>o1. \<not> is_result o1) (ls_out st) \<and> list_all well_paired (ls_requests st)"

definition orderly :: "jsstring \<Rightarrow> loop_state \<Rightarrow> bool" where
  "orderly t st \<longleftrightarrow> steady t st \<and> grouped (loop_entries st)"

text \<open>Steps that leave session and requests as they are and yield no result.\<close>

definition minor :: "loop_state \<Rightarrow> loop_state \<Rightarrow> bool" where
  "minor st st' \<longleftrightarrow> ls_session st' = ls_session st \<and> ls_requests st' = ls_requests st
     \<and> (\<exists>new. ls_out st' = ls_out st @ new \<and> list_all (\<lambda>o1. \<not> is_result o1) new)"

lemma minorI: "ls_session st' = ls_session st \<Longrightarrow> ls_requests st' = ls_requests st \<Longrightarrow> ls_out st' = ls_out st \<Longrightarrow> minor st st'"
  by (simp add: minor_def)

lemma minor_trans: "minor a b \<Longrightarrow> minor b c \<Longrightarrow> minor a c"
  unfolding minor_def by (metis append.assoc list_all_append)

lemma minor_emit: "\<not> is_result o1 \<Longrightarrow> minor st (emit o1 st)"
  by (simp add: minor_def)

lemma steady_minor: "minor st st' \<Longrightarrow> steady t st \<Longrightarrow> steady t st'"
  by (auto simp: minor_def steady_def)

lemma orderly_minor: "minor st st' \<Longrightarrow> orderly t st \<Longrightarrow> orderly t st'"
  by (auto simp: orderly_def minor_def steady_def)

lemma minor_simps [simp]:
  "minor st st" "minor st (record_type x st)" "minor st (set_run_phase p st)" "minor st (note_satisfied q a st)"
  "minor st (notify_synchronized r st)" "minor st (record_maintained ms st)"
  by (auto intro: minorI)

lemma minor_announce: "minor st (announce x st)"
  by (simp add: announce_def minor_def)

lemma minor_announce_calls: "minor st (announce_calls cs st)"
proof -
  have "minor st (fold (\<lambda>c. emit (CallRequested c)) cs st)" for st
  proof (induction cs arbitrary: st)
    case (Cons c cs)
    have "minor st (emit (CallRequested c) st)" by (rule minor_emit) simp
    then show ?case using Cons minor_trans by fastforce
  qed simp
  then have "minor st (fold (\<lambda>c. emit (CallRequested c)) cs (emit (ToolsStart (ls_iteration st) (length cs)) st))"
    using minor_trans[OF minor_emit[of "ToolsStart (ls_iteration st) (length cs)" st]] by simp
  then show ?thesis unfolding announce_calls_def by (rule minor_trans) simp
qed

lemma minor_chunks: "take_chunks cs tu st = (r, st') \<Longrightarrow> minor st st'"
proof (induction cs tu st rule: take_chunks.induct)
  case (2 sig c cs tu st)
  have m: "minor st (emit (ThinkingDelta x) (st\<lparr>ls_thinking := y\<rparr>))" "minor st (emit (TextDelta x) (st\<lparr>ls_text := y\<rparr>))" for x y
    by (simp_all add: minor_def)
  show ?case
  proof (cases "is_aborted sig")
    case False
    then show ?thesis using 2 m minor_trans by (cases c) (fastforce split: if_splits)+
  qed (use 2 in auto)
qed simp

lemma minor_landing: "landing_chunks cs soft st = (r, st') \<Longrightarrow> minor st st'"
proof (induction cs soft st rule: landing_chunks.induct)
  case (2 sig t cs soft st)
  have m: "minor st (add_landing_text t st)" by (simp add: minor_def add_landing_text_def)
  show ?case using 2 minor_trans[OF m] by (auto split: if_splits)
qed auto

section \<open>Results enter the thread\<close>

definition tool_ids :: "llm_message list \<Rightarrow> jsstring list" where
  "tool_ids ms = concat (map (\<lambda>m. case m of ToolMsg i n c \<Rightarrow> [i] | Chat r c im cs \<Rightarrow> []) ms)"

lemma answers_ids: "answers_calls ms cs \<Longrightarrow> tool_ids ms = map call_id cs"
  unfolding answers_calls_def tool_ids_def by (induction rule: list_all2_induct) auto

lemma steady_results:
  assumes "steady t st"
  shows "\<exists>st' es. append_results loud ms st = (Inr (), st') \<and> steady t st' \<and> loop_entries st' = loop_entries st @ es
    \<and> map (\<lambda>e. (turn_id e, result_id (message e))) es = map (\<lambda>i. (t, Some i)) (tool_ids ms)"
  using assms
proof (induction ms arbitrary: st)
  case Nil
  then show ?case by (simp add: tool_ids_def)
next
  case (Cons m ms)
  show ?case
  proof (cases m)
    case (Chat r c im cs)
    then show ?thesis using Cons by (simp add: tool_ids_def)
  next
    case (ToolMsg i n c)
    define inp where "inp = \<lparr>tr_call_id = i, tr_name = n, tr_content = c, tr_summary = None, tr_iteration = Some (ls_iteration st)\<rparr>"
    obtain s' e where s: "session_append_tool_result inp (ls_session st) = Inr s'" "in_turn t s'"
        "session_entries s' = loop_entries st @ [e]" "turn_id e = t" "result_id (message e) = Some i"
      using in_turn_result[of t "ls_session st" inp] Cons(2) by (auto simp: steady_def inp_def)
    define st1 where "st1 = (if loud then emit (CallAnswered i n c) (st\<lparr>ls_session := s'\<rparr>) else st\<lparr>ls_session := s'\<rparr>)"
    have "steady t st1" using Cons(2) s(2) by (simp add: st1_def steady_def)
    from Cons(1)[OF this] obtain st' es where st': "append_results loud ms st1 = (Inr (), st')" "steady t st'"
        "loop_entries st' = loop_entries st1 @ es"
        "map (\<lambda>e. (turn_id e, result_id (message e))) es = map (\<lambda>i. (t, Some i)) (tool_ids ms)"
      by blast
    have "append_results loud (m # ms) st = (Inr (), st')"
      using st'(1) s(1) by (simp add: ToolMsg on_session_def inp_def[symmetric] st1_def)
    moreover have "loop_entries st' = loop_entries st @ e # es" using st'(3) s(3) by (simp add: st1_def)
    ultimately show ?thesis using st'(2,4) s(4,5)
      by (intro exI[of _ st'] exI[of _ "e # es"]) (simp add: ToolMsg tool_ids_def)
  qed
qed

lemma steady_assistant:
  assumes "steady t st"
  shows "\<exists>st' e. on_session (session_append_assistant c cs) st = (Inr (), st') \<and> steady t st'
    \<and> loop_entries st' = loop_entries st @ [e] \<and> turn_id e = t \<and> result_id (message e) = None
    \<and> calls_of (message e) = (case cs of None \<Rightarrow> [] | Some l \<Rightarrow> l)"
proof -
  obtain s' e where "session_append_assistant c cs (ls_session st) = Inr s'" "in_turn t s'"
      "session_entries s' = loop_entries st @ [e]" "turn_id e = t" "result_id (message e) = None"
      "calls_of (message e) = (case cs of None \<Rightarrow> [] | Some l \<Rightarrow> l)"
    using in_turn_assistant assms by (metis steady_def)
  then show ?thesis using assms by (intro exI[of _ "st\<lparr>ls_session := s'\<rparr>"] exI[of _ e]) (simp add: on_session_def steady_def)
qed

lemma grouped_group:
  assumes "grouped es" "result_id (message e) = None" "turn_id e = t"
    and "map (\<lambda>x. (turn_id x, result_id (message x))) fs = map (\<lambda>i. (t, Some i)) (map call_id (calls_of (message e)))"
  shows "grouped (es @ e # fs)"
proof -
  have "length fs = length (calls_of (message e))" using assms(4) by (metis length_map)
  then have "grouped (e # fs)" using assms by (simp add: comp_def)
  then show ?thesis using assms(1) grouped_append by blast
qed

section \<open>Handlers that close the turn\<close>

definition closes :: "(thrown + agent_result) \<times> loop_state \<Rightarrow> loop_state \<Rightarrow> bool" where
  "closes x st \<longleftrightarrow> (\<exists>r st'. x = (Inr r, st') \<and> closed_session (ls_session st') \<and> ls_out st' = ls_out st
     \<and> ls_requests st' = ls_requests st)"

text \<open>The last group of the thread up to the call that waits: its calls in front are answered.\<close>

definition answered_up_to :: "jsstring \<Rightarrow> tool_call list \<Rightarrow> session \<Rightarrow> bool" where
  "answered_up_to t rest s \<longleftrightarrow> (\<exists>es e fs dn. session_entries s = es @ e # fs \<and> grouped es \<and> turn_id e = t
     \<and> result_id (message e) = None \<and> calls_of (message e) = dn @ rest
     \<and> map (\<lambda>x. (turn_id x, result_id (message x))) fs = map (\<lambda>c. (t, Some (call_id c))) dn)"

definition awaiting_run :: "jsstring \<Rightarrow> loop_state \<Rightarrow> bool" where
  "awaiting_run run st \<longleftrightarrow> (\<exists>t ps ck. in_turn t (ls_session st) \<and> answered_up_to t (ps_call ps # ps_remaining ps) (ls_session st)
     \<and> map_of (tl_pending (ls_loop st)) run = Some ps \<and> ps_run ps = run
     \<and> tl_checkpoint (ls_loop st) = Some ck \<and> rc_status ck = CkAwaiting
     \<and> rc_pending ck = Some (clone_call (ps_call ps)) \<and> rc_remaining ck = map clone_call (ps_remaining ps))"

definition settled_run :: "jsstring \<Rightarrow> loop_state \<Rightarrow> bool" where
  "settled_run run st \<longleftrightarrow> closed_session (ls_session st) \<or> awaiting_run run st"

fun round_fine :: "jsstring \<Rightarrow> jsstring \<Rightarrow> (loop_thrown + round_end) \<times> loop_state \<Rightarrow> bool" where
  "round_fine t run (Inl x, st) = steady t st"
| "round_fine t run (Inr GoOn, st) = orderly t st"
| "round_fine t run (Inr LeaveLoop, st) = steady t st"
| "round_fine t run (Inr (Finish r), st) = (settled_run run st
     \<and> list_all (\<lambda>o1. \<not> is_result o1) (ls_out st) \<and> list_all well_paired (ls_requests st))"

lemma finish_fine:
  assumes "closes x st" "steady t st"
  shows "round_fine t' run (finish_with x)"
  using assms by (auto simp: closes_def steady_def finish_with_def settled_run_def)

definition env_answers :: "loop_env \<Rightarrow> loop_params \<Rightarrow> bool" where
  "env_answers env q \<longleftrightarrow> (\<forall>k ms. le_reply env k ms \<noteq> None) \<and> (\<forall>k ms. le_landing env k ms \<noteq> None)
     \<and> (case lq_gateway q of None \<Rightarrow> True
        | Some g \<Rightarrow> \<forall>k i it c. call_tool g (bn_call (le_batch env k) i) (batch_call it c) \<noteq> None)"

locale closing_handlers =
  fixes h :: loop_handlers
  assumes success: "in_turn t (ls_session st) \<Longrightarrow> closes (on_success h a b st) st"
    and soft_landed: "in_turn t (ls_session st) \<Longrightarrow> closes (on_soft_land h a st) st"
    and stalled: "in_turn t (ls_session st) \<Longrightarrow> closes (on_stalled h a st) st"
    and failure: "in_turn t (ls_session st) \<Longrightarrow> closes (on_failure h a c st) st"
    and cancelled: "in_turn t (ls_session st) \<Longrightarrow> closes (on_cancelled h a sg st) st"

section \<open>The parts of a round\<close>

lemma steady_fields:
  "steady t st \<Longrightarrow> steady t (st\<lparr>ls_stage := a\<rparr>)" "steady t st \<Longrightarrow> steady t (st\<lparr>ls_text := b\<rparr>)"
  "steady t st \<Longrightarrow> steady t (st\<lparr>ls_recovering := c\<rparr>)" "steady t st \<Longrightarrow> steady t (st\<lparr>ls_loop := d\<rparr>)"
  "steady t st \<Longrightarrow> steady t (st\<lparr>ls_iteration := i\<rparr>)" "steady t st \<Longrightarrow> steady t (st\<lparr>ls_stall := x, ls_progress := y\<rparr>)"
  by (simp_all add: steady_def)

lemma orderly_steady: "orderly t st \<Longrightarrow> steady t st"
  by (simp add: orderly_def)

lemma orderly_same:
  "orderly t st \<Longrightarrow> ls_session st' = ls_session st \<Longrightarrow> ls_requests st' = ls_requests st \<Longrightarrow> ls_out st' = ls_out st \<Longrightarrow> orderly t st'"
  by (simp add: orderly_def steady_def)

lemma open_round_fine:
  assumes "orderly t st"
  shows "\<exists>r st1. open_round env q k st = Some (r, st1) \<and> orderly t st1 \<and> (\<forall>msgs. r = Inr msgs \<longrightarrow> well_paired msgs)"
proof (cases "is_aborted (le_signal env k LpHead)")
  case True
  then show ?thesis using assms by (auto simp: open_round_def Let_def orderly_def steady_def)
next
  case False
  define s0 where "s0 = set_iteration (ls_iteration st) (ls_session st)"
  have i: "in_turn t s0" "grouped (session_entries s0)"
    using assms in_turn_iteration by (auto simp: orderly_def steady_def s0_def set_iteration_def set_current_iteration_def)
  obtain s' r where p: "prepare_request (le_summ env k) (le_govern env k) (round_input env q st) s0 = Some (s', r)"
      "in_turn t s'" "grouped (session_entries s')"
      "\<And>sn ms. r = Inr (sn, ms) \<Longrightarrow> \<exists>sys. sn_messages sn = Chat System sys None None # build_messages (ss_thread s')"
    using in_turn_prepare[OF i(1)] i(2) by metis
  have w: "well_paired (Chat System sys None None # build_messages (ss_thread s'))" for sys
    using grouped_messages[OF p(3)] well_paired_clone[of "map message (session_entries s')"]
    by (simp add: build_messages_def result_id_def calls_of_def comp_def)
  show ?thesis
  proof (cases r)
    case (Inl e)
    then show ?thesis using False p assms
      by (auto simp: open_round_def Let_def orderly_def steady_def s0_def)
  next
    case (Inr x)
    obtain sn ms where x: "x = (sn, ms)" by (cases x)
    obtain sys where sys: "sn_messages sn = Chat System sys None None # build_messages (ss_thread s')" using p(4) Inr x by blast
    show ?thesis using False p(1-3) assms w sys
      by (auto simp: open_round_def Let_def orderly_def steady_def s0_def Inr x)
  qed
qed

lemma model_round_fine:
  assumes "orderly t st" "well_paired msgs" "le_reply env k msgs \<noteq> None"
  shows "\<exists>r st1. model_round env q k msgs st = Some (r, st1) \<and> orderly t st1"
proof -
  define st1 where "st1 = st\<lparr>ls_stage := StLlm, ls_requests := ls_requests st @ [msgs]\<rparr>"
  have o1: "orderly t st1" using assms by (simp add: st1_def orderly_def steady_def)
  obtain rp where rp: "le_reply env k msgs = Some rp" using assms(3) by auto
  obtain r2 st2 where ch: "take_chunks (lr_chunks rp) \<lparr>tu_text = [], tu_thinking = [], tu_calls = []\<rparr> st1 = (r2, st2)"
    by fastforce
  have o2: "orderly t st2" using orderly_minor[OF minor_chunks[OF ch] o1] .
  have o3: "orderly t (append_trace ev (st2\<lparr>ls_session := calibrate_from_usage n msgs (ls_session st2)\<rparr>))" for ev n
    using o2 in_turn_usage[of t "ls_session st2"] by (auto simp: orderly_def steady_def)
  show ?thesis using rp ch o2 o3
    by (auto simp: model_round_def Let_def st1_def[symmetric] split: sum.split option.split)
qed

definition run_fine :: "jsstring \<Rightarrow> ((thrown + agent_result) \<times> loop_state) option \<Rightarrow> bool" where
  "run_fine run x \<longleftrightarrow> (case x of
     None \<Rightarrow> False
   | Some (Inl e, st) \<Rightarrow> False
   | Some (Inr r, st) \<Rightarrow> settled_run run st \<and> list_all well_paired (ls_requests st)
       \<and> (\<exists>out. ls_out st = out @ [FinalResult r] \<and> list_all (\<lambda>o1. \<not> is_result o1) out))"

lemma steady_in_turn: "steady t st \<Longrightarrow> in_turn t (ls_session st)"
  by (simp add: steady_def)

context closing_handlers begin

lemma finish_soft: "steady t s \<Longrightarrow> lq_handlers q = h \<Longrightarrow> round_fine t' run (finish_with (on_soft_land (lq_handlers q) a s))"
  using finish_fine[OF soft_landed[OF steady_in_turn]] by simp

lemma finish_stalled: "steady t s \<Longrightarrow> lq_handlers q = h \<Longrightarrow> round_fine t' run (finish_with (on_stalled (lq_handlers q) a s))"
  using finish_fine[OF stalled[OF steady_in_turn]] by simp

lemma soft_land_fine:
  assumes "orderly t st" "well_paired msgs" "lq_handlers q = h" "le_landing env k (msgs @ [landing_message env q st]) \<noteq> None"
  shows "case soft_land env q k msgs st of None \<Rightarrow> False | Some x \<Rightarrow> round_fine t run x"
proof -
  define st0 where "st0 = emit (TurnStart (ls_iteration st)) (record_type (js ''llm.tool_loop.max_iterations'') st)"
  define asked where "asked = msgs @ [landing_message env q st]"
  define st1 where "st1 = st0\<lparr>ls_stage := StSoftLand, ls_requests := ls_requests st0 @ [asked]\<rparr>"
  have "well_paired [landing_message env q st]" by (simp add: landing_message_def result_id_def calls_of_def)
  then have "well_paired asked" unfolding asked_def by (rule well_paired_append[OF assms(2)])
  then have s1: "steady t st1" using assms(1) by (simp add: st1_def st0_def orderly_def steady_def)
  obtain rp where rp: "le_landing env k asked = Some rp" using assms(4) by (auto simp: asked_def)
  obtain r2 st2 where ch: "landing_chunks (lr_chunks rp) [] st1 = (r2, st2)" by fastforce
  have s2: "steady t st2" by (rule steady_minor[OF minor_landing[OF ch] s1])
  have s3: "steady t (record_type x st2)" for x by (rule steady_minor[OF _ s2]) simp
  have s4: "steady t (add_landing_text y (record_type x st2))" for x y
    using s3 by (simp add: steady_def add_landing_text_def)
  have fin: "round_fine t run (finish_with (on_soft_land (lq_handlers q) a s))" if "steady t s" for a s
    by (rule finish_soft[OF that assms(3)])
  show ?thesis
    using rp ch s2 s3 fin[OF s3] fin[OF s4]
    by (cases r2; cases "lr_threw rp") (auto simp: soft_land_def Let_def st0_def[symmetric] asked_def[symmetric] st1_def[symmetric] throw_now_def)
qed

lemma final_turn_fine:
  assumes "orderly t st" "lq_handlers q = h"
  shows "round_fine t run (final_turn env q k tu st)"
proof -
  have ap: "\<exists>st1. (if js_trim (tu_text tu) \<noteq> [] then on_session (session_append_assistant (tu_text tu) None) st else (Inr (), st))
      = (Inr (), st1) \<and> orderly t st1"
  proof (cases "js_trim (tu_text tu) = []")
    case False
    obtain st1 e where "on_session (session_append_assistant (tu_text tu) None) st = (Inr (), st1)" "steady t st1"
        "loop_entries st1 = loop_entries st @ [e]" "result_id (message e) = None" "calls_of (message e) = []"
      using steady_assistant[OF orderly_steady[OF assms(1)], of "tu_text tu" None] by auto
    then show ?thesis using False assms(1) by (auto simp: orderly_def intro!: grouped_append)
  qed (use assms in auto)
  then obtain st1 where st1: "(if js_trim (tu_text tu) \<noteq> [] then on_session (session_append_assistant (tu_text tu) None) st
      else (Inr (), st)) = (Inr (), st1)" "orderly t st1" by blast
  define st2 where "st2 = set_run_phase PhReview st1"
  have o2: "orderly t st2" unfolding st2_def by (rule orderly_minor[OF _ st1(2)]) simp
  have s3: "steady t (record_type x st2)" for x using o2 by (simp add: orderly_def steady_def)
  have go: "round_fine t run (next_iteration (record_type x (st2\<lparr>ls_followups := n, ls_followup := a\<rparr>)\<lparr>ls_text := []\<rparr>))" for x n a
    unfolding next_iteration_def round_fine.simps by (rule orderly_same[OF o2]) simp_all
  have fin: "round_fine t run (finish_with (on_stalled (lq_handlers q) a (record_type x st2)))" for a x
    by (rule finish_stalled[OF s3 assms(2)])
  show ?thesis using st1(1) go fin orderly_steady[OF o2]
    by (simp add: final_turn_def st2_def[symmetric] Let_def)
qed

lemma after_tools_fine:
  assumes "orderly t st" "lq_handlers q = h"
  shows "round_fine t run (after_tools env q k calls ms st)"
proof -
  have fin: "round_fine t run (finish_with (on_stalled (lq_handlers q) a s))" if "steady t s" for a s
    by (rule finish_stalled[OF that assms(2)])
  have o3: "orderly t (record_type x ((note_satisfied q a (set_run_phase p st))\<lparr>ls_stall := sd, ls_progress := pm\<rparr>))" for x a p sd pm
    by (rule orderly_same[OF assms(1)]) simp_all
  have an: "steady t (announce y (record_type x s))" if "orderly t s" for x y s
    using steady_minor[OF minor_announce, of t "record_type x s"] that by (simp add: orderly_def steady_def)
  have ck: "round_fine t run (check_stall env q ob s)" if s: "orderly t s" for ob s
  proof -
    have "round_fine t run (next_iteration ((record_type x (record_type y s))\<lparr>ls_recovering := True\<rparr>))" for x y
      unfolding next_iteration_def round_fine.simps by (rule orderly_same[OF s]) simp_all
    moreover have "round_fine t run (next_iteration s)"
      unfolding next_iteration_def round_fine.simps by (rule orderly_same[OF s]) simp_all
    moreover have "round_fine t run (finish_with (on_stalled (lq_handlers q) a ((announce y (record_type x s))\<lparr>ls_text := z\<rparr>)))" for a x y z
      by (rule fin) (use an[OF s, of y x] in \<open>simp add: steady_def\<close>)
    ultimately show ?thesis by (auto simp: check_stall_def Let_def)
  qed
  have "orderly t (record_type y (record_type x ((note_satisfied q a (set_run_phase p st))\<lparr>ls_stall := sd, ls_progress := pm\<rparr>)))" for x y a p sd pm
    by (rule orderly_same[OF assms(1)]) simp_all
  then show ?thesis using o3 fin[OF an[OF o3]] ck by (simp add: after_tools_def Let_def)
qed

lemma with_results_cases:
  assumes "steady t st"
  shows "\<exists>st1 es. steady t st1 \<and> loop_entries st1 = loop_entries st @ es
    \<and> map (\<lambda>e. (turn_id e, result_id (message e))) es = map (\<lambda>i. (t, Some i)) (tool_ids ms)
    \<and> tl_pending (ls_loop st1) = tl_pending (ls_loop st) \<and> tl_checkpoint (ls_loop st1) = tl_checkpoint (ls_loop st)
    \<and> (with_results env q k ms nxt st = (Inl (throw_now (le_signal env k LpTools)), st1) \<or> with_results env q k ms nxt st = nxt st1)"
proof -
  obtain st0 es where a: "append_results True ms st = (Inr (), st0)" "steady t st0" "loop_entries st0 = loop_entries st @ es"
      "map (\<lambda>e. (turn_id e, result_id (message e))) es = map (\<lambda>i. (t, Some i)) (tool_ids ms)"
    using steady_results[OF assms] by blast
  have "steady t (notify_synchronized (lq_run q) st0)" by (rule steady_minor[OF _ a(2)]) simp
  then show ?thesis using a append_results_frame[OF a(1)]
    by (intro exI[of _ "notify_synchronized (lq_run q) st0"] exI[of _ es]) (simp add: with_results_def Let_def)
qed

lemma tool_turn_fine:
  assumes "orderly t st" "lq_handlers q = h"
    and "\<And>i it c. call_tool g (bn_call (le_batch env k) i) (batch_call it c) \<noteq> None"
  shows "case tool_turn env q g k tu st of None \<Rightarrow> False | Some x \<Rightarrow> round_fine t (lq_run q) x"
proof -
  define st0 where "st0 = announce_calls (tu_calls tu) st"
  have o0: "orderly t st0" unfolding st0_def by (rule orderly_minor[OF minor_announce_calls assms(1)])
  obtain st1 e where s1: "on_session (session_append_assistant (tu_text tu) (Some (tu_calls tu))) st0 = (Inr (), st1)" "steady t st1"
      "loop_entries st1 = loop_entries st0 @ [e]" "turn_id e = t" "result_id (message e) = None" "calls_of (message e) = tu_calls tu"
    using steady_assistant[OF orderly_steady[OF o0], of "tu_text tu" "Some (tu_calls tu)"] by auto
  define st2 where "st2 = st1\<lparr>ls_stage := StTool\<rparr>"
  define inp where "inp = batch_of q (tu_calls tu) st2"
  obtain r lp tr where b: "execute_tool_batch g (le_batch env k) (attach_from env (ls_events st2)) inp (ls_loop st2) = Some (r, lp, tr)"
    using execute_batch_returns[OF assms(3), where inp = inp] by fastforce
  have out: "batch_outcome inp (tu_calls tu) lp r" using execute_batch_outcome[OF b] by (simp add: inp_def batch_of_def)
  define st3 where "st3 = note_events (lq_tools q) tr
    (st2\<lparr>ls_loop := lp, ls_session := fold change_source (le_sources env k) (ls_session st2)\<rparr>)"
  have s3: "steady t st3" "loop_entries st3 = loop_entries st0 @ [e]" "ls_loop st3 = lp"
    using s1(2,3) in_turn_sources by (simp_all add: st3_def st2_def steady_def)
  have tt: "tool_turn env q g k tu st = Some (case r of
       BatchThrew x \<Rightarrow> (Inl (LoopThrew x), st3)
     | BatchAborted x ms \<Rightarrow> (Inl (BatchCut x ms), st3)
     | BatchApproval res ms \<Rightarrow> with_results env q k ms (await_approval env res) st3
     | BatchCompleted ms \<Rightarrow> with_results env q k ms (after_tools env q k (tu_calls tu) ms) st3)"
    by (simp only: tool_turn_def st0_def[symmetric] s1(1) prod.case sum.case Let_def st2_def[symmetric] inp_def[symmetric]
        b option.case st3_def)
  show ?thesis
  proof (cases r)
    case (BatchCompleted ms)
    obtain st4 es where w: "steady t st4" "loop_entries st4 = loop_entries st3 @ es"
        "map (\<lambda>e. (turn_id e, result_id (message e))) es = map (\<lambda>i. (t, Some i)) (tool_ids ms)"
        "with_results env q k ms (after_tools env q k (tu_calls tu) ms) st3 = (Inl (throw_now (le_signal env k LpTools)), st4)
         \<or> with_results env q k ms (after_tools env q k (tu_calls tu) ms) st3 = after_tools env q k (tu_calls tu) ms st4"
      using with_results_cases[OF s3(1), where env = env and q = q and k = k and ms = ms
          and nxt = "after_tools env q k (tu_calls tu) ms"] by blast
    have "tool_ids ms = map call_id (calls_of (message e))" using out answers_ids s1(6) by (simp add: BatchCompleted)
    then have "grouped (loop_entries st0 @ e # es)" using grouped_group o0 s1(4,5) w(3) by (simp add: orderly_def)
    then have "orderly t st4" using w(1,2) s3(2) by (simp add: orderly_def)
    then show ?thesis using w(1,4) after_tools_fine assms(2) by (auto simp: tt BatchCompleted)
  next
    case (BatchApproval res ms)
    obtain st4 es where w: "steady t st4" "loop_entries st4 = loop_entries st3 @ es"
        "map (\<lambda>e. (turn_id e, result_id (message e))) es = map (\<lambda>i. (t, Some i)) (tool_ids ms)" "tl_pending (ls_loop st4) = tl_pending (ls_loop st3)"
        "tl_checkpoint (ls_loop st4) = tl_checkpoint (ls_loop st3)"
        "with_results env q k ms (await_approval env res) st3 = (Inl (throw_now (le_signal env k LpTools)), st4)
         \<or> with_results env q k ms (await_approval env res) st3 = await_approval env res st4"
      using with_results_cases[OF s3(1), where env = env and q = q and k = k and ms = ms and nxt = "await_approval env res"] by blast
    obtain dn c rest where sp: "tu_calls tu = dn @ c # rest" "answers_calls ms dn" "saved_pending inp c rest lp"
      using out by (auto simp: BatchApproval)
    have up: "answered_up_to t (c # rest) (ls_session st4)"
      unfolding answered_up_to_def
      by (intro exI[of _ "loop_entries st0"] exI[of _ e] exI[of _ es] exI[of _ dn])
        (use w(2,3) s3(2) s1(4-6) o0 sp(1) answers_ids[OF sp(2)] in \<open>simp add: orderly_def comp_def\<close>)
    obtain ps ck where pc: "map_of (tl_pending lp) (lq_run q) = Some ps" "ps_run ps = lq_run q" "ps_call ps = c" "ps_remaining ps = rest"
        "tl_checkpoint lp = Some ck" "rc_status ck = CkAwaiting" "rc_pending ck = Some (clone_call c)" "rc_remaining ck = map clone_call rest"
      using sp(3) by (auto simp: saved_pending_def inp_def batch_of_def)
    have "awaiting_run (lq_run q) st4"
      unfolding awaiting_run_def
      by (intro exI[of _ t] exI[of _ ps] exI[of _ ck]) (use w s3(3) pc up in \<open>simp add: steady_def\<close>)
    then have "settled_run (lq_run q) (record_type x st4)" for x by (simp add: settled_run_def awaiting_run_def)
    then show ?thesis using w(1,6) by (auto simp: tt BatchApproval await_approval_def steady_def)
  qed (use s3(1) tt in simp_all)
qed

lemma loop_round_fine:
  assumes "orderly t st" "lq_handlers q = h" "env_answers env q"
  shows "case loop_round env q k st of None \<Rightarrow> False | Some x \<Rightarrow> round_fine t (lq_run q) x"
proof -
  obtain r1 st1 where o1: "open_round env q k st = Some (r1, st1)" "orderly t st1" "\<And>msgs. r1 = Inr msgs \<Longrightarrow> well_paired msgs"
    using open_round_fine[OF assms(1)] by blast
  show ?thesis
  proof (cases r1)
    case (Inl e)
    then show ?thesis using o1 by (simp add: loop_round_def orderly_def)
  next
    case (Inr msgs)
    have rep: "le_reply env k msgs \<noteq> None" using assms(3) by (simp add: env_answers_def)
    obtain r2 st2 where m: "model_round env q k msgs st1 = Some (r2, st2)" "orderly t st2"
      using model_round_fine[OF o1(2) o1(3)[OF Inr] rep] by blast
    show ?thesis
    proof (cases r2)
      case (Inl e)
      then show ?thesis using o1 Inr m by (simp add: loop_round_def orderly_def)
    next
      case tu: (Inr tu)
      have "case take_turn env q k msgs tu st2 of None \<Rightarrow> False | Some x \<Rightarrow> round_fine t (lq_run q) x"
      proof -
        have land: "case soft_land env q k msgs st2 of None \<Rightarrow> False | Some x \<Rightarrow> round_fine t (lq_run q) x"
          using soft_land_fine[OF m(2) o1(3)[OF Inr] assms(2)] assms(3) by (simp add: env_answers_def)
        have fin: "round_fine t (lq_run q) (final_turn env q k tu st2)" by (rule final_turn_fine[OF m(2) assms(2)])
        have tools: "case tool_turn env q g k tu st2 of None \<Rightarrow> False | Some x \<Rightarrow> round_fine t (lq_run q) x"
          if "lq_gateway q = Some g" for g
          by (rule tool_turn_fine[OF m(2) assms(2)]) (use assms(3) that in \<open>simp add: env_answers_def\<close>)
        show ?thesis
          by (cases "lq_gateway q") (simp_all only: take_turn_def land fin tools option.case if_split simp_thms)
      qed
      then show ?thesis using o1 Inr m tu by (simp add: loop_round_def)
    qed
  qed
qed

lemma yield_fine:
  assumes "closes x st" "steady t st"
  shows "run_fine run (Some (yield_result x))"
  using assms by (auto simp: closes_def steady_def yield_result_def settled_run_def awaiting_run_def run_fine_def)

lemma cancel_fine: "steady t st \<Longrightarrow> lq_handlers q = h \<Longrightarrow> run_fine run (Some (cancel_loop q sig sg st))"
proof -
  assume s: "steady t st" and h: "lq_handlers q = h"
  have s1: "steady t (forget_pending (lq_run q) st)" using s by (simp add: steady_def forget_pending_def)
  show ?thesis unfolding cancel_loop_def h by (rule yield_fine[OF cancelled[OF steady_in_turn[OF s1]] s1])
qed

lemma catch_fine:
  assumes "steady t st" "lq_handlers q = h"
  shows "run_fine run (Some (catch_thrown env q k x st))"
proof (cases x)
  case (BatchCut e ms)
  obtain st1 where "append_results False ms st = (Inr (), st1)" "steady t st1" using steady_results[OF assms(1)] by blast
  then show ?thesis using cancel_fine assms(2) by (simp add: catch_thrown_def BatchCut)
next
  case (LoopThrew e)
  have s1: "steady t (record_type y st)" for y by (rule steady_minor[OF _ assms(1)]) simp
  have "run_fine run (Some (yield_result (on_failure h m c (record_type y st))))" for m c y
    by (rule yield_fine[OF failure[OF steady_in_turn[OF s1]] s1])
  then show ?thesis using cancel_fine[OF assms] assms(2) by (simp add: catch_thrown_def LoopThrew Let_def)
qed

lemma finalize_fine:
  assumes "steady t st" "lq_handlers q = h"
  shows "run_fine run (Some (finalize_loop env q k st))"
proof -
  have s1: "steady t (st\<lparr>ls_stage := StFinalize\<rparr>)" by (rule steady_fields(1)[OF assms(1)])
  have "run_fine run (Some (yield_result (on_success h a b (st\<lparr>ls_stage := StFinalize\<rparr>))))" for a b
    by (rule yield_fine[OF success[OF steady_in_turn[OF s1]] s1])
  then show ?thesis using cancel_fine[OF s1 assms(2)] assms(2) by (simp add: finalize_loop_def Let_def)
qed

lemma streaming_loop_fine:
  assumes "orderly t st" "lq_handlers q = h" "env_answers env q"
  shows "run_fine (lq_run q) (streaming_loop env q k st)"
  using assms
proof (induction env q k st rule: streaming_loop.induct)
  case (1 env q k st)
  obtain x st1 where r: "loop_round env q k st = Some (x, st1)" "round_fine t (lq_run q) (x, st1)"
    using loop_round_fine[OF 1(2-4), of k] by (cases "loop_round env q k st") auto
  show ?case
  proof (cases x)
    case (Inl e)
    then show ?thesis using r catch_fine[OF _ 1(3)] by (subst streaming_loop.simps) simp
  next
    case (Inr d)
    show ?thesis
    proof (cases d)
      case GoOn
      then have "run_fine (lq_run q) (streaming_loop env q (Suc k) st1)"
        using 1(1)[OF r(1) _ _ GoOn] r(2) 1(3,4) Inr by simp
      then show ?thesis using r(1) Inr GoOn by (subst streaming_loop.simps) simp
    next
      case LeaveLoop
      then show ?thesis using r Inr finalize_fine[OF _ 1(3)] by (subst streaming_loop.simps) simp
    next
      case (Finish a)
      then show ?thesis using r Inr
        by (subst streaming_loop.simps) (auto simp: yield_result_def run_fine_def settled_run_def awaiting_run_def)
    qed
  qed
qed

lemma run_loop_fine:
  assumes "orderly t st" "lq_handlers q = h" "env_answers env q"
  shows "run_fine (lq_run q) (run_streaming_tool_loop env q st)"
  unfolding run_streaming_tool_loop_def
  by (rule streaming_loop_fine[OF _ assms(2,3)]) (rule orderly_same[OF assms(1)]; simp)

end

section \<open>The handlers of fresh and resumed runs close the turn\<close>

lemma clear_checkpoint_frame [simp]:
  "ls_session (clear_run_checkpoint r st) = ls_session st" "ls_out (clear_run_checkpoint r st) = ls_out st"
  "ls_requests (clear_run_checkpoint r st) = ls_requests st"
  by (simp_all add: clear_run_checkpoint_def split: option.split)

lemma completed_frame [simp]:
  "ls_session (completed st) = ls_session st" "ls_out (completed st) = ls_out st" "ls_requests (completed st) = ls_requests st"
  by (simp_all add: completed_def)

lemma closes_commit:
  "in_turn t (ls_session st1) \<Longrightarrow> ls_out st1 = ls_out st \<Longrightarrow> ls_requests st1 = ls_requests st \<Longrightarrow>
   closes (then_return (commit_run st1) r) st"
  using in_turn_commit[of t "ls_session st1"] by (auto simp: closes_def then_return_def commit_run_def on_session_def)

lemma closes_interrupt:
  "in_turn t (ls_session st1) \<Longrightarrow> ls_out st1 = ls_out st \<Longrightarrow> ls_requests st1 = ls_requests st \<Longrightarrow>
   closes (then_return (on_session (session_interrupt_turn m) st1) r) st"
  using in_turn_interrupt[of t "ls_session st1" m] by (auto simp: closes_def then_return_def commit_run_def on_session_def)

lemma closes_abort:
  "in_turn t (ls_session st1) \<Longrightarrow> ls_out st1 = ls_out st \<Longrightarrow> ls_requests st1 = ls_requests st \<Longrightarrow>
   closes (then_return (on_session (session_abort_turn m) st1) r) st"
  using in_turn_abort[of t "ls_session st1" m] by (auto simp: closes_def then_return_def commit_run_def on_session_def)

lemma append_summary_ok:
  assumes "in_turn t (ls_session st)"
  shows "\<exists>st1. append_summary m st = (Inr (), st1) \<and> in_turn t (ls_session st1) \<and> ls_out st1 = ls_out st
    \<and> ls_requests st1 = ls_requests st"
  using in_turn_assistant[OF assms, of m None] by (auto simp: append_summary_def on_session_def)

lemma interrupt_open_ok:
  assumes "in_turn t (ls_session st)"
  shows "\<exists>st1. interrupt_open_turn m st = (Inr (), st1) \<and> closed_session (ls_session st1) \<and> ls_out st1 = ls_out st
    \<and> ls_requests st1 = ls_requests st \<and> turn_answered t (loop_entries st1)"
  using in_turn_interrupt[OF assms, of m] assms by (auto simp: interrupt_open_turn_def on_session_def in_turn_def)

lemma closes_interrupted:
  assumes "in_turn t (ls_session st)"
  shows "closes (complete_interrupted_run env run sg st) st"
proof -
  obtain st1 where "interrupt_open_turn INTERRUPTED_TEXT st = (Inr (), st1)" "closed_session (ls_session st1)"
      "ls_out st1 = ls_out st" "ls_requests st1 = ls_requests st"
    using interrupt_open_ok[OF assms] by blast
  then show ?thesis by (simp add: closes_def complete_interrupted_run_def)
qed

lemma closes_fresh_close:
  assumes "in_turn t (ls_session st)"
  shows "closes (fresh_close env run m ev inc st) st"
proof -
  obtain st1 where s: "append_summary m (clear_run_checkpoint run st) = (Inr (), st1)" "in_turn t (ls_session st1)"
      "ls_out st1 = ls_out st" "ls_requests st1 = ls_requests st"
    using append_summary_ok[of t "clear_run_checkpoint run st" m] assms by auto
  have "closes (then_return (commit_run (completed st1)) r) st" for r
    by (rule closes_commit[of t]) (simp_all add: s)
  then show ?thesis using s(1) by (simp add: fresh_close_def)
qed

lemma closes_settle_failed:
  assumes "in_turn t (ls_session st0)" "ls_out st0 = ls_out st" "ls_requests st0 = ls_requests st"
  shows "closes (settle_failed r st0) st"
proof -
  obtain st1 where s: "append_summary (ar_summary r) (completed st0) = (Inr (), st1)" "in_turn t (ls_session st1)"
      "ls_out st1 = ls_out st" "ls_requests st1 = ls_requests st"
    using append_summary_ok[of t "completed st0" "ar_summary r"] assms by auto
  have "closes (then_return (commit_run st1) r) st" by (rule closes_commit[of t]) (simp_all add: s)
  then show ?thesis using s(1) by (simp add: settle_failed_def)
qed

interpretation fresh: closing_handlers "fresh_handlers env run mx" for env run mx
proof (unfold_locales, goal_cases)
  case (1 t st a b)
  show ?case unfolding fresh_handlers_def fresh_success_def Let_def loop_handlers.simps
    by (rule closes_commit[of t]) (simp_all add: 1)
next
  case (4 t st a c)
  show ?case unfolding fresh_handlers_def fresh_failure_def Let_def loop_handlers.simps
    by (rule closes_interrupt[of t]) (simp_all add: 4)
next
  case (5 t st a sg)
  from closes_interrupted[OF 5, of env run sg] show ?case
    by (auto simp: fresh_handlers_def fresh_cancelled_def closes_def)
qed (simp_all add: fresh_handlers_def closes_fresh_close)

interpretation resumed: closing_handlers "resumed_handlers env run" for env run
proof (unfold_locales, goal_cases)
  case (1 t st a b)
  show ?case unfolding resumed_handlers_def resumed_success_def Let_def loop_handlers.simps
    by (rule closes_commit[of t]) (simp_all add: 1)
next
  case (2 t st a)
  show ?case unfolding resumed_handlers_def Let_def loop_handlers.simps
    by (rule closes_settle_failed[of t]) (simp_all add: 2)
next
  case (3 t st a)
  show ?case unfolding resumed_handlers_def Let_def loop_handlers.simps
    by (rule closes_settle_failed[of t]) (simp_all add: 3)
next
  case (4 t st a c)
  show ?case unfolding resumed_handlers_def resumed_failure_def Let_def loop_handlers.simps
    by (rule closes_abort[of t]) (simp_all add: 4)
next
  case (5 t st a sg)
  from closes_interrupted[OF 5, of env run sg] show ?case
    by (auto simp: resumed_handlers_def finish_interrupted_run_def closes_def)
qed

end
