(* ===== verification/Run_Laws.thy ===== *)
theory Run_Laws
  imports Tool_Loop_Laws
begin

text \<open>
  Laws of whole runs: a fresh run from a closed session, the resumption of a run that waits for an
  approval, and the interruption of a waiting run. Each ends with one result, yielded last, and
  leaves the turn closed or waiting again; what throws out of a resumption leaves the turn open.
\<close>

section \<open>A fresh run\<close>

definition ready :: "loop_state \<Rightarrow> bool" where
  "ready st \<longleftrightarrow> closed_session (ls_session st) \<and> grouped (loop_entries st)
     \<and> list_all (\<lambda>o1. \<not> is_result o1) (ls_out st) \<and> list_all well_paired (ls_requests st)"

lemma ready_record [simp]: "ready (record_type x st) = ready st"
  by (simp add: ready_def)

lemma in_turn_add: "in_turn t s \<Longrightarrow> in_turn t (add_source c s)" "in_turn t s \<Longrightarrow> in_turn t (remove_source i s)"
  using in_turn_sources[of t s "[PutSource c]"] in_turn_sources[of t s "[DropSource i]"] by simp_all

lemma thread_add [simp]: "ss_thread (add_source c s) = ss_thread s" "ss_thread (remove_source i s) = ss_thread s"
  by (simp_all add: add_source_def remove_source_def)

lemma in_turn_adds: "in_turn t s \<Longrightarrow> in_turn t (fold add_source cs s)"
  by (induction cs arbitrary: s) (simp_all add: in_turn_add)

lemma thread_adds [simp]: "ss_thread (fold add_source cs s) = ss_thread s"
  by (induction cs arbitrary: s) simp_all

lemma thread_sync [simp]: "ss_thread (sync_context_sources ro s) = ss_thread s"
  by (simp add: sync_context_sources_def sync_tool_policy_source_def sync_model_profiles_source_def
      sync_todo_context_source_def Let_def split: option.split)

lemma in_turn_sync: "in_turn t s \<Longrightarrow> in_turn t (sync_context_sources ro s)"
  unfolding sync_context_sources_def
  by (rule in_turn_adds)
    (simp add: sync_tool_policy_source_def sync_model_profiles_source_def sync_todo_context_source_def Let_def in_turn_add
      split: option.split)

lemma closed_begin:
  assumes "closed_session s"
  shows "\<exists>s' t e. session_begin_turn u im s = Inr s' \<and> in_turn t s' \<and> session_entries s' = session_entries s @ [e]
    \<and> result_id (message e) = None \<and> calls_of (message e) = []"
proof -
  obtain th where th: "begin_turn (ss_est s) u im (ss_thread s) = Inr th"
    using assms by (cases "next_turn_id (ss_thread s)") (simp add: closed_session_def begin_turn_def Let_def)
  have "session_ok (s\<lparr>ss_thread := th\<rparr>)" using session_ok_call[of s "BeginTurn u im" th] assms th by (simp add: closed_session_def)
  then show ?thesis using assms th
    by (auto simp: session_begin_turn_def on_thread_def in_turn_def closed_session_def begin_turn_def next_turn_id_def
        append_entry_def result_id_def calls_of_def Let_def split: option.splits if_splits)
qed

lemma interrupted_fine:
  assumes "closed_session (ls_session st) \<or> in_turn t (ls_session st)"
    and "list_all (\<lambda>o1. \<not> is_result o1) (ls_out st)" "list_all well_paired (ls_requests st)"
  shows "run_fine run (Some (yield_result (complete_interrupted_run env r sg st)))"
  using assms(1)
proof
  assume "closed_session (ls_session st)"
  then have "interrupt_open_turn INTERRUPTED_TEXT st = (Inr (), st)" by (simp add: interrupt_open_turn_def closed_session_def)
  then show ?thesis using assms \<open>closed_session (ls_session st)\<close>
    by (simp add: complete_interrupted_run_def yield_result_def run_fine_def settled_run_def)
next
  assume "in_turn t (ls_session st)"
  then obtain st1 where "interrupt_open_turn INTERRUPTED_TEXT st = (Inr (), st1)" "closed_session (ls_session st1)"
      "ls_out st1 = ls_out st" "ls_requests st1 = ls_requests st"
    using interrupt_open_ok by blast
  then show ?thesis using assms(2,3)
    by (simp add: complete_interrupted_run_def yield_result_def run_fine_def settled_run_def)
qed

text \<open>Aborted signals stay aborted, and the preparation of the report fails by an abort only.\<close>

definition run_env_fine :: "run_env \<Rightarrow> bool" where
  "run_env_fine re \<longleftrightarrow> (\<forall>p. is_aborted (rn_signal re p) \<longrightarrow> is_aborted (rn_signal re RpCatch))
     \<and> (\<forall>e. is_operation_aborted (rn_govern_error re e) (rn_signal re RpCatch))"

lemma aborted_point: "run_env_fine re \<Longrightarrow> is_aborted (rn_signal re p) \<Longrightarrow> is_operation_aborted e (rn_signal re RpCatch)"
  unfolding run_env_fine_def is_operation_aborted_def by blast

lemma run_loop_started:
  assumes "ready st" "env_answers (rn_loop re) (fresh_params re ro run input)" "run_env_fine re"
  shows "case run_agent_tool_loop re ro run input im st of
      None \<Rightarrow> False
    | Some (Inl e, st1) \<Rightarrow> is_operation_aborted e (rn_signal re RpCatch) \<and> (closed_session (ls_session st1) \<or> (\<exists>t. in_turn t (ls_session st1)))
        \<and> list_all (\<lambda>o1. \<not> is_result o1) (ls_out st1) \<and> list_all well_paired (ls_requests st1)
    | Some (Inr r, st1) \<Rightarrow> run_fine run (Some (Inr r, st1))"
proof (cases "is_aborted (rn_signal re RpLoop)")
  case True
  then show ?thesis using assms(1) aborted_point[OF assms(3) True] by (simp add: run_agent_tool_loop_def ready_def)
next
  case False
  obtain s1 t e where b: "session_begin_turn input im (ls_session st) = Inr s1" "in_turn t s1"
      "session_entries s1 = loop_entries st @ [e]" "result_id (message e) = None" "calls_of (message e) = []"
    using closed_begin assms(1) unfolding ready_def by blast
  define q where "q = fresh_params re ro run input"
  define s2 where "s2 = sync_context_sources ro s1"
  have i2: "in_turn t s2" "grouped (session_entries s2)"
    using in_turn_sync[OF b(2)] grouped_append[of "loop_entries st" "[e]"] b(3-5) assms(1) by (simp_all add: s2_def ready_def)
  obtain s3 r where p: "prepare_request (rn_summ re) (rn_govern re) (lq_build q) s2 = Some (s3, r)" "in_turn t s3"
      "grouped (session_entries s3)"
    using in_turn_prepare[OF i2(1)] i2(2) by metis
  have o3: "orderly t (st\<lparr>ls_session := s3\<rparr>)" using p assms(1) by (simp add: orderly_def steady_def ready_def)
  have o4: "orderly t (record_planner_context (st\<lparr>ls_session := s3\<rparr>))"
    using o3 by (rule orderly_same) (simp_all add: record_planner_context_def Let_def split: option.split)
  have h: "lq_handlers q = fresh_handlers (rn_loop re) run (ro_max ro)" "lq_run q = run" by (simp_all add: q_def fresh_params_def)
  have f: "run_fine run (run_streaming_tool_loop (rn_loop re) q (record_planner_context (st\<lparr>ls_session := s3\<rparr>)))"
    using fresh.run_loop_fine[OF o4 h(1)] assms(2) by (simp add: h(2) q_def[symmetric])
  have f': "case run_streaming_tool_loop (rn_loop re) q (record_planner_context (st\<lparr>ls_session := s3\<rparr>)) of
      None \<Rightarrow> False | Some (Inl e, st1) \<Rightarrow> X e st1 | Some (Inr r, st1) \<Rightarrow> run_fine run (Some (Inr r, st1))" for X
    using f unfolding run_fine_def by (simp split: option.splits sum.splits prod.splits)
  have eq: "run_agent_tool_loop re ro run input im st = (case r of
      Inl e \<Rightarrow> Some (Inl (rn_govern_error re e), st\<lparr>ls_session := s3\<rparr>)
    | Inr _ \<Rightarrow> if is_aborted (rn_signal re RpPrepared)
        then Some (Inl (abort_reason (rn_signal re RpPrepared) ABORTED_TEXT), st\<lparr>ls_session := s3\<rparr>)
        else run_streaming_tool_loop (rn_loop re) q (record_planner_context (st\<lparr>ls_session := s3\<rparr>)))"
    using False b(1) p(1) by (simp add: run_agent_tool_loop_def on_session_def Let_def q_def[symmetric] s2_def split: sum.split)
  have "\<exists>t. in_turn t s3" using p(2) by blast
  then show ?thesis unfolding eq using f' assms(1,3)
    by (cases r) (simp_all add: run_env_fine_def ready_def aborted_point[OF assms(3)])
qed

lemma execute_run_fine:
  assumes "ready st" "env_answers (rn_loop re) (fresh_params re ro run input)" "run_env_fine re" "ro_model ro"
  shows "run_fine run (execute_run re ro run input im st)"
proof -
  have cut: "run_fine run (Some (case (Inl e, s) of (Inr a, st1) \<Rightarrow> (Inr a, st1)
      | (Inl e, st1) \<Rightarrow> if \<not> is_operation_aborted e (rn_signal re RpCatch) then (Inl e, st1)
          else yield_result (complete_interrupted_run (rn_loop re) run StStartup st1)))"
    if "is_operation_aborted e (rn_signal re RpCatch)" "closed_session (ls_session s) \<or> (\<exists>t. in_turn t (ls_session s))"
      "list_all (\<lambda>o1. \<not> is_result o1) (ls_out s)" "list_all well_paired (ls_requests s)" for e s
    using interrupted_fine[OF _ that(3,4)] that(1,2) by fastforce
  have ab: "is_operation_aborted (abort_reason (rn_signal re p) ABORTED_TEXT) (rn_signal re RpCatch)"
    if "is_aborted (rn_signal re p)" for p
    by (rule aborted_point[OF assms(3) that])
  define st1 where "st1 = record_type (js ''run.started'') st"
  define st2 where "st2 = record_type (js ''planner.started'') st1"
  have r: "ready st1" "ready st2" using assms(1) by (simp_all add: st1_def st2_def)
  then have q: "closed_session (ls_session s)" "list_all (\<lambda>o1. \<not> is_result o1) (ls_out s)" "list_all well_paired (ls_requests s)"
    if "s = st1 \<or> s = st2" for s using that by (auto simp: ready_def)
  have eq: "start_run re ro run input im st =
     (if is_aborted (rn_signal re RpStarted) then Some (Inl (abort_reason (rn_signal re RpStarted) ABORTED_TEXT), st1)
      else if is_aborted (rn_signal re RpPlanned) then Some (Inl (abort_reason (rn_signal re RpPlanned) ABORTED_TEXT), st2)
      else run_agent_tool_loop re ro run input im st2)"
    using assms(4) by (simp add: start_run_def Let_def st1_def st2_def)
  consider "is_aborted (rn_signal re RpStarted)" | "\<not> is_aborted (rn_signal re RpStarted)" "is_aborted (rn_signal re RpPlanned)"
    | "\<not> is_aborted (rn_signal re RpStarted)" "\<not> is_aborted (rn_signal re RpPlanned)" by blast
  then show ?thesis
  proof cases
    case 1
    then show ?thesis using cut[OF ab[OF 1]] q by (simp add: execute_run_def eq)
  next
    case 2
    then show ?thesis using cut[OF ab[OF 2(2)]] q by (simp add: execute_run_def eq)
  next
    case 3
    obtain x s where l: "run_agent_tool_loop re ro run input im st2 = Some (x, s)"
      using run_loop_started[OF r(2) assms(2,3), of im] by (cases "run_agent_tool_loop re ro run input im st2") auto
    show ?thesis
    proof (cases x)
      case (Inl e)
      then show ?thesis using run_loop_started[OF r(2) assms(2,3), of im] cut[of e s] 3 by (simp add: execute_run_def eq l)
    next
      case (Inr a)
      then show ?thesis using run_loop_started[OF r(2) assms(2,3), of im] 3 by (simp add: execute_run_def eq l)
    qed
  qed
qed

section \<open>A run resumed after an approval\<close>

definition waiting :: "jsstring \<Rightarrow> loop_state \<Rightarrow> bool" where
  "waiting run st \<longleftrightarrow> awaiting_run run st \<and> list_all (\<lambda>o1. \<not> is_result o1) (ls_out st) \<and> list_all well_paired (ls_requests st)"

definition approval_env_fine :: "approval_env \<Rightarrow> runtime_options \<Rightarrow> gateway \<Rightarrow> bool" where
  "approval_env_fine ae ro g \<longleftrightarrow>
     (\<forall>ps. env_answers (ae_loop ae) (resumed_params ae ro g ps) \<and> call_tool g (ae_call ae) (approved_call ps) \<noteq> None)
     \<and> (\<forall>i it c. call_tool g (bn_call (ae_batch ae) i) (batch_call it c) \<noteq> None)"

definition step_fine :: "jsstring \<Rightarrow> jsstring \<Rightarrow> ((loop_thrown + agent_result) \<times> loop_state) option \<Rightarrow> bool" where
  "step_fine t run x \<longleftrightarrow> (case x of
     None \<Rightarrow> False | Some (Inl e, st) \<Rightarrow> steady t st | Some (Inr r, st) \<Rightarrow> run_fine run (Some (Inr r, st)))"

lemma step_thrown [simp]: "step_fine t run (Some (Inl e, st)) = steady t st"
  by (simp add: step_fine_def)

lemma step_of_run:
  assumes "run_fine run x"
  shows "step_fine t run (map_option (\<lambda>r. case r of (Inl e, s) \<Rightarrow> (Inl (LoopThrew e), s) | (Inr a, s) \<Rightarrow> (Inr a, s)) x)"
  using assms by (auto simp: run_fine_def step_fine_def split: option.splits sum.splits prod.splits)

lemma resume_run_fine:
  assumes "orderly t st" "approval_env_fine ae ro g"
  shows "step_fine t (ps_run ps) (resume_run ae ro g ps st)"
proof (cases "ro_model ro")
  case False
  define st1 where "st1 = clear_run_checkpoint (ps_run ps) st"
  have s1: "steady t st1" using assms(1) by (simp add: st1_def orderly_def steady_def)
  have "closes (settle_failed r st1) st1" for r by (rule closes_settle_failed[of t]) (simp_all add: steady_in_turn[OF s1])
  then have "run_fine (ps_run ps) (Some (yield_result (settle_failed r st1)))" for r
    by (rule resumed.yield_fine[OF _ s1])
  then show ?thesis using step_of_run False by (fastforce simp: resume_run_def Let_def st1_def[symmetric])
next
  case True
  have o2: "orderly t (st\<lparr>ls_session := sync_context_sources ro (ls_session st)\<rparr>)"
    using assms(1) in_turn_sync by (simp add: orderly_def steady_def)
  have "lq_handlers (resumed_params ae ro g ps) = resumed_handlers (ae_loop ae) (ps_run ps)" by (simp add: resumed_params_def)
  from resumed.run_loop_fine[OF o2 this] assms(2)
  have "run_fine (ps_run ps) (run_streaming_tool_loop (ae_loop ae) (resumed_params ae ro g ps)
      (st\<lparr>ls_session := sync_context_sources ro (ls_session st)\<rparr>))"
    by (simp add: approval_env_fine_def resumed_params_def)
  then show ?thesis unfolding resume_run_def using True step_of_run by simp
qed

text \<open>The group of the thread that holds the calls, with its first calls answered.\<close>

definition answering :: "jsstring \<Rightarrow> tool_call list \<Rightarrow> loop_state \<Rightarrow> bool" where
  "answering t rest st \<longleftrightarrow> steady t st \<and> answered_up_to t rest (ls_session st)"

lemma answering_results:
  assumes "answering t (dn @ rest) st" "answers_calls ms dn"
  shows "\<exists>st'. append_results False ms st = (Inr (), st') \<and> answering t rest st'"
proof -
  obtain es e fs d0 where g: "loop_entries st = es @ e # fs" "grouped es" "turn_id e = t" "result_id (message e) = None"
      "calls_of (message e) = d0 @ dn @ rest" "map (\<lambda>x. (turn_id x, result_id (message x))) fs = map (\<lambda>c. (t, Some (call_id c))) d0"
    using assms(1) by (auto simp: answering_def answered_up_to_def)
  obtain st' hs where r: "append_results False ms st = (Inr (), st')" "steady t st'" "loop_entries st' = loop_entries st @ hs"
      "map (\<lambda>e. (turn_id e, result_id (message e))) hs = map (\<lambda>i. (t, Some i)) (tool_ids ms)"
    using steady_results[of t st False ms] assms(1) by (auto simp: answering_def)
  have "answered_up_to t rest (ls_session st')"
    unfolding answered_up_to_def
    by (intro exI[of _ es] exI[of _ e] exI[of _ "fs @ hs"] exI[of _ "d0 @ dn"])
      (use g r(3,4) answers_ids[OF assms(2)] in \<open>simp add: comp_def\<close>)
  then show ?thesis using r by (auto simp: answering_def)
qed

lemma answering_same:
  "answering t rest st \<Longrightarrow> ls_session st' = ls_session st \<Longrightarrow> ls_requests st' = ls_requests st \<Longrightarrow> ls_out st' = ls_out st
   \<Longrightarrow> answering t rest st'"
  by (simp add: answering_def steady_def)

lemma answering_all: "answering t [] st \<Longrightarrow> orderly t st"
proof -
  assume a: "answering t [] st"
  then obtain es e fs d0 where g: "loop_entries st = es @ e # fs" "grouped es" "turn_id e = t" "result_id (message e) = None"
      "calls_of (message e) = d0" "map (\<lambda>x. (turn_id x, result_id (message x))) fs = map (\<lambda>c. (t, Some (call_id c))) d0"
    by (auto simp: answering_def answered_up_to_def)
  have "grouped (es @ e # fs)" using g grouped_group[of es e t fs] by (simp add: comp_def)
  then show ?thesis using a g(1) by (simp add: orderly_def answering_def)
qed

lemma after_batch_fine:
  assumes "answering t (ps_remaining ps) st" "approval_env_fine ae ro g" "batch_outcome (pending_batch ps) (ps_remaining ps) (ls_loop st) r"
  shows "step_fine t (ps_run ps) (after_batch ae ro g ps r st)"
proof (cases r)
  case (BatchCompleted ms)
  obtain st1 where s1: "append_results False ms st = (Inr (), st1)" "answering t [] st1"
    using answering_results[of t "ps_remaining ps" "[]" st ms] assms(1,3) by (auto simp: BatchCompleted)
  have o2: "orderly t (notify_synchronized (ps_run ps) st1)" by (rule orderly_same[OF answering_all[OF s1(2)]]) simp_all
  show ?thesis using s1(1) resume_run_fine[OF o2 assms(2)] orderly_steady[OF o2]
    by (simp add: after_batch_def BatchCompleted Let_def)
next
  case (BatchApproval res ms)
  obtain dn c rest where sp: "ps_remaining ps = dn @ c # rest" "answers_calls ms dn" "saved_pending (pending_batch ps) c rest (ls_loop st)"
    using assms(3) by (auto simp: BatchApproval)
  obtain st1 where s1: "append_results False ms st = (Inr (), st1)" "answering t (c # rest) st1"
    using answering_results[of t dn "c # rest" st ms] assms(1) sp(1,2) by auto
  define st2 where "st2 = notify_synchronized (ps_run ps) st1"
  have a2: "answering t (c # rest) st2" "ls_loop st1 = ls_loop st"
    using answering_same[OF s1(2)] append_results_frame[OF s1(1)] by (simp_all add: st2_def)
  obtain p ck where pc: "map_of (tl_pending (ls_loop st)) (ps_run ps) = Some p" "ps_run p = ps_run ps" "ps_call p = c" "ps_remaining p = rest"
      "tl_checkpoint (ls_loop st) = Some ck" "rc_status ck = CkAwaiting" "rc_pending ck = Some (clone_call c)" "rc_remaining ck = map clone_call rest"
    using sp(3) by (auto simp: saved_pending_def pending_batch_def)
  have "awaiting_run (ps_run ps) (record_type x st2)" for x
    unfolding awaiting_run_def
    by (intro exI[of _ t] exI[of _ p] exI[of _ ck])
      (use a2 pc in \<open>simp add: answering_def steady_def st2_def\<close>)
  then have "awaiting_run (ps_run ps) (emit y (record_type x st2))" for x y by (simp add: awaiting_run_def)
  then show ?thesis using s1(1) a2
    by (simp add: after_batch_def BatchApproval Let_def st2_def[symmetric] answering_def steady_def step_fine_def run_fine_def settled_run_def)
qed (use assms(1) in \<open>simp_all add: after_batch_def answering_def Let_def\<close>)

lemma answer_pending_frame:
  assumes "answer_pending ae g ai ps st = Some (r, st')"
  shows "ls_session st' = ls_session st \<and> ls_requests st' = ls_requests st \<and> ls_out st' = ls_out st \<and> ls_loop st' = ls_loop st"
    "r = Inr m \<Longrightarrow> \<exists>ct. m = tool_message (ps_call ps) ct"
  using assms by (auto simp: answer_pending_def Let_def split: if_splits option.splits sum.splits)

lemma continue_pending_fine:
  assumes "answering t (ps_call ps # ps_remaining ps) st" "approval_env_fine ae ro g"
  shows "step_fine t (ps_run ps) (continue_pending ae ro g ai ps st)"
proof -
  have ans: "answer_pending ae g ai ps st \<noteq> None"
  proof -
    have "call_tool g (ae_call ae) (approved_call ps) \<noteq> None" using assms(2) unfolding approval_env_fine_def by blast
    then show ?thesis by (auto simp: answer_pending_def Let_def)
  qed
  then obtain r st1 where a: "answer_pending ae g ai ps st = Some (r, st1)" by auto
  have a1: "answering t (ps_call ps # ps_remaining ps) st1" by (rule answering_same[OF assms(1)]) (use answer_pending_frame(1)[OF a] in simp_all)
  show ?thesis
  proof (cases r)
    case (Inl e)
    then show ?thesis using a a1 assms(1) by (simp add: continue_pending_def answering_def)
  next
    case (Inr m)
    then obtain ct where m: "m = tool_message (ps_call ps) ct" using answer_pending_frame(2)[OF a] by blast
    have "answers_calls [m] [ps_call ps]" by (simp add: m answers_calls_def tool_message_def)
    then obtain st2 where s2: "append_results False [m] st1 = (Inr (), st2)" "answering t (ps_remaining ps) st2"
      using answering_results[of t "[ps_call ps]" "ps_remaining ps" st1 "[m]"] a1 by auto
    obtain r3 st3 where s3: "record_completed_call (bn_zod (ae_batch ae)) ps st2 = (r3, st3)" by fastforce
    have a3: "answering t (ps_remaining ps) st3"
      by (rule answering_same[OF s2(2)]; use s3 in \<open>auto simp: record_completed_call_def Let_def split: option.splits if_splits sum.splits\<close>)
    define st4 where "st4 = notify_synchronized (ps_run ps) st3"
    have a4: "answering t (ps_remaining ps) st4" by (rule answering_same[OF a3]) (simp_all add: st4_def)
    obtain b lp tr where b: "execute_tool_batch g (ae_batch ae) (attach_artifacts (ae_loop ae) st4) (pending_batch ps) (ls_loop st4) = Some (b, lp, tr)"
      using execute_batch_returns[where inp = "pending_batch ps"] assms(2) unfolding approval_env_fine_def by fastforce
    have "batch_outcome (pending_batch ps) (ps_remaining ps) lp b"
      using execute_batch_outcome[OF b] by (simp add: pending_batch_def)
    moreover have "answering t (ps_remaining ps) (note_events (ps_tools ps) tr (st4\<lparr>ls_loop := lp\<rparr>))"
      by (rule answering_same[OF a4]) simp_all
    ultimately have "step_fine t (ps_run ps) (after_batch ae ro g ps b (note_events (ps_tools ps) tr (st4\<lparr>ls_loop := lp\<rparr>)))"
      using after_batch_fine[OF _ assms(2)] by simp
    then show ?thesis using a Inr a1 s2 s3 a3 b assms(1)
      by (simp add: continue_pending_def st4_def[symmetric] Let_def answering_def split: sum.split)
  qed
qed

lemma cancel_resumed_fine:
  assumes "steady t st"
  shows "run_fine run (Some (cancel_resumed ae ps x st))"
proof -
  define st1 where "st1 = (forget_pending (ps_run ps) st)\<lparr>ls_iteration := ps_iteration ps\<rparr>"
  have "steady t st1" using assms by (simp add: st1_def steady_def forget_pending_def)
  then obtain st2 where s2: "append_results False (case x of BatchCut e ms \<Rightarrow> ms | LoopThrew e \<Rightarrow> []) st1 = (Inr (), st2)" "steady t st2"
    using steady_results by blast
  have "closes (finish_interrupted_run env r sg st2) st2" for env r sg
    using resumed.cancelled[OF steady_in_turn[OF s2(2)], of env r "[]" sg] by (simp add: resumed_handlers_def)
  then have "run_fine run (Some (yield_result (finish_interrupted_run env r sg st2)))" for env r sg
    by (rule resumed.yield_fine[OF _ s2(2)])
  then show ?thesis using s2(1) by (simp add: cancel_resumed_def Let_def st1_def[symmetric])
qed

lemma resolve_fine:
  assumes "waiting (ai_run ai) st" "approval_env_fine ae ro g"
  shows "case resolve_tool_approval ae ro g ai st of
      None \<Rightarrow> False
    | Some (Inl e, st') \<Rightarrow> \<exists>t. in_turn t (ls_session st')
    | Some (Inr r, st') \<Rightarrow> run_fine (ai_run ai) (Some (Inr r, st'))"
proof -
  obtain t ps where w: "steady t st" "answered_up_to t (ps_call ps # ps_remaining ps) (ls_session st)"
      "map_of (tl_pending (ls_loop st)) (ai_run ai) = Some ps" "ps_run ps = ai_run ai"
    using assms(1) by (auto simp: waiting_def awaiting_run_def steady_def)
  define st1 where "st1 = forget_pending (ai_run ai) st"
  show ?thesis
  proof (cases "change_checkpoint (bn_zod (ae_batch ae)) True (resumed_checkpoint ps) (ls_loop st1)")
    case (Inl e)
    then show ?thesis using w by (auto simp: resolve_tool_approval_def Let_def st1_def[symmetric] steady_def) (auto simp: st1_def forget_pending_def)
  next
    case (Inr lp)
    define st2 where "st2 = st1\<lparr>ls_loop := lp, ls_iteration := ps_iteration ps\<rparr>"
    have "answering t (ps_call ps # ps_remaining ps) st2"
      using w by (simp add: st2_def st1_def forget_pending_def answering_def steady_def)
    from continue_pending_fine[OF this assms(2), of ai]
    have f: "step_fine t (ai_run ai) (continue_pending ae ro g ai ps st2)" by (simp add: w(4))
    then obtain x s where c: "continue_pending ae ro g ai ps st2 = Some (x, s)"
      by (cases "continue_pending ae ro g ai ps st2") (auto simp: step_fine_def)
    have eq: "resolve_tool_approval ae ro g ai st = Some (case (x, s) of
         (Inr a, s) \<Rightarrow> (Inr a, s)
       | (Inl x, s) \<Rightarrow> (case x of
           LoopThrew e \<Rightarrow> if is_operation_aborted e (ae_catch ae) then cancel_resumed ae ps x s else (Inl e, s)
         | BatchCut e ms \<Rightarrow> cancel_resumed ae ps x s))"
      using w(3) Inr c by (simp add: resolve_tool_approval_def Let_def st1_def[symmetric] st2_def[symmetric])
    show ?thesis
    proof (cases x)
      case xr: (Inr a)
      then show ?thesis using f c by (simp add: eq step_fine_def)
    next
      case xl: (Inl e)
      have st: "steady t s" using f c xl by simp
      have cf: "case Some (cancel_resumed ae ps e s) of None \<Rightarrow> False | Some (Inl e, st') \<Rightarrow> P e st'
          | Some (Inr r, st') \<Rightarrow> run_fine (ai_run ai) (Some (Inr r, st'))" for P
        using cancel_resumed_fine[OF st, of "ai_run ai" ae ps e] by (simp add: run_fine_def split: sum.splits prod.splits)
      show ?thesis
      proof (cases e)
        case (LoopThrew v)
        have "\<exists>t. in_turn t (ls_session s)" using st by (auto simp: steady_def)
        then show ?thesis using cf xl unfolding eq LoopThrew by (cases "is_operation_aborted v (ae_catch ae)") (simp_all del: option.case, simp)
      next
        case (BatchCut v ms)
        then show ?thesis using cf xl by (simp add: eq del: option.case)
      qed
    qed
  qed
qed

section \<open>A waiting run that is dropped\<close>

lemma cancel_calls_answer:
  assumes "answering t cs st"
  shows "\<exists>st'. cancel_calls why cs st = (Inr (), st') \<and> answering t [] st' \<and> ls_loop st' = ls_loop st"
  using assms
proof (induction cs arbitrary: st)
  case (Cons c cs)
  define m where "m = tool_message c (js ''Tool '' @ call_name c @ js '' cancelled before execution: '' @ why)"
  have "answers_calls [m] [c]" by (simp add: m_def answers_calls_def tool_message_def)
  then obtain st1 where s1: "append_results False [m] st = (Inr (), st1)" "answering t cs st1"
    using answering_results[of t "[c]" cs st "[m]"] Cons(2) by auto
  define st2 where "st2 = record_type (js ''tool_call.cancelled'') st1"
  have "answering t cs st2" by (rule answering_same[OF s1(2)]) (simp_all add: st2_def)
  from Cons(1)[OF this] obtain st' where "cancel_calls why cs st2 = (Inr (), st')" "answering t [] st'" "ls_loop st' = ls_loop st2" by blast
  then show ?case using s1(1) append_results_frame[OF s1(1)] by (simp add: m_def[symmetric] st2_def[symmetric]) (simp add: st2_def)
qed simp

lemma drop_pending_fine:
  assumes "answering t (ps_call ps # ps_remaining ps) st"
  shows "\<exists>r st'. finish_pending_approval_cancellation env ps why u st = (Inr r, st') \<and> ready st'
    \<and> tl_pending (ls_loop st') = tl_pending (ls_loop st)"
proof -
  define st0 where "st0 = st\<lparr>ls_iteration := ps_iteration ps\<rparr>"
  have "answering t (ps_call ps # ps_remaining ps) st0" by (rule answering_same[OF assms]) (simp_all add: st0_def)
  from cancel_calls_answer[OF this, of why] obtain st1 where s1: "cancel_calls why (ps_call ps # ps_remaining ps) st0 = (Inr (), st1)"
      "answering t [] st1" "ls_loop st1 = ls_loop st0" by blast
  define r where "r = attach_artifacts env st1 (cancellation_result ps why u)"
  define st2 where "st2 = completed (record_type (js ''run.interrupted'') st1)"
  have o2: "orderly t st2" by (rule orderly_same[OF answering_all[OF s1(2)]]) (simp_all add: st2_def)
  obtain st3 e where s3: "append_summary (ar_summary r) st2 = (Inr (), st3)" "steady t st3" "loop_entries st3 = loop_entries st2 @ [e]"
      "result_id (message e) = None" "calls_of (message e) = []"
    using steady_assistant[OF orderly_steady[OF o2], of "ar_summary r" None] by (auto simp: append_summary_def)
  have g3: "grouped (loop_entries st3)" using s3(3-5) o2 by (auto simp: orderly_def intro!: grouped_append)
  obtain s where c: "session_commit_turn (ls_session st3) = Inr s" "closed_session s" "session_entries s = loop_entries st3"
    using in_turn_commit[OF steady_in_turn[OF s3(2)]] by blast
  define st5 where "st5 = clear_run_checkpoint (ps_run ps) (st3\<lparr>ls_session := s\<rparr>)"
  have "finish_pending_approval_cancellation env ps why u st = (Inr r, st5)"
    using s1(1) s3(1) c(1)
    by (simp add: finish_pending_approval_cancellation_def st0_def[symmetric] r_def[symmetric] Let_def st2_def[symmetric]
        commit_run_def on_session_def st5_def del: cancel_calls.simps)
  moreover have "ready st5" using s3(2) c(2,3) g3 by (simp add: ready_def st5_def steady_def)
  moreover have "ls_loop st2 = ls_loop st1" by (simp add: st2_def completed_def)
  then have "tl_pending (ls_loop st5) = tl_pending (ls_loop st)"
    using on_session_frame[of "session_append_assistant (ar_summary r) None" st2 "Inr ()" st3] s3(1) s1(3)
    by (simp add: append_summary_def st5_def clear_run_checkpoint_def st0_def split: option.split)
  ultimately show ?thesis by blast
qed

lemma interrupt_fine:
  assumes "waiting run st"
  shows "case interrupt_pending_approval env run why st of
      (Inr (Some r), st') \<Rightarrow> ready st' \<and> map_of (tl_pending (ls_loop st')) run = None | _ \<Rightarrow> False"
proof -
  obtain t ps where w: "steady t st" "answered_up_to t (ps_call ps # ps_remaining ps) (ls_session st)"
      "map_of (tl_pending (ls_loop st)) run = Some ps"
    using assms by (auto simp: waiting_def awaiting_run_def steady_def)
  define st1 where "st1 = clear_run_checkpoint run (forget_pending run st)"
  have "answering t (ps_call ps # ps_remaining ps) st"
    using w by (simp add: answering_def)
  then have "answering t (ps_call ps # ps_remaining ps) st1"
    by (rule answering_same) (simp_all add: st1_def forget_pending_def)
  moreover have "map_of (tl_pending (ls_loop st1)) run = None"
    by (simp add: st1_def clear_run_checkpoint_def forget_pending_def split: option.split)
  ultimately have f: "\<exists>r st'. x = (Inr r, st') \<and> ready st' \<and> map_of (tl_pending (ls_loop st')) run = None"
    if "finish_pending_approval_cancellation env ps y True st1 = x" for x y
    using drop_pending_fine[of t ps st1 env y True] that by auto
  show ?thesis using w(3)
    by (auto simp: interrupt_pending_approval_def st1_def[symmetric] split: prod.splits sum.splits dest!: f)
qed

section \<open>Failures close the turn in two ways\<close>

lemma session_abort_entries:
  assumes "in_turn t s" "session_abort_turn m s = Inr s'"
  shows "\<exists>e. session_entries s' = session_entries s @ [e] \<and> \<not> is_tool_msg (message e) \<and> calls_of (message e) = []
    \<and> result_id (message e) = None"
  using assms
  by (auto simp: session_abort_turn_def on_thread_def in_turn_def abort_turn_def require_open_turn_def append_entry_def set_status_def
      is_tool_msg_def calls_of_def result_id_def Let_def split: sum.splits)

lemma resumed_failure_leaves:
  assumes "in_turn t (ls_session st)" "e \<in> set (loop_entries st)" "turn_id e = t" "c \<in> set (calls_of (message e))"
    and "call_id c \<notin> set (result_ids t (loop_entries st))"
  shows "case resumed_failure env run msg cl st of
      (Inl x, st') \<Rightarrow> False | (Inr r, st') \<Rightarrow> closed_session (ls_session st') \<and> \<not> turn_answered t (loop_entries st')"
proof -
  obtain s' where a: "session_abort_turn msg (ls_session st) = Inr s'" "closed_session s'" using in_turn_abort[OF assms(1)] by blast
  then obtain n where n: "session_entries s' = loop_entries st @ [n]" "\<not> is_tool_msg (message n)"
    using session_abort_entries[OF assms(1)] by blast
  have "\<not> turn_answered t (session_entries s')"
    unfolding turn_answered_def n(1) result_ids_snoc_chat[OF n(2)] using assms(2-5) by auto
  then show ?thesis using a by (simp add: resumed_failure_def then_return_def on_session_def Let_def)
qed

lemma fresh_failure_answers:
  assumes "in_turn t (ls_session st)"
  shows "case fresh_failure env run msg cl st of
      (Inl x, st') \<Rightarrow> False | (Inr r, st') \<Rightarrow> closed_session (ls_session st') \<and> turn_answered t (loop_entries st')"
  using in_turn_interrupt[OF assms, of msg] by (auto simp: fresh_failure_def then_return_def on_session_def Let_def)

text \<open>An interrupted turn is grouped again when the calls left over have ids of their own.\<close>

lemma grouped_ids:
  "grouped es \<Longrightarrow> e \<in> set es \<Longrightarrow> turn_id e = t \<Longrightarrow> c \<in> set (calls_of (message e)) \<Longrightarrow> call_id c \<in> set (result_ids t es)"
proof (induction es rule: grouped.induct)
  case (2 x es)
  have mono: "set (result_ids t (drop n es)) \<subseteq> set (result_ids t (x # es))" for n
    by (auto simp: result_ids_def dest: in_set_dropD)
  show ?case
  proof (cases "e = x")
    case True
    then obtain k where k: "k < length (calls_of (message x))" "calls_of (message x) ! k = c" using 2(5) by (auto simp: in_set_conv_nth)
    note a = grouped_answer[OF 2(2) k(1)]
    have "es ! k \<in> set es" using k(1) grouped_room[OF 2(2)] by simp
    then show ?thesis using a k(2) True 2(4)
      by (auto simp: result_ids_def result_id_def is_tool_msg_def intro!: image_eqI[where x = "es ! k"] split: llm_message.splits)
  next
    case False
    have "e \<in> set (take (length (calls_of (message x))) es) \<or> e \<in> set (drop (length (calls_of (message x))) es)"
      using False 2(3) by (metis append_take_drop_id set_ConsD Un_iff set_append)
    moreover have "calls_of (message e) = []" if "e \<in> set (take (length (calls_of (message x))) es)"
    proof -
      have "result_id (message e) \<noteq> None"
      proof -
        have eq: "map (\<lambda>y. (turn_id y, result_id (message y))) (take (length (calls_of (message x))) es)
            = map (\<lambda>c. (turn_id x, Some (call_id c))) (calls_of (message x))" using 2(2) by simp
        have "(turn_id e, result_id (message e)) \<in> set (map (\<lambda>y. (turn_id y, result_id (message y))) (take (length (calls_of (message x))) es))"
          using that by auto
        then show ?thesis unfolding eq by auto
      qed
      then show ?thesis by (cases "message e") (simp_all add: result_id_def calls_of_def)
    qed
    ultimately show ?thesis using 2(1) 2(2,4,5) mono by auto
  qed
qed simp

lemma result_is_tool: "result_id (message e) = Some i \<Longrightarrow> is_tool_msg (message e)"
  by (simp add: result_id_def is_tool_msg_def split: llm_message.splits)

lemma result_ids_mono: "set es \<subseteq> set fs \<Longrightarrow> set (result_ids t es) \<subseteq> set (result_ids t fs)"
  by (auto simp: result_ids_def)

lemma prune_skel [simp]: "is_assistant_entry (prune_calls est t ids e) = is_assistant_entry e"
  "result_id (message (prune_calls est t ids e)) = result_id (message e)"
  "role_tag (message (prune_calls est t ids e)) = role_tag (message e)"
  by (auto simp: prune_calls_def is_assistant_entry_def result_id_def role_tag_def Let_def split: llm_message.splits option.splits)

lemma prune_grouped:
  assumes "grouped es" "set (result_ids t es) \<subseteq> set ids"
  shows "grouped (map (prune_calls est t ids) es)"
proof (rule grouped_cong[OF _ assms(1)])
  have "skel (prune_calls est t ids e) = skel e" if "e \<in> set es" for e
  proof (cases "turn_id e = t")
    case True
    have "calls_of (message (prune_calls est t ids e)) = calls_of (message e)"
      using grouped_ids[OF assms(1) that True] assms(2) by (auto simp: prune_calls_of[OF True] filter_id_conv)
    then show ?thesis by (simp add: skel_def)
  qed (simp add: skel_def)
  then show "map skel es = map skel (map (prune_calls est t ids) es)" by simp
qed

lemma interrupt_groups:
  assumes "answering t rest st" "list_all (\<lambda>c. call_id c \<notin> set (result_ids t (loop_entries st))) rest"
    and "session_interrupt_turn m (ls_session st) = Inr s'"
  shows "grouped (session_entries s')"
proof -
  obtain es e fs dn where g: "loop_entries st = es @ e # fs" "grouped es" "turn_id e = t" "result_id (message e) = None"
      "calls_of (message e) = dn @ rest" "map (\<lambda>x. (turn_id x, result_id (message x))) fs = map (\<lambda>c. (t, Some (call_id c))) dn"
    using assms(1) by (auto simp: answering_def answered_up_to_def)
  define ids where "ids = result_ids t (loop_entries st)"
  define p where "p = prune_calls (ss_est (ls_session st)) t ids"
  obtain n where n: "session_entries s' = map p (loop_entries st) @ [n]" "result_id (message n) = None" "calls_of (message n) = []"
    using assms(1,3)
    by (auto simp: session_interrupt_turn_def on_thread_def answering_def steady_def in_turn_def interrupt_turn_def abort_turn_def
        require_open_turn_def remove_unmatched_tool_calls_def append_entry_def set_status_def calls_of_def result_id_def Let_def
        p_def ids_def split: sum.splits)
  have tool: "x \<in> set fs \<Longrightarrow> turn_id x = t \<and> result_id (message x) \<noteq> None \<and> is_tool_msg (message x)" for x
  proof -
    assume "x \<in> set fs"
    then have "(turn_id x, result_id (message x)) \<in> set (map (\<lambda>c. (t, Some (call_id c))) dn)"
      unfolding g(6)[symmetric] by auto
    then show ?thesis using result_is_tool by auto
  qed
  have fs: "map p fs = fs" unfolding p_def by (rule map_idI) (simp add: tool)
  have "map (\<lambda>c. Some (call_id c)) dn = map (\<lambda>x. result_id (message x)) fs"
    using arg_cong[where f = "map snd", OF g(6)] by (simp add: comp_def)
  have dn: "call_id c \<in> set ids" if "c \<in> set dn" for c
  proof -
    have "(t, Some (call_id c)) \<in> set (map (\<lambda>x. (turn_id x, result_id (message x))) fs)"
      unfolding g(6) using that by auto
    then obtain x where x: "x \<in> set fs" "turn_id x = t" "result_id (message x) = Some (call_id c)" by auto
    then have "msg_call_id (message x) = call_id c" by (simp add: result_id_def split: llm_message.splits)
    then show ?thesis using x tool by (auto simp: ids_def result_ids_def g(1) intro!: image_eqI[where x = x])
  qed
  have rest: "filter (\<lambda>c. call_id c \<in> set ids) rest = []"
    using assms(2) by (simp add: ids_def filter_empty_conv list_all_iff)
  have "filter (\<lambda>c. call_id c \<in> set ids) dn = dn" using dn by simp
  then have calls: "calls_of (message (p e)) = dn" using rest g(3,5) by (simp add: p_def prune_calls_of)
  have "\<not> is_tool_msg (message e)" using g(4) by (simp add: result_id_def is_tool_msg_def split: llm_message.splits)
  then have "\<not> is_tool_msg (message (p e))" by (simp add: p_def)
  then have pe: "result_id (message (p e)) = None" "turn_id (p e) = t"
    using g(3) by (simp_all add: result_id_def is_tool_msg_def p_def split: llm_message.splits)
  have "set (result_ids t es) \<subseteq> set ids" unfolding ids_def g(1) by (rule result_ids_mono) auto
  then have "grouped (map p es)" unfolding p_def by (rule prune_grouped[OF g(2)])
  from grouped_group[OF this pe, of fs] have "grouped (map p (es @ e # fs))" using g(6) calls fs by (simp add: comp_def)
  then show ?thesis unfolding n(1) g(1)[symmetric] using n(2,3) by (intro grouped_append) simp_all
qed

section \<open>The requests of a loop are bounded\<close>

definition sends_none :: "loop_handlers \<Rightarrow> bool" where
  "sends_none h \<longleftrightarrow> (\<forall>a b st. ls_requests (snd (on_success h a b st)) = ls_requests st)
     \<and> (\<forall>a st. ls_requests (snd (on_soft_land h a st)) = ls_requests st)
     \<and> (\<forall>a st. ls_requests (snd (on_stalled h a st)) = ls_requests st)
     \<and> (\<forall>a c st. ls_requests (snd (on_failure h a c st)) = ls_requests st)
     \<and> (\<forall>a s st. ls_requests (snd (on_cancelled h a s st)) = ls_requests st)"

lemma session_requests [simp]: "ls_requests (snd (on_session f st)) = ls_requests st"
  by (simp add: on_session_def split: sum.split)

lemma then_return_snd [simp]: "snd (then_return x r) = snd x"
  by (simp add: then_return_def split: prod.split sum.split)

lemma commit_requests [simp]: "ls_requests (snd (commit_run st)) = ls_requests st"
  by (simp add: commit_run_def)

lemma sum_case_snd: "ls_requests (snd (case x of (Inl e, s) \<Rightarrow> (Inl (g e), s) | (Inr u, s) \<Rightarrow> f s)) = n"
  if "ls_requests (snd x) = n" "\<And>s. ls_requests s = n \<Longrightarrow> ls_requests (snd (f s)) = n"
  using that by (cases x) (simp split: sum.split)

lemma summary_requests [simp]: "ls_requests (snd (append_summary m st)) = ls_requests st"
  by (simp add: append_summary_def)

lemma interrupt_requests [simp]: "ls_requests (snd (complete_interrupted_run env run sg st)) = ls_requests st"
  unfolding complete_interrupted_run_def by (rule sum_case_snd) (simp_all add: interrupt_open_turn_def)

lemma fresh_sends_none: "sends_none (fresh_handlers env run mx)"
proof -
  have "ls_requests (snd (fresh_close env run a b c st)) = ls_requests st" for a b c st
    unfolding fresh_close_def by (rule sum_case_snd) simp_all
  moreover have "ls_requests (snd (fresh_cancelled env run s st)) = ls_requests st" for s st
    using interrupt_requests[of env run s st]
    by (cases "complete_interrupted_run env run s st") (simp add: fresh_cancelled_def del: interrupt_requests)
  ultimately show ?thesis
    by (simp add: sends_none_def fresh_handlers_def fresh_success_def fresh_failure_def Let_def)
qed

lemma resumed_sends_none: "sends_none (resumed_handlers env run)"
proof -
  have "ls_requests (snd (settle_failed r st)) = ls_requests st" for r st
    unfolding settle_failed_def by (rule sum_case_snd) simp_all
  moreover have "ls_requests (snd (finish_interrupted_run env run s st)) = ls_requests st" for s st
    using interrupt_requests[of env run s st]
    by (cases "complete_interrupted_run env run s st") (simp add: finish_interrupted_run_def del: interrupt_requests split: sum.split)
  ultimately show ?thesis
    by (simp add: sends_none_def resumed_handlers_def resumed_success_def resumed_failure_def Let_def)
qed

lemma finish_requests [simp]: "ls_requests (snd (finish_with r)) = ls_requests (snd r)"
  by (simp add: finish_with_def split: prod.split sum.split)

lemma landing_requests: "landing_chunks cs soft st = (r, st') \<Longrightarrow> ls_requests st' = ls_requests st"
  using landing_chunks_frame by blast

lemma add_landing_requests [simp]: "ls_requests (add_landing_text x st) = ls_requests st"
  by (simp add: add_landing_text_def)

lemma snd_eqI: "f = (a, b) \<Longrightarrow> ls_requests (snd f) = n \<Longrightarrow> ls_requests b = n"
  by simp

lemma soft_land_requests:
  assumes "soft_land env q k msgs st = Some (r, st')" "sends_none (lq_handlers q)"
  shows "length (ls_requests st') = Suc (length (ls_requests st))"
proof -
  have h: "ls_requests (snd (finish_with (on_soft_land (lq_handlers q) a s))) = ls_requests s" for a s
    using assms(2) by (simp add: sends_none_def)
  show ?thesis using assms(1)
    by (auto simp: soft_land_def Let_def split: option.splits prod.splits sum.splits if_splits
        dest!: landing_requests snd_eqI[OF _ h])
qed

lemma final_turn_requests: "sends_none (lq_handlers q) \<Longrightarrow> ls_requests (snd (final_turn env q k tu st)) = ls_requests st"
  unfolding final_turn_def by (rule sum_case_snd) (simp_all add: Let_def next_iteration_def sends_none_def)

lemma after_tools_requests: "sends_none (lq_handlers q) \<Longrightarrow> ls_requests (snd (after_tools env q k cs ms st)) = ls_requests st"
  by (simp add: after_tools_def check_stall_def Let_def next_iteration_def sends_none_def)

lemma with_results_requests:
  assumes "\<And>s. ls_requests (snd (f s)) = ls_requests s"
  shows "ls_requests (snd (with_results env q k ms f st)) = ls_requests st"
proof -
  have "ls_requests (snd (append_results True ms st)) = ls_requests st"
    using append_results_frame[of True ms st] by (cases "append_results True ms st") auto
  then show ?thesis unfolding with_results_def by (rule sum_case_snd) (simp add: Let_def assms)
qed

lemma tool_turn_requests:
  assumes "tool_turn env q g k tu st = Some (r, st')" "sends_none (lq_handlers q)"
  shows "ls_requests st' = ls_requests st"
proof -
  have w: "ls_requests (snd (with_results env q k ms (after_tools env q k cs ms) s)) = ls_requests s" for ms cs s
    by (rule with_results_requests) (simp add: after_tools_requests[OF assms(2)])
  have a: "ls_requests (snd (with_results env q k ms (await_approval env res) s)) = ls_requests s" for ms res s
    by (rule with_results_requests) (simp add: await_approval_def)
  show ?thesis using assms(1)
    by (auto simp: tool_turn_def Let_def split: option.splits prod.splits sum.splits batch_result.splits
        dest!: on_session_frame snd_eqI[OF _ w] snd_eqI[OF _ a])
qed

lemma loop_round_requests:
  assumes "loop_round env q k st = Some (r, st')" "sends_none (lq_handlers q)"
  shows "length (ls_requests st') \<le> length (ls_requests st) + 2" "r = Inr GoOn \<Longrightarrow> length (ls_requests st') = length (ls_requests st) + 1"
proof -
  have t: "length (ls_requests s') \<le> length (ls_requests s) + 1 \<and> (r1 = Inr GoOn \<longrightarrow> length (ls_requests s') = length (ls_requests s))"
    if "take_turn env q k msgs tu s = Some (r1, s')" for msgs tu s r1 s'
  proof (cases "tu_calls tu \<noteq> [] \<and> ls_iteration s > max_iterations q")
    case True
    then show ?thesis using that soft_land_requests[OF _ assms(2)] soft_land_ends by (fastforce simp: take_turn_def)
  next
    case False
    have "ls_requests s' = ls_requests s"
      using that False tool_turn_requests[OF _ assms(2)] final_turn_requests[OF assms(2), of env k tu s]
      by (auto simp: take_turn_def split: option.splits if_splits)
    then show ?thesis by simp
  qed
  have "length (ls_requests st') \<le> length (ls_requests st) + 2 \<and> (r = Inr GoOn \<longrightarrow> length (ls_requests st') = length (ls_requests st) + 1)"
    using assms(1)
    by (auto simp: loop_round_def split: option.splits sum.splits dest!: open_round_frame model_round_frame t)
  then show "length (ls_requests st') \<le> length (ls_requests st) + 2" "r = Inr GoOn \<Longrightarrow> length (ls_requests st') = length (ls_requests st) + 1"
    by simp_all
qed

lemma yield_requests [simp]: "ls_requests (snd (yield_result r)) = ls_requests (snd r)"
  by (simp add: yield_result_def split: prod.split sum.split)

lemma cancel_requests: "sends_none (lq_handlers q) \<Longrightarrow> ls_requests (snd (cancel_loop q sig sg st)) = ls_requests st"
  by (simp add: cancel_loop_def sends_none_def forget_pending_def)

lemma catch_requests:
  assumes "sends_none (lq_handlers q)"
  shows "ls_requests (snd (catch_thrown env q k x st)) = ls_requests st"
proof (cases x)
  case (BatchCut e ms)
  have "ls_requests (snd (append_results False ms st)) = ls_requests st"
    using append_results_frame[of False ms st] by (cases "append_results False ms st") auto
  then show ?thesis unfolding catch_thrown_def BatchCut Let_def loop_thrown.case
    by (rule sum_case_snd) (simp add: cancel_requests[OF assms])
qed (use assms in \<open>simp add: catch_thrown_def Let_def cancel_requests sends_none_def\<close>)

lemma finalize_requests: "sends_none (lq_handlers q) \<Longrightarrow> ls_requests (snd (finalize_loop env q k st)) = ls_requests st"
  by (simp add: finalize_loop_def Let_def cancel_requests) (simp add: sends_none_def)

lemma streaming_loop_requests:
  "sends_none (lq_handlers q) \<Longrightarrow> streaming_loop env q k st = Some (r, st') \<Longrightarrow>
   length (ls_requests st') \<le> length (ls_requests st) + rounds_left q st + 2"
proof (induction env q k st rule: streaming_loop.induct)
  case (1 env q k st)
  obtain x st1 where l: "loop_round env q k st = Some (x, st1)"
    using 1(3) by (subst (asm) streaming_loop.simps) (auto split: option.splits)
  note rq = loop_round_requests[OF l 1(2)]
  show ?case
  proof (cases x)
    case (Inl e)
    then have "ls_requests st' = ls_requests st1"
      using 1(3) catch_requests[OF 1(2), of env k e st1] by (subst (asm) streaming_loop.simps) (simp add: l)
    then show ?thesis using rq by simp
  next
    case (Inr d)
    show ?thesis
    proof (cases d)
      case GoOn
      then have n: "streaming_loop env q (Suc k) st1 = Some (r, st')"
        using 1(3) Inr by (subst (asm) streaming_loop.simps) (simp add: l)
      have "length (ls_requests st') \<le> length (ls_requests st1) + rounds_left q st1 + 2"
        using 1(1)[OF l _ Inr GoOn 1(2) n] by simp
      then show ?thesis using rq(2) loop_round_decreases l Inr GoOn by fastforce
    next
      case LeaveLoop
      then have "ls_requests st' = ls_requests st1"
        using 1(3) Inr finalize_requests[OF 1(2), of env k st1] by (subst (asm) streaming_loop.simps) (simp add: l)
      then show ?thesis using rq by simp
    next
      case (Finish a)
      then have "ls_requests st' = ls_requests st1"
        using 1(3) Inr by (subst (asm) streaming_loop.simps) (auto simp: l yield_result_def)
      then show ?thesis using rq by simp
    qed
  qed
qed

lemma run_agent_requests:
  assumes "run_agent_tool_loop re ro run input im st = Some (r, st')"
  shows "length (ls_requests st') \<le> length (ls_requests st) + nat (case ro_max ro of Some n \<Rightarrow> n | None \<Rightarrow> DEFAULT_MAX_TOOL_ITERATIONS) + 3"
proof -
  let ?q = "fresh_params re ro run input"
  have s: "sends_none (lq_handlers ?q)" using fresh_sends_none by (simp add: fresh_params_def)
  have l: "length (ls_requests s') \<le> length (ls_requests s0) + nat (max_iterations ?q) + 3"
    if "run_streaming_tool_loop (rn_loop re) ?q s0 = Some (r, s')" for s0 s'
    using streaming_loop_requests[OF s that[unfolded run_streaming_tool_loop_def]]
    by (simp add: rounds_left_def fresh_params_def MAX_COMPLETION_FOLLOWUPS_def)
  have pc: "ls_requests (record_planner_context s) = ls_requests s" for s
    by (simp add: record_planner_context_def Let_def split: option.split)
  show ?thesis using assms
    by (auto simp: run_agent_tool_loop_def Let_def max_iterations_def fresh_params_def pc
        split: if_splits option.splits prod.splits sum.splits
        dest!: on_session_frame l[unfolded max_iterations_def fresh_params_def loop_params.simps])
qed

lemma execute_run_requests:
  assumes "execute_run re ro run input im st = Some (r, st')"
  shows "length (ls_requests st') \<le> length (ls_requests st) + nat (case ro_max ro of Some n \<Rightarrow> n | None \<Rightarrow> DEFAULT_MAX_TOOL_ITERATIONS) + 3"
proof -
  have s: "length (ls_requests s') \<le> length (ls_requests st) + nat (case ro_max ro of Some n \<Rightarrow> n | None \<Rightarrow> DEFAULT_MAX_TOOL_ITERATIONS) + 3"
    if "start_run re ro run input im st = Some (x, s')" for x s'
    using that
    by (auto simp: start_run_def Let_def finish_run_without_llm_def completed_def yield_result_def
        split: if_splits dest!: run_agent_requests)
  obtain x s1 where x: "start_run re ro run input im st = Some (x, s1)" using assms by (auto simp: execute_run_def)
  then have "ls_requests st' = ls_requests s1"
  proof -
    have h: "ls_requests (snd (yield_result (complete_interrupted_run (rn_loop re) run StStartup s1))) = ls_requests s1" by simp
    show ?thesis using assms x by (auto simp: execute_run_def split: sum.splits if_splits dest!: snd_eqI[OF _ h])
  qed
  then show ?thesis using s[OF x] by simp
qed

section \<open>A stream that is idle\<close>

lemma take_chunks_returns: "list_all (\<lambda>c. \<not> is_aborted (fst c)) cs \<Longrightarrow> \<exists>tu' st'. take_chunks cs tu st = (Inr tu', st')"
  by (induction cs tu st rule: take_chunks.induct) (auto split: llm_chunk.split)

lemma idle_round:
  assumes "open_round env q k st = Some (Inr msgs, st1)" "le_reply env k msgs = Some rp"
    and "list_all (\<lambda>c. \<not> is_aborted (fst c)) (lr_chunks rp)" "lr_threw rp = Some e"
  shows "\<exists>st2. loop_round env q k st = Some (Inl (LoopThrew e), st2)"
proof -
  obtain tu st2 where "take_chunks (lr_chunks rp) \<lparr>tu_text = [], tu_thinking = [], tu_calls = []\<rparr>
      (st1\<lparr>ls_stage := StLlm, ls_requests := ls_requests st1 @ [msgs]\<rparr>) = (Inr tu, st2)"
    using take_chunks_returns[OF assms(3)] by blast
  then show ?thesis using assms by (simp add: loop_round_def model_round_def Let_def)
qed

lemma idle_aborts: "is_operation_aborted (idle_error o1 n) sig"
  by (simp add: idle_error_def operation_aborted_def plain_error_def is_operation_aborted_def)

lemma idle_is_cancelled:
  assumes "orderly t st" "lq_handlers q = fresh_handlers env run mx" "env_answers env q"
    and "open_round env q k st = Some (Inr msgs, st1)" "le_reply env k msgs = Some rp"
    and "list_all (\<lambda>c. \<not> is_aborted (fst c)) (lr_chunks rp)" "lr_threw rp = Some (idle_error o1 n)"
  shows "\<exists>es s st'. streaming_loop env q k st = Some (Inr (attach_from env es (cancelled_result run s)), st')"
proof -
  obtain st2 where l: "loop_round env q k st = Some (Inl (LoopThrew (idle_error o1 n)), st2)"
    using idle_round[OF assms(4-7)] by blast
  have "round_fine t (lq_run q) (Inl (LoopThrew (idle_error o1 n)), st2)"
    using fresh.loop_round_fine[OF assms(1-3), of k] by (simp add: l)
  then have "in_turn t (ls_session (forget_pending (lq_run q) st2))" by (simp add: steady_def forget_pending_def)
  then obtain st3 where "interrupt_open_turn INTERRUPTED_TEXT (forget_pending (lq_run q) st2) = (Inr (), st3)"
    using interrupt_open_ok by blast
  then show ?thesis
    by (subst streaming_loop.simps)
      (auto simp: l catch_thrown_def idle_aborts cancel_loop_def assms(2) fresh_handlers_def fresh_cancelled_def
        complete_interrupted_run_def yield_result_def attach_artifacts_def Let_def)
qed

section \<open>A resumption that throws\<close>

lemma open_turn_blocks:
  assumes "in_turn t (ls_session st)" "ro_model ro" "\<And>p. \<not> is_aborted (rn_signal re p)"
  shows "\<exists>st'. execute_run re ro run input im st = Some (Inl (thread_thrown TurnAlreadyOpen), st')"
proof -
  have "\<not> is_operation_aborted (thread_thrown TurnAlreadyOpen) (rn_signal re RpCatch)"
    using assms(3) by (simp add: is_operation_aborted_def thread_thrown_def plain_error_def)
  moreover have "session_begin_turn input im (ls_session (record_type a (record_type b st))) = Inl TurnAlreadyOpen" for a b
    using assms(1) by (simp add: session_begin_turn_def on_thread_def begin_turn_def in_turn_def)
  ultimately show ?thesis using assms(2,3)
    by (simp add: execute_run_def start_run_def run_agent_tool_loop_def on_session_def Let_def)
qed

section \<open>A small conversation\<close>

definition demo_loop_env :: "thrown option \<Rightarrow> loop_env" where
  "demo_loop_env e = \<lparr>le_summ = (\<lambda>_ _ _ _. Inr []), le_govern = (\<lambda>_ _. False), le_govern_error = (\<lambda>_ _. operation_aborted []),
     le_signal = (\<lambda>_ _. None),
     le_reply = (\<lambda>_ _. Some \<lparr>lr_chunks = [(None, ChText (js ''done''))], lr_threw = e\<rparr>),
     le_landing = (\<lambda>_ _. Some \<lparr>lr_chunks = [], lr_threw = None\<rparr>), le_usage = (\<lambda>_. None), le_batch = (\<lambda>_. demo_batch_env),
     le_sources = (\<lambda>_. []), le_reads = (\<lambda>_. True), le_sha = id, le_cmp = (\<lambda>_ _. True),
     le_recovery_text = [], le_stalled_text = [], le_landing_text = (\<lambda>_ _. [])\<rparr>"

definition demo_run_env :: run_env where
  "demo_run_env = \<lparr>rn_loop = demo_loop_env None, rn_signal = (\<lambda>_. None), rn_summ = (\<lambda>_ _ _. Inr []), rn_govern = (\<lambda>_. False),
     rn_govern_error = (\<lambda>_. operation_aborted [])\<rparr>"

definition demo_run_options :: runtime_options where
  "demo_run_options = \<lparr>ro_gateway = Some demo_tools, ro_model = True, ro_max = None, ro_memory = [], ro_skill = None,
     ro_root = js ''/work'', ro_profiles = [], ro_todos = None\<rparr>"

definition demo_state :: "session \<Rightarrow> tool_loop \<Rightarrow> loop_state" where
  "demo_state s lp = \<lparr>ls_session = s, ls_loop = lp, ls_events = [], ls_phase = None, ls_out = [], ls_requests = [],
     ls_iteration = 1, ls_text = [], ls_thinking = [], ls_stage = StContext, ls_recovering = False, ls_followups = 0,
     ls_followup = None, ls_satisfied = None, ls_stall = new_stall_detector None, ls_progress = new_progress_monitor\<rparr>"

definition demo_begin :: loop_state where
  "demo_begin = demo_state (new_session demo_session_options 0 0) demo_loop"

lemma usual_new: "usual_estimator (new_estimator None None None)"
  by (simp add: usual_estimator_def new_estimator_def estimator_wf_def)

lemma demo_closed: "closed_session (new_session demo_session_options 0 0)"
  using new_session_ok[of demo_session_options] usual_new
  by (simp add: closed_session_def demo_session_options_def) (simp add: new_session_def new_thread_def)

lemma demo_ready: "ready demo_begin"
  using demo_closed by (simp add: ready_def demo_begin_def demo_state_def) (simp add: new_session_def new_thread_def)

lemma demo_call_some: "call_tool demo_tools demo_done inp \<noteq> None"
  using demo_call_returns[of inp] by auto

lemma demo_answers: "lq_gateway q = Some demo_tools \<Longrightarrow> env_answers (demo_loop_env e) q"
  by (simp add: env_answers_def demo_loop_env_def demo_batch_env_def demo_call_some del: not_None_eq)

lemma demo_env_fine: "run_env_fine demo_run_env"
  by (simp add: run_env_fine_def demo_run_env_def is_aborted_def is_operation_aborted_def operation_aborted_def plain_error_def)

text \<open>A run that waits for an approval of its first call; the second call names no tool.\<close>

definition demo_two_calls :: "tool_call list" where
  "demo_two_calls = [named_call ''a'' ''Send'', named_call ''b'' ''Gone'']"

definition demo_pending :: pending_session where
  "demo_pending = \<lparr>ps_run = js ''r'', ps_input = js ''hi'', ps_call = named_call ''a'' ''Send'', ps_remaining = [named_call ''b'' ''Gone''],
     ps_tools = list_tools demo_tools, ps_iteration = 1, ps_followups = 0, ps_completed = []\<rparr>"

definition demo_checkpoint :: run_checkpoint where
  "demo_checkpoint = \<lparr>rc_run = js ''r'', rc_input = js ''hi'', rc_status = CkAwaiting, rc_phase = PhAct, rc_iteration = 1,
     rc_followups = 0, rc_completion = None, rc_completed = [], rc_pending = Some (clone_call (named_call ''a'' ''Send'')),
     rc_remaining = [clone_call (named_call ''b'' ''Gone'')], rc_approval = Some (pending_approval_of demo_pending RiskNetwork None)\<rparr>"

definition right_of :: "'a \<Rightarrow> 'e + 'a \<Rightarrow> 'a" where
  "right_of d x = (case x of Inl e \<Rightarrow> d | Inr v \<Rightarrow> v)"

definition demo_asked :: session where
  "demo_asked = (let s = new_session demo_session_options 0 0; s1 = right_of s (session_begin_turn (js ''hi'') None s)
     in right_of s1 (session_append_assistant [] (Some demo_two_calls) s1))"

definition demo_waiting :: loop_state where
  "demo_waiting = demo_state demo_asked \<lparr>tl_pending = [(js ''r'', demo_pending)], tl_checkpoint = Some demo_checkpoint, tl_notices = 0\<rparr>"

lemma demo_is_waiting: "waiting (js ''r'') demo_waiting"
proof -
  obtain s1 t e where b: "session_begin_turn (js ''hi'') None (new_session demo_session_options 0 0) = Inr s1" "in_turn t s1"
      "session_entries s1 = session_entries (new_session demo_session_options 0 0) @ [e]"
      "result_id (message e) = None" "calls_of (message e) = []"
    using closed_begin[OF demo_closed] by blast
  obtain s2 f where a: "session_append_assistant [] (Some demo_two_calls) s1 = Inr s2" "in_turn t s2" "session_entries s2 = session_entries s1 @ [f]"
      "turn_id f = t" "result_id (message f) = None" "calls_of (message f) = demo_two_calls"
    using in_turn_assistant[OF b(2), of "[]" "Some demo_two_calls"] by auto
  have s2: "demo_asked = s2" by (simp add: demo_asked_def b(1) a(1) right_of_def)
  have "grouped (session_entries s1)" using b(3-5) by (simp add: new_session_def new_thread_def)
  then have "answered_up_to t demo_two_calls s2"
    unfolding answered_up_to_def using a(3-6)
    by (intro exI[of _ "session_entries s1"] exI[of _ f] exI[of _ "[]"] exI[of _ "[]"]) simp
  then have "answered_up_to t (ps_call demo_pending # ps_remaining demo_pending) demo_asked"
    by (simp add: s2 demo_pending_def demo_two_calls_def)
  then have "awaiting_run (js ''r'') demo_waiting"
    unfolding awaiting_run_def
    by (intro exI[of _ t] exI[of _ demo_pending] exI[of _ demo_checkpoint])
      (use a(2) in \<open>simp add: demo_waiting_def demo_state_def s2 demo_checkpoint_def demo_pending_def\<close>)
  then show ?thesis by (simp add: waiting_def demo_waiting_def demo_state_def)
qed

definition demo_approval_env :: approval_env where
  "demo_approval_env = \<lparr>ae_loop = demo_loop_env None, ae_start = None, ae_answered = None, ae_after = None, ae_catch = None,
     ae_call = demo_done, ae_batch = demo_batch_env\<rparr>"

definition demo_answer :: approval_input where
  "demo_answer = \<lparr>ai_run = js ''r'', ai_approved = False, ai_reason = None\<rparr>"

lemma demo_approval_fine: "approval_env_fine demo_approval_env demo_run_options demo_tools"
  using demo_answers
  by (simp add: approval_env_fine_def resumed_params_def demo_approval_env_def demo_batch_env_def demo_call_some del: not_None_eq)

lemmas demo_checkpoint_simps = update_checkpoint_def clone_run_checkpoint_def checkpoint_valid_def call_valid_def approval_valid_def
  clone_call_def named_call_def MAX_COMPLETED_def MAX_REMAINING_def demo_checkpoint_def demo_pending_def pending_approval_of_def

lemma demo_gone: "call_tool demo_tools demo_done (batch_call it (named_call ''b'' ''Gone''))
    = Some ([], Inl (ToolNotFound (js ''Gone'')))"
  by (simp add: call_tool_def batch_call_def named_call_def demo_tools_def new_gateway_def demo_done_def signal_at_def
      throw_if_aborted_def is_aborted_def Let_def)

lemma demo_unread: "\<not> is_independent_read (find_tool (list_tools demo_tools) (call_name (named_call ''b'' ''Gone'')))"
  by (simp add: is_independent_read_def find_tool_def list_tools_def demo_tools_def demo_read_def demo_write_def to_metadata_def named_call_def)

lemma demo_throws: "\<exists>e st'. resolve_tool_approval demo_approval_env demo_run_options demo_tools demo_answer demo_waiting = Some (Inl e, st')"
proof -
  obtain lp where lp: "change_checkpoint (bn_zod demo_batch_env) True (resumed_checkpoint demo_pending)
       (ls_loop (forget_pending (js ''r'') demo_waiting)) = Inr lp" "tl_checkpoint lp = Some (resumed_checkpoint demo_pending demo_checkpoint)"
    by (simp add: change_checkpoint_def forget_pending_def demo_waiting_def demo_state_def resumed_checkpoint_def demo_checkpoint_simps)
  define st1 where "st1 = (forget_pending (js ''r'') demo_waiting)\<lparr>ls_loop := lp, ls_iteration := 1\<rparr>"
  obtain t where "answering t (named_call ''a'' ''Send'' # [named_call ''b'' ''Gone'']) demo_waiting"
    using demo_is_waiting by (auto simp: waiting_def awaiting_run_def answering_def steady_def demo_waiting_def demo_state_def demo_pending_def)
  then have "answering t (named_call ''a'' ''Send'' # [named_call ''b'' ''Gone'']) (record_type (js ''tool_call.rejected'') st1)"
    by (rule answering_same) (simp_all add: st1_def forget_pending_def)
  then obtain st2 where s2: "append_results False [tool_message (named_call ''a'' ''Send'') (rejected_content (named_call ''a'' ''Send'') None)]
      (record_type (js ''tool_call.rejected'') st1) = (Inr (), st2)"
    using answering_results[of t "[named_call ''a'' ''Send'']" "[named_call ''b'' ''Gone'']" "record_type (js ''tool_call.rejected'') st1"
        "[tool_message (named_call ''a'' ''Send'') (rejected_content (named_call ''a'' ''Send'') None)]"]
    by (auto simp: answers_calls_def tool_message_def simp del: append_results.simps)
  have l2: "ls_loop st2 = lp" using append_results_frame[OF s2] by (simp add: st1_def)
  obtain lp3 where r3: "record_completed_call (bn_zod demo_batch_env) demo_pending st2 = (Inr (), st2\<lparr>ls_loop := lp3\<rparr>)"
      "tl_checkpoint lp3 = Some ((resumed_checkpoint demo_pending demo_checkpoint)\<lparr>rc_completed := [js ''a'']\<rparr>)"
    by (simp add: record_completed_call_def l2 lp(2) resumed_checkpoint_def demo_checkpoint_simps Let_def)
  define st4 where "st4 = notify_synchronized (js ''r'') (st2\<lparr>ls_loop := lp3\<rparr>)"
  have c4: "tl_checkpoint (ls_loop st4) = Some ((resumed_checkpoint demo_pending demo_checkpoint)\<lparr>rc_completed := [js ''a'']\<rparr>)"
    by (simp add: st4_def r3(2))
  have "\<exists>lp5. update_checkpoint (bn_zod demo_batch_env) False (start_checkpoint (pending_batch demo_pending) (ls_loop st4)) (ls_loop st4)
      = Inr lp5"
    by (simp add: start_checkpoint_def pending_batch_def c4 resumed_checkpoint_def demo_checkpoint_simps Let_def)
  then have b: "\<exists>lp5 tr. execute_tool_batch demo_tools demo_batch_env att (pending_batch demo_pending) (ls_loop st4)
      = Some (BatchThrew (failure_thrown (ToolNotFound (js ''Gone''))), lp5, tr)" for att
    by (auto simp: execute_tool_batch_def pending_batch_def demo_pending_def batch_round_def single_call_def
        demo_unread demo_gone caught_def failure_thrown_def plain_error_def is_operation_aborted_def is_aborted_def
        demo_batch_env_def Let_def split: option.split)
  obtain lp5 tr where b5: "execute_tool_batch demo_tools demo_batch_env (attach_artifacts (demo_loop_env None) st4) (pending_batch demo_pending)
      (ls_loop st4) = Some (BatchThrew (failure_thrown (ToolNotFound (js ''Gone''))), lp5, tr)"
    using b by blast
  have "continue_pending demo_approval_env demo_run_options demo_tools demo_answer demo_pending st1
      = Some (Inl (LoopThrew (failure_thrown (ToolNotFound (js ''Gone'')))), note_events (ps_tools demo_pending) tr (st4\<lparr>ls_loop := lp5\<rparr>))"
    using s2 r3(1) b5
    by (simp add: continue_pending_def demo_approval_env_def is_aborted_def answer_pending_def demo_answer_def
        demo_pending_def[THEN arg_cong[where f = ps_call]] demo_pending_def[THEN arg_cong[where f = ps_run]] st4_def[symmetric] after_batch_def Let_def del: append_results.simps)
  then show ?thesis using lp(1)
    by (simp add: resolve_tool_approval_def demo_answer_def demo_waiting_def[THEN arg_cong[where f = ls_loop]] demo_state_def
        demo_approval_env_def is_operation_aborted_def is_aborted_def failure_thrown_def plain_error_def st1_def Let_def
        demo_pending_def[THEN arg_cong[where f = ps_iteration]])
qed

end
