(* ===== verification/Run_State_Laws.thy ===== *)
theory Run_State_Laws
  imports Run_Laws
begin

text \<open>
  What a session saves of its run: an exported work state passes its own schema up to the number of
  todos, and an approval that waits survives a restart.
\<close>

lemma read_status_name [simp]: "read_status (status_name s) = Some s"
  by (cases s) (simp_all add: read_status_def TODO_STATUSES_def js_def)

lemma saved_todos_valid:
  assumes "todos_wf ts"
  shows "list_all (\<lambda>t. in_id t \<noteq> [] \<and> in_content t \<noteq> [] \<and> read_status (in_status t) \<noteq> None) (map saved_todo ts)"
  using assms by (auto simp: list_all_iff saved_todo_def todos_wf_def)

lemma export_checkpoint_valid:
  "export_run_checkpoint zod lp = Inr c \<Longrightarrow> (case c of None \<Rightarrow> True | Some k \<Rightarrow> checkpoint_valid k)"
  by (auto simp: export_run_checkpoint_def clone_run_checkpoint_def Let_def split: option.splits if_splits)

lemma exported_state_valid:
  assumes "todos_wf ts" "export_work_state zod (Some ts) lp = Inr w"
  shows "is_session_work_state w \<longleftrightarrow> length ts \<le> MAX_SAVED_TODOS"
proof -
  obtain c where c: "export_run_checkpoint zod lp = Inr c"
      "w = \<lparr>ws_version = 1, ws_todos = map saved_todo ts, ws_checkpoint = c\<rparr>"
    using assms(2) by (auto simp: export_work_state_def split: sum.splits)
  show ?thesis using export_checkpoint_valid[OF c(1)] saved_todos_valid[OF assms(1)]
    by (simp add: is_session_work_state_def c(2))
qed

lemma saved_checkpoint_clone:
  assumes "update_checkpoint zod n c0 lp0 = Inr lp"
  shows "\<exists>c. tl_checkpoint lp = Some c \<and> clone_run_checkpoint zod' c = Inr c
    \<and> c = c0\<lparr>rc_pending := map_option clone_call (rc_pending c0), rc_remaining := map clone_call (rc_remaining c0)\<rparr>"
proof -
  obtain c where c: "tl_checkpoint lp = Some c" "checkpoint_valid c"
      "c = c0\<lparr>rc_pending := map_option clone_call (rc_pending c0), rc_remaining := map clone_call (rc_remaining c0)\<rparr>"
    using update_checkpoint_InrD[OF assms] by blast
  have "c\<lparr>rc_pending := map_option clone_call (rc_pending c), rc_remaining := map clone_call (rc_remaining c)\<rparr> = c"
    by (simp add: c(3) option.map_comp comp_def)
  then have "clone_run_checkpoint zod' c = Inr c" using c(2) by (simp add: clone_run_checkpoint_def Let_def)
  then show ?thesis using c(1,3) by blast
qed

lemma saved_approval_restored:
  assumes "update_checkpoint zod n c0 lp0 = Inr lp"
    and "rc_status c0 = CkAwaiting" "rc_pending c0 = Some pc" "rc_approval c0 = Some pa"
    and "fits_turn (clone_call pc) c0 th" "still_asked g (clone_call pc) pa"
  shows "\<exists>w lp2. export_run_checkpoint zod' lp = Inr (Some w)
    \<and> restore_run_checkpoint zod' (Some g) th (Some w) lp1 = (Inr True, lp2)
    \<and> tl_checkpoint lp2 = tl_checkpoint lp \<and> get_pending_tool_approval lp2 = Some pa
    \<and> tl_pending lp2 = [(rc_run c0, \<lparr>ps_run = rc_run c0, ps_input = rc_input c0, ps_call = clone_call pc,
        ps_remaining = map clone_call (rc_remaining c0), ps_tools = list_tools g, ps_iteration = rc_iteration c0,
        ps_followups = rc_followups c0, ps_completed = rc_completed c0\<rparr>)]"
proof -
  obtain c where c: "tl_checkpoint lp = Some c" "clone_run_checkpoint zod' c = Inr c"
      "c = c0\<lparr>rc_pending := map_option clone_call (rc_pending c0), rc_remaining := map clone_call (rc_remaining c0)\<rparr>"
    using saved_checkpoint_clone[OF assms(1)] by blast
  have f: "fits_turn (clone_call pc) c th" using assms(5) by (simp add: fits_turn_def c(3) Let_def split: option.splits)
  have e: "export_run_checkpoint zod' lp = Inr (Some c)" by (simp add: export_run_checkpoint_def c(1,2))
  have r: "restore_run_checkpoint zod' (Some g) th (Some c) lp1 = (Inr True, lp1\<lparr>tl_pending := [(rc_run c, restored_session g (clone_call pc) c)], tl_checkpoint := Some c\<rparr>)"
    using assms(2-4,6) f c(2) by (simp add: restore_run_checkpoint_def Let_def c(3))
  define lp2 where "lp2 = lp1\<lparr>tl_pending := [(rc_run c, restored_session g (clone_call pc) c)], tl_checkpoint := Some c\<rparr>"
  have "tl_checkpoint lp2 = tl_checkpoint lp" "get_pending_tool_approval lp2 = Some pa"
    "tl_pending lp2 = [(rc_run c0, \<lparr>ps_run = rc_run c0, ps_input = rc_input c0, ps_call = clone_call pc,
        ps_remaining = map clone_call (rc_remaining c0), ps_tools = list_tools g, ps_iteration = rc_iteration c0,
        ps_followups = rc_followups c0, ps_completed = rc_completed c0\<rparr>)]"
    using assms(2,4) by (simp_all add: lp2_def c(1) get_pending_tool_approval_def restored_session_def) (simp_all add: c(3))
  then show ?thesis using e r unfolding lp2_def[symmetric] by blast
qed

section \<open>More about the small conversation\<close>

lemma demo_answering: "\<exists>t. answering t demo_two_calls demo_waiting \<and> result_ids t (session_entries (ls_session demo_waiting)) = []"
proof -
  obtain t where t: "answering t demo_two_calls demo_waiting"
    using demo_is_waiting by (auto simp: waiting_def awaiting_run_def answering_def steady_def demo_waiting_def demo_state_def demo_pending_def demo_two_calls_def)
  have "list_all (\<lambda>e. \<not> is_tool_msg (message e)) (session_entries demo_asked)"
    by (simp add: demo_asked_def right_of_def session_begin_turn_def session_append_assistant_def append_assistant_def demo_session_simps is_tool_msg_def)
  then have "result_ids t (session_entries demo_asked) = []" by (auto simp: result_ids_def list_all_iff filter_empty_conv)
  then show ?thesis using t by (auto simp: demo_waiting_def demo_state_def)
qed

lemma demo_open_call: "\<exists>t e. in_turn t (ls_session demo_waiting) \<and> e \<in> set (session_entries (ls_session demo_waiting)) \<and> turn_id e = t
    \<and> named_call ''b'' ''Gone'' \<in> set (calls_of (message e))
    \<and> call_id (named_call ''b'' ''Gone'') \<notin> set (result_ids t (session_entries (ls_session demo_waiting)))"
proof -
  obtain t where t: "answering t demo_two_calls demo_waiting" "result_ids t (session_entries (ls_session demo_waiting)) = []"
    using demo_answering by blast
  then obtain es e fs dn where e: "session_entries (ls_session demo_waiting) = es @ e # fs" "turn_id e = t" "calls_of (message e) = dn @ demo_two_calls"
    by (auto simp: answering_def answered_up_to_def)
  show ?thesis
    by (intro exI[of _ t] exI[of _ e]) (use t e in \<open>simp add: answering_def steady_def demo_two_calls_def\<close>)
qed

text \<open>Its checkpoint is one that is saved, fits the thread and is still asked for.\<close>

lemma demo_saved: "\<exists>lp. update_checkpoint (\<lambda>_. plain_error [] []) False demo_checkpoint demo_loop = Inr lp"
  by (simp add: demo_checkpoint_simps risk_name.simps Let_def)

lemma demo_fits: "fits_turn (clone_call (clone_call (named_call ''a'' ''Send''))) demo_checkpoint (ss_thread demo_asked)"
  by (simp add: fits_turn_def demo_asked_def right_of_def session_begin_turn_def session_append_assistant_def append_assistant_def
      demo_session_simps entries_for_turn_def requested_ids_def answered_ids_def demo_two_calls_def demo_checkpoint_def clone_call_def)

lemma demo_asks: "still_asked demo_tools (clone_call (clone_call (named_call ''a'' ''Send''))) (pending_approval_of demo_pending RiskNetwork None)"
  by (simp add: still_asked_def clone_call_def named_call_def demo_tools_def demo_read_def demo_write_def new_gateway_def list_tools_def
      inspect_call_def parse_input_def call_risk_def to_metadata_def pending_approval_of_def default_approval_policy_def Let_def)

text \<open>A run that is about to ask the model.\<close>

definition demo_params :: loop_params where
  "demo_params = \<lparr>lq_run = js ''r'', lq_input = js ''hi'', lq_build = \<lparr>bi_system = [], bi_tools = None\<rparr>, lq_tools = list_tools demo_tools,
     lq_start = 1, lq_planner = True, lq_followups = 0, lq_failure = None, lq_max = None, lq_gateway = Some demo_tools,
     lq_policy = create_saas_completion_policy, lq_handlers = fresh_handlers (demo_loop_env (Some (idle_error None 5))) (js ''r'') None\<rparr>"

definition demo_waiting_model :: loop_state where
  "demo_waiting_model = (let s = new_session demo_session_options 0 0
     in demo_state (right_of s (session_begin_turn [] None s)) demo_loop)"

lemma demo_orderly: "\<exists>t. orderly t demo_waiting_model"
proof -
  obtain s1 t e where b: "session_begin_turn [] None (new_session demo_session_options 0 0) = Inr s1" "in_turn t s1"
      "session_entries s1 = session_entries (new_session demo_session_options 0 0) @ [e]"
      "result_id (message e) = None" "calls_of (message e) = []"
    using closed_begin[OF demo_closed] by blast
  have "grouped (session_entries s1)" using b(3-5) by (simp add: new_session_def new_thread_def)
  then show ?thesis using b(2)
    by (intro exI[of _ t]) (simp add: demo_waiting_model_def b(1) right_of_def demo_state_def orderly_def steady_def)
qed

definition demo_first :: session where
  "demo_first = (let s = new_session demo_session_options 0 0 in set_iteration 1 (right_of s (session_begin_turn [] None s)))"

lemma floor_nine: "\<lfloor>9 / 2 :: rat\<rfloor> = 4"
  by (rule floor_unique) simp_all

lemma demo_block: "sb_content (build_system_block (lq_build demo_params) demo_first) = []"
  by (simp add: build_system_block_def demo_params_def the_tools_def render_tools_def render_sources_def select_sources_def
      demo_first_def set_iteration_def right_of_def session_begin_turn_def demo_session_simps pinned_tokens_def by_priority_def
      demo_session_options_def js_trim_def trim_start_def)

lemma demo_first_tokens: "thread_tokens (ss_thread demo_first) = 4" "compact_threshold (ss_policy demo_first) = 179200"
  "ss_estimator demo_first = new_estimator None None None"
  by (simp_all add: demo_first_def set_iteration_def right_of_def session_begin_turn_def demo_session_simps create_context_policy_def
      window_options_def demo_session_options_def DEFAULT_CONTEXT_WINDOW_def thread_tokens_def set_current_iteration_def
      est_message_def scaled_def new_estimator_def MESSAGE_OVERHEAD_TOKENS_def estimate_text_tokens_def floor_nine)

lemma demo_first_budget: "int (thread_tokens (ss_thread demo_first)) \<le> thread_budget (build_system_block (lq_build demo_params) demo_first) demo_first"
  by (simp add: demo_first_tokens demo_block thread_budget_def est_messages_def estimate_messages_tokens_def MESSAGE_OVERHEAD_TOKENS_def
      estimate_text_tokens_def scaled_def new_estimator_def floor_nine)

lemma demo_opens: "\<exists>msgs st1. open_round (demo_loop_env e) demo_params 0 demo_waiting_model = Some (Inr msgs, st1)"
proof -
  have i: "round_input (demo_loop_env e) demo_params demo_waiting_model = lq_build demo_params"
    by (simp add: round_input_def overlays_def demo_waiting_model_def demo_state_def Let_def)
  have s: "set_iteration (ls_iteration demo_waiting_model) (ls_session demo_waiting_model) = demo_first"
    by (simp add: demo_waiting_model_def demo_state_def demo_first_def Let_def)
  have "prepare_request (le_summ (demo_loop_env e) 0) (le_govern (demo_loop_env e) 0) (lq_build demo_params) demo_first
      = Some (demo_first, Inr (take_snapshot (lq_build demo_params) demo_first, []))"
    by (rule prepare_under_budget[OF _ demo_first_budget]) (simp add: demo_loop_env_def)
  then show ?thesis using i s
    by (simp add: open_round_def Let_def demo_loop_env_def is_aborted_def)
qed

end
