(* ===== verification/Subagent.thy ===== *)
theory Subagent
  imports Agent_Run
begin

text \<open>
  Delegated work: the loop without streaming of \<open>runtime/completeToolLoop.ts\<close>, the subagent that runs
  it (\<open>runtime/subagentRunner.ts\<close>, \<open>runtime/subagentFormat.ts\<close>) with the tools it is given
  (\<open>tools/builtin/exploreTools.ts\<close>), and the Task tool of \<open>tools/builtin/task.ts\<close> through which a run asks for one.

  As in \<open>Tool_Loop\<close> an environment stands for what happens outside. Here it is asked by the number of
  the iteration: the client's answer to a request, the signal at each place that tests it, and what the
  tools meet. \<open>se_prompt\<close> gives the rendered text of a key of the prompt catalogue. The temperature of
  requests is left out, and the trace store accepts every event. A client or a tool that never settles is \<open>None\<close>.
\<close>

section \<open>The complete loop: data\<close>

record llm_client =
  lc_model :: jsstring
  lc_window :: "int option"
  lc_calling :: "bool option"

record complete_request =
  rq_messages :: "llm_message list"
  rq_tools :: "(jsstring \<times> jsstring \<times> jsval) list option"
  rq_purpose :: jsstring
  rq_iteration :: "int option"

record completion =
  co_text :: "jsstring option"
  co_calls :: "tool_call list option"
  co_input :: "int option"

text \<open>What the caller's callbacks may change: the trace of the run, and a note that it stalled.\<close>

record loop_host =
  ho_trace :: "run_event list"
  ho_stalled :: bool

record complete_state =
  cs_session :: session
  cs_host :: loop_host
  cs_requests :: "complete_request list"
  cs_iteration :: int
  cs_text :: jsstring
  cs_recovering :: bool
  cs_detector :: stall_detector

datatype loop_note = NoteTurn int | NoteCompleted int jsstring nat
  | NoteRecovery int stall_observation | NoteStalled int stall_observation

text \<open>The four callbacks are one function of what they are told.\<close>

record complete_params =
  cq_prompt :: jsstring
  cq_system :: jsstring
  cq_client :: llm_client
  cq_gateway :: gateway
  cq_tools :: "tool_metadata list"
  cq_max :: int
  cq_purpose :: "jsstring option"
  cq_landing :: "jsstring option"
  cq_notify :: "loop_note \<Rightarrow> loop_host \<Rightarrow> loop_host"

datatype complete_point = CpHead | CpPrepared | CpReplied | CpTools | CpLanding | CpStart | CpCaught

record sub_env =
  se_summ :: "int \<Rightarrow> summarizer_binding \<Rightarrow> summarizer"
  se_govern :: "int \<Rightarrow> govern_point \<Rightarrow> bool"
  se_govern_error :: "govern_error \<Rightarrow> thrown"
  se_signal :: "int \<Rightarrow> complete_point \<Rightarrow> abort_signal option"
  se_complete :: "llm_client \<Rightarrow> complete_request \<Rightarrow> (thrown + completion) option"
  se_batch :: "int \<Rightarrow> batch_env"
  se_reads :: "run_event list \<Rightarrow> bool"
  se_sha :: "jsstring \<Rightarrow> jsstring"
  se_cmp :: "jsstring \<Rightarrow> jsstring \<Rightarrow> bool"
  se_prompt :: "jsstring \<Rightarrow> jsstring"
  se_tool :: "jsstring \<Rightarrow> tool_definition"
  se_uuid :: jsstring
  se_number :: "jsstring \<Rightarrow> jsnum"
  se_variable :: "jsstring \<Rightarrow> jsstring option"
  se_counters :: "nat \<times> nat"

section \<open>The complete loop: a round\<close>

definition notify :: "complete_params \<Rightarrow> loop_note \<Rightarrow> complete_state \<Rightarrow> complete_state" where
  "notify q n st = st\<lparr>cs_host := cq_notify q n (cs_host st)\<rparr>"

definition trace_calls :: "trace_event list \<Rightarrow> complete_state \<Rightarrow> complete_state" where
  "trace_calls evs st = st\<lparr>cs_host := (cs_host st)\<lparr>ho_trace := ho_trace (cs_host st) @ map GateEvent evs\<rparr>\<rparr>"

definition thrown_at :: "sub_env \<Rightarrow> complete_state \<Rightarrow> complete_point \<Rightarrow> thrown" where
  "thrown_at env st p = abort_reason (se_signal env (cs_iteration st) p) ABORTED_TEXT"

definition cut_at :: "sub_env \<Rightarrow> complete_state \<Rightarrow> complete_point \<Rightarrow> bool" where
  "cut_at env st p \<longleftrightarrow> is_aborted (se_signal env (cs_iteration st) p)"

definition with_session ::
    "(session \<Rightarrow> thread_error + session) \<Rightarrow> complete_state \<Rightarrow> (thrown + unit) \<times> complete_state" where
  "with_session f st = (case f (cs_session st) of
     Inl e \<Rightarrow> (Inl (thread_thrown e), st) | Inr s \<Rightarrow> (Inr (), st\<lparr>cs_session := s\<rparr>))"

definition loop_input :: "sub_env \<Rightarrow> complete_params \<Rightarrow> bool \<Rightarrow> build_input" where
  "loop_input env q recovering = \<lparr>bi_system = (if recovering
       then cq_system q @ [10] @ se_prompt env (js ''agent.stall.recovery'') else cq_system q),
     bi_tools = Some (cq_tools q)\<rparr>"

definition prepare_loop ::
    "sub_env \<Rightarrow> complete_params \<Rightarrow> bool \<Rightarrow> complete_state \<Rightarrow> ((thrown + llm_message list) \<times> complete_state) option" where
  "prepare_loop env q recovering st =
     (case prepare_request (se_summ env (cs_iteration st)) (se_govern env (cs_iteration st))
             (loop_input env q recovering) (cs_session st) of
        None \<Rightarrow> None
      | Some (s, Inl e) \<Rightarrow> Some (Inl (se_govern_error env e), st\<lparr>cs_session := s\<rparr>)
      | Some (s, Inr (sn, _)) \<Rightarrow> Some (Inr (sn_messages sn), st\<lparr>cs_session := s\<rparr>))"

definition send_request ::
    "sub_env \<Rightarrow> complete_params \<Rightarrow> complete_request \<Rightarrow> complete_state \<Rightarrow> ((thrown + completion) \<times> complete_state) option" where
  "send_request env q r st = (case se_complete env (cq_client q) r of
     None \<Rightarrow> None | Some x \<Rightarrow> Some (x, st\<lparr>cs_requests := cs_requests st @ [r]\<rparr>))"

definition round_request :: "complete_params \<Rightarrow> llm_message list \<Rightarrow> int \<Rightarrow> complete_request" where
  "round_request q msgs i = \<lparr>rq_messages = msgs,
     rq_tools = (if lc_calling (cq_client q) = Some False then None else to_llm_tools (cq_tools q)),
     rq_purpose = (case cq_purpose q of Some p \<Rightarrow> p | None \<Rightarrow> js ''subagent''), rq_iteration = Some i\<rparr>"

definition calls_made :: "completion \<Rightarrow> tool_call list" where
  "calls_made co = (case co_calls co of Some cs \<Rightarrow> cs | None \<Rightarrow> [])"

definition trimmed_text :: "completion \<Rightarrow> jsstring" where
  "trimmed_text co = (case co_text co of Some t \<Rightarrow> js_trim t | None \<Rightarrow> [])"

text \<open>What follows a reply before its calls are looked at.\<close>

definition take_reply :: "complete_params \<Rightarrow> llm_message list \<Rightarrow> completion \<Rightarrow> complete_state \<Rightarrow> complete_state" where
  "take_reply q msgs co st =
     (let st1 = st\<lparr>cs_session := calibrate_from_usage (co_input co) msgs (cs_session st), cs_text := trimmed_text co\<rparr>
      in notify q (NoteCompleted (cs_iteration st) (take 240 (trimmed_text co)) (length (calls_made co))) st1)"

definition ask_model ::
    "sub_env \<Rightarrow> complete_params \<Rightarrow> complete_state \<Rightarrow> ((thrown + completion) \<times> complete_state) option" where
  "ask_model env q st =
     (if cut_at env st CpHead then Some (Inl (thrown_at env st CpHead), st)
      else
        let st1 = notify q (NoteTurn (cs_iteration st)) (st\<lparr>cs_session := set_iteration (cs_iteration st) (cs_session st)\<rparr>)
        in (case prepare_loop env q (cs_recovering st1) st1 of
              None \<Rightarrow> None
            | Some (Inl e, st2) \<Rightarrow> Some (Inl e, st2)
            | Some (Inr msgs, st2) \<Rightarrow>
              let st3 = st2\<lparr>cs_recovering := False\<rparr>
              in if cut_at env st3 CpPrepared then Some (Inl (thrown_at env st3 CpPrepared), st3)
                 else (case send_request env q (round_request q msgs (cs_iteration st3)) st3 of
                     None \<Rightarrow> None
                   | Some (Inl e, st4) \<Rightarrow> Some (Inl e, st4)
                   | Some (Inr co, st4) \<Rightarrow>
                     if cut_at env st4 CpReplied then Some (Inl (thrown_at env st4 CpReplied), st4)
                     else Some (Inr co, take_reply q msgs co st4))))"

datatype complete_end = AnotherRound | Summary jsstring

definition say_and_commit ::
    "jsstring option \<Rightarrow> jsstring \<Rightarrow> complete_state \<Rightarrow> (thrown + complete_end) \<times> complete_state" where
  "say_and_commit said result st =
     (case (case said of None \<Rightarrow> (Inr (), st) | Some t \<Rightarrow> with_session (session_append_assistant t None) st) of
        (Inl e, st1) \<Rightarrow> (Inl e, st1)
      | (Inr _, st1) \<Rightarrow> (case with_session session_commit_turn st1 of
            (Inl e, st2) \<Rightarrow> (Inl e, st2) | (Inr _, st2) \<Rightarrow> (Inr (Summary result), st2)))"

definition last_words :: "sub_env \<Rightarrow> complete_state \<Rightarrow> (thrown + complete_end) \<times> complete_state" where
  "last_words env st = (if cs_text st = [] then say_and_commit None (se_prompt env (js ''subagent.summary.empty'')) st
     else say_and_commit (Some (cs_text st)) (cs_text st) st)"

fun append_answers :: "llm_message list \<Rightarrow> complete_state \<Rightarrow> (thrown + unit) \<times> complete_state" where
  "append_answers [] st = (Inr (), st)"
| "append_answers (Chat r c im cs # ms) st = append_answers ms st"
| "append_answers (ToolMsg i n c # ms) st =
     (case with_session (session_append_tool_result
            \<lparr>tr_call_id = i, tr_name = n, tr_content = c, tr_summary = None, tr_iteration = Some (cs_iteration st)\<rparr>) st of
        (Inl e, st1) \<Rightarrow> (Inl e, st1)
      | (Inr _, st1) \<Rightarrow> append_answers ms st1)"

definition next_round :: "complete_state \<Rightarrow> (thrown + complete_end) \<times> complete_state" where
  "next_round st = (Inr AnotherRound, st\<lparr>cs_iteration := cs_iteration st + 1\<rparr>)"

definition judge_progress ::
    "sub_env \<Rightarrow> complete_params \<Rightarrow> tool_call list \<Rightarrow> llm_message list \<Rightarrow> complete_state
     \<Rightarrow> (thrown + complete_end) \<times> complete_state" where
  "judge_progress env q calls ms st =
     (let ob = observe_stall (se_sha env) (se_cmp env) calls ms (cs_detector st);
          st1 = st\<lparr>cs_detector := snd ob\<rparr>
      in if so_state (fst ob) = SRecover
         then next_round ((notify q (NoteRecovery (cs_iteration st) (fst ob)) st1)\<lparr>cs_recovering := True\<rparr>)
         else if so_state (fst ob) = SStalled
         then let t = se_prompt env (js ''subagent.summary.stalled'')
              in say_and_commit (Some t) t (notify q (NoteStalled (cs_iteration st) (fst ob)) st1)
         else next_round st1)"

definition use_tools ::
    "sub_env \<Rightarrow> complete_params \<Rightarrow> completion \<Rightarrow> complete_state \<Rightarrow> ((thrown + complete_end) \<times> complete_state) option" where
  "use_tools env q co st =
     (case with_session (session_append_assistant (case co_text co of Some t \<Rightarrow> t | None \<Rightarrow> []) (Some (calls_made co))) st of
        (Inl e, st1) \<Rightarrow> Some (Inl e, st1)
      | (Inr _, st1) \<Rightarrow>
        (case execute_scheduled_tool_calls (cq_gateway q) (se_batch env (cs_iteration st1)) (calls_made co)
                (Some (cq_tools q)) (Some (cs_iteration st1)) None of
           None \<Rightarrow> None
         | Some (r, evs) \<Rightarrow>
           let st2 = trace_calls evs st1
           in (case r of
                 Inl e \<Rightarrow> Some (Inl e, st2)
               | Inr ms \<Rightarrow>
                 if cut_at env st2 CpTools then Some (Inl (thrown_at env st2 CpTools), st2)
                 else (case append_answers ms st2 of
                     (Inl e, st3) \<Rightarrow> Some (Inl e, st3)
                   | (Inr _, st3) \<Rightarrow> Some (judge_progress env q (calls_made co) ms st3)))))"

definition complete_round ::
    "sub_env \<Rightarrow> complete_params \<Rightarrow> complete_state \<Rightarrow> ((thrown + complete_end) \<times> complete_state) option" where
  "complete_round env q st =
     (case ask_model env q st of
        None \<Rightarrow> None
      | Some (Inl e, st1) \<Rightarrow> Some (Inl e, st1)
      | Some (Inr co, st1) \<Rightarrow>
        if calls_made co = [] then Some (last_words env st1) else use_tools env q co st1)"

section \<open>The complete loop: landing and loop\<close>

definition landing_request :: "sub_env \<Rightarrow> complete_params \<Rightarrow> llm_message list \<Rightarrow> complete_request" where
  "landing_request env q msgs = \<lparr>rq_messages = msgs @ [Chat User (se_prompt env (js ''subagent.softLand.user'')) None None],
     rq_tools = None, rq_purpose = (case cq_landing q of Some p \<Rightarrow> p | None \<Rightarrow> js ''subagent-soft-land''),
     rq_iteration = None\<rparr>"

definition limit_text :: "complete_params \<Rightarrow> jsstring" where
  "limit_text q = js ''Subagent reached tool iteration limit ('' @ show_int (cq_max q) @ js '').''"

definition land ::
    "sub_env \<Rightarrow> complete_params \<Rightarrow> complete_state \<Rightarrow> ((thrown + complete_end) \<times> complete_state) option" where
  "land env q st =
     (if cut_at env st CpLanding then Some (Inl (thrown_at env st CpLanding), st)
      else case prepare_loop env q False st of
          None \<Rightarrow> None
        | Some (Inl e, st1) \<Rightarrow> Some (Inl e, st1)
        | Some (Inr msgs, st1) \<Rightarrow>
          (case send_request env q (landing_request env q msgs) st1 of
             None \<Rightarrow> None
           | Some (Inl e, st2) \<Rightarrow> Some (Inl e, st2)
           | Some (Inr co, st2) \<Rightarrow>
             let t = (if trimmed_text co \<noteq> [] then trimmed_text co
                  else if cs_text st2 \<noteq> [] then cs_text st2 else limit_text q)
             in Some (say_and_commit (Some t) t st2)))"

definition loop_step ::
    "sub_env \<Rightarrow> complete_params \<Rightarrow> complete_state \<Rightarrow> ((thrown + complete_end) \<times> complete_state) option" where
  "loop_step env q st = (if cs_iteration st \<le> cq_max q then complete_round env q st else land env q st)"

text \<open>No step but the last of a round changes the number of the iteration.\<close>

lemma with_session_frame:
  assumes "with_session f st = (r, st')"
  shows "cs_iteration st' = cs_iteration st
    \<and> cs_requests st' = cs_requests st
    \<and> cs_host st' = cs_host st"
  using assms by (auto simp: with_session_def split: sum.splits)

lemma prepare_loop_frame:
  assumes "prepare_loop env q rec st = Some (r, st')"
  shows "cs_iteration st' = cs_iteration st
    \<and> cs_requests st' = cs_requests st
    \<and> cs_host st' = cs_host st"
  using assms by (auto simp: prepare_loop_def split: option.splits sum.splits)

lemma send_request_frame:
  assumes "send_request env q rq st = Some (r, st')"
  shows "cs_iteration st' = cs_iteration st
    \<and> cs_session st' = cs_session st
    \<and> cs_host st' = cs_host st
    \<and> cs_requests st' = cs_requests st @ [rq]"
  using assms by (auto simp: send_request_def split: option.splits)

lemma append_answers_frame:
  assumes "append_answers ms st = (r, st')"
  shows "cs_iteration st' = cs_iteration st
    \<and> cs_requests st' = cs_requests st
    \<and> cs_host st' = cs_host st"
  using assms by (induction ms st rule: append_answers.induct) (auto split: prod.splits sum.splits dest!: with_session_frame)

lemma ask_model_iteration:
  assumes "ask_model env q st = Some (r, st')"
  shows "cs_iteration st' = cs_iteration st"
  using assms
  by (auto simp: ask_model_def notify_def take_reply_def Let_def split: if_splits option.splits sum.splits prod.splits
      dest!: prepare_loop_frame send_request_frame)

lemma say_and_commit_ends: "say_and_commit said t st \<noteq> (Inr AnotherRound, st')"
  by (auto simp: say_and_commit_def split: option.splits prod.splits sum.splits)

lemma use_tools_goes_on:
  assumes "use_tools env q co st = Some (Inr AnotherRound, st')"
  shows "cs_iteration st' = cs_iteration st + 1"
  using assms
  by (auto simp: use_tools_def judge_progress_def next_round_def notify_def trace_calls_def say_and_commit_ends Let_def
      split: prod.splits sum.splits option.splits if_splits dest!: with_session_frame append_answers_frame)

lemma loop_step_goes_on:
  assumes "loop_step env q st = Some (Inr AnotherRound, st')"
  shows "cs_iteration st \<le> cq_max q" "cs_iteration st' = cs_iteration st + 1"
proof -
  show le: "cs_iteration st \<le> cq_max q"
    using assms by (auto simp: loop_step_def land_def say_and_commit_ends Let_def split: if_splits option.splits prod.splits sum.splits)
  obtain co st1 where "ask_model env q st = Some (Inr co, st1)" "use_tools env q co st1 = Some (Inr AnotherRound, st')"
    using assms le by (auto simp: loop_step_def complete_round_def last_words_def say_and_commit_ends split: option.splits sum.splits if_splits)
  then show "cs_iteration st' = cs_iteration st + 1" using ask_model_iteration use_tools_goes_on by fastforce
qed

function complete_loop :: "sub_env \<Rightarrow> complete_params \<Rightarrow> complete_state \<Rightarrow> ((thrown + jsstring) \<times> complete_state) option" where
  "complete_loop env q st =
     (case loop_step env q st of
        None \<Rightarrow> None
      | Some (Inl e, st1) \<Rightarrow> Some (Inl e, st1)
      | Some (Inr AnotherRound, st1) \<Rightarrow> complete_loop env q st1
      | Some (Inr (Summary t), st1) \<Rightarrow> Some (Inr t, st1))"
  by pat_completeness auto
termination
  by (relation "measure (\<lambda>(env, q, st). nat (cq_max q + 1 - cs_iteration st))") (auto dest: loop_step_goes_on)

declare complete_loop.simps [simp del]

definition run_complete_tool_loop ::
    "sub_env \<Rightarrow> complete_params \<Rightarrow> complete_state \<Rightarrow> ((thrown + jsstring) \<times> complete_state) option" where
  "run_complete_tool_loop env q st =
     (case with_session (session_begin_turn (cq_prompt q) None) st of
        (Inl e, st1) \<Rightarrow> Some (Inl e, st1)
      | (Inr _, st1) \<Rightarrow> complete_loop env q (st1\<lparr>cs_iteration := 1, cs_text := [], cs_recovering := False,
          cs_detector := new_stall_detector None\<rparr>))"

section \<open>The subagent\<close>

datatype sub_mode = Explore | General

fun mode_name :: "sub_mode \<Rightarrow> jsstring" where
  "mode_name Explore = js ''explore''" | "mode_name General = js ''general''"

record sub_request =
  sr_goal :: jsstring
  sr_mode :: "sub_mode option"
  sr_title :: "jsstring option"
  sr_parent :: jsstring
  sr_depth :: "int option"
  sr_profile :: "jsstring option"
  sr_prefer :: "bool option"

record sub_deps =
  dp_client :: "llm_client option"
  dp_worker :: "llm_client option"
  dp_resolve :: "(jsstring \<Rightarrow> thrown + llm_client \<times> model_profile) option"
  dp_depth :: "int option"
  dp_iterations :: "int option"
  dp_run_id :: "jsstring option"
  dp_skill :: "active_skill option"

datatype sub_status = SubCompleted | SubFailed | SubIncomplete

fun sub_status_name :: "sub_status \<Rightarrow> jsstring" where
  "sub_status_name SubCompleted = js ''completed''" | "sub_status_name SubFailed = js ''failed''"
| "sub_status_name SubIncomplete = js ''incomplete''"

record sub_result =
  sx_status :: sub_status
  sx_summary :: jsstring
  sx_artifacts :: "jsstring list"
  sx_tools :: "jsstring list"
  sx_evidence :: "jsstring list"
  sx_incomplete :: "jsstring list"

record sub_outcome =
  oc_result :: sub_result
  oc_run :: jsstring
  oc_mode :: sub_mode
  oc_forced :: bool
  oc_profile :: "jsstring option"
  oc_profile_name :: "jsstring option"
  oc_model :: "jsstring option"

text \<open>The tools of a subagent, by name and risk; the rest of each is its own file's.\<close>

definition subagent_tool_risks :: "(jsstring \<times> tool_risk) list" where
  "subagent_tool_risks = [(js ''Read'', RiskRead), (js ''Glob'', RiskRead), (js ''Grep'', RiskRead), (js ''Rg'', RiskRead),
     (js ''List'', RiskRead), (js ''Stat'', RiskRead), (js ''Edit'', RiskWrite), (js ''Write'', RiskWrite)]"

definition create_subagent_tools :: "sub_env \<Rightarrow> tool_definition list" where
  "create_subagent_tools env = map (\<lambda>(n, r). (se_tool env n)\<lparr>t_name := n, t_risk := r, t_category := Some (js ''filesystem''),
     t_resolve_risk := None\<rparr>) subagent_tool_risks"

definition subagent_tools :: "sub_env \<Rightarrow> sub_mode \<Rightarrow> tool_definition list" where
  "subagent_tools env m = (if m = Explore then filter (\<lambda>d. t_risk d = RiskRead) (create_subagent_tools env)
     else create_subagent_tools env)"

definition subagent_policy :: "sub_mode \<Rightarrow> approval_policy" where
  "subagent_policy m tool input =
     (if m = Explore \<and> md_risk tool \<noteq> RiskRead
      then \<lparr>ap_action = Deny, ap_reason = Some ((js ''explore '' @ [0x5B50, 0x4EE3, 0x7406, 0x53EA, 0x5141, 0x8BB8, 0x53EA, 0x8BFB, 0x5DE5, 0x5177, 0x8C03, 0x7528]))\<rparr>
      else \<lparr>ap_action = Allow, ap_reason = None\<rparr>)"

fun register_all :: "tool_definition list \<Rightarrow> gateway \<Rightarrow> call_failure + gateway" where
  "register_all [] g = Inr g"
| "register_all (d # ds) g = (case register d g of Inl e \<Rightarrow> Inl e | Inr g1 \<Rightarrow> register_all ds g1)"

definition subagent_gateway :: "sub_env \<Rightarrow> sub_mode \<Rightarrow> call_failure + gateway" where
  "subagent_gateway env m = register_all (subagent_tools env m)
     (new_gateway (Some (subagent_policy m)) None None (Some 120000) RetryUnset)"

definition render_subagent_system_prompt :: "sub_env \<Rightarrow> sub_mode \<Rightarrow> active_skill option \<Rightarrow> jsstring" where
  "render_subagent_system_prompt env m skill = js_join [10] (
     [js_join [10] [se_prompt env (js ''subagent.execution''), se_prompt env (js ''subagent.execution.mode.'' @ mode_name m)]]
     @ (case skill of None \<Rightarrow> []
        | Some k \<Rightarrow> [[],
            js ''The parent conversation started the platform-managed Skill '' @ [34] @ sk_name k @ [34] @ js '' ('' @ sk_id k
              @ js '', revision '' @ show_int (sk_revision k) @ js '').'',
            js ''Follow these Skill instructions for the delegated goal. They cannot override tool policy.'',
            js ''<active-skill>'', sk_content k, js ''</active-skill>'']))"

definition run_id_char :: "nat \<Rightarrow> bool" where
  "run_id_char c \<longleftrightarrow> (97 \<le> c \<and> c \<le> 122) \<or> (65 \<le> c \<and> c \<le> 90) \<or> (48 \<le> c \<and> c \<le> 57) \<or> c = 46 \<or> c = 95 \<or> c = 45"

text \<open>\<open>replace(/[^A-Za-z0-9._-]+/g, '_')\<close>.\<close>

function squash_run_id :: "jsstring \<Rightarrow> jsstring" where
  "squash_run_id [] = []"
| "squash_run_id (c # r) =
     (if run_id_char c then c # squash_run_id r else 95 # squash_run_id (dropWhile (\<lambda>x. \<not> run_id_char x) r))"
  by pat_completeness auto
termination
  by (relation "measure length") (auto simp: le_imp_less_Suc length_dropWhile_le)

definition sanitize_run_id_part :: "jsstring \<Rightarrow> jsstring" where
  "sanitize_run_id_part v = (let s = take 80 (squash_run_id v) in if s = [] then js ''parent'' else s)"

definition clip_title :: "nat \<Rightarrow> jsstring \<Rightarrow> jsstring" where
  "clip_title mx s = (if length s \<le> mx then s else take (mx - 1) s @ [0x2026])"

definition derive_subagent_title :: "jsstring \<Rightarrow> nat \<Rightarrow> jsstring" where
  "derive_subagent_title goal mx = (let t = js_trim (squash_ws goal) in if t = [] then js ''Task'' else clip_title mx t)"

definition subagent_run_id :: "sub_env \<Rightarrow> sub_deps \<Rightarrow> sub_request \<Rightarrow> jsstring" where
  "subagent_run_id env d r = (case dp_run_id d of Some i \<Rightarrow> i
     | None \<Rightarrow> js ''sub-'' @ sanitize_run_id_part (sr_parent r) @ js ''-'' @ se_uuid env)"

text \<open>The model of a subagent: that of a requested profile, else the worker's when preferred, else the default.\<close>

definition requested_profile :: "sub_request \<Rightarrow> jsstring option" where
  "requested_profile r = (case sr_profile r of Some p \<Rightarrow> if js_trim p \<noteq> [] then Some (js_trim p) else None | None \<Rightarrow> None)"

definition resolve_profile :: "sub_deps \<Rightarrow> sub_request \<Rightarrow> thrown + (llm_client \<times> model_profile) option" where
  "resolve_profile d r = (case requested_profile r of
     None \<Rightarrow> Inr None
   | Some p \<Rightarrow> (case dp_resolve d of
       None \<Rightarrow> Inl (plain_error (js ''Error'') (([0x5F53, 0x524D] @ js '' Host '' @ [0x4E0D, 0x652F, 0x6301, 0x6309, 0x6A21, 0x578B, 0x6863, 0x6848, 0x6D3E, 0x751F, 0x5B50, 0x4EE3, 0x7406])))
     | Some f \<Rightarrow> (case f p of Inl e \<Rightarrow> Inl e | Inr x \<Rightarrow> Inr (Some x))))"

definition uses_worker :: "sub_deps \<Rightarrow> sub_request \<Rightarrow> (llm_client \<times> model_profile) option \<Rightarrow> bool" where
  "uses_worker d r prof \<longleftrightarrow> prof = None \<and> sr_prefer r = Some True \<and> dp_worker d \<noteq> None"

definition chosen_client :: "sub_deps \<Rightarrow> sub_request \<Rightarrow> (llm_client \<times> model_profile) option \<Rightarrow> llm_client option" where
  "chosen_client d r prof = (case prof of Some (c, _) \<Rightarrow> Some c
     | None \<Rightarrow> if uses_worker d r prof then dp_worker d else dp_client d)"

definition host_note :: "loop_note \<Rightarrow> loop_host \<Rightarrow> loop_host" where
  "host_note n h = (let add = (\<lambda>e. h\<lparr>ho_trace := ho_trace h @ [e]\<rparr>) in
     case n of
       NoteTurn i \<Rightarrow> add (Recorded (js ''llm.subagent.turn''))
     | NoteCompleted i t k \<Rightarrow> add (ModelDone (js ''llm.subagent.completed'') t)
     | NoteRecovery i ob \<Rightarrow> add (Recorded (js ''llm.subagent.stall_recovery''))
     | NoteStalled i ob \<Rightarrow> (add (Recorded (js ''llm.subagent.stalled'')))\<lparr>ho_stalled := True\<rparr>)"

definition completed_call :: "run_event \<Rightarrow> (jsstring \<times> jsstring) list" where
  "completed_call e = (case e of
     GateEvent (TSettled m r p n k c) \<Rightarrow> if rs_status r = StatusCompleted then [(cm_tool m, rs_summary r)] else []
   | _ \<Rightarrow> [])"

definition completed_calls :: "run_event list \<Rightarrow> (jsstring \<times> jsstring) list" where
  "completed_calls es = concat (map completed_call es)"

text \<open>The result of a loop that ended, from the trace of its run; one that cannot be read counts as empty.\<close>

definition subagent_result :: "sub_env \<Rightarrow> bool \<Rightarrow> jsstring \<Rightarrow> run_event list \<Rightarrow> sub_result" where
  "subagent_result env stalled summary trace =
     (let es = (if se_reads env trace then trace else []);
          artifacts = extract_changed_files (se_cmp env) es
      in \<lparr>sx_status = (if stalled then SubIncomplete else SubCompleted), sx_summary = summary, sx_artifacts = artifacts,
          sx_tools = uniq (map fst (completed_calls es)),
          sx_evidence = [if stalled then ([0x5B50, 0x4EE3, 0x7406, 0x5728, 0x4E00, 0x6B21, 0x6062, 0x590D, 0x63D0, 0x793A, 0x540E, 0x4ECD, 0x91CD, 0x590D, 0x76F8, 0x540C, 0x5DE5, 0x5177, 0x8C03, 0x7528, 0xFF0C, 0x4E14, 0x7ED3, 0x679C, 0x6CA1, 0x6709, 0x53D8, 0x5316]) else ([0x5B50, 0x4EE3, 0x7406, 0x5DF2, 0x5B8C, 0x6210, 0x72EC, 0x7ACB, 0x5DE5, 0x5177, 0x73AF])]
            @ (if artifacts = [] then [] else [(([0x4EA7, 0x51FA, 0x6587, 0x4EF6] @ js '' '')) @ show_nat (length artifacts) @ ((js '' '' @ [0x4E2A]))])
            @ map (\<lambda>p. fst p @ js '': '' @ snd p) (completed_calls es),
          sx_incomplete = (if stalled then [([0x7236] @ js '' Agent '' @ [0x9700, 0x8981, 0x68C0, 0x67E5, 0x963B, 0x585E, 0x8BC1, 0x636E, 0x5E76, 0x8C03, 0x6574, 0x7B56, 0x7565])] else [])\<rparr>)"

definition no_client_result :: "bool \<Rightarrow> sub_result" where
  "no_client_result worker = \<lparr>sx_status = SubFailed, sx_summary = js ''Subagent failed: no LLM client configured'',
     sx_artifacts = [], sx_tools = [],
     sx_evidence = [if worker then ([0x5B50, 0x4EE3, 0x7406, 0x672A, 0x914D, 0x7F6E] @ js '' workerLlmClient / '' @ [0x4E3B, 0x6A21, 0x578B]) else ([0x5B50, 0x4EE3, 0x7406, 0x672A, 0x68C0, 0x6D4B, 0x5230, 0x53EF, 0x7528] @ js '' LLM client'')],
     sx_incomplete = [([0x8BF7, 0x914D, 0x7F6E, 0x6A21, 0x578B, 0x540E, 0x518D, 0x6D3E, 0x751F, 0x5B50, 0x4EE3, 0x7406])]\<rparr>"

definition outcome_of ::
    "jsstring \<Rightarrow> sub_mode \<Rightarrow> (llm_client \<times> model_profile) option \<Rightarrow> jsstring option \<Rightarrow> sub_result \<Rightarrow> sub_outcome" where
  "outcome_of run m prof model res = \<lparr>oc_result = res, oc_run = run, oc_mode = m, oc_forced = False,
     oc_profile = map_option (\<lambda>p. mp_id (snd p)) prof, oc_profile_name = map_option (\<lambda>p. mp_name (snd p)) prof, oc_model = model\<rparr>"

definition subagent_params :: "sub_env \<Rightarrow> sub_deps \<Rightarrow> sub_mode \<Rightarrow> jsstring \<Rightarrow> llm_client \<Rightarrow> gateway \<Rightarrow> complete_params" where
  "subagent_params env d m goal c g = \<lparr>cq_prompt = goal, cq_system = render_subagent_system_prompt env m (dp_skill d),
     cq_client = c, cq_gateway = g, cq_tools = map (\<lambda>t. to_metadata t (t_risk t)) (subagent_tools env m),
     cq_max = (case dp_iterations d of Some n \<Rightarrow> n | None \<Rightarrow> 40),
     cq_purpose = Some (js ''subagent''), cq_landing = Some (js ''subagent-soft-land''), cq_notify = host_note\<rparr>"

definition subagent_session :: "sub_env \<Rightarrow> llm_client \<Rightarrow> session" where
  "subagent_session env c = create_session_context (se_number env) (se_variable env)
     \<lparr>so_window = lc_window c, so_subagent = True, so_client = None, so_policy = None, so_estimator = None,
      so_own_summarizer = False, so_summarizer_client = None\<rparr>
     (Some \<lparr>mc_label = lc_model c, mc_window = lc_window c\<rparr>) (fst (se_counters env)) (snd (se_counters env))"

definition fresh_child :: "sub_env \<Rightarrow> llm_client \<Rightarrow> complete_state" where
  "fresh_child env c = \<lparr>cs_session = subagent_session env c, cs_host = \<lparr>ho_trace = [], ho_stalled = False\<rparr>,
     cs_requests = [], cs_iteration = 1, cs_text = [], cs_recovering = False, cs_detector = new_stall_detector None\<rparr>"

definition SUB_INTERRUPT :: jsstring where "SUB_INTERRUPT = ([0x7528, 0x6237, 0x4E2D, 0x65AD, 0x4E86, 0x5B50, 0x4EE3, 0x7406])"

text \<open>The \<open>catch\<close> block: an open turn is interrupted, whatever comes of it, and the error thrown on.\<close>

definition close_child :: "abort_signal option \<Rightarrow> thrown \<Rightarrow> complete_state \<Rightarrow> complete_state" where
  "close_child sig e st = snd (with_session (session_interrupt_turn
     (if is_operation_aborted e sig then SUB_INTERRUPT else err_text e)) st)"

text \<open>What a subagent leaves: the result or error, the events on its parent's trace, and its own state.\<close>

datatype parent_event = SubStarted sub_mode jsstring jsstring | SubEnded jsstring

type_synonym sub_report = "(thrown + sub_outcome) \<times> parent_event list \<times> complete_state option"

definition subagent_title :: "sub_request \<Rightarrow> jsstring" where
  "subagent_title r = (let t = (case sr_title r of Some x \<Rightarrow> js_trim x | None \<Rightarrow> [])
     in if t \<noteq> [] then t else derive_subagent_title (js_trim (sr_goal r)) 36)"

definition started_event :: "sub_request \<Rightarrow> sub_mode \<Rightarrow> parent_event" where
  "started_event r m = SubStarted m (subagent_title r) (take 240 (js_trim (sr_goal r)))"

definition finish_child ::
    "sub_env \<Rightarrow> sub_request \<Rightarrow> jsstring \<Rightarrow> sub_mode \<Rightarrow> (llm_client \<times> model_profile) option \<Rightarrow> llm_client
     \<Rightarrow> (thrown + jsstring) \<times> complete_state \<Rightarrow> sub_report" where
  "finish_child env r run m prof c x =
     (case x of
        (Inr summary, st) \<Rightarrow>
          (Inr (outcome_of run m prof (Some (lc_model c)) (subagent_result env (ho_stalled (cs_host st)) summary (ho_trace (cs_host st)))),
           [started_event r m, SubEnded (js ''subagent.completed'')], Some st)
      | (Inl e, st) \<Rightarrow>
          let sig = se_signal env (cs_iteration st) CpCaught
          in (Inl e, [started_event r m, SubEnded (if is_operation_aborted e sig then js ''subagent.cancelled'' else js ''subagent.failed'')],
              Some (close_child sig e st)))"

definition start_child ::
    "sub_env \<Rightarrow> sub_deps \<Rightarrow> sub_request \<Rightarrow> sub_mode \<Rightarrow> (llm_client \<times> model_profile) option \<Rightarrow> sub_report option" where
  "start_child env d r m prof =
     (let run = subagent_run_id env d r in
      case chosen_client d r prof of
        None \<Rightarrow> Some (Inr (outcome_of run m prof None (no_client_result (uses_worker d r prof))),
            [started_event r m, SubEnded (js ''subagent.failed'')], None)
      | Some c \<Rightarrow>
          (case subagent_gateway env m of
             Inl f \<Rightarrow> Some (Inl (failure_thrown f), [started_event r m], None)
           | Inr g \<Rightarrow> map_option (finish_child env r run m prof c)
               (run_complete_tool_loop env (subagent_params env d m (js_trim (sr_goal r)) c g) (fresh_child env c))))"

definition depth_of :: "sub_request \<Rightarrow> int" where
  "depth_of r = (case sr_depth r of Some n \<Rightarrow> n | None \<Rightarrow> 0)"

definition max_depth :: "sub_deps \<Rightarrow> int" where
  "max_depth d = (case dp_depth d of Some n \<Rightarrow> n | None \<Rightarrow> 1)"

definition run_subagent :: "sub_env \<Rightarrow> sub_deps \<Rightarrow> sub_request \<Rightarrow> sub_report option" where
  "run_subagent env d r =
     (let m = (if sr_mode r = Some General then General else Explore);
          sig = se_signal env 0 CpStart;
          throw = (\<lambda>e. Some (Inl e, [], None))
      in if max_depth d \<le> depth_of r
         then throw (plain_error (js ''Error'') (js ''Subagent depth limit reached (maxDepth='' @ show_int (max_depth d)
           @ js ''); nested Task is not allowed''))
         else if js_trim (sr_goal r) = [] then throw (plain_error (js ''Error'') (js ''Subagent goal must not be empty''))
         else if is_aborted sig then throw (abort_reason sig ABORTED_TEXT)
         else (case resolve_profile d r of Inl e \<Rightarrow> throw e | Inr prof \<Rightarrow> start_child env d r m prof))"

section \<open>The Task tool\<close>

definition clip_task :: "jsstring \<Rightarrow> nat \<Rightarrow> jsstring" where
  "clip_task v mx = clip_title mx (js_trim (squash_ws v))"

record task_input =
  ti_title :: jsstring
  ti_goal :: jsstring
  ti_mode :: "sub_mode option"
  ti_profile :: "jsstring option"

definition TITLE_MAX :: nat where "TITLE_MAX = 48"

fun read_mode :: "jsval \<Rightarrow> sub_mode option option" where
  "read_mode JUndef = Some None"
| "read_mode (JStr s) = (if s = js ''explore'' then Some (Some Explore) else if s = js ''general'' then Some (Some General) else None)"
| "read_mode _ = None"

fun read_profile :: "jsval \<Rightarrow> jsstring option option" where
  "read_profile JUndef = Some None"
| "read_profile (JStr s) = (if js_trim s = [] then None else Some (Some (js_trim s)))"
| "read_profile _ = None"

text \<open>\<open>taskInputSchema\<close>; a value that does not fit is \<open>None\<close>.\<close>

definition parse_task_input :: "jsval \<Rightarrow> task_input option" where
  "parse_task_input v = (case as_record v of
     None \<Rightarrow> None
   | Some r \<Rightarrow> (case (getp r ''title'', getp r ''goal'', read_mode (getp r ''mode''), read_profile (getp r ''modelProfileId'')) of
       (JStr t, JStr g, Some m, Some p) \<Rightarrow>
         if js_trim t = [] \<or> TITLE_MAX < length (js_trim t) \<or> g = [] then None
         else Some \<lparr>ti_title = js_trim t, ti_goal = g, ti_mode = m, ti_profile = p\<rparr>
     | _ \<Rightarrow> None))"

definition task_risk :: "task_input \<Rightarrow> tool_risk" where
  "task_risk i = (if ti_mode i = Some General then RiskWrite else RiskRead)"

definition bullets :: "string \<Rightarrow> jsstring list \<Rightarrow> jsstring list" where
  "bullets h xs = (if xs = [] then [] else [[10] @ js h @ [10] @ js_join [10] (map (\<lambda>x. js ''- '' @ x) xs)])"

definition model_line :: "sub_outcome \<Rightarrow> jsstring list" where
  "model_line oc =
     (let model = (case oc_model oc of Some m \<Rightarrow> m | None \<Rightarrow> []);
          prof = (case oc_profile oc of Some p \<Rightarrow> p | None \<Rightarrow> [])
      in if prof \<noteq> [] then [js ''Model profile: '' @ (case oc_profile_name oc of Some n \<Rightarrow> n | None \<Rightarrow> prof)
             @ js '' ('' @ prof @ js '')'' @ (if model \<noteq> [] then (js '' '' @ [183] @ js '' '') @ model else [])]
         else if model \<noteq> [] then [js ''Model: '' @ model] else [])"

definition format_subagent_tool_content :: "sub_outcome \<Rightarrow> jsstring" where
  "format_subagent_tool_content oc =
     (let res = oc_result oc in js_join [10] (
        [js ''Subagent '' @ mode_name (oc_mode oc) @ js '' ('' @ oc_run oc @ ((js '') '' @ [0x2192] @ js '' '')) @ sub_status_name (sx_status res)]
        @ model_line oc @ [[], sx_summary res]
        @ bullets ''Evidence:'' (sx_evidence res) @ bullets ''Incomplete items:'' (sx_incomplete res)
        @ bullets ''Artifacts:'' (sx_artifacts res)
        @ (if sx_tools res = [] then [] else [js ''Tools used: '' @ js_join (js '', '') (sx_tools res)])))"

definition opt_json :: "jsstring option \<Rightarrow> jsval" where
  "opt_json x = (case x of Some t \<Rightarrow> JStr t | None \<Rightarrow> JUndef)"

definition strings_json :: "jsstring list \<Rightarrow> jsval" where
  "strings_json xs = JArr (map JStr xs)"

definition plain_handler_result :: "jsstring \<Rightarrow> jsstring \<Rightarrow> jsval \<Rightarrow> handler_result" where
  "plain_handler_result content summary data = \<lparr>h_status = None, h_text = content, h_summary = Some summary, h_data = data\<rparr>"

definition task_success :: "jsstring \<Rightarrow> sub_outcome \<Rightarrow> handler_result" where
  "task_success title oc =
     (let res = oc_result oc in plain_handler_result (format_subagent_tool_content oc)
        (js ''Task('' @ title @ ((js '') '' @ [0x2192] @ js '' '')) @ sub_status_name (sx_status res) @ js '': '' @ clip_task (sx_summary res) 160)
        (JObj [(js ''subRunId'', JStr (oc_run oc)), (js ''mode'', JStr (mode_name (oc_mode oc))), (js ''title'', JStr title),
           (js ''modelProfileId'', opt_json (oc_profile oc)), (js ''modelProfileName'', opt_json (oc_profile_name oc)),
           (js ''model'', opt_json (oc_model oc)), (js ''status'', JStr (sub_status_name (sx_status res))),
           (js ''evidence'', strings_json (sx_evidence res)), (js ''artifacts'', strings_json (sx_artifacts res)),
           (js ''incompleteItems'', strings_json (sx_incomplete res))]))"

definition task_failure :: "jsstring \<Rightarrow> thrown \<Rightarrow> handler_result" where
  "task_failure title e = plain_handler_result (js ''Task failed: '' @ err_text e)
     (js ''Task('' @ title @ js '') failed: '' @ clip_task (err_text e) 120) JUndef"

definition task_denied :: handler_result where
  "task_denied = plain_handler_result (js ''Task denied: nested subagents are not allowed (maxDepth=1).'') (js ''nested Task denied'') JUndef"

definition task_request :: "int \<Rightarrow> jsstring \<Rightarrow> task_input \<Rightarrow> sub_request" where
  "task_request depth run i = \<lparr>sr_goal = ti_goal i, sr_mode = Some (case ti_mode i of Some m \<Rightarrow> m | None \<Rightarrow> Explore),
     sr_title = Some (js_trim (ti_title i)), sr_parent = run, sr_depth = Some depth,
     sr_profile = map_option js_trim (ti_profile i), sr_prefer = None\<rparr>"

text \<open>\<open>execute\<close>: the runner is an argument, \<open>sig\<close> the signal when its error is caught.\<close>

definition task_execute ::
    "(sub_request \<Rightarrow> (thrown + sub_outcome) option) \<Rightarrow> int \<Rightarrow> abort_signal option \<Rightarrow> jsstring \<Rightarrow> task_input
     \<Rightarrow> (thrown + handler_result) option" where
  "task_execute run depth sig parent i =
     (if 1 \<le> depth then Some (Inr task_denied)
      else case run (task_request depth parent i) of
          None \<Rightarrow> None
        | Some (Inr oc) \<Rightarrow> Some (Inr (task_success (js_trim (ti_title i)) oc))
        | Some (Inl e) \<Rightarrow> if is_operation_aborted e sig then Some (Inl e)
            else Some (Inr (task_failure (js_trim (ti_title i)) e)))"

definition default_runner :: "sub_env \<Rightarrow> sub_deps \<Rightarrow> sub_request \<Rightarrow> (thrown + sub_outcome) option" where
  "default_runner env d r = map_option fst (run_subagent env d r)"

end
