(* ===== verification/Subagent_Laws.thy ===== *)
theory Subagent_Laws
  imports Subagent Run_Laws
begin

text \<open>
  Laws of delegated work. The loop without streaming ends when the client and the tools answer: its
  turn is closed when it returns and still open when it throws, so that the \<open>catch\<close> block of the
  subagent closes it; each of its requests answers every call right behind it, and there is at most
  one more of them than iterations. A subagent starts only the tools of its mode.
\<close>

section \<open>Scheduled calls\<close>

lemma scheduled_unfold:
  assumes "\<not> is_aborted (bn_head env i)" "take_parallel g look mx (c # q) = Inr (par, rest)"
    and "cs = (if par = [] then [c] else par)" "peers = (if par = [] then q else rest)"
  shows "scheduled_loop g env look it mx i (c # q) out tr =
    (case promise_all (bn_first env i) (run_calls_together g (bn_call env) it i cs) of
       None \<Rightarrow> None
     | Some (Inl f) \<Rightarrow> Some (Inl (failure_thrown f), tr @ settled_events (run_calls_together g (bn_call env) it i cs))
     | Some (Inr vs) \<Rightarrow> scheduled_loop g env look it mx (i + length cs) peers (out @ tool_messages cs vs)
         (tr @ settled_events (run_calls_together g (bn_call env) it i cs)))"
  unfolding assms(3,4) by (simp only: scheduled_loop.simps assms(1,2) if_False sum.case prod.case Let_def)

lemma scheduled_loop_returns:
  assumes "\<And>i c. call_tool g (bn_call env i) (batch_call it c) \<noteq> None"
  shows "scheduled_loop g env look it mx i q out tr \<noteq> None"
proof (induction "length q" arbitrary: i q out tr rule: less_induct)
  case less
  have pa: "promise_all k (run_calls_together g (bn_call env) it i cs) \<noteq> None" for k cs
    by (rule promise_all_returns[OF together_returns]) (rule assms)
  show ?case
  proof (cases q)
    case (Cons c q1)
    show ?thesis
    proof (cases "take_parallel g look mx (c # q1)")
      case (Inl f)
      then show ?thesis using Cons by simp
    next
      case (Inr x)
      obtain par rest where x: "x = (par, rest)" by (cases x)
      define cs where "cs = (if par = [] then [c] else par)"
      define peers where "peers = (if par = [] then q1 else rest)"
      have "length peers < length q"
        using take_parallel_shorter[OF Inr[unfolded x]] Cons by (simp add: peers_def)
      then have "scheduled_loop g env look it mx (i + length cs) peers out' tr' \<noteq> None" for out' tr'
        by (rule less)
      moreover have "promise_all (bn_first env i) (run_calls_together g (bn_call env) it i cs) \<noteq> None" by (rule pa)
      ultimately show ?thesis using Cons scheduled_unfold[OF _ Inr[unfolded x] cs_def peers_def]
        by (cases "is_aborted (bn_head env i)") (simp_all del: not_None_eq split: option.split sum.split)
    qed
  qed simp
qed

lemma scheduled_returns:
  assumes "\<And>i c. call_tool g (bn_call env i) (batch_call it c) \<noteq> None"
  shows "\<exists>r tr. execute_scheduled_tool_calls g env calls tools it mx = Some (r, tr)"
  using scheduled_loop_returns[OF assms] by (simp add: execute_scheduled_tool_calls_def)

lemma scheduled_loop_trace:
  "scheduled_loop g env look it mx i q out tr = Some (r, tr') \<Longrightarrow> starts_allowed g all (map GateEvent tr) \<Longrightarrow> set q \<subseteq> set all \<Longrightarrow>
   starts_allowed g all (map GateEvent tr')"
proof (induction "length q" arbitrary: i q out tr rule: less_induct)
  case less
  show ?case
  proof (cases q)
    case (Cons c q1)
    show ?thesis
    proof (cases "is_aborted (bn_head env i)")
      case False
      show ?thesis
      proof (cases "take_parallel g look mx (c # q1)")
        case (Inr x)
        obtain par rest where x: "x = (par, rest)" by (cases x)
        define cs where "cs = (if par = [] then [c] else par)"
        define peers where "peers = (if par = [] then q1 else rest)"
        define tr1 where "tr1 = tr @ settled_events (run_calls_together g (bn_call env) it i cs)"
        have sp: "cs @ peers = c # q1" using take_parallel_split[OF Inr[unfolded x]] by (simp add: cs_def peers_def)
        have "set cs \<union> set peers = set q" using arg_cong[OF sp, of set] Cons by simp
        then have sub: "set cs \<subseteq> set all" "set peers \<subseteq> set all" using less.prems(3) by blast+
        have len: "length peers < length q" using Cons take_parallel_shorter[OF Inr[unfolded x]] by (simp add: peers_def)
        have new: "starts_allowed g all (map GateEvent tr1)"
          using less.prems(2) starts_allowed_mono[OF together_starts sub(1)] by (simp add: tr1_def)
        show ?thesis using less.prems(1)[unfolded Cons scheduled_unfold[OF False Inr[unfolded x] cs_def peers_def], folded tr1_def]
            less.hyps[OF len _ new sub(2)] new
          by (auto split: option.splits sum.splits)
      qed (use less.prems Cons False in simp)
    qed (use less.prems Cons in simp)
  qed (use less.prems in simp)
qed

lemma scheduled_trace:
  "execute_scheduled_tool_calls g env calls tools it mx = Some (r, tr) \<Longrightarrow> starts_allowed g calls (map GateEvent tr)"
  using scheduled_loop_trace[where tr = "[]" and all = calls and q = calls]
  by (fastforce simp: execute_scheduled_tool_calls_def)

lemma scheduled_answers:
  "execute_scheduled_tool_calls g env calls tools it mx = Some (Inr msgs, tr) \<Longrightarrow> answers_calls msgs calls"
  using scheduled_loop_answers[where before = "[]" and out = "[]" and q = calls]
  by (auto simp: execute_scheduled_tool_calls_def)

section \<open>The state of the child\<close>

abbreviation child_entries :: "complete_state \<Rightarrow> thread_entry list" where
  "child_entries st \<equiv> session_entries (cs_session st)"

definition paired_requests :: "complete_state \<Rightarrow> bool" where
  "paired_requests st \<longleftrightarrow> list_all (\<lambda>r. well_paired (rq_messages r)) (cs_requests st)"

definition child_open :: "jsstring \<Rightarrow> complete_state \<Rightarrow> bool" where
  "child_open t st \<longleftrightarrow> in_turn t (cs_session st) \<and> paired_requests st"

definition child_good :: "jsstring \<Rightarrow> complete_state \<Rightarrow> bool" where
  "child_good t st \<longleftrightarrow> child_open t st \<and> grouped (child_entries st)"

definition child_closed :: "complete_state \<Rightarrow> bool" where
  "child_closed st \<longleftrightarrow> closed_session (cs_session st) \<and> paired_requests st"

lemma child_good_open: "child_good t st \<Longrightarrow> child_open t st"
  by (simp add: child_good_def)

lemma child_notify_frame [simp]:
  "cs_session (notify q n st) = cs_session st" "cs_requests (notify q n st) = cs_requests st"
  "cs_iteration (notify q n st) = cs_iteration st" "cs_text (notify q n st) = cs_text st"
  "cs_recovering (notify q n st) = cs_recovering st" "cs_detector (notify q n st) = cs_detector st"
  by (simp_all add: notify_def)

lemma trace_calls_frame [simp]:
  "cs_session (trace_calls evs st) = cs_session st" "cs_requests (trace_calls evs st) = cs_requests st"
  "cs_iteration (trace_calls evs st) = cs_iteration st" "cs_text (trace_calls evs st) = cs_text st"
  by (simp_all add: trace_calls_def)

lemma good_same: "child_good t st \<Longrightarrow> cs_session st' = cs_session st \<Longrightarrow> cs_requests st' = cs_requests st \<Longrightarrow> child_good t st'"
  by (simp add: child_good_def child_open_def paired_requests_def)

lemma open_same: "child_open t st \<Longrightarrow> cs_session st' = cs_session st \<Longrightarrow> cs_requests st' = cs_requests st \<Longrightarrow> child_open t st'"
  by (simp add: child_open_def paired_requests_def)

section \<open>Within the open turn nothing of the session throws\<close>

lemma say_fine:
  assumes "child_open t st"
  shows "\<exists>st'. say_and_commit said r st = (Inr (Summary r), st') \<and> child_closed st' \<and> cs_requests st' = cs_requests st"
proof -
  obtain st1 where s1: "(case said of None \<Rightarrow> (Inr (), st) | Some x \<Rightarrow> with_session (session_append_assistant x None) st) = (Inr (), st1)"
      "child_open t st1" "cs_requests st1 = cs_requests st"
  proof (cases said)
    case None
    then show ?thesis using that assms by simp
  next
    case (Some x)
    obtain s' where "session_append_assistant x None (cs_session st) = Inr s'" "in_turn t s'"
      using in_turn_assistant[of t "cs_session st" x None] assms by (auto simp: child_open_def)
    then show ?thesis using that[of "st\<lparr>cs_session := s'\<rparr>"] assms Some
      by (simp add: with_session_def child_open_def paired_requests_def)
  qed
  obtain s2 where "session_commit_turn (cs_session st1) = Inr s2" "closed_session s2"
    using in_turn_commit[of t "cs_session st1"] s1(2) by (auto simp: child_open_def)
  then show ?thesis using s1
    by (simp add: say_and_commit_def with_session_def child_closed_def child_open_def paired_requests_def)
qed

lemma answers_fine:
  assumes "child_open t st"
  shows "\<exists>st' es. append_answers ms st = (Inr (), st') \<and> child_open t st' \<and> child_entries st' = child_entries st @ es
    \<and> map (\<lambda>e. (turn_id e, result_id (message e))) es = map (\<lambda>i. (t, Some i)) (tool_ids ms)
    \<and> cs_requests st' = cs_requests st \<and> cs_iteration st' = cs_iteration st \<and> cs_host st' = cs_host st"
  using assms
proof (induction ms arbitrary: st)
  case Nil
  then show ?case by (simp add: tool_ids_def)
next
  case (Cons m ms)
  show ?case
  proof (cases m)
    case (Chat r c im cs)
    then show ?thesis using Cons by (simp add: tool_ids_def)
  next
    case (ToolMsg i n c)
    define inp where "inp = \<lparr>tr_call_id = i, tr_name = n, tr_content = c, tr_summary = None, tr_iteration = Some (cs_iteration st)\<rparr>"
    obtain s' e where s: "session_append_tool_result inp (cs_session st) = Inr s'" "in_turn t s'"
        "session_entries s' = child_entries st @ [e]" "turn_id e = t" "result_id (message e) = Some i"
      using in_turn_result[of t "cs_session st" inp] Cons(2) by (auto simp: child_open_def inp_def)
    have "child_open t (st\<lparr>cs_session := s'\<rparr>)" using Cons(2) s(2) by (simp add: child_open_def paired_requests_def)
    from Cons(1)[OF this] obtain st' es where st': "append_answers ms (st\<lparr>cs_session := s'\<rparr>) = (Inr (), st')" "child_open t st'"
        "child_entries st' = session_entries s' @ es" "map (\<lambda>e. (turn_id e, result_id (message e))) es = map (\<lambda>i. (t, Some i)) (tool_ids ms)"
        "cs_requests st' = cs_requests st" "cs_iteration st' = cs_iteration st" "cs_host st' = cs_host st"
      by auto
    have "append_answers (m # ms) st = (Inr (), st')"
      using st'(1) s(1) by (simp add: ToolMsg with_session_def inp_def[symmetric])
    moreover have "child_entries st' = child_entries st @ e # es" using st'(3) s(3) by simp
    ultimately show ?thesis using st'(2,4-7) s(4,5)
      by (intro exI[of _ st'] exI[of _ "e # es"]) (simp add: ToolMsg tool_ids_def)
  qed
qed

lemma prepare_fine:
  assumes "child_good t st"
  shows "\<exists>r st1. prepare_loop env q rec st = Some (r, st1) \<and> child_good t st1 \<and> cs_requests st1 = cs_requests st
    \<and> cs_iteration st1 = cs_iteration st \<and> cs_text st1 = cs_text st \<and> cs_host st1 = cs_host st
    \<and> (\<forall>msgs. r = Inr msgs \<longrightarrow> well_paired msgs)"
proof -
  have i: "in_turn t (cs_session st)" "grouped (child_entries st)" using assms by (auto simp: child_good_def child_open_def)
  obtain s' r where p: "prepare_request (se_summ env (cs_iteration st)) (se_govern env (cs_iteration st)) (loop_input env q rec) (cs_session st) = Some (s', r)"
      "in_turn t s'" "grouped (session_entries s')"
      "\<And>sn ms. r = Inr (sn, ms) \<Longrightarrow> \<exists>sys. sn_messages sn = Chat System sys None None # build_messages (ss_thread s')"
    using in_turn_prepare[OF i(1)] i(2) by metis
  have w: "well_paired (Chat System sys None None # build_messages (ss_thread s'))" for sys
    using grouped_messages[OF p(3)] well_paired_clone[of "map message (session_entries s')"]
    by (simp add: build_messages_def result_id_def calls_of_def comp_def)
  have g: "child_good t (st\<lparr>cs_session := s'\<rparr>)" using assms p(2,3) by (simp add: child_good_def child_open_def paired_requests_def)
  show ?thesis
  proof (cases r)
    case (Inl e)
    then show ?thesis using p(1) g by (simp add: prepare_loop_def)
  next
    case (Inr x)
    obtain sn ms where x: "x = (sn, ms)" by (cases x)
    obtain sys where sys: "sn_messages sn = Chat System sys None None # build_messages (ss_thread s')" using p(4) Inr x by blast
    show ?thesis using p(1) g w sys by (simp add: prepare_loop_def Inr x del: well_paired.simps)
  qed
qed

lemma send_fine:
  assumes "child_good t st" "well_paired (rq_messages rq)" "se_complete env (cq_client q) rq \<noteq> None"
  shows "\<exists>r st1. send_request env q rq st = Some (r, st1) \<and> child_good t st1 \<and> cs_requests st1 = cs_requests st @ [rq]
    \<and> cs_iteration st1 = cs_iteration st \<and> cs_host st1 = cs_host st"
  using assms by (auto simp: send_request_def child_good_def child_open_def paired_requests_def)

section \<open>The rounds of the loop\<close>

definition sub_settles :: "sub_env \<Rightarrow> complete_params \<Rightarrow> bool" where
  "sub_settles env q \<longleftrightarrow> (\<forall>r. se_complete env (cq_client q) r \<noteq> None)
     \<and> (\<forall>i j it c. call_tool (cq_gateway q) (bn_call (se_batch env i) j) (batch_call it c) \<noteq> None)"

fun step_good :: "jsstring \<Rightarrow> nat \<Rightarrow> (thrown + complete_end) \<times> complete_state \<Rightarrow> bool" where
  "step_good t n (Inl e, st) = (child_open t st \<and> length (cs_requests st) \<le> Suc n)"
| "step_good t n (Inr AnotherRound, st) = (child_good t st \<and> length (cs_requests st) \<le> Suc n)"
| "step_good t n (Inr (Summary s), st) = (child_closed st \<and> length (cs_requests st) \<le> Suc n)"

lemma ask_fine:
  assumes "child_good t st" "sub_settles env q"
  shows "\<exists>r st1. ask_model env q st = Some (r, st1) \<and> child_good t st1 \<and> length (cs_requests st1) \<le> Suc (length (cs_requests st))"
proof -
  define st1 where "st1 = notify q (NoteTurn (cs_iteration st)) (st\<lparr>cs_session := set_iteration (cs_iteration st) (cs_session st)\<rparr>)"
  have g1: "child_good t st1" using assms(1) in_turn_iteration
    by (simp add: child_good_def child_open_def paired_requests_def st1_def) (simp add: set_iteration_def set_current_iteration_def)
  obtain r st2 where p: "prepare_loop env q (cs_recovering st1) st1 = Some (r, st2)" "child_good t st2" "cs_requests st2 = cs_requests st"
      "\<And>msgs. r = Inr msgs \<Longrightarrow> well_paired msgs"
    using prepare_fine[OF g1, of env q "cs_recovering st1"] by (auto simp: st1_def)
  define st3 where "st3 = st2\<lparr>cs_recovering := False\<rparr>"
  have g3: "child_good t st3" "cs_requests st3 = cs_requests st" using good_same[OF p(2), of st3] p(3) by (simp_all add: st3_def)
  have later: "\<exists>r st1. (case send_request env q (round_request q msgs (cs_iteration st3)) st3 of
                     None \<Rightarrow> None
                   | Some (Inl e, st4) \<Rightarrow> Some (Inl e, st4)
                   | Some (Inr co, st4) \<Rightarrow>
                     if cut_at env st4 CpReplied then Some (Inl (thrown_at env st4 CpReplied), st4)
                     else Some (Inr co, take_reply q msgs co st4)) = Some (r, st1)
      \<and> child_good t st1 \<and> length (cs_requests st1) \<le> Suc (length (cs_requests st))" if wp: "well_paired msgs" for msgs
  proof -
    obtain r4 st4 where s: "send_request env q (round_request q msgs (cs_iteration st3)) st3 = Some (r4, st4)" "child_good t st4"
        "cs_requests st4 = cs_requests st @ [round_request q msgs (cs_iteration st3)]"
      using send_fine[OF g3(1), of "round_request q msgs (cs_iteration st3)" env q] wp assms(2) g3(2)
      by (auto simp: round_request_def sub_settles_def)
    have "child_good t (take_reply q msgs co st4)" for co
      using s(2) in_turn_usage[of t "cs_session st4"]
      by (simp add: child_good_def child_open_def paired_requests_def take_reply_def Let_def)
    moreover have "cs_requests (take_reply q msgs co st4) = cs_requests st4" for co by (simp add: take_reply_def Let_def)
    ultimately show ?thesis using s by (simp split: sum.split)
  qed
  show ?thesis
  proof (cases "cut_at env st CpHead")
    case True
    then show ?thesis using assms(1) by (simp add: ask_model_def)
  next
    case False
    show ?thesis
    proof (cases r)
      case (Inl e)
      then show ?thesis using False p by (simp add: ask_model_def st1_def[symmetric] Let_def)
    next
      case (Inr msgs)
      show ?thesis
        using False p(1) g3 later[OF p(4)[OF Inr]]
        by (simp add: ask_model_def st1_def[symmetric] Let_def Inr st3_def[symmetric])
    qed
  qed
qed

lemma say_step:
  assumes "child_open t st" "length (cs_requests st) \<le> Suc n"
  shows "step_good t n (say_and_commit said r st)"
proof -
  obtain st' where "say_and_commit said r st = (Inr (Summary r), st')" "child_closed st'" "cs_requests st' = cs_requests st"
    using say_fine[OF assms(1)] by blast
  then show ?thesis using assms(2) by simp
qed

lemma judge_fine:
  assumes "child_good t st" "length (cs_requests st) \<le> Suc n"
  shows "step_good t n (judge_progress env q calls ms st)"
proof -
  have nx: "step_good t n (next_round s)" if "cs_session s = cs_session st" "cs_requests s = cs_requests st" for s
    using good_same[OF assms(1), of "s\<lparr>cs_iteration := cs_iteration s + 1\<rparr>"] assms(2) that by (simp add: next_round_def)
  have sy: "step_good t n (say_and_commit x r s)" if "cs_session s = cs_session st" "cs_requests s = cs_requests st" for s x r
    by (rule say_step[OF open_same[OF child_good_open[OF assms(1)]]]) (use assms that in simp_all)
  show ?thesis unfolding judge_progress_def Let_def
    by (simp only: if_split) (auto intro!: nx sy)
qed

lemma use_tools_fine:
  assumes "child_good t st" "sub_settles env q" "length (cs_requests st) \<le> Suc n"
  shows "case use_tools env q co st of None \<Rightarrow> False | Some x \<Rightarrow> step_good t n x"
proof -
  obtain s' e where s: "session_append_assistant (case co_text co of Some t \<Rightarrow> t | None \<Rightarrow> []) (Some (calls_made co)) (cs_session st) = Inr s'"
      "in_turn t s'" "session_entries s' = child_entries st @ [e]" "turn_id e = t" "result_id (message e) = None"
      "calls_of (message e) = calls_made co"
    using in_turn_assistant[of t "cs_session st" "case co_text co of Some t \<Rightarrow> t | None \<Rightarrow> []" "Some (calls_made co)"] assms(1)
    by (auto simp: child_good_def child_open_def)
  define st1 where "st1 = st\<lparr>cs_session := s'\<rparr>"
  have w: "with_session (session_append_assistant (case co_text co of Some t \<Rightarrow> t | None \<Rightarrow> []) (Some (calls_made co))) st = (Inr (), st1)"
    using s(1) by (simp add: with_session_def st1_def)
  obtain r evs where ex: "execute_scheduled_tool_calls (cq_gateway q) (se_batch env (cs_iteration st1)) (calls_made co)
      (Some (cq_tools q)) (Some (cs_iteration st1)) None = Some (r, evs)"
    using scheduled_returns[of "cq_gateway q" "se_batch env (cs_iteration st1)" "Some (cs_iteration st1)"] assms(2)
    unfolding sub_settles_def by blast
  have o2: "child_open t (trace_calls evs st1)" "child_entries (trace_calls evs st1) = child_entries st @ [e]"
      "cs_requests (trace_calls evs st1) = cs_requests st"
    using assms(1) s(2,3) by (simp_all add: st1_def child_good_def child_open_def paired_requests_def)
  show ?thesis
  proof (cases r)
    case (Inl x)
    then show ?thesis using w ex o2 assms(3) by (simp add: use_tools_def Let_def)
  next
    case (Inr ms)
    obtain st3 es where a: "append_answers ms (trace_calls evs st1) = (Inr (), st3)" "child_open t st3"
        "child_entries st3 = child_entries (trace_calls evs st1) @ es"
        "map (\<lambda>e. (turn_id e, result_id (message e))) es = map (\<lambda>i. (t, Some i)) (tool_ids ms)" "cs_requests st3 = cs_requests (trace_calls evs st1)"
      using answers_fine[OF o2(1)] by blast
    have "tool_ids ms = map call_id (calls_of (message e))"
      using answers_ids[OF scheduled_answers[OF ex[unfolded Inr]]] s(6) by simp
    then have "grouped (child_entries st @ e # es)"
      using grouped_group[of "child_entries st" e t es] assms(1) s(4,5) a(4) by (simp add: child_good_def)
    then have "child_good t st3" using a(2,3) o2(2) by (simp add: child_good_def)
    from judge_fine[OF this, of n env q "calls_made co" ms]
    show ?thesis using w ex o2 a(1,5) assms(3) by (simp add: use_tools_def Let_def Inr)
  qed
qed

lemma loop_step_fine:
  assumes "child_good t st" "sub_settles env q"
  shows "case loop_step env q st of None \<Rightarrow> False | Some x \<Rightarrow> step_good t (length (cs_requests st)) x"
proof (cases "cs_iteration st \<le> cq_max q")
  case True
  obtain r st1 where a: "ask_model env q st = Some (r, st1)" "child_good t st1" "length (cs_requests st1) \<le> Suc (length (cs_requests st))"
    using ask_fine[OF assms] by blast
  have "step_good t (length (cs_requests st)) (last_words env st1)"
    unfolding last_words_def using say_step[OF child_good_open[OF a(2)] a(3)] by simp
  then show ?thesis using True a use_tools_fine[OF a(2) assms(2) a(3)]
    by (simp add: loop_step_def complete_round_def child_good_open split: sum.split)
next
  case False
  show ?thesis
  proof (cases "cut_at env st CpLanding")
    case True
    then show ?thesis using False assms(1) by (simp add: loop_step_def land_def child_good_open)
  next
    case nc: False
    obtain r st1 where p: "prepare_loop env q False st = Some (r, st1)" "child_good t st1" "cs_requests st1 = cs_requests st"
        "\<And>msgs. r = Inr msgs \<Longrightarrow> well_paired msgs"
      using prepare_fine[OF assms(1), of env q False] by auto
    show ?thesis
    proof (cases r)
      case (Inl e)
      then show ?thesis using False nc p by (simp add: loop_step_def land_def child_good_open)
    next
      case (Inr msgs)
      have "well_paired (rq_messages (landing_request env q msgs))"
        using well_paired_append[OF p(4)[OF Inr]] by (simp add: landing_request_def result_id_def calls_of_def)
      from send_fine[OF p(2) this, of env q] assms(2)
      obtain r2 st2 where s: "send_request env q (landing_request env q msgs) st1 = Some (r2, st2)" "child_good t st2"
          "cs_requests st2 = cs_requests st @ [landing_request env q msgs]"
        using p(3) by (auto simp: sub_settles_def)
      have "step_good t (length (cs_requests st)) (say_and_commit x y st2)" for x y
        by (rule say_step[OF child_good_open[OF s(2)]]) (simp add: s(3))
      then show ?thesis using False nc p(1) s Inr
        by (simp add: loop_step_def land_def child_good_open Let_def split: sum.split)
    qed
  qed
qed

definition loop_good :: "jsstring \<Rightarrow> nat \<Rightarrow> ((thrown + jsstring) \<times> complete_state) option \<Rightarrow> bool" where
  "loop_good t n x \<longleftrightarrow> (case x of None \<Rightarrow> False
     | Some (r, st) \<Rightarrow> (case r of Inl e \<Rightarrow> child_open t st | Inr s \<Rightarrow> child_closed st) \<and> length (cs_requests st) \<le> n)"

lemma loop_good_mono: "loop_good t n x \<Longrightarrow> n \<le> m \<Longrightarrow> loop_good t m x"
  by (auto simp: loop_good_def split: option.splits sum.splits)

lemma complete_loop_fine:
  assumes "child_good t st" "sub_settles env q"
  shows "loop_good t (length (cs_requests st) + Suc (nat (cq_max q + 1 - cs_iteration st))) (complete_loop env q st)"
  using assms
proof (induction env q st rule: complete_loop.induct)
  case (1 env q st)
  obtain x st1 where x: "loop_step env q st = Some (x, st1)" "step_good t (length (cs_requests st)) (x, st1)"
    using loop_step_fine[OF 1(2,3)] by (cases "loop_step env q st") auto
  show ?case
  proof (cases x)
    case (Inl e)
    then show ?thesis using x by (subst complete_loop.simps) (simp add: loop_good_def)
  next
    case (Inr d)
    show ?thesis
    proof (cases d)
      case AnotherRound
      then have gon: "loop_step env q st = Some (Inr AnotherRound, st1)" "child_good t st1" "length (cs_requests st1) \<le> Suc (length (cs_requests st))"
        using x Inr by simp_all
      have ih: "loop_good t (length (cs_requests st1) + Suc (nat (cq_max q + 1 - cs_iteration st1))) (complete_loop env q st1)"
        by (rule 1(1)[OF gon(1) refl refl refl gon(2) 1(3)])
      have "length (cs_requests st1) + Suc (nat (cq_max q + 1 - cs_iteration st1)) \<le> length (cs_requests st) + Suc (nat (cq_max q + 1 - cs_iteration st))"
        using loop_step_goes_on[OF gon(1)] gon(3) by linarith
      from loop_good_mono[OF ih this] show ?thesis using gon(1) by (subst complete_loop.simps) simp
    next
      case (Summary s)
      then show ?thesis using x Inr by (subst complete_loop.simps) (simp add: loop_good_def)
    qed
  qed
qed

lemma run_complete_fine:
  assumes "closed_session (cs_session st)" "grouped (child_entries st)" "cs_requests st = []" "sub_settles env q"
  shows "\<exists>t. loop_good t (Suc (nat (cq_max q))) (run_complete_tool_loop env q st)"
proof -
  obtain s' t e where s: "session_begin_turn (cq_prompt q) None (cs_session st) = Inr s'" "in_turn t s'"
      "session_entries s' = child_entries st @ [e]" "result_id (message e) = None" "calls_of (message e) = []"
    using closed_begin[OF assms(1)] by blast
  have "grouped (session_entries s')" using grouped_append[OF assms(2), of "[e]"] s(3-5) by simp
  then have "child_good t (st\<lparr>cs_session := s', cs_iteration := 1, cs_text := [], cs_recovering := False,
      cs_detector := new_stall_detector None\<rparr>)"
    using s(2) assms(3) by (simp add: child_good_def child_open_def paired_requests_def)
  from complete_loop_fine[OF this assms(4)] show ?thesis
    using s(1) assms(3) by (auto simp: run_complete_tool_loop_def with_session_def)
qed

section \<open>The subagent\<close>

lemma register_all_ok:
  assumes "distinct (map t_name ds)" "\<And>d. d \<in> set ds \<Longrightarrow> \<not> map_has (g_tools g) (t_name d)"
  shows "\<exists>g'. register_all ds g = Inr g' \<and> g_policy g' = g_policy g
    \<and> g_tools g' = g_tools g @ map (\<lambda>d. (t_name d, d)) ds"
  using assms
proof (induction ds arbitrary: g)
  case (Cons d ds)
  have nh: "\<not> map_has (g_tools g) (t_name d)" using Cons.prems(2) by simp
  then have st: "map_set (t_name d) d (g_tools g) = g_tools g @ [(t_name d, d)]" by (intro map_set_new) simp
  have "\<not> map_has (g_tools g @ [(t_name d, d)]) (t_name d')" if "d' \<in> set ds" for d'
  proof -
    have "t_name d' \<in> t_name ` set ds" using that by (rule imageI)
    then have "t_name d' \<noteq> t_name d" using Cons.prems(1) by auto
    then show ?thesis using Cons.prems(2)[of d'] that by (simp add: map_has_def)
  qed
  with Cons.prems(1) Cons.IH[of "g\<lparr>g_tools := g_tools g @ [(t_name d, d)]\<rparr>"]
  obtain g' where "register_all ds (g\<lparr>g_tools := g_tools g @ [(t_name d, d)]\<rparr>) = Inr g'" "g_policy g' = g_policy g"
      "g_tools g' = (g_tools g @ [(t_name d, d)]) @ map (\<lambda>d. (t_name d, d)) ds"
    by auto
  then show ?case using nh st by (simp add: register_def)
qed simp

definition mode_tools :: "sub_mode \<Rightarrow> jsstring list" where
  "mode_tools m = map js ([''Read'', ''Glob'', ''Grep'', ''Rg'', ''List'', ''Stat''] @ (if m = General then [''Edit'', ''Write''] else []))"

lemma subagent_tool_names: "map t_name (subagent_tools env m) = mode_tools m"
  by (cases m) (simp_all add: subagent_tools_def create_subagent_tools_def subagent_tool_risks_def mode_tools_def)

lemma subagent_gateway_ok:
  "\<exists>g. subagent_gateway env m = Inr g \<and> g_policy g = subagent_policy m \<and> map fst (g_tools g) = mode_tools m"
proof -
  have "distinct (map t_name (subagent_tools env m))"
    unfolding subagent_tool_names by (cases m) (simp_all add: mode_tools_def)
  from register_all_ok[OF this, of "new_gateway (Some (subagent_policy m)) None None (Some 120000) RetryUnset"]
  obtain g where "subagent_gateway env m = Inr g" "g_policy g = subagent_policy m"
      "g_tools g = map (\<lambda>d. (t_name d, d)) (subagent_tools env m)"
    by (auto simp: subagent_gateway_def new_gateway_def map_has_def)
  then show ?thesis using subagent_tool_names[of env m] by (simp add: comp_def)
qed

lemma subagent_session_closed: "closed_session (subagent_session env c)" "session_entries (subagent_session env c) = []"
proof -
  have n: "\<exists>o1. subagent_session env c = new_session o1 (fst (se_counters env)) (snd (se_counters env)) \<and> so_estimator o1 = None"
    by (auto simp: subagent_session_def create_session_context_def Let_def)
  then obtain o1 where o1: "subagent_session env c = new_session o1 (fst (se_counters env)) (snd (se_counters env))" "so_estimator o1 = None"
    by blast
  show "closed_session (subagent_session env c)"
    using new_session_ok[of o1] usual_new o1 by (simp add: closed_session_def) (simp add: new_session_def new_thread_def)
  show "session_entries (subagent_session env c) = []" using o1 by (simp add: new_session_def new_thread_def)
qed

lemma close_child_fine:
  assumes "child_open t st"
  shows "child_closed (close_child sig e st)" "cs_requests (close_child sig e st) = cs_requests st"
proof -
  obtain s' where "session_interrupt_turn (if is_operation_aborted e sig then SUB_INTERRUPT else err_text e) (cs_session st) = Inr s'"
      "closed_session s'"
    using in_turn_interrupt[of t "cs_session st"] assms by (metis child_open_def)
  then have "close_child sig e st = st\<lparr>cs_session := s'\<rparr>" "closed_session s'" by (simp_all add: close_child_def with_session_def)
  then show "child_closed (close_child sig e st)" "cs_requests (close_child sig e st) = cs_requests st"
    using assms by (simp_all add: child_closed_def child_open_def paired_requests_def)
qed

definition mode_of :: "sub_request \<Rightarrow> sub_mode" where
  "mode_of r = (if sr_mode r = Some General then General else Explore)"

definition sub_answers :: "sub_env \<Rightarrow> sub_mode \<Rightarrow> bool" where
  "sub_answers env m \<longleftrightarrow> (\<forall>c r. se_complete env c r \<noteq> None)
     \<and> (case subagent_gateway env m of Inl f \<Rightarrow> True
        | Inr g \<Rightarrow> (\<forall>i j it c. call_tool g (bn_call (se_batch env i) j) (batch_call it c) \<noteq> None))"

definition iteration_limit :: "sub_deps \<Rightarrow> nat" where
  "iteration_limit d = nat (case dp_iterations d of Some n \<Rightarrow> n | None \<Rightarrow> 40)"

definition parent_trace :: "sub_request \<Rightarrow> parent_event list \<Rightarrow> bool" where
  "parent_trace r evs \<longleftrightarrow> evs = [] \<or> (\<exists>k\<in>{''subagent.completed'', ''subagent.failed'', ''subagent.cancelled''}.
     evs = [started_event r (mode_of r), SubEnded (js k)])"

text \<open>A child that ran is closed, whatever its loop came to.\<close>

definition report_good :: "sub_deps \<Rightarrow> sub_request \<Rightarrow> sub_report \<Rightarrow> bool" where
  "report_good d r rep = (case rep of (res, evs, child) \<Rightarrow> parent_trace r evs
     \<and> (case child of None \<Rightarrow> True
        | Some st \<Rightarrow> child_closed st \<and> length (cs_requests st) \<le> Suc (iteration_limit d)))"

lemma finish_child_good:
  assumes "loop_good t (Suc (iteration_limit d)) (Some x)"
  shows "report_good d r (finish_child env r run (mode_of r) prof c x)"
proof -
  obtain y st where x: "x = (y, st)" by (cases x)
  show ?thesis
  proof (cases y)
    case (Inl e)
    then show ?thesis using assms close_child_fine[of t st _ e]
      by (simp add: finish_child_def x loop_good_def report_good_def parent_trace_def Let_def)
  next
    case (Inr s)
    then show ?thesis using assms by (simp add: finish_child_def x loop_good_def report_good_def parent_trace_def)
  qed
qed

lemma start_child_good:
  assumes "sub_answers env (mode_of r)"
  shows "case start_child env d r (mode_of r) prof of None \<Rightarrow> False | Some rep \<Rightarrow> report_good d r rep"
proof (cases "chosen_client d r prof")
  case None
  then show ?thesis by (simp add: start_child_def report_good_def parent_trace_def)
next
  case (Some c)
  obtain g where g: "subagent_gateway env (mode_of r) = Inr g" using subagent_gateway_ok by blast
  define q where "q = subagent_params env d (mode_of r) (js_trim (sr_goal r)) c g"
  have se: "sub_settles env q" using assms g by (simp add: sub_settles_def sub_answers_def q_def subagent_params_def)
  have lim: "nat (cq_max q) = iteration_limit d" by (simp add: q_def subagent_params_def iteration_limit_def)
  obtain t where t: "loop_good t (Suc (iteration_limit d)) (run_complete_tool_loop env q (fresh_child env c))"
    using run_complete_fine[OF _ _ _ se, of "fresh_child env c"] subagent_session_closed[of env c] lim by (auto simp: fresh_child_def)
  then obtain x where x: "run_complete_tool_loop env q (fresh_child env c) = Some x" by (auto simp: loop_good_def split: option.splits)
  show ?thesis using finish_child_good[OF t[unfolded x]] x by (simp add: start_child_def Some g q_def[symmetric])
qed

lemma run_subagent_good:
  assumes "sub_answers env (mode_of r)"
  shows "case run_subagent env d r of None \<Rightarrow> False | Some rep \<Rightarrow> report_good d r rep"
  using start_child_good[OF assms, of d] unfolding mode_of_def
  by (auto simp: run_subagent_def Let_def report_good_def parent_trace_def split: sum.split)

section \<open>A subagent starts only its own tools\<close>

fun starts_in :: "jsstring list \<Rightarrow> run_event \<Rightarrow> bool" where
  "starts_in ns (GateEvent (TStarted m v n)) \<longleftrightarrow> cm_tool m \<in> set ns"
| "starts_in ns _ \<longleftrightarrow> True"

definition child_starts :: "jsstring list \<Rightarrow> complete_state \<Rightarrow> bool" where
  "child_starts ns st \<longleftrightarrow> list_all (starts_in ns) (ho_trace (cs_host st))"

lemma host_note_starts: "list_all (starts_in ns) (ho_trace (host_note n h)) = list_all (starts_in ns) (ho_trace h)"
  by (cases n) (simp_all add: host_note_def)

lemma notify_starts: "cq_notify q = host_note \<Longrightarrow> child_starts ns (notify q n st) = child_starts ns st"
  by (simp add: child_starts_def notify_def host_note_starts)

lemma child_starts_cong: "cs_host st' = cs_host st \<Longrightarrow> child_starts ns st \<Longrightarrow> child_starts ns st'"
  by (simp add: child_starts_def)

lemma trace_calls_starts:
  assumes "starts_allowed g cs (map GateEvent evs)" "child_starts (map fst (g_tools g)) st"
  shows "child_starts (map fst (g_tools g)) (trace_calls evs st)"
proof -
  have "starts_in (map fst (g_tools g)) e" if "start_ok g cs e" for e
    using that by (cases "(g, cs, e)" rule: start_ok.cases) (auto simp: allowed_call_def dest: map_of_SomeD intro: rev_image_eqI)
  then show ?thesis using assms by (auto simp: child_starts_def trace_calls_def starts_allowed_def list_all_iff)
qed

lemma say_host: "cs_host (snd (say_and_commit said r st)) = cs_host st"
  by (auto simp: say_and_commit_def with_session_def split: option.splits prod.splits sum.splits)

lemma judge_starts: "cq_notify q = host_note \<Longrightarrow> child_starts ns st \<Longrightarrow> child_starts ns (snd (judge_progress env q calls ms st))"
  by (simp add: judge_progress_def next_round_def Let_def child_starts_def say_host notify_def host_note_starts)

lemma ask_starts:
  assumes "ask_model env q st = Some (r, st')" "cq_notify q = host_note" "child_starts ns st"
  shows "child_starts ns st'"
  using assms
  by (auto simp: ask_model_def take_reply_def notify_def child_starts_def host_note_starts Let_def
      split: if_splits option.splits sum.splits prod.splits dest!: prepare_loop_frame send_request_frame)

lemma use_tools_starts:
  assumes "use_tools env q co st = Some (x, st')" "cq_notify q = host_note" "child_starts (map fst (g_tools (cq_gateway q))) st"
  shows "child_starts (map fst (g_tools (cq_gateway q))) st'"
proof -
  let ?ns = "map fst (g_tools (cq_gateway q))"
  obtain r1 st1 where w: "with_session (session_append_assistant (case co_text co of Some t \<Rightarrow> t | None \<Rightarrow> []) (Some (calls_made co))) st = (r1, st1)"
    by fastforce
  have s1: "child_starts ?ns st1" using with_session_frame[OF w] assms(3) child_starts_cong by blast
  show ?thesis
  proof (cases r1)
    case (Inl e)
    then show ?thesis using assms(1) w s1 by (simp add: use_tools_def)
  next
    case Inr
    then obtain r evs where ex: "execute_scheduled_tool_calls (cq_gateway q) (se_batch env (cs_iteration st1)) (calls_made co)
        (Some (cq_tools q)) (Some (cs_iteration st1)) None = Some (r, evs)"
      using assms(1) w by (auto simp: use_tools_def split: option.splits)
    have s2: "child_starts ?ns (trace_calls evs st1)" by (rule trace_calls_starts[OF scheduled_trace[OF ex] s1])
    show ?thesis
    proof (cases "r")
      case (Inl e)
      then show ?thesis using assms(1) w Inr ex s2 by (simp add: use_tools_def Let_def)
    next
      case ms: (Inr ms)
      obtain r3 st3 where a: "append_answers ms (trace_calls evs st1) = (r3, st3)" by fastforce
      have s3: "child_starts ?ns st3" using append_answers_frame[OF a] s2 child_starts_cong by blast
      have "child_starts ?ns (snd (judge_progress env q (calls_made co) ms st3))" by (rule judge_starts[OF assms(2) s3])
      then show ?thesis using assms(1) w Inr ex s2 s3 ms a by (auto simp: use_tools_def Let_def split: if_splits sum.splits)
    qed
  qed
qed

lemma land_host: "land env q st = Some (x, st') \<Longrightarrow> cs_host st' = cs_host st"
  using say_host
  by (auto simp: land_def Let_def split: if_splits option.splits sum.splits prod.splits dest!: prepare_loop_frame send_request_frame)
    (metis snd_conv)+

lemma loop_step_starts:
  assumes "loop_step env q st = Some (x, st')" "cq_notify q = host_note" "child_starts (map fst (g_tools (cq_gateway q))) st"
  shows "child_starts (map fst (g_tools (cq_gateway q))) st'"
proof (cases "cs_iteration st \<le> cq_max q")
  case True
  obtain r st1 where a: "ask_model env q st = Some (r, st1)" using assms(1) True by (auto simp: loop_step_def complete_round_def split: option.splits)
  have s1: "child_starts (map fst (g_tools (cq_gateway q))) st1" by (rule ask_starts[OF a assms(2,3)])
  have "child_starts (map fst (g_tools (cq_gateway q))) (snd (last_words env st1))"
    using s1 by (simp add: last_words_def child_starts_def say_host)
  then show ?thesis using assms(1) True a s1 use_tools_starts[OF _ assms(2) s1]
    by (auto simp: loop_step_def complete_round_def split: sum.splits if_splits)
next
  case False
  then show ?thesis using land_host assms(1,3) child_starts_cong by (auto simp: loop_step_def)
qed

lemma complete_loop_starts:
  "complete_loop env q st = Some (x, st') \<Longrightarrow> cq_notify q = host_note \<Longrightarrow> child_starts (map fst (g_tools (cq_gateway q))) st \<Longrightarrow>
   child_starts (map fst (g_tools (cq_gateway q))) st'"
proof (induction env q st rule: complete_loop.induct)
  case (1 env q st)
  obtain y st1 where y: "loop_step env q st = Some (y, st1)" using 1(2) by (subst (asm) complete_loop.simps) (auto split: option.splits)
  have s1: "child_starts (map fst (g_tools (cq_gateway q))) st1" by (rule loop_step_starts[OF y 1(3,4)])
  show ?case
  proof (cases y)
    case (Inl e)
    then show ?thesis using 1(2) y s1 by (subst (asm) complete_loop.simps) simp
  next
    case (Inr d)
    show ?thesis
    proof (cases d)
      case AnotherRound
      have c: "complete_loop env q st1 = Some (x, st')" using 1(2) y Inr AnotherRound by (subst (asm) complete_loop.simps) simp
      show ?thesis by (rule 1(1)[OF y refl Inr AnotherRound c 1(3) s1])
    next
      case (Summary t)
      then show ?thesis using 1(2) y Inr s1 by (subst (asm) complete_loop.simps) simp
    qed
  qed
qed

lemma run_complete_starts:
  assumes "run_complete_tool_loop env q st = Some (x, st')" "cq_notify q = host_note" "child_starts (map fst (g_tools (cq_gateway q))) st"
  shows "child_starts (map fst (g_tools (cq_gateway q))) st'"
proof -
  obtain r1 st1 where w: "with_session (session_begin_turn (cq_prompt q) None) st = (r1, st1)" by fastforce
  have s1: "child_starts (map fst (g_tools (cq_gateway q))) st1" using with_session_frame[OF w] assms(3) child_starts_cong by blast
  show ?thesis
  proof (cases r1)
    case (Inl e)
    then show ?thesis using assms(1) w s1 by (simp add: run_complete_tool_loop_def)
  next
    case Inr
    then show ?thesis using assms(1) w complete_loop_starts[OF _ assms(2)] s1
      by (auto simp: run_complete_tool_loop_def child_starts_def)
  qed
qed

lemma run_subagent_starts:
  assumes "run_subagent env d r = Some (res, evs, Some st)"
  shows "child_starts (mode_tools (mode_of r)) st"
proof -
  obtain prof where sc: "start_child env d r (mode_of r) prof = Some (res, evs, Some st)"
    using assms unfolding mode_of_def by (auto simp: run_subagent_def Let_def split: if_splits sum.splits)
  obtain g where g: "subagent_gateway env (mode_of r) = Inr g" "map fst (g_tools g) = mode_tools (mode_of r)"
    using subagent_gateway_ok by blast
  obtain c where c: "chosen_client d r prof = Some c" using sc by (auto simp: start_child_def Let_def split: option.splits)
  define q where "q = subagent_params env d (mode_of r) (js_trim (sr_goal r)) c g"
  obtain x st1 where x: "run_complete_tool_loop env q (fresh_child env c) = Some (x, st1)"
      "finish_child env r (subagent_run_id env d r) (mode_of r) prof c (x, st1) = (res, evs, Some st)"
    using sc c g by (auto simp: start_child_def q_def[symmetric])
  have "child_starts (map fst (g_tools (cq_gateway q))) st1"
    by (rule run_complete_starts[OF x(1)]) (simp_all add: q_def subagent_params_def child_starts_def fresh_child_def)
  then have s1: "child_starts (mode_tools (mode_of r)) st1" using g(2) by (simp add: q_def subagent_params_def)
  have "cs_host (close_child sig e st1) = cs_host st1" for sig e
    using with_session_frame by (metis close_child_def prod.collapse)
  then show ?thesis using x(2) s1 child_starts_cong by (auto simp: finish_child_def Let_def split: sum.splits)
qed

section \<open>When a subagent is incomplete\<close>

definition stall_noted :: "complete_state \<Rightarrow> bool" where
  "stall_noted st \<longleftrightarrow> Recorded (js ''llm.subagent.stalled'') \<in> set (ho_trace (cs_host st))"

definition calm :: "complete_state \<Rightarrow> bool" where
  "calm st \<longleftrightarrow> \<not> ho_stalled (cs_host st) \<and> \<not> stall_noted st"

definition last_ordinary :: "complete_state \<Rightarrow> bool" where
  "last_ordinary st \<longleftrightarrow> cs_requests st \<noteq> [] \<and> rq_iteration (last (cs_requests st)) = Some (cs_iteration st)"

definition told :: "complete_state \<Rightarrow> bool" where
  "told st \<longleftrightarrow> calm st \<or> ho_stalled (cs_host st) \<and> stall_noted st \<and> last_ordinary st"

lemma calm_cong: "cs_host st' = cs_host st \<Longrightarrow> calm st \<Longrightarrow> calm st'"
  by (simp add: calm_def stall_noted_def)

lemma calm_notify:
  "cq_notify q = host_note \<Longrightarrow> calm st \<Longrightarrow> calm (notify q (NoteTurn i) st) \<and> calm (notify q (NoteCompleted i x k) st)
     \<and> calm (notify q (NoteRecovery i ob) st)"
  by (simp add: calm_def stall_noted_def notify_def host_note_def)

lemma calm_trace [simp]: "calm (trace_calls evs st) = calm st"
  by (auto simp: calm_def stall_noted_def trace_calls_def)

lemma ask_calm:
  assumes "ask_model env q st = Some (r, st')" "cq_notify q = host_note" "calm st"
  shows "calm st' \<and> (case r of Inr co \<Rightarrow> last_ordinary st' | Inl e \<Rightarrow> True)"
  using assms
  by (auto simp: ask_model_def take_reply_def notify_def calm_def stall_noted_def last_ordinary_def host_note_def round_request_def Let_def
      split: if_splits option.splits sum.splits prod.splits dest!: prepare_loop_frame send_request_frame)

lemma say_told: "told st \<Longrightarrow> said_to = say_and_commit said x st \<Longrightarrow> told (snd said_to)"
  by (auto simp: say_and_commit_def with_session_def told_def calm_def stall_noted_def last_ordinary_def
      split: option.splits prod.splits sum.splits)

lemma told_same: "told st \<Longrightarrow> cs_host st' = cs_host st \<Longrightarrow> cs_requests st' = cs_requests st \<Longrightarrow> cs_iteration st' = cs_iteration st \<Longrightarrow> told st'"
  by (simp add: told_def calm_def stall_noted_def last_ordinary_def)

lemma judge_told:
  assumes "calm st" "last_ordinary st" "cq_notify q = host_note" "judge_progress env q calls ms st = (r, st')"
  shows "case r of Inr AnotherRound \<Rightarrow> calm st' | _ \<Rightarrow> told st'"
proof -
  define ob where "ob = observe_stall (se_sha env) (se_cmp env) calls ms (cs_detector st)"
  define st1 where "st1 = st\<lparr>cs_detector := snd ob\<rparr>"
  have c1: "calm st1" "last_ordinary st1" "cs_iteration st1 = cs_iteration st"
    using assms(1,2) by (simp_all add: st1_def calm_def stall_noted_def last_ordinary_def)
  have t: "told (notify q (NoteStalled i o1) st1)" for i o1
    using c1(1,2) assms(3) by (simp add: told_def stall_noted_def calm_def last_ordinary_def notify_def host_note_def Let_def)
  consider "r = Inr AnotherRound" "so_state (fst ob) = SRecover" "st' = (notify q (NoteRecovery (cs_iteration st) (fst ob)) st1)\<lparr>cs_recovering := True, cs_iteration := cs_iteration st + 1\<rparr>"
    | t where "say_and_commit (Some t) t (notify q (NoteStalled (cs_iteration st) (fst ob)) st1) = (r, st')"
    | "r = Inr AnotherRound" "st' = st1\<lparr>cs_iteration := cs_iteration st + 1\<rparr>"
    using assms(4) c1(3) unfolding judge_progress_def Let_def ob_def[symmetric] st1_def[symmetric] next_round_def
    by (auto split: if_splits)
  then show ?thesis
  proof cases
    case 1
    have "calm (notify q (NoteRecovery (cs_iteration st) (fst ob)) st1)" using calm_notify assms(3) c1(1) by blast
    then have "calm st'" unfolding 1(3) by (rule calm_cong[rotated]) simp
    then show ?thesis using 1(1) by simp
  next
    case (2 x)
    have "told st'" using say_told[OF t 2[symmetric]] by simp
    moreover have "r \<noteq> Inr AnotherRound" using 2 say_and_commit_ends by metis
    ultimately show ?thesis by (auto split: sum.split complete_end.split)
  next
    case 3
    have "calm st'" unfolding 3(2) by (rule calm_cong[OF _ c1(1)]) simp
    then show ?thesis using 3(1) by simp
  qed
qed

lemma use_tools_told:
  assumes "use_tools env q co st = Some (x, st')" "cq_notify q = host_note" "calm st" "last_ordinary st"
  shows "case x of Inr AnotherRound \<Rightarrow> calm st' | _ \<Rightarrow> told st'"
proof -
  obtain r1 st1 where w: "with_session (session_append_assistant (case co_text co of Some t \<Rightarrow> t | None \<Rightarrow> []) (Some (calls_made co))) st = (r1, st1)"
    by fastforce
  have s1: "calm st1" "last_ordinary st1" using with_session_frame[OF w] assms(3,4) by (simp_all add: calm_def stall_noted_def last_ordinary_def)
  show ?thesis
  proof (cases r1)
    case (Inl e)
    then show ?thesis using assms(1) w s1 by (auto simp: use_tools_def told_def)
  next
    case Inr
    then obtain r evs where ex: "execute_scheduled_tool_calls (cq_gateway q) (se_batch env (cs_iteration st1)) (calls_made co)
        (Some (cq_tools q)) (Some (cs_iteration st1)) None = Some (r, evs)"
      using assms(1) w by (auto simp: use_tools_def split: option.splits)
    have s2: "calm (trace_calls evs st1)" "last_ordinary (trace_calls evs st1)" using s1 by (simp_all add: last_ordinary_def)
    show ?thesis
    proof (cases r)
      case (Inl e)
      then show ?thesis using assms(1) w Inr ex s2 by (auto simp: use_tools_def Let_def told_def)
    next
      case ms: (Inr ms)
      obtain r3 st3 where a: "append_answers ms (trace_calls evs st1) = (r3, st3)" by fastforce
      have s3: "calm st3" "last_ordinary st3" using append_answers_frame[OF a] s2 by (simp_all add: calm_def stall_noted_def last_ordinary_def)
      obtain r4 st4 where j: "judge_progress env q (calls_made co) ms st3 = (r4, st4)" by fastforce
      show ?thesis using assms(1) w Inr ex s2 s3 ms a j judge_told[OF s3 assms(2) j]
        by (auto simp: use_tools_def Let_def told_def split: if_splits sum.splits)
    qed
  qed
qed

lemma loop_step_told:
  assumes "loop_step env q st = Some (x, st')" "cq_notify q = host_note" "calm st"
  shows "case x of Inr AnotherRound \<Rightarrow> calm st' | _ \<Rightarrow> told st'"
proof (cases "cs_iteration st \<le> cq_max q")
  case True
  obtain r st1 where a: "ask_model env q st = Some (r, st1)" using assms(1) True by (auto simp: loop_step_def complete_round_def split: option.splits)
  note s1 = ask_calm[OF a assms(2,3)]
  show ?thesis
  proof (cases r)
    case (Inl e)
    then show ?thesis using assms(1) True a s1 by (auto simp: loop_step_def complete_round_def told_def)
  next
    case (Inr co)
    show ?thesis
    proof (cases "calls_made co = []")
      case True
      have "told (snd (last_words env st1))" using s1 say_told[of st1] by (simp add: last_words_def told_def)
      moreover have "x = fst (last_words env st1)" "st' = snd (last_words env st1)"
        using assms(1) \<open>cs_iteration st \<le> cq_max q\<close> a Inr True by (simp_all add: loop_step_def complete_round_def)
      moreover have "fst (last_words env st1) \<noteq> Inr AnotherRound" using say_and_commit_ends
        by (auto simp: last_words_def) (metis prod.collapse)+
      ultimately show ?thesis by (auto split: sum.split complete_end.split)
    next
      case False
      then have "use_tools env q co st1 = Some (x, st')" using assms(1) True a Inr by (simp add: loop_step_def complete_round_def)
      from use_tools_told[OF this assms(2)] show ?thesis using s1 Inr by simp
    qed
  qed
next
  case False
  then have l: "land env q st = Some (x, st')" using assms(1) by (simp add: loop_step_def)
  have "calm st'" by (rule calm_cong[OF land_host[OF l] assms(3)])
  then show ?thesis by (auto simp: told_def split: sum.split complete_end.split)
qed

lemma complete_loop_told:
  "complete_loop env q st = Some (x, st') \<Longrightarrow> cq_notify q = host_note \<Longrightarrow> calm st \<Longrightarrow> told st'"
proof (induction env q st rule: complete_loop.induct)
  case (1 env q st)
  obtain y st1 where y: "loop_step env q st = Some (y, st1)" using 1(2) by (subst (asm) complete_loop.simps) (auto split: option.splits)
  note s1 = loop_step_told[OF y 1(3,4)]
  show ?case
  proof (cases y)
    case (Inl e)
    then show ?thesis using 1(2) y s1 by (subst (asm) complete_loop.simps) simp
  next
    case (Inr d)
    show ?thesis
    proof (cases d)
      case AnotherRound
      have c: "complete_loop env q st1 = Some (x, st')" using 1(2) y Inr AnotherRound by (subst (asm) complete_loop.simps) simp
      have "calm st1" using s1 Inr AnotherRound by simp
      from 1(1)[OF y refl Inr AnotherRound c 1(3) this] show ?thesis .
    next
      case (Summary t)
      then show ?thesis using 1(2) y Inr s1 by (subst (asm) complete_loop.simps) simp
    qed
  qed
qed

lemma run_complete_told:
  assumes "run_complete_tool_loop env q st = Some (x, st')" "cq_notify q = host_note" "calm st"
  shows "told st'"
proof -
  obtain r1 st1 where w: "with_session (session_begin_turn (cq_prompt q) None) st = (r1, st1)" by fastforce
  have s1: "calm st1" using with_session_frame[OF w] assms(3) calm_cong by blast
  show ?thesis
  proof (cases r1)
    case (Inl e)
    then show ?thesis using assms(1) w s1 by (simp add: run_complete_tool_loop_def told_def)
  next
    case Inr
    then have "complete_loop env q (st1\<lparr>cs_iteration := 1, cs_text := [], cs_recovering := False, cs_detector := new_stall_detector None\<rparr>) = Some (x, st')"
      using assms(1) w by (simp add: run_complete_tool_loop_def)
    from complete_loop_told[OF this assms(2)] show ?thesis using s1 by (simp add: calm_def stall_noted_def)
  qed
qed

lemma run_subagent_told:
  assumes "run_subagent env d r = Some (Inr oc, evs, Some st)"
  shows "told st" "oc_result oc = subagent_result env (ho_stalled (cs_host st)) (sx_summary (oc_result oc)) (ho_trace (cs_host st))"
proof -
  obtain prof where sc: "start_child env d r (mode_of r) prof = Some (Inr oc, evs, Some st)"
    using assms unfolding mode_of_def by (auto simp: run_subagent_def Let_def split: if_splits sum.splits)
  obtain g where g: "subagent_gateway env (mode_of r) = Inr g" using subagent_gateway_ok by blast
  obtain c where c: "chosen_client d r prof = Some c" using sc by (auto simp: start_child_def Let_def split: option.splits)
  define q where "q = subagent_params env d (mode_of r) (js_trim (sr_goal r)) c g"
  obtain x st1 where x: "run_complete_tool_loop env q (fresh_child env c) = Some (x, st1)"
      "finish_child env r (subagent_run_id env d r) (mode_of r) prof c (x, st1) = (Inr oc, evs, Some st)"
    using sc c g by (auto simp: start_child_def q_def[symmetric])
  have f: "st = st1" "oc_result oc = subagent_result env (ho_stalled (cs_host st)) (sx_summary (oc_result oc)) (ho_trace (cs_host st))"
    using x(2) by (auto simp: finish_child_def outcome_of_def subagent_result_def Let_def split: sum.splits)
  show "told st" unfolding f(1) by (rule run_complete_told[OF x(1)]) (simp_all add: q_def subagent_params_def fresh_child_def calm_def stall_noted_def)
  show "oc_result oc = subagent_result env (ho_stalled (cs_host st)) (sx_summary (oc_result oc)) (ho_trace (cs_host st))" by (rule f(2))
qed

lemma run_subagent_status:
  assumes "run_subagent env d r = Some (Inr oc, evs, Some st)"
  shows "sx_status (oc_result oc) = (if stall_noted st then SubIncomplete else SubCompleted)
    \<and> (sx_incomplete (oc_result oc) = [] \<longleftrightarrow> \<not> stall_noted st) \<and> (stall_noted st \<longrightarrow> last_ordinary st)"
proof -
  have t: "ho_stalled (cs_host st) = stall_noted st" "stall_noted st \<Longrightarrow> last_ordinary st"
    using run_subagent_told(1)[OF assms] by (auto simp: told_def calm_def)
  show ?thesis using t(2) by (subst (1 2) run_subagent_told(2)[OF assms]) (simp add: subagent_result_def t(1) Let_def)
qed

section \<open>A small subagent\<close>

definition demo_client :: llm_client where
  "demo_client = \<lparr>lc_model = js ''m'', lc_window = None, lc_calling = None\<rparr>"

definition demo_sub_env :: sub_env where
  "demo_sub_env = \<lparr>se_summ = (\<lambda>_ _ _ _. Inr []), se_govern = (\<lambda>_ _. False), se_govern_error = (\<lambda>_. operation_aborted []),
     se_signal = (\<lambda>_ _. None), se_complete = (\<lambda>_ _. Some (Inr \<lparr>co_text = Some (js ''done''), co_calls = None, co_input = None\<rparr>)),
     se_batch = (\<lambda>_. demo_batch_env), se_reads = (\<lambda>_. True), se_sha = id, se_cmp = (\<lambda>_ _. True), se_prompt = id,
     se_tool = (\<lambda>_. demo_read), se_uuid = [], se_number = (\<lambda>_. NonFin), se_variable = (\<lambda>_. None), se_counters = (0, 0)\<rparr>"

definition demo_sub_deps :: sub_deps where
  "demo_sub_deps = \<lparr>dp_client = Some demo_client, dp_worker = None, dp_resolve = None, dp_depth = None, dp_iterations = None,
     dp_run_id = None, dp_skill = None\<rparr>"

definition demo_delegation :: sub_request where
  "demo_delegation = \<lparr>sr_goal = js ''look'', sr_mode = None, sr_title = None, sr_parent = js ''r'', sr_depth = None,
     sr_profile = None, sr_prefer = None\<rparr>"

lemma done_returns: "call_tool g demo_done inp \<noteq> None"
proof -
  have t: "try_attempt g demo_done d n = Some (Inr \<lparr>h_status = None, h_text = js ''ok'', h_summary = None, h_data = JUndef\<rparr>)" for d n
    by (simp add: try_attempt_def execute_with_timeout_def throw_if_aborted_def demo_done_def is_aborted_def signal_at_def)
  have "\<exists>r evs. attempt_loop g demo_done inp d meta p k n fs lst = Some (evs, r)" for d meta p k n fs lst
    by (cases k) (simp_all add: t Let_def split: prod.split)
  then show ?thesis by (simp add: call_tool_def Let_def split: sum.split option.split)
qed

lemma demo_sub_answers: "sub_answers demo_sub_env m"
  by (simp add: sub_answers_def demo_sub_env_def demo_batch_env_def done_returns del: not_None_eq split: sum.split)

end
