(* ===== verification/Worker_Turn.thy ===== *)
theory Worker_Turn
  imports Agent_Run Images
begin

text \<open>
  The worker around the runtime: the turn of \<open>worker/src/agentLoop.ts\<close> that consumes the streams of a run
  and builds the message parts, the loop that claims jobs and posts their replies, and the registry of
  \<open>worker/src/conversationRuntimeRegistry.ts\<close>.

  A stream is what it yields and how it ends. The transport's \<open>postEvents\<close> keeps its errors to itself;
  posting a reply, waiting for an approval, minting an environment and creating or restoring a host
  may throw. A host is known by the number of its creation. Logging is
  left out. The heartbeats run beside the loop and are modelled apart: the loop is told when it is stopped and
  whether a job has lost its lease. Waiting for a job or
  a decision that never comes is \<open>None\<close>.
\<close>

section \<open>Message parts\<close>

definition TOOL_CLIP_CHARS :: nat where "TOOL_CLIP_CHARS = 8000"

datatype part_status = PartRunning | PartAsked | PartDone | PartFailed

record part_approval =
  pv_id :: jsstring
  pv_risk :: jsstring
  pv_reason :: "jsstring option"
  pv_preview :: "jsstring option"
  pv_approved :: "bool option"

record tool_part =
  tp_id :: jsstring
  tp_name :: jsstring
  tp_input :: jsval
  tp_result :: "jsstring option"
  tp_status :: part_status
  tp_approval :: "part_approval option"

datatype message_part = TextPart jsstring | ReasoningPart jsstring | ToolPart tool_part

text \<open>\<open>parts.find\<close> and an assignment to what it finds.\<close>

fun change_tool :: "jsstring \<Rightarrow> (tool_part \<Rightarrow> tool_part) \<Rightarrow> message_part list \<Rightarrow> message_part list option" where
  "change_tool i f [] = None"
| "change_tool i f (ToolPart p # ps) = (if tp_id p = i then Some (ToolPart (f p) # ps) else map_option ((#) (ToolPart p)) (change_tool i f ps))"
| "change_tool i f (p # ps) = map_option ((#) p) (change_tool i f ps)"

definition clip_text :: "jsstring \<Rightarrow> jsstring" where
  "clip_text v = (if length v \<le> TOOL_CLIP_CHARS then v else take TOOL_CLIP_CHARS v @ [10] @ js ''...'')"

definition clip_json :: "jsval \<Rightarrow> jsval" where
  "clip_json v = (case v of JUndef \<Rightarrow> JUndef | JStr s \<Rightarrow> JStr (clip_text s)
     | _ \<Rightarrow> (case stringify v of None \<Rightarrow> JUndef | Some t \<Rightarrow> if length t \<le> TOOL_CLIP_CHARS then v else JStr (clip_text t)))"

definition append_text :: "jsstring \<Rightarrow> message_part list \<Rightarrow> message_part list" where
  "append_text t ps = (if ps \<noteq> [] then (case last ps of TextPart x \<Rightarrow> butlast ps @ [TextPart (x @ t)] | _ \<Rightarrow> ps @ [TextPart t])
     else [TextPart t])"

definition append_reasoning :: "jsstring \<Rightarrow> message_part list \<Rightarrow> message_part list" where
  "append_reasoning t ps = (if ps \<noteq> [] then (case last ps of ReasoningPart x \<Rightarrow> butlast ps @ [ReasoningPart (x @ t)] | _ \<Rightarrow> ps @ [ReasoningPart t])
     else [ReasoningPart t])"

definition upsert_tool :: "jsstring \<Rightarrow> jsstring \<Rightarrow> jsval \<Rightarrow> part_status \<Rightarrow> message_part list \<Rightarrow> message_part list" where
  "upsert_tool i n v s ps = (case change_tool i (\<lambda>p. p\<lparr>tp_name := n, tp_status := s\<rparr>) ps of
     Some ps' \<Rightarrow> ps'
   | None \<Rightarrow> ps @ [ToolPart \<lparr>tp_id = i, tp_name = n, tp_input = clip_json v, tp_result = None, tp_status = s, tp_approval = None\<rparr>])"

definition mark_tool_approval :: "jsstring \<Rightarrow> part_approval \<Rightarrow> message_part list \<Rightarrow> message_part list" where
  "mark_tool_approval i a ps = (case change_tool i (\<lambda>p. p\<lparr>tp_status := PartAsked, tp_approval := Some a\<rparr>) ps of Some ps' \<Rightarrow> ps' | None \<Rightarrow> ps)"

definition resolve_part :: "bool \<Rightarrow> tool_part \<Rightarrow> tool_part" where
  "resolve_part ok p = (case tp_approval p of None \<Rightarrow> p
     | Some a \<Rightarrow> p\<lparr>tp_approval := Some (a\<lparr>pv_approved := Some ok\<rparr>), tp_status := PartRunning\<rparr>)"

definition mark_approval_resolved :: "jsstring \<Rightarrow> bool \<Rightarrow> message_part list \<Rightarrow> message_part list" where
  "mark_approval_resolved i ok ps = (case change_tool i (resolve_part ok) ps of Some ps' \<Rightarrow> ps' | None \<Rightarrow> ps)"

definition complete_tool :: "jsstring \<Rightarrow> jsstring \<Rightarrow> jsstring \<Rightarrow> bool \<Rightarrow> message_part list \<Rightarrow> message_part list" where
  "complete_tool i n r ok ps =
     (let s = (if ok then PartDone else PartFailed) in
      case change_tool i (\<lambda>p. p\<lparr>tp_name := n, tp_result := Some r, tp_status := s\<rparr>) ps of
        Some ps' \<Rightarrow> ps'
      | None \<Rightarrow> ps @ [ToolPart \<lparr>tp_id = i, tp_name = n, tp_input = JUndef, tp_result = Some r, tp_status = s, tp_approval = None\<rparr>])"

section \<open>Consuming a stream\<close>

datatype agent_event = EvText jsstring | EvThinking jsstring | EvCall jsstring jsstring jsval | EvAnswer jsstring jsstring jsstring bool

datatype reply_status = ReplyProcessing | ReplyDone | ReplyFailed

record host_usage =
  hu_calls :: int
  hu_input :: int
  hu_output :: int
  hu_total :: int
  hu_cache_read :: int
  hu_cache_write :: int
  hu_reasoning :: int
  hu_cost :: rat
  hu_duration :: int

record agent_usage =
  au_input :: int
  au_output :: int
  au_total :: int
  au_cache_read :: int
  au_cache_write :: int
  au_reasoning :: int
  au_cost :: rat
  au_calls :: int
  au_duration :: int

record turn_reply =
  ry_content :: jsstring
  ry_status :: reply_status
  ry_error :: "jsstring option"
  ry_parts :: "message_part list option"
  ry_usage :: "agent_usage option"
  ry_context :: "(int \<times> int \<times> rat) option"

datatype post = PostEvent agent_event | PostReply turn_reply

record turn_state =
  tn_text :: jsstring
  tn_parts :: "message_part list"
  tn_posts :: "post list"

definition new_turn :: turn_state where
  "new_turn = \<lparr>tn_text = [], tn_parts = [], tn_posts = []\<rparr>"

definition post_event :: "agent_event \<Rightarrow> turn_state \<Rightarrow> turn_state" where
  "post_event e st = st\<lparr>tn_posts := tn_posts st @ [PostEvent e]\<rparr>"

text \<open>The \<open>ok\<close> of a tool result, which the streaming loop sets to true for every result.\<close>

definition answer_ok :: "stream_event \<Rightarrow> bool option" where
  "answer_ok e = Some True"

definition consume_event :: "stream_event \<Rightarrow> turn_state \<Rightarrow> turn_state" where
  "consume_event e st =
     (case e of
        TextDelta t \<Rightarrow> if t = [] then st
          else post_event (EvText t) (st\<lparr>tn_text := tn_text st @ t, tn_parts := append_text t (tn_parts st)\<rparr>)
      | ThinkingDelta t \<Rightarrow> post_event (EvThinking t) (st\<lparr>tn_parts := append_reasoning t (tn_parts st)\<rparr>)
      | CallRequested c \<Rightarrow> post_event (EvCall (call_id c) (call_name c) (clip_json (call_input c)))
          (st\<lparr>tn_parts := upsert_tool (call_id c) (call_name c) (call_input c) PartRunning (tn_parts st)\<rparr>)
      | CallAnswered i n t \<Rightarrow>
          let ok = (answer_ok e \<noteq> Some False)
          in post_event (EvAnswer i n (clip_text t) ok) (st\<lparr>tn_parts := complete_tool i n (clip_text t) ok (tn_parts st)\<rparr>)
      | _ \<Rightarrow> st)"

fun stream_result :: "stream_event list \<Rightarrow> agent_result option \<Rightarrow> agent_result option" where
  "stream_result [] r = r"
| "stream_result (FinalResult a # es) r = stream_result es (Some a)"
| "stream_result (_ # es) r = stream_result es r"

record stream_feed =
  sf_events :: "stream_event list"
  sf_end :: "thrown option"

definition consume :: "stream_feed \<Rightarrow> turn_state \<Rightarrow> (thrown + agent_result option) \<times> turn_state" where
  "consume s st = ((case sf_end s of Some e \<Rightarrow> Inl e | None \<Rightarrow> Inr (stream_result (sf_events s) None)),
     fold consume_event (sf_events s) st)"

section \<open>A turn\<close>

text \<open>What meets an answered approval: the processing reply, the decision, and the stream behind it.\<close>

record resumption =
  rs_post :: "thrown option"
  rs_decision :: "thrown + (bool \<times> jsstring option)"
  rs_stream :: stream_feed

record turn_env =
  te_first :: stream_feed
  te_rest :: "resumption list"
  te_usage :: "jsstring \<Rightarrow> host_usage option"
  te_context :: "int \<times> int \<times> rat"

definition agent_usage_of :: "host_usage \<Rightarrow> agent_usage" where
  "agent_usage_of u = \<lparr>au_input = hu_input u, au_output = hu_output u, au_total = hu_total u, au_cache_read = hu_cache_read u,
     au_cache_write = hu_cache_write u, au_reasoning = hu_reasoning u, au_cost = hu_cost u, au_calls = hu_calls u,
     au_duration = hu_duration u\<rparr>"

definition turn_outcome :: "turn_env \<Rightarrow> agent_result option \<Rightarrow> turn_state \<Rightarrow> turn_reply" where
  "turn_outcome env res st =
     (let said = js_trim (tn_text st) in
      case res of
        None \<Rightarrow> \<lparr>ry_content = said, ry_status = (if said \<noteq> [] then ReplyDone else ReplyFailed),
            ry_error = (if said \<noteq> [] then None else Some (js ''Agent finished without a result'')),
            ry_parts = Some (tn_parts st), ry_usage = None, ry_context = None\<rparr>
      | Some r \<Rightarrow>
          let fine = (ar_status r = js ''completed'' \<or> ar_status r = js ''cancelled'')
          in \<lparr>ry_content = js_trim (or_text (ar_summary r) (tn_text st)), ry_status = (if fine then ReplyDone else ReplyFailed),
              ry_error = (if fine then None else Some (or_text (ar_summary r) (js ''Agent turn failed''))),
              ry_parts = Some (tn_parts st), ry_usage = map_option agent_usage_of (te_usage env (ar_run r)),
              ry_context = Some (te_context env)\<rparr>)"

definition no_details_reply :: "turn_state \<Rightarrow> turn_reply" where
  "no_details_reply st = \<lparr>ry_content = js_trim (tn_text st), ry_status = ReplyFailed,
     ry_error = Some (js ''Agent requested approval without approval details''), ry_parts = Some (tn_parts st),
     ry_usage = None, ry_context = None\<rparr>"

definition part_approval_of :: "agent_result \<Rightarrow> pending_approval \<Rightarrow> part_approval" where
  "part_approval_of r p = \<lparr>pv_id = ar_run r, pv_risk = pa_risk p, pv_reason = pa_reason p, pv_preview = Some (pa_preview p),
     pv_approved = None\<rparr>"

definition ask_user :: "agent_result \<Rightarrow> pending_approval \<Rightarrow> turn_state \<Rightarrow> turn_state" where
  "ask_user r p st = st\<lparr>tn_parts := mark_tool_approval (pa_call_id p) (part_approval_of r p) (tn_parts st)\<rparr>"

definition processing_reply :: "turn_state \<Rightarrow> turn_reply" where
  "processing_reply st = \<lparr>ry_content = js_trim (tn_text st), ry_status = ReplyProcessing, ry_error = None,
     ry_parts = Some (tn_parts st), ry_usage = None, ry_context = None\<rparr>"

definition take_decision :: "pending_approval \<Rightarrow> bool \<Rightarrow> turn_state \<Rightarrow> turn_state" where
  "take_decision p ok st = st\<lparr>tn_parts := mark_approval_resolved (pa_call_id p) ok (tn_parts st)\<rparr>"

text \<open>The loop that asks for approvals, one answer after the other.\<close>

fun approval_rounds ::
    "turn_env \<Rightarrow> resumption list \<Rightarrow> agent_result option \<Rightarrow> turn_state \<Rightarrow> ((thrown + turn_reply) \<times> turn_state) option" where
  "approval_rounds env rs None st = Some (Inr (turn_outcome env None st), st)"
| "approval_rounds env rs (Some r) st =
     (if ar_status r \<noteq> js ''approval-required'' then Some (Inr (turn_outcome env (Some r) st), st)
      else case ar_pending r of
          None \<Rightarrow> Some (Inr (no_details_reply st), st)
        | Some p \<Rightarrow>
          (case rs of
             [] \<Rightarrow> None
           | x # xs \<Rightarrow>
             let st1 = ask_user r p st
             in (case (rs_post x, rs_decision x) of
                   (Some e, _) \<Rightarrow> Some (Inl e, st1)
                 | (None, Inl e) \<Rightarrow> Some (Inl e, st1\<lparr>tn_posts := tn_posts st1 @ [PostReply (processing_reply st1)]\<rparr>)
                 | (None, Inr (ok, why)) \<Rightarrow>
                     (case consume (rs_stream x) (take_decision p ok (st1\<lparr>tn_posts := tn_posts st1 @ [PostReply (processing_reply st1)]\<rparr>)) of
                        (Inl e, st2) \<Rightarrow> Some (Inl e, st2)
                      | (Inr res, st2) \<Rightarrow> approval_rounds env xs res st2))))"

definition run_turn :: "turn_env \<Rightarrow> ((thrown + turn_reply) \<times> turn_state) option" where
  "run_turn env = (case consume (te_first env) new_turn of
     (Inl e, st) \<Rightarrow> Some (Inl e, st)
   | (Inr res, st) \<Rightarrow> approval_rounds env (te_rest env) res st)"

section \<open>Past messages\<close>

record past_message =
  pm_role :: jsstring
  pm_content :: jsstring
  pm_images :: "image_part list option"

definition materialize_turn :: "(jsstring \<Rightarrow> image_file option) \<Rightarrow> past_message \<Rightarrow> past_message" where
  "materialize_turn load m =
     (if pm_role m \<noteq> js ''user'' \<or> pm_images m = None \<or> pm_images m = Some [] then m
      else case materialize_workspace_image_parts load (pm_images m) of
        (ys, n) \<Rightarrow> \<lparr>pm_role = js ''user'', pm_content = (if n > 0 then append_image_note (pm_content m) n else pm_content m),
           pm_images = (if ys = [] then None else Some ys)\<rparr>)"

definition materialize_history_images :: "(jsstring \<Rightarrow> image_file option) \<Rightarrow> past_message list \<Rightarrow> past_message list" where
  "materialize_history_images load ms = map (materialize_turn load) ms"

section \<open>The registry of hosts\<close>

record registry =
  rg_current :: "(jsstring \<times> jsstring \<times> nat) option"
  rg_made :: nat
  rg_closed :: "nat list"

definition new_registry :: registry where
  "new_registry = \<lparr>rg_current = None, rg_made = 0, rg_closed = []\<rparr>"

definition normalize_history :: "past_message list \<Rightarrow> history_turn list" where
  "normalize_history ms = concat (map (\<lambda>m.
     let role = (if pm_role m = js ''agent'' then js ''assistant'' else pm_role m) in
     if role \<noteq> js ''user'' \<and> role \<noteq> js ''assistant'' then []
     else [\<lparr>h_user = (role = js ''user''), h_content = pm_content m,
        h_images = (if role = js ''user'' \<and> pm_images m \<noteq> Some [] then pm_images m else None)\<rparr>]) ms)"

definition retire_host :: "(jsstring \<times> jsstring \<times> nat) option \<Rightarrow> registry \<Rightarrow> registry" where
  "retire_host old g = (case old of None \<Rightarrow> g | Some (c, s, h) \<Rightarrow> g\<lparr>rg_closed := rg_closed g @ [h]\<rparr>)"

text \<open>\<open>broken\<close> and \<open>restore\<close> are the errors of creating a host and of restoring the conversation in it.\<close>

definition held_host :: "jsstring \<Rightarrow> jsstring \<Rightarrow> registry \<Rightarrow> nat option" where
  "held_host conv sig g = (case rg_current g of None \<Rightarrow> None | Some (c, s, h) \<Rightarrow> if c = conv \<and> s = sig then Some h else None)"

definition acquire_host ::
    "thrown option \<Rightarrow> (history_turn list \<Rightarrow> thrown option) \<Rightarrow> jsstring \<Rightarrow> jsstring \<Rightarrow> past_message list \<Rightarrow> registry \<Rightarrow> (thrown + nat) \<times> registry" where
  "acquire_host broken restore conv sig history g =
     (case held_host conv sig g of
        Some h \<Rightarrow> (Inr h, g)
      | None \<Rightarrow>
        (case broken of
           Some e \<Rightarrow> (Inl e, g)
         | None \<Rightarrow> let h = rg_made g; g1 = g\<lparr>rg_made := Suc h\<rparr>
             in (case restore (normalize_history history) of
                   Some e \<Rightarrow> (Inl e, g1\<lparr>rg_closed := rg_closed g1 @ [h]\<rparr>)
                 | None \<Rightarrow> (Inr h, retire_host (rg_current g) (g1\<lparr>rg_current := Some (conv, sig, h)\<rparr>)))))"

definition close_registry :: "registry \<Rightarrow> registry" where
  "close_registry g = retire_host (rg_current g) (g\<lparr>rg_current := None\<rparr>)"

section \<open>Jobs\<close>

type_synonym variables = "(jsstring, jsstring) jsmap"

record job =
  jb_id :: jsstring
  jb_lease :: jsstring
  jb_conversation :: jsstring
  jb_agent_message :: jsstring
  jb_content :: jsstring
  jb_history :: "past_message list"
  jb_images :: "image_part list option"
  jb_model :: "jsstring option"
  jb_skill :: "active_skill option"

text \<open>What a job meets. The turn is told the host, the input and the images; \<open>jw_lost\<close> says whether the lease
  was lost when an error is caught.\<close>

record job_world =
  jw_mint :: "jsstring option \<Rightarrow> thrown + variables"
  jw_load :: "jsstring \<Rightarrow> image_file option"
  jw_make :: "variables \<Rightarrow> active_skill option \<Rightarrow> thrown option"
  jw_restore :: "history_turn list \<Rightarrow> thrown option"
  jw_turn :: "nat \<Rightarrow> jsstring \<Rightarrow> image_part list \<Rightarrow> turn_env"
  jw_post :: "thrown option"
  jw_lost :: bool
  jw_post_failed :: "thrown option"

datatype loop_event = LoopStopped | ClaimFails thrown | NoJob | Claims job job_world

text \<open>Recorded are the hosts with the environment each was made in, the jobs with the host each ran on, and the posts.\<close>

record worker_state =
  wk_process :: variables
  wk_env :: variables
  wk_model :: jsstring
  wk_registry :: registry
  wk_hosts :: "(nat \<times> variables) list"
  wk_runs :: "(job \<times> nat) list"
  wk_posts :: "(jsstring \<times> post) list"

definition merge_env :: "variables \<Rightarrow> variables \<Rightarrow> variables" where
  "merge_env base minted = fold (\<lambda>p m. map_set (fst p) (snd p) m) minted base"

definition model_key :: "job \<Rightarrow> jsstring" where
  "model_key jb = (case jb_model jb of Some m \<Rightarrow> m | None \<Rightarrow> [])"

definition job_signature :: "job \<Rightarrow> jsstring" where
  "job_signature jb = model_key jb @ [0] @ (case jb_skill jb of None \<Rightarrow> [] | Some k \<Rightarrow> sk_id k @ js ''@'' @ show_int (sk_revision k))"

definition choose_model :: "job \<Rightarrow> job_world \<Rightarrow> worker_state \<Rightarrow> (thrown + unit) \<times> worker_state" where
  "choose_model jb w st =
     (if model_key jb = wk_model st then (Inr (), st)
      else case jw_mint w (jb_model jb) of
          Inl e \<Rightarrow> (Inl e, st)
        | Inr vs \<Rightarrow> (Inr (), st\<lparr>wk_env := merge_env (wk_process st) vs, wk_model := model_key jb\<rparr>))"

definition host_for :: "job \<Rightarrow> job_world \<Rightarrow> worker_state \<Rightarrow> (thrown + nat) \<times> worker_state" where
  "host_for jb w st =
     (case acquire_host (jw_make w (wk_env st) (jb_skill jb)) (jw_restore w) (jb_conversation jb) (job_signature jb)
             (materialize_history_images (jw_load w) (jb_history jb)) (wk_registry st) of
        (r, g) \<Rightarrow> (r, st\<lparr>wk_registry := g,
           wk_hosts := wk_hosts st @ (if rg_made g = rg_made (wk_registry st) then [] else [(rg_made (wk_registry st), wk_env st)]),
           wk_runs := wk_runs st @ (case r of Inl e \<Rightarrow> [] | Inr h \<Rightarrow> [(jb, h)])\<rparr>))"

definition job_input :: "job \<Rightarrow> nat \<Rightarrow> jsstring" where
  "job_input jb dropped = (if dropped > 0 then append_image_note (jb_content jb) dropped else jb_content jb)"

definition post_all :: "job \<Rightarrow> post list \<Rightarrow> worker_state \<Rightarrow> worker_state" where
  "post_all jb ps st = st\<lparr>wk_posts := wk_posts st @ map (Pair (jb_id jb)) ps\<rparr>"

text \<open>The body of the \<open>try\<close> block.\<close>

definition answer_job :: "job \<Rightarrow> job_world \<Rightarrow> worker_state \<Rightarrow> ((thrown + unit) \<times> worker_state) option" where
  "answer_job jb w st =
     (case choose_model jb w st of
        (Inl e, st1) \<Rightarrow> Some (Inl e, st1)
      | (Inr _, st1) \<Rightarrow>
        (case host_for jb w st1 of
           (Inl e, st2) \<Rightarrow> Some (Inl e, st2)
         | (Inr h, st2) \<Rightarrow>
           (case materialize_workspace_image_parts (jw_load w) (jb_images jb) of
              (images, dropped) \<Rightarrow>
                (case run_turn (jw_turn w h (job_input jb dropped) images) of
                   None \<Rightarrow> None
                 | Some (Inl e, tn) \<Rightarrow> Some (Inl e, post_all jb (tn_posts tn) st2)
                 | Some (Inr ry, tn) \<Rightarrow>
                     (case jw_post w of
                        Some e \<Rightarrow> Some (Inl e, post_all jb (tn_posts tn) st2)
                      | None \<Rightarrow> Some (Inr (), post_all jb (tn_posts tn @ [PostReply ry]) st2))))))"

definition failed_reply :: "thrown \<Rightarrow> turn_reply" where
  "failed_reply e = \<lparr>ry_content = [], ry_status = ReplyFailed, ry_error = Some (err_text e), ry_parts = None, ry_usage = None,
     ry_context = None\<rparr>"

text \<open>One claimed job; an error of the result is what leaves the loop.\<close>

definition do_job :: "job \<Rightarrow> job_world \<Rightarrow> worker_state \<Rightarrow> ((thrown + unit) \<times> worker_state) option" where
  "do_job jb w st =
     (case answer_job jb w st of
        None \<Rightarrow> None
      | Some (Inr _, st1) \<Rightarrow> Some (Inr (), st1)
      | Some (Inl e, st1) \<Rightarrow>
          if jw_lost w then Some (Inr (), st1)
          else (case jw_post_failed w of
              Some e2 \<Rightarrow> Some (Inl e2, st1)
            | None \<Rightarrow> Some (Inr (), post_all jb [PostReply (failed_reply e)] st1)))"

definition leave_loop :: "thrown option \<Rightarrow> worker_state \<Rightarrow> (thrown option \<times> worker_state) option" where
  "leave_loop e st = Some (e, st\<lparr>wk_registry := close_registry (wk_registry st)\<rparr>)"

fun job_loop :: "loop_event list \<Rightarrow> worker_state \<Rightarrow> (thrown option \<times> worker_state) option" where
  "job_loop [] st = None"
| "job_loop (LoopStopped # es) st = leave_loop None st"
| "job_loop (NoJob # es) st = leave_loop None st"
| "job_loop (ClaimFails e # es) st = leave_loop (Some e) st"
| "job_loop (Claims jb w # es) st =
     (case do_job jb w st of
        None \<Rightarrow> None
      | Some (Inl e, st1) \<Rightarrow> leave_loop (Some e) st1
      | Some (Inr _, st1) \<Rightarrow> job_loop es st1)"

text \<open>The loop starts with the default environment, or that of the process when it cannot be minted.\<close>

definition run_agent_loop :: "variables \<Rightarrow> thrown + variables \<Rightarrow> loop_event list \<Rightarrow> (thrown option \<times> worker_state) option" where
  "run_agent_loop process minted es = job_loop es
     \<lparr>wk_process = process, wk_env = (case minted of Inl e \<Rightarrow> process | Inr vs \<Rightarrow> merge_env process vs), wk_model = [],
      wk_registry = new_registry, wk_hosts = [], wk_runs = [], wk_posts = []\<rparr>"

section \<open>Heartbeats\<close>

text \<open>One round of the heartbeats: the job that was active when it was sent, the answer (whether to sleep, whether the
  lease is valid, the interval), and the active job and the number of jobs in flight when the answer came.\<close>

record beat_round =
  br_stopped :: bool
  br_asked :: "jsstring option"
  br_answer :: "thrown + (bool \<times> bool \<times> int)"
  br_active :: "jsstring option"
  br_in_flight :: nat
  br_sleep_fails :: "thrown option"

datatype beat_action = Asked "jsstring option" | AbortsJob jsstring | Waits int | FallsAsleep nat

definition lost_lease :: "beat_round \<Rightarrow> bool \<Rightarrow> beat_action list" where
  "lost_lease r valid = (case br_active r of Some j \<Rightarrow> if valid then [] else [AbortsJob j] | None \<Rightarrow> [])"

fun heartbeats :: "beat_round list \<Rightarrow> (thrown option \<times> beat_action list) option" where
  "heartbeats [] = None"
| "heartbeats (r # rs) =
     (if br_stopped r then Some (None, [])
      else case br_answer r of
          Inl e \<Rightarrow> map_option (\<lambda>(x, as). (x, Asked (br_asked r) # Waits 1000 # as)) (heartbeats rs)
        | Inr (asleep, valid, interval) \<Rightarrow>
            if asleep \<and> \<not> 0 < br_in_flight r
            then Some (br_sleep_fails r, Asked (br_asked r) # lost_lease r valid @ [FallsAsleep (br_in_flight r)])
            else map_option (\<lambda>(x, as). (x, Asked (br_asked r) # lost_lease r valid @ Waits interval # as)) (heartbeats rs))"

end
