(* ===== verification/Worker_Laws.thy ===== *)
theory Worker_Laws
  imports Worker_Turn Run_Laws "HOL-Library.Sublist"
begin

text \<open>
  Laws of the worker: the parts of a reply are the streamed text and one part for each tool call, a call is
  reported as done only when its result was streamed, what the runtime yields decides the reply, every
  claimed job gets one final reply, and every host is closed once.
\<close>

section \<open>Parts\<close>

fun part_text :: "message_part \<Rightarrow> jsstring" where
  "part_text (TextPart t) = t"
| "part_text _ = []"

fun part_tools :: "message_part \<Rightarrow> jsstring list" where
  "part_tools (ToolPart p) = [tp_id p]"
| "part_tools _ = []"

definition texts :: "message_part list \<Rightarrow> jsstring" where
  "texts ps = concat (map part_text ps)"

definition part_ids :: "message_part list \<Rightarrow> jsstring list" where
  "part_ids ps = concat (map part_tools ps)"

lemma parts_simps [simp]:
  "texts [] = []" "texts (p # ps) = part_text p @ texts ps" "texts (ps @ qs) = texts ps @ texts qs"
  "part_ids [] = []" "part_ids (p # ps) = part_tools p @ part_ids ps" "part_ids (ps @ qs) = part_ids ps @ part_ids qs"
  by (simp_all add: texts_def part_ids_def)

lemma change_tool_keeps:
  assumes "change_tool i f ps = Some ps'" "\<And>p. tp_id (f p) = tp_id p"
  shows "texts ps' = texts ps \<and> part_ids ps' = part_ids ps \<and> i \<in> set (part_ids ps)"
  using assms(1)
proof (induction ps arbitrary: ps')
  case (Cons p ps)
  then show ?case using assms(2) by (cases p) (auto split: if_splits)
qed simp

lemma change_tool_none: "change_tool i f ps = None \<longleftrightarrow> i \<notin> set (part_ids ps)"
proof (induction ps)
  case (Cons p ps)
  then show ?case by (cases p) auto
qed simp

lemma split_last: "ps \<noteq> [] \<Longrightarrow> last ps = p \<Longrightarrow> ps = butlast ps @ [p]"
  by (metis append_butlast_last_id)

lemma append_text_parts [simp]: "texts (append_text t ps) = texts ps @ t" "part_ids (append_text t ps) = part_ids ps"
proof -
  have "texts (append_text t ps) = texts ps @ t \<and> part_ids (append_text t ps) = part_ids ps"
  proof (cases "ps \<noteq> [] \<and> (\<exists>x. last ps = TextPart x)")
    case True
    then obtain x where x: "ps = butlast ps @ [TextPart x]" "ps \<noteq> []" "last ps = TextPart x" using split_last by metis
    have "append_text t ps = butlast ps @ [TextPart (x @ t)]" using x(2,3) by (simp add: append_text_def)
    moreover have "texts ps = texts (butlast ps) @ x" "part_ids ps = part_ids (butlast ps)" by (subst x(1), simp)+
    ultimately show ?thesis by simp
  next
    case False
    then have "append_text t ps = ps @ [TextPart t]" by (auto simp: append_text_def split: message_part.split)
    then show ?thesis by simp
  qed
  then show "texts (append_text t ps) = texts ps @ t" "part_ids (append_text t ps) = part_ids ps" by simp_all
qed

lemma append_reasoning_parts [simp]: "texts (append_reasoning t ps) = texts ps" "part_ids (append_reasoning t ps) = part_ids ps"
proof -
  have "texts (append_reasoning t ps) = texts ps \<and> part_ids (append_reasoning t ps) = part_ids ps"
  proof (cases "ps \<noteq> [] \<and> (\<exists>x. last ps = ReasoningPart x)")
    case True
    then obtain x where x: "ps = butlast ps @ [ReasoningPart x]" "ps \<noteq> []" "last ps = ReasoningPart x" using split_last by metis
    have "append_reasoning t ps = butlast ps @ [ReasoningPart (x @ t)]" using x(2,3) by (simp add: append_reasoning_def)
    moreover have "texts ps = texts (butlast ps)" "part_ids ps = part_ids (butlast ps)" by (subst x(1), simp)+
    ultimately show ?thesis by simp
  next
    case False
    then have "append_reasoning t ps = ps @ [ReasoningPart t]" by (auto simp: append_reasoning_def split: message_part.split)
    then show ?thesis by simp
  qed
  then show "texts (append_reasoning t ps) = texts ps" "part_ids (append_reasoning t ps) = part_ids ps" by simp_all
qed

definition add_id :: "jsstring \<Rightarrow> jsstring list \<Rightarrow> jsstring list" where
  "add_id i is = (if i \<in> set is then is else is @ [i])"

lemma distinct_add_id: "distinct is \<Longrightarrow> distinct (add_id i is)"
  by (simp add: add_id_def)

lemma upsert_parts [simp]: "texts (upsert_tool i n v s ps) = texts ps" "part_ids (upsert_tool i n v s ps) = add_id i (part_ids ps)"
  using change_tool_keeps[of i "\<lambda>p. p\<lparr>tp_name := n, tp_status := s\<rparr>" ps] change_tool_none[of i _ ps]
  by (auto simp: upsert_tool_def add_id_def split: option.split)

lemma complete_parts [simp]: "texts (complete_tool i n r ok ps) = texts ps" "part_ids (complete_tool i n r ok ps) = add_id i (part_ids ps)"
  using change_tool_keeps[of i "\<lambda>p. p\<lparr>tp_name := n, tp_result := Some r, tp_status := (if ok then PartDone else PartFailed)\<rparr>" ps]
    change_tool_none[of i _ ps]
  by (auto simp: complete_tool_def Let_def add_id_def split: option.split)

lemma marked_parts [simp]: "texts (mark_tool_approval i a ps) = texts ps" "part_ids (mark_tool_approval i a ps) = part_ids ps"
  using change_tool_keeps[of i "\<lambda>p. p\<lparr>tp_status := PartAsked, tp_approval := Some a\<rparr>" ps]
  by (auto simp: mark_tool_approval_def split: option.split)

lemma resolved_parts [simp]: "texts (mark_approval_resolved i ok ps) = texts ps" "part_ids (mark_approval_resolved i ok ps) = part_ids ps"
  using change_tool_keeps[of i "resolve_part ok" ps]
  by (auto simp: mark_approval_resolved_def resolve_part_def split: option.splits)

fun posted_text :: "post \<Rightarrow> jsstring" where
  "posted_text (PostEvent (EvText t)) = t"
| "posted_text _ = []"

fun final_post :: "post \<Rightarrow> bool" where
  "final_post (PostReply ry) \<longleftrightarrow> ry_status ry \<noteq> ReplyProcessing"
| "final_post (PostEvent e) \<longleftrightarrow> False"

definition turn_inv :: "turn_state \<Rightarrow> bool" where
  [inv_defs]: "turn_inv st \<longleftrightarrow> texts (tn_parts st) = tn_text st \<and> concat (map posted_text (tn_posts st)) = tn_text st
     \<and> distinct (part_ids (tn_parts st)) \<and> list_all (\<lambda>p. \<not> final_post p) (tn_posts st)"

lemma new_turn_inv: "turn_inv new_turn"
  by (simp add: turn_inv_def new_turn_def)

lemma consume_event_inv: "turn_inv st \<Longrightarrow> turn_inv (consume_event e st)"
  by (cases e) (auto simp: consume_event_def post_event_def turn_inv_def Let_def distinct_add_id)

lemma consume_events_inv: "turn_inv st \<Longrightarrow> turn_inv (fold consume_event es st)"
  by (induction es arbitrary: st) (auto simp: consume_event_inv)

section \<open>A call is done when its result was streamed\<close>

fun streamed_id :: "stream_event \<Rightarrow> jsstring list" where
  "streamed_id (CallAnswered i n t) = [i]"
| "streamed_id _ = []"

definition streamed_ids :: "stream_event list \<Rightarrow> jsstring list" where
  "streamed_ids es = concat (map streamed_id es)"

fun part_fine :: "jsstring list \<Rightarrow> message_part \<Rightarrow> bool" where
  "part_fine is (ToolPart p) = (if tp_status p = PartDone then tp_id p \<in> set is else tp_status p \<noteq> PartFailed)"
| "part_fine is _ = True"

lemma part_fine_mono: "set is \<subseteq> set ks \<Longrightarrow> part_fine is p \<Longrightarrow> part_fine ks p"
  by (cases p) (auto split: if_splits)

lemma parts_fine_mono: "set is \<subseteq> set ks \<Longrightarrow> list_all (part_fine is) ps \<Longrightarrow> list_all (part_fine ks) ps"
  using part_fine_mono by (auto simp: list_all_iff)

lemma change_tool_fine:
  assumes "change_tool i f ps = Some ps'" "list_all (part_fine is) ps"
    and "\<And>p. tp_id p = i \<Longrightarrow> part_fine is (ToolPart p) \<Longrightarrow> part_fine is (ToolPart (f p))"
  shows "list_all (part_fine is) ps'"
  using assms(1,2)
proof (induction ps arbitrary: ps')
  case (Cons p ps)
  then show ?case
  proof (cases p)
    case (ToolPart q)
    then show ?thesis using Cons assms(3)[of q] by (cases "tp_id q = i") (auto simp del: part_fine.simps(1))
  qed auto
qed simp

lemma append_text_fine: "list_all (part_fine is) ps \<Longrightarrow> list_all (part_fine is) (append_text t ps)"
  by (auto simp: append_text_def list_all_iff dest: in_set_butlastD split: message_part.split)

lemma append_reasoning_fine: "list_all (part_fine is) ps \<Longrightarrow> list_all (part_fine is) (append_reasoning t ps)"
  by (auto simp: append_reasoning_def list_all_iff dest: in_set_butlastD split: message_part.split)

lemma upsert_fine: "list_all (part_fine is) ps \<Longrightarrow> list_all (part_fine is) (upsert_tool i n v PartRunning ps)"
  using change_tool_fine[of i "\<lambda>p. p\<lparr>tp_name := n, tp_status := PartRunning\<rparr>" ps _ "is"]
  by (auto simp: upsert_tool_def split: option.split)

lemma complete_fine: "list_all (part_fine is) ps \<Longrightarrow> i \<in> set is \<Longrightarrow> list_all (part_fine is) (complete_tool i n r True ps)"
  using change_tool_fine[of i "\<lambda>p. p\<lparr>tp_name := n, tp_result := Some r, tp_status := PartDone\<rparr>" ps _ "is"]
  by (auto simp: complete_tool_def split: option.split)

lemma marked_fine: "list_all (part_fine is) ps \<Longrightarrow> list_all (part_fine is) (mark_tool_approval i a ps)"
  using change_tool_fine[of i "\<lambda>p. p\<lparr>tp_status := PartAsked, tp_approval := Some a\<rparr>" ps _ "is"]
  by (auto simp: mark_tool_approval_def split: option.split)

lemma resolved_fine: "list_all (part_fine is) ps \<Longrightarrow> list_all (part_fine is) (mark_approval_resolved i ok ps)"
proof -
  have "part_fine is (ToolPart (resolve_part ok p))" if "part_fine is (ToolPart p)" for p
    using that by (cases "tp_approval p") (simp_all add: resolve_part_def)
  then show "list_all (part_fine is) ps \<Longrightarrow> list_all (part_fine is) (mark_approval_resolved i ok ps)"
    using change_tool_fine[of i "resolve_part ok" ps _ "is"] by (simp add: mark_approval_resolved_def del: part_fine.simps split: option.split)
qed

lemma consume_event_fine:
  assumes "list_all (part_fine is) (tn_parts st)"
  shows "list_all (part_fine (is @ streamed_id e)) (tn_parts (consume_event e st))"
proof -
  have "list_all (part_fine (is @ streamed_id e)) (tn_parts st)" by (rule parts_fine_mono[OF _ assms]) simp
  then show ?thesis
    by (cases e) (auto simp: consume_event_def post_event_def Let_def answer_ok_def
      intro!: append_text_fine append_reasoning_fine upsert_fine complete_fine)
qed

lemma consume_events_fine:
  "list_all (part_fine is) (tn_parts st) \<Longrightarrow> list_all (part_fine (is @ streamed_ids es)) (tn_parts (fold consume_event es st))"
proof (induction es arbitrary: st "is")
  case (Cons e es)
  from Cons.IH[OF consume_event_fine[OF Cons.prems]] show ?case by (simp add: streamed_ids_def)
qed (simp add: streamed_ids_def)

section \<open>The turn\<close>

definition turn_events :: "turn_env \<Rightarrow> stream_event list" where
  "turn_events env = sf_events (te_first env) @ concat (map (sf_events \<circ> rs_stream) (te_rest env))"

definition turn_good :: "jsstring list \<Rightarrow> (thrown + turn_reply) \<times> turn_state \<Rightarrow> bool" where
  "turn_good is x \<longleftrightarrow> turn_inv (snd x) \<and> list_all (part_fine is) (tn_parts (snd x))
     \<and> (case fst x of Inl e \<Rightarrow> True
        | Inr ry \<Rightarrow> ry_status ry \<noteq> ReplyProcessing \<and> ry_parts ry = Some (tn_parts (snd x)))"

lemma ask_user_good: "turn_inv st \<Longrightarrow> turn_inv (ask_user r p st)" "list_all (part_fine is) (tn_parts st) \<Longrightarrow> list_all (part_fine is) (tn_parts (ask_user r p st))"
  by (simp_all add: ask_user_def turn_inv_def marked_fine)

lemma decision_good: "turn_inv st \<Longrightarrow> turn_inv (take_decision p ok st)" "list_all (part_fine is) (tn_parts st) \<Longrightarrow> list_all (part_fine is) (tn_parts (take_decision p ok st))"
  by (simp_all add: take_decision_def turn_inv_def resolved_fine)

lemma processing_good: "turn_inv st \<Longrightarrow> turn_inv (st\<lparr>tn_posts := tn_posts st @ [PostReply (processing_reply st)]\<rparr>)"
  by (simp add: turn_inv_def processing_reply_def)

lemma outcome_good:
  "ry_status (turn_outcome env res st) \<noteq> ReplyProcessing" "ry_parts (turn_outcome env res st) = Some (tn_parts st)"
  "ry_status (no_details_reply st) \<noteq> ReplyProcessing" "ry_parts (no_details_reply st) = Some (tn_parts st)"
  by (simp_all add: turn_outcome_def no_details_reply_def Let_def split: option.split)

lemma turn_good_mono: "set is \<subseteq> set ks \<Longrightarrow> turn_good is x \<Longrightarrow> turn_good ks x"
  using parts_fine_mono by (auto simp: turn_good_def)

lemma thrown_good: "turn_inv st \<Longrightarrow> list_all (part_fine is) (tn_parts st) \<Longrightarrow> set is \<subseteq> set ks \<Longrightarrow> turn_good ks (Inl e, st)"
  by (simp add: turn_good_def) (rule parts_fine_mono)

lemma replied_good: "turn_inv st \<Longrightarrow> list_all (part_fine is) (tn_parts st) \<Longrightarrow> set is \<subseteq> set ks
    \<Longrightarrow> turn_good ks (Inr (turn_outcome env res st), st) \<and> turn_good ks (Inr (no_details_reply st), st)"
  by (simp add: turn_good_def outcome_good) (rule parts_fine_mono)

lemma consume_good:
  assumes "turn_inv st" "list_all (part_fine is) (tn_parts st)" "consume s st = (r, st')"
  shows "turn_inv st' \<and> list_all (part_fine (is @ streamed_ids (sf_events s))) (tn_parts st')"
  using assms consume_events_inv consume_events_fine by (auto simp: consume_def)

lemma approval_rounds_good:
  assumes "approval_rounds env rs res st = Some x" "turn_inv st" "list_all (part_fine is) (tn_parts st)"
  shows "turn_good (is @ streamed_ids (concat (map (sf_events \<circ> rs_stream) rs))) x"
  using assms
proof (induction env rs res st arbitrary: "is" rule: approval_rounds.induct)
  case (1 env rs st)
  have "x = (Inr (turn_outcome env None st), st)" using 1(1) by simp
  then show ?case using replied_good[OF 1(2,3), THEN conjunct1] by auto
next
  case (2 env rs r st)
  let ?js = "is @ streamed_ids (concat (map (sf_events \<circ> rs_stream) rs))"
  have sub: "set is \<subseteq> set ?js" by simp
  show ?case
  proof (cases "ar_status r = js ''approval-required'' \<and> ar_pending r \<noteq> None")
    case False
    then have "x = (Inr (turn_outcome env (Some r) st), st) \<or> x = (Inr (no_details_reply st), st)"
      using 2(2) by (auto split: if_splits)
    then show ?thesis using replied_good[OF 2(3,4) sub] by blast
  next
    case True
    then obtain p where p: "ar_status r = js ''approval-required''" "ar_pending r = Some p" by blast
    obtain x' xs where rs: "rs = x' # xs" using 2(2) p by (cases rs) auto
    define st1 where "st1 = ask_user r p st"
    define st2 where "st2 = st1\<lparr>tn_posts := tn_posts st1 @ [PostReply (processing_reply st1)]\<rparr>"
    have s1: "turn_inv st1" "list_all (part_fine is) (tn_parts st1)" using ask_user_good 2(3,4) by (simp_all add: st1_def)
    have s2: "turn_inv st2" "list_all (part_fine is) (tn_parts st2)" using processing_good[OF s1(1)] s1(2) by (simp_all add: st2_def)
    consider (post) e where "x = (Inl e, st1)" | (decision) e where "x = (Inl e, st2)"
      | (stream) ok why e st3 where "rs_post x' = None" "rs_decision x' = Inr (ok, why)"
          "consume (rs_stream x') (take_decision p ok st2) = (Inl e, st3)" "x = (Inl e, st3)"
      | (goes_on) ok why res st3 where "rs_post x' = None" "rs_decision x' = Inr (ok, why)"
          "consume (rs_stream x') (take_decision p ok st2) = (Inr res, st3)" "approval_rounds env xs res st3 = Some x"
      using 2(2) p rs by (auto simp: Let_def st1_def st2_def split: option.splits sum.splits prod.splits)
    then show ?thesis
    proof cases
      case post
      show ?thesis unfolding post by (rule thrown_good[OF s1 sub])
    next
      case decision
      show ?thesis unfolding decision by (rule thrown_good[OF s2 sub])
    next
      case (stream ok why e st3)
      note s3 = consume_good[OF decision_good(1)[OF s2(1)] decision_good(2)[OF s2(2)] stream(3)]
      have "set (is @ streamed_ids (sf_events (rs_stream x'))) \<subseteq> set ?js" by (auto simp: rs streamed_ids_def)
      then show ?thesis unfolding stream(4) by (rule thrown_good[OF s3[THEN conjunct1] s3[THEN conjunct2]])
    next
      case (goes_on ok why res st3)
      note s3 = consume_good[OF decision_good(1)[OF s2(1)] decision_good(2)[OF s2(2)] goes_on(3)]
      have c: "(Inr res, st3) = consume (rs_stream x') (take_decision p ok ((ask_user r p st)
          \<lparr>tn_posts := tn_posts (ask_user r p st) @ [PostReply (processing_reply (ask_user r p st))]\<rparr>))"
        using goes_on(3) by (simp add: st1_def st2_def)
      have "turn_good ((is @ streamed_ids (sf_events (rs_stream x'))) @ streamed_ids (concat (map (sf_events \<circ> rs_stream) xs))) x"
        by (rule 2(1)[OF _ p(2) rs refl refl goes_on(1) goes_on(2) refl c refl goes_on(4) s3[THEN conjunct1] s3[THEN conjunct2]]) (simp add: p(1))
      then show ?thesis using rs by (simp add: streamed_ids_def comp_def)
    qed
  qed
qed

lemma run_turn_good:
  assumes "run_turn env = Some x"
  shows "turn_good (streamed_ids (turn_events env)) x"
proof -
  obtain r st where c: "consume (te_first env) new_turn = (r, st)" by fastforce
  have s: "turn_inv st" "list_all (part_fine ([] @ streamed_ids (sf_events (te_first env)))) (tn_parts st)"
    using consume_good[OF new_turn_inv _ c, of "[]"] by (simp_all add: new_turn_def)
  show ?thesis
  proof (cases r)
    case (Inl e)
    then have "x = (Inl e, st)" using assms c by (simp add: run_turn_def)
    then show ?thesis using s parts_fine_mono[OF _ s(2)] by (simp add: turn_good_def turn_events_def streamed_ids_def)
  next
    case (Inr res)
    then have "approval_rounds env (te_rest env) res st = Some x" using assms c by (simp add: run_turn_def)
    from approval_rounds_good[OF this s] show ?thesis by (simp add: turn_events_def streamed_ids_def)
  qed
qed

section \<open>The runtime decides the reply\<close>

text \<open>The stream a run gives to who consumes it.\<close>

definition feed_of :: "(thrown + agent_result) \<times> loop_state \<Rightarrow> stream_feed" where
  "feed_of x = \<lparr>sf_events = ls_out (snd x), sf_end = (case fst x of Inl e \<Rightarrow> Some e | Inr r \<Rightarrow> None)\<rparr>"

lemma stream_result_last: "list_all (\<lambda>e. \<not> is_result e) es \<Longrightarrow> stream_result (es @ [FinalResult a]) r = Some a"
proof (induction es arbitrary: r)
  case (Cons e es)
  then show ?case by (cases e) auto
qed simp

lemma fed_turn:
  assumes "ls_out st' = out @ [FinalResult r]" "list_all (\<lambda>e. \<not> is_result e) out"
  shows "run_turn (env\<lparr>te_first := feed_of (Inr r, st')\<rparr>)
    = approval_rounds (env\<lparr>te_first := feed_of (Inr r, st')\<rparr>) (te_rest env) (Some r) (fold consume_event (ls_out st') new_turn)"
  using stream_result_last[OF assms(2)] assms(1) by (simp add: run_turn_def consume_def feed_of_def)

fun delta_text :: "stream_event \<Rightarrow> jsstring" where
  "delta_text (TextDelta t) = t"
| "delta_text _ = []"

lemma consumed_text: "tn_text (fold consume_event es st) = tn_text st @ concat (map delta_text es)"
  by (induction es arbitrary: st) (simp_all add: consume_event_def post_event_def Let_def split: stream_event.split)

section \<open>Jobs are answered once\<close>

definition final_ids :: "worker_state \<Rightarrow> jsstring list" where
  "final_ids st = map fst (filter (final_post \<circ> snd) (wk_posts st))"

lemma final_post_all: "final_ids (post_all jb ps st) = final_ids st @ map (\<lambda>p. jb_id jb) (filter final_post ps)"
  by (simp add: final_ids_def post_all_def filter_map comp_def)

lemma turn_posts_final:
  assumes "run_turn env = Some (r, tn)"
  shows "filter final_post (tn_posts tn) = []" "r = Inr ry \<Longrightarrow> final_post (PostReply ry)"
  using run_turn_good[OF assms] by (auto simp: turn_good_def turn_inv_def filter_empty_conv list_all_iff)

lemma choose_model_posts: "choose_model jb w st = (r, st') \<Longrightarrow> wk_posts st' = wk_posts st \<and> wk_registry st' = wk_registry st \<and> wk_hosts st' = wk_hosts st \<and> wk_process st' = wk_process st"
  by (auto simp: choose_model_def split: if_splits sum.splits)

lemma host_for_posts: "host_for jb w st = (r, st') \<Longrightarrow> wk_posts st' = wk_posts st"
  by (auto simp: host_for_def split: prod.splits)

lemma final_ids_cong: "wk_posts st' = wk_posts st \<Longrightarrow> final_ids st' = final_ids st"
  by (simp add: final_ids_def)

lemma answer_job_final:
  assumes "answer_job jb w st = Some (r, st')"
  shows "final_ids st' = final_ids st @ (case r of Inl e \<Rightarrow> [] | Inr _ \<Rightarrow> [jb_id jb])"
proof -
  obtain r1 st1 where c: "choose_model jb w st = (r1, st1)" by fastforce
  obtain r2 st2 where h: "host_for jb w st1 = (r2, st2)" by fastforce
  have f1: "final_ids st1 = final_ids st" using choose_model_posts[OF c] by (intro final_ids_cong) simp
  have f2: "final_ids st2 = final_ids st" using f1 final_ids_cong[OF host_for_posts[OF h]] by simp
  obtain images dropped where m: "materialize_workspace_image_parts (jw_load w) (jb_images jb) = (images, dropped)" by fastforce
  show ?thesis
  proof (cases r1)
    case (Inl e)
    then show ?thesis using assms c f1 by (auto simp: answer_job_def)
  next
    case r1: Inr
    show ?thesis
    proof (cases r2)
      case (Inl e)
      then show ?thesis using assms c h r1 f2 by (auto simp: answer_job_def)
    next
      case (Inr n)
      let ?env = "jw_turn w n (job_input jb dropped) images"
      obtain x tn where t: "run_turn ?env = Some (x, tn)"
        using assms c h m r1 Inr by (auto simp: answer_job_def split: option.splits)
      note fin = turn_posts_final[OF t]
      show ?thesis
      proof (cases x)
        case (Inl e)
        then show ?thesis using assms c h m r1 Inr t f2 fin(1) by (auto simp: answer_job_def final_post_all)
      next
        case ry: (Inr ry)
        then show ?thesis using assms c h m r1 Inr t f2 fin(1) fin(2)[OF ry]
          by (auto simp: answer_job_def final_post_all split: option.splits simp del: final_post.simps)
      qed
    qed
  qed
qed

lemma do_job_final:
  assumes "do_job jb w st = Some (r, st')"
  shows "final_ids st' = final_ids st @ [jb_id jb] \<and> (case r of Inl e \<Rightarrow> False | Inr _ \<Rightarrow> True)
    \<or> final_ids st' = final_ids st \<and> (jw_lost w \<or> (case r of Inl e \<Rightarrow> True | Inr _ \<Rightarrow> False))"
proof -
  obtain x st1 where a: "answer_job jb w st = Some (x, st1)" using assms by (auto simp: do_job_def split: option.splits)
  note f = answer_job_final[OF a]
  show ?thesis using assms a f
    by (cases x) (auto simp: do_job_def final_post_all failed_reply_def split: if_splits option.splits)
qed

fun claimed_ids :: "loop_event list \<Rightarrow> jsstring list" where
  "claimed_ids (Claims jb w # es) = jb_id jb # claimed_ids es"
| "claimed_ids _ = []"

fun some_lost :: "loop_event list \<Rightarrow> bool" where
  "some_lost (Claims jb w # es) \<longleftrightarrow> jw_lost w \<or> some_lost es"
| "some_lost _ \<longleftrightarrow> False"

lemma leave_final: "leave_loop e st = Some (x, st') \<Longrightarrow> final_ids st' = final_ids st \<and> x = e"
  by (auto simp: leave_loop_def final_ids_def)

lemma job_loop_final:
  assumes "job_loop es st = Some (x, st')"
  shows "\<exists>is. final_ids st' = final_ids st @ is \<and> subseq is (claimed_ids es)
    \<and> (x = None \<and> \<not> some_lost es \<longrightarrow> is = claimed_ids es)"
  using assms
proof (induction es st rule: job_loop.induct)
  case (5 jb w es st)
  obtain r st1 where d: "do_job jb w st = Some (r, st1)" using 5(2) by (auto split: option.splits)
  show ?case
  proof (cases r)
    case (Inl e)
    then have l: "leave_loop (Some e) st1 = Some (x, st')" using 5(2) d by simp
    have "final_ids st' = final_ids st" using leave_final[OF l] do_job_final[OF d] Inl by auto
    then show ?thesis using leave_final[OF l] by (intro exI[of _ "[]"]) simp
  next
    case (Inr u)
    then have "job_loop es st1 = Some (x, st')" using 5(2) d by simp
    from 5(1)[OF d _ _ this] Inr obtain js where js: "final_ids st' = final_ids st1 @ js" "subseq js (claimed_ids es)"
      "x = None \<and> \<not> some_lost es \<longrightarrow> js = claimed_ids es" by auto
    from do_job_final[OF d] Inr consider "final_ids st1 = final_ids st @ [jb_id jb]" | "final_ids st1 = final_ids st" "jw_lost w" by auto
    then show ?thesis
    proof cases
      case 1
      then show ?thesis using js by (intro exI[of _ "jb_id jb # js"]) auto
    next
      case 2
      then show ?thesis using js by (intro exI[of _ js]) auto
    qed
  qed
qed (auto dest: leave_final)

section \<open>Hosts are closed once\<close>

definition held :: "registry \<Rightarrow> nat list" where
  "held g = (case rg_current g of None \<Rightarrow> [] | Some (c, s, h) \<Rightarrow> [h])"

text \<open>The hosts made so far are closed, or one of them is the current one.\<close>

definition registry_inv :: "registry \<Rightarrow> bool" where
  [inv_defs]: "registry_inv g \<longleftrightarrow> distinct (rg_closed g @ held g) \<and> set (rg_closed g @ held g) = {..<rg_made g}"

lemma new_registry_inv: "registry_inv new_registry"
  by (simp add: registry_inv_def new_registry_def held_def)

lemma acquire_inv:
  assumes "registry_inv g" "acquire_host broken restore conv sig hs g = (r, g')"
  shows "registry_inv g' \<and> (case r of Inl e \<Rightarrow> True | Inr h \<Rightarrow> held g' = [h]) \<and> rg_made g \<le> rg_made g' \<and> rg_made g' \<le> Suc (rg_made g)"
proof (cases "held_host conv sig g")
  case (Some h)
  then show ?thesis using assms by (auto simp: acquire_host_def held_host_def held_def split: option.splits if_splits)
next
  case None
  have new: "rg_made g \<notin> set (rg_closed g @ held g)" using assms(1) by (auto simp: registry_inv_def)
  have less: "set (rg_closed g) \<union> set (held g) = {..<rg_made g}" using assms(1) by (simp add: registry_inv_def)
  show ?thesis
  proof (cases "broken = None \<and> restore (normalize_history hs) = None")
    case True
    then have g': "g' = retire_host (rg_current g) (g\<lparr>rg_made := Suc (rg_made g), rg_current := Some (conv, sig, rg_made g)\<rparr>)" "r = Inr (rg_made g)"
      using assms(2) None by (auto simp: acquire_host_def Let_def)
    then have "rg_closed g' = rg_closed g @ held g" "held g' = [rg_made g]" "rg_made g' = Suc (rg_made g)"
      by (auto simp: retire_host_def held_def split: option.splits prod.splits)
    then show ?thesis using assms(1) new less g'(2) by (auto simp: registry_inv_def lessThan_Suc)
  next
    case False
    then have "g' = g \<and> (\<exists>e. r = Inl e) \<or> g' = g\<lparr>rg_made := Suc (rg_made g), rg_closed := rg_closed g @ [rg_made g]\<rparr> \<and> (\<exists>e. r = Inl e)"
      using assms(2) None by (auto simp: acquire_host_def Let_def split: option.splits)
    moreover have "held (g\<lparr>rg_made := k, rg_closed := cl\<rparr>) = held g" for k cl by (simp add: held_def)
    moreover have "x < Suc (rg_made g)" if "x \<in> set (rg_closed g) \<or> x \<in> set (held g)" for x using less that by (auto simp: less_Suc_eq)
    ultimately show ?thesis using assms(1) new less by (auto simp: registry_inv_def)
  qed
qed

lemma close_registry_all:
  assumes "registry_inv g"
  shows "distinct (rg_closed (close_registry g)) \<and> set (rg_closed (close_registry g)) = {..<rg_made (close_registry g)}"
proof -
  have "rg_closed (close_registry g) = rg_closed g @ held g" "rg_made (close_registry g) = rg_made g"
    by (auto simp: close_registry_def retire_host_def held_def split: option.split)
  then show ?thesis using assms by (simp add: registry_inv_def)
qed

lemma host_for_registry:
  assumes "host_for jb w st = (r, st')" "registry_inv (wk_registry st)"
  shows "registry_inv (wk_registry st')"
proof -
  obtain r1 g where "acquire_host (jw_make w (wk_env st) (jb_skill jb)) (jw_restore w) (jb_conversation jb) (job_signature jb)
      (materialize_history_images (jw_load w) (jb_history jb)) (wk_registry st) = (r1, g)" by fastforce
  then show ?thesis using acquire_inv[OF assms(2)] assms(1) by (auto simp: host_for_def)
qed

lemma job_registry:
  assumes "answer_job jb w st = Some (r, st')" "registry_inv (wk_registry st)"
  shows "registry_inv (wk_registry st')"
proof -
  obtain r1 st1 where c: "choose_model jb w st = (r1, st1)" by fastforce
  obtain r2 st2 where h: "host_for jb w st1 = (r2, st2)" by fastforce
  have 1: "registry_inv (wk_registry st1)" using choose_model_posts[OF c] assms(2) by simp
  note 2 = host_for_registry[OF h 1]
  obtain images dropped where m: "materialize_workspace_image_parts (jw_load w) (jb_images jb) = (images, dropped)" by fastforce
  have "wk_registry st' = wk_registry st1 \<or> wk_registry st' = wk_registry st2"
  proof (cases "(\<exists>e. r1 = Inl e) \<or> (\<exists>e. r2 = Inl e)")
    case True
    then show ?thesis using assms(1) c h by (cases r1) (auto simp: answer_job_def)
  next
    case False
    then obtain n u where "r1 = Inr u" "r2 = Inr n" by (cases r1; cases r2) auto
    then show ?thesis using assms(1) c h m
      by (auto simp: answer_job_def post_all_def split: option.splits sum.splits prod.splits)
  qed
  then show ?thesis using 1 2 by auto
qed

lemma do_job_registry:
  assumes "do_job jb w st = Some (r, st')" "registry_inv (wk_registry st)"
  shows "registry_inv (wk_registry st')"
proof -
  obtain x st1 where a: "answer_job jb w st = Some (x, st1)" using assms(1) by (auto simp: do_job_def split: option.splits)
  show ?thesis using job_registry[OF a assms(2)] assms(1) a
    by (cases x) (auto simp: do_job_def post_all_def split: if_splits option.splits)
qed

lemma leave_hosts:
  assumes "leave_loop e st = Some (x, st')" "registry_inv (wk_registry st)"
  shows "distinct (rg_closed (wk_registry st')) \<and> set (rg_closed (wk_registry st')) = {..<rg_made (wk_registry st')}"
proof -
  have "wk_registry st' = close_registry (wk_registry st)" using assms(1) by (auto simp: leave_loop_def)
  then show ?thesis using close_registry_all[OF assms(2)] by simp
qed

lemma job_loop_hosts:
  "job_loop es st = Some (x, st') \<Longrightarrow> registry_inv (wk_registry st)
   \<Longrightarrow> distinct (rg_closed (wk_registry st')) \<and> set (rg_closed (wk_registry st')) = {..<rg_made (wk_registry st')}"
proof (induction es st rule: job_loop.induct)
  case (5 jb w es st)
  obtain r st1 where d: "do_job jb w st = Some (r, st1)" using 5(2) by (auto split: option.splits)
  note i = do_job_registry[OF d 5(3)]
  show ?case
  proof (cases r)
    case (Inl e)
    then have "leave_loop (Some e) st1 = Some (x, st')" using 5(2) d by simp
    then show ?thesis using leave_hosts i by blast
  next
    case (Inr u)
    then have l: "job_loop es st1 = Some (x, st')" using 5(2) d by simp
    from 5(1)[OF d refl Inr l i] show ?thesis .
  qed
qed (auto dest: leave_hosts)

section \<open>Every job runs under its own model\<close>

text \<open>The control plane mints one environment for each model; \<open>minted\<close> gives it by key.\<close>

definition mints :: "(jsstring \<Rightarrow> variables) \<Rightarrow> job_world \<Rightarrow> bool" where
  "mints minted w \<longleftrightarrow> (\<forall>m. jw_mint w m = Inr (minted (case m of Some k \<Rightarrow> k | None \<Rightarrow> [])))"

fun claims_fine :: "(jsstring \<Rightarrow> variables) \<Rightarrow> loop_event \<Rightarrow> bool" where
  "claims_fine minted (Claims jb w) \<longleftrightarrow> mints minted w \<and> list_all (\<lambda>c. c \<noteq> 0) (model_key jb)"
| "claims_fine minted _ \<longleftrightarrow> True"

definition runs_fine :: "(jsstring \<Rightarrow> variables) \<Rightarrow> worker_state \<Rightarrow> bool" where
  "runs_fine minted st \<longleftrightarrow> list_all (\<lambda>(jb, h). map_of (wk_hosts st) h = Some (merge_env (wk_process st) (minted (model_key jb)))) (wk_runs st)"

text \<open>The host that is kept was made in the environment of the model of its signature.\<close>

definition current_fine :: "(jsstring \<Rightarrow> variables) \<Rightarrow> worker_state \<Rightarrow> bool" where
  "current_fine minted st \<longleftrightarrow> (\<forall>c s h. rg_current (wk_registry st) = Some (c, s, h)
     \<longrightarrow> (\<exists>jb. s = job_signature jb \<and> list_all (\<lambda>u. u \<noteq> 0) (model_key jb)
        \<and> map_of (wk_hosts st) h = Some (merge_env (wk_process st) (minted (model_key jb)))))"

definition hosts_listed :: "worker_state \<Rightarrow> bool" where
  "hosts_listed st \<longleftrightarrow> map fst (wk_hosts st) = [0..<rg_made (wk_registry st)]"

definition model_inv :: "(jsstring \<Rightarrow> variables) \<Rightarrow> worker_state \<Rightarrow> bool" where
  "model_inv minted st \<longleftrightarrow> wk_env st = merge_env (wk_process st) (minted (wk_model st))
     \<and> hosts_listed st \<and> current_fine minted st \<and> runs_fine minted st"

lemma model_inv_cong:
  assumes "wk_hosts st' = wk_hosts st" "wk_registry st' = wk_registry st" "wk_runs st' = wk_runs st" "wk_process st' = wk_process st"
  shows "hosts_listed st' = hosts_listed st" "current_fine minted st' = current_fine minted st" "runs_fine minted st' = runs_fine minted st"
  unfolding hosts_listed_def current_fine_def runs_fine_def assms by (rule refl)+

lemma signature_key:
  assumes "job_signature a = job_signature b" "list_all (\<lambda>c. c \<noteq> 0) (model_key a)" "list_all (\<lambda>c. c \<noteq> 0) (model_key b)"
  shows "model_key a = model_key b"
proof -
  have t: "takeWhile (\<lambda>c. c \<noteq> 0) (k @ [0] @ r) = k" if "list_all (\<lambda>c. c \<noteq> 0) k" for k r :: jsstring
    using that by (induction k) auto
  obtain ra where ra: "job_signature a = model_key a @ [0] @ ra" unfolding job_signature_def by blast
  obtain rb where rb: "job_signature b = model_key b @ [0] @ rb" unfolding job_signature_def by blast
  show ?thesis using t[OF assms(2), of ra] t[OF assms(3), of rb] assms(1) unfolding ra rb by simp
qed

lemma choose_model_inv:
  assumes "choose_model jb w st = (r, st')" "model_inv minted st" "mints minted w"
  shows "model_inv minted st' \<and> r = Inr () \<and> wk_env st' = merge_env (wk_process st') (minted (model_key jb))"
proof (cases "model_key jb = wk_model st")
  case True
  then show ?thesis using assms by (simp add: choose_model_def model_inv_def)
next
  case False
  have "jw_mint w (jb_model jb) = Inr (minted (model_key jb))" using assms(3) by (simp add: mints_def model_key_def)
  then have st': "r = Inr ()" "st' = st\<lparr>wk_env := merge_env (wk_process st) (minted (model_key jb)), wk_model := model_key jb\<rparr>"
    using assms(1) False by (simp_all add: choose_model_def)
  then show ?thesis using assms(2) model_inv_cong[of st' st] by (simp add: model_inv_def)
qed

lemma map_of_old:
  assumes "map fst hs = [0..<n]" "map_of hs h = Some v"
  shows "map_of (hs @ [(n, e)]) h = Some v"
proof -
  have "h \<in> set (map fst hs)" using map_of_SomeD[OF assms(2)] by force
  then have "h \<noteq> n" unfolding assms(1) by simp
  then show ?thesis using assms(2) by (simp add: map_add_def)
qed

lemma map_of_new:
  assumes "map fst hs = [0..<n]"
  shows "map_of (hs @ [(n, e)]) n = Some e"
proof -
  have "n \<notin> set (map fst hs)" unfolding assms by simp
  then have "map_of hs n = None" by (simp add: map_of_eq_None_iff)
  then show ?thesis by (simp add: map_add_def)
qed

lemma acquire_current:
  assumes "acquire_host broken restore conv sig hs g = (r, g')"
  shows "g' = g \<and> (case r of Inl e \<Rightarrow> True | Inr h \<Rightarrow> \<exists>c. rg_current g = Some (c, sig, h))
    \<or> rg_made g' = Suc (rg_made g) \<and> (case r of Inl e \<Rightarrow> rg_current g' = rg_current g
        | Inr h \<Rightarrow> h = rg_made g \<and> rg_current g' = Some (conv, sig, h))"
  using assms by (auto simp: acquire_host_def held_host_def retire_host_def Let_def split: option.splits if_splits prod.splits)

lemma host_for_inv:
  assumes "host_for jb w st = (r, st')" "model_inv minted st" "wk_env st = merge_env (wk_process st) (minted (model_key jb))"
    and "list_all (\<lambda>c. c \<noteq> 0) (model_key jb)"
  shows "model_inv minted st'"
proof -
  obtain r1 g where a: "acquire_host (jw_make w (wk_env st) (jb_skill jb)) (jw_restore w) (jb_conversation jb) (job_signature jb)
      (materialize_history_images (jw_load w) (jb_history jb)) (wk_registry st) = (r1, g)" by fastforce
  define new where "new = (if rg_made g = rg_made (wk_registry st) then [] else [(rg_made (wk_registry st), wk_env st)])"
  define ran where "ran = (case r1 of Inl e \<Rightarrow> [] | Inr h \<Rightarrow> [(jb, h)])"
  let ?mine = "Some (merge_env (wk_process st) (minted (model_key jb)))"
  have f: "wk_registry st' = g" "wk_hosts st' = wk_hosts st @ new" "wk_runs st' = wk_runs st @ ran" "wk_process st' = wk_process st"
      "wk_env st' = wk_env st" "wk_model st' = wk_model st"
    using assms(1) a by (auto simp: host_for_def new_def ran_def)
  have keys: "map fst (wk_hosts st) = [0..<rg_made (wk_registry st)]" using assms(2) by (simp add: model_inv_def hosts_listed_def)
  have old: "map_of (wk_hosts st @ new) h = Some v" if "map_of (wk_hosts st) h = Some v" for h v
    using map_of_old[OF keys that] that by (auto simp only: new_def append_Nil2 split: if_split)
  have cur: "\<exists>jb. s = job_signature jb \<and> list_all (\<lambda>u. u \<noteq> 0) (model_key jb)
      \<and> map_of (wk_hosts st) h = Some (merge_env (wk_process st) (minted (model_key jb)))"
    if "rg_current (wk_registry st) = Some (c, s, h)" for c s h
    using assms(2) that unfolding model_inv_def current_fine_def by blast
  have runs: "map_of (wk_hosts st @ new) h = Some (merge_env (wk_process st) (minted (model_key j)))" if "(j, h) \<in> set (wk_runs st)" for j h
    using assms(2) old that by (auto simp only: model_inv_def runs_fine_def list_all_iff split_conv dest!: bspec)
  have at: "map_of (wk_hosts st @ new) h = ?mine" if rr: "r1 = Inr h" for h
    using acquire_current[OF a]
  proof
    assume "g = wk_registry st \<and> (case r1 of Inl e \<Rightarrow> True | Inr h \<Rightarrow> \<exists>c. rg_current (wk_registry st) = Some (c, job_signature jb, h))"
    then obtain c where "rg_current (wk_registry st) = Some (c, job_signature jb, h)" using rr by auto
    then obtain j where "job_signature jb = job_signature j" "list_all (\<lambda>u. u \<noteq> 0) (model_key j)"
        "map_of (wk_hosts st) h = Some (merge_env (wk_process st) (minted (model_key j)))" using cur by blast
    then show ?thesis using signature_key[of jb j] assms(4) old by simp
  next
    assume "rg_made g = Suc (rg_made (wk_registry st)) \<and> (case r1 of Inl e \<Rightarrow> rg_current g = rg_current (wk_registry st)
        | Inr h \<Rightarrow> h = rg_made (wk_registry st) \<and> rg_current g = Some (jb_conversation jb, job_signature jb, h))"
    then have "new = [(rg_made (wk_registry st), wk_env st)]" "h = rg_made (wk_registry st)" using rr by (simp_all add: new_def)
    then show ?thesis using map_of_new[OF keys] assms(3) by (simp only:)
  qed
  have "hosts_listed st'" using keys acquire_current[OF a] unfolding hosts_listed_def f by (auto simp: new_def)
  moreover have "runs_fine minted st'"
  proof -
    have "map_of (wk_hosts st @ new) h = Some (merge_env (wk_process st) (minted (model_key j)))" if "(j, h) \<in> set (wk_runs st @ ran)" for j h
    proof (cases "(j, h) \<in> set (wk_runs st)")
      case False
      then have "j = jb" "r1 = Inr h" using that by (auto simp: ran_def split: sum.splits)
      then show ?thesis using at by simp
    qed (rule runs)
    then show ?thesis unfolding runs_fine_def f list_all_iff by blast
  qed
  moreover have "current_fine minted st'"
    unfolding current_fine_def f
  proof (intro allI impI)
    fix c s h
    assume g: "rg_current g = Some (c, s, h)"
    show "\<exists>jb. s = job_signature jb \<and> list_all (\<lambda>u. u \<noteq> 0) (model_key jb)
        \<and> map_of (wk_hosts st @ new) h = Some (merge_env (wk_process st) (minted (model_key jb)))"
    proof (cases "rg_current (wk_registry st) = Some (c, s, h)")
      case True
      then show ?thesis using cur old by blast
    next
      case False
      then have "s = job_signature jb" "r1 = Inr h" using acquire_current[OF a] g by (auto split: sum.splits)
      then show ?thesis using at assms(4) by blast
    qed
  qed
  moreover have "wk_env st' = merge_env (wk_process st') (minted (wk_model st'))" using assms(2) unfolding f model_inv_def by blast
  ultimately show ?thesis by (simp add: model_inv_def)
qed

lemma model_inv_posts [simp]: "model_inv minted (post_all jb ps st) = model_inv minted st"
  using model_inv_cong[of "post_all jb ps st" st] by (simp add: model_inv_def post_all_def)

lemma answer_job_model:
  assumes "answer_job jb w st = Some (r, st')" "model_inv minted st" "claims_fine minted (Claims jb w)"
  shows "model_inv minted st'"
proof -
  obtain r1 st1 where c: "choose_model jb w st = (r1, st1)" by fastforce
  have 1: "model_inv minted st1" "r1 = Inr ()" "wk_env st1 = merge_env (wk_process st1) (minted (model_key jb))"
    using choose_model_inv[OF c assms(2)] assms(3) by simp_all
  obtain r2 st2 where h: "host_for jb w st1 = (r2, st2)" by fastforce
  have 2: "model_inv minted st2" using host_for_inv[OF h 1(1,3)] assms(3) by simp
  obtain images dropped where m: "materialize_workspace_image_parts (jw_load w) (jb_images jb) = (images, dropped)" by fastforce
  show ?thesis using assms(1) c 1(2) h m 2
    by (cases r2) (auto simp: answer_job_def split: option.splits sum.splits prod.splits)
qed

lemma do_job_model:
  assumes "do_job jb w st = Some (r, st')" "model_inv minted st" "claims_fine minted (Claims jb w)"
  shows "model_inv minted st'"
proof -
  obtain x st1 where a: "answer_job jb w st = Some (x, st1)" using assms(1) by (auto simp: do_job_def split: option.splits)
  show ?thesis using answer_job_model[OF a assms(2,3)] assms(1) a
    by (cases x) (auto simp: do_job_def split: if_splits option.splits)
qed

lemma leave_runs: "leave_loop e st = Some (x, st') \<Longrightarrow> runs_fine minted st' = runs_fine minted st"
  by (auto simp: leave_loop_def runs_fine_def)

lemma job_loop_model:
  "job_loop es st = Some (x, st') \<Longrightarrow> model_inv minted st \<Longrightarrow> list_all (claims_fine minted) es \<Longrightarrow> runs_fine minted st'"
proof (induction es st rule: job_loop.induct)
  case (5 jb w es st)
  obtain r st1 where d: "do_job jb w st = Some (r, st1)" using 5(2) by (auto split: option.splits)
  have i: "model_inv minted st1" using do_job_model[OF d 5(3)] 5(4) by simp
  show ?case
  proof (cases r)
    case (Inl e)
    then have "leave_loop (Some e) st1 = Some (x, st')" using 5(2) d by simp
    then show ?thesis using leave_runs i by (metis model_inv_def)
  next
    case (Inr u)
    then have l: "job_loop es st1 = Some (x, st')" using 5(2) d by simp
    have "list_all (claims_fine minted) es" using 5(4) by simp
    from 5(1)[OF d refl Inr l i this] show ?thesis .
  qed
next
  case (2 es st)
  then show ?case using leave_runs model_inv_def by (metis job_loop.simps(2))
next
  case (3 es st)
  then show ?case using leave_runs model_inv_def by (metis job_loop.simps(3))
next
  case (4 e es st)
  then show ?case using leave_runs model_inv_def by (metis job_loop.simps(4))
qed simp

section \<open>Heartbeats\<close>

fun awake :: "beat_action \<Rightarrow> bool" where
  "awake (FallsAsleep n) = False"
| "awake _ = True"

lemma lost_lease_awake: "list_all awake (lost_lease r v)"
  by (auto simp: lost_lease_def split: option.split)

text \<open>A worker falls asleep at most once, last of all, and with no job in flight.\<close>

lemma awake_behind:
  assumes "list_all awake bs" "list_all awake as \<or> (\<exists>cs. as = cs @ [FallsAsleep 0] \<and> list_all awake cs)"
  shows "list_all awake (bs @ as) \<or> (\<exists>cs. bs @ as = cs @ [FallsAsleep 0] \<and> list_all awake cs)"
  using assms(2)
proof
  assume "\<exists>cs. as = cs @ [FallsAsleep 0] \<and> list_all awake cs"
  then obtain cs where "as = cs @ [FallsAsleep 0]" "list_all awake cs" by blast
  then have "bs @ as = (bs @ cs) @ [FallsAsleep 0] \<and> list_all awake (bs @ cs)" using assms(1) by simp
  then show ?thesis by blast
qed (use assms(1) in simp)

lemma heartbeats_sleep_idle:
  "heartbeats rs = Some (e, as) \<Longrightarrow> list_all awake as \<or> (\<exists>cs. as = cs @ [FallsAsleep 0] \<and> list_all awake cs)"
proof (induction rs arbitrary: e as)
  case (Cons r rs)
  consider (stopped) "as = []"
    | (asleep) v where "as = (Asked (br_asked r) # lost_lease r v) @ [FallsAsleep 0]"
    | (on) bs e' as' where "heartbeats rs = Some (e', as')" "as = bs @ as'" "list_all awake bs"
  proof (cases "br_stopped r")
    case False
    show ?thesis
    proof (cases "br_answer r")
      case (Inl x)
      then show ?thesis using False Cons.prems on[of _ _ "[Asked (br_asked r), Waits 1000]"] by auto
    next
      case (Inr t)
      obtain s v n where t: "t = (s, v, n)" by (cases t)
      show ?thesis
        using False Inr t Cons.prems asleep[of v] on[of _ _ "Asked (br_asked r) # lost_lease r v @ [Waits n]"] lost_lease_awake[of r v]
        by (auto split: if_splits)
    qed
  qed (use Cons.prems stopped in simp)
  then show ?case
  proof cases
    case (asleep v)
    moreover have "list_all awake (Asked (br_asked r) # lost_lease r v)" using lost_lease_awake by simp
    ultimately show ?thesis by blast
  next
    case (on bs e' as')
    then show ?thesis using awake_behind[OF on(3) Cons.IH[OF on(1)]] by simp
  qed simp
qed simp

section \<open>From a run to its reply\<close>

text \<open>The turn over a stream that ends with the result \<open>r\<close>.\<close>

definition shows_run :: "turn_env \<Rightarrow> agent_result \<Rightarrow> loop_state \<Rightarrow> bool" where
  "shows_run env r st' \<longleftrightarrow> (let turn = run_turn (env\<lparr>te_first := feed_of (Inr r, st'), te_rest := []\<rparr>) in
     if ar_status r = js ''approval-required'' then
       (case ar_pending r of
          Some p \<Rightarrow> turn = None
        | None \<Rightarrow> (case turn of Some (Inr ry, tn) \<Rightarrow> ry_status ry = ReplyFailed | _ \<Rightarrow> False))
     else (case turn of
         Some (Inr ry, tn) \<Rightarrow>
           ry_status ry = (if ar_status r = js ''completed'' \<or> ar_status r = js ''cancelled'' then ReplyDone else ReplyFailed)
           \<and> ry_content ry = js_trim (or_text (ar_summary r) (concat (map delta_text (ls_out st'))))
       | _ \<Rightarrow> False))"

lemma fed_reply:
  assumes "ls_out st' = out @ [FinalResult r]" "list_all (\<lambda>e. \<not> is_result e) out"
  shows "shows_run env r st'"
proof -
  have t: "run_turn (env\<lparr>te_first := feed_of (Inr r, st'), te_rest := []\<rparr>)
      = approval_rounds (env\<lparr>te_first := feed_of (Inr r, st'), te_rest := []\<rparr>) [] (Some r) (fold consume_event (ls_out st') new_turn)"
    using stream_result_last[OF assms(2)] assms(1) by (simp add: run_turn_def consume_def feed_of_def del: approval_rounds.simps)
  have x: "tn_text (fold consume_event (ls_out st') new_turn) = concat (map delta_text (ls_out st'))"
    by (simp add: consumed_text new_turn_def)
  show ?thesis unfolding shows_run_def t Let_def
    by (cases "ar_pending r") (simp_all add: no_details_reply_def turn_outcome_def Let_def x)
qed

section \<open>Two jobs of different models\<close>

lemma run_agent_loop_model:
  assumes "list_all (claims_fine minted) es" "run_agent_loop process (Inr (minted [])) es = Some (x, st)"
  shows "runs_fine minted st"
proof (rule job_loop_model[OF assms(2)[unfolded run_agent_loop_def] _ assms(1)])
  show "model_inv minted \<lparr>wk_process = process, wk_env = (case Inr (minted []) of Inl e \<Rightarrow> process | Inr vs \<Rightarrow> merge_env process vs), wk_model = [],
      wk_registry = new_registry, wk_hosts = [], wk_runs = [], wk_posts = []\<rparr>"
    by (simp add: model_inv_def hosts_listed_def current_fine_def runs_fine_def new_registry_def)
qed

definition demo_minted :: "jsstring \<Rightarrow> variables" where
  "demo_minted m = [(js ''AGENT_LLM_MODEL'', m)]"

definition demo_job :: "jsstring option \<Rightarrow> job" where
  "demo_job m = \<lparr>jb_id = js ''job'', jb_lease = js ''lease'', jb_conversation = js ''chat'', jb_agent_message = js ''reply'',
     jb_content = js ''hi'', jb_history = [], jb_images = None, jb_model = m, jb_skill = None\<rparr>"

definition demo_turn_env :: turn_env where
  "demo_turn_env = \<lparr>te_first = \<lparr>sf_events = [TextDelta (js ''hello'')], sf_end = None\<rparr>, te_rest = [], te_usage = (\<lambda>_. None),
     te_context = (0, 1, 0)\<rparr>"

definition demo_job_world :: job_world where
  "demo_job_world = \<lparr>jw_mint = (\<lambda>m. Inr (demo_minted (case m of Some k \<Rightarrow> k | None \<Rightarrow> []))), jw_load = (\<lambda>_. None), jw_make = (\<lambda>_ _. None),
     jw_restore = (\<lambda>_. None),
     jw_turn = (\<lambda>_ _ _. demo_turn_env),
     jw_post = None, jw_lost = False, jw_post_failed = None\<rparr>"

definition demo_claims :: "loop_event list" where
  "demo_claims = [Claims (demo_job (Some (js ''a''))) demo_job_world, Claims (demo_job None) demo_job_world, NoJob]"

lemma demo_claims_fine: "list_all (claims_fine demo_minted) demo_claims"
  by (simp add: demo_claims_def mints_def demo_job_world_def demo_job_def model_key_def js_def)
end
