(* ===== verification/Worker_Transport.thy ===== *)
theory Worker_Transport
  imports Worker_Turn
begin

text \<open>
  The connection of the worker to its control plane, \<open>worker/src/transport.ts\<close>. What reaches it is a list of
  events: calls of its methods, messages, closing and failing sockets, and timers. Each promise that it hands
  out is a waiter with a number; what a waiter is settled with is recorded in order, as are the messages sent.
  \<open>ensureConnected\<close> either throws or leaves an open socket, and whether a socket is open when something is sent
  is part of the state. Sockets are numbered; a message is what \<open>JSON.parse\<close> gives, \<open>None\<close> when it throws.
\<close>

section \<open>Parsing\<close>

definition truthy_text :: "jsval \<Rightarrow> jsstring option" where
  "truthy_text v = (case v of JStr s \<Rightarrow> if js_trim s \<noteq> [] then Some s else None | _ \<Rightarrow> None)"

text \<open>A revision is an integer; the description of a skill is read and not used.\<close>

definition parse_skill :: "jsval \<Rightarrow> active_skill option" where
  "parse_skill v =
     (case as_record v of
        None \<Rightarrow> None
      | Some ps \<Rightarrow> (case (getp ps ''id'', getp ps ''name'', getp ps ''description'', getp ps ''content'', getp ps ''revision'') of
          (JStr i, JStr n, JStr d, JStr c, JInt r) \<Rightarrow> Some \<lparr>sk_id = i, sk_name = n, sk_content = c, sk_revision = r\<rparr>
        | _ \<Rightarrow> None))"

definition parse_past_message :: "jsval \<Rightarrow> past_message list" where
  "parse_past_message v =
     (case v of
        JObj ps \<Rightarrow> (case (getp ps ''role'', getp ps ''content'') of
            (JStr role, JStr content) \<Rightarrow>
              let r = (if role = js ''agent'' then js ''assistant'' else role); xs = parse_image_parts (getp ps ''images'')
              in if r \<noteq> js ''user'' \<and> r \<noteq> js ''assistant'' then []
                 else [\<lparr>pm_role = r, pm_content = content, pm_images = (if r = js ''user'' \<and> xs \<noteq> [] then Some xs else None)\<rparr>]
          | _ \<Rightarrow> [])
      | _ \<Rightarrow> [])"

definition parse_history :: "jsval \<Rightarrow> past_message list" where
  "parse_history v = (case v of JArr xs \<Rightarrow> concat (map parse_past_message xs) | _ \<Rightarrow> [])"

definition invalid_job :: thrown where
  "invalid_job = plain_error (js ''Error'') (js ''Control plane returned an invalid job'')"

definition parse_job :: "(jsstring \<times> jsval) list \<Rightarrow> thrown + job" where
  "parse_job ps =
     (case (getp ps ''id'', truthy_text (getp ps ''leaseId''), getp ps ''content'', getp ps ''agentMessageId'') of
        (JStr i, Some lease, JStr content, JStr reply) \<Rightarrow>
          let xs = parse_image_parts (getp ps ''images'')
          in Inr \<lparr>jb_id = i, jb_lease = lease, jb_conversation = (case getp ps ''conversationId'' of JStr c \<Rightarrow> c | _ \<Rightarrow> []),
            jb_agent_message = reply, jb_content = content, jb_history = parse_history (getp ps ''history''),
            jb_images = (if xs = [] then None else Some xs), jb_model = truthy_text (getp ps ''modelId''),
            jb_skill = parse_skill (getp ps ''skill'')\<rparr>
      | _ \<Rightarrow> Inl invalid_job)"

text \<open>The reply to a request for a model environment.\<close>

definition parse_environment :: "jsval \<Rightarrow> thrown + variables" where
  "parse_environment body =
     (case as_record (case body of JObj ps \<Rightarrow> getp ps ''env'' | _ \<Rightarrow> JUndef) of
        None \<Rightarrow> Inl (plain_error (js ''Error'') (js ''Control plane returned an invalid model environment''))
      | Some es \<Rightarrow>
          let vs = fold (\<lambda>p m. case snd p of JStr s \<Rightarrow> if s \<noteq> [] then map_set (fst p) s m else m | _ \<Rightarrow> m) es []
          in if map_has vs (js ''AGENT_LLM_PROVIDER'') then Inr vs
             else Inl (plain_error (js ''Error'') (js ''Control plane returned a model environment without AGENT_LLM_PROVIDER'')))"

section \<open>State\<close>

type_synonym decision = "bool \<times> jsstring option"

datatype settlement = Failed thrown | Answered jsval | GaveJob job | NoMoreJobs | Decided decision | Acknowledged

record ws_state =
  ws_closed :: bool
  ws_socket :: "nat option"
  ws_open :: bool
  ws_pending :: "(jsstring, nat list) jsmap"
  ws_deliveries :: "(jsstring, nat) jsmap"
  ws_jobs :: "job list"
  ws_job_waiters :: "nat list"
  ws_approval_waiters :: "(jsstring, nat) jsmap"
  ws_approval_queue :: "(jsstring, decision) jsmap"
  ws_next :: nat
  ws_settled :: "(nat \<times> settlement) list"
  ws_sent :: "jsval list"

definition new_transport :: ws_state where
  "new_transport = \<lparr>ws_closed = False, ws_socket = None, ws_open = False, ws_pending = [], ws_deliveries = [], ws_jobs = [],
     ws_job_waiters = [], ws_approval_waiters = [], ws_approval_queue = [], ws_next = 0, ws_settled = [], ws_sent = []\<rparr>"

definition settle_waiter :: "settlement \<Rightarrow> nat \<Rightarrow> ws_state \<Rightarrow> ws_state" where
  "settle_waiter r n st = st\<lparr>ws_settled := ws_settled st @ [(n, r)]\<rparr>"

definition pending_of :: "jsstring \<Rightarrow> ws_state \<Rightarrow> nat list" where
  "pending_of t st = (case map_of (ws_pending st) t of Some ns \<Rightarrow> ns | None \<Rightarrow> [])"

definition wait_for :: "jsstring \<Rightarrow> ws_state \<Rightarrow> nat \<times> ws_state" where
  "wait_for t st = (ws_next st, st\<lparr>ws_next := Suc (ws_next st), ws_pending := map_set t (pending_of t st @ [ws_next st]) (ws_pending st)\<rparr>)"

definition remove_pending :: "jsstring \<Rightarrow> nat \<Rightarrow> ws_state \<Rightarrow> ws_state" where
  "remove_pending t n st =
     (if \<not> map_has (ws_pending st) t then st
      else let ns = filter (\<lambda>m. m \<noteq> n) (pending_of t st)
        in st\<lparr>ws_pending := (if ns = [] then map_del t (ws_pending st) else map_set t ns (ws_pending st))\<rparr>)"

definition reject_transient :: "thrown \<Rightarrow> ws_state \<Rightarrow> ws_state" where
  "reject_transient e st =
     fold (settle_waiter (Failed e)) (concat (map snd (ws_pending st)) @ map snd (ws_deliveries st)) (st\<lparr>ws_pending := [], ws_deliveries := []\<rparr>)"

definition reject_all :: "thrown \<Rightarrow> ws_state \<Rightarrow> ws_state" where
  "reject_all e st = (let st1 = reject_transient e st in
     fold (settle_waiter (Failed e)) (map snd (ws_approval_waiters st1)) (st1\<lparr>ws_approval_waiters := [], ws_approval_queue := []\<rparr>))"

definition flush_job_waiters :: "ws_state \<Rightarrow> ws_state" where
  "flush_job_waiters st = fold (settle_waiter NoMoreJobs) (ws_job_waiters st) (st\<lparr>ws_job_waiters := []\<rparr>)"

definition closed_error :: thrown where
  "closed_error = plain_error (js ''Error'') (js ''Agent control websocket closed'')"

definition close_transport :: "ws_state \<Rightarrow> ws_state" where
  "close_transport st = (reject_all closed_error (flush_job_waiters (st\<lparr>ws_closed := True\<rparr>)))\<lparr>ws_socket := None, ws_open := False\<rparr>"

section \<open>Sending\<close>

definition send :: "jsval \<Rightarrow> ws_state \<Rightarrow> thrown + ws_state" where
  "send body st = (if ws_socket st = None \<or> \<not> ws_open st
     then Inl (plain_error (js ''Error'') (js ''Agent control websocket is not connected''))
     else Inr (st\<lparr>ws_sent := ws_sent st @ [body]\<rparr>))"

text \<open>\<open>ensureConnected\<close>; \<open>broken\<close> is the error of connecting, and a new socket is open once it is connected.\<close>

definition ensure_connected :: "thrown option \<Rightarrow> nat \<Rightarrow> ws_state \<Rightarrow> (thrown + unit) \<times> ws_state" where
  "ensure_connected broken sock st =
     (if ws_closed st then (Inl (plain_error (js ''Error'') (js ''Agent control websocket is closed'')), st)
      else if ws_socket st \<noteq> None \<and> ws_open st then (Inr (), st)
      else case broken of
          Some e \<Rightarrow> (Inl e, st\<lparr>ws_socket := Some sock, ws_open := False\<rparr>)
        | None \<Rightarrow> (Inr (), st\<lparr>ws_socket := Some sock, ws_open := True\<rparr>))"

text \<open>\<open>request\<close>: the waiter is there before the message is sent, and stays when sending throws.\<close>

definition ask :: "jsstring \<Rightarrow> jsval \<Rightarrow> ws_state \<Rightarrow> (thrown + nat) \<times> ws_state" where
  "ask t body st = (case wait_for t st of (n, st1) \<Rightarrow> (case send body st1 of Inl e \<Rightarrow> (Inl e, st1) | Inr st2 \<Rightarrow> (Inr n, st2)))"

definition post_events :: "thrown option \<Rightarrow> nat \<Rightarrow> jsval list \<Rightarrow> jsval \<Rightarrow> ws_state \<Rightarrow> ws_state" where
  "post_events broken sock events body st =
     (if events = [] then st
      else case ensure_connected broken sock st of
          (Inl e, st1) \<Rightarrow> st1
        | (Inr _, st1) \<Rightarrow> (case send body st1 of Inl e \<Rightarrow> st1 | Inr st2 \<Rightarrow> st2))"

section \<open>Jobs and approvals\<close>

text \<open>A call that returns at once gives its value to a waiter of its own.\<close>

definition fresh_waiter :: "settlement \<Rightarrow> ws_state \<Rightarrow> ws_state" where
  "fresh_waiter r st = settle_waiter r (ws_next st) (st\<lparr>ws_next := Suc (ws_next st)\<rparr>)"

definition claim_job :: "thrown option \<Rightarrow> nat \<Rightarrow> ws_state \<Rightarrow> (thrown + unit) \<times> ws_state" where
  "claim_job broken sock st =
     (if ws_closed st then (Inr (), fresh_waiter NoMoreJobs st)
      else case ensure_connected broken sock st of
          (Inl e, st1) \<Rightarrow> (Inl e, st1)
        | (Inr _, st1) \<Rightarrow> (case ws_jobs st1 of
            j # rest \<Rightarrow> (Inr (), fresh_waiter (GaveJob j) (st1\<lparr>ws_jobs := rest\<rparr>))
          | [] \<Rightarrow> (Inr (), st1\<lparr>ws_next := Suc (ws_next st1), ws_job_waiters := ws_job_waiters st1 @ [ws_next st1]\<rparr>)))"

definition wait_for_approval :: "jsstring \<Rightarrow> ws_state \<Rightarrow> ws_state" where
  "wait_for_approval i st =
     (case map_of (ws_approval_queue st) i of
        Some d \<Rightarrow> fresh_waiter (Decided d) (st\<lparr>ws_approval_queue := map_del i (ws_approval_queue st)\<rparr>)
      | None \<Rightarrow> st\<lparr>ws_next := Suc (ws_next st), ws_approval_waiters := map_set i (ws_next st) (ws_approval_waiters st)\<rparr>)"

definition receive_job :: "job \<Rightarrow> ws_state \<Rightarrow> ws_state" where
  "receive_job j st = (case ws_job_waiters st of
     n # ns \<Rightarrow> settle_waiter (GaveJob j) n (st\<lparr>ws_job_waiters := ns\<rparr>)
   | [] \<Rightarrow> st\<lparr>ws_jobs := ws_jobs st @ [j]\<rparr>)"

definition receive_approval :: "(jsstring \<times> jsval) list \<Rightarrow> ws_state \<Rightarrow> ws_state" where
  "receive_approval ps st =
     (case (getp ps ''approvalId'', getp ps ''approved'') of
        (JStr i, JBool ok) \<Rightarrow>
          if i = [] then st
          else let d = (ok, truthy_text (getp ps ''reason'')) in
            (case map_of (ws_approval_waiters st) i of
               Some n \<Rightarrow> settle_waiter (Decided d) n (st\<lparr>ws_approval_waiters := map_del i (ws_approval_waiters st)\<rparr>)
             | None \<Rightarrow> st\<lparr>ws_approval_queue := map_set i d (ws_approval_queue st)\<rparr>)
      | _ \<Rightarrow> st)"

definition receive_ack :: "(jsstring \<times> jsval) list \<Rightarrow> ws_state \<Rightarrow> ws_state" where
  "receive_ack ps st =
     (let i = (case getp ps ''deliveryId'' of JStr s \<Rightarrow> s | _ \<Rightarrow> []) in
      case map_of (ws_deliveries st) i of
        Some n \<Rightarrow> settle_waiter Acknowledged n (st\<lparr>ws_deliveries := map_del i (ws_deliveries st)\<rparr>)
      | None \<Rightarrow> st)"

text \<open>Any other message goes to the first waiter for its type.\<close>

definition receive_answer :: "jsstring \<Rightarrow> jsval \<Rightarrow> ws_state \<Rightarrow> ws_state" where
  "receive_answer t v st = (case pending_of t st of
     n # ns \<Rightarrow> settle_waiter (Answered v) n (st\<lparr>ws_pending := map_set t ns (ws_pending st)\<rparr>)
   | [] \<Rightarrow> st)"

definition message_type :: "(jsstring \<times> jsval) list \<Rightarrow> jsstring" where
  "message_type ps = (case getp ps ''type'' of JStr t \<Rightarrow> t | _ \<Rightarrow> [])"

definition reserved_types :: "jsstring list" where
  "reserved_types = map js [''agent.error'', ''agent.job'', ''agent.approval'', ''agent.command'', ''agent.message_ack'']"

text \<open>\<open>onMessage\<close>; \<open>Inl\<close> is an error that leaves the listener. Commands are dispatched apart.\<close>

definition on_message :: "jsval option \<Rightarrow> ws_state \<Rightarrow> thrown + ws_state" where
  "on_message parsed st =
     (case parsed of
        None \<Rightarrow> Inr st
      | Some JNull \<Rightarrow> Inl (plain_error (js ''TypeError'') [])
      | Some v \<Rightarrow>
        let ps = (case v of JObj ps \<Rightarrow> ps | _ \<Rightarrow> []); t = message_type ps
        in if t = js ''agent.error'' then Inr (reject_all (plain_error (js ''Error'')
               (case getp ps ''message'' of JStr s \<Rightarrow> s | _ \<Rightarrow> js ''Agent websocket request failed'')) st)
           else if t = js ''agent.job'' then (case parse_job ps of Inl e \<Rightarrow> Inl e | Inr j \<Rightarrow> Inr (receive_job j st))
           else if t = js ''agent.approval'' then Inr (receive_approval ps st)
           else if t = js ''agent.command'' then Inr st
           else if t = js ''agent.message_ack'' then Inr (receive_ack ps st)
           else Inr (receive_answer t v st))"

section \<open>Bodies of requests and replies\<close>

definition optional :: "string \<Rightarrow> jsval option \<Rightarrow> (jsstring \<times> jsval) list" where
  "optional k v = (case v of None \<Rightarrow> [] | Some x \<Rightarrow> [(js k, x)])"

definition non_empty :: "jsstring option \<Rightarrow> jsval option" where
  "non_empty t = (case t of None \<Rightarrow> None | Some s \<Rightarrow> if s = [] then None else Some (JStr s))"

definition number_field :: "(jsstring \<times> jsval) list \<Rightarrow> string \<Rightarrow> thrown + jsval" where
  "number_field ps k = (case getp ps k of JInt n \<Rightarrow> Inr (JInt n) | JFloat s \<Rightarrow> Inr (JFloat s)
     | _ \<Rightarrow> Inl (plain_error (js ''Error'') (js ''Control plane response omitted '' @ js k)))"

definition registration :: "(jsstring \<times> jsval) list \<Rightarrow> thrown + (jsval \<times> jsval)" where
  "registration ps = (case number_field ps ''heartbeatIntervalMs'' of
     Inl e \<Rightarrow> Inl e
   | Inr beat \<Rightarrow> (case number_field ps ''idleMs'' of Inl e \<Rightarrow> Inl e | Inr idle \<Rightarrow> Inr (beat, idle)))"

definition heartbeat_body :: "jsstring \<Rightarrow> (jsstring \<times> jsstring) option \<Rightarrow> jsval" where
  "heartbeat_body agent active = JObj ([(js ''type'', JStr (js ''agent.heartbeat'')), (js ''agentId'', JStr agent)]
     @ (case active of None \<Rightarrow> [] | Some (i, lease) \<Rightarrow> [(js ''jobId'', JStr i), (js ''leaseId'', JStr lease)]))"

text \<open>\<open>Boolean(value)\<close>.\<close>

definition truthy_value :: "jsval \<Rightarrow> bool" where
  "truthy_value v = (case v of JUndef \<Rightarrow> False | JNull \<Rightarrow> False | JBool b \<Rightarrow> b | JInt n \<Rightarrow> n \<noteq> 0 | JFloat s \<Rightarrow> True
     | JNonFinite s \<Rightarrow> s \<noteq> js ''NaN'' | JStr s \<Rightarrow> s \<noteq> [] | JArr xs \<Rightarrow> True | JObj ps \<Rightarrow> True)"

definition heartbeat_reply :: "(jsstring \<times> jsval) list \<Rightarrow> thrown + (bool \<times> bool \<times> jsval)" where
  "heartbeat_reply ps = (case number_field ps ''heartbeatIntervalMs'' of
     Inl e \<Rightarrow> Inl e
   | Inr beat \<Rightarrow> Inr (truthy_value (getp ps ''shouldSleep''), getp ps ''leaseValid'' \<noteq> JBool False, beat))"

definition settings_reply :: "(jsstring \<times> jsval) list \<Rightarrow> (jsstring \<times> jsval) list \<times> jsstring option \<times> jsstring option" where
  "settings_reply ps = ((case as_record (getp ps ''mcpServers'') of Some ms \<Rightarrow> ms | None \<Rightarrow> []),
     str_of (getp ps ''userMarkdown''), str_of (getp ps ''memoryMarkdown''))"

definition environment_body :: "jsstring option \<Rightarrow> jsval" where
  "environment_body model = JObj ((js ''type'', JStr (js ''agent.model_environment'')) # optional ''modelId'' (non_empty model))"

record reply_input =
  ri_message :: jsstring
  ri_agent_message :: "jsstring option"
  ri_lease :: jsstring
  ri_content :: jsstring
  ri_status :: reply_status
  ri_error :: "jsstring option"
  ri_parts :: "jsval list option"
  ri_usage :: "jsval option"
  ri_context :: "jsval option"

definition reply_status_name :: "reply_status \<Rightarrow> jsstring" where
  "reply_status_name s = (case s of ReplyProcessing \<Rightarrow> js ''processing'' | ReplyDone \<Rightarrow> js ''done'' | ReplyFailed \<Rightarrow> js ''failed'')"

definition reply_body :: "reply_input \<Rightarrow> (jsstring \<times> jsval) list" where
  "reply_body r = [(js ''type'', JStr (js ''agent.message'')), (js ''userMessageId'', JStr (ri_message r)),
       (js ''leaseId'', JStr (ri_lease r)), (js ''content'', JStr (ri_content r)), (js ''status'', JStr (reply_status_name (ri_status r)))]
     @ optional ''agentMessageId'' (non_empty (ri_agent_message r)) @ optional ''errorSummary'' (non_empty (ri_error r))
     @ optional ''parts'' (map_option JArr (ri_parts r)) @ optional ''usage'' (ri_usage r) @ optional ''contextUsage'' (ri_context r)"

section \<open>Commands\<close>

record command_result =
  cr_ok :: bool
  cr_payload :: "(jsstring \<times> jsval) list option"
  cr_error :: "jsstring option"

type_synonym command_handler = "jsstring \<Rightarrow> jsstring \<Rightarrow> (jsstring \<times> jsval) list \<Rightarrow> thrown + command_result"

definition result_body :: "jsstring \<Rightarrow> command_result \<Rightarrow> jsval" where
  "result_body i r = JObj ([(js ''type'', JStr (js ''agent.command_result'')), (js ''commandId'', JStr i), (js ''ok'', JBool (cr_ok r))]
     @ optional ''payload'' (map_option JObj (cr_payload r)) @ optional ''error'' (non_empty (cr_error r)))"

text \<open>The body of a failure has its \<open>error\<close> even when it is empty.\<close>

definition failure_body :: "jsstring \<Rightarrow> thrown \<Rightarrow> jsval" where
  "failure_body i e = JObj [(js ''type'', JStr (js ''agent.command_result'')), (js ''commandId'', JStr i), (js ''ok'', JBool False),
     (js ''error'', JStr (err_text e))]"

definition send_failure :: "jsstring \<Rightarrow> thrown \<Rightarrow> ws_state \<Rightarrow> ws_state" where
  "send_failure i e st = (case send (failure_body i e) st of Inl _ \<Rightarrow> st | Inr st1 \<Rightarrow> st1)"

text \<open>\<open>dispatchCommand\<close> when its handler has returned.\<close>

definition dispatch_command :: "command_handler option \<Rightarrow> (jsstring \<times> jsval) list \<Rightarrow> ws_state \<Rightarrow> ws_state" where
  "dispatch_command handler ps st =
     (case (getp ps ''commandId'', getp ps ''name'') of
        (JStr i, JStr n) \<Rightarrow>
          if i = [] \<or> n = [] then st
          else
            let payload = (case as_record (getp ps ''payload'') of Some xs \<Rightarrow> xs | None \<Rightarrow> []) in
            (case (case handler of
                     Some h \<Rightarrow> h i n payload
                   | None \<Rightarrow> Inr \<lparr>cr_ok = False, cr_payload = None, cr_error = Some (js ''Workspace commands are not available'')\<rparr>) of
               Inl e \<Rightarrow> send_failure i e st
             | Inr r \<Rightarrow> (case send (result_body i r) st of Inl e \<Rightarrow> send_failure i e st | Inr st1 \<Rightarrow> st1))
      | _ \<Rightarrow> st)"

definition sleep_transport :: "jsstring \<Rightarrow> ws_state \<Rightarrow> thrown + ws_state" where
  "sleep_transport agent st =
     (case send (JObj [(js ''type'', JStr (js ''agent.sleep'')), (js ''agentId'', JStr agent)]) st of
        Inl e \<Rightarrow> Inl e | Inr st1 \<Rightarrow> Inr (close_transport st1))"

section \<open>Deliveries\<close>

text \<open>One attempt of \<open>deliver\<close>: it cannot connect, the message cannot be sent, it is not acknowledged, or it is.\<close>

datatype attempt = NotConnected thrown | NotSent thrown | NotAcked thrown | Acked

definition delivery_delay :: "nat \<Rightarrow> nat \<Rightarrow> nat" where
  "delivery_delay base k = min (base * 2 ^ k) 2000"

text \<open>\<open>gone k\<close> says whether the transport is closed at the head of attempt \<open>k\<close>, or behind it for the delay;
  the result has the attempts that sent the message and the delays slept.\<close>

fun deliver_from ::
    "nat \<Rightarrow> (nat \<Rightarrow> bool) \<Rightarrow> (nat \<Rightarrow> bool) \<Rightarrow> (nat \<Rightarrow> attempt) \<Rightarrow> nat \<Rightarrow> nat \<Rightarrow> thrown option
     \<Rightarrow> (thrown + unit) \<times> nat list \<times> nat list" where
  "deliver_from base gone goneb run k left prior =
     (case left of
        0 \<Rightarrow> (Inl (case prior of Some e \<Rightarrow> e | None \<Rightarrow> plain_error (js ''Error'') (js ''Agent delivery failed'')), [], [])
      | Suc l \<Rightarrow>
        if gone k then (Inl (case prior of Some e \<Rightarrow> e | None \<Rightarrow> plain_error (js ''Error'') (js ''Agent delivery failed'')), [], [])
        else
          let sent = (case run k of NotConnected _ \<Rightarrow> [] | NotSent _ \<Rightarrow> [] | NotAcked _ \<Rightarrow> [k] | Acked \<Rightarrow> [k]);
              slept = (if k < 4 \<and> \<not> goneb k then [delivery_delay base k] else [])
          in (case (case run k of NotConnected e \<Rightarrow> Some e | NotSent e \<Rightarrow> Some e | NotAcked e \<Rightarrow> Some e | Acked \<Rightarrow> None) of
                None \<Rightarrow> (Inr (), sent, [])
              | Some e \<Rightarrow>
                (case deliver_from base gone goneb run (Suc k) l (Some (if is_error e then e else plain_error (js ''Error'') (err_text e))) of
                   (r, ss, ds) \<Rightarrow> (r, sent @ ss, slept @ ds))))"

declare deliver_from.simps [simp del]

definition deliver :: "nat \<Rightarrow> (nat \<Rightarrow> bool) \<Rightarrow> (nat \<Rightarrow> bool) \<Rightarrow> (nat \<Rightarrow> attempt) \<Rightarrow> (thrown + unit) \<times> nat list \<times> nat list" where
  "deliver base gone goneb run = deliver_from base gone goneb run 0 5 None"

text \<open>The waiter of an attempt, its acknowledgement that times out, and the end of an attempt that failed.\<close>

definition wait_for_delivery :: "jsstring \<Rightarrow> ws_state \<Rightarrow> ws_state" where
  "wait_for_delivery i st = st\<lparr>ws_next := Suc (ws_next st), ws_deliveries := map_set i (ws_next st) (ws_deliveries st)\<rparr>"

definition delivery_failed :: "thrown \<Rightarrow> jsstring \<Rightarrow> ws_state \<Rightarrow> ws_state" where
  "delivery_failed e i st = (case map_of (ws_deliveries st) i of
     Some n \<Rightarrow> settle_waiter (Failed e) n (st\<lparr>ws_deliveries := map_del i (ws_deliveries st)\<rparr>) | None \<Rightarrow> st)"

section \<open>The machine\<close>

datatype ws_event =
    Register "thrown option" nat
  | AskFor "thrown option" nat jsstring jsval
  | AskTimedOut jsstring nat
  | ClaimJob "thrown option" nat
  | WaitApproval jsstring
  | PostEvents "thrown option" nat "jsval list" jsval
  | SendDelivery "thrown option" nat jsstring jsval
  | DeliveryFailed thrown jsstring
  | Message "jsval option"
  | SocketClosed nat
  | SocketError nat
  | Command "command_handler option" "(jsstring \<times> jsval) list"
  | Sleeps jsstring
  | CloseTransport

definition timed_out :: "jsstring \<Rightarrow> thrown" where
  "timed_out t = plain_error (js ''Error'') (js ''Control plane '' @ t @ js '' timed out'')"

fun ws_step :: "ws_event \<Rightarrow> ws_state \<Rightarrow> thrown + ws_state" where
  "ws_step (Register broken sock) st =
     (case ensure_connected broken sock (snd (wait_for (js ''agent.registered'') st)) of
        (Inl e, st1) \<Rightarrow> Inr (close_transport st1) | (Inr _, st1) \<Rightarrow> Inr st1)"
| "ws_step (AskFor broken sock t body) st =
     (case ensure_connected broken sock st of (Inl e, st1) \<Rightarrow> Inr st1 | (Inr _, st1) \<Rightarrow> Inr (snd (ask t body st1)))"
| "ws_step (AskTimedOut t n) st =
     (if n \<in> set (pending_of t st) then Inr (settle_waiter (Failed (timed_out t)) n (remove_pending t n st)) else Inr st)"
| "ws_step (ClaimJob broken sock) st = Inr (snd (claim_job broken sock st))"
| "ws_step (WaitApproval i) st = Inr (wait_for_approval i st)"
| "ws_step (PostEvents broken sock es body) st = Inr (post_events broken sock es body st)"
| "ws_step (SendDelivery broken sock i body) st =
     (case ensure_connected broken sock st of
        (Inl e, st1) \<Rightarrow> Inr st1
      | (Inr _, st1) \<Rightarrow> let st2 = wait_for_delivery i st1 in
          (case send body st2 of Inl e \<Rightarrow> Inr (delivery_failed e i st2) | Inr st3 \<Rightarrow> Inr st3))"
| "ws_step (DeliveryFailed e i) st = Inr (delivery_failed e i st)"
| "ws_step (Message v) st = on_message v st"
| "ws_step (SocketClosed n) st = (if ws_socket st = Some n
     then Inr (reject_transient closed_error (st\<lparr>ws_socket := None, ws_open := False\<rparr>)) else Inr st)"
| "ws_step (SocketError n) st = (if ws_socket st = Some n
     then Inr (reject_transient (plain_error (js ''Error'') (js ''Agent control websocket error'')) st) else Inr st)"
| "ws_step (Command handler ps) st = Inr (dispatch_command handler ps st)"
| "ws_step (Sleeps agent) st = sleep_transport agent st"
| "ws_step CloseTransport st = Inr (close_transport st)"

text \<open>What a failed message leaves is what it found.\<close>

definition ws_run :: "ws_event list \<Rightarrow> ws_state \<Rightarrow> ws_state" where
  "ws_run es st = fold (\<lambda>e st. case ws_step e st of Inl _ \<Rightarrow> st | Inr st1 \<Rightarrow> st1) es st"

end
