(* ===== verification/Worker_Transport_Laws.thy ===== *)
theory Worker_Transport_Laws
  imports Worker_Transport "HOL-Library.Sublist" "HOL-Library.Multiset"
begin

text \<open>
  Laws of the transport: no waiter is settled twice, jobs are handed out in the order they came and none is lost,
  a delivery is sent at most five times, and a reply that comes late is taken for the reply to the next request.
\<close>

section \<open>Waiters\<close>

definition still_waiting :: "ws_state \<Rightarrow> nat multiset" where
  "still_waiting st = mset (concat (map snd (ws_pending st))) + mset (map snd (ws_deliveries st)) + mset (ws_job_waiters st)
     + mset (map snd (ws_approval_waiters st))"

definition all_waiters :: "ws_state \<Rightarrow> nat multiset" where
  "all_waiters st = still_waiting st + mset (map fst (ws_settled st))"

definition numbers :: "nat \<Rightarrow> nat \<Rightarrow> nat multiset" where
  "numbers a b = mset_set {a..<b}"

lemma numbers_split: "a \<le> b \<Longrightarrow> b \<le> c \<Longrightarrow> numbers a c = numbers a b + numbers b c"
  unfolding numbers_def by (subst mset_set_Union[symmetric]) (auto simp: ivl_disj_un)

lemma numbers_simps [simp]: "numbers a a = {#}" "numbers a (Suc a) = {#a#}"
  by (simp_all add: numbers_def)

lemma count_numbers: "count (numbers a b) n \<le> 1"
  by (simp add: numbers_def count_mset_set')

definition waiters_inv :: "ws_state \<Rightarrow> bool" where
  [inv_defs]: "waiters_inv st \<longleftrightarrow> all_waiters st \<subseteq># numbers 0 (ws_next st)"

text \<open>A step may drop waiters and settle them, and add the next one.\<close>

definition moves :: "ws_state \<Rightarrow> ws_state \<Rightarrow> bool" where
  "moves st st' \<longleftrightarrow> ws_next st \<le> ws_next st' \<and> all_waiters st' \<subseteq># all_waiters st + numbers (ws_next st) (ws_next st')"

lemma moves_refl [simp]: "moves st st"
  by (simp add: moves_def)

lemma moves_trans:
  assumes "moves a b" "moves b c"
  shows "moves a c"
proof -
  have r: "numbers (ws_next a) (ws_next c) = numbers (ws_next a) (ws_next b) + numbers (ws_next b) (ws_next c)"
    using assms by (intro numbers_split) (simp_all add: moves_def)
  have "all_waiters c \<subseteq># all_waiters b + numbers (ws_next b) (ws_next c)" using assms(2) by (simp add: moves_def)
  also have "\<dots> \<subseteq># all_waiters a + numbers (ws_next a) (ws_next b) + numbers (ws_next b) (ws_next c)"
    using assms(1) by (simp add: moves_def)
  finally show ?thesis using assms r by (simp add: moves_def add.assoc)
qed

lemma moves_inv:
  assumes "moves st st'" "waiters_inv st"
  shows "waiters_inv st'"
proof -
  have "numbers 0 (ws_next st') = numbers 0 (ws_next st) + numbers (ws_next st) (ws_next st')"
    using assms(1) by (intro numbers_split) (simp_all add: moves_def)
  moreover have "all_waiters st' \<subseteq># all_waiters st + numbers (ws_next st) (ws_next st')" using assms(1) by (simp add: moves_def)
  ultimately show ?thesis using assms(2) by (auto simp: waiters_inv_def intro: subset_mset.order_trans mset_subset_eq_mono_add)
qed

lemma mset_map_del: "mset (map snd (map_del k m)) \<subseteq># mset (map snd m)"
  by (induction m) (auto simp: map_del_def intro: subset_mset.order_trans)

lemma mset_del_of: "map_of m k = Some v \<Longrightarrow> add_mset v (mset (map snd (map_del k m))) \<subseteq># mset (map snd m)"
proof (induction m)
  case (Cons p m)
  then show ?case using mset_map_del[of k m] by (cases p) (auto simp: map_del_def split: if_splits)
qed simp

lemma mset_set_of: "mset (map snd (map_set k v m)) \<subseteq># add_mset v (mset (map snd m))"
  by (induction k v m rule: map_set.induct) (auto simp: add_mset_commute)

lemma concat_set_of: "mset (concat (map snd (map_set t xs m))) + (case map_of m t of Some ns \<Rightarrow> mset ns | None \<Rightarrow> {#})
    = mset (concat (map snd m)) + mset xs"
  by (induction t xs m rule: map_set.induct) (auto split: option.splits)

lemma concat_del: "mset (concat (map snd (map_del t m))) \<subseteq># mset (concat (map snd m))"
  by (induction m) (auto simp: map_del_def intro: subset_mset.order_trans)

lemma concat_del_of: "mset (concat (map snd (map_del t m))) + (case map_of m t of Some ns \<Rightarrow> mset ns | None \<Rightarrow> {#}) \<subseteq># mset (concat (map snd m))"
proof (induction m)
  case (Cons p m)
  then show ?case using concat_del[of t m] by (cases p) (auto simp: map_del_def split: if_splits option.splits)
qed (simp add: map_del_def)

lemma settle_fold:
  "map fst (ws_settled (fold (settle_waiter r) ns st)) = map fst (ws_settled st) @ ns"
  "ws_pending (fold (settle_waiter r) ns st) = ws_pending st" "ws_deliveries (fold (settle_waiter r) ns st) = ws_deliveries st"
  "ws_job_waiters (fold (settle_waiter r) ns st) = ws_job_waiters st" "ws_approval_waiters (fold (settle_waiter r) ns st) = ws_approval_waiters st"
  "ws_next (fold (settle_waiter r) ns st) = ws_next st" "ws_jobs (fold (settle_waiter r) ns st) = ws_jobs st"
  "ws_approval_queue (fold (settle_waiter r) ns st) = ws_approval_queue st"
  by (induction ns arbitrary: st) (simp_all add: settle_waiter_def)

lemmas waiter_defs = moves_def all_waiters_def still_waiting_def settle_fold

lemma moves_same:
  "ws_pending st' = ws_pending st \<Longrightarrow> ws_deliveries st' = ws_deliveries st \<Longrightarrow> ws_job_waiters st' = ws_job_waiters st
   \<Longrightarrow> ws_approval_waiters st' = ws_approval_waiters st \<Longrightarrow> ws_settled st' = ws_settled st \<Longrightarrow> ws_next st' = ws_next st \<Longrightarrow> moves st st'"
  by (simp add: waiter_defs)

lemma moves_reject_transient: "moves st (reject_transient e st)"
  by (simp add: reject_transient_def waiter_defs ac_simps)

lemma moves_flush: "moves st (flush_job_waiters st)"
  by (simp add: flush_job_waiters_def waiter_defs ac_simps)

lemma moves_reject_all: "moves st (reject_all e st)"
proof -
  have "moves (reject_transient e st) (reject_all e st)"
    by (simp add: reject_all_def Let_def waiter_defs ac_simps)
  then show ?thesis using moves_reject_transient moves_trans by blast
qed

lemma moves_close: "moves st (close_transport st)"
proof -
  have "moves st (st\<lparr>ws_closed := True\<rparr>)" by (rule moves_same) simp_all
  moreover have "moves (reject_all closed_error (flush_job_waiters (st\<lparr>ws_closed := True\<rparr>))) (close_transport st)"
    unfolding close_transport_def by (rule moves_same) simp_all
  ultimately show ?thesis using moves_flush moves_reject_all moves_trans by meson
qed

lemma ensure_same: "ensure_connected b s st = (r, st') \<Longrightarrow> ws_pending st' = ws_pending st \<and> ws_deliveries st' = ws_deliveries st
    \<and> ws_job_waiters st' = ws_job_waiters st \<and> ws_approval_waiters st' = ws_approval_waiters st \<and> ws_settled st' = ws_settled st
    \<and> ws_next st' = ws_next st \<and> ws_jobs st' = ws_jobs st \<and> ws_approval_queue st' = ws_approval_queue st"
  by (auto simp: ensure_connected_def split: if_splits option.splits)

lemma moves_ensure: "ensure_connected b s st = (r, st') \<Longrightarrow> moves st st'"
  using ensure_same[of b s st r st'] by (intro moves_same) simp_all

lemma send_same: "send body st = Inr st' \<Longrightarrow> st' = st\<lparr>ws_sent := ws_sent st @ [body]\<rparr>"
  by (auto simp: send_def split: if_splits)

lemma moves_send: "send body st = Inr st' \<Longrightarrow> moves st st'"
  using send_same[of body st st'] by (intro moves_same) simp_all

lemma moves_wait: "moves st (snd (wait_for t st))"
  using concat_set_of[of t "pending_of t st @ [ws_next st]" "ws_pending st"]
  by (auto simp: wait_for_def waiter_defs pending_of_def split: option.splits)

lemma moves_ask: "moves st (snd (ask t body st))"
proof -
  have "moves st (snd (wait_for t st))" by (rule moves_wait)
  moreover have "moves (snd (wait_for t st)) (snd (ask t body st))"
    using moves_send by (auto simp: ask_def split: prod.split sum.split)
  ultimately show ?thesis by (rule moves_trans)
qed

lemma moves_fresh: "moves st (fresh_waiter r st)"
  by (simp add: fresh_waiter_def settle_waiter_def waiter_defs)

lemma moves_claim: "moves st (snd (claim_job b s st))"
proof (cases "ws_closed st")
  case True
  then show ?thesis using moves_fresh by (simp add: claim_job_def)
next
  case False
  obtain r st1 where e: "ensure_connected b s st = (r, st1)" by fastforce
  have "moves st1 (snd (claim_job b s st))"
  proof (cases r)
    case (Inl x)
    then show ?thesis using False e by (simp add: claim_job_def)
  next
    case (Inr u)
    show ?thesis
    proof (cases "ws_jobs st1")
      case Nil
      then show ?thesis using False e Inr by (simp add: claim_job_def waiter_defs ac_simps)
    next
      case (Cons j rest)
      have "moves st1 (st1\<lparr>ws_jobs := rest\<rparr>)" by (rule moves_same) simp_all
      from moves_trans[OF this moves_fresh] show ?thesis using False e Inr Cons by (simp add: claim_job_def)
    qed
  qed
  then show ?thesis using moves_ensure[OF e] moves_trans by blast
qed

lemma moves_approval_wait: "moves st (wait_for_approval i st)"
proof (cases "map_of (ws_approval_queue st) i")
  case None
  then show ?thesis using mset_set_of[of i "ws_next st" "ws_approval_waiters st"]
    by (simp add: wait_for_approval_def waiter_defs ac_simps)
next
  case (Some d)
  have "moves st (st\<lparr>ws_approval_queue := map_del i (ws_approval_queue st)\<rparr>)" by (rule moves_same) simp_all
  from moves_trans[OF this moves_fresh] show ?thesis using Some by (simp add: wait_for_approval_def)
qed

lemma moves_job: "moves st (receive_job j st)"
  by (auto simp: receive_job_def settle_waiter_def waiter_defs ac_simps split: list.split)

lemma moves_approval: "moves st (receive_approval ps st)"
proof -
  have "moves st (settle_waiter (Decided d) n (st\<lparr>ws_approval_waiters := map_del i (ws_approval_waiters st)\<rparr>))"
    if "map_of (ws_approval_waiters st) i = Some n" for i n d
    using mset_del_of[OF that] by (simp add: settle_waiter_def waiter_defs ac_simps)
  moreover have "moves st (st\<lparr>ws_approval_queue := q\<rparr>)" for q by (rule moves_same) simp_all
  ultimately show ?thesis by (simp add: receive_approval_def Let_def split: jsval.split option.split)
qed

lemma moves_ack: "moves st (receive_ack ps st)"
proof -
  have "moves st (settle_waiter x n (st\<lparr>ws_deliveries := map_del i (ws_deliveries st)\<rparr>))"
    if "map_of (ws_deliveries st) i = Some n" for i n x
    using mset_del_of[OF that] by (simp add: settle_waiter_def waiter_defs ac_simps)
  then show ?thesis by (simp add: receive_ack_def Let_def split: option.split)
qed

lemma moves_delivery_failed: "moves st (delivery_failed e i st)"
proof -
  have "moves st (settle_waiter x n (st\<lparr>ws_deliveries := map_del i (ws_deliveries st)\<rparr>))"
    if "map_of (ws_deliveries st) i = Some n" for i n x
    using mset_del_of[OF that] by (simp add: settle_waiter_def waiter_defs ac_simps)
  then show ?thesis by (simp add: delivery_failed_def split: option.split)
qed

lemma moves_answer: "moves st (receive_answer t v st)"
proof (cases "pending_of t st")
  case (Cons n ns)
  then have "map_of (ws_pending st) t = Some (n # ns)" by (auto simp: pending_of_def split: option.splits)
  then show ?thesis using Cons concat_set_of[of t ns "ws_pending st"]
    by (simp add: receive_answer_def settle_waiter_def waiter_defs)
qed (simp add: receive_answer_def)

lemma mset_cancel: "a + m = c + f \<Longrightarrow> m = add_mset n f + d \<Longrightarrow> a + add_mset n d = c"
  by simp

lemma moves_timeout:
  assumes "n \<in> set (pending_of t st)"
  shows "moves st (settle_waiter r n (remove_pending t n st))"
proof -
  obtain ns where ns: "map_of (ws_pending st) t = Some ns" "pending_of t st = ns" using assms by (cases "map_of (ws_pending st) t") (auto simp: pending_of_def)
  have has: "map_has (ws_pending st) t" using ns(1) by (simp add: map_has_def del: map_has_iff)
  have less: "add_mset n (mset (filter (\<lambda>m. m \<noteq> n) ns)) \<subseteq># mset ns"
  proof -
    have "mset ns = filter_mset (\<lambda>m. m \<noteq> n) (mset ns) + filter_mset (\<lambda>m. \<not> m \<noteq> n) (mset ns)" by (rule multiset_partition)
    moreover have "{#n#} \<subseteq># filter_mset (\<lambda>m. \<not> m \<noteq> n) (mset ns)" using assms ns(2) by (simp add: mset_subset_eq_single)
    ultimately show ?thesis by (metis add_mset_add_single mset_filter subset_mset.add_left_mono)
  qed
  show ?thesis
  proof (cases "filter (\<lambda>m. m \<noteq> n) ns = []")
    case True
    then have "remove_pending t n st = st\<lparr>ws_pending := map_del t (ws_pending st)\<rparr>" using has ns by (simp add: remove_pending_def Let_def)
    moreover have "add_mset n (mset (concat (map snd (map_del t (ws_pending st))))) \<subseteq># mset (concat (map snd (ws_pending st)))"
    proof -
      have "{#n#} \<subseteq># mset ns" using less True by simp
      then have "mset (concat (map snd (map_del t (ws_pending st)))) + {#n#} \<subseteq># mset (concat (map snd (map_del t (ws_pending st)))) + mset ns"
        by (rule subset_mset.add_left_mono)
      also have "\<dots> \<subseteq># mset (concat (map snd (ws_pending st)))" using concat_del_of[of t "ws_pending st"] ns(1) by simp
      finally show ?thesis by simp
    qed
    ultimately show ?thesis by (simp add: settle_waiter_def waiter_defs)
  next
    case False
    then have "remove_pending t n st = st\<lparr>ws_pending := map_set t (filter (\<lambda>m. m \<noteq> n) ns) (ws_pending st)\<rparr>" using has ns by (simp add: remove_pending_def Let_def)
    moreover have "add_mset n (mset (concat (map snd (map_set t (filter (\<lambda>m. m \<noteq> n) ns) (ws_pending st))))) \<subseteq># mset (concat (map snd (ws_pending st)))"
    proof -
      let ?a = "mset (concat (map snd (map_set t (filter (\<lambda>m. m \<noteq> n) ns) (ws_pending st))))"
      let ?f = "mset (filter (\<lambda>m. m \<noteq> n) ns)" and ?c = "mset (concat (map snd (ws_pending st)))"
      have 1: "?a + mset ns = ?c + ?f"
        using concat_set_of[of t "filter (\<lambda>m. m \<noteq> n) ns" "ws_pending st"] ns(1) by (simp only: option.case)
      obtain d where 2: "mset ns = add_mset n ?f + d" using less by (metis subset_mset.le_iff_add)
      from mset_cancel[OF 1 2] have "?a + add_mset n d = ?c" .
      then have "?c = add_mset n ?a + d" by (simp only: union_mset_add_mset_right union_mset_add_mset_left)
      then show ?thesis by (simp only: mset_subset_eq_add_left)
    qed
    ultimately show ?thesis by (simp add: settle_waiter_def waiter_defs)
  qed
qed

lemma moves_message: "on_message v st = Inr st' \<Longrightarrow> moves st st'"
  using moves_reject_all moves_job moves_approval moves_ack moves_answer
  by (auto simp: on_message_def Let_def split: option.splits jsval.splits if_splits sum.splits)

lemma moves_delivery: "moves st (wait_for_delivery i st)"
  using mset_set_of[of i "ws_next st" "ws_deliveries st"] by (simp add: wait_for_delivery_def waiter_defs ac_simps)

text \<open>A command changes nothing but what was sent, and is answered once while the socket is open.\<close>

lemma dispatch_cases: "dispatch_command h ps st = st \<or> (\<exists>b. dispatch_command h ps st = st\<lparr>ws_sent := ws_sent st @ [b]\<rparr>)"
  by (auto simp: dispatch_command_def send_failure_def send_def Let_def split: jsval.split sum.split option.split)

lemma dispatch_answers:
  "ws_socket st \<noteq> None \<Longrightarrow> ws_open st \<Longrightarrow> str_of (getp ps ''commandId'') = Some i \<Longrightarrow> i \<noteq> [] \<Longrightarrow> str_of (getp ps ''name'') = Some n \<Longrightarrow> n \<noteq> []
   \<Longrightarrow> \<exists>body. dispatch_command h ps st = st\<lparr>ws_sent := ws_sent st @ [body]\<rparr>"
  by (auto simp: dispatch_command_def send_failure_def send_def Let_def split: jsval.splits sum.split option.split elim!: str_of.elims)

lemma moves_dispatch: "moves st (dispatch_command h ps st)"
proof -
  have "moves st (st\<lparr>ws_sent := b\<rparr>)" for b by (rule moves_same) simp_all
  then show ?thesis using dispatch_cases[of h ps st] moves_refl by fastforce
qed

lemma moves_sleep: "sleep_transport a st = Inr st' \<Longrightarrow> moves st st'"
  using moves_trans[OF moves_send moves_close] by (auto simp: sleep_transport_def split: sum.splits)

lemma ws_step_moves:
  assumes "ws_step e st = Inr st'"
  shows "moves st st'"
proof (cases e)
  case (Register b s)
  obtain r st1 where en: "ensure_connected b s (snd (wait_for (js ''agent.registered'') st)) = (r, st1)" by fastforce
  have m: "moves st st1" using moves_trans[OF moves_wait moves_ensure[OF en]] .
  show ?thesis using assms Register en m moves_trans[OF m moves_close] by (cases r) auto
next
  case (AskFor b s t body)
  obtain r st1 where en: "ensure_connected b s st = (r, st1)" by fastforce
  show ?thesis using assms AskFor en moves_ensure[OF en] moves_trans[OF moves_ensure[OF en] moves_ask] by (cases r) auto
next
  case (AskTimedOut t n)
  then show ?thesis using assms moves_timeout[of n t st] by (auto split: if_splits)
next
  case (PostEvents b s es body)
  obtain r st1 where en: "ensure_connected b s st = (r, st1)" by fastforce
  have "moves st st2" if "send body st1 = Inr st2" for st2 using moves_trans[OF moves_ensure[OF en] moves_send[OF that]] .
  then show ?thesis using assms PostEvents en moves_ensure[OF en] by (auto simp: post_events_def split: if_splits sum.splits)
next
  case (SendDelivery b s i body)
  obtain r st1 where en: "ensure_connected b s st = (r, st1)" by fastforce
  have w: "moves st (wait_for_delivery i st1)" using moves_trans[OF moves_ensure[OF en] moves_delivery] .
  have "moves st st2" if "send body (wait_for_delivery i st1) = Inr st2" for st2 using moves_trans[OF w moves_send[OF that]] .
  then show ?thesis using assms SendDelivery en moves_ensure[OF en] moves_trans[OF w moves_delivery_failed] by (auto simp: Let_def split: sum.splits)
next
  case (SocketClosed n)
  have "moves st (reject_transient closed_error (st\<lparr>ws_socket := None, ws_open := False\<rparr>))"
    by (rule moves_trans[OF _ moves_reject_transient]) (rule moves_same, simp_all)
  then show ?thesis using assms SocketClosed by (auto split: if_splits)
next
  case (SocketError n)
  then show ?thesis using assms moves_reject_transient by (auto split: if_splits)
qed (use assms moves_claim moves_approval_wait moves_delivery_failed moves_message moves_close moves_dispatch moves_sleep in auto)

interpretation ws: machine ws_step waiters_inv
  by unfold_locales (rule moves_inv[OF ws_step_moves])

lemma new_transport_inv: "waiters_inv new_transport"
  by (simp add: waiters_inv_def all_waiters_def still_waiting_def new_transport_def)

lemma ws_run_inv: "waiters_inv st \<Longrightarrow> waiters_inv (ws_run es st)"
  unfolding ws_run_def by (induction es arbitrary: st) (auto split: sum.split dest: ws.exec_inv)

lemma few_distinct: "(\<And>n. count (mset xs) n \<le> 1) \<Longrightarrow> distinct xs"
proof (induction xs)
  case (Cons x xs)
  have "count (mset xs) x = 0" using Cons.prems[of x] by simp
  moreover have "count (mset xs) n \<le> 1" for n
    by (rule order.trans[OF _ Cons.prems[of n]]) simp
  ultimately show ?case using Cons.IH by (simp add: count_eq_zero_iff)
qed simp

lemma waiters_distinct: "waiters_inv st \<Longrightarrow> distinct (map fst (ws_settled st)) \<and> set_mset (still_waiting st) \<inter> set (map fst (ws_settled st)) = {}"
proof -
  assume "waiters_inv st"
  then have s: "still_waiting st + mset (map fst (ws_settled st)) \<subseteq># numbers 0 (ws_next st)" by (simp add: waiters_inv_def all_waiters_def)
  have one: "count (still_waiting st) n + count (mset (map fst (ws_settled st))) n \<le> 1" for n
    using mset_subset_eq_count[OF s, of n] count_numbers[of 0 "ws_next st" n] by simp
  have "distinct (map fst (ws_settled st))" by (rule few_distinct) (use one add_leD2 in blast)
  moreover have "n \<notin> set (map fst (ws_settled st))" if "n \<in># still_waiting st" for n
  proof
    assume "n \<in> set (map fst (ws_settled st))"
    then have "0 < count (mset (map fst (ws_settled st))) n" by (simp del: set_map mset_map)
    moreover have "0 < count (still_waiting st) n" using that by simp
    ultimately show False using one[of n] by linarith
  qed
  ultimately show ?thesis by blast
qed

section \<open>Jobs are handed out in order\<close>

fun given_job :: "nat \<times> settlement \<Rightarrow> job list" where
  "given_job (n, GaveJob j) = [j]"
| "given_job _ = []"

definition jobs_given :: "ws_state \<Rightarrow> job list" where
  "jobs_given st = concat (map given_job (ws_settled st))"

definition job_received :: "jsval option \<Rightarrow> job list" where
  "job_received v = (case v of
     Some (JObj ps) \<Rightarrow> if message_type ps = js ''agent.job'' then (case parse_job ps of Inl e \<Rightarrow> [] | Inr j \<Rightarrow> [j]) else []
   | _ \<Rightarrow> [])"

fun event_job :: "ws_event \<Rightarrow> job list" where
  "event_job (Message v) = job_received v"
| "event_job _ = []"

definition jobs_received :: "ws_event list \<Rightarrow> job list" where
  "jobs_received es = concat (map event_job es)"

text \<open>Jobs wait for claims or claims for jobs, not both.\<close>

definition jobs_inv :: "ws_state \<Rightarrow> bool" where
  "jobs_inv st \<longleftrightarrow> ws_jobs st = [] \<or> ws_job_waiters st = []"

definition jobs_known :: "ws_state \<Rightarrow> job list" where
  "jobs_known st = jobs_given st @ ws_jobs st"

text \<open>A step that has nothing to do with jobs.\<close>

definition job_free :: "ws_state \<Rightarrow> ws_state \<Rightarrow> bool" where
  "job_free st st' \<longleftrightarrow> jobs_given st' = jobs_given st \<and> ws_jobs st' = ws_jobs st \<and> (ws_job_waiters st' = ws_job_waiters st \<or> ws_job_waiters st' = [])"

lemma job_free_refl: "job_free st st"
  by (simp add: job_free_def)

lemma job_free_trans: "job_free a b \<Longrightarrow> job_free b c \<Longrightarrow> job_free a c"
  by (auto simp: job_free_def)

lemma job_free_same: "ws_settled st' = ws_settled st \<Longrightarrow> ws_jobs st' = ws_jobs st \<Longrightarrow> ws_job_waiters st' = ws_job_waiters st \<Longrightarrow> job_free st st'"
  by (simp add: job_free_def jobs_given_def)

lemma job_free_known: "job_free st st' \<Longrightarrow> jobs_known st' = jobs_known st \<and> (jobs_inv st \<longrightarrow> jobs_inv st')"
  by (auto simp: job_free_def jobs_known_def jobs_inv_def)

lemma given_fold: "(\<And>n. given_job (n, r) = []) \<Longrightarrow> jobs_given (fold (settle_waiter r) ns st) = jobs_given st"
  by (induction ns arbitrary: st) (simp_all add: settle_waiter_def jobs_given_def)

lemma job_free_settle: "(\<And>n. given_job (n, r) = []) \<Longrightarrow> job_free st (settle_waiter r n st)"
  by (simp add: job_free_def settle_waiter_def jobs_given_def)

lemma job_free_reject_transient: "job_free st (reject_transient e st)"
  by (simp add: reject_transient_def job_free_def settle_fold given_fold) (simp add: jobs_given_def)

lemma job_free_reject_all: "job_free st (reject_all e st)"
proof -
  have "job_free (reject_transient e st) (reject_all e st)"
    by (simp add: reject_all_def Let_def job_free_def settle_fold given_fold) (simp add: jobs_given_def)
  then show ?thesis using job_free_reject_transient job_free_trans by blast
qed

lemma job_free_close: "job_free st (close_transport st)"
proof -
  have "job_free st (flush_job_waiters (st\<lparr>ws_closed := True\<rparr>))"
    by (simp add: flush_job_waiters_def job_free_def settle_fold given_fold) (simp add: jobs_given_def)
  moreover have "job_free (reject_all closed_error (flush_job_waiters (st\<lparr>ws_closed := True\<rparr>))) (close_transport st)"
    unfolding close_transport_def by (rule job_free_same) simp_all
  ultimately show ?thesis using job_free_reject_all job_free_trans by meson
qed

lemma job_free_ensure: "ensure_connected b s st = (r, st') \<Longrightarrow> job_free st st'"
  using ensure_same[of b s st r st'] by (intro job_free_same) simp_all

lemma job_free_send: "send body st = Inr st' \<Longrightarrow> job_free st st'"
  using send_same[of body st st'] by (intro job_free_same) simp_all

lemma job_free_wait: "job_free st (snd (wait_for t st))"
  by (rule job_free_same) (simp_all add: wait_for_def)

lemma job_free_ask: "job_free st (snd (ask t body st))"
proof -
  have "job_free (snd (wait_for t st)) (snd (ask t body st))"
    using job_free_send by (auto simp: ask_def job_free_def split: prod.split sum.split)
  with job_free_wait show ?thesis by (rule job_free_trans)
qed

lemma job_free_dispatch: "job_free st (dispatch_command h ps st)"
proof -
  have "job_free st (st\<lparr>ws_sent := b\<rparr>)" for b by (rule job_free_same) simp_all
  then show ?thesis using dispatch_cases[of h ps st] job_free_refl by fastforce
qed

lemma job_free_sleep: "sleep_transport a st = Inr st' \<Longrightarrow> job_free st st'"
  using job_free_trans[OF job_free_send job_free_close] by (auto simp: sleep_transport_def split: sum.splits)

lemma job_free_approvals: "job_free st (wait_for_approval i st)" "job_free st (receive_approval ps st)"
  by (auto simp: wait_for_approval_def receive_approval_def fresh_waiter_def settle_waiter_def job_free_def jobs_given_def Let_def
      split: option.split jsval.split)

lemma job_free_acks: "job_free st (receive_ack ps st)" "job_free st (delivery_failed e i st)" "job_free st (wait_for_delivery i st)"
    "job_free st (receive_answer t v st)"
  by (auto simp: receive_ack_def delivery_failed_def wait_for_delivery_def receive_answer_def settle_waiter_def job_free_def jobs_given_def
      Let_def split: option.split list.split)

lemma claim_known: "jobs_inv st \<Longrightarrow> jobs_known (snd (claim_job b s st)) = jobs_known st \<and> jobs_inv (snd (claim_job b s st))"
proof (cases "ws_closed st")
  case True
  assume "jobs_inv st"
  then show ?thesis using True by (auto simp: claim_job_def fresh_waiter_def settle_waiter_def jobs_known_def jobs_given_def jobs_inv_def)
next
  case False
  assume i: "jobs_inv st"
  obtain r st1 where e: "ensure_connected b s st = (r, st1)" by fastforce
  have k: "jobs_known st1 = jobs_known st" "jobs_inv st1" using job_free_known[OF job_free_ensure[OF e]] i by simp_all
  then show ?thesis using False e
    by (auto simp: claim_job_def fresh_waiter_def settle_waiter_def jobs_known_def jobs_given_def jobs_inv_def split: sum.split list.split)
qed

lemma receive_known: "jobs_inv st \<Longrightarrow> jobs_known (receive_job j st) = jobs_known st @ [j] \<and> jobs_inv (receive_job j st)"
  by (auto simp: receive_job_def settle_waiter_def jobs_known_def jobs_given_def jobs_inv_def split: list.split)

lemma on_message_cases:
  assumes "on_message v st = Inr st'"
  shows "job_received v = [] \<and> job_free st st' \<or> (\<exists>j. job_received v = [j] \<and> st' = receive_job j st)"
proof (cases v)
  case None
  then show ?thesis using assms by (simp add: on_message_def job_received_def job_free_def)
next
  case (Some w)
  show ?thesis
  proof (cases "\<exists>ps. w = JObj ps")
    case False
    then have "st' = receive_answer [] w st" "job_received v = []"
      using assms Some by (cases w; simp add: on_message_def job_received_def message_type_def Let_def)+
    then show ?thesis using job_free_acks(4) by simp
  next
    case True
    then obtain ps where w: "w = JObj ps" by blast
    show ?thesis
    proof (cases "message_type ps = js ''agent.job''")
      case True
      then show ?thesis using assms Some w by (simp add: on_message_def job_received_def Let_def split: sum.splits)
    next
      case no: False
      then have "job_received v = []" by (simp add: job_received_def Some w)
      moreover have "st' \<in> {reject_all (plain_error (js ''Error'')
               (case getp ps ''message'' of JStr s \<Rightarrow> s | _ \<Rightarrow> js ''Agent websocket request failed'')) st, receive_approval ps st, st, receive_ack ps st,
               receive_answer (message_type ps) w st}"
        using assms no by (simp add: on_message_def Some w Let_def split: if_splits)
      ultimately show ?thesis by (auto intro: job_free_reject_all job_free_approvals(2) job_free_acks job_free_refl)
    qed
  qed
qed

lemma message_known:
  assumes "on_message v st = Inr st'" "jobs_inv st"
  shows "jobs_known st' = jobs_known st @ job_received v \<and> jobs_inv st'"
  using on_message_cases[OF assms(1)] job_free_known[of st st'] receive_known[OF assms(2)] assms(2) by auto

lemma message_fails: "on_message v st = Inl e \<Longrightarrow> job_received v = []"
  by (auto simp: on_message_def job_received_def Let_def split: option.splits jsval.splits if_splits sum.splits)

lemma step_known:
  assumes "ws_step e st = Inr st'" "jobs_inv st"
  shows "jobs_known st' = jobs_known st @ event_job e \<and> jobs_inv st'"
proof (cases "\<exists>v. e = Message v \<or> (\<exists>b s. e = ClaimJob b s)")
  case True
  then show ?thesis using assms message_known claim_known by auto
next
  case False
  have "job_free st st'"
  proof (cases e)
    case (Register b s)
    obtain r st1 where en: "ensure_connected b s (snd (wait_for (js ''agent.registered'') st)) = (r, st1)" by fastforce
    have m: "job_free st st1" using job_free_trans[OF job_free_wait job_free_ensure[OF en]] .
    show ?thesis using assms(1) Register en m job_free_trans[OF m job_free_close] by (cases r) auto
  next
    case (AskFor b s t body)
    obtain r st1 where en: "ensure_connected b s st = (r, st1)" by fastforce
    show ?thesis using assms(1) AskFor en job_free_ensure[OF en] job_free_trans[OF job_free_ensure[OF en] job_free_ask] by (cases r) auto
  next
    case (AskTimedOut t n)
    have "job_free st (settle_waiter (Failed (timed_out t)) n (remove_pending t n st))"
      by (auto simp: settle_waiter_def remove_pending_def Let_def job_free_def jobs_given_def)
    then show ?thesis using assms(1) AskTimedOut by (auto simp: job_free_def split: if_splits)
  next
    case (PostEvents b s es body)
    obtain r st1 where en: "ensure_connected b s st = (r, st1)" by fastforce
    have "job_free st st2" if "send body st1 = Inr st2" for st2 using job_free_trans[OF job_free_ensure[OF en] job_free_send[OF that]] .
    then show ?thesis using assms(1) PostEvents en job_free_ensure[OF en] by (auto simp: post_events_def job_free_def split: if_splits sum.splits)
  next
    case (SendDelivery b s i body)
    obtain r st1 where en: "ensure_connected b s st = (r, st1)" by fastforce
    have w: "job_free st (wait_for_delivery i st1)" using job_free_trans[OF job_free_ensure[OF en] job_free_acks(3)] .
    have "job_free st st2" if "send body (wait_for_delivery i st1) = Inr st2" for st2 using job_free_trans[OF w job_free_send[OF that]] .
    then show ?thesis using assms(1) SendDelivery en job_free_ensure[OF en] job_free_trans[OF w job_free_acks(2)] by (auto simp: Let_def split: sum.splits)
  next
    case (SocketClosed n)
    have "job_free st (reject_transient closed_error (st\<lparr>ws_socket := None, ws_open := False\<rparr>))"
      by (rule job_free_trans[OF _ job_free_reject_transient]) (rule job_free_same, simp_all)
    then show ?thesis using assms(1) SocketClosed by (auto simp: job_free_def split: if_splits)
  next
    case (SocketError n)
    then show ?thesis using assms(1) job_free_reject_transient by (auto simp: job_free_def split: if_splits)
  qed (use False assms(1) job_free_approvals job_free_acks job_free_close job_free_dispatch job_free_sleep in auto)
  then show ?thesis using job_free_known assms(2) False by (cases e) auto
qed

lemma run_known:
  "jobs_inv st \<Longrightarrow> jobs_known (ws_run es st) = jobs_known st @ jobs_received es \<and> jobs_inv (ws_run es st)"
proof (induction es arbitrary: st)
  case (Cons e es)
  show ?case
  proof (cases "ws_step e st")
    case (Inl x)
    then have "event_job e = []" by (cases e) (auto simp: message_fails Let_def split: sum.splits prod.splits if_splits)
    then show ?thesis using Cons Inl by (simp add: ws_run_def jobs_received_def)
  next
    case (Inr st1)
    then show ?thesis using Cons.IH[of st1] step_known[OF Inr Cons.prems] by (simp add: ws_run_def jobs_received_def)
  qed
qed (simp add: ws_run_def jobs_received_def)

lemma new_transport_jobs: "jobs_inv new_transport" "jobs_known new_transport = []"
  by (simp_all add: jobs_inv_def jobs_known_def jobs_given_def new_transport_def)

section \<open>Deliveries\<close>

lemma deliver_from_laws:
  assumes "deliver_from base gone goneb run k left prior = (r, sent, slept)"
  shows "length sent \<le> left \<and> sorted sent \<and> (\<forall>i\<in>set sent. k \<le> i) \<and> list_all (\<lambda>d. d \<le> 2000) slept \<and> length slept \<le> 4 - k
    \<and> (r = Inr () \<longrightarrow> sent \<noteq> [] \<and> run (last sent) = Acked)
    \<and> ((\<forall>i. k \<le> i \<and> i < k + left \<longrightarrow> \<not> gone i) \<longrightarrow> (r = Inr () \<longleftrightarrow> (\<exists>i. k \<le> i \<and> i < k + left \<and> run i = Acked)))"
  using assms
proof (induction left arbitrary: k prior r sent slept)
  case 0
  then show ?case by (subst (asm) deliver_from.simps) auto
next
  case (Suc l)
  show ?case
  proof (cases "gone k")
    case True
    then show ?thesis using Suc.prems by (subst (asm) deliver_from.simps) auto
  next
    case False
    show ?thesis
    proof (cases "run k = Acked")
      case True
      then have "r = Inr ()" "sent = [k]" "slept = []" using Suc.prems False by (subst (asm) deliver_from.simps, simp)+
      then show ?thesis using True by auto
    next
      case nack: False
      obtain e where e: "(case run k of NotConnected e \<Rightarrow> Some e | NotSent e \<Rightarrow> Some e | NotAcked e \<Rightarrow> Some e | Acked \<Rightarrow> None) = Some e"
        using nack by (cases "run k") auto
      define s0 where "s0 = (case run k of NotConnected _ \<Rightarrow> [] | NotSent _ \<Rightarrow> [] | NotAcked _ \<Rightarrow> [k] | Acked \<Rightarrow> [k])"
      define d0 where "d0 = (if k < 4 \<and> \<not> goneb k then [delivery_delay base k] else [])"
      obtain r' ss ds where rec: "deliver_from base gone goneb run (Suc k) l (Some (if is_error e then e else plain_error (js ''Error'') (err_text e))) = (r', ss, ds)"
        by (cases "deliver_from base gone goneb run (Suc k) l (Some (if is_error e then e else plain_error (js ''Error'') (err_text e)))")
      have "(r', s0 @ ss, d0 @ ds) = (r, sent, slept)"
        using Suc.prems unfolding deliver_from.simps[of base gone goneb run k "Suc l" prior]
        by (simp only: nat.case False if_False Let_def e option.case rec prod.case s0_def d0_def)
      then have res: "r = r'" "sent = s0 @ ss" "slept = d0 @ ds" by simp_all
      note ih = Suc.IH[OF rec]
      have s0: "length s0 \<le> 1" "set s0 \<subseteq> {k}" "sorted s0" by (auto simp: s0_def split: attempt.split)
      have d0: "length d0 + (4 - Suc k) \<le> 4 - k" "list_all (\<lambda>d. d \<le> 2000) d0" by (auto simp: d0_def delivery_delay_def)
      have range: "(\<exists>i. k \<le> i \<and> i < k + Suc l \<and> run i = Acked) \<longleftrightarrow> (\<exists>i. Suc k \<le> i \<and> i < Suc k + l \<and> run i = Acked)"
        using nack by (metis Suc_leD add_Suc_right add_Suc le_antisym not_less_eq_eq)
      have low: "\<forall>a\<in>set ss. Suc k \<le> a" using ih by blast
      have "sorted ss" using ih by blast
      moreover have "x \<le> y" if x: "x \<in> set s0" and y: "y \<in> set ss" for x y
      proof -
        have "x = k" using x s0(2) by blast
        moreover have "Suc k \<le> y" using low y by blast
        ultimately show ?thesis by (simp add: Suc_leD)
      qed
      ultimately have "sorted (s0 @ ss)" using s0(3) by (simp add: sorted_append)
      moreover have "\<forall>i\<in>set (s0 @ ss). k \<le> i" using s0(2) ih by auto
      ultimately show ?thesis using ih s0 d0 res range by auto
    qed
  qed
qed

section \<open>A late reply\<close>

text \<open>A request times out, the next one of the same type is sent, and then the reply to the first arrives.\<close>

definition late_reply :: "jsstring \<Rightarrow> jsval \<Rightarrow> jsval \<Rightarrow> jsval \<Rightarrow> ws_state \<Rightarrow> ws_state" where
  "late_reply t first_body next_body v st = ws_run
     [AskFor None 0 t first_body, AskTimedOut t (ws_next st), AskFor None 0 t next_body, Message (Some v)] st"

lemma late_reply_mixed:
  assumes "pending_of t st = []" "\<not> ws_closed st" "v = JObj ps" "message_type ps = t" "t \<notin> set reserved_types"
  shows "(Suc (ws_next st), Answered v) \<in> set (ws_settled (late_reply t a b v st))"
proof -
  define st1 where "st1 = (if ws_socket st \<noteq> None \<and> ws_open st then st else st\<lparr>ws_socket := Some 0, ws_open := True\<rparr>)"
  have e1: "ensure_connected None 0 st = (Inr (), st1)" using assms(2) by (simp add: ensure_connected_def st1_def)
  have o1: "ws_socket st1 \<noteq> None" "ws_open st1" "\<not> ws_closed st1" "ws_next st1 = ws_next st" "pending_of t st1 = []"
    using assms(1,2) by (auto simp: st1_def pending_of_def)
  have con: "ensure_connected None 0 s = (Inr (), s)" if "ws_socket s \<noteq> None" "ws_open s" "\<not> ws_closed s" for s
    using that by (simp add: ensure_connected_def)
  define st2 where "st2 = snd (ask t a st1)"
  have s2: "st2 = st1\<lparr>ws_next := Suc (ws_next st), ws_pending := map_set t [ws_next st] (ws_pending st1), ws_sent := ws_sent st1 @ [a]\<rparr>"
    using o1 by (auto simp: st2_def ask_def wait_for_def send_def)
  have p2: "pending_of t st2 = [ws_next st]" by (simp add: s2 pending_of_def)
  define st3 where "st3 = settle_waiter (Failed (timed_out t)) (ws_next st) (remove_pending t (ws_next st) st2)"
  have has: "map_has (ws_pending st2) t" by (simp add: s2 map_has_def del: map_has_iff)
  have s3: "st3 = st2\<lparr>ws_pending := map_del t (ws_pending st2), ws_settled := ws_settled st2 @ [(ws_next st, Failed (timed_out t))]\<rparr>"
    using has p2 by (simp add: st3_def remove_pending_def settle_waiter_def Let_def del: map_has_iff)
  have p3: "pending_of t st3 = []" by (simp add: s3 pending_of_def)
  define st4 where "st4 = snd (ask t b st3)"
  have o3: "ws_socket st3 \<noteq> None" "ws_open st3" "\<not> ws_closed st3" "ws_next st3 = Suc (ws_next st)" using o1 by (simp_all add: s3 s2)
  have p4: "pending_of t st4 = [Suc (ws_next st)]" using o3 p3
    by (auto simp: st4_def ask_def wait_for_def send_def pending_of_def)
  have "on_message (Some v) st4 = Inr (receive_answer t v st4)"
    using assms(3-5) by (simp add: on_message_def reserved_types_def Let_def)
  then have "late_reply t a b v st = receive_answer t v st4"
    using e1 con[OF o3(1-3)] p2 by (simp add: late_reply_def ws_run_def st2_def[symmetric] st3_def[symmetric] st4_def[symmetric])
  then show ?thesis using p4 by (simp add: receive_answer_def settle_waiter_def)
qed

end
