(* ===== verification/Spec2Isabelle.thy ===== *)
theory Spec2Isabelle
  imports Edit_Laws Model_Laws Model_Session_Laws Mutation_Laws Paths_Laws Rpc_Laws Run_State_Laws Subagent_Laws Worker_Laws Worker_Transport_Laws
begin

text \<open>
  Verification of the worker core of Kross (\<open>worker/core/src\<close>) and the worker around it (\<open>worker/src\<close>),
  the agent runtime that runs inside each member's remote computer. The worker claims the jobs of its
  conversations over a connection to the control plane and shows each run to its user. A run alternates between a model and tools: the session context
  keeps the conversation and assembles requests under a token budget, the tool gateway validates,
  approves, executes and traces the calls, the file tools change the workspace and journal what
  they change, and the loop watches its own progress.

  \<^bold>\<open>Conventions.\<close> A JavaScript string is a list of UTF-16 code units; a literal is written \<open>js ''..''\<close>
  or, for the Chinese texts, as code units. Maps are association lists in insertion order, as a
  JavaScript \<open>Map\<close> iterates. A method that throws returns \<open>Inl\<close>; a promise that never settles is
  \<open>None\<close>. Clocks, random ids and hashes are arguments. Asynchronous code is sequential between its
  awaits; what happens at an await (a signal, a timer, a result) is an argument that lists it.
  Numbers are integers or rationals; the one place that prints a double rounds it as ECMAScript does.

  \<^bold>\<open>Theories and sources.\<close>
  \<^item> \<open>Prelude\<close>, \<open>JsValue\<close>: strings, insertion-ordered maps, \<open>JSON.stringify\<close>; the locale \<open>machine\<close>
    (operations that may throw and an invariant they keep, lifted to runs) and the map interface.
  \<^item> \<open>Tokens\<close>: \<open>context/tokenEstimator.ts\<close>, \<open>contextPolicy.ts\<close>, the messages of \<open>llm/types.ts\<close>.
  \<^item> \<open>Thread\<close>, \<open>Thread_Inv\<close>, \<open>Thread_Restore\<close>, \<open>Compaction_Text\<close>: \<open>context/conversationThread.ts\<close>, its
    invariant under every operation, export and restore, and the text of a compaction entry.
  \<^item> \<open>Governor\<close>, \<open>Governor_Inv\<close>, \<open>Governor_Keeps\<close>, \<open>Governor_Total\<close>: \<open>context/contextGovernor.ts\<close>. The
    locales \<open>governor_steps\<close> and \<open>governed\<close> state what a predicate must survive to survive the whole
    pipeline; they are instantiated with well-formedness, tool pairing, the open turn and the token
    counts.
  \<^item> \<open>Session\<close>, \<open>Session_Laws\<close>: \<open>context/sessionContext.ts\<close> and \<open>llm/modelContextWindows.ts\<close>.
  \<^item> \<open>Errors\<close>, \<open>Retry\<close>: \<open>errors/runtimeError.ts\<close>, \<open>abort.ts\<close>, \<open>tools/toolRetry.ts\<close>.
  \<^item> \<open>Gateway\<close>, \<open>Gateway_Laws\<close>: \<open>tools/toolGateway.ts\<close>, \<open>tools/saasToolPolicy.ts\<close>, \<open>mcp/risk.ts\<close>.
  \<^item> \<open>Todo\<close>: \<open>todo/todoStore.ts\<close> and its tools.
  \<^item> \<open>Diff\<close>, \<open>Diff_Laws\<close>: \<open>tools/diffPreview.ts\<close>, \<open>tools/builtin/fileChangeStats.ts\<close>.
  \<^item> \<open>Edit\<close>, \<open>Edit_Laws\<close>: \<open>tools/builtin/edit.ts\<close>.
  \<^item> \<open>Paths\<close>, \<open>Paths_Laws\<close>: \<open>tools/builtin/paths.ts\<close>; \<open>realpath\<close> is an argument.
  \<^item> \<open>Workspace_Fs\<close>, \<open>Journal\<close>, \<open>Mutation\<close>, \<open>Mutation_Laws\<close>: a file system tree for the calls of
    \<open>node:fs\<close> that are used, \<open>mutations/mutationJournal.ts\<close>, \<open>mutations/mutationService.ts\<close> and
    \<open>tools/builtin/mutationRecorder.ts\<close>.
  \<^item> \<open>Stall\<close>: \<open>runtime/toolLoopStallDetector.ts\<close>, \<open>runProgressMonitor.ts\<close>, \<open>runPhase.ts\<close>.
  \<^item> \<open>Checkpoint\<close>, \<open>Batch\<close>, \<open>Batch_Laws\<close>: \<open>runtime/runCheckpoint.ts\<close>, \<open>tools/formatToolInputPreview.ts\<close>, the
    batch of tool calls of \<open>runtime/toolLoop.ts\<close> and the scheduler of \<open>runtime/toolLoopShared.ts\<close>.
  \<^item> \<open>Changed_Files\<close>: \<open>workspace/changedFiles.ts\<close> and the artifacts of a result.
  \<^item> \<open>Tool_Loop\<close>, \<open>Agent_Run\<close>: \<open>runtime/streamingToolLoop.ts\<close>, and of \<open>runtime/agentRuntime.ts\<close>,
    \<open>runtime/toolLoop.ts\<close>, \<open>runtime/sessionServices.ts\<close>, \<open>runtime/saasRuntimePolicy.ts\<close> and
    \<open>session/sessionWorkState.ts\<close> what starts, resumes, cancels, saves and restores a run. A round of the
    loop is numbered, and an environment gives what the model, the signal and the tools do in it.
  \<^item> \<open>Exchange\<close>, \<open>Tool_Loop_Laws\<close>, \<open>Run_Laws\<close>, \<open>Run_State_Laws\<close>: the order of calls and results that
    providers require, on messages and on thread entries; the locale \<open>closing_handlers\<close> states what the
    loop needs of its handlers to leave no turn open, with the handlers of fresh and of resumed runs as
    its interpretations.
  \<^item> \<open>Subagent\<close>, \<open>Subagent_Laws\<close>: \<open>runtime/completeToolLoop.ts\<close>, \<open>runtime/subagentRunner.ts\<close> with its
    types and format, and \<open>tools/builtin/task.ts\<close>: the loop without streaming, the subagent that runs it
    with a gateway of its own, and the Task tool by which a run asks for one.
  \<^item> \<open>Rpc_Stdio\<close>, \<open>Rpc_Laws\<close>: \<open>mcp/jsonRpcStdio.ts\<close>: framing of messages, and the client as a machine whose
    calls are requests, output, timers, aborts and the events of its process.
  \<^item> \<open>Images\<close>: \<open>llm/multimodal.ts\<close> and \<open>worker/src/workspaceImages.ts\<close>, the images of messages.
  \<^item> \<open>Worker_Turn\<close>, \<open>Worker_Laws\<close>: \<open>worker/src/agentLoop.ts\<close> and \<open>conversationRuntimeRegistry.ts\<close>, the
    turn that shows a run to its user, the loop over claimed jobs, the registry of hosts, the heartbeats.
    A turn takes the streams of a run as \<open>Agent_Run\<close> gives them.
  \<^item> \<open>Worker_Transport\<close>, \<open>Worker_Transport_Laws\<close>: \<open>worker/src/transport.ts\<close>, the connection to the control
    plane as a machine over its calls, messages, socket events and timers.
  \<^item> \<open>Model_Client\<close>, \<open>Model_Calls\<close>, \<open>Model_Laws\<close>: the providers, credentials, models and capabilities of \<open>llm/\<close>,
    the conversion of messages and answers, the metrics, and the client of \<open>llm/piAiLlmClient.ts\<close>; the
    provider package is an argument.
  \<^item> \<open>Telemetry\<close>: the stores of \<open>trace/\<close> and the usage of a run that \<open>runtime/agentRuntime.ts\<close> sums up.
  \<^item> \<open>Model_Session\<close>, \<open>Model_Session_Laws\<close>: \<open>runtime/modelSession.ts\<close> and the controls of a live runtime.

  \<^bold>\<open>Bounds and fuel.\<close> The hard truncation of the governor walks over a list that its own body extends;
  it takes fuel twice the length of the list plus one, and \<open>governor_always_returns\<close> shows that this
  is enough. Every other loop is structural or has a termination proof; the loop of the gateway is
  bounded by the attempts of its policy. A batch that waits for a call
  that never settles, and a loop that waits for such a batch or for a stream without end, are \<open>None\<close>;
  they return when their calls and streams do. The tool loop terminates because the iterations and the
  follow-ups that are left decrease.

  \<^bold>\<open>What the laws show.\<close> Per component: an invariant under every operation (threads, todo lists, the
  estimator, the gateway's registry, sessions), functional behaviour including the error branches,
  round trips (export and restore, undo, edit scripts), refinement (the journal replays itself, the
  edit tool does what its edits say), equivalence (rolling rows and table, request and snapshot) and
  the places where the code does not do what it means to, stated as theorems.

  \<^bold>\<open>Not modelled.\<close> The summariser and the read-only file tools are not modelled. Process and
  network I/O (the HTTP transport of MCP, start-up of the worker, ripgrep), the React front ends and the Java control plane are left out: they hold little logic
  that is not the behaviour of the systems they call.
\<close>







text \<open>
  C4: every tool call that a subagent starts is one of Read, Glob, Grep, Rg, List and Stat, in
  general mode also of Edit and Write, whatever its model asks for and whatever its environment
  does.
\<close>

theorem subagent_starts_only_its_tools:
  "case run_subagent env d r of
     Some (res, evs, Some st) \<Rightarrow> list_all (starts_in (map js ([''Read'', ''Glob'', ''Grep'', ''Rg'', ''List'', ''Stat'']
         @ (if sr_mode r = Some General then [''Edit'', ''Write''] else [])))) (ho_trace (cs_host st))
   | _ \<Rightarrow> True"
  using run_subagent_starts[of env d r]
  by (auto simp: child_starts_def mode_tools_def mode_of_def split: option.split prod.split)

text \<open>
  C5: handling the chunks of an output one after another leaves the client in the state that
  handling all of it at once does, wherever the borders fall.
\<close>

theorem reading_ignores_chunk_borders:
  "fold (on_stdout dec parse) (chunk # chunks) c = on_stdout dec parse (concat (chunk # chunks)) c"
  by (rule chunks_read)

text \<open>
  C6: a stream of framed messages is read back as exactly these messages, and nothing of it is
  left, for every codec that encodes ASCII by itself and reads the bodies back.
\<close>

theorem frames_are_read_back:
  assumes "ascii_codec enc dec" "list_all (reads_back enc dec parse) vs"
  shows "read_all dec parse (concat (map (frame enc) vs)) = (vs, [])"
  by (rule frames_read[OF assms])

theorem frames_are_read_back_witness:
  "read_all id demo_parse (concat (map (frame id) [demo_message, demo_message])) = ([demo_message, demo_message], [])"
  by (rule frames_are_read_back) (simp_all add: demo_codec)

text \<open>
  C7: after any sequence of calls, output, timers, aborts and process events, each request that
  got a number is pending or settled, not both, and settled once; later events only add
  outcomes; and closing the client settles every request.
\<close>

theorem rpc_requests_settle_once:
  "let c = rpc_run dec parse es new_rpc_client
   in distinct (map_keys (rp_pending c) @ map fst (rp_settled c))
     \<and> set (map_keys (rp_pending c)) \<union> set (map fst (rp_settled c)) = {1..<rp_next c}
     \<and> prefix (rp_settled c) (rp_settled (rpc_run dec parse (es @ later) new_rpc_client))
     \<and> set (map fst (rp_settled (rpc_close c))) = {1..<rp_next (rpc_close c)}"
proof -
  define c where "c = rpc_run dec parse es new_rpc_client"
  have i: "rpc_inv c" "rpc_inv (rpc_close c)"
    unfolding c_def by (intro rpc_close_inv rpc_run_inv rpc_new)+
  show ?thesis using i rpc_run_grows[where c = c and es = later] close_pending[OF i(1)] unfolding c_def[symmetric] Let_def rpc_run_append
    by (simp add: rpc_inv_def settled_ids_def)
qed


text \<open>
  C9: given the stream of a run from a closed conversation whose streams end and whose tools
  settle, the turn of the worker ends with a reply that is done if the run completed or was
  cancelled and failed otherwise, and whose content is the summary of the run or, when that is
  empty, the text it streamed, trimmed; if the run waits for an approval the turn has asked for
  it and waits for the decision.
\<close>

theorem worker_reply_follows_the_run:
  assumes "ready st" "env_answers (rn_loop re) (fresh_params re ro run input)" "run_env_fine re" "ro_model ro"
  shows "case execute_run re ro run input im st of
      Some (Inr r, st') \<Rightarrow>
        (let turn = run_turn (env\<lparr>te_first := feed_of (Inr r, st'), te_rest := []\<rparr>) in
         if ar_status r = js ''approval-required'' then
           (case ar_pending r of
              Some p \<Rightarrow> turn = None
            | None \<Rightarrow> (case turn of Some (Inr ry, tn) \<Rightarrow> ry_status ry = ReplyFailed | _ \<Rightarrow> False))
         else (case turn of
             Some (Inr ry, tn) \<Rightarrow>
               ry_status ry = (if ar_status r = js ''completed'' \<or> ar_status r = js ''cancelled'' then ReplyDone else ReplyFailed)
               \<and> ry_content ry = js_trim (or_text (ar_summary r) (concat (map delta_text (ls_out st'))))
           | _ \<Rightarrow> False))
    | _ \<Rightarrow> False"
  unfolding shows_run_def[symmetric] using execute_run_fine[OF assms, of im] fed_reply
  by (auto simp: run_fine_def settled_run_def split: option.splits sum.splits)

theorem worker_reply_follows_the_run_witness:
  "case execute_run demo_run_env demo_run_options (js ''r'') (js ''hi'') None demo_begin of
      Some (Inr r, st') \<Rightarrow>
        (let turn = run_turn (demo_turn_env\<lparr>te_first := feed_of (Inr r, st'), te_rest := []\<rparr>) in
         if ar_status r = js ''approval-required'' then
           (case ar_pending r of
              Some p \<Rightarrow> turn = None
            | None \<Rightarrow> (case turn of Some (Inr ry, tn) \<Rightarrow> ry_status ry = ReplyFailed | _ \<Rightarrow> False))
         else (case turn of
             Some (Inr ry, tn) \<Rightarrow>
               ry_status ry = (if ar_status r = js ''completed'' \<or> ar_status r = js ''cancelled'' then ReplyDone else ReplyFailed)
               \<and> ry_content ry = js_trim (or_text (ar_summary r) (concat (map delta_text (ls_out st'))))
           | _ \<Rightarrow> False))
    | _ \<Rightarrow> False"
  by (rule worker_reply_follows_the_run[OF demo_ready _ demo_env_fine])
    (simp_all add: demo_run_options_def demo_run_env_def demo_answers fresh_params_def)




text \<open>
  C12: whenever the job loop ends, in whatever way its jobs ended, the hosts that were created
  are exactly those that were closed, and none was closed twice.
\<close>

theorem hosts_are_closed_once:
  "case run_agent_loop process minted es of
      None \<Rightarrow> True
    | Some (x, st) \<Rightarrow> distinct (rg_closed (wk_registry st)) \<and> set (rg_closed (wk_registry st)) = {..<rg_made (wk_registry st)}"
proof (cases "run_agent_loop process minted es")
  case (Some p)
  then show ?thesis unfolding run_agent_loop_def using job_loop_hosts[of es _ "fst p" "snd p"] new_registry_inv
    by (cases p) simp
qed simp

text \<open>
  C13: after any sequence of calls, messages, socket events, timers and closings, no promise
  handed out by the transport has been settled twice, and none that was settled is still kept as
  waiting.
\<close>

theorem transport_settles_waiters_once:
  "let st = ws_run es new_transport in
     distinct (map fst (ws_settled st)) \<and> set_mset (still_waiting st) \<inter> set (map fst (ws_settled st)) = {}"
  using waiters_distinct[OF ws_run_inv[OF new_transport_inv]] by (simp only: Let_def)

text \<open>
  C14: after any sequence of events the jobs given to claims followed by the jobs in the queue
  are the valid jobs that were received, in order: none is lost, none is given twice; and while
  a claim waits no job is queued.
\<close>

theorem jobs_keep_their_order:
  "let st = ws_run es new_transport in
     jobs_given st @ ws_jobs st = jobs_received es \<and> (if ws_jobs st = [] then True else ws_job_waiters st = [])"
  using run_known[OF new_transport_jobs(1), of es] new_transport_jobs(2)
  by (auto simp: Let_def jobs_known_def jobs_inv_def)

text \<open>
  C15: a delivery sends its message at most five times and sleeps at most four times, never
  longer than two seconds; if it succeeds the last message sent was acknowledged; and while the
  transport is not closed it succeeds exactly if one of the five attempts is acknowledged.
\<close>

theorem deliveries_are_bounded:
  "case deliver base gone goneb run of
     (r, sent, slept) \<Rightarrow> length sent \<le> 5 \<and> sorted sent \<and> length slept \<le> 4 \<and> list_all (\<lambda>d. d \<le> 2000) slept
       \<and> (if r = Inr () then sent \<noteq> [] \<and> run (last sent) = Acked else True)
       \<and> (if list_all (\<lambda>i. \<not> gone i) [0..<5] then (r = Inr ()) = (\<exists>i<5. run i = Acked) else True)"
proof -
  obtain r sent slept where d: "deliver_from base gone goneb run 0 5 None = (r, sent, slept)" by (metis prod_cases3)
  show ?thesis using deliver_from_laws[OF d] d by (auto simp: deliver_def list_all_iff)
qed

text \<open>
  C16: when a request timed out and the next request of the same type has been sent, the late
  reply to the first one, which names no request, is what the second one is answered with.
\<close>

theorem late_reply_goes_to_next_request:
  assumes "pending_of t st = []" "\<not> ws_closed st" "v = JObj ps" "message_type ps = t" "t \<notin> set reserved_types"
  shows "(Suc (ws_next st), Answered v) \<in> set (ws_settled (ws_run
    [AskFor None 0 t first_body, AskTimedOut t (ws_next st), AskFor None 0 t next_body, Message (Some v)] st))"
  using late_reply_mixed[OF assms, of first_body next_body] by (simp only: late_reply_def)

theorem late_reply_goes_to_next_request_witness:
  "let t = js ''agent.model_environment''; v = JObj [(js ''type'', JStr (js ''agent.model_environment'')), (js ''env'', JObj [])] in
   (Suc 0, Answered v) \<in> set (ws_settled (ws_run
     [AskFor None 0 t (environment_body (Some (js ''a''))), AskTimedOut t 0, AskFor None 0 t (environment_body (Some (js ''b''))), Message (Some v)]
     new_transport))"
proof -
  have p: "pending_of t new_transport = []" "\<not> ws_closed new_transport" "ws_next new_transport = 0" for t
    by (simp_all add: new_transport_def pending_of_def)
  show ?thesis
    unfolding Let_def
    by (rule late_reply_goes_to_next_request[OF p(1,2) refl, unfolded p(3)])
      (simp_all add: message_type_def getp_def reserved_types_def js_def)
qed

text \<open>
  C17: whenever a request can be prepared, the messages for the provider package hold the tool
  calls of the request and no others, in their order; and if in the request every call is
  answered right behind it, so it is in what the provider gets.
\<close>

theorem provider_sees_paired_calls:
  "case prepare_call env rq st of
      Inl e \<Rightarrow> True
    | Inr pc \<Rightarrow>
        concat (map pi_calls (px_messages (pc_context pc))) = concat (map (\<lambda>m. map call_id (calls_of m)) (llm_request.rq_messages rq))
        \<and> (if well_paired (llm_request.rq_messages rq) then pi_paired (px_messages (pc_context pc)) else True)"
  using prepared_call_calls[of env rq st] prepared_call_paired[of env rq st] by (simp split: sum.split)

text \<open>
  C18: a stream that is aborted at the start changes nothing; one whose preparation fails yields
  nothing, throws that error and keeps the metrics that were there; one that throws later leaves
  metrics of a call that did not complete, for the requested model and without usage; and any
  other leaves the usage and the completed metrics of the last done event it yielded, or what
  was there if it yielded none.
\<close>

theorem streamed_calls_leave_their_metrics:
  "case client_stream env sig steps sigs time rq st of (cs, en, st') \<Rightarrow>
     if is_aborted sig then cs = [] \<and> st' = st
     else (case prepare_call env rq (st\<lparr>ms_usage := None\<rparr>) of
         Inl e \<Rightarrow> cs = [] \<and> en = Threw e \<and> ms_metrics st' = ms_metrics st
       | Inr pc \<Rightarrow> (case en of Threw e \<Rightarrow> own_failure (pi_id (pc_model pc)) st'
           | _ \<Rightarrow> own_success (pi_id (pc_model pc)) cs (st\<lparr>ms_usage := None\<rparr>) st'))"
  by (rule client_stream_metrics)

text \<open>
  C19: if a call left metrics and the preparation of the next stream fails, the event recorded
  for the failure holds the metrics of the earlier call again, so that the run usage of both
  events is twice that of the first one and counts two calls.
\<close>

theorem failed_preparation_counts_twice:
  assumes "prepare_call env rq (st\<lparr>ms_usage := None\<rparr>) = Inl e" "ms_metrics st = Some m"
  shows "let st' = snd (snd (client_stream env None steps sigs time rq st));
             before = metrics_event shown run type st; after = metrics_event shown run type' st' in
      totals num run [before, after] = plus_usage (totals num run [before]) (totals num run [before])
      \<and> us_calls (totals num run [before, after]) = 2"
proof -
  define st' where "st' = snd (snd (client_stream env None steps sigs time rq st))"
  have same: "ms_metrics st' = ms_metrics st"
    using assms(1) by (simp add: st'_def client_stream_def throw_if_aborted_def is_aborted_def Let_def)
  have "totals num run [metrics_event shown run type st, metrics_event shown run type' st']
      = plus_usage (totals num run [metrics_event shown run type st]) (totals num run [metrics_event shown run type st])"
    using totals_append[of num run "[metrics_event shown run type st]" "[metrics_event shown run type' st']"]
      event_totals[OF same, of num run shown type type'] by simp
  then show ?thesis using counted_event[of num run shown type st] assms(2)
    by (simp add: st'_def[symmetric] Let_def plus_usage_def)
qed

theorem failed_preparation_counts_twice_witness:
  "let st' = snd (snd (client_stream demo_client_env None [] (\<lambda>k. None) (\<lambda>k. 0) demo_image_request demo_model_state));
       before = metrics_event (\<lambda>r. JNull) (js ''r'') (js ''llm.call'') demo_model_state;
       after = metrics_event (\<lambda>r. JNull) (js ''r'') (js ''llm.planner.failed'') st' in
     totals (\<lambda>t. 0) (js ''r'') [before, after] = plus_usage (totals (\<lambda>t. 0) (js ''r'') [before]) (totals (\<lambda>t. 0) (js ''r'') [before])
     \<and> us_calls (totals (\<lambda>t. 0) (js ''r'') [before, after]) = 2"
  by (rule failed_preparation_counts_twice[OF demo_preparation_fails, of "completed_metrics OpenAI (js ''m'') 5 None"])
    (simp add: demo_model_state_def)



text \<open>
  C21: the governor never separates a tool result from its call. If in a well formed thread
  every tool result follows, in its turn and with no other assistant entry between, an assistant
  entry that made the call it answers, then this holds of the thread the pipeline leaves, on
  every path, errors included.
\<close>

theorem governor_keeps_tool_pairing:
  assumes "thread_wf th" "open_last (open_turn th) (entries th)" "paired (entries th)"
    and "govern est p summ sig budget th = Some (th', r)"
  shows "paired (entries th') \<and> thread_wf th'"
  using gov_pair.pipeline[OF _ assms(4)] assms(1-3) by (auto simp: thread_ok_def)

theorem governor_keeps_tool_pairing_witness:
  "\<exists>th' r. govern estimate_message_tokens (create_context_policy demo_options)
      (\<lambda>ts s. Inr []) (\<lambda>_. False) 0 (demo_thread) = Some (th', r)
    \<and> paired (entries th')"
proof -
  obtain th' r where g: "govern estimate_message_tokens (create_context_policy demo_options)
      (\<lambda>ts s. Inr []) (\<lambda>_. False) 0 demo_thread = Some (th', r)"
    using demo_govern by (metis not_None_eq surj_pair)
  show ?thesis using g governor_keeps_tool_pairing[OF demo_ok demo_ol demo_paired g] by blast
qed

text \<open>
  C22: the governor returns for every thread, budget, summariser and signal when the calibration
  factor lies in its default range. The loop of the hard truncation runs over the array its body
  appends notices to; the fuel of the model, two rounds per entry, is enough because a notice
  stays under every cap.
\<close>

theorem governor_always_returns:
  assumes "default_range e"
  shows "\<exists>th' r. govern (est_message e) p summ sig budget th = Some (th', r)"
proof -
  have "int (est_message e (notice_message k)) \<le> 256" for k using notice_message_tokens[OF assms, of k] by simp
  then show ?thesis using govern_ends[of "est_message e" p summ sig budget th] by auto
qed

theorem governor_always_returns_witness:
  "\<exists>th' r. govern (est_message (new_estimator None None None)) (create_context_policy demo_options)
      (\<lambda>ts s. Inr []) (\<lambda>_. False) 1 (new_thread 0 0) = Some (th', r)"
  by (rule governor_always_returns) (simp add: default_range_def new_estimator_def)

text \<open>
  C23: when the governor returns without an error, its maintenance records name different stages
  in the order of the pipeline, the first starts from the tokens of the given thread, each next
  one from what its predecessor left, and the token count returned is that of the resulting
  thread.
\<close>

theorem governor_accounts_for_tokens:
  assumes "govern est p summ sig budget th = Some (th', Inr (ms, n))"
  shows "n = thread_tokens th' \<and> accounts (thread_tokens th) ms n \<and> sorted_wrt (<) (stages_of ms)
    \<and> (\<forall>m \<in> set ms. compacted m)"
  by (rule govern_accounts[OF assms])

theorem governor_accounts_for_tokens_witness:
  "accounts (thread_tokens (new_thread 3 4)) [] 0"
proof -
  have "govern estimate_message_tokens (create_context_policy demo_options) (\<lambda>ts s. Inr []) (\<lambda>_. False) 0
      (new_thread 3 4) = Some (new_thread 3 4, Inr ([], 0))"
    by (simp add: govern_def thread_tokens_def new_thread_def)
  then show ?thesis using governor_accounts_for_tokens by blast
qed

text \<open>
  C24: restoring the exported state of a well formed thread into any thread, keeping the open
  turn, succeeds, and exporting the result gives back the saved state except that the turns have
  new names, assigned injectively; messages, kinds, elision marks, statuses and the open turn
  all survive.
\<close>

theorem restore_is_export_up_to_renaming:
  assumes "thread_wf th" "0 \<le> current_iteration th"
  shows "fst (restore_state est True (export_state th) th0)
    \<and> export_state (snd (restore_state est True (export_state th) th0))
        = rename_state (renamed_turn th th0) (export_state th)
    \<and> inj_on (renamed_turn th th0) (set (map_keys (turns th)))
    \<and> thread_wf (snd (restore_state est True (export_state th) th0))"
  using export_restored[OF assms] renamed_inj[OF assms(1)] restore_keep_wf[OF assms(1)]
  by (simp add: restore_keep[OF assms(1)])

theorem restore_is_export_up_to_renaming_witness:
  "fst (restore_state estimate_message_tokens True (export_state
      (add_notice estimate_message_tokens (js ''n'') (new_thread 0 0))) (new_thread 7 5))"
proof -
  have "0 \<le> current_iteration (add_notice estimate_message_tokens (js ''n'') (new_thread 0 0))"
    by (simp add: add_notice_def new_thread_def next_turn_id_def append_entry_def ensure_turn_def)
  from restore_is_export_up_to_renaming[OF add_notice_wf[OF new_thread_wf] this] show ?thesis by blast
qed

text \<open>
  C25: when a worker dies in the middle of a turn and the thread is restored without keeping the
  open turn, the restored thread is well formed, has no open turn, and every tool call of the
  interrupted turn that is still recorded has its tool result, so the next request to the model
  carries no dangling call.
\<close>

theorem restore_after_crash:
  fixes th th0 :: thread and est :: estimate
  assumes "thread_wf th" "open_turn th = Some t"
  defines "th' \<equiv> snd (restore_state est False (export_state th) th0)"
  shows "thread_wf th' \<and> open_turn th' = None \<and> turn_answered (renamed_turn th th0 t) (entries th')"
  unfolding th'_def using restore_crash(1,2)[OF assms(1)] restore_crash(3)[OF assms(1,2)] by blast

theorem restore_after_crash_witness:
  "\<exists>th t. begin_turn estimate_message_tokens (js ''hi'') None (new_thread 0 0) = Inr th
     \<and> open_turn th = Some t
     \<and> open_turn (snd (restore_state estimate_message_tokens False (export_state th) (new_thread 3 3))) = None"
proof -
  have "\<exists>th t. begin_turn estimate_message_tokens (js ''hi'') None (new_thread 0 0) = Inr th
     \<and> open_turn th = Some t"
    by (simp add: begin_turn_def new_thread_def next_turn_id_def append_entry_def)
  then show ?thesis using restore_after_crash begin_turn_wf[OF new_thread_wf] by blast
qed

text \<open>
  C26: a call the approval gate does not let through (unknown tool, invalid input, denied, or to
  be approved and not approved) throws, records no start, and its outcome is the same whatever
  the execution of the tool would bring: the tool is never run.
\<close>

theorem gateway_blocks_unapproved_calls:
  assumes "\<not> permitted g inp" "call_tool g env inp = Some (tr, r)"
  shows "(\<exists>f. r = Inl f) \<and> (\<forall>m v n. TStarted m v n \<notin> set tr)
    \<and> (\<forall>evs. call_tool g (env\<lparr>env_events := evs\<rparr>) inp = Some (tr, r))"
  using not_permitted_env(2,3)[OF assms] assms(2) by (simp add: not_permitted_env(1)[OF assms(1)])

theorem gateway_blocks_unapproved_calls_witness:
  "\<forall>evs. call_tool demo_gateway (demo_env\<lparr>env_events := evs\<rparr>) (demo_input None) = call_tool demo_gateway demo_env (demo_input None)"
proof -
  have "\<exists>tr r. call_tool demo_gateway demo_env (demo_input None) = Some (tr, r)"
    by (simp add: call_tool_def throw_if_aborted_def is_aborted_def signal_at_def parse_input_def demo_gateway_defs Let_def)
  then show ?thesis using gateway_blocks_unapproved_calls[OF demo_not_permitted] by metis
qed



section \<open>Recording and undoing file mutations\<close>

text \<open>
  C28: after a recorded mutation whose action succeeded and changed something, an undo without a
  target finds no conflict, takes back that transaction, and leaves every path below its roots
  as it was before the mutation; other paths are as the action left them, except that missing
  directories may appear.
\<close>

theorem undo_reverts_mutation:
  assumes "inj (hx_sha hx)" "blobs_ok hx (sv_blobs sv)" "admitted check inp" "roots_of sv inp ps"
    and "capturable hx (sv_fs sv) ps" "action (sv_fs sv) = (F, Inr r)" "capturable hx F ps"
    and "\<not> same_roots (map (capture_root hx (sv_fs sv)) ps) (map (capture_root hx F) ps)"
    and "newest (sv_journal sv) inp"
  shows "\<exists>sv1 sv2 out. record_mutation hx check sv inp action = (sv1, Inr r) \<and> sv_fs sv1 = F
    \<and> undo hx now sv1 None = (sv2, Inr out) \<and> ur_transactions out = [mi_id inp]
    \<and> (\<forall>q. (\<exists>p\<in>set ps. prefix p q) \<longrightarrow> map_of (sv_fs sv2) q = map_of (sv_fs sv) q)
    \<and> (\<forall>q. \<not> (\<exists>p\<in>set ps. prefix p q) \<longrightarrow> map_of (sv_fs sv2) q = map_of F q
          \<or> map_of F q = None \<and> map_of (sv_fs sv2) q = Some DirN)"
proof -
  obtain sv1 m where rec: "record_mutation hx check sv inp action = (sv1, Inr r)" and F: "sv_fs sv1 = F"
    and b: "blobs_ok hx (sv_blobs sv1)"
    and cov: "\<And>p. p \<in> set ps \<Longrightarrow> map_of (sv_fs sv) p \<noteq> None \<Longrightarrow> covers hx (sv_blobs sv1) (sv_fs sv) p"
    and m: "last (list_active (sv_journal sv1)) = m" "list_active (sv_journal sv1) \<noteq> []" "pm_id m = mi_id inp"
      "pm_pre m = map (capture_root hx (sv_fs sv)) ps" "mr_post m = map (capture_root hx F) ps"
    using record_success[where action = action, OF assms(1-6,8,9)] by blast
  have "capturable hx (sv_fs sv1) ps" "mr_post m = map (capture_root hx (sv_fs sv1)) ps"
    using assms(7) m(5) F by simp_all
  from undo_last[OF assms(1) b assms(5) this(1) cov m(1,2,4) this(2), of now]
  obtain sv2 out where "undo hx now sv1 None = (sv2, Inr out)" "ur_transactions out = [pm_id m]"
    "\<And>p q. p \<in> set ps \<Longrightarrow> prefix p q \<Longrightarrow> map_of (sv_fs sv2) q = map_of (sv_fs sv) q"
    "\<And>q. \<forall>p\<in>set ps. \<not> prefix p q \<Longrightarrow> map_of (sv_fs sv2) q = map_of (sv_fs sv1) q
          \<or> map_of (sv_fs sv1) q = None \<and> map_of (sv_fs sv2) q = Some DirN"
    by blast
  with rec F m(3) show ?thesis by (intro exI[of _ sv1] exI[of _ sv2] exI[of _ out]) auto
qed

theorem undo_reverts_mutation_witness:
  "\<exists>sv1 sv2 out. record_mutation demo_hashes Inr demo_service demo_mutation (\<lambda>fs. (demo_after, Inr ())) = (sv1, Inr ())
    \<and> undo demo_hashes 9 sv1 None = (sv2, Inr out) \<and> map_of (sv_fs sv2) [js ''f''] = Some (FileN (js ''x''))"
proof -
  have fs: "sv_fs demo_service = [([], DirN), ([js ''f''], FileN (js ''x''))]" by (simp add: demo_service_def)
  have ch: "\<not> same_roots (map (capture_root demo_hashes (sv_fs demo_service)) [[js ''f'']]) (map (capture_root demo_hashes demo_after) [[js ''f'']])"
    unfolding fs by (simp add: same_roots_def capture_root_def capture_entries_def exists_sync_def walk.simps
        snapshot_entry_def demo_hashes_def Let_def)
  have new: "newest (sv_journal demo_service) demo_mutation" by (simp add: newest_def demo_service_def demo_journal_def)
  from undo_reverts_mutation[where action = "\<lambda>fs. (demo_after, Inr ())" and now = 9, OF demo_hash demo_admitted demo_roots demo_capturable[of "js ''x''", folded fs]
      refl demo_capturable[of "js ''y''"] ch new]
  obtain sv1 sv2 out where "record_mutation demo_hashes Inr demo_service demo_mutation (\<lambda>fs. (demo_after, Inr ())) = (sv1, Inr ())"
    "undo demo_hashes 9 sv1 None = (sv2, Inr out)" "map_of (sv_fs sv2) [js ''f''] = map_of (sv_fs demo_service) [js ''f'']"
    by auto
  then show ?thesis unfolding fs by auto
qed

text \<open>
  C29: when the action of a recorded mutation throws, whatever it did to the tree below the
  roots before, the call throws the action's error, every path below the roots is as before the
  call, and the transaction is neither committed nor left open.
\<close>

theorem failed_mutation_leaves_roots:
  assumes "inj (hx_sha hx)" "blobs_ok hx (sv_blobs sv)" "admitted check inp" "roots_of sv inp ps"
    and "capturable hx (sv_fs sv) ps" "action (sv_fs sv) = (F, Inl e)" "map_wf F" "\<And>p. p \<in> set ps \<Longrightarrow> clear_way p F"
  shows "\<exists>sv1. record_mutation hx check sv inp action = (sv1, Inl e)
    \<and> (\<forall>q. (\<exists>p\<in>set ps. prefix p q) \<longrightarrow> map_of (sv_fs sv1) q = map_of (sv_fs sv) q)
    \<and> j_committed (sv_journal sv1) = j_committed (sv_journal sv)
    \<and> map_of (j_prepared (sv_journal sv1)) = (map_of (j_prepared (sv_journal sv)))(mi_id inp := None)"
  using record_failure[where action = action, OF assms] by blast

theorem failed_mutation_leaves_roots_witness:
  "\<exists>sv1. record_mutation demo_hashes Inr demo_service demo_mutation (\<lambda>fs. (demo_after, Inl (fs_error ''EIO''))) = (sv1, Inl (fs_error ''EIO'') :: thrown + unit)
    \<and> map_of (sv_fs sv1) [js ''f''] = Some (FileN (js ''x''))"
proof -
  have fs: "sv_fs demo_service = [([], DirN), ([js ''f''], FileN (js ''x''))]" by (simp add: demo_service_def)
  from failed_mutation_leaves_roots[where action = "\<lambda>fs. (demo_after, Inl (fs_error ''EIO''))",
      OF demo_hash demo_admitted demo_roots demo_capturable[of "js ''x''", folded fs] refl]
  obtain sv1 where "record_mutation demo_hashes Inr demo_service demo_mutation (\<lambda>fs. (demo_after, Inl (fs_error ''EIO''))) = (sv1, Inl (fs_error ''EIO'') :: thrown + unit)"
    "map_of (sv_fs sv1) [js ''f''] = map_of (sv_fs demo_service) [js ''f'']"
    using demo_clear[of "js ''y''"] by (auto simp: map_wf_def)
  then show ?thesis unfolding fs by auto
qed

text \<open>
  C30: a process that stops at any point inside the action of a mutation leaves a journal from
  which the next process restores every path below the roots, whatever the interrupted action
  had done, and after that no transaction is open and the committed ones are those from before.
\<close>

theorem crashed_mutation_is_recovered:
  assumes "inj (hx_sha hx)" "blobs_ok hx (sv_blobs sv)" "capturable hx (sv_fs sv) ps"
    and "in_step (sv_journal sv)" "j_prepared (sv_journal sv) = []" "j_root (sv_journal sv) = sv_root sv"
    and "prepare_mutation hx sv inp ps = (m, sv2)" "map_wf F" "\<And>p. p \<in> set ps \<Longrightarrow> clear_way p F"
  shows "\<exists>sv'. start_service (sv_root sv) F (sv_blobs sv2) (j_lines (sv_journal sv2)) (j_tail (sv_journal sv2)) = Inr (sv', None)
    \<and> j_prepared (sv_journal sv') = [] \<and> j_committed (sv_journal sv') = j_committed (sv_journal sv)
    \<and> (\<forall>q. (\<exists>p\<in>set ps. prefix p q) \<longrightarrow> map_of (sv_fs sv') q = map_of (sv_fs sv) q)"
  using recover_crash[OF assms] by blast

theorem crashed_mutation_is_recovered_witness:
  "\<exists>m sv2 sv'. prepare_mutation demo_hashes demo_service demo_mutation [[js ''f'']] = (m, sv2)
    \<and> start_service (js ''/w'') demo_after (sv_blobs sv2) (j_lines (sv_journal sv2)) (j_tail (sv_journal sv2)) = Inr (sv', None)
    \<and> map_of (sv_fs sv') [js ''f''] = Some (FileN (js ''x''))"
proof -
  obtain m sv2 where p: "prepare_mutation demo_hashes demo_service demo_mutation [[js ''f'']] = (m, sv2)"
    by (cases "prepare_mutation demo_hashes demo_service demo_mutation [[js ''f'']]")
  have fs: "sv_fs demo_service = [([], DirN), ([js ''f''], FileN (js ''x''))]" by (simp add: demo_service_def)
  have j: "in_step (sv_journal demo_service)" "j_prepared (sv_journal demo_service) = []"
      "j_root (sv_journal demo_service) = sv_root demo_service"
    by (simp_all add: demo_service_def demo_journal_def in_step_def load_def empty_journal_def)
  from crashed_mutation_is_recovered[OF demo_hash demo_capturable[of "js ''x''", folded fs] j p, of demo_after]
  obtain sv' where "start_service (sv_root demo_service) demo_after (sv_blobs sv2) (j_lines (sv_journal sv2)) (j_tail (sv_journal sv2)) = Inr (sv', None)"
    "map_of (sv_fs sv') [js ''f''] = map_of (sv_fs demo_service) [js ''f'']"
    using demo_clear[of "js ''y''"] by (auto simp: map_wf_def)
  with p show ?thesis unfolding fs by (auto simp: demo_service_def)
qed

text \<open>
  C31: starting from a file whose last line is complete, after any sequence of operations that
  do not throw, the file replays to exactly the collections the process holds in memory.
\<close>

theorem journal_replays_itself:
  assumes "load wsroot ls None = Inr j" "run_calls journal_exec cs j = Inr j'"
  shows "j_tail j' = None \<and> load (j_root j') (j_lines j') None = Inr j'"
  using jrn.run_inv[OF start_in_step[OF assms(1)] assms(2)] by (simp add: in_step_def)

theorem journal_replays_itself_witness:
  "\<exists>j'. run_calls journal_exec [JUndo (js ''t'') 3, JRollBack (js ''t'') []] demo_journal = Inr j'
     \<and> load (js ''/w'') (j_lines j') None = Inr j'"
proof -
  have l: "load (js ''/w'') [] None = Inr demo_journal" by (simp add: load_def empty_journal_def demo_journal_def)
  obtain j' where r: "run_calls journal_exec [JUndo (js ''t'') 3, JRollBack (js ''t'') []] demo_journal = Inr j'" by simp
  have "j_root j' = js ''/w''"
    using r by (auto simp: demo_journal_def append_undone_def append_rolled_back_def append_event_def Let_def)
  with r journal_replays_itself[OF l r] show ?thesis by auto
qed

section \<open>The edit tool, diffs and paths\<close>



text \<open>
  C33: reading the kept and deleted lines of an edit script gives back the old lines, numbered
  from 1 without gaps, and reading the kept and added lines gives the new ones, numbered
  likewise.
\<close>

theorem edit_script_transforms:
  "map so_text (filter (\<lambda>x. so_kind x \<noteq> AddL) (build_edit_script a b)) = a
   \<and> map so_text (filter (\<lambda>x. so_kind x \<noteq> DelL) (build_edit_script a b)) = b
   \<and> map so_old (filter (\<lambda>x. so_kind x \<noteq> AddL) (build_edit_script a b)) = map Some [1..<Suc (length a)]
   \<and> map so_new (filter (\<lambda>x. so_kind x \<noteq> DelL) (build_edit_script a b)) = map Some [1..<Suc (length b)]"
  using script_correct[of a b] by (simp add: old_side_def new_side_def)

text \<open>
  C34: a path the workspace scope accepts for writing is the workspace or below it and has no
  parent-directory segment, and its real path is inside the real workspace, or it is missing and
  the real path of its nearest existing ancestor is.
\<close>

theorem file_tools_stay_in_workspace:
  assumes "resolve_writable_path_within_workspace realpath cwd wroot input WorkspaceScope = Inr t"
  shows "(t = normalize_path wroot \<or> (\<exists>r. t = normalize_path wroot @ slash # r)) \<and> dotdot \<notin> set (split_char slash t)
    \<and> (really_inside realpath wroot t
       \<or> missing realpath t \<and> (\<exists>k. really_inside realpath wroot ((dirname ^^ Suc k) t)
            \<and> (\<forall>i\<le>k. missing realpath ((dirname ^^ i) t))))"
  using writable_inside[OF assms] by (simp add: path_under_iff)

theorem file_tools_stay_in_workspace_witness:
  "dotdot \<notin> set (split_char slash (js ''/w/n''))"
  using file_tools_stay_in_workspace[OF demo_writable] by simp



text \<open>
  C36: if no call waits for ever, executing a batch returns; a completed batch has one result
  per call, in the order of the calls, whatever ran in parallel; a cancelled one answers a
  prefix; one stopped for an approval answers the calls in front and keeps the asked call and
  the rest in the pending session and in the checkpoint.
\<close>

theorem batch_answers_its_calls:
  assumes "\<And>i c. call_tool g (bn_call env i) (batch_call (Some (bi_iteration inp)) c) \<noteq> None"
  shows "\<exists>r lp' tr. execute_tool_batch g env attach inp lp = Some (r, lp', tr) \<and> batch_outcome inp (bi_calls inp) lp' r"
  using execute_batch_returns[OF assms] execute_batch_outcome by (metis not_Some_eq prod_cases3)

theorem batch_answers_its_calls_witness:
  "\<exists>r lp' tr. execute_tool_batch demo_tools demo_batch_env id
       (demo_batch [named_call ''a'' ''Stat'', named_call ''b'' ''Send'', named_call ''c'' ''Stat'']) demo_loop = Some (r, lp', tr)
     \<and> batch_outcome (demo_batch [named_call ''a'' ''Stat'', named_call ''b'' ''Send'', named_call ''c'' ''Stat''])
         (bi_calls (demo_batch [named_call ''a'' ''Stat'', named_call ''b'' ''Send'', named_call ''c'' ''Stat''])) lp' r"
  by (rule batch_answers_its_calls) (simp add: demo_batch_env_def demo_call_returns)


text \<open>
  C38: if a checkpoint that waits for an approval was saved, and the thread still has its call
  unanswered and its completed calls answered, and the policy still asks for it at the same
  risk, then exporting and restoring it succeeds, with the same checkpoint, the same approval to
  show and the pending session it describes, call inputs taken through JSON.
\<close>

theorem saved_approval_survives_restart:
  assumes "update_checkpoint zod n c0 lp0 = Inr lp"
    and "rc_status c0 = CkAwaiting" "rc_pending c0 = Some pc" "rc_approval c0 = Some pa"
    and "fits_turn (clone_call pc) c0 th" "still_asked g (clone_call pc) pa"
  shows "\<exists>w lp2. export_run_checkpoint zod' lp = Inr (Some w)
    \<and> restore_run_checkpoint zod' (Some g) th (Some w) lp1 = (Inr True, lp2)
    \<and> tl_checkpoint lp2 = tl_checkpoint lp \<and> get_pending_tool_approval lp2 = Some pa
    \<and> tl_pending lp2 = [(rc_run c0, \<lparr>ps_run = rc_run c0, ps_input = rc_input c0, ps_call = clone_call pc,
        ps_remaining = map clone_call (rc_remaining c0), ps_tools = list_tools g, ps_iteration = rc_iteration c0,
        ps_followups = rc_followups c0, ps_completed = rc_completed c0\<rparr>)]"
  by (rule saved_approval_restored[OF assms])

theorem saved_approval_survives_restart_witness:
  "\<exists>lp w lp2. update_checkpoint (\<lambda>_. plain_error [] []) False demo_checkpoint demo_loop = Inr lp
    \<and> restore_run_checkpoint (\<lambda>_. plain_error [] []) (Some demo_tools) (ss_thread demo_asked) (Some w) demo_loop = (Inr True, lp2)
    \<and> get_pending_tool_approval lp2 = rc_approval demo_checkpoint"
proof -
  obtain lp where lp: "update_checkpoint (\<lambda>_. plain_error [] []) False demo_checkpoint demo_loop = Inr lp"
    using demo_saved by blast
  show ?thesis using lp saved_approval_survives_restart[OF lp _ _ _ demo_fits demo_asks, of "\<lambda>_. plain_error [] []" demo_loop]
    by (auto simp: demo_checkpoint_def)
qed

text \<open>
  C39: the work state that a session with a normalised todo list exports passes the schema that
  restoring it checks, if and only if it has at most 500 todos.
\<close>

theorem exported_state_fits_its_schema:
  assumes "todos_wf ts" "export_work_state zod (Some ts) lp = Inr w"
  shows "is_session_work_state w \<longleftrightarrow> length ts \<le> 500"
  using exported_state_valid[OF assms] by (simp add: MAX_SAVED_TODOS_def)

theorem exported_state_fits_its_schema_witness:
  "\<exists>w. export_work_state (\<lambda>_. plain_error [] []) (Some [\<lparr>todo_id = js ''a'', todo_content = js ''x'', todo_status = Pending\<rparr>]) demo_loop = Inr w
     \<and> is_session_work_state w"
proof -
  obtain w where w: "export_work_state (\<lambda>_. plain_error [] []) (Some [\<lparr>todo_id = js ''a'', todo_content = js ''x'', todo_status = Pending\<rparr>]) demo_loop = Inr w"
    by (simp add: export_work_state_def export_run_checkpoint_def demo_loop_def)
  have "todos_wf [\<lparr>todo_id = js ''a'', todo_content = js ''x'', todo_status = Pending\<rparr>]"
    by (simp add: todos_wf_def js_trim_def trim_start_def is_ws_def js_def)
  from exported_state_fits_its_schema[OF this w] show ?thesis using w by simp
qed



section \<open>Further laws\<close>

text \<open>
  Interrupting a waiting run returns a result and leaves a session with no open turn, in which
  every call of the thread is answered right behind it, and no pending approval of the run: the
  state a run may start from.
\<close>

theorem dropped_approval_leaves_ready:
  assumes "waiting run st"
  shows "case interrupt_pending_approval env run why st of
      (Inr (Some r), st') \<Rightarrow> closed_session (ls_session st') \<and> grouped (session_entries (ls_session st'))
        \<and> map_of (tl_pending (ls_loop st')) run = None
    | _ \<Rightarrow> False"
  using interrupt_fine[OF assms, of env why] by (auto simp: ready_def split: prod.splits sum.splits option.splits)

theorem dropped_approval_leaves_ready_witness:
  "case interrupt_pending_approval (demo_loop_env None) (js ''r'') None demo_waiting of
      (Inr (Some r), st') \<Rightarrow> closed_session (ls_session st') \<and> grouped (session_entries (ls_session st'))
        \<and> map_of (tl_pending (ls_loop st')) (js ''r'') = None
    | _ \<Rightarrow> False"
  by (rule dropped_approval_leaves_ready[OF demo_is_waiting])

text \<open>
  The result of a subagent that returns is incomplete, with an item left for its parent, exactly
  if its trace holds the stall; so it is completed, with no item, unless its last request is one
  of the ordinary rounds: a subagent that was cut off by its iteration limit counts as
  completed.
\<close>

theorem only_a_stall_makes_a_subagent_incomplete:
  "case run_subagent env d r of
     Some (Inr oc, evs, Some st) \<Rightarrow>
       sx_status (oc_result oc) = (if stall_noted st then SubIncomplete else SubCompleted)
       \<and> (sx_incomplete (oc_result oc) = [] \<longleftrightarrow> sx_status (oc_result oc) = SubCompleted)
       \<and> (sx_status (oc_result oc) = SubCompleted \<or> last_ordinary st)
   | _ \<Rightarrow> True"
  by (auto dest: run_subagent_status split: option.split sum.split)

text \<open>
  The Task tool answers a nested call with a denial, throws only an error that counts as a
  cancellation, and turns every other error of the subagent into a result whose text begins with
  Task failed.
\<close>

theorem task_throws_only_cancellations:
  "case task_execute (default_runner env d) depth sig parent i of
     None \<Rightarrow> depth < 1 \<and> run_subagent env d (task_request depth parent i) = None
   | Some (Inl e) \<Rightarrow> depth < 1 \<and> is_operation_aborted e sig
       \<and> map_option fst (run_subagent env d (task_request depth parent i)) = Some (Inl e)
   | Some (Inr h) \<Rightarrow> if 1 \<le> depth then h = task_denied
       else (case run_subagent env d (task_request depth parent i) of
           Some (Inl e, x) \<Rightarrow> h_text h = js ''Task failed: '' @ err_text e
         | Some (Inr oc, x) \<Rightarrow> h_text h = format_subagent_tool_content oc
         | None \<Rightarrow> False)"
  by (auto simp: task_execute_def default_runner_def task_failure_def task_success_def plain_handler_result_def Let_def
      split: option.split sum.split)

text \<open>
  Whatever the listeners do with an event, it is stored once and each listener subscribed when
  it was appended hears it once, in the order of subscription.
\<close>

theorem listeners_hear_each_event_once:
  "let ob' = observable_append react e ob in
     ob_events ob' = ob_events ob @ [e] \<and> ob_heard ob' = ob_heard ob @ map (\<lambda>l. (l, e)) (ob_listeners ob)"
  by (simp add: observable_append_def notified store_append_def Let_def)

text \<open>
  The usage of a run over two parts of a trace is the sum of both, and events of other runs add
  nothing.
\<close>

theorem run_usage_adds_up:
  "totals num run (es @ fs) = plus_usage (totals num run es) (totals num run fs)
   \<and> (if list_all (\<lambda>e. tv_run e \<noteq> run) fs then totals num run (es @ fs) = totals num run es else True)"
  by (simp add: totals_append totals_others plus_usage_zero)

text \<open>
  After any sequence of the runtime's controls its session satisfies its invariant and the
  loop's model is set exactly if there is a client.
\<close>

theorem runtime_controls_keep_session:
  "runtime_ok rt \<Longrightarrow> runtime_ok (fold (runtime_exec env) cs rt)"
  by (rule runtime_execs_ok)

text \<open>
  After the pipeline the same turn is open, and its entries are those it had before, in the same
  order and with the same ids, kinds, calls and answered ids, followed by at most further
  entries; only texts may have been shortened.
\<close>

theorem governor_keeps_open_turn:
  assumes "thread_wf th" "open_last (open_turn th) (entries th)" "open_turn th = Some t"
    and "govern est p summ sig budget th = Some (th', r)"
  shows "open_turn th' = Some t \<and> prefix (turn_shape t th) (turn_shape t th')"
  using gov_open.pipeline[OF _ assms(4), where t = t and xs = "turn_shape t th"] assms(1-3)
  by (simp add: thread_ok_def)

theorem governor_keeps_open_turn_witness:
  "\<exists>th' r. govern estimate_message_tokens (create_context_policy demo_options)
      (\<lambda>ts s. Inr []) (\<lambda>_. False) 0 demo_thread = Some (th', r)
    \<and> open_turn th' = Some (turn_name 1)"
proof -
  obtain th' r where g: "govern estimate_message_tokens (create_context_policy demo_options)
      (\<lambda>ts s. Inr []) (\<lambda>_. False) 0 demo_thread = Some (th', r)"
    using demo_govern by (metis not_None_eq surj_pair)
  show ?thesis using g governor_keeps_open_turn[OF demo_ok demo_ol demo_open g] by blast
qed

text \<open>
  A truncated text has at most \<open>max 32 (4 n)\<close> characters for a cap of
  \<open>n\<close> tokens; a text within that length is unchanged, and a longer one keeps at
  least six characters of both ends.
\<close>

theorem truncation_bounds:
  "int (length (truncate_head_tail s n)) \<le> max 32 (n * 4)
   \<and> (if int (length s) \<le> max 32 (n * 4) then truncate_head_tail s n = s
      else \<exists>h \<ge> 6. truncate_head_tail s n = take h s @ OMITTED @ drop (length s - h) s)"
  using truncate_length truncate_short truncate_ends by (auto simp: not_le)

text \<open>
  The cut assumes four characters to a token while the estimator counts one token for each CJK
  character: a CJK text of four times the cap is returned whole.
\<close>

theorem chinese_text_escapes_truncation:
  assumes "\<forall>c \<in> set s. is_cjk c" "8 \<le> n" "int (length s) = 4 * n"
  shows "truncate_head_tail s n = s \<and> int (estimate_text_tokens s) = 4 * n"
  by (rule truncate_cjk[OF assms])

theorem chinese_text_escapes_truncation_witness:
  "truncate_head_tail (replicate 400 0x4E2D) 100 = replicate 400 0x4E2D
   \<and> int (estimate_text_tokens (replicate 400 0x4E2D)) = 400"
  using chinese_text_escapes_truncation[of "replicate 400 0x4E2D" 100] by (simp add: is_cjk_def)

text \<open>
  Interrupting the open turn of a well formed thread never throws; afterwards no turn is open,
  the turn is marked aborted, and every tool call kept in it has a tool result.
\<close>

theorem interrupted_turn_is_answered:
  assumes "thread_wf th" "open_turn th = Some t"
  shows "\<exists>th'. interrupt_turn est r th = Inr th' \<and> thread_wf th' \<and> open_turn th' = None
    \<and> map_of (turns th') t = Some TAborted \<and> turn_answered t (entries th')"
  using interrupt_answers[OF assms] .

theorem interrupted_turn_is_answered_witness:
  "\<exists>th t th'. begin_turn estimate_message_tokens (js ''hi'') None (new_thread 0 0) = Inr th
     \<and> open_turn th = Some t
     \<and> interrupt_turn estimate_message_tokens (js ''stop'') th = Inr th' \<and> turn_answered t (entries th')"
proof -
  have "\<exists>th t. begin_turn estimate_message_tokens (js ''hi'') None (new_thread 0 0) = Inr th
     \<and> open_turn th = Some t"
    by (simp add: begin_turn_def new_thread_def next_turn_id_def append_entry_def)
  then show ?thesis using interrupted_turn_is_answered begin_turn_wf[OF new_thread_wf] by blast
qed

text \<open>
  The raw estimate of a text of \<open>n\<close> UTF-16 units lies between \<open>n / 8\<close>
  and \<open>n\<close>, and the estimate of a concatenation is at most the sum of the estimates
  of its parts.
\<close>

theorem token_estimate_bounds:
  "estimate_text_tokens s \<le> length s \<and> length s \<le> 8 * estimate_text_tokens s
   \<and> estimate_text_tokens (s @ t) \<le> estimate_text_tokens s + estimate_text_tokens t"
  using text_tokens_upper text_tokens_lower text_tokens_append by blast

text \<open>
  After any sequence of calibrations and resets of an estimator built with the default bounds,
  whatever usage the provider reported, a message counts for at least two tokens and at most
  twice its raw estimate.
\<close>

theorem calibrated_estimates_stay_in_range:
  assumes "run_calls estimator_exec cs (new_estimator None None None) = Inr e"
  shows "2 \<le> est_message e m \<and> est_message e m \<le> 2 * estimate_message_tokens m"
  using est_message_positive est_message_upper default_run[OF assms] by blast

theorem calibrated_estimates_stay_in_range_witness:
  "\<exists>e. run_calls estimator_exec [Calibrate 100 900, Calibrate 3 0, ResetCalibration, Calibrate 10 1]
         (new_estimator None None None) = Inr e
     \<and> 2 \<le> est_message e (Chat User (js ''hello'') None None)"
proof -
  have "\<exists>e. run_calls estimator_exec [Calibrate 100 900, Calibrate 3 0, ResetCalibration, Calibrate 10 1]
         (new_estimator None None None) = Inr e" by simp
  then show ?thesis using calibrated_estimates_stay_in_range by blast
qed

text \<open>
  For every non-negative context window the derived numbers are ordered: the tool result quota
  is at most the compaction threshold, which is at most the input budget, and input budget and
  output reserve together fit the window.
\<close>

theorem policy_numbers_ordered:
  assumes "case opt_context_window opts of None \<Rightarrow> True | Some w \<Rightarrow> 0 \<le> w"
  defines "p \<equiv> create_context_policy opts"
  shows "0 \<le> tool_result_quota p \<and> tool_result_quota p \<le> compact_threshold p
    \<and> compact_threshold p \<le> input_budget p \<and> input_budget p + output_reserve p \<le> context_window p
    \<and> 0 \<le> output_reserve p \<and> output_reserve p \<le> 32000"
  unfolding p_def by (rule policy_order[OF assms(1)])

theorem policy_numbers_ordered_witness:
  "\<exists>opts. opt_context_window opts = Some 200000 \<and> opt_is_subagent opts
     \<and> compact_threshold (create_context_policy opts) \<le> input_budget (create_context_policy opts)"
proof -
  obtain opts :: policy_options where o: "opt_context_window opts = Some 200000" "opt_is_subagent opts"
    by (metis policy_options.select_convs(1,2))
  then show ?thesis using policy_numbers_ordered[of opts] by auto
qed

text \<open>
  For every summary, the body extracted from its formatted compaction message still begins with
  the boilerplate line of the formatter, which the extraction's regular expression never
  matches.
\<close>

theorem recompaction_keeps_boilerplate:
  "starts_with (extract_compaction_body (format_compaction_content s)) COMPACTION_LINE"
  by (rule extract_keeps_line)

text \<open>
  When the signal is aborted during the wait after a first failed attempt that the policy
  repeats, the call throws and its trace is that one retry event; no final event is recorded,
  unlike for every other cancellation.
\<close>

theorem cancelled_backoff_leaves_no_final_event:
  assumes "try_attempt g env d 1 = Some (Inl e)" "\<not> is_operation_aborted e (signal_at env 1 InCatch)"
    and "1 < r_max p" "r_retry_on p e 1" "0 < retry_backoff_ms p 1" "is_aborted (signal_at env 1 DuringSleep)"
  shows "\<exists>ev f. attempt_loop g env inp d meta p (r_max p) 1 [] None = Some ([ev], Inl f) \<and> \<not> is_final ev"
  by (rule backoff_abort_trace[OF assms])

theorem cancelled_backoff_leaves_no_final_event_witness:
  "\<exists>ev f. attempt_loop demo_gateway demo_env (demo_input None) demo_tool (call_meta_of (demo_input None) RiskRead)
      DEFAULT_TOOL_RETRY_POLICY (r_max DEFAULT_TOOL_RETRY_POLICY) 1 [] None = Some ([ev], Inl f) \<and> \<not> is_final ev"
  by (rule cancelled_backoff_leaves_no_final_event[OF demo_try demo_not_cancelled _ demo_retries _ demo_sleep])
    (simp_all only: default_backoff, simp_all add: DEFAULT_TOOL_RETRY_POLICY_def)

text \<open>
  A successful replacement of a category leaves, at every name, the new definition of that name
  if there is one, nothing if the old definition was in the category, and the old definition
  otherwise; and every tool is still registered under its own name.
\<close>

theorem category_replacement_is_atomic:
  assumes "gateway_wf g" "replace_category pfx ds g = Inr g'"
  shows "gateway_wf g' \<and> map_of (g_tools g') k = (case find (\<lambda>d. t_name d = k) ds of
     Some d \<Rightarrow> Some d
   | None \<Rightarrow> (case map_of (g_tools g) k of
       Some old \<Rightarrow> if in_category pfx old then None else Some old | None \<Rightarrow> None))"
  using replace_category_lookup[OF assms] gw.exec_inv[of g "ReplaceCategory pfx ds" g'] assms by simp

theorem category_replacement_is_atomic_witness:
  "\<exists>g'. replace_category (js ''mcp:'') [] demo_gateway = Inr g' \<and> map_of (g_tools g') (js ''Read'') = None"
proof -
  have "\<exists>g'. replace_category (js ''mcp:'') [] demo_gateway = Inr g'" by (simp add: replace_category_def)
  then show ?thesis using category_replacement_is_atomic[OF demo_gateway_wf, of "js ''mcp:''" "[]" _ "js ''Read''"]
    by (auto simp: demo_gateway_defs in_category_def starts_with_def js_def)
qed

text \<open>
  Under the fixed Cloud policy, a call that passes the gate without an approval is one whose
  resolved risk is read or write; execute and network tools never start unapproved.
\<close>

theorem cloud_policy_lets_only_reads_and_writes_start:
  assumes "g_policy g = saas_tool_approval_policy" "ci_approved inp \<noteq> Some True" "permitted g inp"
  shows "\<exists>d w. map_of (g_tools g) (ci_name inp) = Some d \<and> t_parse d (ci_input inp) = Parsed w
    \<and> call_risk d w \<in> {RiskRead, RiskWrite}"
  by (rule saas_gate[OF assms])

theorem cloud_policy_lets_only_reads_and_writes_start_witness:
  "\<exists>d w. map_of (g_tools (demo_gateway\<lparr>g_policy := saas_tool_approval_policy, g_tools := [(js ''Read'', demo_tool\<lparr>t_risk := RiskWrite\<rparr>)]\<rparr>))
      (js ''Read'') = Some d \<and> call_risk d w \<in> {RiskRead, RiskWrite}"
proof -
  let ?g = "demo_gateway\<lparr>g_policy := saas_tool_approval_policy, g_tools := [(js ''Read'', demo_tool\<lparr>t_risk := RiskWrite\<rparr>)]\<rparr>"
  have "permitted ?g (demo_input None)"
    by (simp add: permitted_def demo_gateway_defs saas_tool_approval_policy_def)
  from cloud_policy_lets_only_reads_and_writes_start[OF _ _ this] show ?thesis
    by (auto simp: demo_input_def)
qed

text \<open>
  An external MCP tool that its server declares destructive is given the risk of a workspace
  write, which the fixed policy allows without asking; the same tool without annotations has to
  be approved.
\<close>

theorem destructive_mcp_tools_run_unasked:
  assumes "destructive_hint a = Some True" "read_only_hint a \<noteq> Some True"
  shows "ap_action (saas_tool_approval_policy (t\<lparr>md_risk := infer_mcp_tool_risk (Some a) None\<rparr>) v) = Allow
    \<and> ap_action (saas_tool_approval_policy (t\<lparr>md_risk := infer_mcp_tool_risk None None\<rparr>) v) = Ask"
  using destructive_allowed[OF assms] unannotated_asks by simp

theorem destructive_mcp_tools_run_unasked_witness:
  "ap_action (saas_tool_approval_policy (to_metadata demo_tool
     (infer_mcp_tool_risk (Some \<lparr>read_only_hint = None, destructive_hint = Some True, open_world_hint = Some True\<rparr>) None)) JNull) = Allow"
  using destructive_mcp_tools_run_unasked[of "\<lparr>read_only_hint = None, destructive_hint = Some True, open_world_hint = Some True\<rparr>"
      "to_metadata demo_tool RiskRead"] by (simp add: to_metadata_def)

text \<open>
  The shared classification marks an error retryable exactly when its category is timeout, rate
  limit or unavailable, keeps the source it was given, and a cancellation is always classified
  as such.
\<close>

theorem error_classification_is_safe_to_retry:
  "(c_retryable (classify_runtime_error e src) \<longleftrightarrow>
      c_category (classify_runtime_error e src) \<in> {CTimeout, CRateLimit, CUnavailable})
   \<and> c_source (classify_runtime_error e src) = src
   \<and> c_category (classify_runtime_error (e\<lparr>is_error := True, err_name := js ''AbortError''\<rparr>) src) = CCancelled"
  using classify_retryable classify_source classify_cancelled by simp

text \<open>
  A promise raced against a signal never hangs once the signal is aborted; and the race has the
  outcome of the first event that counts, later ones being void.
\<close>

theorem aborted_races_settle:
  assumes "sig \<noteq> None" "RaceAbort \<in> set evs"
  shows "\<exists>r. race_abort sig opts evs = Some r
    \<and> (is_aborted sig \<or> (\<exists>rest. List.map_filter (relevant sig opts) evs = r # rest))"
  using race_abort_ends[OF assms, of opts] race_abort_first[of sig opts evs]
  by (cases "is_aborted sig") (auto split: list.splits)

theorem aborted_races_settle_witness:
  "\<exists>r. race_abort (Some \<lparr>aborted = False, reason_of = NoReason\<rparr>) None [RaceIdle, RaceAbort, RaceResolve (1::nat)] = Some r"
  using aborted_races_settle[of "Some \<lparr>aborted = False, reason_of = NoReason\<rparr>" "[RaceIdle, RaceAbort, RaceResolve (1::nat)]" None]
  by auto

text \<open>
  Whatever sequence of writes, restores and clears a session makes, if none throws, the ids of
  its todo list are distinct, no id or content is empty or has outer white space, and the four
  counters add up to the number of items.
\<close>

theorem todo_list_stays_normalised:
  assumes "run_calls todo_exec cs [] = Inr items"
  shows "todos_wf items \<and> todo_count Pending items + todo_count InProgress items
    + todo_count Completed items + todo_count Cancelled items = length items"
  using todo.run_inv[OF _ assms] todo_count_sum by (simp add: todos_wf_def)

theorem todo_list_stays_normalised_witness:
  "\<exists>items. run_calls todo_exec [TodoWrite None [\<lparr>in_id = js '' a'', in_content = js ''x'', in_status = js ''pending''\<rparr>]] [] = Inr items
     \<and> todos_wf items"
proof -
  have "\<exists>items. run_calls todo_exec [TodoWrite None [\<lparr>in_id = js '' a'', in_content = js ''x'', in_status = js ''pending''\<rparr>]] [] = Inr items"
    by (simp add: todo_write_def normalize_todo_item_def js_trim_def trim_start_def is_ws_def js_def read_status_def TODO_STATUSES_def)
  then show ?thesis using todo_list_stays_normalised by blast
qed

text \<open>
  A merging write leaves, at each id, the last incoming item with that id and else the old item;
  the ids are those of the old list, in their order, followed by new ones.
\<close>

theorem todo_merge_is_upsert:
  assumes "todos_wf items" "normalize_all input = Inr inc" "mg \<noteq> Some False"
    "todo_write mg input items = Inr items'"
  shows "todo_at items' k = (case todo_at (rev inc) k of Some t \<Rightarrow> Some t | None \<Rightarrow> todo_at items k)
    \<and> take (length items) (map todo_id items') = map todo_id items
    \<and> set (map todo_id items') = set (map todo_id items) \<union> set (map todo_id inc)"
  using todo_merge_lookup[OF assms] todo_merge_ids[OF assms] by blast

theorem todo_merge_is_upsert_witness:
  "\<exists>items'. todo_write None [] [\<lparr>todo_id = js ''a'', todo_content = js ''x'', todo_status = Pending\<rparr>] = Inr items'
     \<and> map todo_id items' = [js ''a'']"
proof -
  let ?l = "[\<lparr>todo_id = js ''a'', todo_content = js ''x'', todo_status = Pending\<rparr>]"
  have wf: "todos_wf ?l" by (simp add: todos_wf_def js_trim_def trim_start_def is_ws_def js_def)
  obtain l where l: "todo_write None [] ?l = Inr l" by (simp add: todo_write_def)
  from todo_merge_is_upsert[OF wf _ _ l, of "[]"] have "take 1 (map todo_id l) = [js ''a'']"
    "length (map todo_id l) \<le> 1" using l by (auto simp: todo_write_def put_items_def)
  then show ?thesis using l by (cases l) auto
qed

text \<open>
  When the file ends in a torn line, the next prepared transaction is known to the process that
  appends it but not to one that loads the file later: its undo and its crash recovery are lost.
\<close>

theorem torn_line_swallows_next_event:
  assumes "load wsroot ls (Some BadLine) = Inr j"
  shows "map_of (j_prepared (append_prepared m j)) (pm_id m) = Some m
    \<and> (\<exists>k. load wsroot (j_lines (append_prepared m j)) (j_tail (append_prepared m j)) = Inr k
         \<and> j_prepared k = j_prepared j)"
  using torn_tail_loses[OF assms, of m] by auto

theorem torn_line_swallows_next_event_witness:
  "\<forall>m. \<exists>k. load (js ''/w'') (j_lines (append_prepared m (demo_journal\<lparr>j_tail := Some BadLine\<rparr>)))
        (j_tail (append_prepared m (demo_journal\<lparr>j_tail := Some BadLine\<rparr>))) = Inr k \<and> j_prepared k = []"
proof -
  have "load (js ''/w'') [] (Some BadLine) = Inr (demo_journal\<lparr>j_tail := Some BadLine\<rparr>)"
    by (simp add: load_def empty_journal_def demo_journal_def)
  from torn_line_swallows_next_event[OF this] show ?thesis by (simp add: demo_journal_def)
qed

text \<open>
  A run that deleted a directory and then wrote a file below it is refused by undo with a
  conflict on that directory, although the tree is exactly as the run left it; the tree and the
  journal stay as they are.
\<close>

theorem delete_then_write_cannot_be_undone:
  assumes "select_transactions sv (Some run) = [t1, t2]"
    and "mr_post t1 = [capture_root hx F1 [a]]" "map_of F1 [a] = None"
    and "mr_post t2 = [capture_root hx (sv_fs sv) [a, b]]" "map_of (sv_fs sv) [a, b] = Some (FileN c)"
    and "hx_digest hx (capture_entries hx (sv_fs sv) [a]) \<noteq> hx_digest hx []"
  shows "\<exists>sv'. undo hx now sv (Some run) = (sv', Inl (conflict_error [[a]]))
    \<and> sv_fs sv' = sv_fs sv \<and> sv_journal sv' = sv_journal sv"
proof -
  have "assert_can_undo hx sv [t1, t2] = Some (conflict_error [[a]])"
    using assms(6) by (simp add: assert_can_undo_def delete_then_write[OF assms(2-5)] Let_def capture_root_def)
  then show ?thesis using undo_refused[OF assms(1)] by blast
qed

theorem delete_then_write_cannot_be_undone_witness:
  "\<exists>sv'. undo demo_hashes 9 demo_rewritten (Some (js ''r'')) = (sv', Inl (conflict_error [[js ''d'']])) \<and> sv_fs sv' = sv_fs demo_rewritten"
proof -
  have "map_of [([], DirN)] [js ''d''] = None" "map_of (sv_fs demo_rewritten) [js ''d'', js ''f''] = Some (FileN (js ''x''))"
    by (simp_all add: demo_rewritten_def demo_tree_def)
  from delete_then_write_cannot_be_undone[OF demo_selected(1) demo_selected(2) this(1) demo_selected(3) this(2) demo_changed, of 9]
  show ?thesis by blast
qed

text \<open>
  An edit whose old text occurs exactly once rewrites that occurrence and leaves the text around
  it, but two dollar signs of the new text are written as one, so the file does not get the text
  that was asked for.
\<close>

theorem dollar_signs_are_not_literal:
  assumes "occurs_once original old a b" "old \<noteq> []" "36 \<notin> set x" "36 \<notin> set y" "x @ [36] @ y \<noteq> old" "path \<noteq> []"
  shows "snd (edit_execute \<lparr>ei_path = path, ei_old = Some old, ei_new = Some (x @ [36, 36] @ y), ei_replace_all = None, ei_edits = None\<rparr> original)
    = Some (a @ (x @ [36] @ y) @ b)"
proof -
  let ?inp = "\<lparr>ei_path = path, ei_old = Some old, ei_new = Some (x @ [36, 36] @ y), ei_replace_all = None, ei_edits = None\<rparr>"
  have "edit_input_valid ?inp" using assms(2,6) by (simp add: edit_input_valid_def Suc_le_eq)
  moreover have "edit_texts (normalize_edits ?inp) original = Some (a @ (x @ [36] @ y) @ b)"
    using once_split[OF assms(1,2)] once_replace[OF assms(1,2), of "x @ [36, 36] @ y"] expand_dollar_pair[OF assms(3,4)]
    by (simp add: normalize_edits_def or_default_def)
  moreover have "a @ (x @ [36] @ y) @ b \<noteq> original" using assms(1,5) by (auto simp: occurs_once_def)
  ultimately show ?thesis
    using edit_execute_cases[of ?inp original "fst (edit_execute ?inp original)" "snd (edit_execute ?inp original)"] by simp
qed

theorem dollar_signs_are_not_literal_witness:
  "snd (edit_execute \<lparr>ei_path = js ''f'', ei_old = Some (js ''X''), ei_new = Some (js ''$$''), ei_replace_all = None, ei_edits = None\<rparr> (js ''kill X''))
    = Some (js ''kill $'')"
proof -
  have "occurs_once (js ''kill X'') (js ''X'') (js ''kill '') []"
    unfolding occurs_once_def all_positions by code_simp
  from dollar_signs_are_not_literal[OF this, of "[]" "[]" "js ''f''"] show ?thesis by (simp add: js_def)
qed

text \<open>
  The length the rolling arrays compute is the last cell of the full table and the number of
  lines the edit script keeps, and no common subsequence of the two files is longer.
\<close>

theorem rolling_arrays_equal_table:
  assumes "subseq xs a" "subseq xs b"
  shows "longest_common_subsequence_length a b = lcs_table a b ! length a ! length b
    \<and> length (filter (\<lambda>x. so_kind x = EqL) (build_edit_script a b)) = longest_common_subsequence_length a b
    \<and> length xs \<le> longest_common_subsequence_length a b"
  using lcs_longest[OF assms] table_cell[of "length a" a "length b" b] script_correct(5)[of a b]
  by (simp add: rolling_correct kept_def)

theorem rolling_arrays_equal_table_witness:
  "1 \<le> longest_common_subsequence_length [js ''p'', js ''q''] [js ''q'', js ''r'']"
  using rolling_arrays_equal_table[of "[js ''q'']" "[js ''p'', js ''q'']" "[js ''q'', js ''r'']"] by simp

text \<open>
  As long as the table has at most 200000 cells, the added and removed counts of the overwrite
  preview are those the write tool reports, whatever the number of context lines, and a preview
  is never longer than the allowed number of lines.
\<close>

theorem preview_and_write_agree:
  assumes "length (split_content_lines before) * length (split_content_lines after) \<le> 200000"
    and "o_max_lcs_cells opts = None" "0 < or_default (o_max_lines opts) DEFAULT_MAX_LINES"
  shows "dp_stats (build_overwrite_diff_preview before after opts) = line_diff_stats before after
    \<and> length (dp_lines (finalize_preview hunks opts)) \<le> or_default (o_max_lines opts) DEFAULT_MAX_LINES"
  using overwrite_stats[OF assms(1,2)] finalize_length[OF assms(3)] by blast

theorem preview_and_write_agree_witness:
  "dp_stats (build_overwrite_diff_preview (js ''a'') (js ''b'') no_diff_options) = (1, 1)"
proof -
  have "dp_stats (build_overwrite_diff_preview (js ''a'') (js ''b'') no_diff_options) = line_diff_stats (js ''a'') (js ''b'')"
  proof -
    have "length (split_content_lines (js ''a'')) * length (split_content_lines (js ''b'')) \<le> 200000"
      by (simp add: split_content_lines_def Let_def ends_with_def starts_with_def js_def)
    moreover have "o_max_lcs_cells no_diff_options = None" "0 < or_default (o_max_lines no_diff_options) DEFAULT_MAX_LINES"
      by (simp_all add: no_diff_options_def or_default_def DEFAULT_MAX_LINES_def)
    ultimately show ?thesis using preview_and_write_agree by blast
  qed
  also have "\<dots> = (1, 1)"
    by (simp add: line_diff_stats_def split_content_lines_def Let_def ends_with_def starts_with_def js_def
        longest_common_subsequence_length_def lcs_row_def lcs_cell_def)
  finally show ?thesis .
qed

text \<open>
  A path on which realpath fails with ENOENT is accepted for writing as soon as its directory is
  inside the workspace; a symbolic link to a file outside that does not exist yet is such a
  path, so a write through it creates the file outside.
\<close>

theorem dangling_link_is_writable:
  assumes "resolve_within_workspace cwd wroot input = Inr t" "missing realpath t" "really_inside realpath wroot (dirname t)"
  shows "resolve_writable_path_within_workspace realpath cwd wroot input WorkspaceScope = Inr t"
proof -
  obtain e rb rp where r: "realpath t = Inl e" "is_missing_path e" "realpath wroot = Inr rb" "realpath (dirname t) = Inr rp"
      "path_under (normalize_path rb) (normalize_path rp)"
    using assms(2,3) by (auto simp: missing_def really_inside_def)
  have "assert_real_path_within_workspace rb rp input = Inr ()" using r(5) by (simp add: assert_real)
  then show ?thesis using assms(1) r
    by (simp add: resolve_writable_path_within_workspace_def resolve_tool_path_def Let_def realpath_existing_ancestor.simps)
qed

theorem dangling_link_is_writable_witness:
  "resolve_writable_path_within_workspace demo_realpath (js ''/'') (js ''/w'') (js ''n'') WorkspaceScope = Inr (js ''/w/n'')"
  by (rule dangling_link_is_writable[OF demo_lexical demo_missing demo_parent])

text \<open>
  On a detector with repeat threshold t, one batch observed again and again with the same calls
  and results is progress at first, then a repeat below the threshold, a recovery exactly when
  it is reached, and a stall at every later observation, whatever the hash is.
\<close>

theorem repeated_batches_stall:
  "fst (observe_all sha cmp (replicate (Suc n) (cs, rs)) (new_stall_detector t))
   = SProgress # map (\<lambda>k. if int k < max 1 (case t of None \<Rightarrow> 2 | Some r \<Rightarrow> r) then SRepeated
        else if int k = max 1 (case t of None \<Rightarrow> 2 | Some r \<Rightarrow> r) then SRecover else SStalled) [1..<Suc n]"
proof -
  have t: "int (sd_threshold (new_stall_detector t)) = max 1 (case t of None \<Rightarrow> 2 | Some r \<Rightarrow> r)"
    by (auto simp: new_stall_detector_def DEFAULT_STALL_REPEAT_THRESHOLD_def split: option.split)
  show ?thesis
    unfolding t[symmetric] of_nat_less_iff of_nat_eq_iff
    by (rule fresh_repeats) (use new_detector_threshold[of t] in simp_all)
qed

text \<open>
  If the signal is not aborted and the thread fits the budget that the system block leaves,
  preparing a request leaves the session as it is, runs no maintenance and returns exactly the
  snapshot.
\<close>

theorem request_without_governance_is_snapshot:
  assumes "\<not> sig AtStart" "int (thread_tokens (ss_thread s)) \<le> thread_budget (build_system_block inp s) s"
  shows "prepare_request summ sig inp s = Some (s, Inr (take_snapshot inp s, []))"
  using assms by (rule prepare_under_budget)

theorem request_without_governance_is_snapshot_witness:
  "prepare_request (\<lambda>_ _ _. Inr []) (\<lambda>_. False) \<lparr>bi_system = js ''s'', bi_tools = None\<rparr> (new_session demo_session_options 0 0)
   = Some (new_session demo_session_options 0 0, Inr (take_snapshot \<lparr>bi_system = js ''s'', bi_tools = None\<rparr> (new_session demo_session_options 0 0), []))"
  by (rule request_without_governance_is_snapshot) (simp_all add: thread_tokens_def new_session_def new_thread_def thread_budget_def)

text \<open>
  For any sources and budget, the selection splits the sources, keeps every pinned one in order,
  orders the others by falling priority, stays within the budget or what the pinned sources
  take, and drops only sources that would not fit beside those chosen.
\<close>

theorem source_selection_fills_budget:
  "case select_sources cs b e of (inc, dr) \<Rightarrow>
     mset inc + mset dr = mset cs \<and> filter src_pinned inc = filter src_pinned cs \<and> filter src_pinned dr = []
     \<and> source_tokens e inc \<le> max (pinned_tokens e cs) b
     \<and> list_all (\<lambda>d. b < source_tokens e inc + int (est_text e (render_source d))) dr
     \<and> sorted_wrt (\<lambda>a b. priority_of b \<le> priority_of a) (filter (\<lambda>c. \<not> src_pinned c) inc)"
proof -
  obtain inc dr where "select_sources cs b e = (inc, dr)" by (cases "select_sources cs b e")
  from this select_sources_parts[OF this] show ?thesis by simp
qed

text \<open>
  A session created with the default window keeps preserving 20000 recent tokens whatever window
  the next model has, although the policy made for that window alone preserves a tenth of its
  budget.
\<close>

theorem smaller_model_keeps_recent_tokens:
  assumes "so_policy o1 = None" "so_window o1 = None" "\<not> so_subagent o1"
  shows "preserve_recent_tokens (ss_policy (set_llm_client c (new_session o1 ec tc))) = 20000"
proof -
  have "preserve_recent_tokens (ss_policy (new_session o1 ec tc)) = 20000"
    using assms by (simp add: new_session_def create_context_policy_def window_options_def Let_def DEFAULT_CONTEXT_WINDOW_def)
  then show ?thesis using client_keeps_recent[of "new_session o1 ec tc" c] by simp
qed

theorem smaller_model_keeps_recent_tokens_witness:
  "preserve_recent_tokens (ss_policy (set_llm_client (Some \<lparr>mc_label = [], mc_window = Some 16000\<rparr>) (new_session demo_session_options 0 0))) = 20000
   \<and> preserve_recent_tokens (create_context_policy (window_options (Some 16000) False)) = 1400"
  using smaller_model_keeps_recent_tokens[of demo_session_options "Some \<lparr>mc_label = [], mc_window = Some 16000\<rparr>" 0 0]
  by (simp add: demo_session_options_def create_context_policy_def window_options_def Let_def)

text \<open>
  Whatever happens during a batch, every execution it starts is that of one of its calls, and
  the policy's decision for that call, at the risk of its arguments, is to allow it.
\<close>

theorem batch_starts_only_allowed_calls:
  "case execute_tool_batch g env attach inp lp of
     None \<Rightarrow> True | Some (r, lp', tr) \<Rightarrow> starts_allowed g (bi_calls inp) tr"
  by (auto intro: execute_batch_trace split: option.split)

text \<open>
  A batch completes only if it has at most 200 calls and the calls completed before in the run
  and those of the batch are at most 1000 distinct ids.
\<close>

theorem run_call_limits:
  "case execute_tool_batch g env attach inp lp of
     Some (BatchCompleted msgs, lp', tr) \<Rightarrow> length (bi_calls inp) \<le> 200
       \<and> card (set (ids_before inp lp) \<union> call_id ` set (bi_calls inp)) \<le> 1000
   | _ \<Rightarrow> True"
  using execute_batch_limits[of g env attach inp lp]
  by (auto simp: MAX_COMPLETED_def MAX_REMAINING_def split: option.split prod.split batch_result.split)

text \<open>
  Scheduled calls without approvals are answered in order, whatever ran in parallel.
\<close>

theorem scheduled_calls_answered:
  "case execute_scheduled_tool_calls g env calls tools it mx of
     Some (Inr msgs, tr) \<Rightarrow> answers_calls msgs calls | _ \<Rightarrow> True"
  using scheduled_loop_answers[where before = "[]" and out = "[]"]
  by (auto simp: execute_scheduled_tool_calls_def split: option.split prod.split sum.split)

text \<open>
  Interrupting a turn whose last group of calls is answered up to some call drops the calls from
  there on, and leaves a thread in which every call is answered right behind its message,
  provided the unanswered calls have ids that no result of the turn has.
\<close>

theorem interrupted_group_stays_paired:
  assumes "answering t rest st" "list_all (\<lambda>c. call_id c \<notin> set (result_ids t (session_entries (ls_session st)))) rest"
  shows "case session_interrupt_turn m (ls_session st) of Inl e \<Rightarrow> False | Inr s' \<Rightarrow> closed_session s' \<and> grouped (session_entries s')"
proof -
  obtain s' where "session_interrupt_turn m (ls_session st) = Inr s'" "closed_session s'"
    using in_turn_interrupt[of t "ls_session st" m] assms(1) by (auto simp: answering_def steady_def)
  then show ?thesis using interrupt_groups[OF assms] by simp
qed

theorem interrupted_group_stays_paired_witness:
  "case session_interrupt_turn (js ''stop'') (ls_session demo_waiting) of Inl e \<Rightarrow> False | Inr s' \<Rightarrow> closed_session s' \<and> grouped (session_entries s')"
proof -
  obtain t where t: "answering t demo_two_calls demo_waiting" "result_ids t (session_entries (ls_session demo_waiting)) = []"
    using demo_answering by blast
  have "list_all (\<lambda>c. call_id c \<notin> set (result_ids t (session_entries (ls_session demo_waiting)))) demo_two_calls"
    unfolding t(2) by (simp add: list_all_iff)
  from interrupted_group_stays_paired[OF t(1) this] show ?thesis .
qed

text \<open>
  In a turn with a call that no result answers, the failure handler of a run resumed after an
  approval closes the turn with that call still unanswered, while the failure handler of a fresh
  run closes it with every call answered.
\<close>

theorem failure_after_approval_leaves_calls:
  assumes "in_turn t (ls_session st)" "e \<in> set (session_entries (ls_session st))" "turn_id e = t" "c \<in> set (calls_of (message e))"
    and "call_id c \<notin> set (result_ids t (session_entries (ls_session st)))"
  shows "(case resumed_failure env run msg cl st of
        (Inl x, st') \<Rightarrow> False | (Inr r, st') \<Rightarrow> closed_session (ls_session st') \<and> \<not> turn_answered t (session_entries (ls_session st')))
    \<and> (case fresh_failure env run msg cl st of
        (Inl x, st') \<Rightarrow> False | (Inr r, st') \<Rightarrow> closed_session (ls_session st') \<and> turn_answered t (session_entries (ls_session st')))"
  using resumed_failure_leaves[OF assms] fresh_failure_answers[OF assms(1)] by simp

theorem failure_after_approval_leaves_calls_witness:
  "\<exists>t. (case resumed_failure (demo_loop_env None) (js ''r'') (js ''boom'') (classify_runtime_error (plain_error [] (js ''boom'')) FromModel) demo_waiting of
        (Inl x, st') \<Rightarrow> False | (Inr r, st') \<Rightarrow> closed_session (ls_session st') \<and> \<not> turn_answered t (session_entries (ls_session st')))"
proof -
  obtain t e where "in_turn t (ls_session demo_waiting)" "e \<in> set (session_entries (ls_session demo_waiting))" "turn_id e = t"
      "named_call ''b'' ''Gone'' \<in> set (calls_of (message e))"
      "call_id (named_call ''b'' ''Gone'') \<notin> set (result_ids t (session_entries (ls_session demo_waiting)))"
    using demo_open_call by blast
  from failure_after_approval_leaves_calls[OF this] show ?thesis by (intro exI[of _ t]) (rule conjunct1)
qed

text \<open>
  When the stream of a reply ends by the idle timeout, the result of a fresh run is cancelled
  with the reason user-interrupt, whether or not any signal was aborted.
\<close>

theorem idle_timeout_reads_as_interrupt:
  assumes "orderly t st" "lq_handlers q = fresh_handlers env run mx" "env_answers env q"
    and "open_round env q k st = Some (Inr msgs, st1)" "le_reply env k msgs = Some rp"
    and "list_all (\<lambda>c. \<not> is_aborted (fst c)) (lr_chunks rp)" "lr_threw rp = Some (idle_error o1 n)"
  shows "case streaming_loop env q k st of
      Some (Inr r, st') \<Rightarrow> ar_status r = js ''cancelled'' \<and> ar_reason r = Some (js ''user-interrupt'') | _ \<Rightarrow> False"
  using idle_is_cancelled[OF assms]
  by (auto simp: attach_from_def cancelled_result_def run_result_def plain_result_def)

theorem idle_timeout_reads_as_interrupt_witness:
  "case streaming_loop (demo_loop_env (Some (idle_error None 5))) demo_params 0 demo_waiting_model of
      Some (Inr r, st') \<Rightarrow> ar_status r = js ''cancelled'' \<and> ar_reason r = Some (js ''user-interrupt'') | _ \<Rightarrow> False"
proof -
  obtain t where t: "orderly t demo_waiting_model" using demo_orderly by blast
  obtain msgs st1 where o: "open_round (demo_loop_env (Some (idle_error None 5))) demo_params 0 demo_waiting_model = Some (Inr msgs, st1)"
    using demo_opens by blast
  show ?thesis
    by (rule idle_timeout_reads_as_interrupt[OF t _ _ o, where mx = None and run = "js ''r''" and ?o1.0 = None and n = 5
          and rp = "\<lparr>lr_chunks = [(None, ChText (js ''done''))], lr_threw = Some (idle_error None 5)\<rparr>"])
      (simp_all add: demo_params_def demo_answers is_aborted_def, simp add: demo_loop_env_def)
qed

text \<open>
  Attaching artifacts gives the distinct paths of the result and of the trace's changed files in
  code unit order, and is idempotent; every changed file comes with the tools that touched it,
  each of which completed a call that changed something, and with a path that the input of a
  started call of a file tool, or the data of a completed one, named.
\<close>

theorem artifacts_are_touched_files:
  "set (ar_artifacts (attach_result cmp (Some es) r)) = set (ar_artifacts r) \<union> set (extract_changed_files cmp es)
   \<and> distinct (ar_artifacts (attach_result cmp (Some es) r)) \<and> sorted_wrt unit_le (ar_artifacts (attach_result cmp (Some es) r))
   \<and> attach_result cmp (Some es) (attach_result cmp (Some es) r) = attach_result cmp (Some es) r
   \<and> distinct (extract_changed_files cmp es)
   \<and> list_all (\<lambda>x. snd x \<noteq> [] \<and> list_all (touched_by es (fst x)) (snd x)) (extract_touched_files cmp es)"
  by (intro conjI attach_idem distinct_files reported_files)
    (simp_all add: attach_result_def sorted_sort_by distinct_sort_by)

end
